(* ===== verification/Shop_Prelude.thy ===== *)
theory Shop_Prelude
  imports Main "HOL-Library.Product_Lexorder" "HOL-Library.Sublist"
begin

text \<open>
  Shared vocabulary of the development.

  A database table is a list of rows in insertion order together with the
  function that reads a row's primary key.  \<open>rget\<close> is
  \<^verbatim>\<open>Model.objects.get(pk=...)\<close>, \<open>rupd\<close> is
  \<^verbatim>\<open>Model.objects.filter(pk=...).update(...)\<close> (and
  \<^verbatim>\<open>obj.save(update_fields=...)\<close> of a row that was read in the same
  transaction).  A fallible operation on a state returns \<open>Inl\<close> of the raised
  exception, or \<open>Inr\<close> of its result and the new state; \<open>rbind\<close> sequences two
  of them and \<open>fold_res\<close> is a loop whose body may raise.

  The lemmas here are the ones every component uses: reading after a write,
  sums over a table after a write, and the text rendering of numbers.
\<close>

named_theorems row_simps \<open>reading a table after a write to it\<close>
named_theorems frame_simps \<open>what an operation leaves alone\<close>

type_synonym pk = nat
type_synonym money = int
type_synonym timestamp = int

section \<open>Tables\<close>

definition rget :: "('r \<Rightarrow> pk) \<Rightarrow> 'r list \<Rightarrow> pk \<Rightarrow> 'r option" where
  "rget key rs k = find (\<lambda>r. key r = k) rs"

definition rupd :: "('r \<Rightarrow> pk) \<Rightarrow> 'r list \<Rightarrow> pk \<Rightarrow> ('r \<Rightarrow> 'r) \<Rightarrow> 'r list" where
  "rupd key rs k f = map (\<lambda>r. if key r = k then f r else r) rs"

abbreviation keys_distinct :: "('r \<Rightarrow> pk) \<Rightarrow> 'r list \<Rightarrow> bool" where
  "keys_distinct key rs \<equiv> distinct (map key rs)"

lemma rget_Nil [simp]: "rget key [] k = None"
  by (simp add: rget_def)

lemma rget_Cons [simp]: "rget key (r # rs) k = (if key r = k then Some r else rget key rs k)"
  by (simp add: rget_def)

lemma rget_append [simp]:
  "rget key (rs @ qs) k = (case rget key rs k of None \<Rightarrow> rget key qs k | Some r \<Rightarrow> Some r)"
  by (induction rs) auto

lemma rupd_Nil [simp]: "rupd key [] k f = []"
  by (simp add: rupd_def)

lemma rupd_Cons [simp]:
  "rupd key (r # rs) k f = (if key r = k then f r else r) # rupd key rs k f"
  by (simp add: rupd_def)

lemma rupd_append [simp]: "rupd key (rs @ qs) k f = rupd key rs k f @ rupd key qs k f"
  by (simp add: rupd_def)

lemma length_rupd [simp]: "length (rupd key rs k f) = length rs"
  by (simp add: rupd_def)

lemma rget_Some_key: "rget key rs k = Some r \<Longrightarrow> key r = k"
  by (induction rs) (auto split: if_splits)

lemma rget_Some_in: "rget key rs k = Some r \<Longrightarrow> r \<in> set rs"
  by (induction rs) (auto split: if_splits)

lemma rget_None_iff: "rget key rs k = None \<longleftrightarrow> k \<notin> key ` set rs"
  by (induction rs) auto

lemma rget_in_distinct:
  assumes "keys_distinct key rs" and "r \<in> set rs"
  shows "rget key rs (key r) = Some r"
  using assms by (induction rs) (auto simp: image_iff)

lemma rget_rupd [row_simps]:
  assumes "\<And>r. key (f r) = key r"
  shows "rget key (rupd key rs k f) j = (if j = k then map_option f (rget key rs k) else rget key rs j)"
  using assms by (induction rs) auto

lemma rget_rupd_const:
  assumes "key q = k"
  shows "rget key (rupd key rs k (\<lambda>_. q)) j = (if j = k then map_option (\<lambda>_. q) (rget key rs k) else rget key rs j)"
  using assms by (induction rs) auto

lemma rget_map:
  assumes "\<And>r. key (f r) = key r"
  shows "rget key (map f rs) k = map_option f (rget key rs k)"
  using assms by (induction rs) auto

lemma map_key_rupd [row_simps]:
  assumes "\<And>r. key (f r) = key r"
  shows "map key (rupd key rs k f) = map key rs"
  using assms by (induction rs) auto

lemma map_rupd_other [row_simps]:
  assumes "\<And>r. g (f r) = g r"
  shows "map g (rupd key rs k f) = map g rs"
  using assms by (induction rs) auto

lemma set_rupdD: "r \<in> set (rupd key rs k f) \<Longrightarrow> r \<in> set rs \<or> (\<exists>q \<in> set rs. key q = k \<and> r = f q)"
  by (induction rs) (auto split: if_splits)

lemma rupd_absent: "k \<notin> key ` set rs \<Longrightarrow> rupd key rs k f = rs"
  by (induction rs) auto

lemma in_rupd_other: "r \<in> set rs \<Longrightarrow> key r \<noteq> k \<Longrightarrow> r \<in> set (rupd key rs k f)"
  by (induction rs) auto

lemma filter_rupd:
  assumes "\<And>r. key r = k \<Longrightarrow> P (f r) = P r"
  shows "filter P (rupd key rs k f) = rupd key (filter P rs) k f"
  using assms by (induction rs) auto

lemma rupd_unused: "(\<And>r. r \<in> set rs \<Longrightarrow> key r \<noteq> k) \<Longrightarrow> rupd key rs k f = rs"
  by (induction rs) auto

text \<open>A column sum changes by exactly what the one updated row changes.\<close>

lemma sum_list_rupd:
  fixes g :: "'r \<Rightarrow> int"
  assumes "keys_distinct key rs" and "r \<in> set rs" and "key r = k"
  shows "sum_list (map g (rupd key rs k f)) = sum_list (map g rs) - g r + g (f r)"
  using assms
proof (induction rs)
  case (Cons q rs)
  show ?case
  proof (cases "q = r")
    case True
    then have "k \<notin> key ` set rs"
      using Cons.prems by auto
    then show ?thesis
      using True Cons.prems by (simp add: rupd_absent)
  next
    case False
    then have "key q \<noteq> k"
      using Cons.prems by (auto simp: image_iff)
    then show ?thesis
      using False Cons by simp
  qed
qed simp

lemma sum_list_rupd_same:
  fixes g :: "'r \<Rightarrow> int"
  assumes "\<And>r. key r = k \<Longrightarrow> g (f r) = g r"
  shows "sum_list (map g (rupd key rs k f)) = sum_list (map g rs)"
  using assms by (induction rs) auto

lemma sum_list_filter_if:
  "sum_list (map g (filter P xs)) = sum_list (map (\<lambda>x. if P x then g x else (0::int)) xs)"
  by (induction xs) auto

lemma sum_list_nonneg_int: "(\<And>x. x \<in> set xs \<Longrightarrow> 0 \<le> g x) \<Longrightarrow> 0 \<le> sum_list (map g xs :: int list)"
  by (induction xs) auto

lemma sum_list_member_le:
  "(\<And>x. x \<in> set xs \<Longrightarrow> 0 \<le> g x) \<Longrightarrow> y \<in> set xs \<Longrightarrow> g y \<le> sum_list (map g xs :: int list)"
  by (induction xs) (auto intro: add_increasing add_increasing2 sum_list_nonneg_int)

section \<open>An integer column of a table\<close>

text \<open>
  \<^verbatim>\<open>Table.objects.filter(pk=k).update(col=F("col") + n)\<close>: the interface of an
  integer column that is changed in place.  It is interpreted for the users'
  points and for the products' stock and sales counter.
\<close>

locale int_column =
  fixes key :: "'r \<Rightarrow> pk"
    and col :: "'r \<Rightarrow> int"
    and setcol :: "(int \<Rightarrow> int) \<Rightarrow> 'r \<Rightarrow> 'r"
  assumes key_setcol: "key (setcol f r) = key r"
    and col_setcol: "col (setcol f r) = f (col r)"
begin

definition colval :: "'r list \<Rightarrow> pk \<Rightarrow> int" where
  "colval rs k = (case rget key rs k of None \<Rightarrow> 0 | Some r \<Rightarrow> col r)"

lemma rget_bump:
  "rget key (rupd key rs k (setcol f)) j
     = (if j = k then map_option (setcol f) (rget key rs k) else rget key rs j)"
  by (rule rget_rupd) (rule key_setcol)

lemma colval_bump:
  assumes "rget key rs k \<noteq> None"
  shows "colval (rupd key rs k (setcol f)) j = (if j = k then f (colval rs k) else colval rs j)"
  using assms by (auto simp: colval_def rget_bump col_setcol)

lemma colval_add:
  "colval (rupd key rs k (setcol (\<lambda>v. v + n))) j
     = colval rs j + (if j = k \<and> rget key rs k \<noteq> None then n else 0)"
  by (auto simp: colval_def rget_bump col_setcol split: option.splits)

lemma keys_bump: "map key (rupd key rs k (setcol f)) = map key rs"
  by (rule map_key_rupd) (rule key_setcol)

lemma colval_nonneg_bump:
  assumes "\<And>r. r \<in> set rs \<Longrightarrow> 0 \<le> col r" and "\<And>v. 0 \<le> v \<Longrightarrow> 0 \<le> f v"
    and "q \<in> set (rupd key rs k (setcol f))"
  shows "0 \<le> col q"
  using set_rupdD [OF assms(3)] assms(1,2) by (auto simp: col_setcol)

end

section \<open>Operations that may raise\<close>

definition rbind :: "'e + 'a \<times> 's \<Rightarrow> ('a \<Rightarrow> 's \<Rightarrow> 'e + 'b \<times> 's) \<Rightarrow> 'e + 'b \<times> 's" where
  "rbind m f = (case m of Inl e \<Rightarrow> Inl e | Inr (a, s) \<Rightarrow> f a s)"

lemma rbind_Inl [simp]: "rbind (Inl e) f = Inl e"
  by (simp add: rbind_def)

lemma rbind_Inr [simp]: "rbind (Inr (a, s)) f = f a s"
  by (simp add: rbind_def)

lemma rbind_eq_Inr:
  "rbind m f = Inr r \<longleftrightarrow> (\<exists>a s. m = Inr (a, s) \<and> f a s = Inr r)"
  by (auto simp: rbind_def split: sum.splits)

lemma rbind_InrE:
  assumes "rbind m f = Inr r"
  obtains a s where "m = Inr (a, s)" and "f a s = Inr r"
  using assms by (auto simp: rbind_eq_Inr)

definition of_get :: "'e \<Rightarrow> 'a option \<Rightarrow> 's \<Rightarrow> 'e + 'a \<times> 's" where
  "of_get e v s = (case v of None \<Rightarrow> Inl e | Some a \<Rightarrow> Inr (a, s))"

lemma of_get_simps [simp]:
  "of_get e None s = Inl e"
  "of_get e (Some a) s = Inr (a, s)"
  by (simp_all add: of_get_def)

lemma of_get_eq_Inr: "of_get e v s = Inr (a, t) \<longleftrightarrow> v = Some a \<and> t = s"
  by (auto simp: of_get_def split: option.splits)

fun fold_res :: "('x \<Rightarrow> 's \<Rightarrow> 'e + 's) \<Rightarrow> 'x list \<Rightarrow> 's \<Rightarrow> 'e + 's" where
  "fold_res f [] s = Inr s"
| "fold_res f (x # xs) s = (case f x s of Inl e \<Rightarrow> Inl e | Inr t \<Rightarrow> fold_res f xs t)"

lemma fold_res_invariant:
  assumes "fold_res f xs s = Inr t" and "P s"
    and "\<And>x s t. x \<in> set xs \<Longrightarrow> P s \<Longrightarrow> f x s = Inr t \<Longrightarrow> P t"
  shows "P t"
  using assms
proof (induction xs arbitrary: s)
  case (Cons x xs)
  then obtain u where u: "f x s = Inr u" "fold_res f xs u = Inr t"
    by (cases "f x s") simp_all
  have "P u"
    using Cons.prems(2) u(1) Cons.prems(3) [of x s u] by simp
  with u(2) show ?case
  proof (rule Cons.IH)
    fix y v w
    assume "y \<in> set xs" "P v" "f y v = Inr w"
    then show "P w"
      using Cons.prems(3) [of y v w] by simp
  qed
qed simp

lemma fold_invariant_on:
  assumes "P s" and "\<And>x s. x \<in> set xs \<Longrightarrow> P s \<Longrightarrow> P (f x s)"
  shows "P (fold f xs s)"
  using assms by (induction xs arbitrary: s) auto

lemma fold_frame:
  assumes "\<And>x s. g (f x s) = g s"
  shows "g (fold f xs s) = g s"
  using assms by (induction xs arbitrary: s) auto

lemma foldl_add_int: "fold (\<lambda>x a. a + g x) xs (a :: int) = a + sum_list (map g xs)"
  by (induction xs arbitrary: a) auto

section \<open>Numbers as text\<close>

definition digit_char :: "int \<Rightarrow> char" where
  "digit_char n = ''0123456789'' ! nat n"

text \<open>\<^verbatim>\<open>str(n)\<close> of a number that is not negative.\<close>

function str_pos :: "int \<Rightarrow> string" where
  "str_pos n = (if n < 10 then [digit_char n] else str_pos (n div 10) @ [digit_char (n mod 10)])"
  by pat_completeness auto
termination
  by (relation "measure nat") auto

declare str_pos.simps [simp del]

definition str_int :: "int \<Rightarrow> string" where
  "str_int i = (if i < 0 then CHR ''-'' # str_pos (- i) else str_pos i)"

definition str_nat :: "nat \<Rightarrow> string" where
  "str_nat n = str_pos (int n)"

text \<open>\<^verbatim>\<open>f"{n:0wd}"\<close>: padded with zeros on the left to at least \<open>w\<close> characters.\<close>

definition pad0 :: "nat \<Rightarrow> int \<Rightarrow> string" where
  "pad0 w n = replicate (w - length (str_pos n)) (CHR ''0'') @ str_pos n"

definition digit_val :: "char \<Rightarrow> int" where
  "digit_val c = int (length (takeWhile (\<lambda>d. d \<noteq> c) ''0123456789''))"

definition int_of_str :: "string \<Rightarrow> int" where
  "int_of_str s = foldl (\<lambda>a c. 10 * a + digit_val c) 0 s"

lemma less_10_cases: "0 \<le> n \<Longrightarrow> n < (10::int) \<Longrightarrow> n \<in> {0, 1, 2, 3, 4, 5, 6, 7, 8, 9}"
  by simp presburger

lemma digit_val_char: "0 \<le> n \<Longrightarrow> n < 10 \<Longrightarrow> digit_val (digit_char n) = n"
  by (drule (1) less_10_cases) (auto simp: digit_val_def digit_char_def)

lemma int_of_str_append_digit:
  "int_of_str (s @ [c]) = 10 * int_of_str s + digit_val c"
  by (simp add: int_of_str_def)

lemma int_of_str_pos [simp]: "0 \<le> n \<Longrightarrow> int_of_str (str_pos n) = n"
proof (induction n rule: str_pos.induct)
  case (1 n)
  show ?case
  proof (cases "n < 10")
    case True
    then show ?thesis
      using 1(2) by (simp add: str_pos.simps [of n] int_of_str_def digit_val_char)
  next
    case False
    then show ?thesis
      using 1 by (simp add: str_pos.simps [of n] int_of_str_append_digit digit_val_char)
  qed
qed

lemma str_pos_inj: "0 \<le> m \<Longrightarrow> 0 \<le> n \<Longrightarrow> str_pos m = str_pos n \<longleftrightarrow> m = n"
  by (metis int_of_str_pos)

lemma str_nat_inj [simp]: "str_nat m = str_nat n \<longleftrightarrow> m = n"
  by (simp add: str_nat_def str_pos_inj)

lemma int_of_str_zeros: "int_of_str (replicate k (CHR ''0'') @ s) = int_of_str s"
proof -
  have "foldl (\<lambda>a c. 10 * a + digit_val c) 0 (replicate k (CHR ''0'')) = 0"
    by (induction k) (simp_all add: digit_val_def)
  then show ?thesis
    by (simp add: int_of_str_def)
qed

lemma int_of_str_pad0 [simp]: "0 \<le> n \<Longrightarrow> int_of_str (pad0 w n) = n"
  by (simp add: pad0_def int_of_str_zeros)

lemma pad0_inj: "0 \<le> m \<Longrightarrow> 0 \<le> n \<Longrightarrow> pad0 w m = pad0 w n \<longleftrightarrow> m = n"
  by (metis int_of_str_pad0)

lemma digit_char_range: "0 \<le> n \<Longrightarrow> n < 10 \<Longrightarrow> digit_char n \<in> set ''0123456789''"
  by (drule (1) less_10_cases) (auto simp: digit_char_def)

lemma set_str_pos: "0 \<le> n \<Longrightarrow> set (str_pos n) \<subseteq> set ''0123456789''"
proof (induction n rule: str_pos.induct)
  case (1 n)
  then show ?case
    using digit_char_range [of n] digit_char_range [of "n mod 10"]
    by (subst str_pos.simps) auto
qed

lemma set_str_nat: "set (str_nat n) \<subseteq> set ''0123456789''"
  unfolding str_nat_def by (rule set_str_pos) simp

lemma str_pos_not_Nil [simp]: "str_pos n \<noteq> []"
  by (subst str_pos.simps) simp

lemma str_nat_not_Nil [simp]: "str_nat n \<noteq> []"
  by (simp add: str_nat_def)

lemma append_sep_eq:
  assumes "c \<notin> set xs" and "c \<notin> set ys" and "xs @ c # us = ys @ c # vs"
  shows "xs = ys \<and> us = vs"
  using assms
proof (induction xs arbitrary: ys)
  case Nil
  then show ?case
    by (cases ys) auto
next
  case (Cons x xs)
  then show ?case
    by (cases ys) auto
qed

section \<open>Reachable states\<close>

text \<open>
  A transition system given by its initial states and its step relation, with
  an invariant.  The components instantiate it with their own operations.
\<close>

locale transition_system =
  fixes start :: "'s \<Rightarrow> bool"
    and step :: "'s \<Rightarrow> 's \<Rightarrow> bool"
    and inv :: "'s \<Rightarrow> bool"
  assumes start_inv: "start s \<Longrightarrow> inv s"
    and step_inv: "inv s \<Longrightarrow> step s t \<Longrightarrow> inv t"
begin

inductive reachable :: "'s \<Rightarrow> bool" where
  start: "start s \<Longrightarrow> reachable s"
| step: "reachable s \<Longrightarrow> step s t \<Longrightarrow> reachable t"

lemma reachable_inv: "reachable s \<Longrightarrow> inv s"
  by (induction rule: reachable.induct) (auto intro: start_inv step_inv)

lemma steps_inv: "step\<^sup>*\<^sup>* s t \<Longrightarrow> inv s \<Longrightarrow> inv t"
  by (induction rule: rtranclp_induct) (auto intro: step_inv)

lemma start_steps_inv: "start s \<Longrightarrow> step\<^sup>*\<^sup>* s t \<Longrightarrow> inv t"
  using start_inv steps_inv by blast

end

end
