(* ===== verification/Shop_State.thy ===== *)
theory Shop_State
  imports Shop_Prelude
begin

text \<open>
  The data model of \<^verbatim>\<open>src/shopping/models\<close>: one record per table row, the
  status enumerations as datatypes, and \<open>db\<close>, the state every service and task
  works on (the tables, the id sequence, the message outbox of Celery and the
  Redis cache).  Display texts (Korean labels, descriptions, messages of
  exceptions) are not data the program computes with; the places where a text
  is compared or stored for later (log messages, failure reasons) are
  datatypes with one constructor per text.
\<close>

section \<open>JSON values\<close>

datatype json =
    JNull
  | JBool bool
  | JNum int
  | JStr string
  | JList "json list"
  | JObj "(string \<times> json) list"

type_synonym dict = "(string \<times> json) list"

text \<open>\<^verbatim>\<open>d.get(k)\<close>; a value of JSON \<open>null\<close> is Python's \<open>None\<close>.\<close>

definition dget :: "dict \<Rightarrow> string \<Rightarrow> json option" where
  "dget d k = (case map_of d k of None \<Rightarrow> None | Some JNull \<Rightarrow> None | Some v \<Rightarrow> Some v)"

definition dget_str :: "dict \<Rightarrow> string \<Rightarrow> string option" where
  "dget_str d k = (case dget d k of Some (JStr s) \<Rightarrow> Some s | _ \<Rightarrow> None)"

definition dget_int :: "dict \<Rightarrow> string \<Rightarrow> int option" where
  "dget_int d k = (case dget d k of Some (JNum i) \<Rightarrow> Some i | _ \<Rightarrow> None)"

definition dget_dict :: "dict \<Rightarrow> string \<Rightarrow> dict" where
  "dget_dict d k = (case dget d k of Some (JObj kv) \<Rightarrow> kv | _ \<Rightarrow> [])"

definition dget_list :: "dict \<Rightarrow> string \<Rightarrow> json list" where
  "dget_list d k = (case dget d k of Some (JList l) \<Rightarrow> l | _ \<Rightarrow> [])"

section \<open>Enumerations\<close>

datatype membership = Bronze | Silver | Gold | Vip

datatype order_status =
    Pending | Confirmed | Paid | Preparing | Shipped | Delivered
  | OCanceled | Refunded | PaymentFailed | Failed

datatype payment_status =
    Ready | InProgress | WaitingForDeposit | Done | Canceled | PartialCanceled | Aborted | Expired

datatype point_type =
    Earn | Use | CancelRefund | CancelDeduct | PaymentFailRefund | Expire
  | AdminAdd | AdminDeduct | Event

datatype return_type = RefundReturn | ExchangeReturn

datatype return_status = Requested | Approved | Rejected | Shipping | Received | Completed

datatype return_reason =
    ChangeOfMind | Defective | WrongProduct | DescriptionMismatch | SizeIssue | OtherReason

text \<open>Texts that are stored: \<^verbatim>\<open>Order.failure_reason\<close> and the fail reason of a rollback.\<close>

datatype reason =
    NoReason
  | StockShort pk int int
  | PointUseFailed
  | PaymentTimeout
  | ProcessingDelayed
  | ConfirmFailed
  | ConfirmRejected string
  | ConfirmRetriesExceeded string
  | ServerRetriesExceeded string
  | DepositExpired
  | WebhookFailure
  | TossFailure string
  | OrphanDetected int
  | SlaExceeded int

datatype log_type = LRequest | LApprove | LCancel | LWebhook | LError | LRollback

datatype log_msg =
    MsgRequested
  | MsgPointsEarned int
  | MsgPaidByPoints int
  | MsgApproved
  | MsgVirtualAccountIssued
  | MsgVirtualAccountReturned
  | MsgRefundOfCanceledOrder
  | MsgUsedPointsRefunded int
  | MsgEarnedPointsDeducted int
  | MsgCancelCompleted
  | MsgPointsOnlyCompleted int
  | MsgOrderExpired
  | MsgReconcileUnconfirmed
  | MsgReconcileConfirmed string
  | MsgConfirmTimeout
  | MsgConfirmError string
  | MsgCanceledOrderCharged
  | MsgFinalizeExhausted
  | MsgRolledBack reason
  | MsgReconcileUnresolved string
  | MsgReconcileRefinalized string
  | MsgEarnedNotReclaimed int
  | MsgChargedButFailed
  | MsgDepositAfterExpiry
  | MsgChargedOnCanceledOrder
  | MsgWebhookDone
  | MsgWebhookCanceled
  | MsgDepositReverted
  | MsgWebhookIssued
  | MsgWebhookFailed reason
  | MsgReturnRefund string int
  | MsgRetrySucceeded nat
  | MsgRetryFailed nat string

section \<open>Exceptions\<close>

datatype exn =
    DoesNotExist
  | IntegrityError
  | ValidationError
  | AttributeError
  | ValueError
  | BrokerError
  | OrderServiceError
  | PaymentInProgressError
  | PaymentConfirmError
  | PaymentCancelError
  | TossError string
  | ReturnValidationError
  | CartServiceError string
  | PointExpiryIncomplete int "pk list"
  | OrderNotExpirable
  | RetryTask
  | SoftTimeLimit
  | PermissionDenied
  | ImportError

section \<open>Table rows\<close>

text \<open>\<^verbatim>\<open>used_details\<close> and \<^verbatim>\<open>restored_details\<close> entries of a point history.\<close>

record detail =
  dt_history_id :: pk
  dt_amount :: int
  dt_expires_at :: timestamp

text \<open>
  \<^verbatim>\<open>PointHistory.metadata\<close>: the keys the point service reads and writes are
  fields (an absent key is \<open>None\<close>, \<open>False\<close> or the empty list), the keys the
  callers add are kept in \<open>m_info\<close>.
\<close>

record metadata =
  m_used_amount :: "int option"
  m_usage_history :: "(int \<times> timestamp) list"
  m_expired :: bool
  m_expired_at :: "timestamp option"
  m_expired_amount :: "int option"
  m_used_details :: "detail list"
  m_restored_details :: "detail list"
  m_refund_history :: "(int \<times> pk \<times> timestamp) list"
  m_expired_on_refund :: "int option"
  m_unbacked :: "int option"
  m_original_history_id :: "pk option"
  m_original_points :: "int option"
  m_refund_history_id :: "pk option"
  m_expiry_notified :: bool
  m_notified_at :: "timestamp option"
  m_info :: dict

definition no_meta :: metadata where
  "no_meta = \<lparr>m_used_amount = None, m_usage_history = [], m_expired = False, m_expired_at = None,
     m_expired_amount = None, m_used_details = [], m_restored_details = [], m_refund_history = [],
     m_expired_on_refund = None, m_unbacked = None, m_original_history_id = None,
     m_original_points = None, m_refund_history_id = None, m_expiry_notified = False,
     m_notified_at = None, m_info = []\<rparr>"

record history =
  ph_id :: pk
  ph_user :: pk
  ph_points :: int
  ph_balance :: int
  ph_type :: point_type
  ph_order :: "pk option"
  ph_expires_at :: "timestamp option"
  ph_meta :: metadata
  ph_created_at :: timestamp

record user =
  u_id :: pk
  u_email :: string
  u_membership :: membership
  u_points :: int

record product =
  p_id :: pk
  p_name :: string
  p_price :: money
  p_stock :: int
  p_sold_count :: int
  p_is_active :: bool
  p_is_available :: bool

record cart =
  c_id :: pk
  c_user :: "pk option"
  c_session :: "string option"
  c_is_active :: bool

record cart_item =
  ci_id :: pk
  ci_cart :: pk
  ci_product :: pk
  ci_quantity :: int
  ci_price_at_add :: "money option"

record order =
  o_id :: pk
  o_user :: "pk option"
  o_cart :: "pk option"
  o_status :: order_status
  o_failure_reason :: reason
  o_postal_code :: string
  o_payment_method :: string
  o_total_amount :: money
  o_used_points :: int
  o_final_amount :: money
  o_earned_points :: int
  o_earn_rate :: int
  o_membership :: membership
  o_shipping_fee :: money
  o_additional_fee :: money
  o_free_shipping :: bool
  o_order_number :: string
  o_created_at :: timestamp
  o_updated_at :: timestamp

record order_item =
  oi_id :: pk
  oi_order :: pk
  oi_product :: "pk option"
  oi_product_name :: string
  oi_quantity :: int
  oi_price :: money

record payment =
  pay_id :: pk
  pay_order :: pk
  pay_key :: "string option"
  pay_toss_order_id :: string
  pay_idempotency_key :: "string option"
  pay_amount :: money
  pay_method :: string
  pay_card_company :: string
  pay_card_number :: string
  pay_installment :: int
  pay_status :: payment_status
  pay_approved_at :: "string option"
  pay_receipt_url :: string
  pay_va_bank :: string
  pay_va_number :: string
  pay_va_due :: "string option"
  pay_secret :: string
  pay_is_canceled :: bool
  pay_canceled_amount :: money
  pay_cancel_reason :: string
  pay_canceled_at :: "string option"
  pay_raw :: dict
  pay_fail_reason :: reason
  pay_updated_at :: timestamp
  pay_created_at :: timestamp

record payment_log =
  lg_payment :: pk
  lg_type :: log_type
  lg_message :: log_msg
  lg_data :: dict

record return_request =
  ret_id :: pk
  ret_order :: pk
  ret_user :: pk
  ret_number :: string
  ret_type :: return_type
  ret_status :: return_status
  ret_reason :: return_reason
  ret_reason_detail :: string
  ret_shipping_company :: string
  ret_tracking_number :: string
  ret_shipping_fee :: money
  ret_refund_amount :: money
  ret_account_bank :: string
  ret_account_number :: string
  ret_account_holder :: string
  ret_exchange_product :: "pk option"
  ret_exchange_company :: string
  ret_exchange_tracking :: string
  ret_admin_memo :: string
  ret_approved_at :: "timestamp option"
  ret_completed_at :: "timestamp option"
  ret_rejected_reason :: string

record return_item =
  ri_id :: pk
  ri_return :: pk
  ri_order_item :: pk
  ri_quantity :: int
  ri_product_name :: string
  ri_product_price :: money

record webhook_event =
  we_event_type :: string
  we_order_id :: string

section \<open>Messages\<close>

text \<open>What the program publishes to Celery with \<^verbatim>\<open>.delay\<close> or a chain.\<close>

datatype msg =
    ProcessOrder pk pk int
  | ConfirmChain string pk int string pk pk
  | FinalizeConfirm dict pk "pk option"
  | AddPointsAfterPayment "pk option" pk
  | RollbackPayment pk reason
  | NotifyFailure "pk option" string string
  | RetryFailedPayment pk pk nat int
  | ConfirmCall string pk int

section \<open>The database\<close>

record db =
  users :: "user list"
  products :: "product list"
  carts :: "cart list"
  cart_items :: "cart_item list"
  orders :: "order list"
  order_items :: "order_item list"
  payments :: "payment list"
  payment_logs :: "payment_log list"
  histories :: "history list"
  returns :: "return_request list"
  return_items :: "return_item list"
  webhook_events :: "webhook_event list"
  notifications :: "(pk \<times> string \<times> dict) list"
  next_id :: pk
  outbox :: "msg list"
  broker_up :: bool
  cache :: "(string \<times> pk \<times> timestamp) list"

type_synonym 'a op = "db \<Rightarrow> exn + 'a \<times> db"

definition empty_db :: db where
  "empty_db = \<lparr>users = [], products = [], carts = [], cart_items = [], orders = [],
     order_items = [], payments = [], payment_logs = [], histories = [], returns = [],
     return_items = [], webhook_events = [], notifications = [], next_id = 1, outbox = [],
     broker_up = True, cache = []\<rparr>"

abbreviation get_user :: "db \<Rightarrow> pk \<Rightarrow> user option" where
  "get_user d k \<equiv> rget u_id (users d) k"

abbreviation get_product :: "db \<Rightarrow> pk \<Rightarrow> product option" where
  "get_product d k \<equiv> rget p_id (products d) k"

abbreviation get_cart :: "db \<Rightarrow> pk \<Rightarrow> cart option" where
  "get_cart d k \<equiv> rget c_id (carts d) k"

abbreviation get_order :: "db \<Rightarrow> pk \<Rightarrow> order option" where
  "get_order d k \<equiv> rget o_id (orders d) k"

abbreviation get_payment :: "db \<Rightarrow> pk \<Rightarrow> payment option" where
  "get_payment d k \<equiv> rget pay_id (payments d) k"

abbreviation get_history :: "db \<Rightarrow> pk \<Rightarrow> history option" where
  "get_history d k \<equiv> rget ph_id (histories d) k"

abbreviation get_return :: "db \<Rightarrow> pk \<Rightarrow> return_request option" where
  "get_return d k \<equiv> rget ret_id (returns d) k"

text \<open>\<^verbatim>\<open>Model.objects.filter(pk=k).update(...)\<close> and \<^verbatim>\<open>obj.save(update_fields=...)\<close>.\<close>

definition upd_user :: "pk \<Rightarrow> (user \<Rightarrow> user) \<Rightarrow> db \<Rightarrow> db" where
  "upd_user k f d = d\<lparr>users := rupd u_id (users d) k f\<rparr>"

definition upd_product :: "pk \<Rightarrow> (product \<Rightarrow> product) \<Rightarrow> db \<Rightarrow> db" where
  "upd_product k f d = d\<lparr>products := rupd p_id (products d) k f\<rparr>"

definition upd_order :: "pk \<Rightarrow> (order \<Rightarrow> order) \<Rightarrow> db \<Rightarrow> db" where
  "upd_order k f d = d\<lparr>orders := rupd o_id (orders d) k f\<rparr>"

definition upd_payment :: "pk \<Rightarrow> (payment \<Rightarrow> payment) \<Rightarrow> db \<Rightarrow> db" where
  "upd_payment k f d = d\<lparr>payments := rupd pay_id (payments d) k f\<rparr>"

definition upd_history :: "pk \<Rightarrow> (history \<Rightarrow> history) \<Rightarrow> db \<Rightarrow> db" where
  "upd_history k f d = d\<lparr>histories := rupd ph_id (histories d) k f\<rparr>"

definition upd_return :: "pk \<Rightarrow> (return_request \<Rightarrow> return_request) \<Rightarrow> db \<Rightarrow> db" where
  "upd_return k f d = d\<lparr>returns := rupd ret_id (returns d) k f\<rparr>"

definition add_log :: "pk \<Rightarrow> log_type \<Rightarrow> log_msg \<Rightarrow> dict \<Rightarrow> db \<Rightarrow> db" where
  "add_log pid t m dat d = d\<lparr>payment_logs := payment_logs d @
     [\<lparr>lg_payment = pid, lg_type = t, lg_message = m, lg_data = dat\<rparr>]\<rparr>"

text \<open>\<^verbatim>\<open>task.delay(...)\<close>: the call raises when the broker cannot be reached.\<close>

definition publish :: "msg \<Rightarrow> db \<Rightarrow> exn + db" where
  "publish m d = (if broker_up d then Inr (d\<lparr>outbox := outbox d @ [m]\<rparr>) else Inl BrokerError)"

text \<open>\<^verbatim>\<open>try: task.delay(...) except Exception: log\<close>.\<close>

definition try_publish :: "msg \<Rightarrow> db \<Rightarrow> db" where
  "try_publish m d = (case publish m d of Inl e \<Rightarrow> d | Inr e' \<Rightarrow> e')"

definition items_of :: "db \<Rightarrow> pk \<Rightarrow> order_item list" where
  "items_of d oid = filter (\<lambda>i. oi_order i = oid) (order_items d)"

definition cart_items_of :: "db \<Rightarrow> pk \<Rightarrow> cart_item list" where
  "cart_items_of d cid = filter (\<lambda>i. ci_cart i = cid) (cart_items d)"

definition payment_of :: "db \<Rightarrow> pk \<Rightarrow> payment option" where
  "payment_of d oid = find (\<lambda>p. pay_order p = oid) (payments d)"

section \<open>Columns changed in place\<close>

definition map_points :: "(int \<Rightarrow> int) \<Rightarrow> user \<Rightarrow> user" where
  "map_points f u = u\<lparr>u_points := f (u_points u)\<rparr>"

definition map_stock :: "(int \<Rightarrow> int) \<Rightarrow> product \<Rightarrow> product" where
  "map_stock f p = p\<lparr>p_stock := f (p_stock p)\<rparr>"

definition map_sold :: "(int \<Rightarrow> int) \<Rightarrow> product \<Rightarrow> product" where
  "map_sold f p = p\<lparr>p_sold_count := f (p_sold_count p)\<rparr>"

interpretation points_col: int_column u_id u_points map_points
  by unfold_locales (simp_all add: map_points_def)

interpretation stock_col: int_column p_id p_stock map_stock
  by unfold_locales (simp_all add: map_stock_def)

interpretation sold_col: int_column p_id p_sold_count map_sold
  by unfold_locales (simp_all add: map_sold_def)

section \<open>Frame facts\<close>

lemma upd_user_frame [frame_simps, simp]:
  "histories (upd_user k f d) = histories d" "products (upd_user k f d) = products d"
  "orders (upd_user k f d) = orders d" "order_items (upd_user k f d) = order_items d"
  "payments (upd_user k f d) = payments d" "next_id (upd_user k f d) = next_id d"
  "carts (upd_user k f d) = carts d" "cart_items (upd_user k f d) = cart_items d"
  "payment_logs (upd_user k f d) = payment_logs d" "returns (upd_user k f d) = returns d"
  "return_items (upd_user k f d) = return_items d" "outbox (upd_user k f d) = outbox d"
  "broker_up (upd_user k f d) = broker_up d" "cache (upd_user k f d) = cache d"
  "users (upd_user k f d) = rupd u_id (users d) k f"
  by (simp_all add: upd_user_def)

lemma upd_product_frame [frame_simps, simp]:
  "histories (upd_product k f d) = histories d" "users (upd_product k f d) = users d"
  "orders (upd_product k f d) = orders d" "order_items (upd_product k f d) = order_items d"
  "payments (upd_product k f d) = payments d" "next_id (upd_product k f d) = next_id d"
  "carts (upd_product k f d) = carts d" "cart_items (upd_product k f d) = cart_items d"
  "payment_logs (upd_product k f d) = payment_logs d" "returns (upd_product k f d) = returns d"
  "return_items (upd_product k f d) = return_items d" "outbox (upd_product k f d) = outbox d"
  "broker_up (upd_product k f d) = broker_up d" "cache (upd_product k f d) = cache d"
  "products (upd_product k f d) = rupd p_id (products d) k f"
  by (simp_all add: upd_product_def)

lemma upd_order_frame [frame_simps, simp]:
  "histories (upd_order k f d) = histories d" "users (upd_order k f d) = users d"
  "products (upd_order k f d) = products d" "order_items (upd_order k f d) = order_items d"
  "payments (upd_order k f d) = payments d" "next_id (upd_order k f d) = next_id d"
  "carts (upd_order k f d) = carts d" "cart_items (upd_order k f d) = cart_items d"
  "payment_logs (upd_order k f d) = payment_logs d" "returns (upd_order k f d) = returns d"
  "return_items (upd_order k f d) = return_items d" "outbox (upd_order k f d) = outbox d"
  "broker_up (upd_order k f d) = broker_up d" "cache (upd_order k f d) = cache d"
  "orders (upd_order k f d) = rupd o_id (orders d) k f"
  by (simp_all add: upd_order_def)

lemma upd_payment_frame [frame_simps, simp]:
  "histories (upd_payment k f d) = histories d" "users (upd_payment k f d) = users d"
  "products (upd_payment k f d) = products d" "order_items (upd_payment k f d) = order_items d"
  "orders (upd_payment k f d) = orders d" "next_id (upd_payment k f d) = next_id d"
  "carts (upd_payment k f d) = carts d" "cart_items (upd_payment k f d) = cart_items d"
  "payment_logs (upd_payment k f d) = payment_logs d" "returns (upd_payment k f d) = returns d"
  "return_items (upd_payment k f d) = return_items d" "outbox (upd_payment k f d) = outbox d"
  "broker_up (upd_payment k f d) = broker_up d" "cache (upd_payment k f d) = cache d"
  "payments (upd_payment k f d) = rupd pay_id (payments d) k f"
  by (simp_all add: upd_payment_def)

lemma upd_history_frame [frame_simps, simp]:
  "users (upd_history k f d) = users d" "products (upd_history k f d) = products d"
  "orders (upd_history k f d) = orders d" "order_items (upd_history k f d) = order_items d"
  "payments (upd_history k f d) = payments d" "next_id (upd_history k f d) = next_id d"
  "carts (upd_history k f d) = carts d" "cart_items (upd_history k f d) = cart_items d"
  "payment_logs (upd_history k f d) = payment_logs d" "returns (upd_history k f d) = returns d"
  "return_items (upd_history k f d) = return_items d" "outbox (upd_history k f d) = outbox d"
  "broker_up (upd_history k f d) = broker_up d" "cache (upd_history k f d) = cache d"
  "histories (upd_history k f d) = rupd ph_id (histories d) k f"
  by (simp_all add: upd_history_def)

lemma upd_return_frame [frame_simps, simp]:
  "histories (upd_return k f d) = histories d" "users (upd_return k f d) = users d"
  "products (upd_return k f d) = products d" "order_items (upd_return k f d) = order_items d"
  "orders (upd_return k f d) = orders d" "next_id (upd_return k f d) = next_id d"
  "payments (upd_return k f d) = payments d" "return_items (upd_return k f d) = return_items d"
  "payment_logs (upd_return k f d) = payment_logs d" "outbox (upd_return k f d) = outbox d"
  "returns (upd_return k f d) = rupd ret_id (returns d) k f"
  by (simp_all add: upd_return_def)

lemma add_log_frame [frame_simps, simp]:
  "histories (add_log p t m x d) = histories d" "users (add_log p t m x d) = users d"
  "products (add_log p t m x d) = products d" "order_items (add_log p t m x d) = order_items d"
  "orders (add_log p t m x d) = orders d" "next_id (add_log p t m x d) = next_id d"
  "payments (add_log p t m x d) = payments d" "carts (add_log p t m x d) = carts d"
  "cart_items (add_log p t m x d) = cart_items d" "returns (add_log p t m x d) = returns d"
  "return_items (add_log p t m x d) = return_items d" "outbox (add_log p t m x d) = outbox d"
  "broker_up (add_log p t m x d) = broker_up d" "cache (add_log p t m x d) = cache d"
  by (simp_all add: add_log_def)

lemma try_publish_frame [frame_simps, simp]:
  "histories (try_publish m d) = histories d" "users (try_publish m d) = users d"
  "products (try_publish m d) = products d" "order_items (try_publish m d) = order_items d"
  "orders (try_publish m d) = orders d" "next_id (try_publish m d) = next_id d"
  "payments (try_publish m d) = payments d" "carts (try_publish m d) = carts d"
  "cart_items (try_publish m d) = cart_items d" "returns (try_publish m d) = returns d"
  "payment_logs (try_publish m d) = payment_logs d" "broker_up (try_publish m d) = broker_up d"
  "return_items (try_publish m d) = return_items d" "cache (try_publish m d) = cache d"
  by (simp_all add: try_publish_def publish_def)

lemma publish_eq_Inr:
  "publish m d = Inr e \<longleftrightarrow> broker_up d \<and> e = d\<lparr>outbox := outbox d @ [m]\<rparr>"
  by (auto simp: publish_def)

end
