(* ===== verification/Points.thy ===== *)
theory Points
  imports Shop_State
begin

text \<open>
  The point ledger: \<^verbatim>\<open>src/shopping/models/point.py\<close> (PointHistory and its
  manager) and \<^verbatim>\<open>src/shopping/services/point_service.py\<close> (PointService).

  A user's points are the number in the user row; every change appends a
  history row.  An earning row carries how much of it was used
  (\<open>m_used_amount\<close>); points are spent first from the earning rows that expire
  first, a refund walks the use details of the order backwards, and the daily
  batch expires what is left of a row after its date.
\<close>

section \<open>PointHistory\<close>

definition used_amount :: "history \<Rightarrow> int" where
  "used_amount h = (case m_used_amount (ph_meta h) of None \<Rightarrow> 0 | Some a \<Rightarrow> a)"

definition remaining_points :: "history \<Rightarrow> int" where
  "remaining_points h = (
     if ph_type h \<noteq> Earn then 0
     else if m_expired (ph_meta h) then 0
     else max 0 (ph_points h - used_amount h))"

definition positive_types :: "point_type list" where
  "positive_types = [Earn, CancelRefund, AdminAdd, Event]"

definition negative_types :: "point_type list" where
  "negative_types = [Use, CancelDeduct, AdminDeduct, Expire]"

definition history_clean :: "history \<Rightarrow> bool" where
  "history_clean h = (
     if ph_points h = 0 then False
     else if ph_type h \<in> set positive_types \<and> ph_points h \<le> 0 then False
     else if ph_type h \<in> set negative_types \<and> ph_points h \<ge> 0 then False
     else 0 \<le> ph_balance h)"

text \<open>
  \<^verbatim>\<open>PointHistory.save\<close> of an existing row with \<^verbatim>\<open>update_fields\<close>: only
  \<open>metadata\<close> and \<open>created_at\<close> may be written.  \<^verbatim>\<open>delete\<close> always raises.
\<close>

definition history_save_fields :: "string list \<Rightarrow> exn + unit" where
  "history_save_fields updated = (
     if updated \<noteq> [] \<and> \<not> list_all (\<lambda>f. f \<in> set [''metadata'', ''created_at'']) updated
     then Inl ValueError else Inr ())"

definition history_delete :: "history \<Rightarrow> exn + unit" where
  "history_delete h = Inl ValueError"

definition year_seconds :: int where
  "year_seconds = 365 * 86400"

text \<open>
  \<^verbatim>\<open>PointHistory.create_history\<close>: an earning row expires one year later.  The
  database refuses a negative balance and a second earning row of an order
  (\<^verbatim>\<open>unique_earn_per_order\<close>).
\<close>

definition create_history ::
  "pk \<Rightarrow> int \<Rightarrow> int \<Rightarrow> point_type \<Rightarrow> pk option \<Rightarrow> metadata \<Rightarrow> timestamp \<Rightarrow> history op" where
  "create_history uid pts bal ty ord meta now d = (
     if bal < 0 then Inl IntegrityError
     else if ty = Earn \<and> (case ord of None \<Rightarrow> False
            | Some k \<Rightarrow> list_ex (\<lambda>h. ph_type h = Earn \<and> ph_order h = Some k) (histories d))
     then Inl IntegrityError
     else let h = \<lparr>ph_id = next_id d, ph_user = uid, ph_points = pts, ph_balance = bal,
                   ph_type = ty, ph_order = ord,
                   ph_expires_at = (if ty = Earn then Some (now + year_seconds) else None),
                   ph_meta = meta, ph_created_at = now\<rparr>
       in Inr (h, d\<lparr>histories := histories d @ [h], next_id := Suc (next_id d)\<rparr>))"

definition user_histories :: "pk \<Rightarrow> db \<Rightarrow> history list" where
  "user_histories uid d = filter (\<lambda>h. ph_user h = uid) (histories d)"

definition get_user_balance :: "pk \<Rightarrow> db \<Rightarrow> int" where
  "get_user_balance uid d = (
     case sort_key (\<lambda>h. (- ph_created_at h, - int (ph_id h))) (user_histories uid d) of
       [] \<Rightarrow> 0 | h # _ \<Rightarrow> ph_balance h)"

definition get_total_earned :: "pk \<Rightarrow> db \<Rightarrow> int" where
  "get_total_earned uid d =
     sum_list (map ph_points (filter (\<lambda>h. ph_points h > 0) (user_histories uid d)))"

definition get_total_used :: "pk \<Rightarrow> db \<Rightarrow> int" where
  "get_total_used uid d =
     \<bar>sum_list (map ph_points (filter (\<lambda>h. ph_points h < 0) (user_histories uid d)))\<bar>"

definition get_month_statistics :: "pk \<Rightarrow> timestamp \<Rightarrow> db \<Rightarrow> int \<times> int" where
  "get_month_statistics uid start_date d = (
     sum_list (map ph_points (filter (\<lambda>h. ph_points h > 0 \<and> start_date \<le> ph_created_at h) (user_histories uid d))),
     \<bar>sum_list (map ph_points (filter (\<lambda>h. ph_points h < 0 \<and> start_date \<le> ph_created_at h) (user_histories uid d)))\<bar>)"

definition expires_within :: "(timestamp \<Rightarrow> bool) \<Rightarrow> history \<Rightarrow> bool" where
  "expires_within P h = (case ph_expires_at h of None \<Rightarrow> False | Some e \<Rightarrow> P e)"

definition get_expiring_soon :: "pk \<Rightarrow> int \<Rightarrow> timestamp \<Rightarrow> db \<Rightarrow> int" where
  "get_expiring_soon uid days now d =
     sum_list (map remaining_points (filter
       (\<lambda>h. ph_type h = Earn \<and> ph_points h > 0
          \<and> expires_within (\<lambda>e. e \<le> now + days * 86400 \<and> now < e) h)
       (user_histories uid d)))"

text \<open>Total, rows and earliest date of the earnings that expire within \<open>days\<close>.\<close>

definition get_expiring_points :: "pk \<Rightarrow> int \<Rightarrow> timestamp \<Rightarrow> db \<Rightarrow> int \<times> history list \<times> timestamp option" where
  "get_expiring_points uid days now d = (
     let rows = sort_key (\<lambda>h. case ph_expires_at h of None \<Rightarrow> 0 | Some e \<Rightarrow> e)
           (filter (\<lambda>h. ph_type h = Earn \<and> expires_within (\<lambda>e. e \<le> now + days * 86400 \<and> now \<le> e) h)
             (user_histories uid d));
         rows = filter (\<lambda>h. remaining_points h > 0) rows
     in (sum_list (map remaining_points rows), rows,
         case rows of [] \<Rightarrow> None | h # _ \<Rightarrow> ph_expires_at h))"

section \<open>Plain addition and deduction\<close>

definition add_points ::
  "pk \<Rightarrow> int \<Rightarrow> point_type \<Rightarrow> pk option \<Rightarrow> dict \<Rightarrow> timestamp \<Rightarrow> bool op" where
  "add_points uid amount ty ord info now d = (
     if amount \<le> 0 then Inr (False, d)
     else let d1 = upd_user uid (map_points (\<lambda>p. p + amount)) d
       in rbind (of_get DoesNotExist (get_user d1 uid) d1) (\<lambda>u d1.
          rbind (create_history uid amount (u_points u) ty ord (no_meta\<lparr>m_info := info\<rparr>) now d1)
            (\<lambda>_ d2. Inr (True, d2))))"

definition use_points ::
  "pk \<Rightarrow> int \<Rightarrow> point_type \<Rightarrow> pk option \<Rightarrow> dict \<Rightarrow> timestamp \<Rightarrow> bool op" where
  "use_points uid amount ty ord info now d = (
     if amount \<le> 0 then Inr (False, d)
     else rbind (of_get DoesNotExist (get_user d uid) d) (\<lambda>locked d.
       if u_points locked < amount then Inr (False, d)
       else let d1 = upd_user uid (map_points (\<lambda>p. p - amount)) d
         in rbind (of_get DoesNotExist (get_user d1 uid) d1) (\<lambda>u d1.
            rbind (create_history uid (- amount) (u_points u) ty ord (no_meta\<lparr>m_info := info\<rparr>) now d1)
              (\<lambda>_ d2. Inr (True, d2)))))"

section \<open>Expiry\<close>

text \<open>\<^verbatim>\<open>ORDER BY\<close> on a nullable column: NULLs last ascending, first descending.\<close>

definition asc_null :: "timestamp option \<Rightarrow> nat \<times> int" where
  "asc_null t = (case t of None \<Rightarrow> (1, 0) | Some e \<Rightarrow> (0, e))"

definition desc_null :: "timestamp option \<Rightarrow> nat \<times> int" where
  "desc_null t = (case t of None \<Rightarrow> (0, 0) | Some e \<Rightarrow> (1, - e))"

definition get_expired_points :: "timestamp \<Rightarrow> db \<Rightarrow> history list" where
  "get_expired_points now d =
     sort_key (\<lambda>h. (asc_null (ph_expires_at h), ph_id h))
       (filter (\<lambda>h. ph_type h = Earn \<and> expires_within (\<lambda>e. e \<le> now) h \<and> \<not> m_expired (ph_meta h))
         (histories d))"

definition get_expiring_points_soon :: "int \<Rightarrow> timestamp \<Rightarrow> db \<Rightarrow> history list" where
  "get_expiring_points_soon days now d =
     filter (\<lambda>h. ph_type h = Earn \<and> expires_within (\<lambda>e. now < e \<and> e \<le> now + days * 86400) h
                 \<and> \<not> m_expiry_notified (ph_meta h))
       (histories d)"

definition mark_expired :: "timestamp \<Rightarrow> int \<Rightarrow> history \<Rightarrow> history" where
  "mark_expired now amount h = h\<lparr>ph_meta := (ph_meta h)\<lparr>m_expired := True,
     m_expired_at := Some now, m_expired_amount := Some amount\<rparr>\<rparr>"

text \<open>\<^verbatim>\<open>_expire_one\<close>: \<open>listed\<close> is the row as the batch read it, without a lock.\<close>

definition expire_one :: "history \<Rightarrow> timestamp \<Rightarrow> bool op" where
  "expire_one listed now d = (
     if remaining_points listed \<le> 0 then Inr (False, d)
     else rbind (of_get DoesNotExist (get_user d (ph_user listed)) d) (\<lambda>user d.
       rbind (of_get DoesNotExist (get_history d (ph_id listed)) d) (\<lambda>current d.
         if m_expired (ph_meta current) then Inr (False, d)
         else let remaining = remaining_points current in
           if remaining \<le> 0 then Inr (False, d)
           else let d1 = upd_user (u_id user) (map_points (\<lambda>p. max (p - remaining) 0)) d
             in rbind (of_get DoesNotExist (get_user d1 (u_id user)) d1) (\<lambda>u d1.
                rbind (create_history (u_id user) (- remaining) (u_points u) Expire None
                         (no_meta\<lparr>m_original_history_id := Some (ph_id listed),
                                  m_original_points := Some (ph_points listed),
                                  m_expired_amount := Some remaining\<rparr>) now d1) (\<lambda>_ d2.
                  Inr (True, upd_history (ph_id current)
                               (\<lambda>row. row\<lparr>ph_meta := ph_meta (mark_expired now remaining current)\<rparr>) d2))))))"

fun expire_loop :: "timestamp \<Rightarrow> history list \<Rightarrow> int \<Rightarrow> pk list \<Rightarrow> db \<Rightarrow> int \<times> pk list \<times> db" where
  "expire_loop now [] n failed d = (n, failed, d)"
| "expire_loop now (h # hs) n failed d = (case expire_one h now d of
     Inl e \<Rightarrow> expire_loop now hs n (failed @ [ph_id h]) d
   | Inr (True, d') \<Rightarrow> expire_loop now hs (n + 1) failed d'
   | Inr (False, d') \<Rightarrow> expire_loop now hs n failed d')"

text \<open>The batch commits row by row; the error is raised after the loop.\<close>

definition expire_points :: "timestamp \<Rightarrow> db \<Rightarrow> (exn + int) \<times> db" where
  "expire_points now d = (case expire_loop now (get_expired_points now d) 0 [] d of
     (n, failed, d') \<Rightarrow> (if failed \<noteq> [] then Inl (PointExpiryIncomplete n failed) else Inr n, d'))"

section \<open>First-in first-out use\<close>

datatype use_msg =
  MustBePositive | BelowMinimum int | NotEnoughPoints | NotEnoughValid int int | UsedOk int

record use_result =
  ur_success :: bool
  ur_details :: "detail list"
  ur_message :: use_msg

definition use_failed :: "use_msg \<Rightarrow> use_result" where
  "use_failed m = \<lparr>ur_success = False, ur_details = [], ur_message = m\<rparr>"

definition validate_point_usage :: "int \<Rightarrow> point_type \<Rightarrow> int \<Rightarrow> use_result option" where
  "validate_point_usage amount ty minimum_use_amount = (
     if amount \<le> 0 then Some (use_failed MustBePositive)
     else if ty = Use \<and> amount < minimum_use_amount
     then Some (use_failed (BelowMinimum minimum_use_amount))
     else None)"

definition update_earn_metadata :: "timestamp \<Rightarrow> int \<Rightarrow> history \<Rightarrow> metadata" where
  "update_earn_metadata now use_amount h = (ph_meta h)\<lparr>
     m_used_amount := Some (used_amount h + use_amount),
     m_usage_history := m_usage_history (ph_meta h) @ [(use_amount, now)]\<rparr>"

definition get_usable_points :: "pk \<Rightarrow> bool \<Rightarrow> timestamp \<Rightarrow> db \<Rightarrow> int" where
  "get_usable_points uid for_cancel now d =
     fold (\<lambda>h total. if remaining_points h > 0 then total + remaining_points h else total)
       (filter (\<lambda>h. \<not> m_expired (ph_meta h))
         (filter (\<lambda>h. for_cancel \<longrightarrow> expires_within (\<lambda>e. now < e) h)
           (filter (\<lambda>h. ph_user h = uid \<and> ph_type h = Earn) (histories d))))
       0"

definition available_points :: "pk \<Rightarrow> point_type \<Rightarrow> timestamp \<Rightarrow> history list \<Rightarrow> history list" where
  "available_points uid ty now hs =
     sort_key (\<lambda>h. (asc_null (ph_expires_at h), ph_created_at h))
       (filter (\<lambda>h. \<not> m_expired (ph_meta h))
         (filter (\<lambda>h. ty = CancelDeduct \<longrightarrow> expires_within (\<lambda>e. now < e) h)
           (filter (\<lambda>h. ph_user h = uid \<and> ph_type h = Earn) hs)))"

text \<open>
  The loop of \<^verbatim>\<open>_consume_points_fifo\<close> over the evaluated query: each row that
  still has points gives as much as is needed and is saved back to the table.
\<close>

fun consume_loop ::
  "timestamp \<Rightarrow> history list \<Rightarrow> int \<Rightarrow> history list \<Rightarrow> exn + (detail list \<times> int) \<times> history list" where
  "consume_loop now [] to_use t = Inr (([], to_use), t)"
| "consume_loop now (h # hs) to_use t = (
     if to_use \<le> 0 then Inr (([], to_use), t)
     else if remaining_points h \<le> 0 then consume_loop now hs to_use t
     else let use_from_this = min (remaining_points h) to_use;
              t' = rupd ph_id t (ph_id h) (\<lambda>row. row\<lparr>ph_meta := update_earn_metadata now use_from_this h\<rparr>)
       in rbind (of_get AttributeError (ph_expires_at h) t') (\<lambda>e t'.
          rbind (consume_loop now hs (to_use - use_from_this) t') (\<lambda>(details, left) t''.
            Inr ((\<lparr>dt_history_id = ph_id h, dt_amount = use_from_this, dt_expires_at = e\<rparr> # details,
                  left), t''))))"

definition consume_points_fifo :: "pk \<Rightarrow> int \<Rightarrow> point_type \<Rightarrow> timestamp \<Rightarrow> (detail list \<times> int) op" where
  "consume_points_fifo uid amount ty now d =
     (case consume_loop now (available_points uid ty now (histories d)) amount (histories d) of
        Inl e \<Rightarrow> Inl e
      | Inr (r, t) \<Rightarrow> Inr (r, d\<lparr>histories := t\<rparr>))"

definition MINIMUM_USE_AMOUNT :: int where
  "MINIMUM_USE_AMOUNT = 100"

definition use_points_fifo ::
  "pk \<Rightarrow> int \<Rightarrow> point_type \<Rightarrow> pk option \<Rightarrow> dict \<Rightarrow> timestamp \<Rightarrow> use_result op" where
  "use_points_fifo uid amount ty ord info now d = (
     case validate_point_usage amount ty MINIMUM_USE_AMOUNT of
       Some err \<Rightarrow> Inr (err, d)
     | None \<Rightarrow> rbind (of_get DoesNotExist (get_user d uid) d) (\<lambda>locked d.
         if u_points locked < amount then Inr (use_failed NotEnoughPoints, d)
         else rbind (consume_points_fifo uid amount ty now d) (\<lambda>(details, left) d1.
           if ty = CancelDeduct \<and> left > 0
           then Inr (use_failed (NotEnoughValid amount (amount - left)), d1)
           else let d2 = upd_user uid (map_points (\<lambda>p. p - amount)) d1
             in rbind (of_get DoesNotExist (get_user d2 uid) d2) (\<lambda>u d2.
                rbind (create_history uid (- amount) (u_points u) ty ord
                         (no_meta\<lparr>m_info := info, m_used_details := details\<rparr>) now d2) (\<lambda>_ d3.
                  Inr (\<lparr>ur_success = True, ur_details = details, ur_message = UsedOk amount\<rparr>, d3))))))"

section \<open>Refund of the points an order used\<close>

record refund_result =
  rr_success :: bool
  rr_amount :: int
  rr_restored :: "detail list"
  rr_expired :: int
  rr_unbacked :: int

definition detail_total :: "pk \<Rightarrow> detail list \<Rightarrow> int" where
  "detail_total k xs = sum_list (map dt_amount (filter (\<lambda>x. dt_history_id x = k) xs))"

definition uses_of :: "pk \<Rightarrow> history list \<Rightarrow> history list" where
  "uses_of oid hs = filter (\<lambda>h. ph_order h = Some oid \<and> ph_type h = Use) hs"

definition refunds_of :: "pk \<Rightarrow> history list \<Rightarrow> history list" where
  "refunds_of oid hs =
     filter (\<lambda>h. ph_order h = Some oid \<and> (ph_type h = CancelRefund \<or> ph_type h = PaymentFailRefund)) hs"

text \<open>What the order took from each earning row, less what earlier refunds put back.\<close>

definition outstanding :: "pk \<Rightarrow> history list \<Rightarrow> pk \<Rightarrow> int" where
  "outstanding oid hs k =
     detail_total k (concat (map (\<lambda>h. m_used_details (ph_meta h)) (uses_of oid hs)))
     - detail_total k (concat (map (\<lambda>h. m_restored_details (ph_meta h)) (refunds_of oid hs)))"

definition earn_rows :: "pk \<Rightarrow> history list \<Rightarrow> history list" where
  "earn_rows oid hs = sort_key (\<lambda>h. (desc_null (ph_expires_at h), - int (ph_id h)))
     (filter (\<lambda>h. outstanding oid hs (ph_id h) > 0 \<and> ph_type h = Earn) hs)"

definition restore_metadata :: "timestamp \<Rightarrow> pk \<Rightarrow> int \<Rightarrow> history \<Rightarrow> metadata" where
  "restore_metadata now oid back h = (ph_meta h)\<lparr>
     m_used_amount := Some (max 0 (used_amount h - back)),
     m_refund_history := m_refund_history (ph_meta h) @ [(back, oid, now)]\<rparr>"

fun restore_loop ::
  "timestamp \<Rightarrow> pk \<Rightarrow> (pk \<Rightarrow> int) \<Rightarrow> history list \<Rightarrow> int \<Rightarrow> history list
     \<Rightarrow> exn + (detail list \<times> int \<times> int) \<times> history list" where
  "restore_loop now oid out [] to_restore t = Inr (([], 0, to_restore), t)"
| "restore_loop now oid out (h # hs) to_restore t = (
     if to_restore \<le> 0 then Inr (([], 0, to_restore), t)
     else let back = min (out (ph_id h)) to_restore
       in rbind (of_get AttributeError (ph_expires_at h) t) (\<lambda>e t.
          let t' = (if e \<le> now then t
                    else rupd ph_id t (ph_id h) (\<lambda>row. row\<lparr>ph_meta := restore_metadata now oid back h\<rparr>))
          in rbind (restore_loop now oid out hs (to_restore - back) t') (\<lambda>(ds, expired_now, left) t''.
               Inr ((\<lparr>dt_history_id = ph_id h, dt_amount = back, dt_expires_at = e\<rparr> # ds,
                     (if e \<le> now then back else 0) + expired_now, left), t''))))"

definition refund_used_points ::
  "pk \<Rightarrow> int \<Rightarrow> pk \<Rightarrow> point_type \<Rightarrow> dict \<Rightarrow> timestamp \<Rightarrow> refund_result op" where
  "refund_used_points uid amount oid ty info now d = (
     if amount \<le> 0
     then Inr (\<lparr>rr_success = False, rr_amount = 0, rr_restored = [], rr_expired = 0, rr_unbacked = 0\<rparr>, d)
     else rbind (of_get DoesNotExist (get_user d uid) d) (\<lambda>_ d.
       case restore_loop now oid (outstanding oid (histories d)) (earn_rows oid (histories d))
              amount (histories d) of
         Inl e \<Rightarrow> Inl e
       | Inr ((restored, expired_now, left), t) \<Rightarrow>
           let d1 = upd_user uid (map_points (\<lambda>p. p + amount)) (d\<lparr>histories := t\<rparr>)
           in rbind (of_get DoesNotExist (get_user d1 uid) d1) (\<lambda>u d1.
              rbind (create_history uid amount (u_points u) ty (Some oid)
                       (no_meta\<lparr>m_info := info, m_restored_details := restored,
                                m_expired_on_refund := Some expired_now, m_unbacked := Some left\<rparr>)
                       now d1) (\<lambda>refund d2.
              let res = \<lparr>rr_success = True, rr_amount = amount, rr_restored = restored,
                         rr_expired = expired_now, rr_unbacked = left\<rparr>
              in if expired_now > 0
                 then let d3 = upd_user uid (map_points (\<lambda>p. max (p - expired_now) 0)) d2
                   in rbind (of_get DoesNotExist (get_user d3 uid) d3) (\<lambda>u d3.
                      rbind (create_history uid (- expired_now) (u_points u) Expire (Some oid)
                               (no_meta\<lparr>m_refund_history_id := Some (ph_id refund),
                                        m_expired_amount := Some expired_now\<rparr>) now d3) (\<lambda>_ d4.
                        Inr (res, d4)))
                 else Inr (res, d2)))))"

section \<open>Expiry notifications\<close>

type_synonym expiring_group = "pk \<times> history list \<times> int"

definition group_step :: "history \<Rightarrow> expiring_group list \<Rightarrow> expiring_group list" where
  "group_step h gs = (
     let gs = (if list_ex (\<lambda>(k, _, _). k = ph_user h) gs then gs else gs @ [(ph_user h, [], 0)])
     in if remaining_points h > 0
        then map (\<lambda>(k, hs, tot). if k = ph_user h then (k, hs @ [h], tot + remaining_points h) else (k, hs, tot)) gs
        else gs)"

definition mark_notified :: "timestamp \<Rightarrow> history \<Rightarrow> db \<Rightarrow> db" where
  "mark_notified now h = upd_history (ph_id h)
     (\<lambda>row. row\<lparr>ph_meta := (ph_meta h)\<lparr>m_expiry_notified := True, m_notified_at := Some now\<rparr>\<rparr>)"

definition notify_group :: "(pk \<Rightarrow> bool) \<Rightarrow> timestamp \<Rightarrow> expiring_group \<Rightarrow> int \<times> db \<Rightarrow> int \<times> db" where
  "notify_group mail_ok now g r = (case g of (uid, hs, tot) \<Rightarrow> case r of (n, d) \<Rightarrow>
     if tot > 0 \<and> mail_ok uid then (n + 1, fold (mark_notified now) hs d) else (n, d))"

text \<open>\<open>mail_ok uid\<close> says whether the mail server took the mail to that user.\<close>

definition send_expiry_notifications :: "(pk \<Rightarrow> bool) \<Rightarrow> timestamp \<Rightarrow> db \<Rightarrow> int \<times> db" where
  "send_expiry_notifications mail_ok now d =
     fold (notify_group mail_ok now) (fold group_step (get_expiring_points_soon 7 now d) []) (0, d)"

section \<open>Point tasks\<close>

text \<open>
  \<^verbatim>\<open>process_single_user_points\<close> counts the expired rows of a user; \<open>None\<close> is the
  error answer for a user who does not exist.
\<close>

definition process_single_user_points :: "pk \<Rightarrow> timestamp \<Rightarrow> db \<Rightarrow> int option \<times> db" where
  "process_single_user_points uid now d = (
     case get_user d uid of
       None \<Rightarrow> (None, d)
     | Some u \<Rightarrow>
         (Some (fold (\<lambda>_ n. n + 1) (filter (\<lambda>h. ph_user h = uid) (get_expired_points now d)) 0), d))"

definition cleanup_old_point_histories :: "int \<Rightarrow> timestamp \<Rightarrow> db \<Rightarrow> int \<times> db" where
  "cleanup_old_point_histories days now d = (
     let old = (\<lambda>h. ph_type h = Expire \<and> ph_created_at h < now - days * 86400)
     in (int (length (filter old (histories d))), d\<lparr>histories := filter (\<lambda>h. \<not> old h) (histories d)\<rparr>))"

end
