(* ===== verification/Points_Ledger.thy ===== *)
theory Points_Ledger
  imports Points "HOL-Library.Multiset"
begin

text \<open>
  What makes the point ledger correct.  \<open>ledger_inv\<close> says that every user's
  balance is the sum of his history rows, is never negative and covers what is
  left of his earning rows, so that expiring or spending a row can always be
  paid from the balance.  Every operation of the point service keeps it.
\<close>

section \<open>Vocabulary\<close>

text \<open>The part of a history row that no operation may change after it was written.\<close>

definition core :: "history \<Rightarrow> pk \<times> pk \<times> int \<times> int \<times> point_type \<times> pk option \<times> timestamp option
    \<times> timestamp \<times> detail list \<times> detail list" where
  "core h = (ph_id h, ph_user h, ph_points h, ph_balance h, ph_type h, ph_order h, ph_expires_at h,
     ph_created_at h, m_used_details (ph_meta h), m_restored_details (ph_meta h))"

definition owned_points :: "pk \<Rightarrow> history list \<Rightarrow> int" where
  "owned_points v t = sum_list (map ph_points (filter (\<lambda>h. ph_user h = v) t))"

definition owned_remaining :: "pk \<Rightarrow> history list \<Rightarrow> int" where
  "owned_remaining v t = sum_list (map remaining_points (filter (\<lambda>h. ph_user h = v) t))"

definition details_sum :: "detail list \<Rightarrow> int" where
  "details_sum xs = sum_list (map dt_amount xs)"

definition wf_history :: "history list \<Rightarrow> pk \<Rightarrow> order list \<Rightarrow> history \<Rightarrow> bool" where
  "wf_history t n os h \<longleftrightarrow> ph_id h < n
     \<and> (ph_type h = Earn \<longrightarrow> ph_expires_at h \<noteq> None)
     \<and> (\<forall>x \<in> set (m_restored_details (ph_meta h)). 0 \<le> dt_amount x)
     \<and> (ph_type h = Use \<longrightarrow>
          (\<forall>x \<in> set (m_used_details (ph_meta h)). dt_history_id x < n
             \<and> (\<forall>g \<in> set t. ph_id g = dt_history_id x \<longrightarrow> ph_user g = ph_user h))
        \<and> (\<forall>k. ph_order h = Some k \<longrightarrow> (\<exists>ord. rget o_id os k = Some ord \<and> o_user ord = Some (ph_user h))))"

definition ledger_wf :: "db \<Rightarrow> bool" where
  "ledger_wf d \<longleftrightarrow> keys_distinct ph_id (histories d)
     \<and> (\<forall>h \<in> set (histories d). wf_history (histories d) (next_id d) (orders d) h)"

definition accounts_ok :: "db \<Rightarrow> bool" where
  "accounts_ok d \<longleftrightarrow> (\<forall>v u. get_user d v = Some u \<longrightarrow>
     0 \<le> u_points u \<and> u_points u = owned_points v (histories d)
     \<and> owned_remaining v (histories d) \<le> u_points u)"

text \<open>No earning row is used beyond its points.\<close>

definition row_ok :: "history \<Rightarrow> bool" where
  "row_ok h \<longleftrightarrow> 0 \<le> used_amount h \<and> (ph_type h = Earn \<longrightarrow> used_amount h \<le> ph_points h)"

definition rows_ok :: "history list \<Rightarrow> bool" where
  "rows_ok t \<longleftrightarrow> (\<forall>h \<in> set t. row_ok h)"

definition ledger_inv :: "db \<Rightarrow> bool" where
  "ledger_inv d \<longleftrightarrow> ledger_wf d \<and> rows_ok (histories d) \<and> accounts_ok d"

section \<open>Generic facts\<close>

lemma keys_distinct_eqD:
  assumes "keys_distinct key t" and "a \<in> set t" and "b \<in> set t" and "key a = key b"
  shows "a = b"
  using assms by (meson distinct_map inj_onD)

lemma remaining_nonneg [simp]: "0 \<le> remaining_points h"
  by (simp add: remaining_points_def)

lemma remaining_pos:
  assumes "0 < remaining_points h"
  shows "ph_type h = Earn" "\<not> m_expired (ph_meta h)"
    "remaining_points h = ph_points h - used_amount h"
  using assms by (auto simp: remaining_points_def split: if_splits)

lemma owned_remaining_nonneg [simp]: "0 \<le> owned_remaining v t"
  by (simp add: owned_remaining_def sum_list_nonneg_int)

lemma owned_append [simp]:
  "owned_points v (t @ s) = owned_points v t + owned_points v s"
  "owned_remaining v (t @ s) = owned_remaining v t + owned_remaining v s"
  by (simp_all add: owned_points_def owned_remaining_def)

lemma owned_single [simp]:
  "owned_points v [h] = (if ph_user h = v then ph_points h else 0)"
  "owned_remaining v [h] = (if ph_user h = v then remaining_points h else 0)"
  by (simp_all add: owned_points_def owned_remaining_def)

lemma details_sum_simps [simp]:
  "details_sum [] = 0" "details_sum (x # xs) = dt_amount x + details_sum xs"
  by (simp_all add: details_sum_def)

lemma owned_remaining_rupd:
  assumes "keys_distinct ph_id t" and "h \<in> set t" and "\<And>row. ph_user (f row) = ph_user row"
  shows "owned_remaining v (rupd ph_id t (ph_id h) f)
    = owned_remaining v t + (if ph_user h = v then remaining_points (f h) - remaining_points h else 0)"
  using sum_list_rupd [where g = "\<lambda>h. if ph_user h = v then remaining_points h else 0", OF assms(1,2) refl, of f]
  by (simp add: owned_remaining_def sum_list_filter_if assms(3))

lemma core_eqD:
  assumes "core g = core h"
  shows "ph_id g = ph_id h" "ph_user g = ph_user h" "ph_points g = ph_points h"
    "ph_balance g = ph_balance h" "ph_type g = ph_type h" "ph_order g = ph_order h"
    "ph_expires_at g = ph_expires_at h" "ph_created_at g = ph_created_at h"
    "m_used_details (ph_meta g) = m_used_details (ph_meta h)"
    "m_restored_details (ph_meta g) = m_restored_details (ph_meta h)"
  using assms by (simp_all add: core_def)

lemma map_core_map:
  assumes "map core t' = map core t" and "\<And>g h. core g = core h \<Longrightarrow> F g = F h"
  shows "map F t' = map F t"
proof (rule nth_equalityI)
  have len: "length t' = length t"
    using assms(1) map_eq_imp_length_eq by blast
  then show "length (map F t') = length (map F t)"
    by simp
  fix i
  assume i: "i < length (map F t')"
  have "core (t' ! i) = core (t ! i)"
    using arg_cong [OF assms(1), of "\<lambda>xs. xs ! i"] i len by simp
  from assms(2) [OF this] show "map F t' ! i = map F t ! i"
    using i len by simp
qed

lemma map_core_ids:
  assumes "map core t' = map core t"
  shows "map ph_id t' = map ph_id t"
  using assms by (rule map_core_map) (rule core_eqD(1))

lemma map_core_owned:
  assumes "map core t' = map core t"
  shows "owned_points v t' = owned_points v t"
proof -
  have "map (\<lambda>h. if ph_user h = v then ph_points h else 0) t' = map (\<lambda>h. if ph_user h = v then ph_points h else 0) t"
    using assms by (rule map_core_map) (simp add: core_def)
  then show ?thesis
    by (simp add: owned_points_def sum_list_filter_if)
qed

lemma map_core_ex:
  assumes "map core t' = map core t" and "g \<in> set t'"
  obtains h where "h \<in> set t" "core g = core h"
proof -
  have "core g \<in> core ` set t"
    using assms by (metis image_eqI list.set_map)
  then show thesis
    using that by auto
qed

lemma wf_history_core:
  assumes eq: "map core t' = map core t" and gh: "core g = core h" and wf: "wf_history t n os h"
  shows "wf_history t' n os g"
proof -
  have "ph_user r = ph_user h"
    if use: "ph_type h = Use" "x \<in> set (m_used_details (ph_meta h))" "ph_id r = dt_history_id x"
      and r: "r \<in> set t'"
    for r x
  proof -
    obtain q where q: "q \<in> set t" "core r = core q"
      using map_core_ex [OF eq r] by blast
    have "ph_user q = ph_user h"
      using wf use q(1) core_eqD(1) [OF q(2)] by (simp add: wf_history_def)
    then show ?thesis
      using core_eqD(2) [OF q(2)] by simp
  qed
  then show ?thesis
    using wf core_eqD [OF gh] by (simp add: wf_history_def)
qed

lemma ledger_wf_core:
  assumes "ledger_wf d" and "map core t' = map core (histories d)"
  shows "ledger_wf (d\<lparr>histories := t'\<rparr>)"
  unfolding ledger_wf_def
proof (intro conjI ballI)
  show "keys_distinct ph_id (histories (d\<lparr>histories := t'\<rparr>))"
    using assms map_core_ids [OF assms(2)] by (simp add: ledger_wf_def)
next
  fix g
  assume "g \<in> set (histories (d\<lparr>histories := t'\<rparr>))"
  then obtain h where "h \<in> set (histories d)" "core g = core h"
    using map_core_ex [OF assms(2)] by auto
  then show "wf_history (histories (d\<lparr>histories := t'\<rparr>)) (next_id (d\<lparr>histories := t'\<rparr>))
      (orders (d\<lparr>histories := t'\<rparr>)) g"
    using assms wf_history_core by (simp add: ledger_wf_def)
qed

lemma ledger_wf_cong:
  assumes "histories d' = histories d" "next_id d' = next_id d" "orders d' = orders d"
  shows "ledger_wf d' = ledger_wf d"
  using assms by (simp add: ledger_wf_def)

lemma wf_history_append:
  assumes "wf_history t n os h" and "ph_id new = n"
  shows "wf_history (t @ [new]) (Suc n) os h"
proof -
  have "ph_user g = ph_user h"
    if "ph_type h = Use" "x \<in> set (m_used_details (ph_meta h))" "g \<in> set (t @ [new])"
      "ph_id g = dt_history_id x" for g x
  proof -
    have "dt_history_id x < n"
      using assms(1) that(1,2) by (simp add: wf_history_def)
    then have "g \<in> set t"
      using that(3,4) assms(2) by auto
    then show ?thesis
      using assms(1) that(1,2,4) by (simp add: wf_history_def)
  qed
  moreover have "dt_history_id x < Suc n"
    if "ph_type h = Use" "x \<in> set (m_used_details (ph_meta h))" for x
    using assms(1) that by (simp add: wf_history_def less_SucI)
  ultimately show ?thesis
    using assms(1) unfolding wf_history_def by (meson less_SucI)
qed

lemma ledger_wf_append:
  assumes "ledger_wf d" and "ph_id h = next_id d"
    and "wf_history (histories d @ [h]) (Suc (next_id d)) (orders d) h"
  shows "ledger_wf (d\<lparr>histories := histories d @ [h], next_id := Suc (next_id d)\<rparr>)"
proof -
  have "next_id d \<notin> ph_id ` set (histories d)"
    using assms(1) by (auto simp: ledger_wf_def wf_history_def)
  moreover have "wf_history (histories d @ [h]) (Suc (next_id d)) (orders d) g" if "g \<in> set (histories d)" for g
    using assms(1,2) that by (auto simp: ledger_wf_def intro!: wf_history_append)
  ultimately show ?thesis
    using assms by (simp add: ledger_wf_def)
qed

lemma create_history_Inr:
  "create_history uid pts bal ty ord meta now d = Inr (h, d') \<longleftrightarrow>
     0 \<le> bal
     \<and> \<not> (ty = Earn \<and> (\<exists>k. ord = Some k \<and> (\<exists>g \<in> set (histories d). ph_type g = Earn \<and> ph_order g = Some k)))
     \<and> h = \<lparr>ph_id = next_id d, ph_user = uid, ph_points = pts, ph_balance = bal, ph_type = ty,
            ph_order = ord, ph_expires_at = (if ty = Earn then Some (now + year_seconds) else None),
            ph_meta = meta, ph_created_at = now\<rparr>
     \<and> d' = d\<lparr>histories := histories d @ [h], next_id := Suc (next_id d)\<rparr>"
  by (auto simp: create_history_def Let_def list_ex_iff split: option.splits)

text \<open>A row of any type but \<open>Use\<close> needs nothing of the table it is appended to.\<close>

section \<open>The spending loop\<close>

lemma map_core_rupd:
  assumes "keys_distinct ph_id t" and "h \<in> set t"
    and "m_used_details m = m_used_details (ph_meta h)"
    and "m_restored_details m = m_restored_details (ph_meta h)"
  shows "map core (rupd ph_id t (ph_id h) (\<lambda>row. row\<lparr>ph_meta := m\<rparr>)) = map core t"
proof -
  have "core (row\<lparr>ph_meta := m\<rparr>) = core row" if "row \<in> set t" "ph_id row = ph_id h" for row
  proof -
    have "row = h"
      using assms(1,2) that by (intro keys_distinct_eqD [of ph_id t]) simp_all
    then show ?thesis
      using assms(3,4) by (simp add: core_def)
  qed
  then show ?thesis
    by (simp add: rupd_def)
qed

lemma remaining_after_use:
  assumes "0 < remaining_points h" and "a \<le> remaining_points h"
  shows "remaining_points (h\<lparr>ph_meta := update_earn_metadata now a h\<rparr>) = remaining_points h - a"
  using assms remaining_pos [OF assms(1)]
  by (simp add: remaining_points_def update_earn_metadata_def used_amount_def)

lemma rows_ok_rupd:
  assumes "keys_distinct ph_id t" and "h \<in> set t" and "rows_ok t" and "row_ok (h\<lparr>ph_meta := m\<rparr>)"
  shows "rows_ok (rupd ph_id t (ph_id h) (\<lambda>row. row\<lparr>ph_meta := m\<rparr>))"
  unfolding rows_ok_def
proof
  fix g
  assume "g \<in> set (rupd ph_id t (ph_id h) (\<lambda>row. row\<lparr>ph_meta := m\<rparr>))"
  from set_rupdD [OF this]
  consider "g \<in> set t" | q where "q \<in> set t" "ph_id q = ph_id h" "g = q\<lparr>ph_meta := m\<rparr>"
    by blast
  then show "row_ok g"
  proof cases
    case 2
    then have "q = h"
      using keys_distinct_eqD [OF assms(1) _ assms(2)] by blast
    then show ?thesis
      using 2 assms(4) by simp
  qed (use assms(3) in \<open>simp add: rows_ok_def\<close>)
qed

lemma rows_okD: "rows_ok t \<Longrightarrow> h \<in> set t \<Longrightarrow> row_ok h"
  by (simp add: rows_ok_def)

lemma row_ok_use:
  assumes "row_ok h" and "0 \<le> a" and "a \<le> remaining_points h" and "0 < remaining_points h"
  shows "row_ok (h\<lparr>ph_meta := update_earn_metadata now a h\<rparr>)"
  using assms remaining_pos [OF assms(4)]
  by (simp add: row_ok_def used_amount_def update_earn_metadata_def)

lemma row_ok_restore:
  assumes "row_ok h" and "0 \<le> b"
  shows "row_ok (h\<lparr>ph_meta := restore_metadata now oid b h\<rparr>)"
  using assms by (auto simp: row_ok_def used_amount_def restore_metadata_def)

lemma row_ok_expire: "row_ok h \<Longrightarrow> row_ok (h\<lparr>ph_meta := ph_meta (mark_expired now a h)\<rparr>)"
  by (simp add: row_ok_def used_amount_def mark_expired_def)

text \<open>The table holds the listed rows as they were read.\<close>

definition in_table :: "history list \<Rightarrow> history list \<Rightarrow> bool" where
  "in_table hs t \<longleftrightarrow> keys_distinct ph_id t \<and> distinct (map ph_id hs) \<and> set hs \<subseteq> set t"

lemma in_table_step:
  assumes "in_table (h # hs) t"
  shows "in_table hs (rupd ph_id t (ph_id h) (\<lambda>row. row\<lparr>ph_meta := m\<rparr>))" "in_table hs t" "h \<in> set t"
    "keys_distinct ph_id t"
proof -
  have "g \<in> set (rupd ph_id t (ph_id h) (\<lambda>row. row\<lparr>ph_meta := m\<rparr>))" if "g \<in> set hs" for g
  proof -
    have "ph_id g \<noteq> ph_id h"
      using assms that by (auto simp: in_table_def) (metis image_eqI)
    then show ?thesis
      using assms that by (auto simp: in_table_def intro: in_rupd_other)
  qed
  then show "in_table hs (rupd ph_id t (ph_id h) (\<lambda>row. row\<lparr>ph_meta := m\<rparr>))"
    using assms by (auto simp: in_table_def map_key_rupd)
qed (use assms in \<open>auto simp: in_table_def\<close>)

lemma consume_loop_ok:
  assumes "consume_loop now hs amt t = Inr ((ds, left), t')" and "in_table hs t"
    and "\<forall>h \<in> set hs. ph_user h = uid"
  shows "map core t' = map core t \<and> details_sum ds = amt - left \<and> (rows_ok t \<longrightarrow> rows_ok t')
    \<and> (\<forall>v. owned_remaining v t' = owned_remaining v t - (if v = uid then amt - left else 0))"
  using assms
proof (induction hs arbitrary: amt t ds)
  case (Cons h hs)
  show ?case
  proof (cases "amt \<le> 0 \<or> remaining_points h \<le> 0")
    case True
    then show ?thesis
      using Cons in_table_step(2) by (auto split: if_splits)
  next
    case False
    define a where "a = min (remaining_points h) amt"
    define t1 where "t1 = rupd ph_id t (ph_id h) (\<lambda>row. row\<lparr>ph_meta := update_earn_metadata now a h\<rparr>)"
    from False Cons.prems(1) obtain e ds' where
      rec: "consume_loop now hs (amt - a) t1 = Inr ((ds', left), t')"
      and ds: "ds = \<lparr>dt_history_id = ph_id h, dt_amount = a, dt_expires_at = e\<rparr> # ds'"
      by (auto simp: Let_def a_def t1_def rbind_eq_Inr of_get_eq_Inr)
    have IH: "map core t' = map core t1 \<and> details_sum ds' = amt - a - left \<and> (rows_ok t1 \<longrightarrow> rows_ok t')
      \<and> (\<forall>v. owned_remaining v t' = owned_remaining v t1 - (if v = uid then amt - a - left else 0))"
      using Cons.IH [OF rec] Cons.prems(2,3) in_table_step(1) [OF Cons.prems(2)] by (simp add: t1_def)
    have core1: "map core t1 = map core t"
      unfolding t1_def using in_table_step(3,4) [OF Cons.prems(2)]
      by (intro map_core_rupd) (auto simp: update_earn_metadata_def)
    have "owned_remaining v t1 = owned_remaining v t - (if v = uid then a else 0)" for v
      unfolding t1_def using False in_table_step(3,4) [OF Cons.prems(2)] Cons.prems(3)
      by (subst owned_remaining_rupd) (auto simp: remaining_after_use a_def)
    moreover have "rows_ok t \<longrightarrow> rows_ok t1"
      unfolding t1_def using in_table_step(3,4) [OF Cons.prems(2)] False
      by (auto simp: a_def intro!: rows_ok_rupd row_ok_use dest: rows_okD)
    ultimately show ?thesis
      using IH core1 ds by simp
  qed
qed auto

lemma consume_loop_left:
  assumes "consume_loop now hs amt t = Inr ((ds, left), t')" and "0 \<le> amt"
  shows "left = max 0 (amt - sum_list (map remaining_points hs))"
  using assms
proof (induction hs arbitrary: amt t ds)
  case (Cons h hs)
  have nn: "0 \<le> sum_list (map remaining_points hs)"
    by (simp add: sum_list_nonneg_int)
  show ?case
  proof (cases "amt \<le> 0 \<or> remaining_points h \<le> 0")
    case True
    show ?thesis
    proof (cases "amt \<le> 0")
      case True
      then have "left = 0" "amt = 0"
        using Cons.prems by auto
      then show ?thesis
        using nn remaining_nonneg [of h] unfolding list.map sum_list.Cons by linarith
    next
      case False
      with True have "remaining_points h = 0"
        using remaining_nonneg [of h] by linarith
      then show ?thesis
        using Cons.IH [of amt t ds] Cons.prems False by simp
    qed
  next
    case False
    then obtain t1 ds' where "consume_loop now hs (amt - min (remaining_points h) amt) t1 = Inr ((ds', left), t')"
      using Cons.prems(1) by (auto simp: Let_def rbind_eq_Inr of_get_eq_Inr)
    then show ?thesis
      using Cons.IH Cons.prems(2) nn remaining_nonneg [of h] False by fastforce
  qed
qed auto

text \<open>The loop does not raise on rows that carry an expiry date.\<close>

lemma consume_loop_returns:
  assumes "\<forall>h \<in> set hs. ph_expires_at h \<noteq> None"
  shows "\<exists>ds left t'. consume_loop now hs amt t = Inr ((ds, left), t')"
  using assms
proof (induction hs arbitrary: amt t)
  case (Cons h hs)
  obtain e where "ph_expires_at h = Some e"
    using Cons.prems by auto
  then show ?case
    using Cons by (fastforce simp: Let_def rbind_eq_Inr)
qed simp

section \<open>The refund loop\<close>

lemma remaining_after_restore:
  assumes "0 \<le> back"
  shows "remaining_points (h\<lparr>ph_meta := restore_metadata now oid back h\<rparr>) \<le> remaining_points h + back"
  using assms by (auto simp: remaining_points_def restore_metadata_def used_amount_def)

lemma restore_loop_ok:
  assumes "restore_loop now oid out hs amt t = Inr ((ds, ex, left), t')" and "in_table hs t"
    and "\<forall>h \<in> set hs. ph_user h = uid \<and> 0 < out (ph_id h)" and "0 \<le> amt"
  shows "map core t' = map core t \<and> details_sum ds = amt - left \<and> 0 \<le> left \<and> 0 \<le> ex \<and> ex \<le> amt - left
    \<and> (rows_ok t \<longrightarrow> rows_ok t')
    \<and> (\<forall>v. owned_remaining v t' \<le> owned_remaining v t + (if v = uid then amt - left - ex else 0))"
  using assms
proof (induction hs arbitrary: amt t ds ex)
  case (Cons h hs)
  show ?case
  proof (cases "amt \<le> 0")
    case True
    then show ?thesis
      using Cons.prems by auto
  next
    case False
    define b where "b = min (out (ph_id h)) amt"
    have b: "0 \<le> b" "b \<le> amt"
      using Cons.prems(3) False by (auto simp: b_def)
    obtain e where e: "ph_expires_at h = Some e"
      using False Cons.prems(1) by (auto simp: Let_def rbind_eq_Inr of_get_eq_Inr)
    define t1 where "t1 = (if e \<le> now then t
      else rupd ph_id t (ph_id h) (\<lambda>row. row\<lparr>ph_meta := restore_metadata now oid b h\<rparr>))"
    from False Cons.prems(1) e obtain ds' ex' where
      rec: "restore_loop now oid out hs (amt - b) t1 = Inr ((ds', ex', left), t')"
      and ds: "details_sum ds = b + details_sum ds'" "ex = (if e \<le> now then b else 0) + ex'"
      by (auto simp: Let_def t1_def rbind_eq_Inr b_def [symmetric])
    have l1: "in_table hs t1"
      using in_table_step(1,2) [OF Cons.prems(2)] by (simp add: t1_def)
    have IH: "map core t' = map core t1 \<and> details_sum ds' = amt - b - left \<and> 0 \<le> left \<and> 0 \<le> ex'
      \<and> ex' \<le> amt - b - left \<and> (rows_ok t1 \<longrightarrow> rows_ok t')
      \<and> (\<forall>v. owned_remaining v t' \<le> owned_remaining v t1 + (if v = uid then amt - b - left - ex' else 0))"
      using Cons.IH [OF rec l1] Cons.prems(3) b by simp
    have core1: "map core t1 = map core t"
      unfolding t1_def using in_table_step(3,4) [OF Cons.prems(2)] map_core_rupd [where t = t and h = h]
      by (auto simp: restore_metadata_def)
    have "owned_remaining v t1 \<le> owned_remaining v t + (if v = uid \<and> now < e then b else 0)" for v
      unfolding t1_def using in_table_step(3,4) [OF Cons.prems(2)] Cons.prems(3) b
        remaining_after_restore [OF b(1), where h = h and now = now and oid = oid]
      by (simp add: owned_remaining_rupd)
    note r1 = this
    have ok1: "rows_ok t \<longrightarrow> rows_ok t1"
      unfolding t1_def using in_table_step(3,4) [OF Cons.prems(2)] b
      by (auto intro!: rows_ok_rupd row_ok_restore dest: rows_okD)
    have "owned_remaining v t' \<le> owned_remaining v t + (if v = uid then amt - left - ex else 0)" for v
    proof -
      have "owned_remaining v t' \<le> owned_remaining v t1 + (if v = uid then amt - b - left - ex' else 0)"
        using IH by blast
      then show ?thesis
        using r1 [of v] ds(2) by (auto split: if_splits)
    qed
    then show ?thesis
      using IH core1 ok1 ds b by (auto split: if_splits)
  qed
qed auto

text \<open>Each restored detail is one listed row, in order, and within what is outstanding.\<close>

lemma restore_loop_details:
  assumes "restore_loop now oid out hs amt t = Inr ((ds, ex, left), t')"
    and "\<forall>h \<in> set hs. 0 < out (ph_id h)" and "0 \<le> amt"
  shows "prefix (map dt_history_id ds) (map ph_id hs)
    \<and> (\<forall>x \<in> set ds. 0 < dt_amount x \<and> dt_amount x \<le> out (dt_history_id x))"
  using assms
proof (induction hs arbitrary: amt t ds ex)
  case (Cons h hs)
  show ?case
  proof (cases "amt \<le> 0")
    case True
    then show ?thesis
      using Cons.prems by auto
  next
    case False
    then obtain e ds' ex' t1 where
      rec: "restore_loop now oid out hs (amt - min (out (ph_id h)) amt) t1 = Inr ((ds', ex', left), t')"
      and ds: "ds = \<lparr>dt_history_id = ph_id h, dt_amount = min (out (ph_id h)) amt, dt_expires_at = e\<rparr> # ds'"
      using Cons.prems(1) by (auto simp: Let_def rbind_eq_Inr of_get_eq_Inr)
    show ?thesis
      using Cons.IH [OF rec] Cons.prems(2) False ds by auto
  qed
qed auto

lemma restore_loop_returns:
  assumes "\<forall>h \<in> set hs. ph_expires_at h \<noteq> None"
  shows "\<exists>ds ex left t'. restore_loop now oid out hs amt t = Inr ((ds, ex, left), t')"
  using assms
proof (induction hs arbitrary: amt t)
  case (Cons h hs)
  obtain e where "ph_expires_at h = Some e"
    using Cons.prems by auto
  then show ?case
    using Cons by (fastforce simp: Let_def rbind_eq_Inr)
qed simp

section \<open>One posting\<close>

text \<open>
  The common shape of all operations: metadata of earning rows changes, the
  balance moves by the points of the appended row.
\<close>

definition posted :: "pk \<Rightarrow> (int \<Rightarrow> int) \<Rightarrow> history list \<Rightarrow> history \<Rightarrow> db \<Rightarrow> db" where
  "posted uid g t h d =
     (upd_user uid (map_points g) d)\<lparr>histories := t @ [h], next_id := Suc (next_id d)\<rparr>"

lemma posted_frame [simp]:
  "histories (posted uid g t h d) = t @ [h]" "next_id (posted uid g t h d) = Suc (next_id d)"
  "users (posted uid g t h d) = rupd u_id (users d) uid (map_points g)"
  "orders (posted uid g t h d) = orders d"
  by (simp_all add: posted_def)

lemma ledger_inv_posted:
  assumes inv: "ledger_inv d" and core: "map core t = map core (histories d)"
    and u: "get_user d uid = Some u"
    and h: "ph_id h = next_id d" "ph_user h = uid"
    and wf: "wf_history (t @ [h]) (Suc (next_id d)) (orders d) h"
    and g: "g (u_points u) = u_points u + ph_points h" "0 \<le> u_points u + ph_points h"
    and others: "\<And>v. v \<noteq> uid \<Longrightarrow> owned_remaining v t \<le> owned_remaining v (histories d)"
    and covered: "owned_remaining uid t + remaining_points h \<le> u_points u + ph_points h"
    and rows: "rows_ok t" "row_ok h"
  shows "ledger_inv (posted uid g t h d)"
proof -
  have "ledger_wf (d\<lparr>histories := t\<rparr>)"
    using inv core by (simp add: ledger_inv_def ledger_wf_core)
  then have "ledger_wf ((d\<lparr>histories := t\<rparr>)\<lparr>histories := t @ [h], next_id := Suc (next_id d)\<rparr>)"
    using ledger_wf_append [of "d\<lparr>histories := t\<rparr>" h] h wf by simp
  then have wf': "ledger_wf (posted uid g t h d)"
    by (rule iffD1 [OF ledger_wf_cong, rotated 3]) simp_all
  have rows_append: "rows_ok (t @ [h])"
    using rows by (simp add: rows_ok_def)
  have pts: "owned_points v t = owned_points v (histories d)" for v
    by (rule map_core_owned [OF core])
  have "0 \<le> u_points w \<and> u_points w = owned_points v (t @ [h]) \<and> owned_remaining v (t @ [h]) \<le> u_points w"
    if w: "get_user (posted uid g t h d) v = Some w" for v w
  proof (cases "v = uid")
    case True
    then have "u_points w = g (u_points u)"
      using w u by (auto simp: points_col.rget_bump map_points_def)
    then show ?thesis
      using True inv u g h covered by (auto simp: ledger_inv_def accounts_ok_def pts)
  next
    case False
    then have "get_user d v = Some w"
      using w by (simp add: points_col.rget_bump)
    then show ?thesis
      using False inv others [OF False] h by (fastforce simp: ledger_inv_def accounts_ok_def pts)
  qed
  then show ?thesis
    using wf' rows_append unfolding ledger_inv_def accounts_ok_def posted_frame(1) by blast
qed

section \<open>The operations as postings\<close>

definition new_row ::
  "pk \<Rightarrow> int \<Rightarrow> int \<Rightarrow> point_type \<Rightarrow> pk option \<Rightarrow> metadata \<Rightarrow> timestamp \<Rightarrow> pk \<Rightarrow> history" where
  "new_row uid pts bal ty ord meta now n =
     \<lparr>ph_id = n, ph_user = uid, ph_points = pts, ph_balance = bal, ph_type = ty, ph_order = ord,
      ph_expires_at = (if ty = Earn then Some (now + year_seconds) else None),
      ph_meta = meta, ph_created_at = now\<rparr>"

lemma new_row_sel [simp]:
  "ph_id (new_row uid pts bal ty ord meta now n) = n"
  "ph_user (new_row uid pts bal ty ord meta now n) = uid"
  "ph_points (new_row uid pts bal ty ord meta now n) = pts"
  "ph_balance (new_row uid pts bal ty ord meta now n) = bal"
  "ph_type (new_row uid pts bal ty ord meta now n) = ty"
  "ph_order (new_row uid pts bal ty ord meta now n) = ord"
  "ph_meta (new_row uid pts bal ty ord meta now n) = meta"
  "ph_created_at (new_row uid pts bal ty ord meta now n) = now"
  "ph_expires_at (new_row uid pts bal ty ord meta now n) = None \<longleftrightarrow> ty \<noteq> Earn"
  by (simp_all add: new_row_def)

lemma no_meta_sel [simp]:
  "m_restored_details no_meta = []" "m_used_details no_meta = []" "m_expired no_meta = False"
  "m_used_amount no_meta = None"
  by (simp_all add: no_meta_def)

lemma wf_new_row [simp]:
  assumes "ty \<noteq> Use" and "\<forall>x \<in> set (m_restored_details meta). 0 \<le> dt_amount x"
  shows "wf_history t (Suc n) os (new_row uid pts bal ty ord meta now n)"
  using assms by (simp add: wf_history_def new_row_def)

lemma row_ok_new_row [simp]:
  assumes "m_used_amount meta = None" and "ty = Earn \<longrightarrow> 0 \<le> pts"
  shows "row_ok (new_row uid pts bal ty ord meta now n)"
  using assms by (simp add: row_ok_def used_amount_def)

lemma remaining_new_row [simp]:
  "remaining_points (new_row uid pts bal ty ord (no_meta\<lparr>m_info := i\<rparr>) now n)
     = (if ty = Earn then max 0 pts else 0)"
  by (simp add: remaining_points_def new_row_def used_amount_def no_meta_def)

lemma remaining_not_earn: "ph_type h \<noteq> Earn \<Longrightarrow> remaining_points h = 0"
  by (simp add: remaining_points_def)

lemma create_history_posted:
  assumes "create_history uid pts bal ty ord meta now (upd_user k (map_points g) d) = Inr (h, d')"
  shows "h = new_row uid pts bal ty ord meta now (next_id d)"
    and "d' = posted k g (histories d) h d" and "0 \<le> bal"
  using assms by (auto simp: create_history_Inr new_row_def posted_def)

lemma points_read [simp]:
  "rget u_id (rupd u_id us k (map_points g)) k = map_option (map_points g) (rget u_id us k)"
  "u_points (map_points g u) = g (u_points u)"
  "u_id (map_points g u) = u_id u"
  by (simp_all add: points_col.rget_bump map_points_def)

lemma ledger_inv_account:
  assumes "ledger_inv d" and "get_user d v = Some u"
  shows "0 \<le> u_points u" "u_points u = owned_points v (histories d)"
    "owned_remaining v (histories d) \<le> u_points u"
  using assms unfolding ledger_inv_def accounts_ok_def by blast+

lemma ledger_inv_parts:
  assumes "ledger_inv d"
  shows "ledger_wf d" "rows_ok (histories d)" "keys_distinct ph_id (histories d)"
  using assms by (simp_all add: ledger_inv_def ledger_wf_def)

lemma posted_histories_upd [simp]: "posted k g t h (d\<lparr>histories := x\<rparr>) = posted k g t h d"
  by (simp add: posted_def upd_user_def)

lemma add_points_Inr:
  assumes "add_points uid amount ty ord info now d = Inr (r, d')"
  obtains "amount \<le> 0" "\<not> r" "d' = d"
  | u where "0 < amount" "r" "get_user d uid = Some u"
      "d' = posted uid (\<lambda>p. p + amount) (histories d)
         (new_row uid amount (u_points u + amount) ty ord (no_meta\<lparr>m_info := info\<rparr>) now (next_id d)) d"
proof (cases "amount \<le> 0")
  case True
  then show thesis
    using assms that(1) by (simp add: add_points_def)
next
  case False
  then obtain u h where "get_user d uid = Some u"
    "create_history uid amount (u_points u + amount) ty ord (no_meta\<lparr>m_info := info\<rparr>) now
       (upd_user uid (map_points (\<lambda>p. p + amount)) d) = Inr (h, d')" "r"
    using assms by (auto simp: add_points_def Let_def rbind_eq_Inr of_get_eq_Inr)
  with False show thesis
    using that(2) create_history_posted by (metis linorder_not_le)
qed

lemma use_points_Inr:
  assumes "use_points uid amount ty ord info now d = Inr (r, d')"
  obtains "\<not> r" "d' = d"
  | u where "0 < amount" "r" "get_user d uid = Some u" "amount \<le> u_points u"
      "d' = posted uid (\<lambda>p. p - amount) (histories d)
         (new_row uid (- amount) (u_points u - amount) ty ord (no_meta\<lparr>m_info := info\<rparr>) now (next_id d)) d"
proof (cases "amount \<le> 0")
  case True
  then show thesis
    using assms that(1) by (simp add: use_points_def)
next
  case False
  then obtain u where u: "get_user d uid = Some u"
    using assms by (auto simp: use_points_def rbind_eq_Inr of_get_eq_Inr)
  show thesis
  proof (cases "u_points u < amount")
    case True
    then show thesis
      using False u assms that(1) by (simp add: use_points_def)
  next
    case f: False
    then obtain h where
      "create_history uid (- amount) (u_points u - amount) ty ord (no_meta\<lparr>m_info := info\<rparr>) now
         (upd_user uid (map_points (\<lambda>p. p - amount)) d) = Inr (h, d')" "r"
      using False u assms by (auto simp: use_points_def Let_def rbind_eq_Inr of_get_eq_Inr)
    with f False u show thesis
      using that(2) create_history_posted by (metis linorder_not_le)
  qed
qed

lemma add_points_inv:
  assumes inv: "ledger_inv d" and op: "add_points uid amount ty ord info now d = Inr (r, d')"
    and ty: "ty \<noteq> Use"
  shows "ledger_inv d'"
  using op
proof (cases rule: add_points_Inr)
  case (2 u)
  show ?thesis
    unfolding 2(4) using 2 inv ty ledger_inv_account [OF inv 2(3)] ledger_inv_parts(2) [OF inv]
    by (intro ledger_inv_posted [where u = u]) auto
qed (use inv in simp)

section \<open>Spending\<close>

lemma in_table_sorted_filter:
  assumes "keys_distinct ph_id t"
  shows "in_table (sort_key k (filter P t)) t"
  using assms by (auto simp: in_table_def distinct_map intro: inj_on_subset)

lemma available_points_props:
  assumes "ledger_wf d"
  shows "in_table (available_points uid ty now (histories d)) (histories d)"
    and "\<forall>h \<in> set (available_points uid ty now (histories d)). ph_user h = uid \<and> ph_expires_at h \<noteq> None"
  using assms
  by (auto simp: available_points_def filter_filter ledger_wf_def wf_history_def intro!: in_table_sorted_filter)

lemma sum_list_sort_key: "sum_list (map g (sort_key k xs)) = sum_list (map (g :: 'a \<Rightarrow> int) xs)"
  by (metis mset_map mset_sort sum_mset_sum_list)

text \<open>For a plain use every earning row of the user that has points left is available.\<close>

lemma available_points_use_sum:
  "sum_list (map remaining_points (available_points uid Use now t)) = owned_remaining uid t"
proof -
  have "sum_list (map remaining_points (available_points uid Use now t))
      = sum_list (map remaining_points (filter (\<lambda>h. \<not> m_expired (ph_meta h) \<and> ph_user h = uid \<and> ph_type h = Earn) t))"
    unfolding available_points_def sum_list_sort_key by (simp add: filter_filter conj_commute)
  also have "\<dots> = owned_remaining uid t"
    unfolding owned_remaining_def sum_list_filter_if
    by (intro arg_cong [of _ _ sum_list] map_cong refl) (auto simp: remaining_points_def)
  finally show ?thesis .
qed

lemma use_points_fifo_Inr:
  assumes "use_points_fifo uid amount ty ord info now d = Inr (r, d')"
  obtains (refused) "\<not> ur_success r" "d' = d"
  | (short) u ds left t where "\<not> ur_success r" "get_user d uid = Some u" "ty = CancelDeduct" "0 < left"
      "consume_loop now (available_points uid ty now (histories d)) amount (histories d) = Inr ((ds, left), t)"
      "d' = d\<lparr>histories := t\<rparr>" "0 < amount"
  | (used) u ds left t where "ur_success r" "ur_details r = ds" "get_user d uid = Some u"
      "0 < amount" "amount \<le> u_points u" "ty = CancelDeduct \<longrightarrow> left \<le> 0" "ty = Use \<longrightarrow> 100 \<le> amount"
      "consume_loop now (available_points uid ty now (histories d)) amount (histories d) = Inr ((ds, left), t)"
      "d' = posted uid (\<lambda>p. p - amount) t
         (new_row uid (- amount) (u_points u - amount) ty ord
            (no_meta\<lparr>m_info := info, m_used_details := ds\<rparr>) now (next_id d)) d"
proof (cases "validate_point_usage amount ty MINIMUM_USE_AMOUNT")
  case (Some e)
  then have "r = e" "d' = d" "\<not> ur_success e"
    using assms by (auto simp: use_points_fifo_def validate_point_usage_def use_failed_def split: if_splits)
  then show thesis
    using refused by simp
next
  case None
  then have amt: "0 < amount" "ty = Use \<longrightarrow> 100 \<le> amount"
    by (auto simp: validate_point_usage_def MINIMUM_USE_AMOUNT_def split: if_splits)
  obtain u where u: "get_user d uid = Some u"
    using assms None by (auto simp: use_points_fifo_def rbind_eq_Inr of_get_eq_Inr)
  show thesis
  proof (cases "u_points u < amount")
    case True
    then show thesis
      using refused assms None u by (auto simp: use_points_fifo_def use_failed_def)
  next
    case enough: False
    with assms None u obtain ds left t where
      loop: "consume_loop now (available_points uid ty now (histories d)) amount (histories d) = Inr ((ds, left), t)"
      by (auto simp: use_points_fifo_def rbind_eq_Inr consume_points_fifo_def split: sum.splits)
    show thesis
    proof (cases "ty = CancelDeduct \<and> 0 < left")
      case True
      then show thesis
        using short [OF _ u _ _ loop] assms None u enough loop amt
        by (auto simp: use_points_fifo_def consume_points_fifo_def use_failed_def)
    next
      case False
      then obtain h where h:
        "create_history uid (- amount) (u_points u - amount) ty ord (no_meta\<lparr>m_info := info, m_used_details := ds\<rparr>)
           now (upd_user uid (map_points (\<lambda>p. p - amount)) (d\<lparr>histories := t\<rparr>)) = Inr (h, d')"
        "ur_success r" "ur_details r = ds"
        using assms None u enough loop
        by (auto simp: use_points_fifo_def consume_points_fifo_def Let_def rbind_eq_Inr)
      show thesis
        using used [OF h(2,3) u] create_history_posted [OF h(1)] amt enough False loop by auto
    qed
  qed
qed

lemma consume_loop_ids:
  assumes "consume_loop now hs amt t = Inr ((ds, left), t')"
  shows "subseq (map dt_history_id ds) (map ph_id hs) \<and> (\<forall>x \<in> set ds. 0 < dt_amount x)"
  using assms
proof (induction hs arbitrary: amt t ds)
  case (Cons h hs)
  show ?case
  proof (cases "amt \<le> 0 \<or> remaining_points h \<le> 0")
    case True
    then show ?thesis
      using Cons.IH [of amt t ds] Cons.prems by (auto split: if_splits)
  next
    case False
    then obtain e ds' t1 where
      "consume_loop now hs (amt - min (remaining_points h) amt) t1 = Inr ((ds', left), t')"
      "ds = \<lparr>dt_history_id = ph_id h, dt_amount = min (remaining_points h) amt, dt_expires_at = e\<rparr> # ds'"
      using Cons.prems by (auto simp: Let_def rbind_eq_Inr of_get_eq_Inr)
    then show ?thesis
      using Cons.IH False by auto
  qed
qed auto

definition order_owned :: "db \<Rightarrow> pk option \<Rightarrow> pk \<Rightarrow> bool" where
  "order_owned d ord uid \<longleftrightarrow>
     (case ord of None \<Rightarrow> True | Some k \<Rightarrow>
        (case get_order d k of None \<Rightarrow> False | Some x \<Rightarrow> o_user x = Some uid))"

lemma wf_use_row:
  assumes wf: "ledger_wf d" and core: "map core t = map core (histories d)"
    and own: "order_owned d ord uid"
    and ids: "\<forall>x \<in> set ds. \<exists>h \<in> set (histories d). ph_id h = dt_history_id x \<and> ph_user h = uid"
    and n: "n = next_id d"
  shows "wf_history (t @ [new_row uid pts bal Use ord (no_meta\<lparr>m_info := i, m_used_details := ds\<rparr>) now n])
    (Suc n) (orders d) (new_row uid pts bal Use ord (no_meta\<lparr>m_info := i, m_used_details := ds\<rparr>) now n)"
proof -
  have "dt_history_id x < n \<and> (\<forall>g \<in> set t. ph_id g = dt_history_id x \<longrightarrow> ph_user g = uid)"
    if "x \<in> set ds" for x
  proof -
    obtain h where h: "h \<in> set (histories d)" "ph_id h = dt_history_id x" "ph_user h = uid"
      using ids \<open>x \<in> set ds\<close> by blast
    have "ph_user g = uid" if g: "g \<in> set t" "ph_id g = dt_history_id x" for g
    proof -
      obtain q where q: "q \<in> set (histories d)" "core g = core q"
        using map_core_ex [OF core g(1)] by blast
      have "q = h"
        using wf q(1) h(1,2) g(2) core_eqD(1) [OF q(2)]
        by (intro keys_distinct_eqD [of ph_id "histories d"]) (simp_all add: ledger_wf_def)
      then show ?thesis
        using core_eqD(2) [OF q(2)] h(3) by simp
    qed
    then show ?thesis
      using wf h n by (auto simp: ledger_wf_def wf_history_def)
  qed
  then show ?thesis
    using own n
    by (auto simp: wf_history_def new_row_def no_meta_def order_owned_def less_SucI split: option.splits)
qed

lemma ledger_inv_meta:
  assumes inv: "ledger_inv d" and core: "map core t = map core (histories d)"
    and le: "\<And>v. owned_remaining v t \<le> owned_remaining v (histories d)" and rows: "rows_ok t"
  shows "ledger_inv (d\<lparr>histories := t\<rparr>)"
proof -
  have "owned_remaining v t \<le> u_points u" if "get_user d v = Some u" for u v
    using ledger_inv_account(3) [OF inv that] le [of v] by linarith
  moreover have "ledger_wf (d\<lparr>histories := t\<rparr>)"
    using inv core ledger_wf_core by (simp add: ledger_inv_def)
  ultimately show ?thesis
    using ledger_inv_account [OF inv] map_core_owned [OF core] rows
    unfolding ledger_inv_def accounts_ok_def by simp
qed

lemma consume_available:
  assumes inv: "ledger_inv d" and amt: "0 < amount"
    and loop: "consume_loop now (available_points uid ty now (histories d)) amount (histories d) = Inr ((ds, left), t)"
  shows "map core t = map core (histories d)" "details_sum ds = amount - left" "0 \<le> left" "left \<le> amount"
    "owned_remaining v t = owned_remaining v (histories d) - (if v = uid then amount - left else 0)"
    "\<forall>x \<in> set ds. \<exists>h \<in> set (histories d). ph_id h = dt_history_id x \<and> ph_user h = uid"
    "ty = Use \<longrightarrow> left = max 0 (amount - owned_remaining uid (histories d))"
    "rows_ok t"
proof -
  have wf: "ledger_wf d"
    using inv by (simp add: ledger_inv_def)
  note av = available_points_props [OF wf, of uid ty now]
  note ok = consume_loop_ok [OF loop av(1), of uid]
  show "map core t = map core (histories d)" "details_sum ds = amount - left"
    "owned_remaining v t = owned_remaining v (histories d) - (if v = uid then amount - left else 0)"
    "rows_ok t"
    using ok av(2) ledger_inv_parts(2) [OF inv] by auto
  have left: "left = max 0 (amount - sum_list (map remaining_points (available_points uid ty now (histories d))))"
    using consume_loop_left [OF loop] amt by simp
  then show "0 \<le> left" "left \<le> amount"
    using amt sum_list_nonneg_int [of "available_points uid ty now (histories d)" remaining_points] by simp_all
  show "ty = Use \<longrightarrow> left = max 0 (amount - owned_remaining uid (histories d))"
    using left available_points_use_sum by auto
  have "dt_history_id x \<in> ph_id ` set (available_points uid ty now (histories d))" if "x \<in> set ds" for x
  proof -
    have mem: "dt_history_id x \<in> set (map dt_history_id ds)"
      using that by simp
    have "subseq (map dt_history_id ds) (map ph_id (available_points uid ty now (histories d)))"
      using consume_loop_ids [OF loop] by blast
    then obtain y where "y \<in> set (map ph_id (available_points uid ty now (histories d)))" "dt_history_id x = y"
      using mem by (rule list_emb_set)
    then show ?thesis
      by simp
  qed
  then show "\<forall>x \<in> set ds. \<exists>h \<in> set (histories d). ph_id h = dt_history_id x \<and> ph_user h = uid"
    using av by (fastforce simp: in_table_def)
qed

lemma use_points_fifo_inv:
  assumes inv: "ledger_inv d" and op: "use_points_fifo uid amount ty ord info now d = Inr (r, d')"
    and ty: "ty = CancelDeduct \<or> ty = Use \<and> order_owned d ord uid"
  shows "ledger_inv d'"
  using op
proof (cases rule: use_points_fifo_Inr)
  case (short u ds left t)
  note c = consume_available [OF inv short(7,5)]
  show ?thesis
    unfolding short(6) using c(3,4) by (intro ledger_inv_meta [OF inv c(1) _ c(8)]) (simp add: c(5))
next
  case (used u ds left t)
  note c = consume_available [OF inv used(4,8)]
  have wf: "ledger_wf d"
    using inv by (simp add: ledger_inv_def)
  have "wf_history (t @ [new_row uid (- amount) (u_points u - amount) ty ord
          (no_meta\<lparr>m_info := info, m_used_details := ds\<rparr>) now (next_id d)]) (Suc (next_id d)) (orders d)
        (new_row uid (- amount) (u_points u - amount) ty ord
          (no_meta\<lparr>m_info := info, m_used_details := ds\<rparr>) now (next_id d))"
    using ty wf_use_row [OF wf c(1) _ c(6)] by auto
  moreover have "owned_remaining uid t \<le> u_points u - amount"
    using ledger_inv_account [OF inv used(3)] used(5,6) c(3,4,7) ty c(5) [of uid] by auto
  ultimately show ?thesis
    unfolding used(9) using used inv c ty
    by (intro ledger_inv_posted [where u = u]) (auto simp: remaining_not_earn)
qed (use inv in simp)

section \<open>Refunding\<close>

lemma detail_total_pos:
  assumes "0 < detail_total k xs"
  obtains x where "x \<in> set xs" "dt_history_id x = k" "0 < dt_amount x"
proof -
  have "\<exists>x \<in> set xs. dt_history_id x = k \<and> 0 < dt_amount x"
  proof (rule ccontr)
    assume "\<not> ?thesis"
    then have "detail_total k xs \<le> 0"
      by (induction xs) (auto simp: detail_total_def)
    then show False
      using assms by simp
  qed
  then show thesis
    using that by blast
qed

lemma detail_total_nonneg: "\<forall>x \<in> set xs. 0 \<le> dt_amount x \<Longrightarrow> 0 \<le> detail_total k xs"
  by (auto simp: detail_total_def intro!: sum_list_nonneg_int)

lemma outstanding_owner:
  assumes wf: "ledger_wf d" and own: "order_owned d (Some oid) uid"
    and pos: "0 < outstanding oid (histories d) (ph_id h)" and h: "h \<in> set (histories d)"
  shows "ph_user h = uid"
proof -
  let ?used = "concat (map (\<lambda>h. m_used_details (ph_meta h)) (uses_of oid (histories d)))"
  let ?restd = "concat (map (\<lambda>h. m_restored_details (ph_meta h)) (refunds_of oid (histories d)))"
  have "0 \<le> detail_total (ph_id h) ?restd"
    using wf by (intro detail_total_nonneg) (auto simp: refunds_of_def ledger_wf_def wf_history_def)
  then have "0 < detail_total (ph_id h) ?used"
    using pos by (simp add: outstanding_def)
  then obtain x where x: "x \<in> set ?used" "dt_history_id x = ph_id h"
    by (rule detail_total_pos)
  then obtain g where g: "g \<in> set (histories d)" "ph_order g = Some oid" "ph_type g = Use"
      "x \<in> set (m_used_details (ph_meta g))"
    by (auto simp: uses_of_def)
  have wg: "wf_history (histories d) (next_id d) (orders d) g"
    using wf g(1) by (simp add: ledger_wf_def)
  have "ph_user h = ph_user g"
    using wg g(3,4) h x(2) by (simp add: wf_history_def)
  moreover have "ph_user g = uid"
    using wg g(2,3) own by (auto simp: wf_history_def order_owned_def)
  ultimately show ?thesis
    by simp
qed

lemma earn_rows_props:
  assumes wf: "ledger_wf d" and own: "order_owned d (Some oid) uid"
  shows "in_table (earn_rows oid (histories d)) (histories d)"
    and "\<forall>h \<in> set (earn_rows oid (histories d)).
      ph_user h = uid \<and> 0 < outstanding oid (histories d) (ph_id h)"
    and "\<forall>h \<in> set (earn_rows oid (histories d)). ph_expires_at h \<noteq> None"
  using wf outstanding_owner [OF wf own]
  by (auto simp: earn_rows_def ledger_wf_def wf_history_def intro!: in_table_sorted_filter)

lemma refund_used_points_Inr:
  assumes "refund_used_points uid amount oid ty info now d = Inr (r, d')"
  obtains (refused) "amount \<le> 0" "\<not> rr_success r" "d' = d"
  | (refunded) u ds ex left t d1 where "0 < amount" "rr_success r" "get_user d uid = Some u"
      "restore_loop now oid (outstanding oid (histories d)) (earn_rows oid (histories d)) amount (histories d)
         = Inr ((ds, ex, left), t)"
      "rr_amount r = amount" "rr_restored r = ds" "rr_expired r = ex" "rr_unbacked r = left"
      "d1 = posted uid (\<lambda>p. p + amount) t
         (new_row uid amount (u_points u + amount) ty (Some oid)
            (no_meta\<lparr>m_info := info, m_restored_details := ds, m_expired_on_refund := Some ex,
               m_unbacked := Some left\<rparr>) now (next_id d)) d"
      "d' = (if 0 < ex then posted uid (\<lambda>p. max (p - ex) 0) (histories d1)
               (new_row uid (- ex) (max (u_points u + amount - ex) 0) Expire (Some oid)
                  (no_meta\<lparr>m_refund_history_id := Some (next_id d), m_expired_amount := Some ex\<rparr>)
                  now (Suc (next_id d))) d1
             else d1)"
proof (cases "amount \<le> 0")
  case True
  then show thesis
    using refused assms by (auto simp: refund_used_points_def)
next
  case False
  then obtain u where u: "get_user d uid = Some u"
    using assms by (auto simp: refund_used_points_def rbind_eq_Inr of_get_eq_Inr)
  obtain ds ex left t where loop:
    "restore_loop now oid (outstanding oid (histories d)) (earn_rows oid (histories d)) amount (histories d)
       = Inr ((ds, ex, left), t)"
    using assms False u by (auto simp: refund_used_points_def split: sum.splits)
  define m where "m = no_meta\<lparr>m_info := info, m_restored_details := ds, m_expired_on_refund := Some ex,
               m_unbacked := Some left\<rparr>"
  define d1 where "d1 = posted uid (\<lambda>p. p + amount) t
     (new_row uid amount (u_points u + amount) ty (Some oid) m now (next_id d)) d"
  define res where "res = \<lparr>rr_success = True, rr_amount = amount, rr_restored = ds, rr_expired = ex, rr_unbacked = left\<rparr>"
  have u1: "get_user d1 uid = Some (map_points (\<lambda>p. p + amount) u)"
    using u by (simp add: d1_def)
  obtain h where h: "create_history uid amount (u_points u + amount) ty (Some oid) m now
      (upd_user uid (map_points (\<lambda>p. p + amount)) (d\<lparr>histories := t\<rparr>)) = Inr (h, d1)" "ph_id h = next_id d"
    and rest: "(if 0 < ex
       then rbind (create_history uid (- ex) (max (u_points u + amount - ex) 0) Expire (Some oid)
              (no_meta\<lparr>m_refund_history_id := Some (ph_id h), m_expired_amount := Some ex\<rparr>) now
              (upd_user uid (map_points (\<lambda>p. max (p - ex) 0)) d1)) (\<lambda>_ d4. Inr (res, d4))
       else Inr (res, d1)) = Inr (r, d')"
  proof -
    obtain h d2 where c: "create_history uid amount (u_points u + amount) ty (Some oid) m now
      (upd_user uid (map_points (\<lambda>p. p + amount)) (d\<lparr>histories := t\<rparr>)) = Inr (h, d2)"
      using assms False u loop by (auto simp: refund_used_points_def Let_def rbind_eq_Inr m_def)
    have "d2 = d1" "ph_id h = next_id d"
      using create_history_posted [OF c] by (simp_all add: d1_def)
    then show thesis
      using that [of h] c assms False u loop u1
      by (simp add: refund_used_points_def Let_def m_def [symmetric] res_def [symmetric] split: if_splits)
  qed
  show thesis
  proof (cases "0 < ex")
    case True
    then obtain g where "create_history uid (- ex) (max (u_points u + amount - ex) 0) Expire (Some oid)
          (no_meta\<lparr>m_refund_history_id := Some (ph_id h), m_expired_amount := Some ex\<rparr>) now
          (upd_user uid (map_points (\<lambda>p. max (p - ex) 0)) d1) = Inr (g, d')" "r = res"
      using rest by (auto simp: rbind_eq_Inr)
    from create_history_posted [OF this(1)] show thesis
      using refunded [OF _ _ u loop _ _ _ _ d1_def [unfolded m_def]] False True h(2) \<open>r = res\<close>
      by (simp add: res_def d1_def)
  next
    case f: False
    then have "r = res" "d' = d1"
      using rest by auto
    then show thesis
      using refunded [OF _ _ u loop _ _ _ _ d1_def [unfolded m_def]] False f by (simp add: res_def)
  qed
qed

lemma restore_earn_rows:
  assumes inv: "ledger_inv d" and own: "order_owned d (Some oid) uid" and amt: "0 < amount"
    and loop: "restore_loop now oid (outstanding oid (histories d)) (earn_rows oid (histories d)) amount (histories d)
       = Inr ((ds, ex, left), t)"
  shows "map core t = map core (histories d)" "details_sum ds = amount - left" "0 \<le> left" "0 \<le> ex"
    "ex \<le> amount - left"
    "owned_remaining v t \<le> owned_remaining v (histories d) + (if v = uid then amount - left - ex else 0)"
    "\<forall>x \<in> set ds. 0 < dt_amount x \<and> dt_amount x \<le> outstanding oid (histories d) (dt_history_id x)"
    "distinct (map dt_history_id ds)" "rows_ok t"
proof -
  have wf: "ledger_wf d"
    using inv by (simp add: ledger_inv_def)
  note er = earn_rows_props [OF wf own]
  show "map core t = map core (histories d)" "details_sum ds = amount - left" "0 \<le> left" "0 \<le> ex"
    "ex \<le> amount - left"
    "owned_remaining v t \<le> owned_remaining v (histories d) + (if v = uid then amount - left - ex else 0)" "rows_ok t"
    using restore_loop_ok [OF loop er(1,2)] amt ledger_inv_parts(2) [OF inv] by auto
  have det: "prefix (map dt_history_id ds) (map ph_id (earn_rows oid (histories d)))
    \<and> (\<forall>x \<in> set ds. 0 < dt_amount x \<and> dt_amount x \<le> outstanding oid (histories d) (dt_history_id x))"
    using restore_loop_details [OF loop] er(2) amt by simp
  then show "\<forall>x \<in> set ds. 0 < dt_amount x \<and> dt_amount x \<le> outstanding oid (histories d) (dt_history_id x)"
    by blast
  show "distinct (map dt_history_id ds)"
    using det er(1) by (auto simp: in_table_def prefix_def)
qed

lemma refund_used_points_inv:
  assumes inv: "ledger_inv d" and op: "refund_used_points uid amount oid ty info now d = Inr (r, d')"
    and own: "order_owned d (Some oid) uid" and ty: "ty = CancelRefund \<or> ty = PaymentFailRefund"
  shows "ledger_inv d'"
  using op
proof (cases rule: refund_used_points_Inr)
  case (refunded u ds ex left t d1)
  note c = restore_earn_rows [OF inv own refunded(1,4)]
  note acc = ledger_inv_account [OF inv refunded(3)]
  let ?h = "new_row uid amount (u_points u + amount) ty (Some oid)
            (no_meta\<lparr>m_info := info, m_restored_details := ds, m_expired_on_refund := Some ex,
               m_unbacked := Some left\<rparr>) now (next_id d)"
  have rem: "remaining_points ?h = 0"
    using ty by (auto simp: remaining_not_earn)
  have c6: "owned_remaining uid t \<le> u_points u + amount - ex"
    using c(3,4,5) c(6) [of uid] acc(3) by simp
  have inv1: "ledger_inv d1"
    unfolding refunded(9)
  proof (rule ledger_inv_posted [OF inv c(1) refunded(3)])
    show "wf_history (t @ [?h]) (Suc (next_id d)) (orders d) ?h"
      using ty c(7) by (auto simp: less_imp_le)
    show "owned_remaining uid t + remaining_points ?h \<le> u_points u + ph_points ?h"
      using c6 c(4) rem by simp
    show "owned_remaining v t \<le> owned_remaining v (histories d)" if "v \<noteq> uid" for v
      using c(6) [of v] that by simp
    show "row_ok ?h"
      using ty by auto
  qed (use acc refunded c(9) in simp_all)
  show ?thesis
  proof (cases "0 < ex")
    case True
    have u1: "get_user d1 uid = Some (map_points (\<lambda>p. p + amount) u)"
      using refunded(3,9) by simp
    have "d' = posted uid (\<lambda>p. max (p - ex) 0) (histories d1)
               (new_row uid (- ex) (max (u_points u + amount - ex) 0) Expire (Some oid)
                  (no_meta\<lparr>m_refund_history_id := Some (next_id d), m_expired_amount := Some ex\<rparr>)
                  now (Suc (next_id d))) d1"
      using refunded(10) True by simp
    also have "ledger_inv \<dots>"
      using acc(1) c(3,4,5) c6 rem refunded(9)
        ledger_inv_parts(2) [OF inv1]
      by (intro ledger_inv_posted [OF inv1 refl u1]) (auto simp: remaining_not_earn)
    finally show ?thesis .
  qed (use refunded(10) inv1 in simp)
qed (use inv in simp)

section \<open>Expiring\<close>

lemma expire_one_Inr:
  assumes "expire_one listed now d = Inr (r, d')" and wf: "ledger_wf d"
  obtains (kept) "\<not> r" "d' = d"
  | (expired) u cur where "r" "get_user d (ph_user listed) = Some u" "get_history d (ph_id listed) = Some cur"
      "0 < remaining_points cur"
      "d' = posted (ph_user listed) (\<lambda>p. max (p - remaining_points cur) 0)
         (rupd ph_id (histories d) (ph_id cur) (\<lambda>row. row\<lparr>ph_meta := ph_meta (mark_expired now (remaining_points cur) cur)\<rparr>))
         (new_row (ph_user listed) (- remaining_points cur) (max (u_points u - remaining_points cur) 0) Expire None
            (no_meta\<lparr>m_original_history_id := Some (ph_id listed), m_original_points := Some (ph_points listed),
               m_expired_amount := Some (remaining_points cur)\<rparr>) now (next_id d)) d"
proof (cases "remaining_points listed \<le> 0")
  case True
  then show thesis
    using assms kept by (simp add: expire_one_def)
next
  case False
  then obtain u cur where u: "get_user d (ph_user listed) = Some u" and cur: "get_history d (ph_id listed) = Some cur"
    using assms(1) by (auto simp: expire_one_def rbind_eq_Inr of_get_eq_Inr)
  have uid: "u_id u = ph_user listed"
    using rget_Some_key [OF u] .
  show thesis
  proof (cases "m_expired (ph_meta cur) \<or> remaining_points cur \<le> 0")
    case True
    then show thesis
      using assms(1) False u cur kept by (auto simp: expire_one_def Let_def split: if_splits)
  next
    case f: False
    then obtain h d2 where h:
      "create_history (ph_user listed) (- remaining_points cur) (max (u_points u - remaining_points cur) 0) Expire None
         (no_meta\<lparr>m_original_history_id := Some (ph_id listed), m_original_points := Some (ph_points listed),
            m_expired_amount := Some (remaining_points cur)\<rparr>) now
         (upd_user (ph_user listed) (map_points (\<lambda>p. max (p - remaining_points cur) 0)) d) = Inr (h, d2)"
      and r: "r" and d': "d' = upd_history (ph_id cur)
         (\<lambda>row. row\<lparr>ph_meta := ph_meta (mark_expired now (remaining_points cur) cur)\<rparr>) d2"
      using assms(1) False u cur uid by (auto simp: expire_one_def Let_def rbind_eq_Inr)
    note p = create_history_posted [OF h]
    have "ph_id cur < next_id d"
      using wf rget_Some_in [OF cur] by (auto simp: ledger_wf_def wf_history_def)
    then show thesis
      using expired [OF r u cur] f p d' by (simp add: posted_def upd_history_def)
  qed
qed

lemma expire_one_inv:
  assumes inv: "ledger_inv d" and op: "expire_one listed now d = Inr (r, d')"
    and own: "\<And>cur. get_history d (ph_id listed) = Some cur \<Longrightarrow> ph_user cur = ph_user listed"
  shows "ledger_inv d'"
proof -
  have wf: "ledger_wf d"
    using inv by (simp add: ledger_inv_def)
  then have dist: "keys_distinct ph_id (histories d)"
    by (simp add: ledger_wf_def)
  show ?thesis
    using op wf
  proof (cases rule: expire_one_Inr)
    case (expired u cur)
    note acc = ledger_inv_account [OF inv expired(2)]
    have cur: "cur \<in> set (histories d)" "ph_user cur = ph_user listed"
      using rget_Some_in [OF expired(3)] own [OF expired(3)] by auto
    let ?t = "rupd ph_id (histories d) (ph_id cur)
      (\<lambda>row. row\<lparr>ph_meta := ph_meta (mark_expired now (remaining_points cur) cur)\<rparr>)"
    have core: "map core ?t = map core (histories d)"
      using dist cur(1) by (intro map_core_rupd) (auto simp: mark_expired_def)
    have rem: "owned_remaining v ?t
        = owned_remaining v (histories d) - (if v = ph_user listed then remaining_points cur else 0)" for v
      using dist cur by (subst owned_remaining_rupd) (auto simp: mark_expired_def remaining_points_def)
    have "remaining_points cur \<le> u_points u"
      using rem [of "ph_user listed"] owned_remaining_nonneg [of "ph_user listed" ?t] acc(3) by simp
    moreover have "rows_ok ?t"
      using dist cur(1) ledger_inv_parts(2) [OF inv]
      by (auto intro!: rows_ok_rupd row_ok_expire dest: rows_okD)
    ultimately show ?thesis
      unfolding expired(5) using acc expired(4) rem
      by (intro ledger_inv_posted [OF inv core expired(2)]) (auto simp: remaining_not_earn)
  qed (use inv in simp)
qed

end
