(* ===== verification/Points_Contract.thy ===== *)
theory Points_Contract
  imports Points_Ledger
begin

text \<open>
  The contract of the point service: what every operation leaves alone
  (\<open>points_frame\<close>), that the ledger is append-only (\<open>append_only\<close>), when the
  operations succeed, and the exact amounts they move.  The interface is the
  locale \<open>ledger_op\<close>, interpreted on the four operations of PointService.
\<close>

section \<open>Frame and history of one operation\<close>

definition points_frame :: "db \<Rightarrow> db \<Rightarrow> bool" where
  "points_frame d d' \<longleftrightarrow>
     d' = d\<lparr>users := users d', histories := histories d', next_id := next_id d'\<rparr>
     \<and> map (\<lambda>u. (u_id u, u_email u, u_membership u)) (users d')
         = map (\<lambda>u. (u_id u, u_email u, u_membership u)) (users d)"

definition append_only :: "db \<Rightarrow> db \<Rightarrow> bool" where
  "append_only d d' \<longleftrightarrow> next_id d \<le> next_id d'
     \<and> (\<exists>new. map core (histories d') = map core (histories d) @ map core new
              \<and> (\<forall>h \<in> set new. next_id d \<le> ph_id h))"

lemma points_frame_refl [simp]: "points_frame d d"
  by (simp add: points_frame_def)

lemma points_frame_eqs:
  assumes "points_frame d d'"
  shows "products d' = products d" "orders d' = orders d" "order_items d' = order_items d"
    "payments d' = payments d" "carts d' = carts d" "cart_items d' = cart_items d"
    "payment_logs d' = payment_logs d" "returns d' = returns d" "return_items d' = return_items d"
    "outbox d' = outbox d" "broker_up d' = broker_up d" "cache d' = cache d"
proof -
  have e: "d' = d\<lparr>users := users d', histories := histories d', next_id := next_id d'\<rparr>"
    using assms by (simp add: points_frame_def)
  show "products d' = products d" "orders d' = orders d" "order_items d' = order_items d"
    "payments d' = payments d" "carts d' = carts d" "cart_items d' = cart_items d"
    "payment_logs d' = payment_logs d" "returns d' = returns d" "return_items d' = return_items d"
    "outbox d' = outbox d" "broker_up d' = broker_up d" "cache d' = cache d"
    by (subst e, simp)+
qed

lemma points_frame_trans:
  assumes "points_frame d e" and "points_frame e f"
  shows "points_frame d f"
proof -
  have e: "e = d\<lparr>users := users e, histories := histories e, next_id := next_id e\<rparr>"
    and f: "f = e\<lparr>users := users f, histories := histories f, next_id := next_id f\<rparr>"
    using assms by (auto simp: points_frame_def)
  have "f = d\<lparr>users := users f, histories := histories f, next_id := next_id f\<rparr>"
    by (subst f, subst e) simp
  then show ?thesis
    using assms by (simp add: points_frame_def)
qed

lemma points_frame_posted [simp]: "points_frame d (posted uid g t h d)"
proof -
  have "map (\<lambda>u. (u_id u, u_email u, u_membership u)) (rupd u_id us uid (map_points g))
      = map (\<lambda>u. (u_id u, u_email u, u_membership u)) us" for us
    by (induction us) (auto simp: map_points_def)
  then show ?thesis
    by (simp add: points_frame_def posted_def upd_user_def)
qed

lemma points_frame_meta [simp]: "points_frame d (d\<lparr>histories := t\<rparr>)"
  by (simp add: points_frame_def)

lemma append_only_refl [simp]: "append_only d d"
  by (auto simp: append_only_def intro: exI [of _ "[]"])

lemma append_only_trans:
  assumes "append_only d e" and "append_only e f"
  shows "append_only d f"
proof -
  from assms obtain a b where ab:
    "map core (histories e) = map core (histories d) @ map core a" "\<forall>h \<in> set a. next_id d \<le> ph_id h"
    "map core (histories f) = map core (histories e) @ map core b" "\<forall>h \<in> set b. next_id e \<le> ph_id h"
    "next_id d \<le> next_id e" "next_id e \<le> next_id f"
    unfolding append_only_def by blast
  then have "map core (histories f) = map core (histories d) @ map core (a @ b)"
    "\<forall>h \<in> set (a @ b). next_id d \<le> ph_id h"
    by auto
  then show ?thesis
    using ab(5,6) unfolding append_only_def by (meson le_trans)
qed

lemma append_only_posted:
  assumes "map core t = map core (histories d)" and "ph_id h = next_id d"
  shows "append_only d (posted uid g t h d)"
  using assms by (auto simp: append_only_def intro: exI [of _ "[h]"])

lemma append_only_meta: "map core t = map core (histories d) \<Longrightarrow> append_only d (d\<lparr>histories := t\<rparr>)"
  by (auto simp: append_only_def intro: exI [of _ "[]"])

section \<open>The contract of each operation\<close>

definition ledger_change :: "db \<Rightarrow> db \<Rightarrow> bool" where
  "ledger_change d d' \<longleftrightarrow> ledger_inv d' \<and> points_frame d d' \<and> append_only d d'"

lemma ledger_change_refl: "ledger_inv d \<Longrightarrow> ledger_change d d"
  by (simp add: ledger_change_def)

lemma ledger_change_trans: "ledger_change d e \<Longrightarrow> ledger_change e f \<Longrightarrow> ledger_change d f"
  unfolding ledger_change_def using points_frame_trans append_only_trans by blast

lemma add_points_change:
  assumes inv: "ledger_inv d" and op: "add_points uid amount ty ord info now d = Inr (r, d')"
    and ty: "ty \<noteq> Use"
  shows "ledger_change d d'"
  unfolding ledger_change_def using op
  by (cases rule: add_points_Inr) (use add_points_inv [OF assms] in \<open>auto intro: append_only_posted\<close>)

lemma use_points_fifo_change:
  assumes inv: "ledger_inv d" and op: "use_points_fifo uid amount ty ord info now d = Inr (r, d')"
    and ty: "ty = CancelDeduct \<or> ty = Use \<and> order_owned d ord uid"
  shows "ledger_change d d'"
  unfolding ledger_change_def using op
proof (cases rule: use_points_fifo_Inr)
  case (short u ds left t)
  then show "ledger_inv d' \<and> points_frame d d' \<and> append_only d d'"
    using use_points_fifo_inv [OF assms] consume_available(1) [OF inv] by (simp add: append_only_meta)
next
  case (used u ds left t)
  then show "ledger_inv d' \<and> points_frame d d' \<and> append_only d d'"
    using use_points_fifo_inv [OF assms] consume_available(1) [OF inv] by (simp add: append_only_posted)
qed (use use_points_fifo_inv [OF assms] in simp)

lemma refund_used_points_change:
  assumes inv: "ledger_inv d" and op: "refund_used_points uid amount oid ty info now d = Inr (r, d')"
    and own: "order_owned d (Some oid) uid" and ty: "ty = CancelRefund \<or> ty = PaymentFailRefund"
  shows "ledger_change d d'"
  unfolding ledger_change_def using op
proof (cases rule: refund_used_points_Inr)
  case (refunded u ds ex left t d1)
  have 1: "points_frame d d1" "append_only d d1"
    using restore_earn_rows(1) [OF inv own refunded(1,4)] refunded(9) by (simp_all add: append_only_posted)
  have 2: "points_frame d1 d'" "append_only d1 d'"
    using refunded(9,10) by (auto intro: append_only_posted)
  show "ledger_inv d' \<and> points_frame d d' \<and> append_only d d'"
    using refund_used_points_inv [OF assms] points_frame_trans [OF 1(1) 2(1)] append_only_trans [OF 1(2) 2(2)]
    by blast
qed (use refund_used_points_inv [OF assms] in simp)

lemma expire_one_change:
  assumes inv: "ledger_inv d" and op: "expire_one listed now d = Inr (r, d')"
    and own: "\<And>cur. get_history d (ph_id listed) = Some cur \<Longrightarrow> ph_user cur = ph_user listed"
  shows "ledger_change d d'"
proof -
  have wf: "ledger_wf d" and dist: "keys_distinct ph_id (histories d)"
    using ledger_inv_parts [OF inv] by simp_all
  have inv': "ledger_inv d'"
    using inv op own by (rule expire_one_inv)
  show ?thesis
    unfolding ledger_change_def using op wf
  proof (cases rule: expire_one_Inr)
    case (expired u cur)
    have "map core (rupd ph_id (histories d) (ph_id cur)
        (\<lambda>row. row\<lparr>ph_meta := ph_meta (mark_expired now (remaining_points cur) cur)\<rparr>)) = map core (histories d)"
      using dist rget_Some_in [OF expired(3)] by (intro map_core_rupd) (auto simp: mark_expired_def)
    then show "ledger_inv d' \<and> points_frame d d' \<and> append_only d d'"
      using inv' expired(5) by (simp add: append_only_posted)
  qed (use inv' in simp)
qed

text \<open>
  The interface the rest of the shop relies on: an operation with its
  arguments, and the condition under which it is called.
\<close>

locale ledger_op =
  fixes f :: "'x \<Rightarrow> db \<Rightarrow> exn + 'a \<times> db"
    and pre :: "'x \<Rightarrow> db \<Rightarrow> bool"
  assumes change: "ledger_inv d \<Longrightarrow> pre x d \<Longrightarrow> f x d = Inr (r, d') \<Longrightarrow> ledger_change d d'"
begin

lemma keeps_inv: "ledger_inv d \<Longrightarrow> pre x d \<Longrightarrow> f x d = Inr (r, d') \<Longrightarrow> ledger_inv d'"
  using change by (simp add: ledger_change_def)

lemma balance_covers:
  assumes "ledger_inv d" "pre x d" "f x d = Inr (r, d')" "get_user d' v = Some u"
  shows "0 \<le> u_points u" "owned_remaining v (histories d') \<le> u_points u"
    "u_points u = owned_points v (histories d')"
  using ledger_inv_account [OF keeps_inv [OF assms(1-3)] assms(4)] by simp_all

lemma rows_kept:
  assumes "ledger_inv d" "pre x d" "f x d = Inr (r, d')"
  shows "take (length (histories d)) (map core (histories d')) = map core (histories d)"
  using change [OF assms] by (auto simp: ledger_change_def append_only_def)

lemma users_kept:
  assumes "ledger_inv d" "pre x d" "f x d = Inr (r, d')"
  shows "map u_id (users d') = map u_id (users d)"
proof -
  have "map (\<lambda>u. (u_id u, u_email u, u_membership u)) (users d') = map (\<lambda>u. (u_id u, u_email u, u_membership u)) (users d)"
    using change [OF assms] by (simp add: ledger_change_def points_frame_def)
  from arg_cong [OF this, of "map fst"] show ?thesis
    by (simp add: comp_def)
qed

end

interpretation earn_op: ledger_op
  "\<lambda>(uid, amount, ty, ord, info, now). add_points uid amount ty ord info now"
  "\<lambda>(uid, amount, ty, ord, info, now) d. ty \<noteq> Use"
  by unfold_locales (auto intro: add_points_change)

interpretation spend_op: ledger_op
  "\<lambda>(uid, amount, ty, ord, info, now). use_points_fifo uid amount ty ord info now"
  "\<lambda>(uid, amount, ty, ord, info, now) d. ty = CancelDeduct \<or> ty = Use \<and> order_owned d ord uid"
  by unfold_locales (auto intro: use_points_fifo_change)

interpretation refund_op: ledger_op
  "\<lambda>(uid, amount, oid, ty, info, now). refund_used_points uid amount oid ty info now"
  "\<lambda>(uid, amount, oid, ty, info, now) d. order_owned d (Some oid) uid
     \<and> (ty = CancelRefund \<or> ty = PaymentFailRefund)"
  by unfold_locales (auto intro: refund_used_points_change)

interpretation expire_op: ledger_op
  "\<lambda>(listed, now). expire_one listed now"
  "\<lambda>(listed, now) d. \<forall>cur. get_history d (ph_id listed) = Some cur \<longrightarrow> ph_user cur = ph_user listed"
  by unfold_locales (auto intro: expire_one_change)

section \<open>The expiry batch\<close>

lemma map_core_rget:
  assumes "map core t = map core s"
  shows "map_option core (rget ph_id t k) = map_option core (rget ph_id s k)"
  using assms
proof (induction t arbitrary: s)
  case (Cons h t)
  then obtain g s' where "s = g # s'" "core h = core g" "map core t = map core s'"
    by (cases s) auto
  then show ?case
    using Cons.IH core_eqD(1) [of h g] by simp
qed simp

lemma append_only_get:
  assumes "append_only d d'" and "get_history d' k = Some g" and "k < next_id d"
  obtains h where "get_history d k = Some h" "core g = core h"
proof -
  from assms(1) obtain new where new: "map core (histories d') = map core (histories d @ new)"
    "\<forall>h \<in> set new. next_id d \<le> ph_id h"
    by (auto simp: append_only_def)
  have "rget ph_id new k = None"
    using new(2) assms(3) by (auto simp: rget_None_iff)
  then show thesis
    using that map_core_rget [OF new(1), of k] assms(2) by (auto split: option.splits)
qed

lemma expire_loop_change:
  assumes "expire_loop now hs n failed d = (m, failed', d')" and "ledger_inv d"
    and "\<forall>h \<in> set hs. ph_id h < next_id d
      \<and> (\<forall>cur. get_history d (ph_id h) = Some cur \<longrightarrow> ph_user cur = ph_user h)"
  shows "ledger_change d d'"
  using assms
proof (induction hs arbitrary: n failed d)
  case Nil
  then show ?case
    by (simp add: ledger_change_refl)
next
  case (Cons h hs)
  show ?case
  proof (cases "expire_one h now d")
    case (Inl e)
    then have "expire_loop now hs n (failed @ [ph_id h]) d = (m, failed', d')"
      using Cons.prems(1) by simp
    then show ?thesis
      using Cons.prems(2,3) by (intro Cons.IH) simp_all
  next
    case (Inr p)
    then obtain b e where p: "expire_one h now d = Inr (b, e)"
      by (cases p) auto
    have 1: "ledger_change d e"
      using Cons.prems p by (intro expire_one_change) auto
    have "ph_user cur = ph_user g" if g: "g \<in> set hs" "get_history e (ph_id g) = Some cur" for g cur
    proof -
      have "append_only d e" "ph_id g < next_id d"
        using 1 g(1) Cons.prems(3) by (auto simp: ledger_change_def)
      then obtain q where q: "get_history d (ph_id g) = Some q" "core cur = core q"
        using g(2) append_only_get by blast
      then have "ph_user q = ph_user g"
        using g(1) Cons.prems(3) by simp
      then show ?thesis
        using core_eqD(2) [OF q(2)] by simp
    qed
    moreover have "ph_id g < next_id e" if "g \<in> set hs" for g
      using 1 that Cons.prems(3) by (fastforce simp: ledger_change_def append_only_def)
    moreover have "expire_loop now hs (if b then n + 1 else n) failed e = (m, failed', d')"
      using Cons.prems(1) p by (cases b) simp_all
    ultimately have "ledger_change e d'"
      using 1 by (intro Cons.IH) (auto simp: ledger_change_def)
    then show ?thesis
      using 1 ledger_change_trans by blast
  qed
qed

lemma expire_points_change:
  assumes inv: "ledger_inv d" and op: "expire_points now d = (r, d')"
  shows "ledger_change d d'"
proof -
  have "ph_id h < next_id d \<and> (\<forall>cur. get_history d (ph_id h) = Some cur \<longrightarrow> ph_user cur = ph_user h)"
    if "h \<in> set (get_expired_points now d)" for h
  proof -
    have h: "h \<in> set (histories d)"
      using that by (auto simp: get_expired_points_def)
    then show ?thesis
      using ledger_inv_parts(1,3) [OF inv] rget_in_distinct [of ph_id "histories d" h]
      by (auto simp: ledger_wf_def wf_history_def)
  qed
  then show ?thesis
    using op expire_loop_change [OF _ inv] by (auto simp: expire_points_def split: prod.splits)
qed

section \<open>When the operations succeed\<close>

lemma get_usable_points_sum:
  "get_usable_points uid True now d
     = sum_list (map remaining_points (available_points uid CancelDeduct now (histories d)))"
proof -
  have "(\<lambda>h total. if remaining_points h > 0 then total + remaining_points h else total)
      = (\<lambda>h total. total + remaining_points h)"
    by (intro ext) (use remaining_nonneg in \<open>auto simp: not_less intro: antisym\<close>)
  then show ?thesis
    unfolding get_usable_points_def available_points_def sum_list_sort_key
    by (simp add: foldl_add_int)
qed

lemma usable_le_remaining: "get_usable_points uid True now d \<le> owned_remaining uid (histories d)"
proof -
  let ?P = "\<lambda>h. \<not> m_expired (ph_meta h) \<and> expires_within ((<) now) h \<and> ph_user h = uid \<and> ph_type h = Earn"
  have "get_usable_points uid True now d
      = sum_list (map (\<lambda>h. if ?P h then remaining_points h else 0) (histories d))"
    unfolding get_usable_points_sum available_points_def sum_list_sort_key filter_filter sum_list_filter_if
    by (intro arg_cong [of _ _ sum_list] map_cong) auto
  also have "\<dots> \<le> owned_remaining uid (histories d)"
    unfolding owned_remaining_def sum_list_filter_if by (intro sum_list_mono) auto
  finally show ?thesis .
qed

lemma create_history_ok:
  assumes "0 \<le> bal" and "ty \<noteq> Earn"
  shows "create_history uid pts bal ty ord meta now d = Inr (new_row uid pts bal ty ord meta now (next_id d),
    d\<lparr>histories := histories d @ [new_row uid pts bal ty ord meta now (next_id d)], next_id := Suc (next_id d)\<rparr>)"
  using assms by (simp add: create_history_def new_row_def Let_def)

lemma reclaim_succeeds:
  assumes inv: "ledger_inv d" and u: "get_user d uid = Some u"
    and amt: "0 < amount" "amount \<le> get_usable_points uid True now d"
  obtains r d' where "use_points_fifo uid amount CancelDeduct ord info now d = Inr (r, d')"
    "ur_success r" "details_sum (ur_details r) = amount"
proof -
  have wf: "ledger_wf d"
    using ledger_inv_parts [OF inv] by simp
  note av = available_points_props [OF wf, of uid CancelDeduct now]
  obtain ds left t where loop:
    "consume_loop now (available_points uid CancelDeduct now (histories d)) amount (histories d) = Inr ((ds, left), t)"
    using consume_loop_returns [of "available_points uid CancelDeduct now (histories d)"] av(2) by blast
  have left: "left = 0"
    using consume_loop_left [OF loop] amt by (simp add: get_usable_points_sum)
  have enough: "amount \<le> u_points u"
    using amt(2) usable_le_remaining [of uid now d] ledger_inv_account(3) [OF inv u] by linarith
  then show thesis
    using that loop left u amt consume_available(2) [OF inv amt(1) loop]
    by (simp add: use_points_fifo_def validate_point_usage_def consume_points_fifo_def create_history_ok)
qed

lemma refund_succeeds:
  assumes inv: "ledger_inv d" and u: "get_user d uid = Some u" and own: "order_owned d (Some oid) uid"
    and amt: "0 < amount" and ty: "ty = CancelRefund \<or> ty = PaymentFailRefund"
  obtains r d' where "refund_used_points uid amount oid ty info now d = Inr (r, d')" "rr_success r"
proof -
  have wf: "ledger_wf d"
    using ledger_inv_parts [OF inv] by simp
  obtain ds ex left t where loop:
    "restore_loop now oid (outstanding oid (histories d)) (earn_rows oid (histories d)) amount (histories d)
       = Inr ((ds, ex, left), t)"
    using restore_loop_returns [OF earn_rows_props(3) [OF wf own]] by blast
  have nn: "0 \<le> u_points u"
    using ledger_inv_account [OF inv u] by simp
  have "ty \<noteq> Earn"
    using ty by auto
  then show thesis
    using that loop u amt nn
    by (cases "0 < ex") (simp_all add: refund_used_points_def Let_def create_history_ok)
qed

section \<open>Exact amounts per earning row\<close>

definition usage :: "history \<Rightarrow> bool \<times> int" where
  "usage h = (m_expired (ph_meta h), used_amount h)"

lemma detail_total_simps [simp]:
  "detail_total k [] = 0"
  "detail_total k (x # xs) = (if dt_history_id x = k then dt_amount x else 0) + detail_total k xs"
  "detail_total k (xs @ ys) = detail_total k xs + detail_total k ys"
  by (simp_all add: detail_total_def)

lemma detail_total_absent: "k \<notin> dt_history_id ` set xs \<Longrightarrow> detail_total k xs = 0"
  by (induction xs) auto

lemma subseq_subset:
  assumes "subseq xs ys"
  shows "set xs \<subseteq> set ys"
proof
  fix x
  assume "x \<in> set xs"
  with assms obtain y where "y \<in> set ys" "x = y"
    by (rule list_emb_set)
  then show "x \<in> set ys"
    by simp
qed

lemma map_rupd_meta:
  assumes "keys_distinct ph_id t" and "h \<in> set t"
  shows "map F (rupd ph_id t (ph_id h) (\<lambda>row. row\<lparr>ph_meta := m\<rparr>))
    = map (\<lambda>row. if ph_id row = ph_id h then F (h\<lparr>ph_meta := m\<rparr>) else F row) t"
  unfolding rupd_def map_map
proof (rule map_cong)
  fix row
  assume "row \<in> set t"
  then have "ph_id row = ph_id h \<Longrightarrow> row = h"
    using assms keys_distinct_eqD by metis
  then show "(F \<circ> (\<lambda>r. if ph_id r = ph_id h then r\<lparr>ph_meta := m\<rparr> else r)) row
      = (if ph_id row = ph_id h then F (h\<lparr>ph_meta := m\<rparr>) else F row)"
    by auto
qed simp

lemma consume_loop_usage:
  assumes "consume_loop now hs amt t = Inr ((ds, left), t')" and "in_table hs t"
  shows "map (\<lambda>h. (ph_id h, usage h)) t'
    = map (\<lambda>h. (ph_id h, fst (usage h), used_amount h + detail_total (ph_id h) ds)) t"
  using assms
proof (induction hs arbitrary: amt t ds)
  case (Cons h hs)
  show ?case
  proof (cases "amt \<le> 0 \<or> remaining_points h \<le> 0")
    case True
    then show ?thesis
      using Cons.IH [of amt t ds] Cons.prems in_table_step(2) [OF Cons.prems(2)]
      by (auto simp: usage_def split: if_splits)
  next
    case False
    define a where "a = min (remaining_points h) amt"
    define t1 where "t1 = rupd ph_id t (ph_id h) (\<lambda>row. row\<lparr>ph_meta := update_earn_metadata now a h\<rparr>)"
    from False Cons.prems(1) obtain e ds' where
      rec: "consume_loop now hs (amt - a) t1 = Inr ((ds', left), t')"
      and ds: "ds = \<lparr>dt_history_id = ph_id h, dt_amount = a, dt_expires_at = e\<rparr> # ds'"
      by (auto simp: Let_def a_def t1_def rbind_eq_Inr of_get_eq_Inr)
    have "map (\<lambda>h. (ph_id h, usage h)) t'
        = map (\<lambda>h. (ph_id h, fst (usage h), used_amount h + detail_total (ph_id h) ds')) t1"
      using rec in_table_step(1) [OF Cons.prems(2)] unfolding t1_def by (rule Cons.IH)
    also have "\<dots> = map (\<lambda>h. (ph_id h, fst (usage h), used_amount h + detail_total (ph_id h) ds)) t"
      unfolding t1_def map_rupd_meta [OF in_table_step(4,3) [OF Cons.prems(2)]]
    proof (rule map_cong [OF refl])
      fix row
      assume "row \<in> set t"
      then have "ph_id row = ph_id h \<Longrightarrow> row = h"
        using keys_distinct_eqD in_table_step(3,4) [OF Cons.prems(2)] by metis
      then show "(if ph_id row = ph_id h
          then (ph_id (h\<lparr>ph_meta := update_earn_metadata now a h\<rparr>),
                fst (usage (h\<lparr>ph_meta := update_earn_metadata now a h\<rparr>)),
                used_amount (h\<lparr>ph_meta := update_earn_metadata now a h\<rparr>)
                  + detail_total (ph_id (h\<lparr>ph_meta := update_earn_metadata now a h\<rparr>)) ds')
          else (ph_id row, fst (usage row), used_amount row + detail_total (ph_id row) ds'))
        = (ph_id row, fst (usage row), used_amount row + detail_total (ph_id row) ds)"
        by (auto simp: ds usage_def used_amount_def update_earn_metadata_def)
    qed
    finally show ?thesis .
  qed
qed (auto simp: usage_def)

text \<open>First in, first out: a row gives what the rows before it left open, at most all it has.\<close>

lemma consume_loop_fifo:
  assumes "consume_loop now hs amt t = Inr ((ds, left), t')" and "distinct (map ph_id hs)"
    and "0 \<le> amt" and "i < length hs"
  shows "detail_total (ph_id (hs ! i)) ds
    = max 0 (min (remaining_points (hs ! i)) (amt - sum_list (map remaining_points (take i hs))))"
  using assms
proof (induction hs arbitrary: amt t ds i)
  case (Cons h hs)
  have nn: "0 \<le> sum_list (map remaining_points (take j hs))" for j
    by (simp add: sum_list_nonneg_int)
  have sub: "detail_total (ph_id h) xs = 0" if "subseq (map dt_history_id xs) (map ph_id hs)" for xs
  proof (rule detail_total_absent)
    have "set (map dt_history_id xs) \<subseteq> set (map ph_id hs)"
      using that by (rule subseq_subset)
    then show "ph_id h \<notin> dt_history_id ` set xs"
      using Cons.prems(2) by auto
  qed
  show ?case
  proof (cases "amt \<le> 0 \<or> remaining_points h \<le> 0")
    case stop: True
    show ?thesis
    proof (cases "amt \<le> 0")
      case True
      then show ?thesis
        using Cons.prems nn [of "i - 1"] remaining_nonneg [of h]
        by (cases i) (auto simp: min_def max_def simp del: remaining_nonneg)
    next
      case False
      with stop have h0: "remaining_points h = 0"
        using remaining_nonneg [of h] by linarith
      then have rec: "consume_loop now hs amt t = Inr ((ds, left), t')"
        using Cons.prems(1) False by simp
      show ?thesis
      proof (cases i)
        case 0
        then show ?thesis
          using sub consume_loop_ids [OF rec] h0 by auto
      next
        case (Suc j)
        then show ?thesis
          using Cons.IH [OF rec, of j] Cons.prems h0 by simp
      qed
    qed
  next
    case False
    define a where "a = min (remaining_points h) amt"
    obtain e ds' t1 where rec: "consume_loop now hs (amt - a) t1 = Inr ((ds', left), t')"
      and ds: "ds = \<lparr>dt_history_id = ph_id h, dt_amount = a, dt_expires_at = e\<rparr> # ds'"
      using False Cons.prems(1) by (auto simp: Let_def a_def rbind_eq_Inr of_get_eq_Inr)
    show ?thesis
    proof (cases i)
      case 0
      then show ?thesis
        using sub consume_loop_ids [OF rec] ds False by (auto simp: a_def)
    next
      case (Suc j)
      then have "ph_id (hs ! j) \<noteq> ph_id h"
        using Cons.prems(2,4) by (metis distinct.simps(2) image_eqI length_Cons list.set_map list.simps(9) not_less_eq nth_mem)
      then have "detail_total (ph_id ((h # hs) ! i)) ds
          = max 0 (min (remaining_points (hs ! j)) (amt - a - sum_list (map remaining_points (take j hs))))"
        using Suc Cons.IH [OF rec, of j] Cons.prems(2-4) ds by (simp add: a_def)
      then show ?thesis
        using Suc nn [of j] remaining_nonneg [of "hs ! j"]
        by (cases "remaining_points h \<le> amt") (auto simp: a_def min_def max_def simp del: remaining_nonneg)
    qed
  qed
qed simp

end
