(* ===== verification/Points_Exact.thy ===== *)
theory Points_Exact
  imports Points_Contract
begin

text \<open>
  Exact effects of the point operations: a refund puts back row by row what the
  order took, spending is first-in first-out, an expiry takes exactly what is
  left, and the ledger invariant holds in every reachable state.
\<close>

section \<open>Restoring everything\<close>

lemma restore_loop_all:
  assumes "in_table hs t" and "\<forall>h \<in> set hs. 0 < out (ph_id h) \<and> out (ph_id h) \<le> used_amount h
      \<and> (\<exists>e. ph_expires_at h = Some e \<and> now < e)"
    and "sum_list (map (\<lambda>h. out (ph_id h)) hs) \<le> amt"
  obtains ds t' where
    "restore_loop now oid out hs amt t = Inr ((ds, 0, amt - sum_list (map (\<lambda>h. out (ph_id h)) hs)), t')"
    "map (\<lambda>h. (ph_id h, usage h)) t'
       = map (\<lambda>h. (ph_id h, fst (usage h),
                    used_amount h - (if ph_id h \<in> ph_id ` set hs then out (ph_id h) else 0))) t"
proof -
  have "\<exists>ds t'. restore_loop now oid out hs amt t
        = Inr ((ds, 0, amt - sum_list (map (\<lambda>h. out (ph_id h)) hs)), t')
      \<and> map (\<lambda>h. (ph_id h, usage h)) t'
       = map (\<lambda>h. (ph_id h, fst (usage h),
                    used_amount h - (if ph_id h \<in> ph_id ` set hs then out (ph_id h) else 0))) t"
    using assms
  proof (induction hs arbitrary: amt t)
    case Nil
    then show ?case
      by (simp add: usage_def)
  next
    case (Cons h hs)
    define t1 where "t1 = rupd ph_id t (ph_id h) (\<lambda>row. row\<lparr>ph_meta := restore_metadata now oid (out (ph_id h)) h\<rparr>)"
    obtain e where e: "ph_expires_at h = Some e" "now < e"
      using Cons.prems(2) by auto
    have nn: "0 \<le> sum_list (map (\<lambda>h. out (ph_id h)) hs)"
      using Cons.prems(2) by (auto intro!: sum_list_nonneg_int)
    have b: "min (out (ph_id h)) amt = out (ph_id h)" "0 < out (ph_id h)" "0 < amt"
      using Cons.prems(2,3) nn by auto
    obtain ds t' where rec: "restore_loop now oid out hs (amt - out (ph_id h)) t1
        = Inr ((ds, 0, amt - out (ph_id h) - sum_list (map (\<lambda>h. out (ph_id h)) hs)), t')"
      and IH: "map (\<lambda>h. (ph_id h, usage h)) t' = map (\<lambda>h. (ph_id h, fst (usage h),
                    used_amount h - (if ph_id h \<in> ph_id ` set hs then out (ph_id h) else 0))) t1"
      using Cons.IH [of t1 "amt - out (ph_id h)"] in_table_step(1) [OF Cons.prems(1)] Cons.prems(2,3)
      by (auto simp: t1_def)
    have fresh: "ph_id h \<notin> ph_id ` set hs"
      using Cons.prems(1) by (simp add: in_table_def)
    have "map (\<lambda>g. (ph_id g, fst (usage g), used_amount g - (if ph_id g \<in> ph_id ` set hs then out (ph_id g) else 0))) t1
        = map (\<lambda>g. (ph_id g, fst (usage g),
            used_amount g - (if ph_id g \<in> ph_id ` set (h # hs) then out (ph_id g) else 0))) t"
      unfolding t1_def map_rupd_meta [OF in_table_step(4,3) [OF Cons.prems(1)]]
    proof (rule map_cong [OF refl])
      fix row
      assume "row \<in> set t"
      then have "ph_id row = ph_id h \<Longrightarrow> row = h"
        using keys_distinct_eqD in_table_step(3,4) [OF Cons.prems(1)] by metis
      then show "(if ph_id row = ph_id h
          then (\<lambda>g. (ph_id g, fst (usage g), used_amount g - (if ph_id g \<in> ph_id ` set hs then out (ph_id g) else 0)))
                 (h\<lparr>ph_meta := restore_metadata now oid (out (ph_id h)) h\<rparr>)
          else (ph_id row, fst (usage row), used_amount row - (if ph_id row \<in> ph_id ` set hs then out (ph_id row) else 0)))
        = (ph_id row, fst (usage row), used_amount row - (if ph_id row \<in> ph_id ` set (h # hs) then out (ph_id row) else 0))"
        using Cons.prems(2) fresh by (auto simp: usage_def used_amount_def restore_metadata_def)
    qed
    then show ?case
      using rec IH e b by (auto simp: t1_def Let_def)
  qed
  then show thesis
    using that by blast
qed

lemma remaining_usage:
  assumes "map core t' = map core t" and "map (\<lambda>h. (ph_id h, usage h)) t' = map (\<lambda>h. (ph_id h, usage h)) t"
  shows "map remaining_points t' = map remaining_points t"
proof (rule nth_equalityI)
  have len: "length t' = length t"
    using map_eq_imp_length_eq [OF assms(1)] .
  then show "length (map remaining_points t') = length (map remaining_points t)"
    by simp
  fix i
  assume i: "i < length (map remaining_points t')"
  have "core (t' ! i) = core (t ! i)" "usage (t' ! i) = usage (t ! i)"
    using arg_cong [OF assms(1), of "\<lambda>xs. xs ! i"] arg_cong [OF assms(2), of "\<lambda>xs. xs ! i"] i len by simp_all
  then show "map remaining_points t' ! i = map remaining_points t ! i"
    using i len core_eqD(3,5) [of "t' ! i" "t ! i"] by (simp add: remaining_points_def usage_def)
qed

lemma detail_total_ge0: "\<forall>x \<in> set xs. 0 < dt_amount x \<Longrightarrow> 0 \<le> detail_total k xs"
  by (induction xs) auto

lemma detail_total_pos_iff:
  assumes "\<forall>x \<in> set xs. 0 < dt_amount x"
  shows "0 < detail_total k xs \<longleftrightarrow> k \<in> dt_history_id ` set xs"
  using assms
proof (induction xs)
  case (Cons x xs)
  then show ?case
    using detail_total_ge0 [of xs k] by (auto simp: image_iff)
qed simp

lemma sum_list_indicator:
  "distinct ks \<Longrightarrow> (\<Sum>k\<leftarrow>ks. if c = k then v else 0) = (if c \<in> set ks then v else (0 :: int))"
  by (induction ks) auto

lemma sum_detail_total:
  assumes "distinct ks" and "dt_history_id ` set xs \<subseteq> set ks"
  shows "sum_list (map (\<lambda>k. detail_total k xs) ks) = details_sum xs"
  using assms
proof (induction xs)
  case Nil
  then show ?case
    by (induction ks) auto
next
  case (Cons x xs)
  have "sum_list (map (\<lambda>k. if dt_history_id x = k then dt_amount x else 0) ks) = dt_amount x"
    using Cons.prems by (simp add: sum_list_indicator)
  then show ?case
    using Cons by (simp add: sum_list_addf)
qed

section \<open>Use and refund cancel out\<close>

lemma uses_of_core:
  assumes "map core t' = map core t"
  shows "map (\<lambda>h. m_used_details (ph_meta h)) (uses_of oid t') = map (\<lambda>h. m_used_details (ph_meta h)) (uses_of oid t)"
    "map (\<lambda>h. m_restored_details (ph_meta h)) (refunds_of oid t') = map (\<lambda>h. m_restored_details (ph_meta h)) (refunds_of oid t)"
  using assms
proof (induction t' arbitrary: t)
  case (Cons g t')
  {
    case 1
    then show ?case
      using Cons.IH(1) by (cases t) (auto simp: uses_of_def core_def)
  next
    case 2
    then show ?case
      using Cons.IH(2) by (cases t) (auto simp: refunds_of_def core_def)
  }
qed (simp_all add: uses_of_def refunds_of_def)

lemma outstanding_core: "map core t' = map core t \<Longrightarrow> outstanding oid t' k = outstanding oid t k"
  unfolding outstanding_def using uses_of_core [of t' t oid] by (simp only:)

lemma outstanding_append:
  "outstanding oid (t @ s) k = outstanding oid t k + outstanding oid s k"
  "outstanding oid [] k = 0"
  "outstanding oid (h # s) k = outstanding oid s k
     + (if ph_order h = Some oid \<and> ph_type h = Use then detail_total k (m_used_details (ph_meta h)) else 0)
     - (if ph_order h = Some oid \<and> (ph_type h = CancelRefund \<or> ph_type h = PaymentFailRefund)
        then detail_total k (m_restored_details (ph_meta h)) else 0)"
  by (auto simp: outstanding_def uses_of_def refunds_of_def)

definition untouched :: "pk \<Rightarrow> db \<Rightarrow> bool" where
  "untouched oid d \<longleftrightarrow> list_all (\<lambda>h. ph_order h \<noteq> Some oid \<or> ph_type h = Earn) (histories d)"

lemma outstanding_untouched:
  assumes "untouched oid d"
  shows "outstanding oid (histories d) k = 0"
proof -
  have "uses_of oid (histories d) = []" "refunds_of oid (histories d) = []"
    using assms by (auto simp: untouched_def uses_of_def refunds_of_def list_all_iff filter_empty_conv)
  then show ?thesis
    by (simp add: outstanding_def)
qed

lemma restore_loop_core:
  assumes "restore_loop now oid out hs amt t = Inr ((ds, ex, left), t')" and "in_table hs t"
  shows "map core t' = map core t"
  using assms
proof (induction hs arbitrary: amt t ds ex)
  case (Cons h hs)
  show ?case
  proof (cases "amt \<le> 0")
    case False
    define b where "b = min (out (ph_id h)) amt"
    obtain e where e: "ph_expires_at h = Some e"
      using False Cons.prems(1) by (auto simp: Let_def rbind_eq_Inr of_get_eq_Inr)
    define t1 where "t1 = (if e \<le> now then t
      else rupd ph_id t (ph_id h) (\<lambda>row. row\<lparr>ph_meta := restore_metadata now oid b h\<rparr>))"
    obtain ds' ex' where rec: "restore_loop now oid out hs (amt - b) t1 = Inr ((ds', ex', left), t')"
      using False Cons.prems(1) e by (auto simp: Let_def t1_def rbind_eq_Inr b_def [symmetric])
    have "in_table hs t1"
      using in_table_step(1,2) [OF Cons.prems(2)] by (simp add: t1_def)
    moreover have "map core t1 = map core t"
      unfolding t1_def using in_table_step(3,4) [OF Cons.prems(2)] map_core_rupd [where t = t and h = h]
      by (auto simp: restore_metadata_def)
    ultimately show ?thesis
      using Cons.IH [OF rec] by simp
  qed (use Cons.prems in simp)
qed simp

lemma consume_loop_dates:
  assumes "consume_loop now hs amt t = Inr ((ds, left), t')" and "x \<in> set ds"
  shows "\<exists>h \<in> set hs. ph_id h = dt_history_id x \<and> ph_expires_at h = Some (dt_expires_at x)"
  using assms
proof (induction hs arbitrary: amt t ds)
  case (Cons h hs)
  then show ?case
    by (fastforce simp: Let_def rbind_eq_Inr of_get_eq_Inr split: if_splits)
qed simp

lemma restore_after_use:
  assumes inv: "ledger_inv d" and fresh: "untouched oid d" and amt: "0 < amount"
    and loop: "consume_loop now (available_points uid Use now (histories d)) amount (histories d) = Inr ((ds, left), t)"
    and h: "ph_order h = Some oid" "ph_type h = Use" "m_used_details (ph_meta h) = ds" "ph_id h = next_id d"
    and live: "\<forall>x \<in> set ds. now' < dt_expires_at x"
  obtains ds' t2 where
    "restore_loop now' oid (outstanding oid (t @ [h])) (earn_rows oid (t @ [h])) amount (t @ [h])
      = Inr ((ds', 0, left), t2)"
    "map remaining_points (take (length (histories d)) t2) = map remaining_points (histories d)"
    "length t2 = Suc (length (histories d))"
proof -
  let ?T = "t @ [h]" and ?E = "earn_rows oid (t @ [h])"
  note c = consume_available [OF inv amt loop]
  note av = available_points_props [OF ledger_inv_parts(1) [OF inv], of uid Use now]
  have out: "outstanding oid ?T k = detail_total k ds" for k
    using outstanding_core [OF c(1)] outstanding_untouched [OF fresh] h by (simp add: outstanding_append)
  have pos: "\<forall>x \<in> set ds. 0 < dt_amount x"
    using consume_loop_ids [OF loop] by blast
  have kd: "keys_distinct ph_id ?T"
  proof -
    have "next_id d \<notin> set (map ph_id (histories d))"
      using ledger_inv_parts(1) [OF inv] by (auto simp: ledger_wf_def wf_history_def)
    moreover have "map ph_id ?T = map ph_id (histories d) @ [next_id d]"
      using map_core_ids [OF c(1)] h(4) by simp
    ultimately show ?thesis
      using ledger_inv_parts(3) [OF inv] by simp
  qed
  have E: "in_table ?E ?T" "set ?E = {g \<in> set t. 0 < detail_total (ph_id g) ds \<and> ph_type g = Earn}"
    unfolding earn_rows_def by (rule in_table_sorted_filter [OF kd], use h(2) in \<open>auto simp: out\<close>)
  have us: "map (\<lambda>g. (ph_id g, usage g)) t
      = map (\<lambda>g. (ph_id g, fst (usage g), used_amount g + detail_total (ph_id g) ds)) (histories d)"
    using loop av(1) by (rule consume_loop_usage)
  have rows: "detail_total (ph_id g) ds \<le> used_amount g" if "g \<in> set t" for g
  proof -
    have "(ph_id g, usage g) \<in> (\<lambda>g. (ph_id g, fst (usage g), used_amount g + detail_total (ph_id g) ds)) ` set (histories d)"
      using that us by (metis (no_types, lifting) image_eqI list.set_map)
    then show ?thesis
      using ledger_inv_parts(2) [OF inv] by (auto simp: rows_ok_def row_ok_def usage_def)
  qed
  have taken: "\<exists>g \<in> set t. ph_id g = dt_history_id x \<and> ph_type g = Earn \<and> ph_expires_at g = Some (dt_expires_at x)"
    if x: "x \<in> set ds" for x
  proof -
    obtain q where q: "q \<in> set (available_points uid Use now (histories d))" "ph_id q = dt_history_id x"
      "ph_expires_at q = Some (dt_expires_at x)"
      using consume_loop_dates [OF loop x] by blast
    then have "q \<in> set (histories d)" "ph_type q = Earn"
      by (auto simp: available_points_def)
    then obtain g where "g \<in> set t" "core q = core g"
      using map_core_ex [OF c(1) [symmetric]] by blast
    then show ?thesis
      using q core_eqD [of q g] \<open>ph_type q = Earn\<close> by auto
  qed
  have ids: "ph_id ` set ?E = dt_history_id ` set ds"
    using taken detail_total_pos_iff [OF pos] E(2) by (fastforce simp: image_iff)
  have "\<forall>g \<in> set ?E. 0 < outstanding oid ?T (ph_id g) \<and> outstanding oid ?T (ph_id g) \<le> used_amount g
      \<and> (\<exists>e. ph_expires_at g = Some e \<and> now' < e)"
  proof
    fix g
    assume g: "g \<in> set ?E"
    then obtain x where x: "x \<in> set ds" "dt_history_id x = ph_id g"
      using ids by (metis image_eqI image_iff)
    then obtain q where q: "q \<in> set t" "ph_id q = ph_id g" "ph_expires_at q = Some (dt_expires_at x)"
      using taken by metis
    then have "q = g"
      using kd g E(2) keys_distinct_eqD [of ph_id ?T q g] by simp
    then show "0 < outstanding oid ?T (ph_id g) \<and> outstanding oid ?T (ph_id g) \<le> used_amount g
      \<and> (\<exists>e. ph_expires_at g = Some e \<and> now' < e)"
      using g E(2) rows q x(1) live by (auto simp: out)
  qed
  moreover have total: "sum_list (map (\<lambda>g. outstanding oid ?T (ph_id g)) ?E) = amount - left"
    using sum_detail_total [of "map ph_id ?E" ds] E(1) ids c(2) by (simp add: in_table_def out comp_def)
  ultimately obtain ds' t2 where r:
    "restore_loop now' oid (outstanding oid ?T) ?E amount ?T = Inr ((ds', 0, left), t2)"
    and u2: "map (\<lambda>g. (ph_id g, usage g)) t2 = map (\<lambda>g. (ph_id g, fst (usage g),
        used_amount g - (if ph_id g \<in> ph_id ` set ?E then outstanding oid ?T (ph_id g) else 0))) ?T"
    using restore_loop_all [OF E(1), of "outstanding oid ?T" now' amount oid] c(3) by auto
  have n: "length t = length (histories d)"
    using map_eq_imp_length_eq [OF c(1)] .
  have "map (\<lambda>g. (ph_id g, usage g)) (take (length t) t2)
      = map (\<lambda>g. (ph_id g, fst (usage g), used_amount g - detail_total (ph_id g) ds)) t"
    using arg_cong [OF u2, of "take (length t)"] detail_total_absent
    by (simp add: take_map ids out cong: if_cong)
  also have "\<dots> = map ((\<lambda>(k, b, a). (k, b, a - detail_total k ds)) \<circ> (\<lambda>g. (ph_id g, usage g))) t"
    by (simp add: usage_def)
  also have "\<dots> = map (\<lambda>g. (ph_id g, usage g)) (histories d)"
    unfolding map_map [symmetric] us by (simp add: usage_def)
  finally have u3: "map (\<lambda>g. (ph_id g, usage g)) (take (length t) t2) = map (\<lambda>g. (ph_id g, usage g)) (histories d)" .
  have c3: "map core (take (length t) t2) = map core (histories d)"
    using arg_cong [OF restore_loop_core [OF r E(1)], of "take (length t)"] c(1) n by (simp add: take_map)
  have "length t2 = Suc (length (histories d))"
    using map_eq_imp_length_eq [OF restore_loop_core [OF r E(1)]] n by simp
  then show thesis
    using that [OF r] remaining_usage [OF c3 u3] unfolding n by blast
qed

section \<open>A refund only adds to what can be reclaimed\<close>

definition grows :: "history \<Rightarrow> history \<Rightarrow> bool" where
  "grows h g \<longleftrightarrow> core g = core h \<and> m_expired (ph_meta g) = m_expired (ph_meta h)
     \<and> remaining_points h \<le> remaining_points g"

lemma grows_refl: "list_all2 grows t t"
  by (simp add: list_all2_refl grows_def)

lemma grows_trans: "list_all2 grows t s \<Longrightarrow> list_all2 grows s r \<Longrightarrow> list_all2 grows t r"
  by (erule list_all2_trans [rotated, rotated]) (auto simp: grows_def)

lemma grows_rupd:
  assumes "keys_distinct ph_id t" and "h \<in> set t" and "row_ok h" and "0 \<le> b"
  shows "list_all2 grows t (rupd ph_id t (ph_id h) (\<lambda>row. row\<lparr>ph_meta := restore_metadata now oid b h\<rparr>))"
proof -
  have "grows row (if ph_id row = ph_id h then row\<lparr>ph_meta := restore_metadata now oid b h\<rparr> else row)"
    if "row \<in> set t" for row
  proof (cases "ph_id row = ph_id h")
    case True
    then have "row = h"
      using that assms(1,2) keys_distinct_eqD by metis
    then show ?thesis
      using assms(3,4)
      by (auto simp: grows_def core_def remaining_points_def used_amount_def restore_metadata_def row_ok_def)
  qed (simp add: grows_def)
  then show ?thesis
    by (auto simp: rupd_def list_all2_conv_all_nth)
qed

lemma restore_loop_grows:
  assumes "restore_loop now oid out hs amt t = Inr ((ds, ex, left), t')" and "in_table hs t"
    and "rows_ok t" and "\<forall>h \<in> set hs. 0 < out (ph_id h)"
  shows "list_all2 grows t t'"
  using assms
proof (induction hs arbitrary: amt t ds ex)
  case (Cons h hs)
  show ?case
  proof (cases "amt \<le> 0")
    case False
    define b where "b = min (out (ph_id h)) amt"
    have b: "0 \<le> b"
      using Cons.prems(4) False by (simp add: b_def)
    obtain e where e: "ph_expires_at h = Some e"
      using False Cons.prems(1) by (auto simp: Let_def rbind_eq_Inr of_get_eq_Inr)
    define t1 where "t1 = (if e \<le> now then t
      else rupd ph_id t (ph_id h) (\<lambda>row. row\<lparr>ph_meta := restore_metadata now oid b h\<rparr>))"
    obtain ds' ex' where rec: "restore_loop now oid out hs (amt - b) t1 = Inr ((ds', ex', left), t')"
      using False Cons.prems(1) e by (auto simp: Let_def t1_def rbind_eq_Inr b_def [symmetric])
    note st = in_table_step [OF Cons.prems(2)]
    have hok: "row_ok h"
      using rows_okD [OF Cons.prems(3) st(3)] .
    have "in_table hs t1" "rows_ok t1" "list_all2 grows t t1"
      using st Cons.prems(3) hok b grows_rupd grows_refl
      by (auto simp: t1_def intro!: rows_ok_rupd row_ok_restore)
    then show ?thesis
      using Cons.IH [OF rec] Cons.prems(4) grows_trans by auto
  qed (use Cons.prems grows_refl in simp)
qed (simp add: grows_refl)

lemma usable_def2:
  "get_usable_points uid True now d = sum_list (map (\<lambda>h. if \<not> m_expired (ph_meta h)
     \<and> expires_within ((<) now) h \<and> ph_user h = uid \<and> ph_type h = Earn then remaining_points h else 0) (histories d))"
  unfolding get_usable_points_sum available_points_def sum_list_sort_key filter_filter sum_list_filter_if
  by (intro arg_cong [of _ _ sum_list] map_cong) auto

lemma usable_grows:
  assumes "list_all2 grows (histories d) t"
  shows "get_usable_points uid True now d \<le> get_usable_points uid True now (d\<lparr>histories := t @ s\<rparr>)"
proof -
  let ?w = "\<lambda>h. if \<not> m_expired (ph_meta h) \<and> expires_within ((<) now) h \<and> ph_user h = uid \<and> ph_type h = Earn
    then remaining_points h else 0"
  have "sum_list (map ?w hs) \<le> sum_list (map ?w gs)" if "list_all2 grows hs gs" for hs gs
    using that
  proof (induction rule: list_all2_induct)
    case (Cons h hs g gs)
    then have "?w h \<le> ?w g"
      using core_eqD [of g h] by (auto simp: grows_def expires_within_def)
    then show ?case
      using Cons by simp
  qed simp
  moreover have "0 \<le> sum_list (map ?w s)"
    by (rule sum_list_nonneg_int) simp
  ultimately show ?thesis
    using assms by (simp add: usable_def2 add_increasing2)
qed

lemma usable_cong: "histories d' = histories d \<Longrightarrow> get_usable_points uid b now d' = get_usable_points uid b now d"
  by (simp add: get_usable_points_def)

lemma refund_usable:
  assumes inv: "ledger_inv d" and op: "refund_used_points uid amount oid ty info now d = Inr (r, d')"
    and own: "order_owned d (Some oid) uid" and u: "get_user d uid = Some u"
  shows "get_usable_points uid True now d \<le> get_usable_points uid True now d'"
  using op
proof (cases rule: refund_used_points_Inr)
  case (refunded u' ds ex left t d1)
  note er = earn_rows_props [OF ledger_inv_parts(1) [OF inv] own]
  have g: "list_all2 grows (histories d) t"
    using restore_loop_grows [OF refunded(4) er(1) ledger_inv_parts(2) [OF inv]] er(2) by simp
  obtain s where "histories d' = t @ s"
    using refunded(9,10) by (auto split: if_splits)
  then have "get_usable_points uid True now d' = get_usable_points uid True now (d\<lparr>histories := t @ s\<rparr>)"
    by (intro usable_cong) simp
  then show ?thesis
    using usable_grows [OF g] by simp
qed simp

end
