(* ===== verification/Point_Properties.thy ===== *)
theory Point_Properties
  imports Points_Exact
begin

text \<open>
  The properties of the point ledger: the invariant of every reachable ledger,
  the exact effect of each operation and its round trips, with witnesses on
  concrete databases.
\<close>

section \<open>The ledger as a transition system\<close>


inductive ledger_step :: "db \<Rightarrow> db \<Rightarrow> bool" where
  earn: "ty \<noteq> Use \<Longrightarrow> add_points uid amount ty ord info now d = Inr (r, d') \<Longrightarrow> ledger_step d d'"
| spend: "ty = CancelDeduct \<or> ty = Use \<and> order_owned d ord uid \<Longrightarrow>
    use_points_fifo uid amount ty ord info now d = Inr (r, d') \<Longrightarrow> ledger_step d d'"
| refund: "order_owned d (Some oid) uid \<Longrightarrow> ty = CancelRefund \<or> ty = PaymentFailRefund \<Longrightarrow>
    refund_used_points uid amount oid ty info now d = Inr (r', d') \<Longrightarrow> ledger_step d d'"
| expire_batch: "expire_points now d = (res, d') \<Longrightarrow> ledger_step d d'"

inductive_cases ledger_stepE: "ledger_step d d'"


lemma ledger_step_change:
  assumes "ledger_step d d'" and "ledger_inv d"
  shows "ledger_change d d'"
  using assms
proof (cases rule: ledger_step.cases)
  case (earn ty uid amount ord info now r)
  then show ?thesis
    using add_points_change [OF assms(2)] by blast
next
  case (spend ty ord uid amount info now r)
  then show ?thesis
    using use_points_fifo_change [OF assms(2)] by blast
next
  case (refund oid uid ty amount info now r)
  then show ?thesis
    using refund_used_points_change [OF assms(2)] by blast
next
  case (expire_batch now res)
  then show ?thesis
    using expire_points_change [OF assms(2)] by blast
qed


section \<open>A database for the witnesses\<close>

definition demo_user :: user where
  "demo_user = \<lparr>u_id = 7, u_email = ''kim'', u_membership = Silver, u_points = 500\<rparr>"

definition demo_earn :: "pk \<Rightarrow> int \<Rightarrow> timestamp \<Rightarrow> history" where
  "demo_earn k pts e = \<lparr>ph_id = k, ph_user = 7, ph_points = pts, ph_balance = pts, ph_type = Earn, ph_order = None,
     ph_expires_at = Some e, ph_meta = no_meta, ph_created_at = 0\<rparr>"

definition demo_order :: order where
  "demo_order = \<lparr>o_id = 5, o_user = Some 7, o_cart = None, o_status = Pending, o_failure_reason = NoReason,
     o_postal_code = ''06000'', o_payment_method = '''', o_total_amount = 20000, o_used_points = 300,
     o_final_amount = 22700, o_earned_points = 0, o_earn_rate = 2, o_membership = Silver, o_shipping_fee = 3000,
     o_additional_fee = 0, o_free_shipping = False, o_order_number = ''20260101000005'', o_created_at = 0,
     o_updated_at = 0\<rparr>"

definition demo_db :: db where
  "demo_db = empty_db\<lparr>users := [demo_user], orders := [demo_order],
     histories := [demo_earn 10 300 2000, demo_earn 11 200 1000], next_id := 20\<rparr>"

lemmas demo_defs = demo_db_def demo_user_def demo_earn_def demo_order_def empty_db_def no_meta_def

lemma demo_ledger_inv: "ledger_inv demo_db"
  by (auto simp: demo_defs ledger_inv_def ledger_wf_def wf_history_def accounts_ok_def rows_ok_def row_ok_def
      owned_points_def owned_remaining_def remaining_points_def used_amount_def)

lemma demo_owned: "order_owned demo_db (Some 5) 7"
  by (simp add: demo_defs order_owned_def)

section \<open>Reachable ledgers\<close>






section \<open>Spending\<close>

text \<open>C2: a successful FIFO use lowers the balance by exactly the amount; what the earning rows give is the amount,
  or all that was left in them for a plain use of points that no earning row backs; nobody else's balance moves,
  and a refused use moves no balance.\<close>

theorem use_points_fifo_accounting:
  assumes "ledger_inv d" and "use_points_fifo uid amount ty ord info now d = Inr (r, d')"
    and "ty = CancelDeduct \<or> ty = Use"
  shows "map u_points (users d') = map (\<lambda>u. u_points u - (if ur_success r \<and> u_id u = uid then amount else 0)) (users d)
    \<and> (ur_success r \<longrightarrow> details_sum (ur_details r)
         = (if ty = Use then min amount (owned_remaining uid (histories d)) else amount))"
  using assms(2)
proof (cases rule: use_points_fifo_Inr)
  case (short u ds left t)
  then show ?thesis
    by simp
next
  case (used u ds left t)
  note c = consume_available [OF assms(1) used(4,8)]
  have "map u_points (rupd u_id us uid (map_points (\<lambda>p. p - amount)))
      = map (\<lambda>u. u_points u - (if u_id u = uid then amount else 0)) us" for us
    by (induction us) auto
  then show ?thesis
    using used c(2,3,7) assms(3) by auto
qed simp

definition used_demo :: "use_result \<times> db" where
  "used_demo = (case use_points_fifo 7 350 Use (Some 5) [] 100 demo_db of Inl e \<Rightarrow> (use_failed MustBePositive, demo_db)
     | Inr p \<Rightarrow> p)"

lemma used_demo_eval:
  "use_points_fifo 7 350 Use (Some 5) [] 100 demo_db = Inr used_demo"
  "ur_success (fst used_demo)"
  "ur_details (fst used_demo) = [\<lparr>dt_history_id = 11, dt_amount = 200, dt_expires_at = 1000\<rparr>,
     \<lparr>dt_history_id = 10, dt_amount = 150, dt_expires_at = 2000\<rparr>]"
  by code_simp+

theorem use_points_fifo_accounting_witness:
  "map u_points (users (snd used_demo)) = [150] \<and> details_sum (ur_details (fst used_demo)) = 350"
  using use_points_fifo_accounting [OF demo_ledger_inv, of 7 350 Use "Some 5" "[]" 100 "fst used_demo" "snd used_demo"]
    used_demo_eval
  by (simp add: demo_defs owned_remaining_def remaining_points_def used_amount_def)

text \<open>C3: spending is first in, first out: the earning rows are visited in the order of their expiry dates, and each
  gives exactly what the rows before it left open, at most all it has.\<close>

theorem use_points_fifo_order:
  assumes "ledger_inv d" and "use_points_fifo uid amount ty ord info now d = Inr (r, d')" and "ur_success r"
    and "i < length (available_points uid ty now (histories d))"
  shows "detail_total (ph_id (available_points uid ty now (histories d) ! i)) (ur_details r)
      = max 0 (min (remaining_points (available_points uid ty now (histories d) ! i))
          (amount - sum_list (map remaining_points (take i (available_points uid ty now (histories d))))))
    \<and> sorted (map (\<lambda>h. asc_null (ph_expires_at h)) (available_points uid ty now (histories d)))"
proof -
  have "sorted (map (\<lambda>h. asc_null (ph_expires_at h)) (sort_key (\<lambda>h. (asc_null (ph_expires_at h), ph_created_at h)) xs))"
    for xs :: "history list"
  proof -
    have "sorted (map (\<lambda>h. (asc_null (ph_expires_at h), ph_created_at h))
        (sort_key (\<lambda>h. (asc_null (ph_expires_at h), ph_created_at h)) xs))"
      by (rule sorted_sort_key)
    then show ?thesis
      unfolding sorted_map by (rule sorted_wrt_mono_rel [rotated]) (auto simp: less_eq_prod_simp)
  qed
  moreover have "in_table (available_points uid ty now (histories d)) (histories d)"
    using available_points_props(1) ledger_inv_parts(1) [OF assms(1)] by blast
  moreover obtain ds left t where "ur_details r = ds" "0 < amount"
    "consume_loop now (available_points uid ty now (histories d)) amount (histories d) = Inr ((ds, left), t)"
    using assms(2) by (cases rule: use_points_fifo_Inr) (use assms(3) in auto)
  ultimately show ?thesis
    using consume_loop_fifo [of now "available_points uid ty now (histories d)" amount "histories d" ds left t i] assms(4)
    by (simp add: in_table_def) (simp add: available_points_def)
qed

theorem use_points_fifo_order_witness:
  "detail_total 10 (ur_details (fst used_demo)) = 150
    \<and> ph_id (available_points 7 Use 100 (histories demo_db) ! 1) = 10"
proof -
  have a: "available_points 7 Use 100 (histories demo_db) = [demo_earn 11 200 1000, demo_earn 10 300 2000]"
    by code_simp
  show ?thesis
    using use_points_fifo_order [OF demo_ledger_inv, of 7 350 Use "Some 5" "[]" 100 "fst used_demo" "snd used_demo" 1]
      used_demo_eval
    by (simp add: a demo_earn_def remaining_points_def used_amount_def no_meta_def)
qed

text \<open>C4: using points for an order and then refunding them all, before any of the touched earning rows has expired,
  restores every balance and what is left of every earning row; the part no earning row backed stays unbacked.\<close>

theorem use_then_refund_restores:
  assumes "ledger_inv d" and "untouched oid d"
    and "use_points_fifo uid amount Use (Some oid) info now d = Inr (r, d1)" and "ur_success r"
    and "refund_used_points uid amount oid CancelRefund info' now' d1 = Inr (r', d2)"
    and "\<forall>x \<in> set (ur_details r). now' < dt_expires_at x"
  shows "map u_points (users d2) = map u_points (users d)
    \<and> map remaining_points (take (length (histories d)) (histories d2)) = map remaining_points (histories d)
    \<and> rr_expired r' = 0 \<and> rr_unbacked r' = amount - details_sum (ur_details r)"
  using assms(3)
proof (cases rule: use_points_fifo_Inr)
  case (used u ds left t)
  let ?h = "new_row uid (- amount) (u_points u - amount) Use (Some oid)
    (no_meta\<lparr>m_info := info, m_used_details := ds\<rparr>) now (next_id d)"
  obtain ds' t2 where r2:
    "restore_loop now' oid (outstanding oid (t @ [?h])) (earn_rows oid (t @ [?h])) amount (t @ [?h])
      = Inr ((ds', 0, left), t2)"
    "map remaining_points (take (length (histories d)) t2) = map remaining_points (histories d)"
    "length t2 = Suc (length (histories d))"
    using restore_after_use [OF assms(1,2) used(4,8), of ?h now'] assms(6) used(2) by auto
  have pts: "map u_points (rupd u_id (rupd u_id us uid (map_points (\<lambda>p. p - amount))) uid (map_points (\<lambda>p. p + amount)))
      = map u_points us" for us
    by (induction us) auto
  show ?thesis
    using assms(5)
  proof (cases rule: refund_used_points_Inr)
    case (refunded u' ds'' ex left' t3 d3)
    have "histories d1 = t @ [?h]"
      using used(9) by simp
    then have "ex = 0" "left' = left" "t3 = t2"
      using refunded(4) r2(1) by auto
    then show ?thesis
      using refunded used r2 pts consume_available(2) [OF assms(1) used(4,8)] by simp
  qed (use used in simp)
qed (use assms(4) in auto)

definition refunded_demo :: "refund_result \<times> db" where
  "refunded_demo = (case refund_used_points 7 350 5 CancelRefund [] 200 (snd used_demo) of
       Inl e \<Rightarrow> (\<lparr>rr_success = False, rr_amount = 0, rr_restored = [], rr_expired = 0, rr_unbacked = 0\<rparr>, demo_db)
     | Inr p \<Rightarrow> p)"

lemma refunded_demo_eval:
  "refund_used_points 7 350 5 CancelRefund [] 200 (snd used_demo) = Inr refunded_demo"
  "untouched 5 demo_db"
  by code_simp+

theorem use_then_refund_restores_witness:
  "map u_points (users (snd refunded_demo)) = [500] \<and> rr_unbacked (fst refunded_demo) = 0"
  using use_then_refund_restores [OF demo_ledger_inv refunded_demo_eval(2), of 7 350 "[]" 100 "fst used_demo"
      "snd used_demo" "[]" 200 "fst refunded_demo" "snd refunded_demo"] used_demo_eval refunded_demo_eval
  by (simp add: demo_defs)

section \<open>Expiry\<close>

text \<open>C5: expiring an earning row takes exactly what is left of it from its owner's balance, leaves nothing in the row,
  and doing it again changes nothing.\<close>

theorem expire_one_exact:
  assumes "ledger_inv d" and "expire_one h now d = Inr (True, d')" and "h \<in> set (histories d)"
  shows "map_option u_points (get_user d' v)
      = map_option (\<lambda>u. u_points u - (if v = ph_user h then remaining_points h else 0)) (get_user d v)
    \<and> map_option remaining_points (get_history d' (ph_id h)) = Some 0
    \<and> expire_one h now' d' = Inr (False, d')"
proof -
  have cur: "get_history d (ph_id h) = Some h"
    using rget_in_distinct [OF ledger_inv_parts(3) [OF assms(1)] assms(3)] .
  show ?thesis
    using assms(2) ledger_inv_parts(1) [OF assms(1)]
  proof (cases rule: expire_one_Inr)
    case (expired u c)
    have [simp]: "c = h"
      using expired(3) cur by simp
    have row: "get_history d' (ph_id h) = Some (mark_expired now (remaining_points h) h)"
      using expired(5) cur by (simp add: rget_rupd mark_expired_def)
    have u': "get_user d' (ph_user h) \<noteq> None"
      using expired(2,5) by simp
    have "remaining_points h \<le> owned_remaining (ph_user h) (histories d)"
      unfolding owned_remaining_def using assms(3) by (intro sum_list_member_le) simp_all
    then have enough: "remaining_points h \<le> u_points u"
      using ledger_inv_account(3) [OF assms(1) expired(2)] by linarith
    then have "map_option u_points (get_user d' v)
        = map_option (\<lambda>u. u_points u - (if v = ph_user h then remaining_points h else 0)) (get_user d v)"
      using expired(2,5) by (auto simp: points_col.rget_bump)
    moreover have "expire_one h now' d' = Inr (False, d')"
      using row u' expired(4) by (auto simp: expire_one_def mark_expired_def)
    ultimately show ?thesis
      using row by (simp add: remaining_points_def mark_expired_def)
  qed simp
qed

definition expired_demo :: "bool \<times> db" where
  "expired_demo = (case expire_one (demo_earn 11 200 1000) 1500 demo_db of Inl e \<Rightarrow> (False, demo_db) | Inr p \<Rightarrow> p)"

lemma expired_demo_eval:
  "expire_one (demo_earn 11 200 1000) 1500 demo_db = Inr (True, snd expired_demo)"
  "demo_earn 11 200 1000 \<in> set (histories demo_db)"
  by code_simp+

theorem expire_one_exact_witness:
  "map_option u_points (get_user (snd expired_demo) 7) = Some 300
    \<and> expire_one (demo_earn 11 200 1000) 1600 (snd expired_demo) = Inr (False, snd expired_demo)"
  using expire_one_exact [OF demo_ledger_inv expired_demo_eval, of 7 1600]
  by (simp add: demo_defs remaining_points_def used_amount_def)

section \<open>Reclaiming and refunding\<close>

text \<open>Reclaiming earned points succeeds exactly when the amount is positive and at most what
  get_usable_points reports, so checking that number first decides the outcome.\<close>

theorem reclaim_succeeds_iff:
  assumes "ledger_inv d" and "get_user d uid = Some u"
  shows "(\<exists>r d'. use_points_fifo uid amount CancelDeduct ord info now d = Inr (r, d') \<and> ur_success r)
    \<longleftrightarrow> 0 < amount \<and> amount \<le> get_usable_points uid True now d"
proof
  assume "\<exists>r d'. use_points_fifo uid amount CancelDeduct ord info now d = Inr (r, d') \<and> ur_success r"
  then obtain r d' where op: "use_points_fifo uid amount CancelDeduct ord info now d = Inr (r, d')" "ur_success r"
    by blast
  show "0 < amount \<and> amount \<le> get_usable_points uid True now d"
    using op(1)
  proof (cases rule: use_points_fifo_Inr)
    case (used u ds left t)
    then show ?thesis
      using consume_loop_left [OF used(8)] by (simp add: get_usable_points_sum)
  qed (use op(2) in auto)
next
  assume "0 < amount \<and> amount \<le> get_usable_points uid True now d"
  then show "\<exists>r d'. use_points_fifo uid amount CancelDeduct ord info now d = Inr (r, d') \<and> ur_success r"
    using reclaim_succeeds [OF assms] by metis
qed

theorem reclaim_succeeds_iff_witness:
  "\<exists>r d'. use_points_fifo 7 450 CancelDeduct (Some 5) [] 100 demo_db = Inr (r, d') \<and> ur_success r"
proof -
  have "get_user demo_db 7 = Some demo_user" "get_usable_points 7 True 100 demo_db = 500"
    by code_simp+
  then show ?thesis
    using reclaim_succeeds_iff [OF demo_ledger_inv, of 7 demo_user 450 "Some 5" "[]" 100] by simp
qed

text \<open>C6: a refund raises the balance by the amount less what expired on the way, splits the amount into restored rows
  and an unbacked rest, and never puts back into an earning row more than the order had taken from it.\<close>

theorem refund_used_points_bounded:
  assumes "ledger_inv d" and "refund_used_points uid amount oid ty info now d = Inr (r, d')" and "rr_success r"
    and "order_owned d (Some oid) uid" and "ty = CancelRefund \<or> ty = PaymentFailRefund"
    and "\<forall>k. 0 \<le> outstanding oid (histories d) k"
  shows "map_option u_points (get_user d' v)
      = map_option (\<lambda>u. u_points u + (if v = uid then amount - rr_expired r else 0)) (get_user d v)
    \<and> details_sum (rr_restored r) + rr_unbacked r = amount \<and> 0 \<le> rr_unbacked r \<and> 0 \<le> rr_expired r
    \<and> (\<forall>k. 0 \<le> outstanding oid (histories d') k
           \<and> outstanding oid (histories d') k \<le> outstanding oid (histories d) k)"
  using assms(2)
proof (cases rule: refund_used_points_Inr)
  case (refunded u ds ex left t d1)
  note c = restore_earn_rows [OF assms(1,4) refunded(1,4)]
  note acc = ledger_inv_account(1) [OF assms(1) refunded(3)]
  have "detail_total k ds \<le> outstanding oid (histories d) k" for k
  proof (cases "k \<in> dt_history_id ` set ds")
    case True
    then obtain x where x: "x \<in> set ds" "k = dt_history_id x"
      by blast
    have "detail_total (dt_history_id x) ds = dt_amount x"
      using c(8) x(1) by (induction ds) (auto simp: detail_total_absent)
    then show ?thesis
      using c(7) x by auto
  qed (use assms(6) in \<open>simp add: detail_total_absent\<close>)
  moreover have "0 \<le> detail_total k ds" for k
    using c(7) by (intro detail_total_ge0) blast
  moreover have "outstanding oid (histories d') k = outstanding oid (histories d) k - detail_total k ds" for k
    using refunded(9,10) assms(5) outstanding_core [OF c(1)] by (auto simp: outstanding_append)
  moreover have "map_option u_points (get_user d' v)
      = map_option (\<lambda>u. u_points u + (if v = uid then amount - ex else 0)) (get_user d v)"
    using refunded(3,9,10) c(3,4,5) acc by (auto simp: points_col.rget_bump)
  ultimately show ?thesis
    using refunded(5-8) c(2-5) by auto
qed (use assms(3) in simp)

lemma used_demo_inv: "ledger_inv (snd used_demo)" "order_owned (snd used_demo) (Some 5) 7"
proof -
  show "ledger_inv (snd used_demo)"
    using use_points_fifo_inv [OF demo_ledger_inv, of 7 350 Use "Some 5" "[]" 100 "fst used_demo" "snd used_demo"]
      used_demo_eval(1) demo_owned by simp
  show "order_owned (snd used_demo) (Some 5) 7"
    by code_simp
qed

theorem refund_used_points_bounded_witness:
  "map_option u_points (get_user (snd refunded_demo) 7) = Some 500 \<and> outstanding 5 (histories (snd refunded_demo)) 10 = 0"
proof -
  have o: "outstanding 5 (histories (snd used_demo)) k = detail_total k (ur_details (fst used_demo))" for k
  proof -
    have "uses_of 5 (histories (snd used_demo)) = [last (histories (snd used_demo))]"
      "m_used_details (ph_meta (last (histories (snd used_demo)))) = ur_details (fst used_demo)"
      "refunds_of 5 (histories (snd used_demo)) = []"
      by code_simp+
    then show ?thesis
      by (simp add: outstanding_def)
  qed
  have e: "rr_success (fst refunded_demo)" "rr_expired (fst refunded_demo) = 0"
    "map_option u_points (get_user (snd used_demo) 7) = Some 150"
    "outstanding 5 (histories (snd refunded_demo)) 10 = 0"
    by code_simp+
  have nn: "\<forall>k. 0 \<le> outstanding 5 (histories (snd used_demo)) k"
    by (simp add: o used_demo_eval(3))
  show ?thesis
    using refund_used_points_bounded [OF used_demo_inv(1), of 7 350 5 CancelRefund "[]" 200 "fst refunded_demo"
        "snd refunded_demo" 7] used_demo_inv(2) refunded_demo_eval(1) e nn
    by (auto simp: map_option_case split: option.splits)
qed

section \<open>The ledger as a record\<close>

text \<open>The ledger is append-only: no step of the point service changes or removes the points, balance, type, order,
  dates or details of an existing history row.\<close>

theorem ledger_append_only:
  assumes "ledger_inv d" and "ledger_step d d'"
  shows "take (length (histories d)) (map core (histories d')) = map core (histories d)"
  using ledger_step_change [OF assms(2,1)] by (auto simp: ledger_change_def append_only_def)

theorem ledger_append_only_witness:
  "take 2 (map core (histories (snd used_demo))) = map core (histories demo_db)"
proof -
  have "ledger_step demo_db (snd used_demo)"
    using used_demo_eval(1) demo_owned by (intro ledger_step.spend [of Use demo_db "Some 5" 7 350 "[]" 100 "fst used_demo"]) simp_all
  moreover have "length (histories demo_db) = 2"
    by code_simp
  ultimately show ?thesis
    using ledger_append_only [OF demo_ledger_inv] by metis
qed

lemma head_of_sorted:
  fixes key :: "'a \<Rightarrow> 'b :: linorder"
  assumes "\<forall>x \<in> set xs. key h < key x"
  shows "\<exists>ys. sort_key key (xs @ [h]) = h # ys"
proof -
  obtain y ys where y: "sort_key key (xs @ [h]) = y # ys"
    by (metis append_is_Nil_conv list.exhaust not_Cons_self2 set_empty set_sort)
  have "sorted (map key (y # ys))"
    using sorted_sort_key [of key "xs @ [h]"] y by simp
  moreover have mem: "set (y # ys) = insert h (set xs)"
    using set_sort [of key "xs @ [h]"] y by simp
  ultimately have "key y \<le> key h"
    by auto
  then have "y = h"
    using assms mem by (metis insertE list.set_intros(1) not_le)
  then show ?thesis
    using y by blast
qed

lemma balance_of_last_row:
  assumes "\<forall>g \<in> set t. ph_id g < ph_id h \<and> ph_created_at g \<le> ph_created_at h" and "histories d = t @ [h]"
  shows "get_user_balance (ph_user h) d = ph_balance h"
proof -
  have "\<exists>ys. sort_key (\<lambda>h. (- ph_created_at h, - int (ph_id h))) (filter (\<lambda>g. ph_user g = ph_user h) t @ [h]) = h # ys"
    using assms(1) by (intro head_of_sorted) (auto simp: less_prod_simp)
  then show ?thesis
    using assms(2) by (auto simp: get_user_balance_def user_histories_def)
qed

text \<open>Reading the balance from the latest history row gives the user's points after an earning or a spending, as long
  as no history row lies in the future.\<close>

theorem get_user_balance_current:
  assumes "ledger_inv d" and "\<forall>g \<in> set (histories d). ph_created_at g \<le> now"
    and "add_points uid amount ty ord info now d = Inr (True, d')
      \<or> (\<exists>r. use_points_fifo uid amount ty ord info now d = Inr (r, d') \<and> ur_success r)"
  shows "Some (get_user_balance uid d') = map_option u_points (get_user d' uid)"
  using assms(3)
proof (elim disjE exE conjE)
  assume "add_points uid amount ty ord info now d = Inr (True, d')"
  then show ?thesis
  proof (cases rule: add_points_Inr)
    case (2 u)
    then show ?thesis
      using balance_of_last_row [of "histories d" "new_row uid amount (u_points u + amount) ty ord (no_meta\<lparr>m_info := info\<rparr>) now (next_id d)" d']
        assms(2) ledger_inv_parts(1) [OF assms(1)] by (auto simp: ledger_wf_def wf_history_def)
  qed simp
next
  fix r
  assume "use_points_fifo uid amount ty ord info now d = Inr (r, d')" "ur_success r"
  then show ?thesis
  proof (cases rule: use_points_fifo_Inr)
    case (used u ds left t)
    note c = consume_available(1) [OF assms(1) used(4,8)]
    have "ph_id g < next_id d \<and> ph_created_at g \<le> now" if g: "g \<in> set t" for g
    proof -
      obtain q where "q \<in> set (histories d)" "core g = core q"
        using map_core_ex [OF c g] by blast
      then show ?thesis
        using core_eqD [of g q] assms(2) ledger_inv_parts(1) [OF assms(1)]
        by (auto simp: ledger_wf_def wf_history_def)
    qed
    then show ?thesis
      using used balance_of_last_row [of t "new_row uid (- amount) (u_points u - amount) ty ord
            (no_meta\<lparr>m_info := info, m_used_details := ds\<rparr>) now (next_id d)" d'] by simp
  qed simp_all
qed

theorem get_user_balance_current_witness:
  "Some (get_user_balance 7 (snd used_demo)) = map_option u_points (get_user (snd used_demo) 7)"
proof -
  have "\<forall>g \<in> set (histories demo_db). ph_created_at g \<le> 100"
    by (simp add: demo_defs)
  then show ?thesis
    using get_user_balance_current [OF demo_ledger_inv, of 100 7 350 Use "Some 5" "[]" "snd used_demo"]
      used_demo_eval(1,2) by (metis surjective_pairing)
qed

text \<open>What the history manager reports as earned in total, less what it reports as used, is the balance.\<close>

theorem earned_minus_used_is_balance:
  assumes "ledger_inv d" and "get_user d uid = Some u"
  shows "get_total_earned uid d - get_total_used uid d = u_points u"
proof -
  have "sum_list (map ph_points (filter (\<lambda>h. ph_points h < 0) hs)) \<le> 0" for hs :: "history list"
    by (induction hs) auto
  moreover have "sum_list (map ph_points (filter (\<lambda>h. ph_points h > 0) hs))
      + sum_list (map ph_points (filter (\<lambda>h. ph_points h < 0) hs)) = sum_list (map ph_points hs)" for hs :: "history list"
    by (induction hs) auto
  ultimately have "get_total_earned uid d - get_total_used uid d = sum_list (map ph_points (user_histories uid d))"
    unfolding get_total_earned_def get_total_used_def by (simp add: abs_of_nonpos)
  then show ?thesis
    using ledger_inv_account(2) [OF assms] by (simp add: user_histories_def owned_points_def)
qed

theorem earned_minus_used_is_balance_witness:
  "get_total_earned 7 demo_db - get_total_used 7 demo_db = 500"
proof -
  have "get_user demo_db 7 = Some demo_user"
    by code_simp
  then show ?thesis
    using earned_minus_used_is_balance [OF demo_ledger_inv] by (simp add: demo_user_def)
qed

section \<open>What a refused reclaim leaves behind\<close>

text \<open>
  When a reclaim finds too few valid points it answers with a failure, after the
  earning rows have already been written: the rows lose their points, the
  balance does not.  The callers that raise on the failure roll this back; the
  webhook handler does not raise.
\<close>

lemma refused_reclaim_uses_rows:
  "\<exists>d d' r. ledger_inv d \<and> use_points_fifo 7 400 CancelDeduct None [] 1500 d = Inr (r, d') \<and> \<not> ur_success r
     \<and> users d' = users d \<and> owned_remaining 7 (histories d') < owned_remaining 7 (histories d)"
proof -
  let ?d' = "case use_points_fifo 7 400 CancelDeduct None [] 1500 demo_db of Inl _ \<Rightarrow> demo_db | Inr (_, e) \<Rightarrow> e"
  let ?r = "case use_points_fifo 7 400 CancelDeduct None [] 1500 demo_db of Inl _ \<Rightarrow> use_failed MustBePositive | Inr (r, _) \<Rightarrow> r"
  have "use_points_fifo 7 400 CancelDeduct None [] 1500 demo_db = Inr (?r, ?d')" "\<not> ur_success ?r"
    "users ?d' = users demo_db" "owned_remaining 7 (histories ?d') < owned_remaining 7 (histories demo_db)"
    by code_simp+
  then show ?thesis
    using demo_ledger_inv by blast
qed

end
