(* ===== verification/Pricing.thy ===== *)
theory Pricing
  imports Shop_State
begin

text \<open>
  Amounts, dates and the small predicates of the models: shipping fees
  (\<^verbatim>\<open>src/shopping/services/shipping_service.py\<close>), earn rates
  (\<^verbatim>\<open>src/shopping/models/user.py\<close>), the derived fields and the validation of
  orders and payments (\<^verbatim>\<open>models/order.py\<close>, \<^verbatim>\<open>models/payment.py\<close>,
  \<^verbatim>\<open>models/product.py\<close>), the order number signal (\<^verbatim>\<open>signals.py\<close>) and the
  error-code classification (\<^verbatim>\<open>constants.py\<close>).  Amounts are \<open>int\<close>: the columns
  are \<^verbatim>\<open>DecimalField(decimal_places=0)\<close>.
\<close>

section \<open>Shipping\<close>

record shipping_result =
  sh_fee :: money
  sh_additional :: money
  sh_free :: bool

definition FREE_SHIPPING_THRESHOLD :: money where
  "FREE_SHIPPING_THRESHOLD = 30000"

definition DEFAULT_SHIPPING_FEE :: money where
  "DEFAULT_SHIPPING_FEE = 3000"

definition REMOTE_AREA_FEE :: money where
  "REMOTE_AREA_FEE = 3000"

definition REMOTE_AREA_POSTAL_CODES :: "string list" where
  "REMOTE_AREA_POSTAL_CODES = [''63'', ''59'', ''52'']"

definition is_remote_area :: "string \<Rightarrow> bool" where
  "is_remote_area postal_code = (
     if postal_code = [] then False
     else list_ex (\<lambda>code. take (length code) postal_code = code) REMOTE_AREA_POSTAL_CODES)"

definition calculate_fee :: "money \<Rightarrow> string \<Rightarrow> shipping_result" where
  "calculate_fee total_amount postal_code = (
     let is_remote = is_remote_area postal_code
     in if total_amount \<ge> FREE_SHIPPING_THRESHOLD
        then \<lparr>sh_fee = 0, sh_additional = (if is_remote then REMOTE_AREA_FEE else 0), sh_free = True\<rparr>
        else \<lparr>sh_fee = DEFAULT_SHIPPING_FEE, sh_additional = (if is_remote then REMOTE_AREA_FEE else 0),
              sh_free = False\<rparr>)"

lemma calculate_fee_bounds:
  "0 \<le> sh_fee (calculate_fee t z)" "0 \<le> sh_additional (calculate_fee t z)"
  "sh_fee (calculate_fee t z) + sh_additional (calculate_fee t z) \<le> 6000"
  by (simp_all add: calculate_fee_def Let_def DEFAULT_SHIPPING_FEE_def REMOTE_AREA_FEE_def)

section \<open>Earned points\<close>

definition get_earn_rate :: "user \<Rightarrow> int" where
  "get_earn_rate u = (case u_membership u of Bronze \<Rightarrow> 1 | Silver \<Rightarrow> 2 | Gold \<Rightarrow> 3 | Vip \<Rightarrow> 5)"

text \<open>\<^verbatim>\<open>int(amount * Decimal(rate) / Decimal("100"))\<close>: truncation towards zero.\<close>

definition points_of_amount :: "money \<Rightarrow> int \<Rightarrow> int" where
  "points_of_amount amount rate = (
     let v = amount * rate in if v \<ge> 0 then v div 100 else - ((- v) div 100))"

lemma points_of_amount_bounds:
  assumes "0 \<le> amount" and "0 \<le> rate" and "rate \<le> 100"
  shows "0 \<le> points_of_amount amount rate" "points_of_amount amount rate \<le> amount"
proof -
  have "amount * rate \<le> amount * 100"
    using assms by (intro mult_left_mono) auto
  then have "amount * rate div 100 \<le> amount * 100 div 100"
    by (rule zdiv_mono1) simp
  moreover have "0 \<le> amount * rate"
    using assms by simp
  ultimately show "0 \<le> points_of_amount amount rate" "points_of_amount amount rate \<le> amount"
    by (simp_all add: points_of_amount_def Let_def pos_imp_zdiv_nonneg_iff)
qed

section \<open>Derived fields of the models\<close>

definition order_is_paid :: "order \<Rightarrow> bool" where
  "order_is_paid ord \<longleftrightarrow> o_status ord \<in> {Paid, Preparing, Shipped, Delivered}"

definition order_can_cancel :: "order \<Rightarrow> bool" where
  "order_can_cancel ord \<longleftrightarrow> o_status ord \<in> {Pending, Confirmed, Paid}"

definition get_total_shipping_fee :: "order \<Rightarrow> money" where
  "get_total_shipping_fee ord = o_shipping_fee ord + o_additional_fee ord"

definition order_clean :: "order \<Rightarrow> exn + unit" where
  "order_clean ord = (
     if o_final_amount ord \<noteq> o_total_amount ord - o_used_points ord then Inl ValidationError
     else if o_free_shipping ord \<and> get_total_shipping_fee ord > 0 then Inl ValidationError
     else if order_is_paid ord \<and> o_payment_method ord = [] then Inl ValidationError
     else if o_used_points ord < 0 then Inl ValidationError
     else if o_used_points ord > o_total_amount ord then Inl ValidationError
     else Inr ())"

definition get_subtotal :: "order_item \<Rightarrow> money" where
  "get_subtotal i = oi_price i * oi_quantity i"

definition is_in_stock :: "product \<Rightarrow> bool" where
  "is_in_stock p \<longleftrightarrow> p_stock p > 0 \<and> p_is_available p"

definition can_purchase :: "product \<Rightarrow> int \<Rightarrow> bool" where
  "can_purchase p quantity \<longleftrightarrow> is_in_stock p \<and> p_stock p \<ge> quantity"

definition pay_is_paid :: "payment \<Rightarrow> bool" where
  "pay_is_paid p \<longleftrightarrow> pay_status p = Done"

definition is_waiting_for_deposit :: "payment \<Rightarrow> bool" where
  "is_waiting_for_deposit p \<longleftrightarrow> pay_status p = WaitingForDeposit"

definition pay_can_cancel :: "payment \<Rightarrow> bool" where
  "pay_can_cancel p \<longleftrightarrow> pay_status p = Done \<and> \<not> pay_is_canceled p"

definition payment_clean :: "payment \<Rightarrow> exn + unit" where
  "payment_clean p = (
     if pay_amount p \<le> 0 then Inl ValidationError
     else if pay_canceled_amount p > pay_amount p then Inl ValidationError
     else if pay_status p = Done \<and> (pay_key p = None \<or> pay_key p = Some []) then Inl ValidationError
     else if pay_status p = Done \<and> (pay_approved_at p = None \<or> pay_approved_at p = Some []) then Inl ValidationError
     else if pay_status p = Canceled \<and> (pay_canceled_at p = None \<or> pay_canceled_at p = Some []) then Inl ValidationError
     else Inr ())"

section \<open>Status sets\<close>

definition ORDER_UNPAID_STATUSES :: "order_status list" where
  "ORDER_UNPAID_STATUSES = [Pending, Confirmed]"

definition LIVE_PAYMENT_STATUSES :: "payment_status list" where
  "LIVE_PAYMENT_STATUSES = [InProgress, WaitingForDeposit, Done]"

definition payment_status_str :: "payment_status \<Rightarrow> string" where
  "payment_status_str s = (case s of Ready \<Rightarrow> ''ready'' | InProgress \<Rightarrow> ''in_progress''
     | WaitingForDeposit \<Rightarrow> ''waiting_for_deposit'' | Done \<Rightarrow> ''done'' | Canceled \<Rightarrow> ''canceled''
     | PartialCanceled \<Rightarrow> ''partial_canceled'' | Aborted \<Rightarrow> ''aborted'' | Expired \<Rightarrow> ''expired'')"

section \<open>Error codes of the payment provider\<close>

definition TOSS_RECONCILE_ERRORS :: "string list" where
  "TOSS_RECONCILE_ERRORS = [''ALREADY_PROCESSED_PAYMENT'', ''DUPLICATED_ORDER_ID'']"

definition TOSS_NON_RETRYABLE_ERRORS :: "string list" where
  "TOSS_NON_RETRYABLE_ERRORS = [
     ''ALREADY_PROCESSED_PAYMENT'', ''ALREADY_CANCELED_PAYMENT'', ''ALREADY_REFUND_PAYMENT'',
     ''DUPLICATED_ORDER_ID'', ''INVALID_PAYMENT_KEY'', ''INVALID_ORDER_ID'', ''INVALID_AMOUNT'',
     ''BELOW_MINIMUM_AMOUNT'', ''INVALID_REQUEST'', ''INVALID_API_KEY'', ''UNAPPROVED_ORDER_ID'',
     ''INVALID_CARD_NUMBER'', ''INVALID_CARD_EXPIRATION'', ''INVALID_STOPPED_CARD'',
     ''INVALID_CARD_LOST_OR_STOLEN'', ''INVALID_REJECT_CARD'', ''PAY_PROCESS_CANCELED'',
     ''PAY_PROCESS_ABORTED'', ''UNAUTHORIZED_KEY'', ''REJECT_ACCOUNT_PAYMENT'', ''REJECT_CARD_PAYMENT'',
     ''REJECT_CARD_COMPANY'', ''EXCEED_MAX_AUTH_COUNT'', ''EXCEED_MAX_DAILY_PAYMENT_COUNT'',
     ''EXCEED_MAX_PAYMENT_AMOUNT'', ''EXCEED_MAX_ONE_DAY_AMOUNT'', ''FORBIDDEN_REQUEST'', ''FDS_ERROR'',
     ''NOT_FOUND_PAYMENT'', ''NOT_FOUND_PAYMENT_SESSION'']"

definition TOSS_RETRYABLE_ERRORS :: "string list" where
  "TOSS_RETRYABLE_ERRORS = [
     ''PROVIDER_ERROR'', ''FAILED_INTERNAL_SYSTEM_PROCESSING'',
     ''FAILED_PAYMENT_INTERNAL_SYSTEM_PROCESSING'', ''COMMON_ERROR'', ''UNKNOWN_PAYMENT_ERROR'',
     ''FAILED_CARD_COMPANY_RESPONSE'', ''NETWORK_ERROR'', ''TIMEOUT'']"

section \<open>Calendar dates\<close>

text \<open>
  \<^verbatim>\<open>timezone.now().strftime("%Y%m%d")\<close>: a timestamp is the number of seconds since
  1970-01-01 UTC; the date is computed in 400-year cycles that begin on the first of March.
\<close>

definition civil_date :: "timestamp \<Rightarrow> int \<times> int \<times> int" where
  "civil_date t = (
     let z = t div 86400 + 719468; era = z div 146097; doe = z mod 146097;
         yoe = (doe - doe div 1460 + doe div 36524 - doe div 146096) div 365;
         doy = doe - (365 * yoe + yoe div 4 - yoe div 100);
         mp = (5 * doy + 2) div 153;
         day = doy - (153 * mp + 2) div 5 + 1;
         mon = (if mp < 10 then mp + 3 else mp - 9);
         year = yoe + era * 400 + (if mon \<le> 2 then 1 else 0)
     in (year, mon, day))"

definition date_str :: "timestamp \<Rightarrow> string" where
  "date_str t = (case civil_date t of (y, m, dd) \<Rightarrow> pad0 4 y @ pad0 2 m @ pad0 2 dd)"

lemma civil_date_examples:
  "civil_date 0 = (1970, 1, 1)" "civil_date 951782400 = (2000, 2, 29)" "civil_date 1790000000 = (2026, 9, 21)"
  by code_simp+

definition generate_order_number :: "timestamp \<Rightarrow> pk \<Rightarrow> string" where
  "generate_order_number now oid = date_str now @ pad0 6 (int oid)"

text \<open>Dates of years with four digits all have eight characters, so the primary key is read back.\<close>

lemma generate_order_number_inj:
  assumes "length (date_str s) = length (date_str t)"
    and "generate_order_number s j = generate_order_number t k"
  shows "date_str s = date_str t \<and> j = k"
  using assms by (simp add: generate_order_number_def pad0_inj)

end
