(* ===== verification/Orders.thy ===== *)
theory Orders
  imports Pricing Points
begin

text \<open>
  Orders before payment: \<^verbatim>\<open>src/shopping/services/order_service.py\<close>
  (OrderService) and \<^verbatim>\<open>src/shopping/tasks/order_tasks.py\<close>, with the cart totals of
  \<^verbatim>\<open>models/cart.py\<close> they read.

  An order is created from a cart either at once
  (\<open>create_order_from_cart\<close>: items, stock, points, cart) or in two steps
  (\<open>create_order_hybrid\<close> writes the order row and publishes
  \<open>process_order_heavy_tasks\<close>).  \<open>cancel_order\<close> is the only way back before
  payment; the batches \<open>republish_stalled_orders\<close> and \<open>expire_unpaid_orders\<close>
  run over whole tables and commit order by order.
\<close>

section \<open>Cart totals\<close>

definition product_price :: "db \<Rightarrow> pk \<Rightarrow> money" where
  "product_price d pid = (case get_product d pid of None \<Rightarrow> 0 | Some p \<Rightarrow> p_price p)"

definition get_total_amount :: "db \<Rightarrow> pk \<Rightarrow> money" where
  "get_total_amount d cid =
     sum_list (map (\<lambda>i. product_price d (ci_product i) * ci_quantity i) (cart_items_of d cid))"

definition get_total_quantity :: "db \<Rightarrow> pk \<Rightarrow> int" where
  "get_total_quantity d cid = sum_list (map ci_quantity (cart_items_of d cid))"

definition cart_clear :: "pk \<Rightarrow> db \<Rightarrow> db" where
  "cart_clear cid d = d\<lparr>cart_items := filter (\<lambda>i. ci_cart i \<noteq> cid) (cart_items d)\<rparr>"

definition upd_cart :: "pk \<Rightarrow> (cart \<Rightarrow> cart) \<Rightarrow> db \<Rightarrow> db" where
  "upd_cart k f d = d\<lparr>carts := rupd c_id (carts d) k f\<rparr>"

text \<open>\<^verbatim>\<open>Cart.clean\<close>, run by \<^verbatim>\<open>Cart.save\<close>.\<close>

definition cart_clean :: "cart \<Rightarrow> exn + unit" where
  "cart_clean c = (if c_user c = None \<and> (c_session c = None \<or> c_session c = Some [])
     then Inl ValidationError else Inr ())"

definition cart_deactivate :: "pk \<Rightarrow> unit op" where
  "cart_deactivate cid d = rbind (of_get DoesNotExist (get_cart d cid) d) (\<lambda>c d.
     case cart_clean c of Inl e \<Rightarrow> Inl e
     | Inr _ \<Rightarrow> Inr ((), upd_cart cid (\<lambda>c. c\<lparr>c_is_active := False\<rparr>) d))"

text \<open>The order number of the order in question, for the metadata of point rows.\<close>

definition order_info :: "order \<Rightarrow> dict" where
  "order_info ord = [(''order_id'', JNum (int (o_id ord))), (''order_number'', JStr (o_order_number ord))]"

section \<open>Creating an order\<close>

definition MIN_POINTS :: int where
  "MIN_POINTS = 100"

definition validate_order_points :: "user \<Rightarrow> int \<Rightarrow> money \<Rightarrow> exn + unit" where
  "validate_order_points user use_pts total_payment_amount = (
     if use_pts \<le> 0 then Inr ()
     else if use_pts < MIN_POINTS then Inl OrderServiceError
     else if use_pts > u_points user then Inl OrderServiceError
     else if use_pts > total_payment_amount then Inl OrderServiceError
     else Inr ())"

text \<open>
  \<^verbatim>\<open>Order.objects.create\<close> with the order number signal.  \<^verbatim>\<open>used_points\<close> is a
  \<^verbatim>\<open>PositiveIntegerField\<close>: a negative number violates its check constraint.
\<close>

definition create_order_row ::
  "user \<Rightarrow> pk option \<Rightarrow> money \<Rightarrow> shipping_result \<Rightarrow> int \<Rightarrow> money \<Rightarrow> string \<Rightarrow> timestamp \<Rightarrow> order op" where
  "create_order_row user cart total_amount ship use_pts final_amount postal_code now d = (
     if use_pts < 0 then Inl IntegrityError
     else let oid = next_id d;
              ord = \<lparr>o_id = oid, o_user = Some (u_id user), o_cart = cart, o_status = Pending,
                o_failure_reason = NoReason, o_postal_code = postal_code, o_payment_method = [],
                o_total_amount = total_amount, o_used_points = use_pts, o_final_amount = final_amount,
                o_earned_points = 0, o_earn_rate = get_earn_rate user, o_membership = u_membership user,
                o_shipping_fee = sh_fee ship, o_additional_fee = sh_additional ship,
                o_free_shipping = sh_free ship, o_order_number = generate_order_number now oid,
                o_created_at = now, o_updated_at = now\<rparr>
          in Inr (ord, d\<lparr>orders := orders d @ [ord], next_id := Suc oid\<rparr>))"

definition create_order_item :: "pk \<Rightarrow> product \<Rightarrow> int \<Rightarrow> db \<Rightarrow> db" where
  "create_order_item oid p quantity d = d\<lparr>order_items := order_items d @
     [\<lparr>oi_id = next_id d, oi_order = oid, oi_product = Some (p_id p), oi_product_name = p_name p,
       oi_quantity = quantity, oi_price = p_price p\<rparr>], next_id := Suc (next_id d)\<rparr>"

definition by_product :: "cart_item list \<Rightarrow> cart_item list" where
  "by_product = sort_key ci_product"

fun decrease_stock_loop :: "pk \<Rightarrow> cart_item list \<Rightarrow> unit op" where
  "decrease_stock_loop oid [] d = Inr ((), d)"
| "decrease_stock_loop oid (ci # cis) d =
     rbind (of_get DoesNotExist (get_product d (ci_product ci)) d) (\<lambda>product d.
       if p_stock product < ci_quantity ci then Inl OrderServiceError
       else decrease_stock_loop oid cis (create_order_item oid product (ci_quantity ci)
              (upd_product (p_id product) (map_stock (\<lambda>s. s - ci_quantity ci)) d)))"

definition create_order_items_and_decrease_stock :: "pk \<Rightarrow> pk \<Rightarrow> unit op" where
  "create_order_items_and_decrease_stock oid cid d = decrease_stock_loop oid (by_product (cart_items_of d cid)) d"

definition process_point_usage :: "pk \<Rightarrow> order \<Rightarrow> int \<Rightarrow> money \<Rightarrow> money \<Rightarrow> timestamp \<Rightarrow> unit op" where
  "process_point_usage uid ord use_pts total_amount final_amount now d =
     rbind (use_points_fifo uid use_pts Use (Some (o_id ord))
              (order_info ord @ [(''total_amount'', JStr (str_int total_amount)),
                                 (''final_amount'', JStr (str_int final_amount))]) now d)
       (\<lambda>result d. if \<not> ur_success result then Inl ValueError else Inr ((), d))"

definition create_order_from_cart :: "user \<Rightarrow> pk \<Rightarrow> string \<Rightarrow> int \<Rightarrow> timestamp \<Rightarrow> order op" where
  "create_order_from_cart user cid postal_code use_pts now d =
     rbind (of_get DoesNotExist (get_cart d cid) d) (\<lambda>_ d.
       if cart_items_of d cid = [] then Inl OrderServiceError
       else let total_amount = get_total_amount d cid;
                ship = calculate_fee total_amount postal_code;
                total_payment_amount = total_amount + sh_fee ship + sh_additional ship
         in case validate_order_points user use_pts total_payment_amount of
              Inl e \<Rightarrow> Inl e
            | Inr _ \<Rightarrow>
                let final_amount = max 0 (total_payment_amount - use_pts)
                in rbind (create_order_row user None total_amount ship use_pts final_amount postal_code now d)
                  (\<lambda>ord d.
                   rbind (create_order_items_and_decrease_stock (o_id ord) cid d) (\<lambda>_ d.
                   rbind (if use_pts > 0
                          then process_point_usage (u_id user) ord use_pts total_amount final_amount now d
                          else Inr ((), d)) (\<lambda>_ d.
                     Inr (ord, cart_clear cid d)))))"

text \<open>The flag of the result says whether the task was published (the task id is not \<open>None\<close>).\<close>

definition create_order_hybrid :: "user \<Rightarrow> pk \<Rightarrow> string \<Rightarrow> int \<Rightarrow> timestamp \<Rightarrow> (order \<times> bool) op" where
  "create_order_hybrid user cid postal_code use_pts now d = (
     if cart_items_of d cid = [] then Inl OrderServiceError
     else let total_amount = get_total_amount d cid;
              ship = calculate_fee total_amount postal_code;
              total_payment_amount = total_amount + sh_fee ship + sh_additional ship
       in case validate_order_points user use_pts total_payment_amount of
            Inl e \<Rightarrow> Inl e
          | Inr _ \<Rightarrow>
              let final_amount = max 0 (total_payment_amount - use_pts)
              in rbind (of_get DoesNotExist (get_cart d cid) d) (\<lambda>locked_cart d.
                 if \<not> c_is_active locked_cart then Inl OrderServiceError
                 else if cart_items_of d cid = [] then Inl OrderServiceError
                 else rbind (create_order_row user (Some cid) total_amount ship use_pts final_amount
                               postal_code now d) (\<lambda>ord d.
                      rbind (cart_deactivate cid d) (\<lambda>_ d.
                        case publish (ProcessOrder (o_id ord) cid use_pts) d of
                          Inl e \<Rightarrow> Inr ((ord, False), d)
                        | Inr d \<Rightarrow> Inr ((ord, True), d)))))"

section \<open>Cancelling before payment\<close>

definition set_order_status :: "order_status \<Rightarrow> timestamp \<Rightarrow> order \<Rightarrow> order" where
  "set_order_status s now ord = ord\<lparr>o_status := s, o_updated_at := now\<rparr>"

definition set_order_failed :: "reason \<Rightarrow> timestamp \<Rightarrow> order \<Rightarrow> order" where
  "set_order_failed r now ord = ord\<lparr>o_status := Failed, o_failure_reason := r, o_updated_at := now\<rparr>"

definition restore_item :: "order_item \<Rightarrow> db \<Rightarrow> db" where
  "restore_item item d = (case oi_product item of
     None \<Rightarrow> d
   | Some pid \<Rightarrow> upd_product pid (map_stock (\<lambda>s. s + oi_quantity item)) d)"

definition close_payments :: "pk \<Rightarrow> payment_status \<Rightarrow> db \<Rightarrow> db" where
  "close_payments oid closed d = d\<lparr>payments := map (\<lambda>p.
     if pay_order p = oid \<and> pay_status p \<notin> set LIVE_PAYMENT_STATUSES then p\<lparr>pay_status := closed\<rparr> else p)
     (payments d)\<rparr>"

definition live_payments :: "pk \<Rightarrow> db \<Rightarrow> payment list" where
  "live_payments oid d = filter (\<lambda>p. pay_order p = oid \<and> pay_status p \<in> set LIVE_PAYMENT_STATUSES) (payments d)"

definition order_used_points :: "pk \<Rightarrow> db \<Rightarrow> bool" where
  "order_used_points oid d \<longleftrightarrow> list_ex (\<lambda>h. ph_order h = Some oid \<and> ph_type h = Use) (histories d)"

text \<open>
  The log lines read \<^verbatim>\<open>order.user.id\<close>: for an order whose user was deleted they
  raise \<open>AttributeError\<close>, on the refusing path (line 496) as on the cancelling one (line 512).
\<close>

definition cancel_order :: "pk \<Rightarrow> payment_status \<Rightarrow> timestamp \<Rightarrow> unit op" where
  "cancel_order oid closed now d =
     rbind (of_get DoesNotExist (get_order d oid) d) (\<lambda>ord d.
       if o_status ord \<notin> set ORDER_UNPAID_STATUSES
       then (if o_user ord = None then Inl AttributeError else Inl OrderServiceError)
       else let d1 = close_payments oid closed d
         in if live_payments oid d1 \<noteq> [] then Inl PaymentInProgressError
            else rbind (of_get AttributeError (o_user ord) d1) (\<lambda>uid d1.
              let d2 = fold restore_item (items_of d1 oid) d1;
                  d3 = upd_order oid (set_order_status OCanceled now) d2
              in if o_used_points ord > 0 \<and> order_used_points oid d3
                 then rbind (refund_used_points uid (o_used_points ord) oid CancelRefund (order_info ord) now d3)
                        (\<lambda>_ d. Inr ((), d))
                 else Inr ((), d3)))"

section \<open>Tasks\<close>

datatype process_result =
  AlreadyProcessed | InsufficientStock string | PointDeductionFailed use_msg | Processed string

definition activate_cart :: "pk \<Rightarrow> unit op" where
  "activate_cart cid d = rbind (of_get DoesNotExist (get_cart d cid) d) (\<lambda>c d.
     if list_ex (\<lambda>c'. c_id c' \<noteq> cid \<and> c_is_active c'
          \<and> (c_user c \<noteq> None \<and> c_user c' = c_user c \<or> c_session c \<noteq> None \<and> c_session c' = c_session c)) (carts d)
     then Inl IntegrityError
     else Inr ((), upd_cart cid (\<lambda>c. c\<lparr>c_is_active := True\<rparr>) d))"

definition move_cart_items :: "pk \<Rightarrow> pk \<Rightarrow> db \<Rightarrow> db" where
  "move_cart_items cid active d = (
     let already = map ci_product (cart_items_of d active)
     in d\<lparr>cart_items := map (\<lambda>i. if ci_cart i = cid \<and> ci_product i \<notin> set already
          then i\<lparr>ci_cart := active\<rparr> else i) (cart_items d)\<rparr>)"

definition restore_cart :: "pk \<Rightarrow> unit op" where
  "restore_cart cid d =
     rbind (of_get DoesNotExist (get_cart d cid) d) (\<lambda>cart d.
       case (if c_user cart = None then None
             else find (\<lambda>c. c_user c = c_user cart \<and> c_is_active c \<and> c_id c \<noteq> cid) (carts d)) of
         None \<Rightarrow> activate_cart cid d
       | Some active \<Rightarrow> Inr ((), move_cart_items cid (c_id active) d))"

text \<open>The loop stops at the first item whose stock is short and returns it with its product.\<close>

fun reserve_loop :: "pk \<Rightarrow> cart_item list \<Rightarrow> (cart_item \<times> product) option op" where
  "reserve_loop oid [] d = Inr (None, d)"
| "reserve_loop oid (ci # cis) d =
     rbind (of_get DoesNotExist (get_product d (ci_product ci)) d) (\<lambda>product d.
       if p_stock product < ci_quantity ci then Inr (Some (ci, product), d)
       else reserve_loop oid cis (create_order_item oid product (ci_quantity ci)
              (upd_product (p_id product) (map_stock (\<lambda>s. s - ci_quantity ci)) d)))"

text \<open>\<^verbatim>\<open>item.product.pk\<close> of an item without product raises.\<close>

definition give_back_item :: "order_item \<Rightarrow> db \<Rightarrow> exn + db" where
  "give_back_item item d = (case oi_product item of
     None \<Rightarrow> Inl AttributeError
   | Some pid \<Rightarrow> Inr (upd_product pid (map_stock (\<lambda>s. s + oi_quantity item)) d))"

definition fail_processing :: "pk \<Rightarrow> pk \<Rightarrow> reason \<Rightarrow> timestamp \<Rightarrow> process_result \<Rightarrow> process_result op" where
  "fail_processing oid cid why now res d = (case fold_res give_back_item (items_of d oid) d of
     Inl e \<Rightarrow> Inl e
   | Inr d1 \<Rightarrow> rbind (restore_cart cid (upd_order oid (set_order_failed why now) d1)) (\<lambda>_ d2. Inr (res, d2)))"

definition process_order_body :: "pk \<Rightarrow> pk \<Rightarrow> int \<Rightarrow> timestamp \<Rightarrow> process_result op" where
  "process_order_body oid cid use_pts now d =
     rbind (of_get DoesNotExist (get_order d oid) d) (\<lambda>ord d.
       if o_status ord \<noteq> Pending then Inr (AlreadyProcessed, d)
       else rbind (of_get DoesNotExist (get_cart d cid) d) (\<lambda>_ d.
         rbind (reserve_loop oid (by_product (cart_items_of d cid)) d) (\<lambda>short d1.
           case short of
             Some (ci, product) \<Rightarrow>
               fail_processing oid cid (StockShort (p_id product) (ci_quantity ci) (p_stock product)) now
                 (InsufficientStock (p_name product)) d1
           | None \<Rightarrow>
               rbind (if use_pts > 0
                      then rbind (of_get AttributeError (o_user ord) d1) (\<lambda>uid d1.
                             rbind (use_points_fifo uid use_pts Use (Some oid) (order_info ord) now d1)
                               (\<lambda>r d2. Inr (if ur_success r then None else Some (ur_message r), d2)))
                      else Inr (None, d1)) (\<lambda>refused d2.
                 case refused of
                   Some m \<Rightarrow> fail_processing oid cid PointUseFailed now (PointDeductionFailed m) d2
                 | None \<Rightarrow> Inr (Processed (o_order_number ord),
                             cart_clear cid (upd_order oid (set_order_status Confirmed now) d2))))))"

text \<open>The task rolls back and asks for a retry when the body raises.\<close>

definition process_order_heavy_tasks :: "pk \<Rightarrow> pk \<Rightarrow> int \<Rightarrow> timestamp \<Rightarrow> process_result op" where
  "process_order_heavy_tasks oid cid use_pts now d = (case process_order_body oid cid use_pts now d of
     Inl e \<Rightarrow> Inl RetryTask | Inr r \<Rightarrow> Inr r)"

definition abandon_stalled_order :: "pk \<Rightarrow> timestamp \<Rightarrow> bool op" where
  "abandon_stalled_order oid now d =
     rbind (of_get DoesNotExist (get_order d oid) d) (\<lambda>ord d.
       if o_status ord \<noteq> Pending \<or> items_of d oid \<noteq> [] then Inr (False, d)
       else let d1 = upd_order oid (set_order_failed ProcessingDelayed now) d
         in case o_cart ord of
              None \<Rightarrow> Inr (True, d1)
            | Some cid \<Rightarrow> rbind (restore_cart cid d1) (\<lambda>_ d2. Inr (True, d2)))"

record republish_result =
  rp_candidates :: nat
  rp_republished :: nat
  rp_abandoned :: nat
  rp_skipped :: nat
  rp_errors :: "pk list"

definition stalled_orders :: "timestamp \<Rightarrow> db \<Rightarrow> order list" where
  "stalled_orders before d = sort_key o_id
     (filter (\<lambda>ord. o_status ord = Pending \<and> o_created_at ord < before \<and> items_of d (o_id ord) = []) (orders d))"

definition republish_one :: "timestamp \<Rightarrow> timestamp \<Rightarrow> order \<Rightarrow> republish_result \<times> db \<Rightarrow> republish_result \<times> db" where
  "republish_one give_up_cutoff now ord st = (case st of (r, d) \<Rightarrow>
     if o_created_at ord < give_up_cutoff
     then (case abandon_stalled_order (o_id ord) now d of
             Inl e \<Rightarrow> (r\<lparr>rp_errors := rp_errors r @ [o_id ord]\<rparr>, d)
           | Inr (True, d') \<Rightarrow> (r\<lparr>rp_abandoned := Suc (rp_abandoned r)\<rparr>, d')
           | Inr (False, d') \<Rightarrow> (r\<lparr>rp_skipped := Suc (rp_skipped r)\<rparr>, d'))
     else (case o_cart ord of
             None \<Rightarrow> (r\<lparr>rp_skipped := Suc (rp_skipped r)\<rparr>, d)
           | Some cid \<Rightarrow> (case publish (ProcessOrder (o_id ord) cid (o_used_points ord)) d of
               Inl e \<Rightarrow> (r\<lparr>rp_errors := rp_errors r @ [o_id ord]\<rparr>, d)
             | Inr d' \<Rightarrow> (r\<lparr>rp_republished := Suc (rp_republished r)\<rparr>, d'))))"

definition republish_stalled_orders :: "int \<Rightarrow> int \<Rightarrow> timestamp \<Rightarrow> db \<Rightarrow> republish_result \<times> db" where
  "republish_stalled_orders stall_minutes give_up_minutes now d = (
     let candidates = stalled_orders (now - stall_minutes * 60) d
     in fold (republish_one (now - give_up_minutes * 60) now) candidates
          (\<lparr>rp_candidates = length candidates, rp_republished = 0, rp_abandoned = 0, rp_skipped = 0,
            rp_errors = []\<rparr>, d))"

definition expire_order :: "pk \<Rightarrow> timestamp \<Rightarrow> bool op" where
  "expire_order oid now d =
     rbind (of_get DoesNotExist (get_order d oid) d) (\<lambda>ord d.
       if o_status ord \<notin> set ORDER_UNPAID_STATUSES then Inr (False, d)
       else let previous = (\<lambda>pid. case rget pay_id (payments d) pid of
                              None \<Rightarrow> JNull | Some p \<Rightarrow> JStr (payment_status_str (pay_status p)))
         in case cancel_order oid Expired now d of
              Inl PaymentInProgressError \<Rightarrow> Inr (False, d)
            | Inl e \<Rightarrow> Inl e
            | Inr (_, d1) \<Rightarrow>
                let d2 = upd_order oid (\<lambda>ord. ord\<lparr>o_failure_reason := PaymentTimeout\<rparr>) d1
                in Inr (True, fold (\<lambda>p. add_log (pay_id p) LCancel MsgOrderExpired
                           [(''order_id'', JNum (int oid)), (''previous_status'', previous (pay_id p))])
                         (filter (\<lambda>p. pay_order p = oid) (payments d2)) d2))"

record expire_result =
  ex_candidates :: nat
  ex_expired :: nat
  ex_skipped :: nat
  ex_errors :: "pk list"

definition expirable_orders :: "timestamp \<Rightarrow> db \<Rightarrow> pk list" where
  "expirable_orders cutoff d = map o_id (sort_key o_id
     (filter (\<lambda>ord. o_status ord \<in> set ORDER_UNPAID_STATUSES \<and> o_created_at ord < cutoff
        \<and> items_of d (o_id ord) \<noteq> [] \<and> live_payments (o_id ord) d = []) (orders d)))"

definition expire_step :: "timestamp \<Rightarrow> pk \<Rightarrow> expire_result \<times> db \<Rightarrow> expire_result \<times> db" where
  "expire_step now oid st = (case st of (r, d) \<Rightarrow>
     (case expire_order oid now d of
        Inl e \<Rightarrow> (r\<lparr>ex_errors := ex_errors r @ [oid]\<rparr>, d)
      | Inr (True, d') \<Rightarrow> (r\<lparr>ex_expired := Suc (ex_expired r)\<rparr>, d')
      | Inr (False, d') \<Rightarrow> (r\<lparr>ex_skipped := Suc (ex_skipped r)\<rparr>, d')))"

text \<open>
  \<open>budget\<close> is the number of candidates done before the soft time limit fires; an
  order in progress at that moment is rolled back, the rest wait for the next run.
\<close>

definition expire_unpaid_orders :: "nat \<Rightarrow> int \<Rightarrow> timestamp \<Rightarrow> db \<Rightarrow> expire_result \<times> db" where
  "expire_unpaid_orders budget timeout_minutes now d = (
     let candidates = expirable_orders (now - timeout_minutes * 60) d
     in fold (expire_step now) (take budget candidates)
          (\<lparr>ex_candidates = length candidates, ex_expired = 0, ex_skipped = 0, ex_errors = []\<rparr>, d))"

end
