(* ===== verification/Order_Stock.thy ===== *)
theory Order_Stock
  imports Orders Points_Contract
begin

text \<open>
  Stock accounting of orders.  An order holds stock while its status is one of
  pending, confirmed, paid, preparing, shipped, delivered; \<open>stock_total\<close> of a product
  is what is on the shelf plus what the orders hold.  The lemmas say what the
  loops over cart items and order items do to the shelf, and \<open>shop_inv\<close> is the
  invariant that the order operations keep.
\<close>

section \<open>Shelf and reservations\<close>

definition stock_in :: "product list \<Rightarrow> pk \<Rightarrow> int" where
  "stock_in ps pid = (case rget p_id ps pid of None \<Rightarrow> 0 | Some p \<Rightarrow> p_stock p)"

definition holds_stock :: "order_status \<Rightarrow> bool" where
  "holds_stock s \<longleftrightarrow> s \<in> {Pending, Confirmed, Paid, Preparing, Shipped, Delivered}"

lemma holds_stock_simps [simp]:
  "holds_stock Pending" "holds_stock Confirmed" "holds_stock Paid" "holds_stock Preparing" "holds_stock Shipped"
  "holds_stock Delivered" "\<not> holds_stock OCanceled" "\<not> holds_stock Refunded" "\<not> holds_stock PaymentFailed"
  "\<not> holds_stock Failed"
  by (simp_all add: holds_stock_def)

definition item_qty :: "pk \<Rightarrow> order_item \<Rightarrow> int" where
  "item_qty pid i = (if oi_product i = Some pid then oi_quantity i else 0)"

definition items_qty :: "pk \<Rightarrow> order_item list \<Rightarrow> int" where
  "items_qty pid is = sum_list (map (item_qty pid) is)"

definition holding :: "order list \<Rightarrow> pk \<Rightarrow> bool" where
  "holding os oid = (case rget o_id os oid of None \<Rightarrow> False | Some ord \<Rightarrow> holds_stock (o_status ord))"

definition reserved :: "db \<Rightarrow> pk \<Rightarrow> int" where
  "reserved d pid = items_qty pid (filter (\<lambda>i. holding (orders d) (oi_order i)) (order_items d))"

definition stock_total :: "db \<Rightarrow> pk \<Rightarrow> int" where
  "stock_total d pid = stock_in (products d) pid + reserved d pid"

lemma stock_in_colval: "stock_in ps pid = stock_col.colval ps pid"
  by (simp add: stock_in_def stock_col.colval_def)

lemma stock_in_add:
  "stock_in (rupd p_id ps k (map_stock (\<lambda>s. s + n))) pid
     = stock_in ps pid + (if pid = k \<and> rget p_id ps k \<noteq> None then n else 0)"
  by (simp add: stock_in_colval stock_col.colval_add)

lemma items_qty_simps [simp]:
  "items_qty pid [] = 0"
  "items_qty pid (i # is) = item_qty pid i + items_qty pid is"
  "items_qty pid (is @ js) = items_qty pid is + items_qty pid js"
  by (simp_all add: items_qty_def)

section \<open>Giving stock back\<close>

definition restock :: "order_item list \<Rightarrow> product list \<Rightarrow> product list" where
  "restock is ps = fold (\<lambda>i ps. case oi_product i of None \<Rightarrow> ps
     | Some pid \<Rightarrow> rupd p_id ps pid (map_stock (\<lambda>s. s + oi_quantity i))) is ps"

lemma restock_simps [simp]:
  "restock [] ps = ps"
  "restock (i # is) ps = restock is (case oi_product i of None \<Rightarrow> ps
     | Some pid \<Rightarrow> rupd p_id ps pid (map_stock (\<lambda>s. s + oi_quantity i)))"
  by (simp_all add: restock_def)

lemma restore_items: "fold restore_item is d = d\<lparr>products := restock is (products d)\<rparr>"
proof (induction "is" arbitrary: d)
  case (Cons i "is")
  then show ?case
    by (cases "oi_product i") (simp_all add: restore_item_def upd_product_def)
qed simp

lemma give_back_items:
  assumes "\<And>i. i \<in> set is \<Longrightarrow> oi_product i \<noteq> None"
  shows "fold_res give_back_item is d = Inr (d\<lparr>products := restock is (products d)\<rparr>)"
  using assms
proof (induction "is" arbitrary: d)
  case (Cons i "is")
  then obtain pid where "oi_product i = Some pid"
    by (metis list.set_intros(1) not_None_eq)
  then show ?case
    using Cons by (simp add: give_back_item_def upd_product_def)
qed simp

lemma give_back_items_Inr:
  assumes "fold_res give_back_item is d = Inr d'"
  shows "d' = d\<lparr>products := restock is (products d)\<rparr>"
  using assms
proof (induction "is" arbitrary: d)
  case (Cons i "is")
  then obtain e where e: "give_back_item i d = Inr e" "fold_res give_back_item is e = Inr d'"
    by (cases "give_back_item i d") simp_all
  have "d' = e\<lparr>products := restock is (products e)\<rparr>"
    using e(2) by (rule Cons.IH)
  then show ?case
    using e(1) by (cases "oi_product i") (auto simp: give_back_item_def upd_product_def)
qed simp

lemma map_restock:
  assumes "\<And>f p. g (map_stock f p) = g p"
  shows "map g (restock is ps) = map g ps"
proof (induction "is" arbitrary: ps)
  case (Cons i "is")
  then show ?case
    using assms by (simp add: map_rupd_other split: option.split)
qed simp

lemma map_stock_sel [simp]:
  "p_id (map_stock f p) = p_id p" "p_name (map_stock f p) = p_name p" "p_price (map_stock f p) = p_price p"
  "p_sold_count (map_stock f p) = p_sold_count p" "p_stock (map_stock f p) = f (p_stock p)"
  "p_is_active (map_stock f p) = p_is_active p" "p_is_available (map_stock f p) = p_is_available p"
  by (simp_all add: map_stock_def)

lemma rget_None_keys: "map key rs = map key qs \<Longrightarrow> (rget key rs k = None) = (rget key qs k = None)"
  unfolding rget_None_iff by (metis list.set_map)

lemma restock_keys [simp]: "map p_id (restock is ps) = map p_id ps"
  by (rule map_restock) simp

lemma restock_None [simp]: "(rget p_id (restock is ps) k = None) = (rget p_id ps k = None)"
  by (rule rget_None_keys) simp

lemma stock_in_restock:
  "stock_in (restock is ps) pid = stock_in ps pid + (if rget p_id ps pid = None then 0 else items_qty pid is)"
proof (induction "is" arbitrary: ps)
  case (Cons i "is")
  have *: "(rget p_id (rupd p_id ps k (map_stock f)) pid = None) = (rget p_id ps pid = None)" for k f
    by (rule rget_None_keys) (simp add: stock_col.keys_bump)
  show ?case
    by (cases "oi_product i") (auto simp: Cons.IH stock_in_add * item_qty_def)
qed simp

lemma restock_nonneg:
  assumes "\<forall>p \<in> set ps. 0 \<le> p_stock p" and "\<forall>i \<in> set is. 0 \<le> oi_quantity i"
  shows "\<forall>p \<in> set (restock is ps). 0 \<le> p_stock p"
  using assms
proof (induction "is" arbitrary: ps)
  case (Cons i "is")
  have *: "\<forall>p \<in> set (rupd p_id ps k (map_stock (\<lambda>s. s + oi_quantity i))). 0 \<le> p_stock p" for k
    using Cons.prems by (auto dest!: set_rupdD)
  show ?case
    using Cons.prems Cons.IH [of ps] Cons.IH [OF *] by (cases "oi_product i") simp_all
qed simp

section \<open>Taking stock\<close>

lemma decrease_is_reserve:
  "decrease_stock_loop oid cis d = (case reserve_loop oid cis d of
     Inl e \<Rightarrow> Inl e
   | Inr (None, d') \<Rightarrow> Inr ((), d')
   | Inr (Some _, _) \<Rightarrow> Inl OrderServiceError)"
  by (induction cis arbitrary: d) (auto simp: rbind_def of_get_def split: option.splits)

text \<open>What a run of the reservation loop adds and takes.\<close>

definition took :: "pk \<Rightarrow> db \<Rightarrow> order_item list \<Rightarrow> product list \<Rightarrow> bool" where
  "took oid d new ps \<longleftrightarrow> map p_id ps = map p_id (products d)
     \<and> (\<forall>i \<in> set new. oi_order i = oid
          \<and> (\<exists>pid. oi_product i = Some pid \<and> rget p_id (products d) pid \<noteq> None))
     \<and> (\<forall>pid. stock_in ps pid = stock_in (products d) pid - items_qty pid new)
     \<and> ((\<forall>p \<in> set (products d). 0 \<le> p_stock p) \<longrightarrow> (\<forall>p \<in> set ps. 0 \<le> p_stock p))"

lemma stock_nonneg_take:
  assumes "keys_distinct p_id ps" and "rget p_id ps k = Some p" and "q \<le> p_stock p"
    and "\<forall>p \<in> set ps. 0 \<le> p_stock p"
  shows "\<forall>p \<in> set (rupd p_id ps k (map_stock (\<lambda>s. s - q))). 0 \<le> p_stock p"
proof
  fix r
  assume "r \<in> set (rupd p_id ps k (map_stock (\<lambda>s. s - q)))"
  then consider "r \<in> set ps" | p' where "p' \<in> set ps" "p_id p' = k" "r = map_stock (\<lambda>s. s - q) p'"
    by (auto dest: set_rupdD)
  then show "0 \<le> p_stock r"
  proof cases
    case 2
    then have "p' = p"
      using assms(1,2) by (metis option.inject rget_in_distinct)
    then show ?thesis
      using 2 assms(3) by simp
  qed (use assms(4) in simp)
qed

lemma reserve_loop_effect:
  assumes "reserve_loop oid cis d = Inr (short, d1)" and "keys_distinct p_id (products d)"
  shows "\<exists>ps new. d1 = d\<lparr>products := ps, order_items := order_items d @ new, next_id := next_id d + length new\<rparr>
     \<and> took oid d new ps
     \<and> (\<forall>i \<in> set new. \<exists>ci \<in> set cis. oi_quantity i = ci_quantity ci)
     \<and> (short = None \<longrightarrow> map (\<lambda>i. (oi_product i, oi_quantity i)) new
          = map (\<lambda>ci. (Some (ci_product ci), ci_quantity ci)) cis)"
  using assms
proof (induction cis arbitrary: d)
  case Nil
  then show ?case
    by (intro exI [of _ "products d"] exI [of _ "[]"]) (auto simp: took_def)
next
  case (Cons ci cis)
  from Cons.prems(1) obtain p where p: "get_product d (ci_product ci) = Some p"
    by (auto simp: rbind_eq_Inr of_get_eq_Inr)
  then have pid: "p_id p = ci_product ci"
    by (rule rget_Some_key)
  show ?case
  proof (cases "p_stock p < ci_quantity ci")
    case True
    then have "d1 = d" "short \<noteq> None"
      using Cons.prems(1) p by auto
    then show ?thesis
      by (intro exI [of _ "products d"] exI [of _ "[]"]) (auto simp: took_def)
  next
    case False
    let ?q = "ci_quantity ci"
    let ?ps = "rupd p_id (products d) (ci_product ci) (map_stock (\<lambda>s. s - ?q))"
    let ?e = "create_order_item oid p ?q (upd_product (p_id p) (map_stock (\<lambda>s. s - ?q)) d)"
    let ?i = "\<lparr>oi_id = next_id d, oi_order = oid, oi_product = Some (ci_product ci), oi_product_name = p_name p,
       oi_quantity = ?q, oi_price = p_price p\<rparr>"
    have e: "?e = d\<lparr>products := ?ps, order_items := order_items d @ [?i], next_id := Suc (next_id d)\<rparr>"
      using pid by (simp add: create_order_item_def upd_product_def)
    have dist: "keys_distinct p_id ?ps"
      using Cons.prems(2) by (simp add: stock_col.keys_bump)
    have "reserve_loop oid cis ?e = Inr (short, d1)"
      using Cons.prems(1) p False by simp
    from Cons.IH [OF this] dist obtain ps new where ih:
      "d1 = ?e\<lparr>products := ps, order_items := order_items ?e @ new, next_id := next_id ?e + length new\<rparr>"
      "took oid ?e new ps"
      "\<forall>i \<in> set new. \<exists>ci \<in> set cis. oi_quantity i = ci_quantity ci"
      "short = None \<longrightarrow> map (\<lambda>i. (oi_product i, oi_quantity i)) new
          = map (\<lambda>ci. (Some (ci_product ci), ci_quantity ci)) cis"
      unfolding e by auto
    have st: "stock_in ?ps k = stock_in (products d) k - item_qty k ?i" for k
      using stock_in_add [of "products d" "ci_product ci" "- ?q" k] p by (auto simp: item_qty_def)
    have none: "(rget p_id ?ps k = None) = (rget p_id (products d) k = None)" for k
      by (rule rget_None_keys) (simp add: stock_col.keys_bump)
    have t: "map p_id ps = map p_id ?ps"
      "\<forall>i \<in> set new. oi_order i = oid \<and> (\<exists>pid. oi_product i = Some pid \<and> rget p_id ?ps pid \<noteq> None)"
      "stock_in ps k = stock_in ?ps k - items_qty k new"
      "(\<forall>p \<in> set ?ps. 0 \<le> p_stock p) \<longrightarrow> (\<forall>p \<in> set ps. 0 \<le> p_stock p)" for k
      using ih(2) unfolding took_def e by simp_all
    have "took oid d (?i # new) ps"
      unfolding took_def
    proof (intro conjI)
      show "map p_id ps = map p_id (products d)"
        using t(1) by (simp only: stock_col.keys_bump)
      show "\<forall>i \<in> set (?i # new). oi_order i = oid \<and> (\<exists>pid. oi_product i = Some pid \<and> get_product d pid \<noteq> None)"
        using t(2) p by (simp add: none)
      show "\<forall>pid. stock_in ps pid = stock_in (products d) pid - items_qty pid (?i # new)"
        using t(3) st by simp
      show "(\<forall>p \<in> set (products d). 0 \<le> p_stock p) \<longrightarrow> (\<forall>p \<in> set ps. 0 \<le> p_stock p)"
      proof
        assume "\<forall>p \<in> set (products d). 0 \<le> p_stock p"
        then have "\<forall>p \<in> set ?ps. 0 \<le> p_stock p"
          using False by (intro stock_nonneg_take [OF Cons.prems(2) p]) simp_all
        with t(4) show "\<forall>p \<in> set ps. 0 \<le> p_stock p" ..
      qed
    qed
    then show ?thesis
      using ih(1,3,4) unfolding e by (intro exI [of _ ps] exI [of _ "?i # new"]) auto
  qed
qed

section \<open>Reservations after a change of orders or items\<close>

lemma reserved_cong:
  "order_items d' = order_items d \<Longrightarrow> (\<And>k. holding (orders d') k = holding (orders d) k) \<Longrightarrow>
     reserved d' pid = reserved d pid"
  by (simp add: reserved_def)

lemma items_qty_filter_or:
  "items_qty pid (filter P is) = items_qty pid (filter (\<lambda>i. P i \<and> oi_order i \<noteq> oid) is)
     + items_qty pid (filter (\<lambda>i. P i \<and> oi_order i = oid) is)"
  by (induction "is") auto

lemma reserved_split:
  "reserved d pid = items_qty pid (filter (\<lambda>i. holding (orders d) (oi_order i) \<and> oi_order i \<noteq> oid) (order_items d))
     + (if holding (orders d) oid then items_qty pid (items_of d oid) else 0)"
proof -
  have "filter (\<lambda>i. holding (orders d) (oi_order i) \<and> oi_order i = oid) (order_items d)
    = (if holding (orders d) oid then items_of d oid else [])"
    by (auto simp: items_of_def filter_empty_conv intro!: filter_cong)
  then show ?thesis
    unfolding reserved_def by (subst items_qty_filter_or [of _ _ _ oid]) simp
qed

lemma reserved_change:
  assumes "\<And>k. k \<noteq> oid \<Longrightarrow> holding (orders d') k = holding (orders d) k"
    and "filter (\<lambda>i. oi_order i \<noteq> oid) (order_items d') = filter (\<lambda>i. oi_order i \<noteq> oid) (order_items d)"
  shows "reserved d' pid - (if holding (orders d') oid then items_qty pid (items_of d' oid) else 0)
    = reserved d pid - (if holding (orders d) oid then items_qty pid (items_of d oid) else 0)"
proof -
  have *: "filter (\<lambda>i. holding (orders e) (oi_order i) \<and> oi_order i \<noteq> oid) (order_items e)
    = filter (\<lambda>i. holding (orders e) (oi_order i)) (filter (\<lambda>i. oi_order i \<noteq> oid) (order_items e))" for e
    by (simp add: conj_commute)
  have "filter (\<lambda>i. holding (orders d') (oi_order i)) (filter (\<lambda>i. oi_order i \<noteq> oid) (order_items d))
    = filter (\<lambda>i. holding (orders d) (oi_order i)) (filter (\<lambda>i. oi_order i \<noteq> oid) (order_items d))"
    using assms(1) by (intro filter_cong) auto
  then show ?thesis
    unfolding reserved_split [of d' pid oid] reserved_split [of d pid oid] * assms(2) by simp
qed

lemma holding_upd_order:
  assumes "\<And>r. o_id (f r) = o_id r"
  shows "holding (rupd o_id os oid f) k = (if k = oid then (case rget o_id os oid of None \<Rightarrow> False
     | Some ord \<Rightarrow> holds_stock (o_status (f ord))) else holding os k)"
  using assms by (simp add: holding_def rget_rupd split: option.split)

end
