(* ===== verification/Order_Contract.thy ===== *)
theory Order_Contract
  imports Order_Stock Points_Exact
begin

text \<open>
  The contract of the operations on orders: \<open>shop_inv\<close> is kept (the point ledger is
  balanced, no stock is negative, rows refer to rows that exist, ids are fresh) and
  \<open>stock_total\<close> of every product is unchanged.  The first sections give the contract of
  the building blocks (a reservation, a release, a change of status, a new order row, a
  point operation, a write to tables that do not matter); the last one states it as the
  locale \<open>shop_op\<close>, which every operation that touches orders interprets.
\<close>

section \<open>The invariant\<close>

definition products_ok :: "product list \<Rightarrow> bool" where
  "products_ok ps \<longleftrightarrow> keys_distinct p_id ps \<and> (\<forall>p \<in> set ps. 0 \<le> p_stock p)"

text \<open>Order rows: \<open>uks\<close> are the ids of the users, \<open>n\<close> the next id.\<close>

definition orders_ok :: "pk list \<Rightarrow> pk \<Rightarrow> order list \<Rightarrow> bool" where
  "orders_ok uks n os \<longleftrightarrow> keys_distinct o_id os
     \<and> (\<forall>ord \<in> set os. o_id ord < n \<and> (\<forall>uid. o_user ord = Some uid \<longrightarrow> uid \<in> set uks))"

text \<open>Order items: \<open>pks\<close> are the ids of the products.\<close>

definition items_ok :: "pk list \<Rightarrow> pk \<Rightarrow> order_item list \<Rightarrow> bool" where
  "items_ok pks n is \<longleftrightarrow> (\<forall>i \<in> set is. oi_order i < n \<and> 0 \<le> oi_quantity i
     \<and> (\<forall>pid. oi_product i = Some pid \<longrightarrow> pid \<in> set pks))"

definition cart_items_ok :: "cart_item list \<Rightarrow> bool" where
  "cart_items_ok cis \<longleftrightarrow> (\<forall>i \<in> set cis. 0 \<le> ci_quantity i)"

definition stock_inv :: "db \<Rightarrow> bool" where
  "stock_inv d \<longleftrightarrow> products_ok (products d) \<and> orders_ok (map u_id (users d)) (next_id d) (orders d)
     \<and> items_ok (map p_id (products d)) (next_id d) (order_items d) \<and> cart_items_ok (cart_items d)"

definition shop_inv :: "db \<Rightarrow> bool" where
  "shop_inv d \<longleftrightarrow> ledger_inv d \<and> stock_inv d"

lemma orders_ok_mono: "orders_ok uks n os \<Longrightarrow> n \<le> m \<Longrightarrow> orders_ok uks m os"
  by (auto simp: orders_ok_def intro: less_le_trans)

lemma items_ok_mono: "items_ok pks n is \<Longrightarrow> n \<le> m \<Longrightarrow> items_ok pks m is"
  by (auto simp: items_ok_def intro: less_le_trans)

lemma orders_ok_rupd:
  assumes "orders_ok uks n os" and f: "\<And>r. o_id (f r) = o_id r" "\<And>r. o_user (f r) = o_user r"
  shows "orders_ok uks n (rupd o_id os oid f)"
  using assms(1) f unfolding orders_ok_def by (auto simp: map_key_rupd dest!: set_rupdD)

lemma shop_invI:
  assumes "ledger_inv d" "products_ok (products d)" "orders_ok (map u_id (users d)) (next_id d) (orders d)"
    "items_ok (map p_id (products d)) (next_id d) (order_items d)" "cart_items_ok (cart_items d)"
  shows "shop_inv d"
  using assms by (simp add: shop_inv_def stock_inv_def)

lemma shop_invD:
  assumes "shop_inv d"
  shows "ledger_inv d" "products_ok (products d)" "orders_ok (map u_id (users d)) (next_id d) (orders d)"
    "items_ok (map p_id (products d)) (next_id d) (order_items d)" "cart_items_ok (cart_items d)"
  using assms by (simp_all add: shop_inv_def stock_inv_def)

definition shop_change :: "db \<Rightarrow> db \<Rightarrow> bool" where
  "shop_change d d' \<longleftrightarrow> shop_inv d' \<and> (\<forall>pid. stock_total d' pid = stock_total d pid)"

lemma shop_change_refl: "shop_inv d \<Longrightarrow> shop_change d d"
  by (simp add: shop_change_def)

lemma shop_change_trans: "shop_change d e \<Longrightarrow> shop_change e f \<Longrightarrow> shop_change d f"
  by (simp add: shop_change_def)

lemma shop_change_inv: "shop_change d d' \<Longrightarrow> shop_inv d'"
  by (simp add: shop_change_def)

lemma shop_inv_ledger: "shop_inv d \<Longrightarrow> ledger_inv d"
  by (simp add: shop_inv_def)

lemma shop_inv_product:
  "shop_inv d \<Longrightarrow> keys_distinct p_id (products d)"
  "shop_inv d \<Longrightarrow> p \<in> set (products d) \<Longrightarrow> 0 \<le> p_stock p"
  by (simp_all add: shop_inv_def stock_inv_def products_ok_def)

lemma shop_inv_order:
  assumes "shop_inv d" and "get_order d oid = Some ord"
  shows "oid < next_id d" "o_user ord = Some uid \<Longrightarrow> order_owned d (Some oid) uid"
    "o_user ord = Some uid \<Longrightarrow> \<exists>u. get_user d uid = Some u"
proof -
  have ok: "o_id ord < next_id d \<and> (\<forall>uid. o_user ord = Some uid \<longrightarrow> uid \<in> u_id ` set (users d))"
    using shop_invD(3) [OF assms(1)] rget_Some_in [OF assms(2)] by (simp add: orders_ok_def)
  then show "oid < next_id d"
    using rget_Some_key [OF assms(2)] by simp
  show "order_owned d (Some oid) uid" if "o_user ord = Some uid"
    using assms(2) that by (simp add: order_owned_def)
  show "\<exists>u. get_user d uid = Some u" if "o_user ord = Some uid"
    using ok that rget_None_iff [of u_id "users d" uid] by (cases "get_user d uid") auto
qed

text \<open>
  The ledger does not depend on anything but users, histories, the id sequence and the
  owners of orders.
\<close>

lemma wf_history_orders:
  assumes "wf_history t n os h" and "n \<le> n'"
    and "\<And>k ord. rget o_id os k = Some ord \<Longrightarrow> \<exists>ord'. rget o_id os' k = Some ord' \<and> o_user ord' = o_user ord"
  shows "wf_history t n' os' h"
  unfolding wf_history_def
proof (intro conjI impI allI)
  fix k
  assume "ph_type h = Use" "ph_order h = Some k"
  then obtain ord where "rget o_id os k = Some ord" "o_user ord = Some (ph_user h)"
    using assms(1) by (auto simp: wf_history_def)
  then show "\<exists>ord. rget o_id os' k = Some ord \<and> o_user ord = Some (ph_user h)"
    using assms(3) by fastforce
qed (use assms(1,2) in \<open>auto simp: wf_history_def\<close>)

lemma ledger_inv_frame:
  assumes "ledger_inv d" and "users d' = users d" "histories d' = histories d" "next_id d \<le> next_id d'"
    and "\<And>k ord. get_order d k = Some ord \<Longrightarrow> \<exists>ord'. get_order d' k = Some ord' \<and> o_user ord' = o_user ord"
  shows "ledger_inv d'"
proof -
  have "wf_history (histories d) (next_id d') (orders d') h" if "h \<in> set (histories d)" for h
    using assms(1,4,5) that by (auto simp: ledger_inv_def ledger_wf_def intro: wf_history_orders)
  then have "ledger_wf d'"
    using assms(1,3) by (simp add: ledger_inv_def ledger_wf_def)
  moreover have "accounts_ok d'"
    using assms(1) unfolding ledger_inv_def accounts_ok_def assms(2,3) by blast
  ultimately show ?thesis
    using assms(1,3) by (simp add: ledger_inv_def)
qed

section \<open>Building blocks\<close>

text \<open>Writes to carts, payments, logs, messages and the cache.\<close>

definition shop_inert :: "db \<Rightarrow> db \<Rightarrow> bool" where
  "shop_inert d d' \<longleftrightarrow> users d' = users d \<and> products d' = products d \<and> orders d' = orders d
     \<and> order_items d' = order_items d \<and> histories d' = histories d \<and> next_id d \<le> next_id d'
     \<and> ci_quantity ` set (cart_items d') \<subseteq> ci_quantity ` set (cart_items d)"

lemma inert_change:
  assumes inv: "shop_inv d" and inert: "shop_inert d d'"
  shows "shop_change d d'"
proof -
  have n: "next_id d \<le> next_id d'" and eq: "users d' = users d" "products d' = products d" "orders d' = orders d"
    "order_items d' = order_items d" "histories d' = histories d"
    and ci: "ci_quantity ` set (cart_items d') \<subseteq> ci_quantity ` set (cart_items d)"
    using inert by (simp_all add: shop_inert_def)
  note D = shop_invD [OF inv]
  have "shop_inv d'"
  proof (rule shop_invI)
    show "ledger_inv d'"
      using D(1) eq(1,5) n by (rule ledger_inv_frame) (simp add: eq)
    show "cart_items_ok (cart_items d')"
      using D(5) ci unfolding cart_items_ok_def by fastforce
  qed (use D n in \<open>simp_all add: eq orders_ok_mono items_ok_mono\<close>)
  then show ?thesis
    by (simp add: shop_change_def stock_total_def reserved_def eq)
qed

text \<open>A point operation.\<close>

lemma user_ids_frame:
  assumes "points_frame d d'"
  shows "map u_id (users d') = map u_id (users d)"
proof -
  have "map fst (map (\<lambda>u. (u_id u, u_email u, u_membership u)) (users d'))
      = map fst (map (\<lambda>u. (u_id u, u_email u, u_membership u)) (users d))"
    using assms by (simp only: points_frame_def)
  then show ?thesis
    by (simp add: comp_def)
qed

lemma ledger_shop_change:
  assumes inv: "shop_inv d" and ch: "ledger_change d d'"
  shows "shop_change d d'"
proof -
  have fr: "points_frame d d'" and n: "next_id d \<le> next_id d'" and led: "ledger_inv d'"
    using ch by (auto simp: ledger_change_def append_only_def)
  note eq = points_frame_eqs [OF fr]
  show ?thesis
    unfolding shop_change_def
    using led n shop_invD [OF inv]
    by (auto simp: stock_total_def reserved_def eq user_ids_frame [OF fr] orders_ok_mono items_ok_mono
        intro!: shop_invI)
qed

text \<open>A change of an order row that does not change what it holds.\<close>

lemma order_row_change:
  assumes inv: "shop_inv d" and f: "\<And>r. o_id (f r) = o_id r" "\<And>r. o_user (f r) = o_user r"
    and held: "\<And>ord. get_order d oid = Some ord \<Longrightarrow> holds_stock (o_status (f ord)) = holds_stock (o_status ord)"
  shows "shop_change d (upd_order oid f d)"
proof -
  have "ledger_inv (upd_order oid f d)"
    using shop_invD(1) [OF inv] by (rule ledger_inv_frame) (auto simp: rget_rupd f)
  moreover have "holding (rupd o_id (orders d) oid f) k = holding (orders d) k" for k
    unfolding holding_upd_order [OF f(1)] by (cases "get_order d oid") (simp_all add: holding_def held)
  ultimately show ?thesis
    unfolding shop_change_def using shop_invD [OF inv]
    by (auto simp: stock_total_def reserved_def intro!: shop_invI orders_ok_rupd f)
qed

text \<open>A new order row: no item refers to its id yet.\<close>

lemma holding_fresh:
  "k \<noteq> o_id ord \<Longrightarrow> holding (os @ [ord]) k = holding os k"
  by (simp add: holding_def split: option.split)

lemma new_order_change:
  assumes inv: "shop_inv d" and ord: "o_id ord = next_id d" "o_user ord = Some uid" "get_user d uid \<noteq> None"
  shows "shop_change d (d\<lparr>orders := orders d @ [ord], next_id := Suc (next_id d)\<rparr>)" (is "shop_change d ?e")
proof -
  note D = shop_invD [OF inv]
  have fresh: "next_id d \<notin> o_id ` set (orders d)"
    using D(3) by (auto simp: orders_ok_def)
  have led: "ledger_inv ?e"
    using D(1) by (rule ledger_inv_frame) auto
  have items: "oi_order i \<noteq> o_id ord" if "i \<in> set (order_items d)" for i
    using D(4) that ord(1) by (auto simp: items_ok_def)
  have "reserved ?e pid = reserved d pid" for pid
    unfolding reserved_def
    by (intro arg_cong [of _ _ "items_qty pid"] filter_cong) (simp_all add: holding_fresh items)
  moreover have "uid \<in> set (map u_id (users d))"
    using ord(3) by (auto simp: rget_None_iff)
  then have "orders_ok (map u_id (users d)) (Suc (next_id d)) (orders d @ [ord])"
    using orders_ok_mono [OF D(3), of "Suc (next_id d)"] fresh ord(1,2) by (auto simp: orders_ok_def)
  then have "shop_inv ?e"
    using D led items_ok_mono [OF D(4), of "Suc (next_id d)"] by (intro shop_invI) simp_all
  ultimately show ?thesis
    by (simp add: shop_change_def stock_total_def)
qed

text \<open>Reservation for an order that holds stock.\<close>

lemma reserve_change:
  assumes inv: "shop_inv d" and run: "reserve_loop oid cis d = Inr (short, d1)"
    and hold: "holding (orders d) oid" and cis: "\<forall>ci \<in> set cis. 0 \<le> ci_quantity ci"
  shows "shop_change d d1" "orders d1 = orders d" "users d1 = users d" "histories d1 = histories d"
    "carts d1 = carts d" "cart_items d1 = cart_items d" "payments d1 = payments d" "next_id d \<le> next_id d1"
proof -
  obtain ps new where eff:
    "d1 = d\<lparr>products := ps, order_items := order_items d @ new, next_id := next_id d + length new\<rparr>"
    "took oid d new ps" "\<forall>i \<in> set new. \<exists>ci \<in> set cis. oi_quantity i = ci_quantity ci"
    using reserve_loop_effect [OF run shop_inv_product(1) [OF inv]] by blast
  note D = shop_invD [OF inv]
  have t: "map p_id ps = map p_id (products d)" "\<forall>i \<in> set new. oi_order i = oid
      \<and> (\<exists>pid. oi_product i = Some pid \<and> rget p_id (products d) pid \<noteq> None)"
    "\<And>pid. stock_in ps pid = stock_in (products d) pid - items_qty pid new"
    using eff(2) unfolding took_def by simp_all
  have "\<forall>p \<in> set ps. 0 \<le> p_stock p"
    using eff(2) D(2) unfolding took_def products_ok_def by simp
  then have ps: "products_ok ps"
    using D(2) t(1) by (simp add: products_ok_def)
  obtain ord where "get_order d oid = Some ord"
    using hold by (auto simp: holding_def split: option.splits)
  then have oid: "oid < next_id d"
    by (rule shop_inv_order(1) [OF inv])
  have led: "ledger_inv d1"
    using D(1) by (rule ledger_inv_frame) (auto simp: eff(1))
  have "items_ok (map p_id (products d)) (next_id d) new"
    unfolding items_ok_def
  proof (intro ballI conjI)
    fix i assume i: "i \<in> set new"
    show "oi_order i < next_id d" "0 \<le> oi_quantity i"
      using t(2) oid eff(3) cis i by auto
    show "\<forall>pid. oi_product i = Some pid \<longrightarrow> pid \<in> set (map p_id (products d))"
      using t(2) i by (auto simp: rget_None_iff dest!: bspec)
  qed
  then have "items_ok (map p_id (products d)) (next_id d + length new) (order_items d @ new)"
    using D(4) unfolding items_ok_def by (auto intro: trans_less_add1)
  then have "shop_inv d1"
    using led ps D orders_ok_mono [OF D(3), of "next_id d + length new"] t(1)
    by (intro shop_invI) (simp_all add: eff(1))
  moreover have "stock_total d1 pid = stock_total d pid" for pid
  proof -
    have "filter (\<lambda>i. holding (orders d) (oi_order i)) new = new"
      using t(2) hold by (intro filter_True) simp
    then show ?thesis
      using t(3) by (simp add: stock_total_def reserved_def eff(1))
  qed
  ultimately show "shop_change d d1"
    by (simp add: shop_change_def)
qed (use reserve_loop_effect [OF run shop_inv_product(1) [OF inv]] in auto)

text \<open>Release: the stock of the items goes back and the order no longer holds any.\<close>

lemma release_change:
  assumes inv: "shop_inv d" and ord: "get_order d oid = Some ord" and held: "holds_stock (o_status ord)"
    and f: "\<And>r. o_id (f r) = o_id r" "\<And>r. o_user (f r) = o_user r" "\<not> holds_stock (o_status (f ord))"
  shows "shop_change d (upd_order oid f (d\<lparr>products := restock (items_of d oid) (products d)\<rparr>))"
    (is "shop_change d ?e")
proof -
  note D = shop_invD [OF inv]
  have led: "ledger_inv ?e"
    using D(1) by (rule ledger_inv_frame) (auto simp: rget_rupd f)
  have "\<forall>i \<in> set (items_of d oid). 0 \<le> oi_quantity i"
    using D(4) by (auto simp: items_of_def items_ok_def)
  then have "products_ok (restock (items_of d oid) (products d))"
    using D(2) restock_nonneg [of "products d" "items_of d oid"] by (simp add: products_ok_def)
  then have "shop_inv ?e"
    using D led by (intro shop_invI) (simp_all add: orders_ok_rupd f)
  moreover have "stock_total ?e pid = stock_total d pid" for pid
  proof -
    have "reserved ?e pid = reserved d pid - items_qty pid (items_of d oid)"
      using reserved_change [of oid ?e d pid] ord held f
      by (simp add: holding_upd_order [OF f(1)]) (simp add: holding_def)
    moreover have "items_qty pid (items_of d oid) = 0" if "get_product d pid = None"
    proof -
      have "item_qty pid i = 0" if "i \<in> set (items_of d oid)" for i
        using D(4) that \<open>get_product d pid = None\<close>
        by (auto simp: item_qty_def items_of_def items_ok_def rget_None_iff)
      then have "map (item_qty pid) (items_of d oid) = map (\<lambda>_. 0) (items_of d oid)"
        by simp
      then show ?thesis
        by (simp only: items_qty_def sum_list_0)
    qed
    ultimately show ?thesis
      by (auto simp: stock_total_def stock_in_restock)
  qed
  ultimately show ?thesis
    by (simp add: shop_change_def)
qed

end
