(* ===== verification/Order_Ops.thy ===== *)
theory Order_Ops
  imports Order_Contract
begin

text \<open>
  What each operation on unpaid orders does, as a case rule, and its contract.  The
  locale \<open>shop_op\<close> is the interface that the transition system of the shop relies
  on; every operation here interprets it.
\<close>

section \<open>The interface\<close>

locale shop_op =
  fixes f :: "'x \<Rightarrow> db \<Rightarrow> exn + 'a \<times> db"
    and pre :: "'x \<Rightarrow> db \<Rightarrow> bool"
  assumes change: "shop_inv d \<Longrightarrow> pre x d \<Longrightarrow> f x d = Inr (r, d') \<Longrightarrow> shop_change d d'"
begin

lemma keeps_inv: "shop_inv d \<Longrightarrow> pre x d \<Longrightarrow> f x d = Inr (r, d') \<Longrightarrow> shop_inv d'"
  using change by (simp add: shop_change_def)

lemma conserves:
  "shop_inv d \<Longrightarrow> pre x d \<Longrightarrow> f x d = Inr (r, d') \<Longrightarrow> stock_total d' pid = stock_total d pid"
  using change by (simp add: shop_change_def)

lemma stock_nonneg:
  assumes "shop_inv d" "pre x d" "f x d = Inr (r, d')" "p \<in> set (products d')"
  shows "0 \<le> p_stock p"
  using shop_inv_product(2) [OF keeps_inv [OF assms(1-3)] assms(4)] .

end

section \<open>Tables that do not matter\<close>

lemma inert_refl [simp]: "shop_inert d d"
  by (simp add: shop_inert_def)

lemma inert_trans: "shop_inert d e \<Longrightarrow> shop_inert e f \<Longrightarrow> shop_inert d f"
  unfolding shop_inert_def by (metis (no_types, lifting) order_trans)

lemma inert_simps [simp]:
  "shop_inert d (cart_clear cid d)" "shop_inert d (upd_cart cid g d)" "shop_inert d (close_payments oid s d)"
  "shop_inert d (add_log pid t m x d)" "shop_inert d (upd_payment pid h d)" "shop_inert d (try_publish ms d)"
  "shop_inert d (d\<lparr>outbox := ob\<rparr>)" "shop_inert d (d\<lparr>payments := ps\<rparr>)" "shop_inert d (d\<lparr>cache := ch\<rparr>)"
  by (auto simp: shop_inert_def cart_clear_def upd_cart_def close_payments_def)

lemma inert_move [simp]: "shop_inert d (move_cart_items cid k d)"
  by (auto simp: shop_inert_def move_cart_items_def Let_def image_image)

lemma inert_restore_cart: "restore_cart cid d = Inr (x, d') \<Longrightarrow> shop_inert d d'"
  by (auto simp: restore_cart_def activate_cart_def rbind_eq_Inr of_get_eq_Inr split: option.splits if_splits)

lemma inert_fold:
  assumes "\<And>x d. shop_inert d (f x d)"
  shows "shop_inert d (fold f xs d)"
proof (induction xs arbitrary: d)
  case (Cons x xs)
  show ?case
    using inert_trans [OF assms Cons.IH] by simp
qed simp

section \<open>Creating\<close>

lemma create_order_row_Inr:
  assumes "create_order_row usr cart tot ship pts final postal now d = Inr (ord, d')"
  shows "0 \<le> pts" "d' = d\<lparr>orders := orders d @ [ord], next_id := Suc (next_id d)\<rparr>" "o_id ord = next_id d"
    "o_user ord = Some (u_id usr)" "o_status ord = Pending" "o_total_amount ord = tot" "o_used_points ord = pts"
    "o_final_amount ord = final" "o_earn_rate ord = get_earn_rate usr" "o_earned_points ord = 0"
    "o_shipping_fee ord = sh_fee ship" "o_additional_fee ord = sh_additional ship" "o_cart ord = cart"
    "o_order_number ord = generate_order_number now (next_id d)"
  using assms by (auto simp: create_order_row_def Let_def split: if_splits)

lemma create_order_row_change:
  assumes "create_order_row usr cart tot ship pts final postal now d = Inr (ord, d')"
    and "shop_inv d" "get_user d (u_id usr) \<noteq> None"
  shows "shop_change d d'" "get_order d' (o_id ord) = Some ord"
proof -
  note row = create_order_row_Inr [OF assms(1)]
  show "shop_change d d'"
    unfolding row(2) using assms(2) row(3,4) assms(3) by (rule new_order_change)
  have "next_id d \<notin> o_id ` set (orders d)"
    using shop_invD(3) [OF assms(2)] by (auto simp: orders_ok_def)
  then have "rget o_id (orders d) (next_id d) = None"
    by (simp add: rget_None_iff)
  then show "get_order d' (o_id ord) = Some ord"
    by (simp add: row(2,3))
qed

lemma holding_get: "get_order d oid = Some ord \<Longrightarrow> holds_stock (o_status ord) \<Longrightarrow> holding (orders d) oid"
  by (simp add: holding_def)

lemma cart_qty_nonneg:
  assumes "shop_inv d"
  shows "\<forall>ci \<in> set (by_product (cart_items_of d cid)). 0 \<le> ci_quantity ci"
  using shop_invD(5) [OF assms] by (auto simp: by_product_def cart_items_of_def cart_items_ok_def)

lemma create_items_change:
  assumes "create_order_items_and_decrease_stock oid cid d = Inr (x, d')"
    and inv: "shop_inv d" and hold: "holding (orders d) oid"
  shows "shop_change d d'" "orders d' = orders d" "users d' = users d" "histories d' = histories d"
proof -
  have run: "reserve_loop oid (by_product (cart_items_of d cid)) d = Inr (None, d')"
    using assms(1)
    by (auto simp: create_order_items_and_decrease_stock_def decrease_is_reserve split: sum.splits option.splits)
  note ch = reserve_change [OF inv run hold cart_qty_nonneg [OF inv]]
  show "shop_change d d'" "orders d' = orders d" "users d' = users d" "histories d' = histories d"
    using ch by simp_all
qed

lemma process_point_usage_change:
  assumes "process_point_usage uid ord pts tot final now d = Inr (x, d')"
    and inv: "shop_inv d" and ord: "get_order d (o_id ord) = Some ord" "o_user ord = Some uid"
  shows "shop_change d d'" "\<exists>r. use_points_fifo uid pts Use (Some (o_id ord)) (order_info ord @
      [(''total_amount'', JStr (str_int tot)), (''final_amount'', JStr (str_int final))]) now d = Inr (r, d')
      \<and> ur_success r"
proof -
  obtain r where r: "use_points_fifo uid pts Use (Some (o_id ord)) (order_info ord @
      [(''total_amount'', JStr (str_int tot)), (''final_amount'', JStr (str_int final))]) now d = Inr (r, d')"
    "ur_success r"
    using assms(1) by (auto simp: process_point_usage_def rbind_eq_Inr split: if_splits)
  have "ledger_change d d'"
    using shop_invD(1) [OF inv] r(1) by (rule use_points_fifo_change) (use ord in \<open>simp add: order_owned_def\<close>)
  then show "shop_change d d'"
    by (rule ledger_shop_change [OF inv])
  show "\<exists>r. use_points_fifo uid pts Use (Some (o_id ord)) (order_info ord @
      [(''total_amount'', JStr (str_int tot)), (''final_amount'', JStr (str_int final))]) now d = Inr (r, d')
      \<and> ur_success r"
    using r by blast
qed

lemma create_order_from_cart_Inr:
  assumes "create_order_from_cart usr cid postal pts now d = Inr (ord, d')"
  obtains ship tot pay d1 d2 d3 where
    "tot = get_total_amount d cid" "ship = calculate_fee tot postal"
    "pay = tot + sh_fee ship + sh_additional ship" "validate_order_points usr pts pay = Inr ()"
    "create_order_row usr None tot ship pts (max 0 (pay - pts)) postal now d = Inr (ord, d1)"
    "create_order_items_and_decrease_stock (o_id ord) cid d1 = Inr ((), d2)"
    "if pts > 0 then process_point_usage (u_id usr) ord pts tot (max 0 (pay - pts)) now d2 = Inr ((), d3)
     else d3 = d2"
    "d' = cart_clear cid d3" "cart_items_of d cid \<noteq> []"
proof -
  let ?tot = "get_total_amount d cid"
  let ?ship = "calculate_fee ?tot postal"
  let ?pay = "?tot + sh_fee ?ship + sh_additional ?ship"
  have ne: "cart_items_of d cid \<noteq> []"
    using assms by (auto simp: create_order_from_cart_def rbind_eq_Inr of_get_eq_Inr)
  obtain d1 d2 d3 where *: "validate_order_points usr pts ?pay = Inr ()"
    "create_order_row usr None ?tot ?ship pts (max 0 (?pay - pts)) postal now d = Inr (ord, d1)"
    "create_order_items_and_decrease_stock (o_id ord) cid d1 = Inr ((), d2)"
    "(if pts > 0 then process_point_usage (u_id usr) ord pts ?tot (max 0 (?pay - pts)) now d2 else Inr ((), d2))
       = Inr ((), d3)" "d' = cart_clear cid d3"
    using assms ne by (auto simp: create_order_from_cart_def rbind_eq_Inr of_get_eq_Inr Let_def split: sum.splits)
  show thesis
    using that [OF refl refl refl *(1,2,3) _ *(5) ne] *(4) by (auto split: if_splits)
qed

lemma create_order_from_cart_change:
  assumes "create_order_from_cart usr cid postal pts now d = Inr (ord, d')"
    and inv: "shop_inv d" and usr: "get_user d (u_id usr) \<noteq> None"
  shows "shop_change d d'"
  using assms(1)
proof (cases rule: create_order_from_cart_Inr)
  case (1 ship tot pay d1 d2 d3)
  note row = create_order_row_Inr [OF 1(5)] and c1 = create_order_row_change [OF 1(5) inv usr]
  have "holding (orders d1) (o_id ord)"
    using c1(2) row(5) by (simp add: holding_def)
  note c2 = create_items_change [OF 1(6) shop_change_inv [OF c1(1)] this]
  have "shop_change d2 d3"
  proof (cases "pts > 0")
    case True
    then show ?thesis
      using 1(7) c1(2) c2(2) row(4)
      by (intro process_point_usage_change(1) [OF _ shop_change_inv [OF c2(1)]]) simp_all
  next
    case False
    then show ?thesis
      using 1(7) shop_change_refl [OF shop_change_inv [OF c2(1)]] by simp
  qed
  moreover have "shop_change d3 d'"
    unfolding 1(8) using shop_change_inv [OF calculation] by (rule inert_change) simp
  ultimately show ?thesis
    using c1(1) c2(1) shop_change_trans by blast
qed

lemma publish_caught:
  "(case publish m d of Inl e \<Rightarrow> Inr ((x, False), d) | Inr d' \<Rightarrow> Inr ((x, True), d'))
     = Inr ((x, broker_up d), try_publish m d)"
  by (simp add: publish_def try_publish_def)

lemma create_order_hybrid_Inr:
  assumes "create_order_hybrid usr cid postal pts now d = Inr ((ord, sent), d')"
  obtains ship tot pay d1 cart where
    "tot = get_total_amount d cid" "ship = calculate_fee tot postal"
    "pay = tot + sh_fee ship + sh_additional ship" "validate_order_points usr pts pay = Inr ()"
    "get_cart d cid = Some cart" "c_is_active cart" "cart_items_of d cid \<noteq> []"
    "create_order_row usr (Some cid) tot ship pts (max 0 (pay - pts)) postal now d = Inr (ord, d1)"
    "d' = try_publish (ProcessOrder (o_id ord) cid pts) (upd_cart cid (\<lambda>c. c\<lparr>c_is_active := False\<rparr>) d1)"
    "sent = broker_up d"
proof -
  let ?tot = "get_total_amount d cid"
  let ?ship = "calculate_fee ?tot postal"
  let ?pay = "?tot + sh_fee ?ship + sh_additional ?ship"
  obtain cart d1 d2 where *: "validate_order_points usr pts ?pay = Inr ()" "get_cart d cid = Some cart"
    "c_is_active cart" "cart_items_of d cid \<noteq> []"
    "create_order_row usr (Some cid) ?tot ?ship pts (max 0 (?pay - pts)) postal now d = Inr (ord, d1)"
    "cart_deactivate cid d1 = Inr ((), d2)"
    "sent = broker_up d2" "d' = try_publish (ProcessOrder (o_id ord) cid pts) d2"
    using assms
    by (auto simp: create_order_hybrid_def rbind_eq_Inr of_get_eq_Inr Let_def publish_caught
        split: if_split_asm sum.splits)
  have d2: "d2 = upd_cart cid (\<lambda>c. c\<lparr>c_is_active := False\<rparr>) d1"
    using *(6) by (auto simp: cart_deactivate_def cart_clean_def rbind_eq_Inr of_get_eq_Inr split: if_splits)
  have "broker_up d2 = broker_up d"
    using create_order_row_Inr(2) [OF *(5)] d2 by (simp add: upd_cart_def)
  then have "sent = broker_up d" "d' = try_publish (ProcessOrder (o_id ord) cid pts) d2"
    using *(7,8) by simp_all
  then show thesis
    using that [OF refl refl refl *(1,2,3,4,5)] d2 by simp
qed

lemma create_order_hybrid_change:
  assumes "create_order_hybrid usr cid postal pts now d = Inr (r, d')"
    and inv: "shop_inv d" and usr: "get_user d (u_id usr) \<noteq> None"
  shows "shop_change d d'"
proof -
  obtain ord sent where r: "r = (ord, sent)"
    by (cases r)
  show ?thesis
    using assms(1) unfolding r
  proof (cases rule: create_order_hybrid_Inr)
    case (1 ship tot pay d1 cart)
    note c1 = create_order_row_change [OF 1(8) inv usr]
    have "shop_inert d1 d'"
      unfolding 1(9) by (rule inert_trans [of _ "upd_cart cid (\<lambda>c. c\<lparr>c_is_active := False\<rparr>) d1"]) simp_all
    then show ?thesis
      using inert_change [OF shop_change_inv [OF c1(1)]] shop_change_trans [OF c1(1)] by blast
  qed
qed

interpretation create_sync: shop_op
  "\<lambda>(usr, cid, postal, pts, now). create_order_from_cart usr cid postal pts now"
  "\<lambda>(usr, cid, postal, pts, now) d. get_user d (u_id usr) \<noteq> None"
  by unfold_locales (auto intro: create_order_from_cart_change)

interpretation create_async: shop_op
  "\<lambda>(usr, cid, postal, pts, now). create_order_hybrid usr cid postal pts now"
  "\<lambda>(usr, cid, postal, pts, now) d. get_user d (u_id usr) \<noteq> None"
  by unfold_locales (auto intro: create_order_hybrid_change)

section \<open>Cancelling\<close>

lemma close_payments_sel [simp]:
  "users (close_payments oid s d) = users d" "products (close_payments oid s d) = products d"
  "orders (close_payments oid s d) = orders d" "order_items (close_payments oid s d) = order_items d"
  "histories (close_payments oid s d) = histories d" "next_id (close_payments oid s d) = next_id d"
  "items_of (close_payments oid s d) k = items_of d k"
  by (simp_all add: close_payments_def items_of_def)

lemma live_close [simp]:
  assumes "s \<notin> set LIVE_PAYMENT_STATUSES"
  shows "live_payments oid (close_payments oid s d) = live_payments oid d"
proof -
  have "filter (\<lambda>p. pay_order p = oid \<and> pay_status p \<in> set LIVE_PAYMENT_STATUSES)
      (map (\<lambda>p. if pay_order p = oid \<and> pay_status p \<notin> set LIVE_PAYMENT_STATUSES then p\<lparr>pay_status := s\<rparr> else p) ps)
    = filter (\<lambda>p. pay_order p = oid \<and> pay_status p \<in> set LIVE_PAYMENT_STATUSES) ps" for ps
    using assms by (induction ps) auto
  then show ?thesis
    by (simp add: live_payments_def close_payments_def)
qed

text \<open>The state after the stock and the status of a cancelled order are written.\<close>

definition released :: "pk \<Rightarrow> (order \<Rightarrow> order) \<Rightarrow> db \<Rightarrow> db" where
  "released oid f d = upd_order oid f (d\<lparr>products := restock (items_of d oid) (products d)\<rparr>)"

lemma released_sel [simp]:
  "users (released oid f d) = users d" "products (released oid f d) = restock (items_of d oid) (products d)"
  "orders (released oid f d) = rupd o_id (orders d) oid f" "order_items (released oid f d) = order_items d"
  "histories (released oid f d) = histories d" "next_id (released oid f d) = next_id d"
  "payments (released oid f d) = payments d"
  by (simp_all add: released_def)

lemma set_order_status_sel [simp]:
  "o_id (set_order_status s now r) = o_id r" "o_user (set_order_status s now r) = o_user r"
  "o_status (set_order_status s now r) = s" "o_used_points (set_order_status s now r) = o_used_points r"
  "o_earned_points (set_order_status s now r) = o_earned_points r"
  "o_id (set_order_failed w now r) = o_id r" "o_user (set_order_failed w now r) = o_user r"
  "o_status (set_order_failed w now r) = Failed"
  by (simp_all add: set_order_status_def set_order_failed_def)

lemma cancel_order_eq:
  assumes "get_order d oid = Some ord" "o_status ord \<in> {Pending, Confirmed}" "live_payments oid d = []"
    "o_user ord = Some uid" "closed \<notin> set LIVE_PAYMENT_STATUSES"
    and d3: "d3 = released oid (set_order_status OCanceled now) (close_payments oid closed d)"
  shows "cancel_order oid closed now d = (if o_used_points ord > 0 \<and> order_used_points oid d
     then rbind (refund_used_points uid (o_used_points ord) oid CancelRefund (order_info ord) now d3) (\<lambda>_ d. Inr ((), d))
     else Inr ((), d3))"
proof -
  have "order_used_points oid d3 = order_used_points oid d"
    by (simp add: d3 order_used_points_def)
  moreover have "d3 = upd_order oid (set_order_status OCanceled now)
      (fold restore_item (items_of (close_payments oid closed d) oid) (close_payments oid closed d))"
    by (simp add: d3 released_def restore_items)
  moreover have "o_status ord \<in> set ORDER_UNPAID_STATUSES"
    using assms(2) by (auto simp: ORDER_UNPAID_STATUSES_def)
  ultimately show ?thesis
    using assms(1,3,4,5) by (simp add: cancel_order_def Let_def)
qed

lemma cancel_order_Inr:
  assumes "cancel_order oid closed now d = Inr (x, d')" and closed: "closed \<notin> set LIVE_PAYMENT_STATUSES"
  obtains ord uid d3 where "get_order d oid = Some ord" "o_status ord \<in> {Pending, Confirmed}"
    "live_payments oid d = []" "o_user ord = Some uid"
    "d3 = released oid (set_order_status OCanceled now) (close_payments oid closed d)"
    "if o_used_points ord > 0 \<and> order_used_points oid d
     then \<exists>r. refund_used_points uid (o_used_points ord) oid CancelRefund (order_info ord) now d3 = Inr (r, d')
     else d' = d3"
proof -
  obtain ord where ord: "get_order d oid = Some ord" "o_status ord \<in> {Pending, Confirmed}"
    using assms(1) by (auto simp: cancel_order_def rbind_eq_Inr of_get_eq_Inr ORDER_UNPAID_STATUSES_def split: if_splits)
  then have live: "live_payments oid d = []"
    using assms by (auto simp: cancel_order_def Let_def ORDER_UNPAID_STATUSES_def split: if_splits)
  with ord obtain uid where uid: "o_user ord = Some uid"
    using assms by (auto simp: cancel_order_def Let_def ORDER_UNPAID_STATUSES_def rbind_eq_Inr of_get_eq_Inr split: if_splits)
  let ?d3 = "released oid (set_order_status OCanceled now) (close_payments oid closed d)"
  show thesis
    using that [OF ord live uid refl] assms(1) cancel_order_eq [OF ord live uid closed refl, of now]
    by (auto simp: rbind_eq_Inr split: if_splits)
qed

lemma released_change:
  assumes "shop_inv d" "get_order d oid = Some ord" "holds_stock (o_status ord)"
    and "\<And>r. o_id (f r) = o_id r" "\<And>r. o_user (f r) = o_user r" "\<not> holds_stock (o_status (f ord))"
  shows "shop_change d (released oid f d)"
  unfolding released_def using assms by (rule release_change)

lemma order_owned_upd:
  assumes "order_owned d (Some oid) uid" and "orders d' = rupd o_id (orders d) k f"
    and "\<And>r. o_id (f r) = o_id r" "\<And>r. o_user (f r) = o_user r"
  shows "order_owned d' (Some oid) uid"
  using assms(1) by (auto simp: order_owned_def assms(2-4) rget_rupd split: option.splits)

lemma cancel_order_released:
  assumes inv: "shop_inv d" and ord: "get_order d oid = Some ord" and st: "o_status ord \<in> {Pending, Confirmed}"
    and uid: "o_user ord = Some uid"
    and d3_def: "d3 = released oid (set_order_status OCanceled now) (close_payments oid closed d)"
  shows "shop_change d d3" "order_owned d3 (Some oid) uid"
proof -
  have c1: "shop_change d (close_payments oid closed d)"
    using inv by (rule inert_change) simp
  have "holds_stock (o_status ord)"
    using st by auto
  then have "shop_change (close_payments oid closed d) d3"
    unfolding d3_def using shop_change_inv [OF c1] ord by (intro released_change) simp_all
  then show "shop_change d d3"
    using c1 shop_change_trans by blast
  show "order_owned d3 (Some oid) uid"
    using shop_inv_order(2) [OF inv ord uid] unfolding d3_def
    by (rule order_owned_upd [where k = oid and f = "set_order_status OCanceled now"]) simp_all
qed

lemma cancel_order_change:
  assumes "cancel_order oid closed now d = Inr (x, d')" and "closed \<notin> set LIVE_PAYMENT_STATUSES"
    and inv: "shop_inv d"
  shows "shop_change d d'"
  using assms(1,2)
proof (cases rule: cancel_order_Inr)
  case (1 ord uid d3)
  note rel = cancel_order_released [OF inv 1(1,2,4,5)]
  show ?thesis
  proof (cases "o_used_points ord > 0 \<and> order_used_points oid d")
    case True
    then obtain r where "refund_used_points uid (o_used_points ord) oid CancelRefund (order_info ord) now d3 = Inr (r, d')"
      using 1(6) by auto
    then have "ledger_change d3 d'"
      using rel(2) refund_used_points_change [OF shop_invD(1) [OF shop_change_inv [OF rel(1)]]] by blast
    then show ?thesis
      using ledger_shop_change [OF shop_change_inv [OF rel(1)]] rel(1) shop_change_trans by blast
  qed (use 1(6) rel(1) in simp)
qed

text \<open>Nothing can go wrong: an unpaid order without a live payment is cancelled.\<close>

lemma cancel_order_succeeds:
  assumes inv: "shop_inv d" and ord: "get_order d oid = Some ord" and st: "o_status ord \<in> {Pending, Confirmed}"
    and live: "live_payments oid d = []" and uid: "o_user ord = Some uid"
    and closed: "closed \<notin> set LIVE_PAYMENT_STATUSES"
  shows "\<exists>d'. cancel_order oid closed now d = Inr ((), d')"
proof -
  let ?d3 = "released oid (set_order_status OCanceled now) (close_payments oid closed d)"
  note rel = cancel_order_released [OF inv ord st uid refl, of now closed]
  have "\<exists>u. get_user ?d3 uid = Some u"
    using shop_inv_order(3) [OF inv ord uid] by simp
  then obtain u where u: "get_user ?d3 uid = Some u"
    by blast
  note eq = cancel_order_eq [OF ord st live uid closed refl, of now]
  show ?thesis
  proof (cases "o_used_points ord > 0 \<and> order_used_points oid d")
    case True
    then have pos: "0 < o_used_points ord"
      by simp
    obtain r d' where
      "refund_used_points uid (o_used_points ord) oid CancelRefund (order_info ord) now ?d3 = Inr (r, d')"
      using refund_succeeds [OF shop_invD(1) [OF shop_change_inv [OF rel(1)]] u rel(2) pos] by blast
    then show ?thesis
      using True by (simp add: eq)
  next
    case False
    then show ?thesis
      unfolding eq by (simp only: if_False) blast
  qed
qed

interpretation cancel_op: shop_op
  "\<lambda>(oid, closed, now). cancel_order oid closed now"
  "\<lambda>(oid, closed, now) d. closed \<notin> set LIVE_PAYMENT_STATUSES"
  by unfold_locales (auto intro: cancel_order_change)

section \<open>Processing\<close>

lemma fail_processing_Inr:
  assumes "fail_processing oid cid why now res d = Inr (r, d')"
  shows "r = res" "shop_inert (released oid (set_order_failed why now) d) d'"
    "\<exists>x. restore_cart cid (released oid (set_order_failed why now) d) = Inr (x, d')"
proof -
  obtain d1 x where d1: "fold_res give_back_item (items_of d oid) d = Inr d1" "r = res"
    "restore_cart cid (upd_order oid (set_order_failed why now) d1) = Inr (x, d')"
    using assms by (auto simp: fail_processing_def rbind_eq_Inr split: sum.splits)
  have eq: "upd_order oid (set_order_failed why now) d1 = released oid (set_order_failed why now) d"
    using give_back_items_Inr [OF d1(1)] by (simp add: released_def)
  show "r = res" "shop_inert (released oid (set_order_failed why now) d) d'"
    "\<exists>x. restore_cart cid (released oid (set_order_failed why now) d) = Inr (x, d')"
    using d1(2,3) inert_restore_cart [OF d1(3)] unfolding eq by auto
qed

lemma fail_processing_change:
  assumes run: "fail_processing oid cid why now res d = Inr (r, d')" and inv: "shop_inv d"
    and ord: "get_order d oid = Some ord" "holds_stock (o_status ord)"
  shows "shop_change d d'"
proof -
  have rel: "shop_change d (released oid (set_order_failed why now) d)"
    using inv ord by (rule released_change) simp_all
  then show ?thesis
    using inert_change [OF shop_change_inv [OF rel] fail_processing_Inr(2) [OF run]] shop_change_trans by blast
qed

text \<open>The four ways the task body ends.\<close>

lemma process_order_body_Inr:
  assumes "process_order_body oid cid pts now d = Inr (r, d')"
  obtains (already) ord where "get_order d oid = Some ord" "o_status ord \<noteq> Pending" "r = AlreadyProcessed" "d' = d"
  | (short) ord ci p d1 where "get_order d oid = Some ord" "o_status ord = Pending"
      "reserve_loop oid (by_product (cart_items_of d cid)) d = Inr (Some (ci, p), d1)"
      "fail_processing oid cid (StockShort (p_id p) (ci_quantity ci) (p_stock p)) now
         (InsufficientStock (p_name p)) d1 = Inr (r, d')"
  | (refused) ord uid res d1 d2 where "get_order d oid = Some ord" "o_status ord = Pending" "0 < pts"
      "reserve_loop oid (by_product (cart_items_of d cid)) d = Inr (None, d1)" "o_user ord = Some uid"
      "use_points_fifo uid pts Use (Some oid) (order_info ord) now d1 = Inr (res, d2)" "\<not> ur_success res"
      "fail_processing oid cid PointUseFailed now (PointDeductionFailed (ur_message res)) d2 = Inr (r, d')"
  | (finished) ord d1 d2 where "get_order d oid = Some ord" "o_status ord = Pending"
      "reserve_loop oid (by_product (cart_items_of d cid)) d = Inr (None, d1)" "r = Processed (o_order_number ord)"
      "if 0 < pts then \<exists>uid res. o_user ord = Some uid \<and> ur_success res
         \<and> use_points_fifo uid pts Use (Some oid) (order_info ord) now d1 = Inr (res, d2) else d2 = d1"
      "d' = cart_clear cid (upd_order oid (set_order_status Confirmed now) d2)"
proof -
  obtain ord where ord: "get_order d oid = Some ord"
    using assms by (auto simp: process_order_body_def rbind_eq_Inr of_get_eq_Inr)
  show thesis
  proof (cases "o_status ord = Pending")
    case False
    then show thesis
      using assms ord by (intro already) (auto simp: process_order_body_def)
  next
    case pend: True
    then obtain sh d1 where run: "reserve_loop oid (by_product (cart_items_of d cid)) d = Inr (sh, d1)"
      using assms ord by (auto simp: process_order_body_def rbind_eq_Inr of_get_eq_Inr)
    show thesis
    proof (cases sh)
      case (Some a)
      then show thesis
        using assms ord pend run short [OF ord pend, of "fst a" "snd a" d1]
        by (auto simp: process_order_body_def rbind_eq_Inr of_get_eq_Inr split: prod.splits)
    next
      case None
      show thesis
      proof (cases "0 < pts")
        case False
        then show thesis
          using assms ord pend run None finished [OF ord pend, of d1 d1]
          by (auto simp: process_order_body_def rbind_eq_Inr of_get_eq_Inr)
      next
        case True
        then obtain uid res d2 where u: "o_user ord = Some uid"
          "use_points_fifo uid pts Use (Some oid) (order_info ord) now d1 = Inr (res, d2)"
          using assms ord pend run None by (auto simp: process_order_body_def rbind_eq_Inr of_get_eq_Inr)
        then show thesis
          using assms ord pend run None True refused [OF ord pend True, of d1 uid res d2]
            finished [OF ord pend, of d1 d2]
          by (cases "ur_success res") (auto simp: process_order_body_def rbind_eq_Inr of_get_eq_Inr)
      qed
    qed
  qed
qed

lemma use_for_order_change:
  assumes inv: "shop_inv d" and ord: "get_order d oid = Some ord" "o_user ord = Some uid"
    and run: "use_points_fifo uid pts Use (Some oid) info now d = Inr (res, d2)"
  shows "shop_change d d2" "orders d2 = orders d" "\<not> ur_success res \<Longrightarrow> d2 = d"
proof -
  have ch: "ledger_change d d2"
    using shop_invD(1) [OF inv] run by (rule use_points_fifo_change) (use shop_inv_order(2) [OF inv ord] in simp)
  then show "shop_change d d2"
    by (rule ledger_shop_change [OF inv])
  show "orders d2 = orders d"
    using ch points_frame_eqs by (auto simp: ledger_change_def)
  show "d2 = d" if "\<not> ur_success res"
    using run that by (cases rule: use_points_fifo_Inr) auto
qed

lemma process_order_change:
  assumes run: "process_order_body oid cid pts now d = Inr (r, d')" and inv: "shop_inv d"
  shows "shop_change d d'"
  using run
proof (cases rule: process_order_body_Inr)
  case (already ord)
  then show ?thesis
    using shop_change_refl [OF inv] by simp
next
  case (short ord ci p d1)
  then have "holding (orders d) oid"
    by (simp add: holding_def)
  note c1 = reserve_change [OF inv short(3) this cart_qty_nonneg [OF inv]]
  show ?thesis
    using shop_change_trans [OF c1(1) fail_processing_change [OF short(4) shop_change_inv [OF c1(1)]]] short(1,2) c1(2)
    by simp
next
  case (refused ord uid res d1 d2)
  then have "holding (orders d) oid"
    by (simp add: holding_def)
  note c1 = reserve_change [OF inv refused(4) this cart_qty_nonneg [OF inv]]
  have d2: "d2 = d1"
    using use_for_order_change(3) [OF shop_change_inv [OF c1(1)] _ refused(5,6,7)] refused(1) c1(2) by simp
  show ?thesis
    using shop_change_trans [OF c1(1) fail_processing_change [OF refused(8) [unfolded d2] shop_change_inv [OF c1(1)]]]
      refused(1,2) c1(2) by simp
next
  case (finished ord d1 d2)
  then have "holding (orders d) oid"
    by (simp add: holding_def)
  note c1 = reserve_change [OF inv finished(3) this cart_qty_nonneg [OF inv]]
  have c2: "shop_change d1 d2" "orders d2 = orders d"
    using finished(1,5) c1(2) use_for_order_change [OF shop_change_inv [OF c1(1)], of oid ord] shop_change_refl [OF shop_change_inv [OF c1(1)]]
    by (auto split: if_splits)
  have c3: "shop_change d2 (upd_order oid (set_order_status Confirmed now) d2)"
    using shop_change_inv [OF c2(1)] by (rule order_row_change) (use finished(1,2) c2(2) in simp_all)
  have "shop_change (upd_order oid (set_order_status Confirmed now) d2) d'"
    unfolding finished(6) using shop_change_inv [OF c3] by (rule inert_change) simp
  then show ?thesis
    using c1(1) c2(1) c3 shop_change_trans by blast
qed

interpretation process_op: shop_op
  "\<lambda>(oid, cid, pts, now). process_order_heavy_tasks oid cid pts now" "\<lambda>_ _. True"
  by unfold_locales (auto simp: process_order_heavy_tasks_def intro: process_order_change split: sum.splits)

lemma abandon_change:
  assumes run: "abandon_stalled_order oid now d = Inr (b, d')" and inv: "shop_inv d"
  shows "shop_change d d'"
proof -
  obtain ord where ord: "get_order d oid = Some ord"
    using run by (auto simp: abandon_stalled_order_def rbind_eq_Inr of_get_eq_Inr)
  show ?thesis
  proof (cases "o_status ord \<noteq> Pending \<or> items_of d oid \<noteq> []")
    case True
    then show ?thesis
      using run ord shop_change_refl [OF inv] by (auto simp: abandon_stalled_order_def)
  next
    case False
    let ?e = "upd_order oid (set_order_failed ProcessingDelayed now) d"
    have e: "?e = released oid (set_order_failed ProcessingDelayed now) d"
      using False by (simp add: released_def)
    have "shop_inert ?e d'"
      using run ord False inert_restore_cart
      by (auto simp: abandon_stalled_order_def Let_def rbind_eq_Inr split: option.splits)
    moreover have "shop_change d ?e"
      unfolding e using inv ord by (rule released_change) (use False in simp_all)
    ultimately show ?thesis
      using inert_change shop_change_inv shop_change_trans by blast
  qed
qed

interpretation abandon_op: shop_op
  "\<lambda>(oid, now). abandon_stalled_order oid now" "\<lambda>_ _. True"
  by unfold_locales (auto intro: abandon_change)

lemma expire_order_Inr:
  assumes "expire_order oid now d = Inr (b, d')"
  obtains (skipped) "\<not> b" "d' = d"
  | (expired) d1 logs where "b" "cancel_order oid Expired now d = Inr ((), d1)"
      "d' = fold (\<lambda>p. add_log (pay_id p) LCancel MsgOrderExpired (logs p))
         (filter (\<lambda>p. pay_order p = oid) (payments d1)) (upd_order oid (\<lambda>ord. ord\<lparr>o_failure_reason := PaymentTimeout\<rparr>) d1)"
  using assms that
  by (auto simp: expire_order_def rbind_eq_Inr of_get_eq_Inr Let_def split: if_splits sum.splits exn.splits)

lemma expire_order_change:
  assumes run: "expire_order oid now d = Inr (b, d')" and inv: "shop_inv d"
  shows "shop_change d d'"
  using run
proof (cases rule: expire_order_Inr)
  case skipped
  then show ?thesis
    using shop_change_refl [OF inv] by simp
next
  case (expired d1 logs)
  have c1: "shop_change d d1"
    by (rule cancel_order_change [OF expired(2) _ inv]) (simp add: LIVE_PAYMENT_STATUSES_def)
  have c2: "shop_change d1 (upd_order oid (\<lambda>ord. ord\<lparr>o_failure_reason := PaymentTimeout\<rparr>) d1)" (is "shop_change d1 ?d2")
    using shop_change_inv [OF c1] by (rule order_row_change) simp_all
  have "shop_inert ?d2 d'"
    unfolding expired(3) by (rule inert_fold) simp
  then show ?thesis
    using inert_change [OF shop_change_inv [OF c2]] c1 c2 shop_change_trans by blast
qed

interpretation expire_op: shop_op
  "\<lambda>(oid, now). expire_order oid now" "\<lambda>_ _. True"
  by unfold_locales (auto intro: expire_order_change)

section \<open>Batches\<close>

lemma republish_one_change:
  assumes "shop_inv (snd st)"
  shows "shop_change (snd st) (snd (republish_one limit now ord st))"
proof -
  obtain r d where st: "st = (r, d)"
    by (cases st)
  have inv: "shop_inv d"
    using assms st by simp
  show ?thesis
    using abandon_change [OF _ inv, of "o_id ord" now] shop_change_refl [OF inv] inert_change [OF inv]
    by (auto simp: st republish_one_def publish_def split: sum.split option.split bool.split)
qed

lemma republish_change:
  assumes "shop_inv d"
  shows "shop_change d (snd (republish_stalled_orders stall give_up now d))"
proof -
  have "shop_change d (snd (fold (republish_one limit now) os st))" if "shop_change d (snd st)" for limit os st
    using that
  proof (induction os arbitrary: st)
    case (Cons ord os)
    have "shop_change d (snd (republish_one limit now ord st))"
      using Cons.prems republish_one_change [OF shop_change_inv [OF Cons.prems]] by (rule shop_change_trans)
    then show ?case
      using Cons.IH by simp
  qed simp
  then show ?thesis
    using shop_change_refl [OF assms] by (simp add: republish_stalled_orders_def Let_def)
qed

lemma expire_step_change:
  assumes "shop_inv (snd st)"
  shows "shop_change (snd st) (snd (expire_step now oid st))"
proof -
  obtain r d where st: "st = (r, d)"
    by (cases st)
  have inv: "shop_inv d"
    using assms st by simp
  show ?thesis
    using expire_order_change [OF _ inv, of oid now] shop_change_refl [OF inv]
    by (auto simp: st expire_step_def split: sum.split bool.split)
qed

lemma expire_unpaid_change:
  assumes "shop_inv d"
  shows "shop_change d (snd (expire_unpaid_orders budget timeout now d))"
proof -
  have "shop_change d (snd (fold (expire_step now) os st))" if "shop_change d (snd st)" for os st
    using that
  proof (induction os arbitrary: st)
    case (Cons ord os)
    have "shop_change d (snd (expire_step now ord st))"
      using Cons.prems expire_step_change [OF shop_change_inv [OF Cons.prems]] by (rule shop_change_trans)
    then show ?case
      using Cons.IH by simp
  qed simp
  then show ?thesis
    using shop_change_refl [OF assms] by (simp add: expire_unpaid_orders_def Let_def)
qed

end
