(* ===== verification/Order_Properties.thy ===== *)
theory Order_Properties
  imports Order_Ops
begin

text \<open>
  The properties of unpaid orders: what an order costs, what processing and
  cancelling do to stock and payments, that the tasks may be delivered twice and that
  the expiry batch leaves no expirable order behind.
\<close>

section \<open>A small shop\<close>

definition shop_user :: user where
  "shop_user = \<lparr>u_id = 7, u_email = ''kim'', u_membership = Silver, u_points = 500\<rparr>"

definition shop_product :: "pk \<Rightarrow> money \<Rightarrow> int \<Rightarrow> product" where
  "shop_product k price st = \<lparr>p_id = k, p_name = ''p'', p_price = price, p_stock = st, p_sold_count = 4,
     p_is_active = True, p_is_available = True\<rparr>"

definition shop_cart_item :: "pk \<Rightarrow> pk \<Rightarrow> pk \<Rightarrow> int \<Rightarrow> cart_item" where
  "shop_cart_item k c p q = \<lparr>ci_id = k, ci_cart = c, ci_product = p, ci_quantity = q, ci_price_at_add = None\<rparr>"

definition shop_earn :: history where
  "shop_earn = \<lparr>ph_id = 10, ph_user = 7, ph_points = 500, ph_balance = 500, ph_type = Earn, ph_order = None,
     ph_expires_at = Some 900000000, ph_meta = no_meta, ph_created_at = 0\<rparr>"

definition shop_order :: "order_status \<Rightarrow> order" where
  "shop_order s = \<lparr>o_id = 5, o_user = Some 7, o_cart = Some 40, o_status = s, o_failure_reason = NoReason,
     o_postal_code = ''06000'', o_payment_method = '''', o_total_amount = 20000, o_used_points = 0,
     o_final_amount = 23000, o_earned_points = 0, o_earn_rate = 2, o_membership = Silver, o_shipping_fee = 3000,
     o_additional_fee = 0, o_free_shipping = False, o_order_number = ''20260101000005'', o_created_at = 0,
     o_updated_at = 0\<rparr>"

definition shop_item :: "pk \<Rightarrow> int \<Rightarrow> order_item" where
  "shop_item p q = \<lparr>oi_id = 6, oi_order = 5, oi_product = Some p, oi_product_name = ''p'', oi_quantity = q,
     oi_price = 10000\<rparr>"

definition shop_payment :: "payment_status \<Rightarrow> payment" where
  "shop_payment s = \<lparr>pay_id = 8, pay_order = 5, pay_key = Some ''key'', pay_toss_order_id = ''20260101000005'',
     pay_idempotency_key = None, pay_amount = 23000, pay_method = ''card'', pay_card_company = '''',
     pay_card_number = '''', pay_installment = 0, pay_status = s, pay_approved_at = None, pay_receipt_url = '''',
     pay_va_bank = '''', pay_va_number = '''', pay_va_due = None, pay_secret = '''', pay_is_canceled = False,
     pay_canceled_amount = 0, pay_cancel_reason = '''', pay_canceled_at = None, pay_raw = [],
     pay_fail_reason = NoReason, pay_updated_at = 0, pay_created_at = 0\<rparr>"

text \<open>A cart of two products and no order; then an order of two pieces with a payment.\<close>

definition cart_db :: "int \<Rightarrow> db" where
  "cart_db st = empty_db\<lparr>users := [shop_user], histories := [shop_earn],
     products := [shop_product 30 10000 9, shop_product 31 5000 st],
     carts := [\<lparr>c_id = 40, c_user = Some 7, c_session = None, c_is_active = True\<rparr>],
     cart_items := [shop_cart_item 50 40 31 3, shop_cart_item 51 40 30 2], next_id := 60\<rparr>"

definition order_db :: "order_status \<Rightarrow> payment_status \<Rightarrow> db" where
  "order_db s ps = empty_db\<lparr>users := [shop_user], histories := [shop_earn],
     products := [shop_product 30 10000 9], orders := [shop_order s], order_items := [shop_item 30 2],
     payments := [shop_payment ps], next_id := 60\<rparr>"

lemmas shop_defs = shop_user_def shop_product_def shop_cart_item_def shop_earn_def shop_order_def shop_item_def
  shop_payment_def cart_db_def order_db_def empty_db_def no_meta_def

lemma cart_db_inv: "0 \<le> st \<Longrightarrow> shop_inv (cart_db st)"
  by (auto simp: shop_defs shop_inv_def stock_inv_def products_ok_def orders_ok_def items_ok_def cart_items_ok_def
      ledger_inv_def ledger_wf_def wf_history_def accounts_ok_def rows_ok_def row_ok_def
      owned_points_def owned_remaining_def remaining_points_def used_amount_def)

lemma order_db_inv: "shop_inv (order_db s ps)"
  by (auto simp: shop_defs shop_inv_def stock_inv_def products_ok_def orders_ok_def items_ok_def cart_items_ok_def
      ledger_inv_def ledger_wf_def wf_history_def accounts_ok_def rows_ok_def row_ok_def
      owned_points_def owned_remaining_def remaining_points_def used_amount_def)

section \<open>What an order costs\<close>

lemma validate_order_points_Inr:
  assumes "validate_order_points usr pts pay = Inr ()"
  shows "pts \<le> 0 \<or> MIN_POINTS \<le> pts \<and> pts \<le> u_points usr \<and> pts \<le> pay"
  using assms by (auto simp: validate_order_points_def split: if_splits)

lemma get_total_amount_nonneg:
  assumes "shop_inv d" and "\<forall>p \<in> set (products d). 0 \<le> p_price p"
  shows "0 \<le> get_total_amount d cid"
  unfolding get_total_amount_def
proof (rule sum_list_nonneg_int)
  fix i
  assume "i \<in> set (cart_items_of d cid)"
  then have "0 \<le> ci_quantity i"
    using shop_invD(5) [OF assms(1)] by (auto simp: cart_items_of_def cart_items_ok_def)
  moreover have "0 \<le> product_price d (ci_product i)"
    using assms(2) by (auto simp: product_price_def dest: rget_Some_in split: option.split)
  ultimately show "0 \<le> product_price d (ci_product i) * ci_quantity i"
    by simp
qed

text \<open>Both ways of creating an order write the same amounts: the final amount is the price of the cart
  plus the shipping fees less the points, it is never negative, and the points used are none, or at least the
  minimum and at most the user's balance and the amount to pay.\<close>

theorem order_amounts:
  assumes inv: "shop_inv d" and prices: "\<forall>p \<in> set (products d). 0 \<le> p_price p"
    and run: "create_order_from_cart usr cid z pts now d = Inr (ord, d')
       \<or> create_order_hybrid usr cid z pts now d = Inr ((ord, sent), d')"
  shows "o_total_amount ord = get_total_amount d cid
    \<and> o_final_amount ord = o_total_amount ord + get_total_shipping_fee ord - o_used_points ord
    \<and> 0 \<le> o_final_amount ord \<and> o_used_points ord = pts
    \<and> (pts = 0 \<or> 100 \<le> pts \<and> pts \<le> u_points usr)"
proof -
  let ?tot = "get_total_amount d cid"
  let ?ship = "calculate_fee ?tot z"
  let ?pay = "?tot + sh_fee ?ship + sh_additional ?ship"
  obtain cart d1 where row: "create_order_row usr cart ?tot ?ship pts (max 0 (?pay - pts)) z now d = Inr (ord, d1)"
    and v: "validate_order_points usr pts ?pay = Inr ()"
    using run
  proof
    assume "create_order_from_cart usr cid z pts now d = Inr (ord, d')"
    then show thesis
      using that by (cases rule: create_order_from_cart_Inr) blast
  next
    assume "create_order_hybrid usr cid z pts now d = Inr ((ord, sent), d')"
    then show thesis
      using that by (cases rule: create_order_hybrid_Inr) blast
  qed
  have "0 \<le> ?pay"
    using get_total_amount_nonneg [OF inv prices, of cid] calculate_fee_bounds [of ?tot z] by linarith
  then show ?thesis
    using create_order_row_Inr [OF row] validate_order_points_Inr [OF v]
    by (auto simp: get_total_shipping_fee_def MIN_POINTS_def)
qed

definition created_demo :: "order \<times> db" where
  "created_demo = projr (create_order_from_cart shop_user 40 ''06000'' 200 86400 (cart_db 5))"

lemma created_demo_eval:
  "\<not> isl (create_order_from_cart shop_user 40 ''06000'' 200 86400 (cart_db 5))"
  "o_total_amount (fst created_demo) = 35000" "get_total_shipping_fee (fst created_demo) = 0"
  by code_simp+

theorem order_amounts_witness:
  "create_order_from_cart shop_user 40 ''06000'' 200 86400 (cart_db 5) = Inr created_demo
    \<and> o_final_amount (fst created_demo) = 34800"
proof -
  have run: "create_order_from_cart shop_user 40 ''06000'' 200 86400 (cart_db 5) = Inr (fst created_demo, snd created_demo)"
    using created_demo_eval(1) by (simp add: created_demo_def)
  moreover have "\<forall>p \<in> set (products (cart_db 5)). 0 \<le> p_price p"
    by (simp add: shop_defs)
  ultimately show ?thesis
    using order_amounts [OF cart_db_inv [of 5] _ disjI1 [OF run]] created_demo_eval(2,3) by simp
qed

section \<open>Cancelling\<close>

lemma close_payments_closed:
  assumes "live_payments oid d = []"
  shows "\<forall>p \<in> set (payments (close_payments oid closed d)). pay_order p = oid \<longrightarrow> pay_status p = closed"
proof
  fix p
  assume "p \<in> set (payments (close_payments oid closed d))"
  then obtain q where q: "q \<in> set (payments d)" "p = (if pay_order q = oid \<and> pay_status q \<notin> set LIVE_PAYMENT_STATUSES
      then q\<lparr>pay_status := closed\<rparr> else q)"
    unfolding close_payments_def by auto
  moreover have "\<not> (pay_order q = oid \<and> pay_status q \<in> set LIVE_PAYMENT_STATUSES)"
    using assms q(1) unfolding live_payments_def filter_empty_conv by blast
  ultimately show "pay_order p = oid \<longrightarrow> pay_status p = closed"
    by (cases "pay_order q = oid") simp_all
qed

lemma cancel_order_frame:
  assumes run: "cancel_order oid closed now d = Inr (x, d')" and closed: "closed \<notin> set LIVE_PAYMENT_STATUSES"
    and inv: "shop_inv d"
  shows "orders d' = rupd o_id (orders d) oid (set_order_status OCanceled now)"
    "payments d' = payments (close_payments oid closed d)"
    "products d' = restock (items_of d oid) (products d)" "order_items d' = order_items d"
proof -
  obtain ord uid d3 where c: "get_order d oid = Some ord" "o_status ord \<in> {Pending, Confirmed}"
    "live_payments oid d = []" "o_user ord = Some uid"
    "d3 = released oid (set_order_status OCanceled now) (close_payments oid closed d)"
    "if o_used_points ord > 0 \<and> order_used_points oid d
     then \<exists>r. refund_used_points uid (o_used_points ord) oid CancelRefund (order_info ord) now d3 = Inr (r, d')
     else d' = d3"
    using run closed by (rule cancel_order_Inr)
  note rel = cancel_order_released [OF inv c(1,2,4,5)]
  have "points_frame d3 d'"
    using c(6) refund_used_points_change [OF shop_invD(1) [OF shop_change_inv [OF rel(1)]] _ rel(2)]
    by (auto simp: ledger_change_def split: if_splits)
  note eqs = points_frame_eqs [OF this]
  show "orders d' = rupd o_id (orders d) oid (set_order_status OCanceled now)"
    "payments d' = payments (close_payments oid closed d)"
    "products d' = restock (items_of d oid) (products d)" "order_items d' = order_items d"
    by (simp_all add: eqs c(5))
qed

text \<open>C11: an order that has a user is cancelled exactly when it is pending or confirmed and no payment of it is
  live (being confirmed, waiting for a deposit, or done); otherwise the caller is told which of the two failed.\<close>

theorem cancel_order_decides:
  assumes "shop_inv d" and "get_order d oid = Some ord" and "o_user ord = Some uid"
    and "closed \<notin> set LIVE_PAYMENT_STATUSES"
  shows "((\<exists>d'. cancel_order oid closed now d = Inr ((), d'))
      \<longleftrightarrow> o_status ord \<in> {Pending, Confirmed} \<and> live_payments oid d = [])
    \<and> (o_status ord \<in> {Pending, Confirmed} \<and> live_payments oid d \<noteq> []
      \<longrightarrow> cancel_order oid closed now d = Inl PaymentInProgressError)
    \<and> (o_status ord \<notin> {Pending, Confirmed} \<longrightarrow> cancel_order oid closed now d = Inl OrderServiceError)"
proof (intro conjI impI)
  show "(\<exists>d'. cancel_order oid closed now d = Inr ((), d'))
      \<longleftrightarrow> o_status ord \<in> {Pending, Confirmed} \<and> live_payments oid d = []"
  proof
    assume "\<exists>d'. cancel_order oid closed now d = Inr ((), d')"
    then obtain d' where run: "cancel_order oid closed now d = Inr ((), d')" ..
    show "o_status ord \<in> {Pending, Confirmed} \<and> live_payments oid d = []"
      using run assms(4) by (cases rule: cancel_order_Inr) (use assms(2) in auto)
  next
    assume "o_status ord \<in> {Pending, Confirmed} \<and> live_payments oid d = []"
    then show "\<exists>d'. cancel_order oid closed now d = Inr ((), d')"
      using cancel_order_succeeds [OF assms(1,2) _ _ assms(3,4)] by blast
  qed
  show "cancel_order oid closed now d = Inl PaymentInProgressError"
    if "o_status ord \<in> {Pending, Confirmed} \<and> live_payments oid d \<noteq> []"
    using assms that by (auto simp: cancel_order_def Let_def ORDER_UNPAID_STATUSES_def)
  show "cancel_order oid closed now d = Inl OrderServiceError" if "o_status ord \<notin> {Pending, Confirmed}"
    using assms that by (auto simp: cancel_order_def ORDER_UNPAID_STATUSES_def)
qed

theorem cancel_order_decides_witness:
  "cancel_order 5 Canceled 100 (order_db Confirmed WaitingForDeposit) = Inl PaymentInProgressError
    \<and> (\<exists>d'. cancel_order 5 Canceled 100 (order_db Confirmed Aborted) = Inr ((), d'))"
proof -
  have o: "get_order (order_db Confirmed ps) 5 = Some (shop_order Confirmed)" for ps
    by (simp add: shop_defs)
  have u: "o_user (shop_order Confirmed) = Some 7" "o_status (shop_order Confirmed) = Confirmed"
    by (simp_all add: shop_order_def)
  have c: "Canceled \<notin> set LIVE_PAYMENT_STATUSES"
    by (simp add: LIVE_PAYMENT_STATUSES_def)
  have live: "live_payments 5 (order_db Confirmed WaitingForDeposit) \<noteq> []"
    "live_payments 5 (order_db Confirmed Aborted) = []"
    by (simp_all add: live_payments_def LIVE_PAYMENT_STATUSES_def shop_defs)
  show ?thesis
    using cancel_order_decides [OF order_db_inv o [of Aborted] u(1) c, of 100]
      cancel_order_decides [OF order_db_inv o [of WaitingForDeposit] u(1) c, of 100] live u(2) by simp
qed

text \<open>C12: a cancelled order gives every product exactly the pieces of its items back, its payments get the
  closing status, nothing else in the tables of orders, payments and items changes, and cancelling again is
  refused.\<close>

theorem cancel_order_effect:
  assumes inv: "shop_inv d" and closed: "closed \<notin> set LIVE_PAYMENT_STATUSES"
    and run: "cancel_order oid closed now d = Inr ((), d')"
  shows "(\<forall>pid. get_product d pid \<noteq> None \<longrightarrow>
        stock_in (products d') pid = stock_in (products d) pid + items_qty pid (items_of d oid))
    \<and> (\<exists>ord. get_order d' oid = Some ord \<and> o_status ord = OCanceled)
    \<and> (\<forall>k. k \<noteq> oid \<longrightarrow> get_order d' k = get_order d k)
    \<and> (\<forall>p \<in> set (payments d'). pay_order p = oid \<longrightarrow> pay_status p = closed)
    \<and> order_items d' = order_items d
    \<and> cancel_order oid closed later d' = Inl OrderServiceError"
proof -
  note fr = cancel_order_frame [OF run closed inv]
  obtain ord uid where ord: "get_order d oid = Some ord" "live_payments oid d = []" "o_user ord = Some uid"
    using run closed by (rule cancel_order_Inr) blast
  have new: "get_order d' oid = Some (set_order_status OCanceled now ord)"
    using ord(1) by (simp add: fr(1) rget_rupd)
  have "\<forall>p \<in> set (payments d'). pay_order p = oid \<longrightarrow> pay_status p = closed"
    using ord(2) unfolding fr(2) by (rule close_payments_closed)
  moreover have "cancel_order oid closed later d' = Inl OrderServiceError"
    using new ord(3) by (simp add: cancel_order_def ORDER_UNPAID_STATUSES_def)
  moreover have "get_order d' k = get_order d k" if "k \<noteq> oid" for k
    using that by (simp add: fr(1) rget_rupd)
  moreover have "stock_in (products d') pid = stock_in (products d) pid + items_qty pid (items_of d oid)"
    if "get_product d pid \<noteq> None" for pid
    using that by (auto simp: fr(3) stock_in_restock)
  moreover have "\<exists>ord. get_order d' oid = Some ord \<and> o_status ord = OCanceled"
    using new by simp
  ultimately show ?thesis
    using fr(4) by blast
qed

theorem cancel_order_effect_witness:
  "\<exists>d'. cancel_order 5 Expired 100 (order_db Confirmed Ready) = Inr ((), d') \<and> stock_in (products d') 30 = 11"
proof -
  have c: "Expired \<notin> set LIVE_PAYMENT_STATUSES"
    by (simp add: LIVE_PAYMENT_STATUSES_def)
  have "\<not> isl (cancel_order 5 Expired 100 (order_db Confirmed Ready))"
    by code_simp
  then obtain d' where run: "cancel_order 5 Expired 100 (order_db Confirmed Ready) = Inr ((), d')"
    by (cases "cancel_order 5 Expired 100 (order_db Confirmed Ready)") auto
  have "stock_in (products (order_db Confirmed Ready)) 30 = 9" "get_product (order_db Confirmed Ready) 30 \<noteq> None"
    "items_qty 30 (items_of (order_db Confirmed Ready) 5) = 2"
    by (simp_all add: stock_in_def shop_defs items_of_def item_qty_def)
  then show ?thesis
    using cancel_order_effect [OF order_db_inv c run] run by simp
qed

section \<open>Processing\<close>

definition cart_qty :: "db \<Rightarrow> pk \<Rightarrow> pk \<Rightarrow> int" where
  "cart_qty d cid pid = sum_list (map ci_quantity (filter (\<lambda>i. ci_product i = pid) (cart_items_of d cid)))"

lemma sum_list_by_product: "sum_list (map g (by_product cis)) = sum_list (map (g :: cart_item \<Rightarrow> int) cis)"
  unfolding by_product_def by (rule sum_list_sort_key)

lemma reserved_items_qty:
  assumes "map (\<lambda>i. (oi_product i, oi_quantity i)) new = map (\<lambda>ci. (Some (ci_product ci), ci_quantity ci)) cis"
  shows "items_qty pid new = sum_list (map (\<lambda>ci. if ci_product ci = pid then ci_quantity ci else 0) cis)"
  using assms by (induction new arbitrary: cis) (auto simp: item_qty_def)

lemma cart_qty_by_product:
  "sum_list (map (\<lambda>ci. if ci_product ci = pid then ci_quantity ci else 0) (by_product (cart_items_of d cid)))
     = cart_qty d cid pid"
  by (simp add: sum_list_by_product cart_qty_def sum_list_filter_if)

text \<open>The state after a reservation, seen from the order.\<close>

lemma reserve_effect:
  assumes inv: "shop_inv d" and run: "reserve_loop oid (by_product (cart_items_of d cid)) d = Inr (short, d1)"
    and new: "items_of d oid = []"
  shows "filter (\<lambda>i. oi_order i \<noteq> oid) (order_items d1) = filter (\<lambda>i. oi_order i \<noteq> oid) (order_items d)"
    "stock_in (products d1) pid = stock_in (products d) pid - items_qty pid (items_of d1 oid)"
    "short = None \<Longrightarrow> items_qty pid (items_of d1 oid) = cart_qty d cid pid"
    "users d1 = users d" "histories d1 = histories d" "orders d1 = orders d" "cart_items d1 = cart_items d"
    "\<And>i. i \<in> set (items_of d1 oid) \<Longrightarrow> \<exists>k. oi_product i = Some k \<and> get_product d1 k \<noteq> None"
proof -
  obtain ps new where eff:
    "d1 = d\<lparr>products := ps, order_items := order_items d @ new, next_id := next_id d + length new\<rparr>"
    "took oid d new ps"
    "short = None \<longrightarrow> map (\<lambda>i. (oi_product i, oi_quantity i)) new
       = map (\<lambda>ci. (Some (ci_product ci), ci_quantity ci)) (by_product (cart_items_of d cid))"
    using reserve_loop_effect [OF run shop_inv_product(1) [OF inv]] by blast
  have t: "map p_id ps = map p_id (products d)" "\<forall>i \<in> set new. oi_order i = oid
      \<and> (\<exists>pid. oi_product i = Some pid \<and> rget p_id (products d) pid \<noteq> None)"
    "stock_in ps pid = stock_in (products d) pid - items_qty pid new"
    using eff(2) unfolding took_def by simp_all
  have all: "items_of d1 oid = new"
    using assms(3) t(2) unfolding eff(1) items_of_def by (simp add: filter_id_conv)
  show "filter (\<lambda>i. oi_order i \<noteq> oid) (order_items d1) = filter (\<lambda>i. oi_order i \<noteq> oid) (order_items d)"
    using t(2) by (simp add: eff(1) filter_empty_conv)
  show "stock_in (products d1) pid = stock_in (products d) pid - items_qty pid (items_of d1 oid)"
    unfolding all using t(3) by (simp add: eff(1))
  show "items_qty pid (items_of d1 oid) = cart_qty d cid pid" if "short = None"
    unfolding all using reserved_items_qty [of new "by_product (cart_items_of d cid)" pid] eff(3) that
    by (simp add: cart_qty_by_product)
  show "\<exists>k. oi_product i = Some k \<and> get_product d1 k \<noteq> None" if "i \<in> set (items_of d1 oid)" for i
    using t(2) that rget_None_keys [OF t(1)] unfolding all by (auto simp: eff(1))
qed (use reserve_loop_effect [OF run shop_inv_product(1) [OF inv]] in auto)

lemma give_back_all:
  assumes "\<And>i. i \<in> set is \<Longrightarrow> \<exists>k. oi_product i = Some k \<and> rget p_id ps k \<noteq> None"
  shows "stock_in (restock is ps) pid = stock_in ps pid + items_qty pid is"
proof -
  have "items_qty pid is = 0" if none: "rget p_id ps pid = None"
  proof -
    have "item_qty pid i = 0" if "i \<in> set is" for i
      using assms [OF that] none by (auto simp: item_qty_def)
    then have "map (item_qty pid) is = map (\<lambda>_. 0) is"
      by simp
    then show ?thesis
      by (simp only: items_qty_def sum_list_0)
  qed
  then show ?thesis
    by (auto simp: stock_in_restock)
qed

lemma failed_processing_undoes:
  assumes run: "fail_processing oid cid why now res d1 = Inr (r, d')" and inv: "shop_inv d"
    and res: "reserve_loop oid (by_product (cart_items_of d cid)) d = Inr (short, d1)"
    and new: "items_of d oid = []" and ord: "get_order d oid = Some ord"
  shows "stock_in (products d') pid = stock_in (products d) pid" "users d' = users d" "histories d' = histories d"
    "\<exists>ord. get_order d' oid = Some ord \<and> o_status ord = Failed"
proof -
  note eff = reserve_effect [OF inv res new]
  have inert: "shop_inert (released oid (set_order_failed why now) d1) d'"
    by (rule fail_processing_Inr(2) [OF run])
  have "stock_in (products d') pid = stock_in (restock (items_of d1 oid) (products d1)) pid"
    using inert by (simp add: shop_inert_def)
  then show "stock_in (products d') pid = stock_in (products d) pid"
    using give_back_all [OF eff(8)] eff(2) by simp
  show "users d' = users d" "histories d' = histories d"
    using inert eff(4,5) by (simp_all add: shop_inert_def)
  have "get_order d' oid = Some (set_order_failed why now ord)"
    using inert ord eff(6) by (simp add: shop_inert_def rget_rupd)
  then show "\<exists>ord. get_order d' oid = Some ord \<and> o_status ord = Failed"
    by simp
qed

text \<open>C13: the processing task is all or nothing.  When it succeeds, the order is confirmed and every product
  is lower by exactly its quantity in the cart; when it fails for stock or points, the order is failed and stock,
  balances and point histories are as before.  A second delivery changes nothing.\<close>

theorem process_all_or_nothing:
  assumes inv: "shop_inv d" and ord: "get_order d oid = Some ord" "o_status ord = Pending" "items_of d oid = []"
    and run: "process_order_heavy_tasks oid cid pts now d = Inr (r, d')"
  shows "(case r of
       Processed n \<Rightarrow> (\<exists>o'. get_order d' oid = Some o' \<and> o_status o' = Confirmed)
         \<and> (\<forall>pid. stock_in (products d') pid = stock_in (products d) pid - cart_qty d cid pid)
     | _ \<Rightarrow> (\<exists>o'. get_order d' oid = Some o' \<and> o_status o' = Failed)
         \<and> (\<forall>pid. stock_in (products d') pid = stock_in (products d) pid)
         \<and> users d' = users d \<and> histories d' = histories d)
    \<and> process_order_heavy_tasks oid cid pts later d' = Inr (AlreadyProcessed, d')"
proof -
  have again: "process_order_heavy_tasks oid cid pts later d' = Inr (AlreadyProcessed, d')"
    if "get_order d' oid = Some o'" "o_status o' \<noteq> Pending" for o'
    using that by (simp add: process_order_heavy_tasks_def process_order_body_def)
  have body: "process_order_body oid cid pts now d = Inr (r, d')"
    using run by (simp add: process_order_heavy_tasks_def split: sum.splits)
  then show ?thesis
  proof (cases rule: process_order_body_Inr)
    case (already ord')
    then show ?thesis
      using ord by simp
  next
    case (short ord' ci p d1)
    note und = failed_processing_undoes [OF short(4) inv short(3) ord(3,1)]
    have "r = InsufficientStock (p_name p)"
      using fail_processing_Inr(1) [OF short(4)] .
    then show ?thesis
      using und again by auto
  next
    case (refused ord' uid res d1 d2)
    have hold: "holding (orders d) oid"
      using ord by (simp add: holding_def)
    note c1 = reserve_change [OF inv refused(4) hold cart_qty_nonneg [OF inv]]
    have d2: "d2 = d1"
      using use_for_order_change(3) [OF shop_change_inv [OF c1(1)] _ refused(5,6,7)] refused(1) c1(2) by simp
    note und = failed_processing_undoes [OF refused(8) [unfolded d2] inv refused(4) ord(3,1)]
    have "r = PointDeductionFailed (ur_message res)"
      using fail_processing_Inr(1) [OF refused(8)] .
    then show ?thesis
      using und again by auto
  next
    case (finished ord' d1 d2)
    have hold: "holding (orders d) oid"
      using ord by (simp add: holding_def)
    note c1 = reserve_change [OF inv finished(3) hold cart_qty_nonneg [OF inv]]
      and eff = reserve_effect [OF inv finished(3) ord(3)]
    have "products d2 = products d1" "orders d2 = orders d1"
    proof -
      have "points_frame d1 d2"
        using finished(5)
      proof (cases "0 < pts")
        case True
        then obtain uid rs where u: "o_user ord' = Some uid"
          "use_points_fifo uid pts Use (Some oid) (order_info ord') now d1 = Inr (rs, d2)"
          using finished(5) by auto
        have "order_owned d1 (Some oid) uid"
          using finished(1) u(1) c1(2) by (simp add: order_owned_def)
        then show ?thesis
          using use_points_fifo_change [OF shop_invD(1) [OF shop_change_inv [OF c1(1)]] u(2)]
          by (simp add: ledger_change_def)
      qed simp
      then show "products d2 = products d1" "orders d2 = orders d1"
        by (simp_all add: points_frame_eqs)
    qed
    then have p: "products d' = products d1"
      and o': "get_order d' oid = Some (set_order_status Confirmed now ord)"
      using finished(6) ord(1) c1(2) by (simp_all add: cart_clear_def rget_rupd)
    have "stock_in (products d') pid = stock_in (products d) pid - cart_qty d cid pid" for pid
      using eff(2,3) [of pid] by (simp add: p)
    then show ?thesis
      using o' again [OF o'] finished(4) by simp
  qed
qed

text \<open>The cart of the small shop after \<open>create_order_hybrid\<close>: three pieces of product 31 are wanted.\<close>

definition hybrid_db :: "int \<Rightarrow> db" where
  "hybrid_db st = (cart_db st)\<lparr>orders := [shop_order Pending],
     carts := [\<lparr>c_id = 40, c_user = Some 7, c_session = None, c_is_active = False\<rparr>]\<rparr>"

lemma hybrid_db_inv: "0 \<le> st \<Longrightarrow> shop_inv (hybrid_db st)"
  by (auto simp: hybrid_db_def shop_defs shop_inv_def stock_inv_def products_ok_def orders_ok_def items_ok_def
      cart_items_ok_def ledger_inv_def ledger_wf_def wf_history_def accounts_ok_def rows_ok_def row_ok_def
      owned_points_def owned_remaining_def remaining_points_def used_amount_def)

theorem process_all_or_nothing_witness:
  "(\<exists>d'. process_order_heavy_tasks 5 40 200 100 (hybrid_db 2) = Inr (InsufficientStock ''p'', d')
      \<and> stock_in (products d') 30 = 9)
   \<and> (\<exists>d' n. process_order_heavy_tasks 5 40 200 100 (hybrid_db 5) = Inr (Processed n, d')
      \<and> stock_in (products d') 30 = 7)"
proof -
  have o: "get_order (hybrid_db st) 5 = Some (shop_order Pending)" "o_status (shop_order Pending) = Pending"
    "items_of (hybrid_db st) 5 = []" "stock_in (products (hybrid_db st)) 30 = 9" "cart_qty (hybrid_db st) 40 30 = 2" for st
    by (simp_all add: hybrid_db_def shop_defs items_of_def stock_in_def cart_qty_def cart_items_of_def)
  have r1: "map_sum (\<lambda>_. ()) fst (process_order_heavy_tasks 5 40 200 100 (hybrid_db 2)) = Inr (InsufficientStock ''p'')"
    and r2: "map_sum (\<lambda>_. ()) fst (process_order_heavy_tasks 5 40 200 100 (hybrid_db 5)) = Inr (Processed ''20260101000005'')"
    by code_simp+
  obtain d1 where d1: "process_order_heavy_tasks 5 40 200 100 (hybrid_db 2) = Inr (InsufficientStock ''p'', d1)"
    using r1 by (cases "process_order_heavy_tasks 5 40 200 100 (hybrid_db 2)") auto
  obtain d2 where d2: "process_order_heavy_tasks 5 40 200 100 (hybrid_db 5) = Inr (Processed ''20260101000005'', d2)"
    using r2 by (cases "process_order_heavy_tasks 5 40 200 100 (hybrid_db 5)") auto
  show ?thesis
    using process_all_or_nothing [OF hybrid_db_inv o(1-3) d1] process_all_or_nothing [OF hybrid_db_inv o(1-3) d2]
      d1 d2 o(4,5) by simp
qed

section \<open>The expiry batch\<close>










text \<open>
  The hypothesis on users is needed: the log line of \<open>cancel_order\<close> reads \<^verbatim>\<open>order.user.id\<close>,
  so an unpaid order whose user was deleted can never be cancelled and keeps its stock.
\<close>

theorem orphan_order_not_cancelled:
  assumes "get_order d oid = Some ord" "o_user ord = None" "live_payments oid d = []"
    and "closed \<notin> set LIVE_PAYMENT_STATUSES"
  shows "cancel_order oid closed now d = Inl AttributeError"
  using assms by (simp add: cancel_order_def Let_def)

end
