(* ===== verification/Payments.thy ===== *)
theory Payments
  imports Orders
begin

text \<open>
  Payments: \<^verbatim>\<open>src/shopping/models/payment.py\<close>, \<^verbatim>\<open>utils/toss_payment.py\<close> and
  \<^verbatim>\<open>services/payment_service.py\<close> (PaymentService), and \<^verbatim>\<open>cancel_by_customer\<close> of the
  order service, which chooses between them.

  The payment provider is the parameter \<open>http\<close>, a function from a request to what the
  \<^verbatim>\<open>requests\<close> library returns or raises.  The fault injection hooks
  (\<^verbatim>\<open>inject_...\<close>, off unless a chaos experiment runs) are the identity.  Text fields of
  a response are strings, null or absent, as the API documents; a null that reaches a
  column without \<^verbatim>\<open>null=True\<close> raises \<open>IntegrityError\<close> when the row is saved.
\<close>

section \<open>The client of the payment provider\<close>

record http_request =
  rq_post :: bool
  rq_path :: string
  rq_body :: dict
  rq_idempotency_key :: "string option"

datatype http_response = RequestException | Response int dict

type_synonym http = "http_request \<Rightarrow> http_response"

record toss_error =
  te_code :: string
  te_status :: int

definition toss_call :: "http \<Rightarrow> http_request \<Rightarrow> toss_error + dict" where
  "toss_call http rq = (case http rq of
     RequestException \<Rightarrow> Inl \<lparr>te_code = ''NETWORK_ERROR'', te_status = 500\<rparr>
   | Response status body \<Rightarrow>
       if status = 200 then Inr body
       else Inl \<lparr>te_code = (case dget_str body ''code'' of None \<Rightarrow> ''UNKNOWN'' | Some c \<Rightarrow> c), te_status = status\<rparr>)"

definition confirm_request :: "string \<Rightarrow> string \<Rightarrow> int \<Rightarrow> http_request" where
  "confirm_request key toss_order_id amount = \<lparr>rq_post = True, rq_path = ''/v1/payments/confirm'',
     rq_body = [(''paymentKey'', JStr key), (''orderId'', JStr toss_order_id), (''amount'', JNum amount)],
     rq_idempotency_key = None\<rparr>"

definition toss_confirm_payment :: "http \<Rightarrow> string \<Rightarrow> string \<Rightarrow> int \<Rightarrow> toss_error + dict" where
  "toss_confirm_payment http key toss_order_id amount = toss_call http (confirm_request key toss_order_id amount)"

text \<open>An f-string writes \<open>None\<close> for a missing key.\<close>

definition text_of_key :: "string option \<Rightarrow> string" where
  "text_of_key k = (case k of None \<Rightarrow> ''None'' | Some s \<Rightarrow> s)"

definition toss_cancel_payment ::
  "http \<Rightarrow> string option \<Rightarrow> string \<Rightarrow> int option \<Rightarrow> dict option \<Rightarrow> string option \<Rightarrow> toss_error + dict" where
  "toss_cancel_payment http key cancel_reason cancel_amount refund_account idempotency_key =
     toss_call http \<lparr>rq_post = True, rq_path = ''/v1/payments/'' @ text_of_key key @ ''/cancel'',
       rq_body = [(''cancelReason'', JStr cancel_reason)]
         @ (case cancel_amount of None \<Rightarrow> [] | Some a \<Rightarrow> [(''cancelAmount'', JNum a)])
         @ (case refund_account of None \<Rightarrow> [] | Some acc \<Rightarrow>
              if acc = [] then [] else [(''refundReceiveAccount'', JObj acc)]),
       rq_idempotency_key = (if idempotency_key = Some [] then None else idempotency_key)\<rparr>"

definition toss_get_payment :: "http \<Rightarrow> string option \<Rightarrow> toss_error + dict" where
  "toss_get_payment http key = toss_call http
     \<lparr>rq_post = False, rq_path = ''/v1/payments/'' @ text_of_key key, rq_body = [], rq_idempotency_key = None\<rparr>"

section \<open>Reading a response\<close>

text \<open>\<^verbatim>\<open>data.get(k, "")\<close> written to a text column.\<close>

definition text_field :: "dict \<Rightarrow> string \<Rightarrow> exn + string" where
  "text_field dat k = (case map_of dat k of
     None \<Rightarrow> Inr [] | Some (JStr s) \<Rightarrow> Inr s | Some _ \<Rightarrow> Inl IntegrityError)"

definition int_field :: "dict \<Rightarrow> string \<Rightarrow> exn + int" where
  "int_field dat k = (case map_of dat k of
     None \<Rightarrow> Inr 0 | Some (JNum i) \<Rightarrow> Inr i | Some _ \<Rightarrow> Inl IntegrityError)"

text \<open>\<^verbatim>\<open>data.get(k) or {}\<close>, on which \<^verbatim>\<open>.get\<close> is called.\<close>

definition obj_or_empty :: "dict \<Rightarrow> string \<Rightarrow> exn + dict" where
  "obj_or_empty dat k = (case map_of dat k of
     None \<Rightarrow> Inr [] | Some JNull \<Rightarrow> Inr [] | Some (JObj kv) \<Rightarrow> Inr kv | Some _ \<Rightarrow> Inl AttributeError)"

definition TOSS_CARD_ISSUER_NAMES :: "(string \<times> string) list" where
  "TOSS_CARD_ISSUER_NAMES = [
     (''11'', [CHR ''K'', CHR ''B'', CHR 0xEA, CHR 0xB5, CHR 0xAD, CHR 0xEB, CHR 0xAF, CHR 0xBC, CHR 0xEC, CHR 0xB9, CHR 0xB4, CHR 0xEB, CHR 0x93, CHR 0x9C]),
     (''21'', [CHR 0xED, CHR 0x95, CHR 0x98, CHR 0xEB, CHR 0x82, CHR 0x98, CHR 0xEC, CHR 0xB9, CHR 0xB4, CHR 0xEB, CHR 0x93, CHR 0x9C]),
     (''31'', [CHR ''B'', CHR ''C'', CHR 0xEC, CHR 0xB9, CHR 0xB4, CHR 0xEB, CHR 0x93, CHR 0x9C]),
     (''41'', [CHR 0xEC, CHR 0x8B, CHR 0xA0, CHR 0xED, CHR 0x95, CHR 0x9C, CHR 0xEC, CHR 0xB9, CHR 0xB4, CHR 0xEB, CHR 0x93, CHR 0x9C]),
     (''51'', [CHR 0xEC, CHR 0x82, CHR 0xBC, CHR 0xEC, CHR 0x84, CHR 0xB1, CHR 0xEC, CHR 0xB9, CHR 0xB4, CHR 0xEB, CHR 0x93, CHR 0x9C]),
     (''61'', [CHR 0xED, CHR 0x98, CHR 0x84, CHR 0xEB, CHR 0x8C, CHR 0x80, CHR 0xEC, CHR 0xB9, CHR 0xB4, CHR 0xEB, CHR 0x93, CHR 0x9C]),
     (''71'', [CHR 0xEB, CHR 0xA1, CHR 0xAF, CHR 0xEB, CHR 0x8D, CHR 0xB0, CHR 0xEC, CHR 0xB9, CHR 0xB4, CHR 0xEB, CHR 0x93, CHR 0x9C]),
     (''91'', [CHR ''N'', CHR ''H'', CHR 0xEB, CHR 0x86, CHR 0x8D, CHR 0xED, CHR 0x98, CHR 0x91, CHR 0xEC, CHR 0xB9, CHR 0xB4, CHR 0xEB, CHR 0x93, CHR 0x9C])]"

section \<open>Sensitive fields\<close>

definition sensitive_fields :: "string list" where
  "sensitive_fields = [''cardNumber'', ''cvv'', ''cvc'', ''password'', ''pin'']"

definition redacted :: json where
  "redacted = JStr ''***REDACTED***''"

fun sanitize_raw_response :: "dict \<Rightarrow> dict" and sanitize_items :: "json list \<Rightarrow> json list"
  and sanitize_value :: "json \<Rightarrow> json" where
  "sanitize_raw_response [] = []"
| "sanitize_raw_response ((k, v) # kv) =
     (k, if k \<in> set sensitive_fields then redacted else sanitize_value v) # sanitize_raw_response kv"
| "sanitize_items [] = []"
| "sanitize_items (JObj kv # xs) = JObj (sanitize_raw_response kv) # sanitize_items xs"
| "sanitize_items (x # xs) = x # sanitize_items xs"
| "sanitize_value (JObj kv) = JObj (sanitize_raw_response kv)"
| "sanitize_value (JList xs) = JList (sanitize_items xs)"
| "sanitize_value v = v"

section \<open>Saving a payment\<close>

text \<open>\<^verbatim>\<open>payment.save()\<close> of a row read in the same transaction; \<^verbatim>\<open>payment_key\<close> is unique.\<close>

definition save_payment :: "payment \<Rightarrow> timestamp \<Rightarrow> payment op" where
  "save_payment p now d = (
     if pay_key p \<noteq> None \<and> list_ex (\<lambda>q. pay_id q \<noteq> pay_id p \<and> pay_key q = pay_key p) (payments d)
     then Inl IntegrityError
     else let p' = p\<lparr>pay_updated_at := now\<rparr> in Inr (p', upd_payment (pay_id p) (\<lambda>_. p') d))"

definition sbind :: "'e + 'a \<Rightarrow> ('a \<Rightarrow> 'e + 'b) \<Rightarrow> 'e + 'b" where
  "sbind m f = (case m of Inl e \<Rightarrow> Inl e | Inr a \<Rightarrow> f a)"

lemma sbind_simps [simp]: "sbind (Inl e) f = Inl e" "sbind (Inr a) f = f a"
  by (simp_all add: sbind_def)

lemma sbind_eq_Inr: "sbind m f = Inr r \<longleftrightarrow> (\<exists>a. m = Inr a \<and> f a = Inr r)"
  by (auto simp: sbind_def split: sum.splits)

definition set_card :: "dict \<Rightarrow> payment \<Rightarrow> exn + payment" where
  "set_card payment_data p = sbind (obj_or_empty payment_data ''card'') (\<lambda>card.
     if card = [] then Inr p
     else sbind (text_field card ''issuerCode'') (\<lambda>issuer_code.
          sbind (text_field card ''number'') (\<lambda>number.
          sbind (int_field card ''installmentPlanMonths'') (\<lambda>months.
            Inr (p\<lparr>pay_card_company := (case map_of TOSS_CARD_ISSUER_NAMES issuer_code of
                     None \<Rightarrow> issuer_code | Some name \<Rightarrow> name),
                   pay_card_number := number, pay_installment := months\<rparr>)))))"

text \<open>\<^verbatim>\<open>payment_data.get("receipt", {}).get("url", "")\<close>: a receipt of null raises.\<close>

definition receipt_url_of :: "dict \<Rightarrow> exn + string" where
  "receipt_url_of payment_data = (case map_of payment_data ''receipt'' of
     None \<Rightarrow> Inr [] | Some (JObj kv) \<Rightarrow> text_field kv ''url'' | Some _ \<Rightarrow> Inl AttributeError)"

definition paid_payment :: "dict \<Rightarrow> payment \<Rightarrow> exn + payment" where
  "paid_payment payment_data p =
     sbind (text_field payment_data ''method'') (\<lambda>method.
     sbind (set_card payment_data p) (\<lambda>p.
     sbind (receipt_url_of payment_data) (\<lambda>url.
       Inr (p\<lparr>pay_status := Done, pay_key := dget_str payment_data ''paymentKey'',
              pay_approved_at := dget_str payment_data ''approvedAt'', pay_method := method,
              pay_receipt_url := url, pay_raw := sanitize_raw_response payment_data\<rparr>))))"

definition mark_as_paid :: "payment \<Rightarrow> dict \<Rightarrow> timestamp \<Rightarrow> payment op" where
  "mark_as_paid p payment_data now d = (case paid_payment payment_data p of
     Inl e \<Rightarrow> Inl e | Inr p' \<Rightarrow> save_payment p' now d)"

definition str_or :: "string \<Rightarrow> string \<Rightarrow> string" where
  "str_or a b = (if a = [] then b else a)"

definition waiting_payment :: "dict \<Rightarrow> payment \<Rightarrow> exn + payment" where
  "waiting_payment payment_data p =
     sbind (obj_or_empty payment_data ''virtualAccount'') (\<lambda>va.
     sbind (text_field va ''bankCode'') (\<lambda>bank.
     sbind (text_field va ''accountNumber'') (\<lambda>number.
       Inr (p\<lparr>pay_status := WaitingForDeposit,
              pay_key := (case dget_str payment_data ''paymentKey'' of
                 None \<Rightarrow> pay_key p | Some k \<Rightarrow> if k = [] then pay_key p else Some k),
              pay_method := str_or (case dget_str payment_data ''method'' of None \<Rightarrow> [] | Some m \<Rightarrow> m) (pay_method p),
              pay_va_bank := bank, pay_va_number := number, pay_va_due := dget_str va ''dueDate'',
              pay_secret := str_or (case dget_str payment_data ''secret'' of None \<Rightarrow> [] | Some m \<Rightarrow> m) (pay_secret p),
              pay_raw := sanitize_raw_response payment_data\<rparr>))))"

definition mark_as_waiting_for_deposit :: "payment \<Rightarrow> dict \<Rightarrow> timestamp \<Rightarrow> payment op" where
  "mark_as_waiting_for_deposit p payment_data now d = (case waiting_payment payment_data p of
     Inl e \<Rightarrow> Inl e | Inr p' \<Rightarrow> save_payment p' now d)"

definition mark_as_expired :: "payment \<Rightarrow> reason \<Rightarrow> timestamp \<Rightarrow> payment op" where
  "mark_as_expired p why now d = save_payment (p\<lparr>pay_status := Expired, pay_fail_reason := why\<rparr>) now d"

definition mark_as_failed :: "payment \<Rightarrow> reason \<Rightarrow> timestamp \<Rightarrow> payment op" where
  "mark_as_failed p why now d = save_payment (p\<lparr>pay_status := Aborted, pay_fail_reason := why\<rparr>) now d"

text \<open>\<^verbatim>\<open>cancels = cancel_data.get("cancels") or []\<close>, then its last entry, or the response itself.\<close>

definition latest_cancel :: "dict \<Rightarrow> exn + dict" where
  "latest_cancel cancel_data = (case map_of cancel_data ''cancels'' of
     None \<Rightarrow> Inr cancel_data
   | Some JNull \<Rightarrow> Inr cancel_data
   | Some (JList []) \<Rightarrow> Inr cancel_data
   | Some (JList (x # xs)) \<Rightarrow> (case last (x # xs) of JObj kv \<Rightarrow> Inr kv | _ \<Rightarrow> Inl AttributeError)
   | Some _ \<Rightarrow> Inl AttributeError)"

definition record_cancel :: "dict \<Rightarrow> payment \<Rightarrow> exn + payment" where
  "record_cancel cancel_data p =
     sbind (latest_cancel cancel_data) (\<lambda>latest.
     sbind (text_field latest ''cancelReason'') (\<lambda>why.
       Inr (p\<lparr>pay_cancel_reason := why, pay_canceled_at := dget_str latest ''canceledAt'',
              pay_raw := sanitize_raw_response cancel_data\<rparr>)))"

definition mark_as_canceled :: "payment \<Rightarrow> dict \<Rightarrow> timestamp \<Rightarrow> payment op" where
  "mark_as_canceled p cancel_data now d = (
     case record_cancel cancel_data
            (p\<lparr>pay_status := Canceled, pay_is_canceled := True, pay_canceled_amount := pay_amount p\<rparr>) of
       Inl e \<Rightarrow> Inl e | Inr p' \<Rightarrow> save_payment p' now d)"

definition mark_as_partial_canceled :: "payment \<Rightarrow> money \<Rightarrow> dict \<Rightarrow> timestamp \<Rightarrow> payment op" where
  "mark_as_partial_canceled p partial_amount cancel_data now d = (
     let canceled = pay_canceled_amount p + partial_amount;
         p1 = p\<lparr>pay_canceled_amount := canceled\<rparr>;
         p2 = (if canceled \<ge> pay_amount p then p1\<lparr>pay_status := Canceled, pay_is_canceled := True\<rparr>
               else p1\<lparr>pay_status := PartialCanceled\<rparr>)
     in case record_cancel cancel_data p2 of
          Inl e \<Rightarrow> Inl e | Inr p' \<Rightarrow> save_payment p' now d)"

definition toss_order_id_for :: "order \<Rightarrow> string" where
  "toss_order_id_for ord = o_order_number ord"

end
