(* ===== verification/Payment_Service.thy ===== *)
theory Payment_Service
  imports Payments
begin

text \<open>
  PaymentService (\<^verbatim>\<open>src/shopping/services/payment_service.py\<close>) and the customer's
  cancel button (\<^verbatim>\<open>OrderService.cancel_by_customer\<close>).  Every operation that is
  \<^verbatim>\<open>@transaction.atomic\<close> returns \<open>Inl\<close> and leaves the tables as they were when it
  raises; \<open>confirm_payment_async\<close> commits before it publishes, so it returns the new
  state with its error.  A \<open>user\<close> or \<open>order\<close> argument is the object the caller holds,
  which may be older than the row.
\<close>

section \<open>Idempotency keys\<close>

definition IDEMPOTENCY_KEY_TTL :: int where
  "IDEMPOTENCY_KEY_TTL = 60"

definition get_idempotency_cache_key :: "string \<Rightarrow> order \<Rightarrow> string" where
  "get_idempotency_cache_key key ord = ''payment:idempotency:''
     @ (case o_user ord of None \<Rightarrow> ''None'' | Some uid \<Rightarrow> str_nat uid) @ '':'' @ str_nat (o_id ord) @ '':'' @ key"

definition cache_get :: "string \<Rightarrow> timestamp \<Rightarrow> db \<Rightarrow> pk option" where
  "cache_get k now d = (case find (\<lambda>(k', _, _). k' = k) (cache d) of
     Some (_, v, expires) \<Rightarrow> if now < expires then Some v else None | None \<Rightarrow> None)"

definition cache_delete :: "string \<Rightarrow> db \<Rightarrow> db" where
  "cache_delete k d = d\<lparr>cache := filter (\<lambda>(k', _, _). k' \<noteq> k) (cache d)\<rparr>"

definition cache_set :: "string \<Rightarrow> pk \<Rightarrow> timestamp \<Rightarrow> db \<Rightarrow> db" where
  "cache_set k v expires d = (cache_delete k d)\<lparr>cache := (k, v, expires) # cache (cache_delete k d)\<rparr>"

definition no_key :: "string option \<Rightarrow> bool" where
  "no_key key \<longleftrightarrow> key = None \<or> key = Some []"

definition check_idempotency_key :: "string option \<Rightarrow> order \<Rightarrow> timestamp \<Rightarrow> db \<Rightarrow> payment option \<times> db" where
  "check_idempotency_key key ord now d = (
     if no_key key then (None, d)
     else let cache_key = get_idempotency_cache_key (the key) ord
       in case cache_get cache_key now d of
            None \<Rightarrow> (None, d)
          | Some payment_id \<Rightarrow>
              (case get_payment d payment_id of
                 Some p \<Rightarrow> if pay_order p = o_id ord then (Some p, d) else (None, cache_delete cache_key d)
               | None \<Rightarrow> (None, cache_delete cache_key d)))"

definition set_idempotency_key :: "string option \<Rightarrow> order \<Rightarrow> pk \<Rightarrow> timestamp \<Rightarrow> db \<Rightarrow> db" where
  "set_idempotency_key key ord payment_id now d = (
     if no_key key then d
     else cache_set (get_idempotency_cache_key (the key) ord) payment_id (now + IDEMPOTENCY_KEY_TTL) d)"

section \<open>Creating a payment\<close>

definition new_payment :: "pk \<Rightarrow> pk \<Rightarrow> string \<Rightarrow> money \<Rightarrow> string \<Rightarrow> string option \<Rightarrow> timestamp \<Rightarrow> payment" where
  "new_payment pid oid toss_order_id amount method key now = \<lparr>pay_id = pid, pay_order = oid, pay_key = None,
     pay_toss_order_id = toss_order_id, pay_idempotency_key = key, pay_amount = amount, pay_method = method,
     pay_card_company = [], pay_card_number = [], pay_installment = 0, pay_status = Ready, pay_approved_at = None,
     pay_receipt_url = [], pay_va_bank = [], pay_va_number = [], pay_va_due = None, pay_secret = [],
     pay_is_canceled = False, pay_canceled_amount = 0, pay_cancel_reason = [], pay_canceled_at = None,
     pay_raw = [], pay_fail_reason = NoReason, pay_updated_at = now, pay_created_at = now\<rparr>"

text \<open>\<^verbatim>\<open>order\<close> is one-to-one and \<^verbatim>\<open>toss_order_id\<close> is unique.\<close>

definition insert_payment :: "(pk \<Rightarrow> payment) \<Rightarrow> payment op" where
  "insert_payment mk d = (let p = mk (next_id d) in
     if list_ex (\<lambda>q. pay_order q = pay_order p \<or> pay_toss_order_id q = pay_toss_order_id p) (payments d)
     then Inl IntegrityError
     else Inr (p, d\<lparr>payments := payments d @ [p], next_id := Suc (next_id d)\<rparr>))"

text \<open>Deleting payments deletes their logs with them.\<close>

definition delete_payments_of :: "pk \<Rightarrow> db \<Rightarrow> db" where
  "delete_payments_of oid d = d\<lparr>payments := filter (\<lambda>p. pay_order p \<noteq> oid) (payments d),
     payment_logs := filter (\<lambda>l. \<not> list_ex (\<lambda>p. pay_order p = oid \<and> pay_id p = lg_payment l) (payments d)) (payment_logs d)\<rparr>"

definition create_payment :: "order \<Rightarrow> string \<Rightarrow> string option \<Rightarrow> timestamp \<Rightarrow> payment op" where
  "create_payment ord payment_method idempotency_key now d = (
     case check_idempotency_key idempotency_key ord now d of
       (Some existing, d) \<Rightarrow> Inr (existing, d)
     | (None, d) \<Rightarrow>
         rbind (of_get DoesNotExist (get_order d (o_id ord)) d) (\<lambda>_ d.
         rbind (insert_payment (\<lambda>pid. new_payment pid (o_id ord) (toss_order_id_for ord) (o_final_amount ord)
                  payment_method idempotency_key now) (delete_payments_of (o_id ord) d)) (\<lambda>p d.
           Inr (p, add_log (pay_id p) LRequest MsgRequested
             [(''order_id'', JNum (int (o_id ord))), (''total_amount'', JStr (str_int (o_total_amount ord))),
              (''used_points'', JNum (o_used_points ord)), (''amount'', JStr (str_int (o_final_amount ord))),
              (''payment_method'', JStr payment_method)]
             (set_idempotency_key idempotency_key ord (pay_id p) now d)))))"

section \<open>Pieces of a confirmation\<close>

text \<open>\<^verbatim>\<open>if order_item.product: ... sold_count=F("sold_count") + quantity\<close>.\<close>

definition count_sold :: "order_item \<Rightarrow> db \<Rightarrow> exn + db" where
  "count_sold item d = (case oi_product item of
     None \<Rightarrow> Inr d
   | Some pid \<Rightarrow> (case get_product d pid of
       None \<Rightarrow> Inl DoesNotExist
     | Some p \<Rightarrow> Inr (upd_product pid (map_sold (\<lambda>n. n + oi_quantity item)) d)))"

definition deactivate_carts_of :: "pk \<Rightarrow> db \<Rightarrow> db" where
  "deactivate_carts_of uid d = d\<lparr>carts := map (\<lambda>c.
     if c_user c = Some uid \<and> c_is_active c then c\<lparr>c_is_active := False\<rparr> else c) (carts d)\<rparr>"

definition set_order_paid :: "string \<Rightarrow> timestamp \<Rightarrow> order \<Rightarrow> order" where
  "set_order_paid method now ord = ord\<lparr>o_status := Paid, o_payment_method := method, o_updated_at := now\<rparr>"

definition membership_str :: "membership \<Rightarrow> string" where
  "membership_str m = (case m of Bronze \<Rightarrow> ''bronze'' | Silver \<Rightarrow> ''silver'' | Gold \<Rightarrow> ''gold'' | Vip \<Rightarrow> ''vip'')"

definition record_virtual_account_issued :: "payment \<Rightarrow> dict \<Rightarrow> timestamp \<Rightarrow> payment op" where
  "record_virtual_account_issued p payment_data now d =
     rbind (mark_as_waiting_for_deposit p payment_data now d) (\<lambda>p d.
       Inr (p, add_log (pay_id p) LApprove MsgVirtualAccountIssued payment_data d))"

record confirm_result =
  cr_payment :: payment
  cr_points :: int
  cr_receipt_url :: string
  cr_waiting :: bool

definition earn_info :: "order \<Rightarrow> user \<Rightarrow> dict" where
  "earn_info ord user = order_info ord @
     [(''payment_amount'', JStr (str_int (o_final_amount ord))),
      (''product_amount'', JStr (str_int (o_total_amount ord))),
      (''shipping_fee'', JStr (str_int (get_total_shipping_fee ord))),
      (''earn_rate'', JStr (str_int (o_earn_rate ord) @ ''%'')),
      (''membership_at_order'', JStr (membership_str (o_membership ord))),
      (''current_membership'', JStr (membership_str (u_membership user)))]"

text \<open>Step 6 of the confirmation: the points earned with the rate of the order.\<close>

definition earn_for_order :: "user \<Rightarrow> order \<Rightarrow> pk \<Rightarrow> timestamp \<Rightarrow> int op" where
  "earn_for_order user ord pid now d = (
     if o_final_amount ord > 0
     then let points_to_add = points_of_amount (o_total_amount ord) (o_earn_rate ord)
       in if points_to_add > 0
          then rbind (add_points (u_id user) points_to_add Earn (Some (o_id ord)) (earn_info ord user) now d) (\<lambda>_ d.
            Inr (points_to_add, add_log pid LApprove (MsgPointsEarned points_to_add)
              [(''points'', JNum points_to_add)]
              (upd_order (o_id ord) (\<lambda>r. r\<lparr>o_earned_points := points_to_add\<rparr>) d)))
          else Inr (points_to_add, d)
     else if o_used_points ord > 0
     then Inr (0, add_log pid LApprove (MsgPaidByPoints (o_used_points ord))
                    [(''used_points'', JNum (o_used_points ord))] d)
     else Inr (0, d))"

section \<open>Confirming a payment\<close>

definition confirmable :: "payment \<Rightarrow> bool" where
  "confirmable p \<longleftrightarrow> \<not> pay_is_paid p \<and> \<not> is_waiting_for_deposit p
     \<and> pay_status p \<notin> {Expired, Canceled, Aborted}"

definition confirm_payment_sync ::
  "http \<Rightarrow> pk \<Rightarrow> string \<Rightarrow> int \<Rightarrow> user \<Rightarrow> timestamp \<Rightarrow> confirm_result op" where
  "confirm_payment_sync http pid payment_key amount user now d =
     rbind (of_get DoesNotExist (get_payment d pid) d) (\<lambda>p d.
       if \<not> confirmable p then Inl PaymentConfirmError
       else rbind (of_get DoesNotExist (get_order d (pay_order p)) d) (\<lambda>ord d.
         case toss_confirm_payment http payment_key (pay_toss_order_id p) amount of
           Inl e \<Rightarrow> Inl (TossError (te_code e))
         | Inr payment_data \<Rightarrow>
             if dget_str payment_data ''status'' = Some ''WAITING_FOR_DEPOSIT''
             then rbind (record_virtual_account_issued p payment_data now d) (\<lambda>p d.
                    Inr (\<lparr>cr_payment = p, cr_points = 0, cr_receipt_url = [], cr_waiting = True\<rparr>, d))
             else rbind (mark_as_paid p payment_data now d) (\<lambda>p d.
                  case fold_res count_sold (items_of d (o_id ord)) d of
                    Inl e \<Rightarrow> Inl e
                  | Inr d1 \<Rightarrow>
                      let d2 = upd_order (o_id ord) (set_order_paid (pay_method p) now) d1;
                          d3 = deactivate_carts_of (u_id user) d2
                      in rbind (earn_for_order user ord pid now d3) (\<lambda>points d4.
                           Inr (\<lparr>cr_payment = p, cr_points = points, cr_receipt_url = pay_receipt_url p,
                                 cr_waiting = False\<rparr>,
                                add_log pid LApprove MsgApproved payment_data d4)))))"

text \<open>
  The status change is committed before the chain is published; the flag of the result is
  the answer \<^verbatim>\<open>processing\<close>.
\<close>

definition confirm_payment_async ::
  "pk \<Rightarrow> string \<Rightarrow> pk \<Rightarrow> int \<Rightarrow> user \<Rightarrow> timestamp \<Rightarrow> db \<Rightarrow> (exn + pk) \<times> db" where
  "confirm_payment_async pid payment_key oid amount user now d = (
     case get_payment d pid of
       None \<Rightarrow> (Inl DoesNotExist, d)
     | Some p \<Rightarrow>
         if pay_is_paid p then (Inl PaymentConfirmError, d)
         else if pay_status p = InProgress then (Inl PaymentConfirmError, d)
         else if is_waiting_for_deposit p then (Inl PaymentConfirmError, d)
         else if pay_status p \<in> {Expired, Canceled, Aborted} then (Inl PaymentConfirmError, d)
         else (case save_payment (p\<lparr>pay_status := InProgress, pay_key := Some payment_key\<rparr>) now d of
                 Inl e \<Rightarrow> (Inl PaymentConfirmError, d)
               | Inr (p, d1) \<Rightarrow>
                   (case publish (ConfirmChain payment_key oid amount (pay_toss_order_id p) pid (u_id user)) d1 of
                      Inl e \<Rightarrow> (Inl e, d1)
                    | Inr d2 \<Rightarrow> (Inr pid, d2))))"

section \<open>Cancelling a payment\<close>

record cancel_result =
  cx_payment :: payment
  cx_points_refunded :: int
  cx_points_deducted :: int

text \<open>The Korean texts are their UTF-8 bytes.\<close>

definition CUSTOMER_VA_CANCEL_REASON :: string where
  "CUSTOMER_VA_CANCEL_REASON = [CHR 0xEA, CHR 0xB3, CHR 0xA0, CHR 0xEA, CHR 0xB0, CHR 0x9D, CHR 0x20, CHR 0xEC, CHR 0xA3, CHR 0xBC,
     CHR 0xEB, CHR 0xAC, CHR 0xB8, CHR 0x20, CHR 0xEC, CHR 0xB7, CHR 0xA8, CHR 0xEC, CHR 0x86, CHR 0x8C,
     CHR 0x20, CHR ''('', CHR 0xEC, CHR 0x9E, CHR 0x85, CHR 0xEA, CHR 0xB8, CHR 0x88, CHR 0x20, CHR 0xEC,
     CHR 0xA0, CHR 0x84, CHR 0x20, CHR 0xEA, CHR 0xB0, CHR 0x80, CHR 0xEC, CHR 0x83, CHR 0x81, CHR 0xEA,
     CHR 0xB3, CHR 0x84, CHR 0xEC, CHR 0xA2, CHR 0x8C, CHR 0x20, CHR 0xEB, CHR 0xB0, CHR 0x98, CHR 0xEB,
     CHR 0x82, CHR 0xA9, CHR '')'']"

definition cancel_virtual_account_before_deposit :: "http \<Rightarrow> pk \<Rightarrow> user \<Rightarrow> timestamp \<Rightarrow> unit op" where
  "cancel_virtual_account_before_deposit http oid user now d = (
     case find (\<lambda>p. pay_order p = oid
            \<and> (case get_order d oid of None \<Rightarrow> False | Some ord \<Rightarrow> o_user ord = Some (u_id user))) (payments d) of
       None \<Rightarrow> Inl PaymentCancelError
     | Some p \<Rightarrow>
         if pay_status p \<noteq> WaitingForDeposit then Inl PaymentCancelError
         else rbind (of_get DoesNotExist (get_order d oid) d) (\<lambda>ord d.
           if o_status ord \<notin> {Pending, Confirmed} then Inl PaymentCancelError
           else case toss_cancel_payment http (pay_key p) CUSTOMER_VA_CANCEL_REASON None None None of
                  Inl e \<Rightarrow> Inl PaymentCancelError
                | Inr cancel_data \<Rightarrow>
                    rbind (mark_as_canceled p cancel_data now d) (\<lambda>p d.
                      cancel_order oid Canceled now
                        (add_log (pay_id p) LCancel MsgVirtualAccountReturned [(''order_id'', JNum (int oid))] d))))"

text \<open>Stock and sales counter of a paid item.\<close>

definition unsell_item :: "order_item \<Rightarrow> db \<Rightarrow> exn + db" where
  "unsell_item item d = (case oi_product item of
     None \<Rightarrow> Inr d
   | Some pid \<Rightarrow> (case get_product d pid of
       None \<Rightarrow> Inl DoesNotExist
     | Some p \<Rightarrow> Inr (upd_product pid (\<lambda>p. map_sold (\<lambda>n. max (n - oi_quantity item) 0)
                        (map_stock (\<lambda>s. s + oi_quantity item) p)) d)))"

definition cancel_info :: "order \<Rightarrow> string \<Rightarrow> dict" where
  "cancel_info ord why = order_info ord @ [(''cancel_reason'', JStr why)]"

text \<open>The check before the irreversible refund: what the later steps will need.\<close>

definition reclaimable_points :: "user \<Rightarrow> order \<Rightarrow> timestamp \<Rightarrow> db \<Rightarrow> int" where
  "reclaimable_points locked ord now d =
     min (u_points locked + o_used_points ord) (get_usable_points (u_id locked) True now d)"

text \<open>Step 10-1 of the cancellation.\<close>

definition refund_step :: "pk \<Rightarrow> pk \<Rightarrow> order \<Rightarrow> string \<Rightarrow> timestamp \<Rightarrow> int op" where
  "refund_step uid pid ord why now d = (
     if o_used_points ord > 0
     then rbind (refund_used_points uid (o_used_points ord) (o_id ord) CancelRefund (cancel_info ord why) now d) (\<lambda>_ d.
            Inr (o_used_points ord, add_log pid LCancel (MsgUsedPointsRefunded (o_used_points ord))
                   [(''points'', JNum (o_used_points ord))] d))
     else Inr (0, d))"

text \<open>Step 10-2.\<close>

definition reclaim_step :: "pk \<Rightarrow> pk \<Rightarrow> order \<Rightarrow> string \<Rightarrow> timestamp \<Rightarrow> int op" where
  "reclaim_step uid pid ord why now d = (
     if o_earned_points ord > 0
     then rbind (of_get DoesNotExist (get_user d uid) d) (\<lambda>u d.
       if u_points u < o_earned_points ord then Inl PaymentCancelError
       else rbind (use_points_fifo uid (o_earned_points ord) CancelDeduct (Some (o_id ord)) (cancel_info ord why) now d)
              (\<lambda>r d. if \<not> ur_success r then Inl ValueError
                     else Inr (o_earned_points ord, add_log pid LCancel (MsgEarnedPointsDeducted (o_earned_points ord))
                            [(''points'', JNum (- o_earned_points ord))] d)))
     else Inr (0, d))"

definition cancel_payment :: "http \<Rightarrow> pk \<Rightarrow> user \<Rightarrow> string \<Rightarrow> timestamp \<Rightarrow> cancel_result op" where
  "cancel_payment http pid user cancel_reason now d = (
     case get_payment d pid of
       None \<Rightarrow> Inl PaymentCancelError
     | Some p \<Rightarrow>
         rbind (of_get PaymentCancelError (get_order d (pay_order p)) d) (\<lambda>ord d.
         if o_user ord \<noteq> Some (u_id user) then Inl PaymentCancelError
         else if pay_is_canceled p then Inl PaymentCancelError
         else if pay_status p \<noteq> Done then Inl PaymentCancelError
         else if o_status ord \<notin> {Paid, OCanceled} then Inl PaymentCancelError
         else let order_already_canceled = (o_status ord = OCanceled)
           in rbind (if \<not> order_already_canceled \<and> o_earned_points ord > 0
                     then rbind (of_get DoesNotExist (get_user d (u_id user)) d) (\<lambda>locked d.
                            if reclaimable_points locked ord now d < o_earned_points ord
                            then Inl PaymentCancelError else Inr ((), d))
                     else Inr ((), d)) (\<lambda>_ d.
              case toss_cancel_payment http (pay_key p) cancel_reason None None None of
                Inl e \<Rightarrow> Inl PaymentCancelError
              | Inr cancel_data \<Rightarrow>
                  rbind (mark_as_canceled p cancel_data now d) (\<lambda>p d.
                  if order_already_canceled
                  then Inr (\<lparr>cx_payment = p, cx_points_refunded = 0, cx_points_deducted = 0\<rparr>,
                            add_log pid LCancel MsgRefundOfCanceledOrder
                              [(''cancel_reason'', JStr cancel_reason),
                               (''canceled_amount'', JStr (str_int (pay_canceled_amount p)))] d)
                  else case fold_res unsell_item (items_of d (o_id ord)) d of
                         Inl e \<Rightarrow> Inl e
                       | Inr d1 \<Rightarrow>
                           rbind (refund_step (u_id user) pid ord cancel_reason now
                                    (upd_order (o_id ord) (set_order_status OCanceled now) d1)) (\<lambda>refunded d2.
                           rbind (reclaim_step (u_id user) pid ord cancel_reason now d2) (\<lambda>deducted d3.
                             Inr (\<lparr>cx_payment = p, cx_points_refunded = refunded, cx_points_deducted = deducted\<rparr>,
                                  add_log pid LCancel MsgCancelCompleted
                                    [(''cancel_reason'', JStr cancel_reason),
                                     (''canceled_amount'', JStr (str_int (pay_canceled_amount p))),
                                     (''points_refunded'', JNum refunded), (''points_deducted'', JNum deducted)]
                                    d3)))))))"

section \<open>Payment by points only\<close>

text \<open>The status and the amounts are those of the caller's object \<open>ord\<close>; the row is read again afterwards.\<close>

definition complete_points_only_payment :: "order \<Rightarrow> user \<Rightarrow> timestamp \<Rightarrow> payment op" where
  "complete_points_only_payment ord user now d = (
     if o_status ord \<noteq> Confirmed then Inl PaymentConfirmError
     else if o_final_amount ord \<noteq> 0 then Inl PaymentConfirmError
     else if o_total_amount ord + get_total_shipping_fee ord - o_used_points ord > 0 then Inl PaymentConfirmError
     else rbind (of_get DoesNotExist (get_order d (o_id ord)) d) (\<lambda>row d.
       rbind (case payment_of d (o_id row) of
                Some p \<Rightarrow> Inr (p, d)
              | None \<Rightarrow> insert_payment (\<lambda>pid. new_payment pid (o_id row) (''POINTS-'' @ str_nat (o_id row)) 0
                          ''points'' None now) d) (\<lambda>p d.
       if pay_is_paid p then Inl PaymentConfirmError
       else let p = p\<lparr>pay_status := Done, pay_method := ''points'', pay_updated_at := now\<rparr>;
                d1 = upd_payment (pay_id p) (\<lambda>r. r\<lparr>pay_status := Done, pay_method := ''points'', pay_updated_at := now\<rparr>) d
         in case fold_res count_sold (items_of d1 (o_id row)) d1 of
              Inl e \<Rightarrow> Inl e
            | Inr d2 \<Rightarrow>
                Inr (p, add_log (pay_id p) LApprove (MsgPointsOnlyCompleted (o_used_points row))
                  ((''used_points'', JNum (o_used_points row)) # order_info row)
                  (deactivate_carts_of (u_id user)
                    (upd_order (o_id row) (set_order_paid ''points'' now) d2))))))"

section \<open>Stock check before payment\<close>

datatype issue_type = Inactive | Oversold

record stock_issue =
  si_item :: pk
  si_product :: pk
  si_issue :: issue_type
  si_requested :: int
  si_available :: int

definition item_issue :: "db \<Rightarrow> order_item \<Rightarrow> stock_issue list" where
  "item_issue d item = (case oi_product item of None \<Rightarrow> [] | Some pid \<Rightarrow>
     (case get_product d pid of None \<Rightarrow> []
      | Some p \<Rightarrow>
          if \<not> p_is_active p
          then [\<lparr>si_item = oi_id item, si_product = p_id p, si_issue = Inactive,
                 si_requested = oi_quantity item, si_available = 0\<rparr>]
          else if p_stock p < 0
          then [\<lparr>si_item = oi_id item, si_product = p_id p, si_issue = Oversold,
                 si_requested = oi_quantity item, si_available = max 0 (p_stock p + oi_quantity item)\<rparr>]
          else []))"

definition verify_order_stock :: "pk \<Rightarrow> db \<Rightarrow> bool \<times> stock_issue list" where
  "verify_order_stock oid d = (let issues = concat (map (item_issue d) (items_of d oid)) in
     if issues \<noteq> [] then (False, issues) else (True, []))"

section \<open>The customer's cancel button\<close>

definition CUSTOMER_ORDER_CANCEL_REASON :: string where
  "CUSTOMER_ORDER_CANCEL_REASON = [CHR 0xEA, CHR 0xB3, CHR 0xA0, CHR 0xEA, CHR 0xB0, CHR 0x9D, CHR 0x20, CHR 0xEC, CHR 0xA3, CHR 0xBC,
     CHR 0xEB, CHR 0xAC, CHR 0xB8, CHR 0x20, CHR 0xEC, CHR 0xB7, CHR 0xA8, CHR 0xEC, CHR 0x86, CHR 0x8C]"

definition as_order_error :: "exn + 'a \<Rightarrow> exn + 'a" where
  "as_order_error r = (case r of Inl PaymentCancelError \<Rightarrow> Inl OrderServiceError | _ \<Rightarrow> r)"

text \<open>The answer: whether money was refunded, and how much.\<close>

definition cancel_by_customer :: "http \<Rightarrow> order \<Rightarrow> user \<Rightarrow> timestamp \<Rightarrow> (bool \<times> int) op" where
  "cancel_by_customer http ord user now d = (
     if o_status ord = Paid
     then (case payment_of d (o_id ord) of
             None \<Rightarrow> Inl OrderServiceError
           | Some p \<Rightarrow> rbind (as_order_error (cancel_payment http (pay_id p) user CUSTOMER_ORDER_CANCEL_REASON now d))
               (\<lambda>res d. Inr ((True, pay_canceled_amount (cx_payment res)), d)))
     else if list_ex (\<lambda>p. pay_order p = o_id ord \<and> pay_status p = WaitingForDeposit) (payments d)
     then rbind (as_order_error (cancel_virtual_account_before_deposit http (o_id ord) user now d))
            (\<lambda>_ d. Inr ((False, 0), d))
     else rbind (cancel_order (o_id ord) Canceled now d) (\<lambda>_ d. Inr ((False, 0), d)))"

end
