(* ===== verification/Payment_Tasks.thy ===== *)
theory Payment_Tasks
  imports Payment_Service
begin

text \<open>
  The Celery tasks of a payment: \<^verbatim>\<open>src/shopping/tasks/payment_tasks.py\<close>, the retry policy
  of \<^verbatim>\<open>tasks/retry_policy.py\<close> and \<^verbatim>\<open>add_points_after_payment\<close> of
  \<^verbatim>\<open>tasks/point_tasks.py\<close>.

  A task runs outside a transaction: what it wrote before it raises stays.  It ends in one of
  three ways (\<open>outcome\<close>) together with the state it leaves.  The number of retries so far is the
  argument \<open>retries\<close>; \<open>Retried\<close> means that Celery will run the same task again.  Texts of
  error messages are represented by the error code they belong to.
\<close>

section \<open>Outcomes and retries\<close>

datatype 'a outcome = Returned 'a | Retried | Raised exn

type_synonym 'a task = "db \<Rightarrow> 'a outcome \<times> db"

text \<open>\<^verbatim>\<open>retry_unless_exhausted\<close>: the handling of exhaustion runs only when no retry is left.\<close>

definition retry_unless_exhausted :: "nat \<Rightarrow> nat \<Rightarrow> 'a task \<Rightarrow> 'a task" where
  "retry_unless_exhausted retries max_retries exhausted d =
     (if retries < max_retries then (Retried, d) else exhausted d)"

text \<open>\<^verbatim>\<open>raise retry_with_backoff(self, e)\<close>: without a retry left Celery raises \<open>e\<close> again.\<close>

definition retry_with_backoff :: "nat \<Rightarrow> nat \<Rightarrow> exn \<Rightarrow> 'a task" where
  "retry_with_backoff retries max_retries e = retry_unless_exhausted retries max_retries (Pair (Raised e))"

text \<open>\<^verbatim>\<open>...delay(...)\<close> followed by \<^verbatim>\<open>raise\<close>: a broker error replaces the error.\<close>

definition publish_and_raise :: "msg \<Rightarrow> exn \<Rightarrow> 'a task" where
  "publish_and_raise m e d = (case publish m d of Inl b \<Rightarrow> (Raised b, d) | Inr d' \<Rightarrow> (Raised e, d'))"

section \<open>The confirm call\<close>

text \<open>\<^verbatim>\<open>try: PaymentLog.objects.create(payment=Payment.objects.get(order_id=...)) except: log\<close>.\<close>

definition log_for_order :: "pk \<Rightarrow> log_type \<Rightarrow> log_msg \<Rightarrow> dict \<Rightarrow> db \<Rightarrow> db" where
  "log_for_order oid t m dat d = (case payment_of d oid of None \<Rightarrow> d | Some p \<Rightarrow> add_log (pay_id p) t m dat d)"

definition mark_confirm_aborted :: "pk \<Rightarrow> db \<Rightarrow> db" where
  "mark_confirm_aborted oid d = d\<lparr>payments := map (\<lambda>p.
     if pay_order p = oid then p\<lparr>pay_status := Aborted\<rparr> else p) (payments d)\<rparr>"

definition order_id_matches :: "dict \<Rightarrow> string \<Rightarrow> bool" where
  "order_id_matches payment_data expected \<longleftrightarrow> text_of_key (dget_str payment_data ''orderId'') = expected"

text \<open>\<^verbatim>\<open>totalAmount is not None and int(totalAmount) == int(amount)\<close>; the API documents a number.\<close>

definition amount_matches :: "dict \<Rightarrow> int \<Rightarrow> exn + bool" where
  "amount_matches payment_data amount = (case dget payment_data ''totalAmount'' of
     None \<Rightarrow> Inr False | Some (JNum i) \<Rightarrow> Inr (i = amount) | Some _ \<Rightarrow> Inl ValueError)"

definition approved_status :: "dict \<Rightarrow> bool" where
  "approved_status payment_data \<longleftrightarrow> dget_str payment_data ''status'' = Some ''DONE''
     \<or> dget_str payment_data ''status'' = Some ''WAITING_FOR_DEPOSIT''"

definition status_json :: "dict \<Rightarrow> json" where
  "status_json payment_data = (case dget payment_data ''status'' of None \<Rightarrow> JNull | Some v \<Rightarrow> v)"

text \<open>\<open>Returned None\<close>: the provider did not approve this payment.\<close>

definition reconcile_confirmed_payment ::
  "http \<Rightarrow> nat \<Rightarrow> nat \<Rightarrow> string \<Rightarrow> pk \<Rightarrow> int \<Rightarrow> toss_error \<Rightarrow> string \<Rightarrow> dict option task" where
  "reconcile_confirmed_payment http retries max_retries payment_key oid amount err toss_order_id d = (
     case toss_get_payment http (Some payment_key) of
       Inl lookup_error \<Rightarrow>
         retry_unless_exhausted retries max_retries (\<lambda>d.
           publish_and_raise (NotifyFailure (Some oid) ''reconcile_failed'' ''critical'') (TossError (te_code lookup_error))
             (log_for_order oid LError MsgReconcileUnconfirmed
                [(''error_code'', JStr (te_code err)), (''lookup_error_code'', JStr (te_code lookup_error)),
                 (''order_id'', JNum (int oid))] d)) d
     | Inr payment_data \<Rightarrow>
         (case amount_matches payment_data amount of
            Inl e \<Rightarrow> (Raised e, d)
          | Inr same_amount \<Rightarrow>
              if approved_status payment_data \<and> order_id_matches payment_data toss_order_id \<and> same_amount
              then (Returned (Some payment_data), log_for_order oid LApprove (MsgReconcileConfirmed (te_code err))
                      [(''error_code'', JStr (te_code err)), (''order_id'', JNum (int oid)),
                       (''status'', status_json payment_data)] d)
              else (Returned None, d)))"

definition CONFIRM_MAX_RETRIES :: nat where
  "CONFIRM_MAX_RETRIES = 3"

text \<open>The decision to roll back: the payment is aborted first, then the rollback is published.\<close>

definition abort_and_rollback :: "pk \<Rightarrow> reason \<Rightarrow> toss_error \<Rightarrow> dict task" where
  "abort_and_rollback oid why err d =
     publish_and_raise (RollbackPayment oid why) (TossError (te_code err)) (mark_confirm_aborted oid d)"

text \<open>What happens with an error that is not resolved by a lookup.\<close>

definition confirm_error :: "nat \<Rightarrow> pk \<Rightarrow> toss_error \<Rightarrow> dict task" where
  "confirm_error retries oid err d = (
     let d1 = log_for_order oid LError (MsgConfirmError (te_code err)) [(''error_code'', JStr (te_code err))] d
     in if te_code err \<in> set TOSS_NON_RETRYABLE_ERRORS
        then abort_and_rollback oid (ConfirmRejected (te_code err)) err d1
        else if te_code err \<in> set TOSS_RETRYABLE_ERRORS
        then retry_unless_exhausted retries CONFIRM_MAX_RETRIES
               (abort_and_rollback oid (ConfirmRetriesExceeded (te_code err)) err) d1
        else if te_status err \<ge> 500
        then retry_unless_exhausted retries CONFIRM_MAX_RETRIES
               (abort_and_rollback oid (ServerRetriesExceeded (te_code err)) err) d1
        else abort_and_rollback oid (ConfirmRejected (te_code err)) err d1)"

text \<open>\<open>timed_out\<close>: the soft time limit of the task fires while it waits for the answer.\<close>

definition call_toss_confirm_api ::
  "http \<Rightarrow> bool \<Rightarrow> nat \<Rightarrow> string \<Rightarrow> pk \<Rightarrow> int \<Rightarrow> string option \<Rightarrow> dict task" where
  "call_toss_confirm_api http timed_out retries payment_key oid amount toss_order_id d = (
     let toss_order_id = (case toss_order_id of None \<Rightarrow> str_nat oid | Some s \<Rightarrow> str_or s (str_nat oid))
     in if timed_out
        then retry_unless_exhausted retries CONFIRM_MAX_RETRIES
               (publish_and_raise (NotifyFailure (Some oid) ''confirm_timeout_unresolved'' ''critical'') SoftTimeLimit)
               (log_for_order oid LError MsgConfirmTimeout
                  [(''error_code'', JStr ''TIMEOUT''), (''order_id'', JNum (int oid))] d)
        else case toss_confirm_payment http payment_key toss_order_id amount of
               Inr payment_data \<Rightarrow> (Returned payment_data, d)
             | Inl err \<Rightarrow>
                 if te_code err \<in> set TOSS_RECONCILE_ERRORS
                 then (case reconcile_confirmed_payment http retries CONFIRM_MAX_RETRIES payment_key oid amount err
                              toss_order_id d of
                         (Returned (Some payment_data), d1) \<Rightarrow> (Returned payment_data, d1)
                       | (Returned None, d1) \<Rightarrow> confirm_error retries oid err d1
                       | (Retried, d1) \<Rightarrow> (Retried, d1)
                       | (Raised e, d1) \<Rightarrow> (Raised e, d1))
                 else confirm_error retries oid err d)"

section \<open>Finalizing\<close>

datatype finalize_result = FinalizedBefore | FinalizedWaiting pk | FinalizedCanceled pk | Finalized pk

text \<open>
  \<^verbatim>\<open>Cart.objects.filter(user_id=user_id, is_active=True)\<close>; with \<open>None\<close> Django asks for
  \<^verbatim>\<open>user_id IS NULL\<close>.
\<close>

definition deactivate_carts_where :: "pk option \<Rightarrow> db \<Rightarrow> db" where
  "deactivate_carts_where user_id d = d\<lparr>carts := map (\<lambda>c.
     if c_user c = user_id \<and> c_is_active c then c\<lparr>c_is_active := False\<rparr> else c) (carts d)\<rparr>"

definition finalize_tx :: "dict \<Rightarrow> pk \<Rightarrow> pk option \<Rightarrow> timestamp \<Rightarrow> finalize_result op" where
  "finalize_tx toss_response pid user_id now d =
     rbind (of_get DoesNotExist (get_payment d pid) d) (\<lambda>p d.
       if pay_is_paid p then Inr (FinalizedBefore, d)
       else if dget_str toss_response ''status'' = Some ''WAITING_FOR_DEPOSIT''
       then rbind (record_virtual_account_issued p toss_response now d) (\<lambda>p d. Inr (FinalizedWaiting (pay_order p), d))
       else rbind (of_get DoesNotExist (get_order d (pay_order p)) d) (\<lambda>ord d.
            rbind (mark_as_paid p toss_response now d) (\<lambda>p d.
              if o_status ord = OCanceled
              then Inr (FinalizedCanceled (o_id ord), add_log pid LError MsgCanceledOrderCharged toss_response d)
              else case fold_res count_sold (items_of d (o_id ord)) d of
                     Inl e \<Rightarrow> Inl e
                   | Inr d1 \<Rightarrow> Inr (Finalized (o_id ord), add_log pid LApprove MsgApproved toss_response
                       (deactivate_carts_where user_id
                         (upd_order (o_id ord) (set_order_paid (pay_method p) now) d1))))))"

definition alert_canceled_order_charged :: "pk \<Rightarrow> db \<Rightarrow> db" where
  "alert_canceled_order_charged oid d = try_publish (NotifyFailure (Some oid) ''canceled_order_charged'' ''critical'') d"

definition alert_finalize_exhausted :: "pk \<Rightarrow> db \<Rightarrow> db" where
  "alert_finalize_exhausted pid d = (case get_payment d pid of
     None \<Rightarrow> try_publish (NotifyFailure None ''finalize_exhausted'' ''critical'') d
   | Some p \<Rightarrow> try_publish (NotifyFailure (Some (pay_order p)) ''finalize_exhausted'' ''critical'')
                 (add_log pid LError MsgFinalizeExhausted [] d))"

definition FINALIZE_MAX_RETRIES :: nat where
  "FINALIZE_MAX_RETRIES = 5"

definition finalize_failed :: "nat \<Rightarrow> pk \<Rightarrow> exn \<Rightarrow> finalize_result task" where
  "finalize_failed retries pid e = retry_unless_exhausted retries FINALIZE_MAX_RETRIES
     (\<lambda>d. (Raised e, alert_finalize_exhausted pid d))"

text \<open>The points are earned by a task of its own, published after the commit.\<close>

definition finalize_payment_confirm :: "nat \<Rightarrow> dict \<Rightarrow> pk \<Rightarrow> pk option \<Rightarrow> timestamp \<Rightarrow> finalize_result task" where
  "finalize_payment_confirm retries toss_response pid user_id now d = (
     case finalize_tx toss_response pid user_id now d of
       Inl e \<Rightarrow> finalize_failed retries pid e d
     | Inr (Finalized oid, d1) \<Rightarrow>
         if (case get_order d1 oid of None \<Rightarrow> False | Some ord \<Rightarrow> o_final_amount ord > 0)
         then (case publish (AddPointsAfterPayment user_id oid) d1 of
                 Inl e \<Rightarrow> finalize_failed retries pid e d1
               | Inr d2 \<Rightarrow> (Returned (Finalized oid), d2))
         else (Returned (Finalized oid), d1)
     | Inr (FinalizedCanceled oid, d1) \<Rightarrow> (Returned (FinalizedCanceled oid), alert_canceled_order_charged oid d1)
     | Inr (r, d1) \<Rightarrow> (Returned r, d1))"

section \<open>Rolling back\<close>

datatype rollback_result =
    RolledBackBefore | RollbackOfPaidOrder | RollbackSkipped order_status | RolledBack int int | RollbackOrderNotFound

definition restored_count :: "order_item list \<Rightarrow> int" where
  "restored_count is = sum_list (map oi_quantity (filter (\<lambda>i. oi_product i \<noteq> None) is))"

definition set_payment_failed :: "reason \<Rightarrow> timestamp \<Rightarrow> order \<Rightarrow> order" where
  "set_payment_failed why now ord = ord\<lparr>o_status := PaymentFailed,
     o_failure_reason := (if why = NoReason then ConfirmFailed else why), o_updated_at := now\<rparr>"

definition abort_payment_of :: "pk \<Rightarrow> reason \<Rightarrow> int \<Rightarrow> int \<Rightarrow> db \<Rightarrow> db" where
  "abort_payment_of oid why stock_restored points_refunded d = (case payment_of d oid of
     None \<Rightarrow> d
   | Some p \<Rightarrow> add_log (pay_id p) LRollback (MsgRolledBack why)
       [(''order_id'', JNum (int oid)), (''stock_restored'', JNum stock_restored),
        (''points_refunded'', JNum points_refunded)]
       (if pay_status p \<in> {Aborted, Expired} then d
        else upd_payment (pay_id p) (\<lambda>r. r\<lparr>pay_status := Aborted\<rparr>) d))"

definition rollback_tx :: "pk \<Rightarrow> reason \<Rightarrow> timestamp \<Rightarrow> order \<Rightarrow> rollback_result op" where
  "rollback_tx oid why now ord d = (
     if o_status ord \<in> {PaymentFailed, OCanceled} then Inr (RolledBackBefore, d)
     else if o_status ord = Paid then Inr (RollbackOfPaidOrder, d)
     else if o_status ord \<notin> {Pending, Confirmed} then Inr (RollbackSkipped (o_status ord), d)
     else let stock_restored = restored_count (items_of d oid);
              d1 = fold restore_item (items_of d oid) d
       in rbind (if o_used_points ord > 0
                 then rbind (of_get AttributeError (o_user ord) d1) (\<lambda>uid d1.
                        rbind (refund_used_points uid (o_used_points ord) oid PaymentFailRefund (order_info ord) now d1)
                          (\<lambda>_ d2. Inr (o_used_points ord, d2)))
                 else Inr (0, d1)) (\<lambda>points_refunded d2.
            Inr (RolledBack stock_restored points_refunded,
                 abort_payment_of oid why stock_restored points_refunded
                   (upd_order oid (set_payment_failed why now) d2))))"

definition ROLLBACK_MAX_RETRIES :: nat where
  "ROLLBACK_MAX_RETRIES = 3"

definition rollback_payment_failure :: "nat \<Rightarrow> pk \<Rightarrow> reason \<Rightarrow> timestamp \<Rightarrow> rollback_result task" where
  "rollback_payment_failure retries oid why now d = (
     case get_order d oid of
       None \<Rightarrow> (Returned RollbackOrderNotFound, d)
     | Some ord \<Rightarrow> (case rollback_tx oid why now ord d of
         Inl e \<Rightarrow> retry_with_backoff retries ROLLBACK_MAX_RETRIES e d
       | Inr (r, d1) \<Rightarrow> (Returned r, d1)))"

section \<open>Periodic checks\<close>

record orphan_result =
  or_detected :: nat
  or_triggered :: nat
  or_errors :: "pk list"

text \<open>Newest first: rows are in the order of their creation.\<close>

definition orphaned_orders :: "timestamp \<Rightarrow> db \<Rightarrow> order list" where
  "orphaned_orders threshold_time d = rev (filter (\<lambda>ord. o_status ord = Confirmed \<and> o_updated_at ord < threshold_time
     \<and> list_ex (\<lambda>p. pay_order p = o_id ord \<and> pay_status p = Aborted) (payments d)) (orders d))"

definition trigger_rollback :: "int \<Rightarrow> order \<Rightarrow> orphan_result \<times> db \<Rightarrow> orphan_result \<times> db" where
  "trigger_rollback threshold_minutes ord st = (case st of (r, d) \<Rightarrow>
     let r = r\<lparr>or_detected := Suc (or_detected r)\<rparr>
     in case publish (RollbackPayment (o_id ord) (OrphanDetected threshold_minutes)) d of
          Inl e \<Rightarrow> (r\<lparr>or_errors := or_errors r @ [o_id ord]\<rparr>, d)
        | Inr d' \<Rightarrow> (r\<lparr>or_triggered := Suc (or_triggered r)\<rparr>, d'))"

definition detect_orphaned_orders :: "int \<Rightarrow> timestamp \<Rightarrow> db \<Rightarrow> orphan_result \<times> db" where
  "detect_orphaned_orders threshold_minutes now d =
     fold (trigger_rollback threshold_minutes) (orphaned_orders (now - threshold_minutes * 60) d)
       (\<lparr>or_detected = 0, or_triggered = 0, or_errors = []\<rparr>, d)"

definition is_unresolved :: "log_msg \<Rightarrow> bool" where
  "is_unresolved m \<longleftrightarrow> (case m of MsgReconcileUnresolved _ \<Rightarrow> True | _ \<Rightarrow> False)"

text \<open>Recorded and announced only once per payment; the flag says whether it was new.\<close>

definition flag_stalled_payment_unresolved :: "payment \<Rightarrow> string \<Rightarrow> db \<Rightarrow> bool \<times> db" where
  "flag_stalled_payment_unresolved p why d = (
     if list_ex (\<lambda>l. lg_payment l = pay_id p \<and> is_unresolved (lg_message l)) (payment_logs d) then (False, d)
     else (True, try_publish (NotifyFailure (Some (pay_order p)) ''stalled_payment_unresolved'' ''critical'')
            (add_log (pay_id p) LError (MsgReconcileUnresolved why)
               [(''order_id'', JNum (int (pay_order p))),
                (''payment_key'', case pay_key p of None \<Rightarrow> JNull | Some k \<Rightarrow> JStr k), (''reason'', JStr why)] d)))"

record stalled_result =
  st_candidates :: nat
  st_refinalized :: nat
  st_unresolved :: nat
  st_errors :: "pk list"

definition stalled_payments :: "timestamp \<Rightarrow> db \<Rightarrow> payment list" where
  "stalled_payments cutoff d = rev (filter (\<lambda>p. pay_status p = InProgress \<and> pay_updated_at p < cutoff) (payments d))"

definition count_unresolved :: "stalled_result \<Rightarrow> bool \<times> db \<Rightarrow> stalled_result \<times> db" where
  "count_unresolved r fl = (if fst fl then r\<lparr>st_unresolved := Suc (st_unresolved r)\<rparr> else r, snd fl)"

text \<open>The conjunction is evaluated from the left: the amount is read only for the right order.\<close>

definition stalled_matches :: "payment \<Rightarrow> dict \<Rightarrow> exn + bool" where
  "stalled_matches p payment_data = (
     if order_id_matches payment_data (str_or (pay_toss_order_id p) (str_nat (pay_order p)))
     then amount_matches payment_data (pay_amount p) else Inr False)"

definition refinalize :: "payment \<Rightarrow> dict \<Rightarrow> db \<Rightarrow> (exn + unit) \<times> db" where
  "refinalize p payment_data d = (
     let d1 = add_log (pay_id p) LApprove (MsgReconcileRefinalized (text_of_key (dget_str payment_data ''status'')))
                [(''status'', status_json payment_data), (''order_id'', JNum (int (pay_order p)))] d
     in case publish (FinalizeConfirm payment_data (pay_id p)
               (case get_order d (pay_order p) of None \<Rightarrow> None | Some ord \<Rightarrow> o_user ord)) d1 of
          Inl e \<Rightarrow> (Inl e, d1) | Inr d2 \<Rightarrow> (Inr (), d2))"

definition reconcile_one :: "http \<Rightarrow> payment \<Rightarrow> stalled_result \<times> db \<Rightarrow> stalled_result \<times> db" where
  "reconcile_one http p st = (case st of (r0, d) \<Rightarrow>
     let r = r0\<lparr>st_candidates := Suc (st_candidates r0)\<rparr>; failed = r\<lparr>st_errors := st_errors r @ [pay_id p]\<rparr>
     in if no_key (pay_key p) then count_unresolved r (flag_stalled_payment_unresolved p ''no payment_key'' d)
        else case toss_get_payment http (pay_key p) of
               Inl lookup_error \<Rightarrow>
                 if te_status lookup_error = 404
                 then count_unresolved r (flag_stalled_payment_unresolved p ''unknown to the provider'' d)
                 else (failed, d)
             | Inr payment_data \<Rightarrow>
                 (case stalled_matches p payment_data of
                    Inl e \<Rightarrow> (failed, d)
                  | Inr matches \<Rightarrow>
                      if approved_status payment_data \<and> matches
                      then (case refinalize p payment_data d of
                              (Inl e, d1) \<Rightarrow> (failed, d1)
                            | (Inr _, d1) \<Rightarrow> (r\<lparr>st_refinalized := Suc (st_refinalized r)\<rparr>, d1))
                      else count_unresolved r (flag_stalled_payment_unresolved p ''not approved or no match'' d)))"

definition reconcile_stalled_payments :: "http \<Rightarrow> int \<Rightarrow> timestamp \<Rightarrow> db \<Rightarrow> stalled_result \<times> db" where
  "reconcile_stalled_payments http stall_minutes now d =
     fold (reconcile_one http) (stalled_payments (now - stall_minutes * 60) d)
       (\<lparr>st_candidates = 0, st_refinalized = 0, st_unresolved = 0, st_errors = []\<rparr>, d)"

section \<open>Earning points after a payment\<close>

datatype earn_result = EarnedBefore | EarnSkipped | Earned int | EarnFailed

definition order_earned :: "order \<Rightarrow> db \<Rightarrow> bool" where
  "order_earned ord d \<longleftrightarrow> o_earned_points ord > 0
     \<or> list_ex (\<lambda>h. ph_order h = Some (o_id ord) \<and> ph_type h = Earn) (histories d)"

definition task_earn_info :: "order \<Rightarrow> user \<Rightarrow> dict" where
  "task_earn_info ord user = order_info ord @
     [(''payment_amount'', JStr (str_int (o_final_amount ord))),
      (''product_amount'', JStr (str_int (o_total_amount ord))),
      (''shipping_fee'', JStr (str_int (get_total_shipping_fee ord))),
      (''earn_rate'', JStr (str_int (get_earn_rate user) @ ''%'')),
      (''membership_level'', JStr (membership_str (u_membership user)))]"

definition earn_tx :: "user \<Rightarrow> order \<Rightarrow> timestamp \<Rightarrow> earn_result op" where
  "earn_tx user ord now d = (
     if order_earned ord d then Inr (EarnedBefore, d)
     else if o_final_amount ord \<le> 0 then Inr (EarnSkipped, d)
     else let points_to_add = points_of_amount (o_total_amount ord) (get_earn_rate user)
       in if points_to_add \<le> 0 then Inr (EarnSkipped, d)
          else rbind (add_points (u_id user) points_to_add Earn (Some (o_id ord)) (task_earn_info ord user) now d) (\<lambda>_ d.
            Inr (Earned points_to_add, log_for_order (o_id ord) LApprove (MsgPointsEarned points_to_add)
              [(''points'', JNum points_to_add)]
              (upd_order (o_id ord) (\<lambda>r. r\<lparr>o_earned_points := points_to_add\<rparr>) d))))"

definition EARN_MAX_RETRIES :: nat where
  "EARN_MAX_RETRIES = 5"

definition add_points_after_payment :: "nat \<Rightarrow> pk option \<Rightarrow> pk \<Rightarrow> timestamp \<Rightarrow> earn_result task" where
  "add_points_after_payment retries user_id oid now d = (
     case get_order d oid of
       None \<Rightarrow> (Returned EarnFailed, d)
     | Some ord \<Rightarrow> (case (case user_id of None \<Rightarrow> None | Some uid \<Rightarrow> get_user d uid) of
         None \<Rightarrow> (Returned EarnFailed, d)
       | Some user \<Rightarrow> (case earn_tx user ord now d of
           Inl e \<Rightarrow> retry_with_backoff retries EARN_MAX_RETRIES e d
         | Inr (r, d1) \<Rightarrow> (Returned r, d1))))"

end
