(* ===== verification/Webhooks.thy ===== *)
theory Webhooks
  imports Payment_Tasks
begin

text \<open>
  Webhooks of the payment provider: \<^verbatim>\<open>src/shopping/webhooks/toss_webhook_view.py\<close> (the entry
  point, with the two serializers of its bodies) and
  \<^verbatim>\<open>src/shopping/services/toss_webhook_service.py\<close> (one handler per payment status).

  A handler that is \<^verbatim>\<open>@transaction.atomic\<close> is an operation; what it registers with
  \<^verbatim>\<open>transaction.on_commit\<close> is the last thing it does.  \<open>handle_payment_failed\<close> is not
  atomic: it leaves what it wrote when it raises.
\<close>

section \<open>Duplicates and the event log\<close>

definition WEBHOOK_EVENT_TTL :: int where
  "WEBHOOK_EVENT_TTL = 60"

definition get_webhook_cache_key :: "string \<Rightarrow> string \<Rightarrow> string" where
  "get_webhook_cache_key order_id event_type = ''webhook:toss:'' @ order_id @ '':'' @ event_type"

definition is_webhook_duplicate :: "string \<Rightarrow> string \<Rightarrow> timestamp \<Rightarrow> db \<Rightarrow> bool" where
  "is_webhook_duplicate order_id event_type now d \<longleftrightarrow> cache_get (get_webhook_cache_key order_id event_type) now d \<noteq> None"

text \<open>\<^verbatim>\<open>cache.add\<close> writes only when the key is absent.\<close>

definition mark_webhook_processed :: "string \<Rightarrow> string \<Rightarrow> timestamp \<Rightarrow> db \<Rightarrow> db" where
  "mark_webhook_processed order_id event_type now d = (let k = get_webhook_cache_key order_id event_type in
     if cache_get k now d = None then cache_set k 1 (now + WEBHOOK_EVENT_TTL) d else d)"

definition log_webhook_event :: "string \<Rightarrow> string \<Rightarrow> db \<Rightarrow> db" where
  "log_webhook_event order_id event_type d = d\<lparr>webhook_events := webhook_events d @
     [\<lparr>we_event_type = event_type, we_order_id = order_id\<rparr>]\<rparr>"

definition find_toss_payment :: "db \<Rightarrow> string \<Rightarrow> payment option" where
  "find_toss_payment d order_id = find (\<lambda>p. pay_toss_order_id p = order_id) (payments d)"

definition event_order_id :: "dict \<Rightarrow> string" where
  "event_order_id event_data = text_of_key (dget_str event_data ''orderId'')"

section \<open>Stock and points\<close>

definition restore_sold_item :: "order_item \<Rightarrow> db \<Rightarrow> db" where
  "restore_sold_item item d = (case oi_product item of
     None \<Rightarrow> d
   | Some pid \<Rightarrow> upd_product pid (\<lambda>p.
       if p_sold_count p \<ge> oi_quantity item
       then map_sold (\<lambda>n. n - oi_quantity item) (map_stock (\<lambda>s. s + oi_quantity item) p)
       else map_sold (\<lambda>_. 0) (map_stock (\<lambda>s. s + oi_quantity item) p)) d)"

definition restore_stock_for_order :: "pk \<Rightarrow> bool \<Rightarrow> db \<Rightarrow> db" where
  "restore_stock_for_order oid restore_sold_count d =
     fold (if restore_sold_count then restore_sold_item else restore_item) (items_of d oid) d"

text \<open>The flag says whether the points were reclaimed; if not, the payment log keeps the amount.\<close>

definition reclaim_earned_points :: "pk \<Rightarrow> order \<Rightarrow> pk \<Rightarrow> timestamp \<Rightarrow> bool op" where
  "reclaim_earned_points uid ord pid now d =
     rbind (use_points_fifo uid (o_earned_points ord) CancelDeduct (Some (o_id ord)) (order_info ord) now d) (\<lambda>r d.
       if ur_success r then Inr (True, d)
       else Inr (False, add_log pid LError (MsgEarnedNotReclaimed (o_earned_points ord))
              [(''order_id'', JNum (int (o_id ord))), (''amount'', JNum (o_earned_points ord))] d))"

section \<open>Handlers\<close>

definition set_order_paid_by :: "string \<Rightarrow> timestamp \<Rightarrow> order \<Rightarrow> order" where
  "set_order_paid_by method now ord = set_order_paid (str_or method ''card'') now ord"

text \<open>\<^verbatim>\<open>if order.user and order.earned_points == 0\<close>: the user's current rate.\<close>

definition webhook_earn :: "order \<Rightarrow> timestamp \<Rightarrow> unit op" where
  "webhook_earn ord now d = (case o_user ord of
     None \<Rightarrow> Inr ((), d)
   | Some uid \<Rightarrow>
       if o_earned_points ord \<noteq> 0 then Inr ((), d)
       else rbind (of_get DoesNotExist (get_user d uid) d) (\<lambda>user d.
         let points_to_add = points_of_amount (o_total_amount ord) (get_earn_rate user)
         in if points_to_add > 0
            then rbind (add_points uid points_to_add Earn (Some (o_id ord))
                    [(''source'', JStr ''webhook''), (''earn_rate'', JStr (str_int (get_earn_rate user) @ ''%''))] now d)
                  (\<lambda>_ d. Inr ((), upd_order (o_id ord) (\<lambda>r. r\<lparr>o_earned_points := points_to_add\<rparr>) d))
            else Inr ((), d)))"

text \<open>The part of the handler after the payment is marked paid.\<close>

definition webhook_pay_order :: "dict \<Rightarrow> string \<Rightarrow> payment \<Rightarrow> order \<Rightarrow> timestamp \<Rightarrow> unit op" where
  "webhook_pay_order event_data order_id p ord now d = (
     if o_status ord = OCanceled
     then Inr ((), try_publish (NotifyFailure (Some (o_id ord)) ''canceled_order_charged'' ''critical'')
            (mark_webhook_processed order_id ''DONE'' now
              (add_log (pay_id p) LError MsgChargedOnCanceledOrder event_data d)))
     else if o_status ord = Paid
     then Inr ((), mark_webhook_processed order_id ''DONE'' now (log_webhook_event order_id ''DONE'' d))
     else case fold_res count_sold (items_of d (o_id ord)) d of
            Inl e \<Rightarrow> Inl e
          | Inr d1 \<Rightarrow>
              rbind (webhook_earn ord now (deactivate_carts_where (o_user ord)
                       (upd_order (o_id ord) (set_order_paid_by (pay_method p) now) d1))) (\<lambda>_ d2.
                Inr ((), mark_webhook_processed order_id ''DONE'' now (log_webhook_event order_id ''DONE''
                       (add_log (pay_id p) LWebhook MsgWebhookDone event_data d2)))))"

definition handle_payment_done :: "dict \<Rightarrow> timestamp \<Rightarrow> unit op" where
  "handle_payment_done event_data now d = (let order_id = event_order_id event_data in
     if is_webhook_duplicate order_id ''DONE'' now d then Inr ((), d)
     else case find_toss_payment d order_id of
            None \<Rightarrow> Inr ((), d)
          | Some p \<Rightarrow>
              if pay_is_paid p then Inr ((), d)
              else if pay_status p = Aborted
              then Inr ((), try_publish (NotifyFailure (Some (pay_order p)) ''charged_but_failed'' ''critical'')
                     (add_log (pay_id p) LError MsgChargedButFailed event_data d))
              else if pay_status p = Canceled then Inr ((), d)
              else if pay_status p = Expired
              then Inr ((), add_log (pay_id p) LError MsgDepositAfterExpiry event_data d)
              else rbind (of_get DoesNotExist (get_order d (pay_order p)) d) (\<lambda>ord d.
                   rbind (mark_as_paid p event_data now d) (\<lambda>p d. webhook_pay_order event_data order_id p ord now d)))"

text \<open>Points of a cancelled payment: earned ones are reclaimed, used ones refunded.\<close>

definition webhook_settle_points :: "order \<Rightarrow> pk \<Rightarrow> timestamp \<Rightarrow> unit op" where
  "webhook_settle_points ord pid now d = (case o_user ord of
     None \<Rightarrow> Inr ((), d)
   | Some uid \<Rightarrow>
       rbind (if o_status ord \<in> {Paid, Preparing} \<and> o_earned_points ord > 0
              then rbind (reclaim_earned_points uid ord pid now d) (\<lambda>_ d. Inr ((), d)) else Inr ((), d)) (\<lambda>_ d.
       if o_status ord \<in> {Confirmed, Paid, Preparing} \<and> o_used_points ord > 0
       then rbind (refund_used_points uid (o_used_points ord) (o_id ord) CancelRefund
                     (order_info ord @ [(''source'', JStr ''webhook'')]) now d) (\<lambda>_ d. Inr ((), d))
       else Inr ((), d)))"

definition handle_payment_canceled :: "dict \<Rightarrow> timestamp \<Rightarrow> unit op" where
  "handle_payment_canceled event_data now d = (let order_id = event_order_id event_data in
     if is_webhook_duplicate order_id ''CANCELED'' now d then Inr ((), d)
     else case find_toss_payment d order_id of
            None \<Rightarrow> Inr ((), d)
          | Some p \<Rightarrow>
              if pay_is_canceled p then Inr ((), d)
              else if pay_status p = Aborted then Inr ((), d)
              else rbind (mark_as_canceled p event_data now d) (\<lambda>p d.
                   rbind (of_get DoesNotExist (get_order d (pay_order p)) d) (\<lambda>ord d.
                     if o_status ord = OCanceled
                     then Inr ((), mark_webhook_processed order_id ''CANCELED'' now (log_webhook_event order_id ''CANCELED'' d))
                     else let d1 = (if o_status ord \<in> {Paid, Preparing} then restore_stock_for_order (o_id ord) True d
                                    else if o_status ord = Confirmed then restore_stock_for_order (o_id ord) False d
                                    else d)
                       in rbind (webhook_settle_points ord (pay_id p) now d1) (\<lambda>_ d2.
                            Inr ((), mark_webhook_processed order_id ''CANCELED'' now
                              (log_webhook_event order_id ''CANCELED''
                                (add_log (pay_id p) LWebhook MsgWebhookCanceled event_data
                                  (upd_order (o_id ord) (set_order_status OCanceled now) d2))))))))"

definition uncount_sold :: "order_item \<Rightarrow> db \<Rightarrow> db" where
  "uncount_sold item d = (case oi_product item of
     None \<Rightarrow> d
   | Some pid \<Rightarrow> upd_product pid (\<lambda>p.
       if p_sold_count p \<ge> oi_quantity item then map_sold (\<lambda>n. n - oi_quantity item) p else p) d)"

definition set_order_unpaid :: "int \<Rightarrow> timestamp \<Rightarrow> order \<Rightarrow> order" where
  "set_order_unpaid earned now ord = ord\<lparr>o_status := Confirmed, o_earned_points := earned, o_updated_at := now\<rparr>"

text \<open>The provider took a deposit back: sales and earned points are undone, the stock stays reserved.\<close>

definition revert_deposit :: "dict \<Rightarrow> payment \<Rightarrow> order \<Rightarrow> timestamp \<Rightarrow> unit op" where
  "revert_deposit event_data p ord now d = (
     let d1 = fold uncount_sold (items_of d (o_id ord)) d
     in rbind (case o_user ord of
                 None \<Rightarrow> Inr (False, d1)
               | Some uid \<Rightarrow> if o_earned_points ord > 0 then reclaim_earned_points uid ord (pay_id p) now d1
                             else Inr (False, d1)) (\<lambda>reclaimed d2.
          Inr ((), add_log (pay_id p) LWebhook MsgDepositReverted event_data
            (upd_order (o_id ord) (set_order_unpaid (if reclaimed then 0 else o_earned_points ord) now) d2))))"

definition handle_waiting_for_deposit :: "dict \<Rightarrow> timestamp \<Rightarrow> unit op" where
  "handle_waiting_for_deposit event_data now d = (let order_id = event_order_id event_data in
     case find_toss_payment d order_id of
       None \<Rightarrow> Inr ((), d)
     | Some p \<Rightarrow>
         if is_waiting_for_deposit p then Inr ((), d)
         else if pay_status p \<in> {Canceled, Aborted, Expired} then Inr ((), d)
         else rbind (of_get DoesNotExist (get_order d (pay_order p)) d) (\<lambda>ord d.
              rbind (if pay_is_paid p then revert_deposit event_data p ord now d
                     else Inr ((), add_log (pay_id p) LWebhook MsgWebhookIssued event_data d)) (\<lambda>_ d.
              rbind (mark_as_waiting_for_deposit p event_data now d) (\<lambda>_ d.
                Inr ((), log_webhook_event order_id ''WAITING_FOR_DEPOSIT'' d)))))"

text \<open>\<^verbatim>\<open>failure.get("message") or (... if EXPIRED else "")\<close>.\<close>

definition webhook_fail_reason :: "dict \<Rightarrow> string \<Rightarrow> exn + reason" where
  "webhook_fail_reason event_data toss_status = sbind (obj_or_empty event_data ''failure'') (\<lambda>failure.
     Inr (case dget_str failure ''message'' of
            Some m \<Rightarrow> if m \<noteq> [] then TossFailure m else if toss_status = ''EXPIRED'' then DepositExpired else NoReason
          | None \<Rightarrow> if toss_status = ''EXPIRED'' then DepositExpired else NoReason))"

definition handle_payment_failed :: "dict \<Rightarrow> timestamp \<Rightarrow> db \<Rightarrow> (exn + unit) \<times> db" where
  "handle_payment_failed event_data now d = (
     let order_id = event_order_id event_data;
         toss_status = (case map_of event_data ''status'' of None \<Rightarrow> ''ABORTED'' | Some (JStr s) \<Rightarrow> s | Some _ \<Rightarrow> '''')
     in case webhook_fail_reason event_data toss_status of
          Inl e \<Rightarrow> (Inl e, d)
        | Inr fail_reason \<Rightarrow>
          (case find_toss_payment d order_id of
             None \<Rightarrow> (Inr (), d)
           | Some p \<Rightarrow>
               if pay_status p \<in> {Aborted, Expired, Done, Canceled} then (Inr (), d)
               else (case (if toss_status = ''EXPIRED'' then mark_as_expired p fail_reason now d
                           else mark_as_failed p fail_reason now d) of
                       Inl e \<Rightarrow> (Inl e, d)
                     | Inr (p, d1) \<Rightarrow>
                         (case get_order d1 (pay_order p) of
                            None \<Rightarrow> (Inl DoesNotExist, d1)
                          | Some ord \<Rightarrow>
                              (case (if o_status ord \<in> {Pending, Confirmed}
                                     then publish (RollbackPayment (o_id ord)
                                            (if fail_reason = NoReason then WebhookFailure else fail_reason)) d1
                                     else Inr d1) of
                                 Inl e \<Rightarrow> (Inl e, d1)
                               | Inr d2 \<Rightarrow> (Inr (), log_webhook_event order_id toss_status
                                   (add_log (pay_id p) LWebhook (MsgWebhookFailed fail_reason) event_data d2)))))))"

section \<open>The entry point\<close>

text \<open>\<^verbatim>\<open>STATUS_HANDLERS.get(status)\<close>; a handler that raises leaves its partial state.\<close>

definition run_handler :: "unit op \<Rightarrow> db \<Rightarrow> (exn + unit) \<times> db" where
  "run_handler h d = (case h d of Inl e \<Rightarrow> (Inl e, d) | Inr (_, d') \<Rightarrow> (Inr (), d'))"

definition status_handler :: "string option \<Rightarrow> dict \<Rightarrow> timestamp \<Rightarrow> db \<Rightarrow> (exn + unit) \<times> db" where
  "status_handler st payment_info now d = (
     if st = Some ''DONE'' then run_handler (handle_payment_done payment_info now) d
     else if st = Some ''CANCELED'' then run_handler (handle_payment_canceled payment_info now) d
     else if st = Some ''WAITING_FOR_DEPOSIT'' then run_handler (handle_waiting_for_deposit payment_info now) d
     else if st = Some ''ABORTED'' \<or> st = Some ''EXPIRED'' then handle_payment_failed payment_info now d
     else (Inr (), d))"

definition lookup_and_dispatch :: "http \<Rightarrow> string \<Rightarrow> string \<Rightarrow> timestamp \<Rightarrow> db \<Rightarrow> int \<times> db" where
  "lookup_and_dispatch http payment_key order_id now d = (
     case toss_get_payment http (Some payment_key) of
       Inl e \<Rightarrow> if te_status e = 404 then (400, d) else (500, d)
     | Inr payment_info \<Rightarrow>
         if dget_str payment_info ''orderId'' \<noteq> Some order_id then (400, d)
         else (case status_handler (dget_str payment_info ''status'') payment_info now d of
                 (Inr _, d') \<Rightarrow> (200, d')
               | (Inl _, d') \<Rightarrow> (500, d')))"

text \<open>A required \<^verbatim>\<open>CharField\<close>: numbers become text, blanks around it are cut, an empty text is an error.\<close>

definition strip_text :: "string \<Rightarrow> string" where
  "strip_text s = rev (dropWhile (\<lambda>c. c \<in> set [CHR '' '', CHR 0x09, CHR 0x0A, CHR 0x0B, CHR 0x0C, CHR 0x0D])
     (rev (dropWhile (\<lambda>c. c \<in> set [CHR '' '', CHR 0x09, CHR 0x0A, CHR 0x0B, CHR 0x0C, CHR 0x0D]) s)))"

definition char_field :: "dict \<Rightarrow> string \<Rightarrow> string option" where
  "char_field body k = (case map_of body k of
     Some (JStr s) \<Rightarrow> if strip_text s = [] then None else Some (strip_text s)
   | Some (JNum i) \<Rightarrow> Some (str_int i)
   | _ \<Rightarrow> None)"

definition optional_char_ok :: "dict \<Rightarrow> string \<Rightarrow> bool" where
  "optional_char_ok body k \<longleftrightarrow> map_of body k = None \<or> char_field body k \<noteq> None"

definition is_deposit_callback :: "dict \<Rightarrow> bool" where
  "is_deposit_callback body \<longleftrightarrow> map_of body ''eventType'' = None \<and> map_of body ''secret'' \<noteq> None"

definition handle_deposit_callback :: "http \<Rightarrow> dict \<Rightarrow> timestamp \<Rightarrow> db \<Rightarrow> int \<times> db" where
  "handle_deposit_callback http body now d = (
     case (char_field body ''orderId'', char_field body ''secret'', char_field body ''status'') of
       (Some order_id, Some secret, Some _) \<Rightarrow>
         if \<not> (optional_char_ok body ''createdAt'' \<and> optional_char_ok body ''transactionKey'') then (400, d)
         else (case find_toss_payment d order_id of
                 None \<Rightarrow> (400, d)
               | Some p \<Rightarrow>
                   if no_key (pay_key p) then (400, d)
                   else if pay_secret p = [] \<or> secret \<noteq> pay_secret p then (400, d)
                   else lookup_and_dispatch http (the (pay_key p)) order_id now d)
     | _ \<Rightarrow> (400, d))"

definition toss_webhook :: "http \<Rightarrow> dict \<Rightarrow> timestamp \<Rightarrow> db \<Rightarrow> int \<times> db" where
  "toss_webhook http body now d = (
     if is_deposit_callback body then handle_deposit_callback http body now d
     else case (char_field body ''eventType'', map_of body ''data'') of
            (Some event_type, Some (JObj webhook_payment)) \<Rightarrow>
              if \<not> optional_char_ok body ''createdAt'' then (400, d)
              else if event_type \<noteq> ''PAYMENT_STATUS_CHANGED'' then (200, d)
              else (case (dget_str webhook_payment ''paymentKey'', dget_str webhook_payment ''orderId'') of
                      (Some payment_key, Some order_id) \<Rightarrow>
                        if payment_key = [] \<or> order_id = [] then (400, d)
                        else lookup_and_dispatch http payment_key order_id now d
                    | _ \<Rightarrow> (400, d))
          | _ \<Rightarrow> (400, d))"

end
