(* ===== verification/Payment_Ops.thy ===== *)
theory Payment_Ops
  imports Payment_Service Order_Ops
begin

text \<open>
  The contracts of the payment service: which tables each step writes, that confirming and
  cancelling a payment keep the invariant of the shop and the total of every product, and that
  the steps after the irreversible refund cannot fail.
\<close>

section \<open>Sales counters do not move the shelf\<close>

definition same_shelf :: "product list \<Rightarrow> product list \<Rightarrow> bool" where
  "same_shelf ps qs \<longleftrightarrow> map (\<lambda>p. (p_id p, p_stock p)) ps = map (\<lambda>p. (p_id p, p_stock p)) qs"

lemma same_shelf_refl [simp]: "same_shelf ps ps"
  by (simp add: same_shelf_def)

lemma same_shelf_trans: "same_shelf ps qs \<Longrightarrow> same_shelf qs rs \<Longrightarrow> same_shelf ps rs"
  by (simp add: same_shelf_def)

lemma same_shelf_facts:
  assumes "same_shelf ps qs"
  shows "map p_id ps = map p_id qs" "stock_in ps k = stock_in qs k" "products_ok ps = products_ok qs"
proof -
  have "map fst (map (\<lambda>p. (p_id p, p_stock p)) ps) = map fst (map (\<lambda>p. (p_id p, p_stock p)) qs)"
    "map snd (map (\<lambda>p. (p_id p, p_stock p)) ps) = map snd (map (\<lambda>p. (p_id p, p_stock p)) qs)"
    using assms by (simp_all only: same_shelf_def)
  then have *: "map p_id ps = map p_id qs" "map p_stock ps = map p_stock qs"
    by (simp_all add: comp_def)
  have nn: "(\<forall>p \<in> set rs. 0 \<le> p_stock p) \<longleftrightarrow> (\<forall>n \<in> set (map p_stock rs). 0 \<le> n)" for rs
    by simp
  show "map p_id ps = map p_id qs" "products_ok ps = products_ok qs"
    unfolding products_ok_def nn * by simp_all
  show "stock_in ps k = stock_in qs k"
    using assms unfolding same_shelf_def
  proof (induction ps arbitrary: qs)
    case (Cons p ps)
    then obtain q qs' where "qs = q # qs'" "p_id q = p_id p" "p_stock q = p_stock p"
      "map (\<lambda>p. (p_id p, p_stock p)) ps = map (\<lambda>p. (p_id p, p_stock p)) qs'"
      by (cases qs) auto
    then show ?case
      using Cons.IH [of qs'] by (simp add: stock_in_def)
  qed simp
qed

lemma shelf_change:
  assumes inv: "shop_inv d" and shelf: "same_shelf (products d) ps"
  shows "shop_change d (d\<lparr>products := ps\<rparr>)"
proof -
  note f = same_shelf_facts [OF shelf]
  have "ledger_inv (d\<lparr>products := ps\<rparr>)"
    using shop_invD(1) [OF inv] by (rule ledger_inv_frame) auto
  then have "shop_inv (d\<lparr>products := ps\<rparr>)"
    using shop_invD [OF inv] f(3) by (intro shop_invI) (simp_all add: f(1) [symmetric])
  then show ?thesis
    by (simp add: shop_change_def stock_total_def reserved_def f(2))
qed

definition sell :: "order_item list \<Rightarrow> product list \<Rightarrow> product list" where
  "sell is ps = fold (\<lambda>i ps. case oi_product i of None \<Rightarrow> ps
     | Some pid \<Rightarrow> rupd p_id ps pid (map_sold (\<lambda>n. n + oi_quantity i))) is ps"

definition unsell :: "order_item list \<Rightarrow> product list \<Rightarrow> product list" where
  "unsell is ps = fold (\<lambda>i ps. case oi_product i of None \<Rightarrow> ps
     | Some pid \<Rightarrow> rupd p_id ps pid (\<lambda>p. map_sold (\<lambda>n. max (n - oi_quantity i) 0)
                     (map_stock (\<lambda>s. s + oi_quantity i) p))) is ps"

lemma map_sold_sel [simp]:
  "p_id (map_sold f p) = p_id p" "p_stock (map_sold f p) = p_stock p" "p_sold_count (map_sold f p) = f (p_sold_count p)"
  by (simp_all add: map_sold_def)

lemma same_shelf_rupd:
  "same_shelf ps qs \<Longrightarrow> (\<And>p q. p_id p = p_id q \<Longrightarrow> p_stock p = p_stock q \<Longrightarrow>
       p_id (f p) = p_id (g q) \<and> p_stock (f p) = p_stock (g q))
     \<Longrightarrow> same_shelf (rupd p_id ps k f) (rupd p_id qs k g)"
proof (induction ps arbitrary: qs)
  case (Cons p ps)
  from Cons.prems(1) obtain q qs' where q: "qs = q # qs'" "p_id q = p_id p" "p_stock q = p_stock p" "same_shelf ps qs'"
    by (cases qs) (auto simp: same_shelf_def)
  have "same_shelf (rupd p_id ps k f) (rupd p_id qs' k g)"
    using q(4) Cons.prems(2) by (rule Cons.IH)
  then show ?case
    using q(1-3) Cons.prems(2) [of p q] by (simp add: same_shelf_def)
qed (simp add: same_shelf_def)

lemma same_shelf_sell: "same_shelf (sell is ps) ps"
proof (induction "is" arbitrary: ps)
  case (Cons i "is")
  have "same_shelf (rupd p_id ps k (map_sold f)) (rupd p_id ps k (\<lambda>p. p))" for k f
    by (rule same_shelf_rupd) simp_all
  moreover have "rupd p_id ps k (\<lambda>p. p) = ps" for k
    by (induction ps) auto
  ultimately show ?case
    using Cons.IH [of "case oi_product i of None \<Rightarrow> ps | Some pid \<Rightarrow> rupd p_id ps pid (map_sold (\<lambda>n. n + oi_quantity i))"]
    by (cases "oi_product i") (auto simp: sell_def intro: same_shelf_trans)
qed (simp add: sell_def)

lemma same_shelf_unsell: "same_shelf ps qs \<Longrightarrow> same_shelf (unsell is ps) (restock is qs)"
proof (induction "is" arbitrary: ps qs)
  case (Cons i "is")
  show ?case
  proof (cases "oi_product i")
    case None
    then show ?thesis
      using Cons.IH [OF Cons.prems] by (simp add: unsell_def)
  next
    case (Some k)
    let ?f = "\<lambda>p. map_sold (\<lambda>n. max (n - oi_quantity i) 0) (map_stock (\<lambda>s. s + oi_quantity i) p)"
    have "same_shelf (rupd p_id ps k ?f) (rupd p_id qs k (map_stock (\<lambda>s. s + oi_quantity i)))"
      using Cons.prems by (rule same_shelf_rupd) simp
    then show ?thesis
      using Cons.IH Some by (simp add: unsell_def)
  qed
qed (simp add: unsell_def)

definition products_exist :: "order_item list \<Rightarrow> product list \<Rightarrow> bool" where
  "products_exist is ps \<longleftrightarrow> (\<forall>i \<in> set is. \<forall>pid. oi_product i = Some pid \<longrightarrow> pid \<in> set (map p_id ps))"

lemma products_exist_items: "shop_inv d \<Longrightarrow> products_exist (items_of d oid) (products d)"
  using shop_invD(4) by (auto simp: products_exist_def items_ok_def items_of_def)

lemma count_sold_items_Inr:
  assumes "fold_res count_sold is d = Inr d'"
  shows "d' = d\<lparr>products := sell is (products d)\<rparr>"
  using assms
proof (induction "is" arbitrary: d)
  case (Cons i "is")
  then obtain e where e: "count_sold i d = Inr e" "fold_res count_sold is e = Inr d'"
    by (cases "count_sold i d") simp_all
  have "d' = e\<lparr>products := sell is (products e)\<rparr>"
    using e(2) by (rule Cons.IH)
  then show ?case
    using e(1) by (cases "oi_product i") (auto simp: count_sold_def upd_product_def sell_def split: option.splits)
qed (simp add: sell_def)

lemma count_sold_items:
  assumes "products_exist is (products d)"
  shows "fold_res count_sold is d = Inr (d\<lparr>products := sell is (products d)\<rparr>)"
  using assms
proof (induction "is" arbitrary: d)
  case (Cons i "is")
  show ?case
  proof (cases "oi_product i")
    case None
    then show ?thesis
      using Cons by (simp add: count_sold_def sell_def products_exist_def)
  next
    case (Some k)
    let ?f = "map_sold (\<lambda>n. n + oi_quantity i)"
    have "k \<in> p_id ` set (products d)"
      using Cons.prems Some by (simp add: products_exist_def)
    then obtain p where p: "get_product d k = Some p"
      using rget_None_iff [of p_id "products d" k] by fastforce
    have keys: "map p_id (rupd p_id (products d) k ?f) = map p_id (products d)"
      by (rule map_key_rupd) simp
    have "products_exist is (products (upd_product k ?f d))"
      using Cons.prems unfolding products_exist_def upd_product_frame(15) keys by simp
    then show ?thesis
      using Cons.IH [of "upd_product k ?f d"] Some p by (simp add: count_sold_def sell_def upd_product_def)
  qed
qed (simp add: sell_def)

lemma unsell_items:
  assumes "products_exist is (products d)"
  shows "fold_res unsell_item is d = Inr (d\<lparr>products := unsell is (products d)\<rparr>)"
  using assms
proof (induction "is" arbitrary: d)
  case (Cons i "is")
  show ?case
  proof (cases "oi_product i")
    case None
    then show ?thesis
      using Cons by (simp add: unsell_item_def unsell_def products_exist_def)
  next
    case (Some k)
    let ?f = "\<lambda>p. map_sold (\<lambda>n. max (n - oi_quantity i) 0) (map_stock (\<lambda>s. s + oi_quantity i) p)"
    have "k \<in> p_id ` set (products d)"
      using Cons.prems Some by (simp add: products_exist_def)
    then obtain p where p: "get_product d k = Some p"
      using rget_None_iff [of p_id "products d" k] by fastforce
    have keys: "map p_id (rupd p_id (products d) k ?f) = map p_id (products d)"
      by (rule map_key_rupd) simp
    have "products_exist is (products (upd_product k ?f d))"
      using Cons.prems unfolding products_exist_def upd_product_frame(15) keys by simp
    then show ?thesis
      using Cons.IH [of "upd_product k ?f d"] Some p by (simp add: unsell_item_def unsell_def upd_product_def)
  qed
qed (simp add: unsell_def)

section \<open>Saving payments\<close>

text \<open>Primary keys and provider keys of payments are unique.\<close>

definition payments_ok :: "db \<Rightarrow> bool" where
  "payments_ok d \<longleftrightarrow> keys_distinct pay_id (payments d)
     \<and> (\<forall>p \<in> set (payments d). \<forall>q \<in> set (payments d).
          pay_key p \<noteq> None \<and> pay_key p = pay_key q \<longrightarrow> pay_id p = pay_id q)"

lemma save_payment_Inr:
  assumes "save_payment p now d = Inr (p', d')"
  shows "p' = p\<lparr>pay_updated_at := now\<rparr>" "d' = upd_payment (pay_id p) (\<lambda>_. p') d"
  using assms by (auto simp: save_payment_def Let_def split: if_splits)

lemma save_payment_same_key:
  assumes "payments_ok d" "get_payment d pid = Some p" "pay_id q = pid" "pay_key q = pay_key p"
  shows "save_payment q now d = Inr (q\<lparr>pay_updated_at := now\<rparr>, upd_payment pid (\<lambda>_. q\<lparr>pay_updated_at := now\<rparr>) d)"
proof -
  have p: "p \<in> set (payments d)" "pay_id p = pid"
    using assms(2) by (auto dest: rget_Some_in rget_Some_key)
  have "\<not> list_ex (\<lambda>r. pay_id r \<noteq> pay_id q \<and> pay_key r = pay_key q) (payments d)" if "pay_key q \<noteq> None"
  proof
    assume "list_ex (\<lambda>r. pay_id r \<noteq> pay_id q \<and> pay_key r = pay_key q) (payments d)"
    then obtain r where "r \<in> set (payments d)" "pay_id r \<noteq> pid" "pay_key r = pay_key p"
      using assms(3,4) by (auto simp: list_ex_iff)
    then show False
      using assms(1,4) p that unfolding payments_ok_def by metis
  qed
  then show ?thesis
    using assms(3) by (auto simp: save_payment_def Let_def)
qed

lemma record_cancel_Inr:
  assumes "record_cancel dat p = Inr q"
  shows "pay_id q = pay_id p" "pay_key q = pay_key p" "pay_status q = pay_status p" "pay_order q = pay_order p"
    "pay_is_canceled q = pay_is_canceled p" "pay_amount q = pay_amount p" "pay_canceled_amount q = pay_canceled_amount p"
    "pay_toss_order_id q = pay_toss_order_id p"
  using assms by (auto simp: record_cancel_def sbind_eq_Inr)

text \<open>A cancel response has the documented shape: its last \<^verbatim>\<open>cancels\<close> entry is an object with a text.\<close>

definition cancel_response_ok :: "dict \<Rightarrow> bool" where
  "cancel_response_ok dat \<longleftrightarrow> (case latest_cancel dat of Inl _ \<Rightarrow> False
     | Inr kv \<Rightarrow> (case text_field kv ''cancelReason'' of Inl _ \<Rightarrow> False | Inr _ \<Rightarrow> True))"

lemma record_cancel_ok: "cancel_response_ok dat \<Longrightarrow> \<exists>q. record_cancel dat p = Inr q"
  by (auto simp: cancel_response_ok_def record_cancel_def split: sum.splits)

lemma mark_as_canceled_Inr:
  assumes "mark_as_canceled p dat now d = Inr (q, d')"
  shows "pay_id q = pay_id p" "pay_status q = Canceled" "pay_is_canceled q" "pay_canceled_amount q = pay_amount p"
    "pay_order q = pay_order p" "pay_key q = pay_key p" "pay_amount q = pay_amount p"
    "d' = upd_payment (pay_id p) (\<lambda>_. q) d"
proof -
  obtain r where r: "record_cancel dat (p\<lparr>pay_status := Canceled, pay_is_canceled := True, pay_canceled_amount := pay_amount p\<rparr>) = Inr r"
    "save_payment r now d = Inr (q, d')"
    using assms by (auto simp: mark_as_canceled_def split: sum.splits)
  show "pay_id q = pay_id p" "pay_status q = Canceled" "pay_is_canceled q" "pay_canceled_amount q = pay_amount p"
    "pay_order q = pay_order p" "pay_key q = pay_key p" "pay_amount q = pay_amount p"
    "d' = upd_payment (pay_id p) (\<lambda>_. q) d"
    using record_cancel_Inr [OF r(1)] save_payment_Inr [OF r(2)] by simp_all
qed

lemma mark_as_canceled_ok:
  assumes "payments_ok d" "get_payment d pid = Some p" "cancel_response_ok dat"
  shows "\<exists>q. mark_as_canceled p dat now d = Inr (q, upd_payment pid (\<lambda>_. q) d)"
proof -
  obtain q where q: "record_cancel dat (p\<lparr>pay_status := Canceled, pay_is_canceled := True, pay_canceled_amount := pay_amount p\<rparr>) = Inr q"
    using record_cancel_ok [OF assms(3)] by blast
  note f = record_cancel_Inr [OF q]
  have "pay_id q = pid" "pay_key q = pay_key p"
    using f rget_Some_key [OF assms(2)] by simp_all
  from save_payment_same_key [OF assms(1,2) this] show ?thesis
    using q by (simp add: mark_as_canceled_def)
qed

section \<open>The point steps of a cancellation\<close>

text \<open>What a point step leaves alone.\<close>

definition point_step :: "db \<Rightarrow> db \<Rightarrow> bool" where
  "point_step d d' \<longleftrightarrow> shop_change d d' \<and> orders d' = orders d \<and> payments d' = payments d
     \<and> products d' = products d \<and> order_items d' = order_items d \<and> map u_id (users d') = map u_id (users d)"

lemma point_step_refl: "shop_inv d \<Longrightarrow> point_step d d"
  by (simp add: point_step_def shop_change_refl)

lemma point_step_trans: "point_step d e \<Longrightarrow> point_step e f \<Longrightarrow> point_step d f"
  unfolding point_step_def using shop_change_trans by metis

lemma ledger_point_step:
  assumes "shop_inv d" "ledger_change d d'"
  shows "point_step d d'"
proof -
  have fr: "points_frame d d'"
    using assms(2) by (simp add: ledger_change_def)
  show ?thesis
    using ledger_shop_change [OF assms] by (simp add: point_step_def points_frame_eqs [OF fr] user_ids_frame [OF fr])
qed

lemma log_point_step: "shop_inv d \<Longrightarrow> point_step d (add_log pid t m x d)"
  using inert_change [of d "add_log pid t m x d"] by (simp add: point_step_def)

lemma refund_step_Inr:
  assumes run: "refund_step uid pid ord why now d = Inr (n, d')" and inv: "shop_inv d"
    and own: "order_owned d (Some (o_id ord)) uid"
  shows "point_step d d'" "n = max 0 (o_used_points ord)"
proof -
  have "point_step d d' \<and> n = max 0 (o_used_points ord)"
  proof (cases "o_used_points ord > 0")
    case True
    then obtain r e where e: "refund_used_points uid (o_used_points ord) (o_id ord) CancelRefund (cancel_info ord why) now d = Inr (r, e)"
      and d': "d' = add_log pid LCancel (MsgUsedPointsRefunded (o_used_points ord)) [(''points'', JNum (o_used_points ord))] e"
        "n = o_used_points ord"
      using run by (auto simp: refund_step_def rbind_eq_Inr)
    have ch: "ledger_change d e"
      by (rule refund_used_points_change [OF shop_invD(1) [OF inv] e own]) simp
    have "point_step d e"
      by (rule ledger_point_step [OF inv ch])
    moreover have "point_step e d'"
      unfolding d' using shop_change_inv [OF ledger_shop_change [OF inv ch]] by (rule log_point_step)
    ultimately show ?thesis
      using True d'(2) point_step_trans by auto
  next
    case False
    then show ?thesis
      using run point_step_refl [OF inv] by (auto simp: refund_step_def)
  qed
  then show "point_step d d'" "n = max 0 (o_used_points ord)"
    by simp_all
qed

lemma refund_step_ok:
  assumes inv: "shop_inv d" and u: "get_user d uid = Some u" and own: "order_owned d (Some (o_id ord)) uid"
  obtains n d' where "refund_step uid pid ord why now d = Inr (n, d')"
    "get_usable_points uid True now d \<le> get_usable_points uid True now d'"
proof (cases "o_used_points ord > 0")
  case True
  obtain r e where e: "refund_used_points uid (o_used_points ord) (o_id ord) CancelRefund (cancel_info ord why) now d = Inr (r, e)"
    using refund_succeeds [OF shop_invD(1) [OF inv] u own True] by blast
  have "get_usable_points uid True now d \<le> get_usable_points uid True now e"
    by (rule refund_usable [OF shop_invD(1) [OF inv] e own u])
  moreover have "get_usable_points uid True now (add_log pid LCancel m x e) = get_usable_points uid True now e" for m x
    by (rule usable_cong) simp
  ultimately show thesis
    using that e True by (simp add: refund_step_def)
next
  case False
  then show thesis
    using that [of 0 d] by (simp add: refund_step_def)
qed

lemma reclaim_step_Inr:
  assumes run: "reclaim_step uid pid ord why now d = Inr (n, d')" and inv: "shop_inv d"
  shows "point_step d d'" "n = max 0 (o_earned_points ord)"
proof -
  have "point_step d d' \<and> n = max 0 (o_earned_points ord)"
  proof (cases "o_earned_points ord > 0")
    case True
    then obtain r e where e: "use_points_fifo uid (o_earned_points ord) CancelDeduct (Some (o_id ord)) (cancel_info ord why) now d = Inr (r, e)"
      and d': "d' = add_log pid LCancel (MsgEarnedPointsDeducted (o_earned_points ord)) [(''points'', JNum (- o_earned_points ord))] e"
        "n = o_earned_points ord"
      using run by (auto simp: reclaim_step_def rbind_eq_Inr of_get_eq_Inr split: if_splits)
    have ch: "ledger_change d e"
      by (rule use_points_fifo_change [OF shop_invD(1) [OF inv] e]) simp
    have "point_step d e"
      by (rule ledger_point_step [OF inv ch])
    moreover have "point_step e d'"
      unfolding d' using shop_change_inv [OF ledger_shop_change [OF inv ch]] by (rule log_point_step)
    ultimately show ?thesis
      using True d'(2) point_step_trans by auto
  next
    case False
    then show ?thesis
      using run point_step_refl [OF inv] by (auto simp: reclaim_step_def)
  qed
  then show "point_step d d'" "n = max 0 (o_earned_points ord)"
    by simp_all
qed

lemma reclaim_step_ok:
  assumes inv: "shop_inv d" and u: "get_user d uid = Some u"
    and enough: "o_earned_points ord > 0 \<Longrightarrow> o_earned_points ord \<le> get_usable_points uid True now d"
  shows "\<exists>n d'. reclaim_step uid pid ord why now d = Inr (n, d')"
proof (cases "o_earned_points ord > 0")
  case True
  have pts: "o_earned_points ord \<le> u_points u"
    using enough [OF True] usable_le_remaining [of uid now d] ledger_inv_account(3) [OF shop_invD(1) [OF inv] u] by linarith
  obtain r e where "use_points_fifo uid (o_earned_points ord) CancelDeduct (Some (o_id ord)) (cancel_info ord why) now d = Inr (r, e)"
    "ur_success r"
    using reclaim_succeeds [OF shop_invD(1) [OF inv] u True enough [OF True]] by blast
  then show ?thesis
    using True u pts by (simp add: reclaim_step_def)
qed (simp add: reclaim_step_def)

section \<open>Cancelling a payment\<close>

text \<open>The state after payment, stock and order are written, before the point steps.\<close>

definition unpaid :: "pk \<Rightarrow> payment \<Rightarrow> pk \<Rightarrow> timestamp \<Rightarrow> db \<Rightarrow> db" where
  "unpaid pid q oid now d = upd_order oid (set_order_status OCanceled now)
     ((upd_payment pid (\<lambda>_. q) d)\<lparr>products := unsell (items_of d oid) (products d)\<rparr>)"

lemma unpaid_sel [simp]:
  "users (unpaid pid q oid now d) = users d" "histories (unpaid pid q oid now d) = histories d"
  "orders (unpaid pid q oid now d) = rupd o_id (orders d) oid (set_order_status OCanceled now)"
  "payments (unpaid pid q oid now d) = rupd pay_id (payments d) pid (\<lambda>_. q)"
  "products (unpaid pid q oid now d) = unsell (items_of d oid) (products d)"
  "order_items (unpaid pid q oid now d) = order_items d"
  by (simp_all add: unpaid_def)

lemma unpaid_change:
  assumes inv: "shop_inv d" and ord: "get_order d oid = Some ord" "holds_stock (o_status ord)"
  shows "shop_change d (unpaid pid q oid now d)"
proof -
  let ?e = "upd_payment pid (\<lambda>_. q) d"
  let ?r = "released oid (set_order_status OCanceled now) ?e"
  have items: "items_of ?e oid = items_of d oid"
    by (simp add: items_of_def)
  have c1: "shop_change d ?e"
    using inv by (rule inert_change) simp
  have c2: "shop_change ?e ?r"
    using shop_change_inv [OF c1] by (rule released_change) (use ord in simp_all)
  have "same_shelf (restock (items_of d oid) (products d)) (unsell (items_of d oid) (products d))"
    using same_shelf_unsell [of "products d" "products d" "items_of d oid"] by (simp add: same_shelf_def)
  then have c3: "shop_change ?r (?r\<lparr>products := unsell (items_of d oid) (products d)\<rparr>)"
    by (intro shelf_change [OF shop_change_inv [OF c2]]) (simp add: items)
  have "?r\<lparr>products := unsell (items_of d oid) (products d)\<rparr> = unpaid pid q oid now d"
    by (simp add: released_def unpaid_def upd_order_def upd_payment_def)
  then show ?thesis
    using c1 c2 c3 shop_change_trans by metis
qed

text \<open>The guards of the cancellation, all decided before the provider is called.\<close>

definition cancel_allowed :: "pk \<Rightarrow> user \<Rightarrow> timestamp \<Rightarrow> db \<Rightarrow> payment \<Rightarrow> order \<Rightarrow> bool" where
  "cancel_allowed pid user now d p ord \<longleftrightarrow> get_payment d pid = Some p \<and> get_order d (pay_order p) = Some ord
     \<and> o_user ord = Some (u_id user) \<and> \<not> pay_is_canceled p \<and> pay_status p = Done \<and> o_status ord \<in> {Paid, OCanceled}
     \<and> (o_status ord = Paid \<and> o_earned_points ord > 0 \<longrightarrow>
          (\<exists>u. get_user d (u_id user) = Some u \<and> o_earned_points ord \<le> reclaimable_points u ord now d))"

lemma cancel_payment_refused:
  assumes inv: "shop_inv d" and no: "\<nexists>p ord. cancel_allowed pid user now d p ord"
  shows "cancel_payment http pid user why now d = Inl PaymentCancelError"
proof (cases "get_payment d pid")
  case (Some p)
  show ?thesis
  proof (cases "get_order d (pay_order p)")
    case o: (Some ord)
    have "get_user d (u_id user) \<noteq> None" if "o_user ord = Some (u_id user)"
      using shop_inv_order(3) [OF inv o that] by auto
    then show ?thesis
      using no Some o
      by (auto simp: cancel_payment_def cancel_allowed_def Let_def not_le of_get_def)
  qed (use Some in \<open>simp add: cancel_payment_def\<close>)
qed (simp add: cancel_payment_def)

lemma cancel_payment_allowed:
  assumes ok: "cancel_allowed pid user now d p ord"
  shows "cancel_payment http pid user why now d = (
     case toss_cancel_payment http (pay_key p) why None None None of
       Inl e \<Rightarrow> Inl PaymentCancelError
     | Inr cancel_data \<Rightarrow>
         rbind (mark_as_canceled p cancel_data now d) (\<lambda>p d.
         if o_status ord = OCanceled
         then Inr (\<lparr>cx_payment = p, cx_points_refunded = 0, cx_points_deducted = 0\<rparr>,
                   add_log pid LCancel MsgRefundOfCanceledOrder
                     [(''cancel_reason'', JStr why),
                      (''canceled_amount'', JStr (str_int (pay_canceled_amount p)))] d)
         else case fold_res unsell_item (items_of d (o_id ord)) d of
                Inl e \<Rightarrow> Inl e
              | Inr d1 \<Rightarrow>
                  rbind (refund_step (u_id user) pid ord why now
                           (upd_order (o_id ord) (set_order_status OCanceled now) d1)) (\<lambda>refunded d2.
                  rbind (reclaim_step (u_id user) pid ord why now d2) (\<lambda>deducted d3.
                    Inr (\<lparr>cx_payment = p, cx_points_refunded = refunded, cx_points_deducted = deducted\<rparr>,
                         add_log pid LCancel MsgCancelCompleted
                           [(''cancel_reason'', JStr why),
                            (''canceled_amount'', JStr (str_int (pay_canceled_amount p))),
                            (''points_refunded'', JNum refunded), (''points_deducted'', JNum deducted)]
                           d3)))))"
proof -
  have "(if \<not> o_status ord = OCanceled \<and> o_earned_points ord > 0
         then rbind (of_get DoesNotExist (get_user d (u_id user)) d) (\<lambda>locked d.
                if reclaimable_points locked ord now d < o_earned_points ord
                then Inl PaymentCancelError else Inr ((), d))
         else Inr ((), d)) = Inr ((), d)"
    using ok by (auto simp: cancel_allowed_def)
  then show ?thesis
    using ok unfolding cancel_payment_def cancel_allowed_def Let_def by auto
qed

lemma unpaid_eq:
  assumes "products_exist (items_of d oid) (products d)"
  shows "fold_res unsell_item (items_of (upd_payment pid (\<lambda>_. q) d) oid) (upd_payment pid (\<lambda>_. q) d)
      = Inr ((upd_payment pid (\<lambda>_. q) d)\<lparr>products := unsell (items_of d oid) (products d)\<rparr>)"
proof -
  have "items_of (upd_payment pid (\<lambda>_. q) d) oid = items_of d oid"
    by (simp add: items_of_def)
  then show ?thesis
    using unsell_items [of "items_of d oid" "upd_payment pid (\<lambda>_. q) d"] assms by simp
qed

lemma unpaid_owned:
  assumes "get_order d oid = Some ord" "o_user ord = Some uid"
  shows "order_owned (unpaid pid q oid now d) (Some oid) uid"
  using assms by (simp add: order_owned_def rget_rupd)

lemma cancel_payment_Inr:
  assumes run: "cancel_payment http pid user why now d = Inr (res, d')" and inv: "shop_inv d"
  obtains (already) p ord dat q where "cancel_allowed pid user now d p ord" "o_status ord = OCanceled"
      "toss_cancel_payment http (pay_key p) why None None None = Inr dat"
      "mark_as_canceled p dat now d = Inr (q, upd_payment pid (\<lambda>_. q) d)" "cx_payment res = q"
      "\<exists>x. d' = add_log pid LCancel MsgRefundOfCanceledOrder x (upd_payment pid (\<lambda>_. q) d)"
  | (canceled) p ord dat q d3 where "cancel_allowed pid user now d p ord" "o_status ord = Paid"
      "toss_cancel_payment http (pay_key p) why None None None = Inr dat"
      "mark_as_canceled p dat now d = Inr (q, upd_payment pid (\<lambda>_. q) d)" "cx_payment res = q"
      "point_step (unpaid pid q (pay_order p) now d) d3" "\<exists>x. d' = add_log pid LCancel MsgCancelCompleted x d3"
      "cx_points_refunded res = max 0 (o_used_points ord)" "cx_points_deducted res = max 0 (o_earned_points ord)"
proof -
  obtain p ord where ok: "cancel_allowed pid user now d p ord"
    using cancel_payment_refused [OF inv] run by fastforce
  have pid: "pay_id p = pid" and oid: "o_id ord = pay_order p"
    using ok by (auto simp: cancel_allowed_def dest: rget_Some_key)
  obtain dat where dat: "toss_cancel_payment http (pay_key p) why None None None = Inr dat"
    using run unfolding cancel_payment_allowed [OF ok] by (auto split: sum.splits)
  obtain q e where q: "mark_as_canceled p dat now d = Inr (q, e)"
    using run unfolding cancel_payment_allowed [OF ok] dat by (auto simp: rbind_eq_Inr)
  have e: "e = upd_payment pid (\<lambda>_. q) d"
    using mark_as_canceled_Inr(8) [OF q] pid by simp
  note run' = run [unfolded cancel_payment_allowed [OF ok] dat sum.case q e rbind_Inr]
  show thesis
  proof (cases "o_status ord = OCanceled")
    case True
    then have "cx_payment res = q"
      "\<exists>x. d' = add_log pid LCancel MsgRefundOfCanceledOrder x (upd_payment pid (\<lambda>_. q) d)"
      using run' by auto
    then show thesis
      by (rule already [OF ok True dat q [unfolded e]])
  next
    case False
    then have st: "o_status ord = Paid"
      using ok by (auto simp: cancel_allowed_def)
    have ord: "get_order d (pay_order p) = Some ord" "o_user ord = Some (u_id user)"
      using ok by (auto simp: cancel_allowed_def)
    let ?u = "unpaid pid q (pay_order p) now d"
    have fold: "upd_order (o_id ord) (set_order_status OCanceled now)
        ((upd_payment pid (\<lambda>_. q) d)\<lparr>products := unsell (items_of d (pay_order p)) (products d)\<rparr>) = ?u"
      by (simp add: unpaid_def oid)
    have inv': "shop_inv ?u"
      by (rule shop_change_inv [OF unpaid_change [OF inv ord(1)]]) (simp add: st)
    have own: "order_owned ?u (Some (o_id ord)) (u_id user)"
      unfolding oid using ord by (rule unpaid_owned)
    obtain n d2 m d3 x where st2: "refund_step (u_id user) pid ord why now ?u = Inr (n, d2)"
      "reclaim_step (u_id user) pid ord why now d2 = Inr (m, d3)"
      "res = \<lparr>cx_payment = q, cx_points_refunded = n, cx_points_deducted = m\<rparr>"
      "d' = add_log pid LCancel MsgCancelCompleted x d3"
      using run' False unpaid_eq [OF products_exist_items [OF inv]] fold
      by (auto simp: oid rbind_eq_Inr)
    have logged: "\<exists>x. d' = add_log pid LCancel MsgCancelCompleted x d3"
      using st2(4) by blast
    have s2: "point_step ?u d2" "n = max 0 (o_used_points ord)"
      using refund_step_Inr [OF st2(1) inv' own] by simp_all
    have inv2: "shop_inv d2"
      using s2(1) by (auto simp: point_step_def dest: shop_change_inv)
    have s3: "point_step d2 d3" "m = max 0 (o_earned_points ord)"
      using reclaim_step_Inr [OF st2(2) inv2] by simp_all
    show thesis
      using canceled [OF ok st dat q [unfolded e] _ point_step_trans [OF s2(1) s3(1)] logged] s2(2) s3(2) st2(3) by simp
  qed
qed

lemma cancel_payment_change:
  assumes run: "cancel_payment http pid user why now d = Inr (res, d')" and inv: "shop_inv d"
  shows "shop_change d d'"
  using run inv
proof (cases rule: cancel_payment_Inr)
  case (already p ord dat q)
  then have "shop_inert d d'"
    by (auto intro: inert_trans [of _ "upd_payment pid (\<lambda>_. q) d"])
  then show ?thesis
    by (rule inert_change [OF inv])
next
  case (canceled p ord dat q d3)
  have "shop_change d (unpaid pid q (pay_order p) now d)"
    using canceled(1,2) by (intro unpaid_change [OF inv]) (auto simp: cancel_allowed_def)
  moreover have c3: "shop_change (unpaid pid q (pay_order p) now d) d3"
    using canceled(6) by (simp add: point_step_def)
  moreover have "shop_change d3 d'"
    using canceled(7) inert_change [OF shop_change_inv [OF c3]] by auto
  ultimately show ?thesis
    using shop_change_trans by blast
qed

interpretation cancel_payment_op: shop_op
  "\<lambda>(http, pid, user, why, now). cancel_payment http pid user why now" "\<lambda>_ _. True"
  by unfold_locales (auto intro: cancel_payment_change)

text \<open>Once the guards passed and the provider refunded, the transaction commits.\<close>

lemma cancel_payment_commits:
  assumes inv: "shop_inv d" and pays: "payments_ok d" and ok: "cancel_allowed pid user now d p ord"
    and toss: "toss_cancel_payment http (pay_key p) why None None None = Inr dat" and resp: "cancel_response_ok dat"
  shows "\<exists>res d'. cancel_payment http pid user why now d = Inr (res, d')"
proof -
  have g: "get_payment d pid = Some p" "get_order d (pay_order p) = Some ord" "o_user ord = Some (u_id user)"
    using ok by (auto simp: cancel_allowed_def)
  have oid: "o_id ord = pay_order p"
    using g(2) by (rule rget_Some_key)
  obtain q where q: "mark_as_canceled p dat now d = Inr (q, upd_payment pid (\<lambda>_. q) d)"
    using mark_as_canceled_ok [OF pays g(1) resp] by blast
  note eq = cancel_payment_allowed [OF ok, of http why, unfolded toss sum.case q rbind_Inr]
  show ?thesis
  proof (cases "o_status ord = OCanceled")
    case False
    then have st: "o_status ord = Paid"
      using ok by (auto simp: cancel_allowed_def)
    let ?u = "unpaid pid q (pay_order p) now d"
    have fold: "upd_order (o_id ord) (set_order_status OCanceled now)
        ((upd_payment pid (\<lambda>_. q) d)\<lparr>products := unsell (items_of d (pay_order p)) (products d)\<rparr>) = ?u"
      by (simp add: unpaid_def oid)
    have inv': "shop_inv ?u"
      by (rule shop_change_inv [OF unpaid_change [OF inv g(2)]]) (simp add: st)
    have own: "order_owned ?u (Some (o_id ord)) (u_id user)"
      unfolding oid using g(2,3) by (rule unpaid_owned)
    obtain u where u: "get_user d (u_id user) = Some u" "get_user ?u (u_id user) = Some u"
      using shop_inv_order(3) [OF inv g(2,3)] by auto
    obtain n d2 where r: "refund_step (u_id user) pid ord why now ?u = Inr (n, d2)"
      "get_usable_points (u_id user) True now ?u \<le> get_usable_points (u_id user) True now d2"
      using refund_step_ok [OF inv' u(2) own, of pid why now] by blast
    have s2: "point_step ?u d2"
      using refund_step_Inr(1) [OF r(1) inv' own] .
    then have inv2: "shop_inv d2" and ids: "map u_id (users d2) = map u_id (users d)"
      by (auto simp: point_step_def dest: shop_change_inv)
    obtain u2 where u2: "get_user d2 (u_id user) = Some u2"
      using rget_None_keys [OF ids, of "u_id user"] u(1) by auto
    have "o_earned_points ord \<le> get_usable_points (u_id user) True now d2" if "o_earned_points ord > 0"
    proof -
      have "o_earned_points ord \<le> reclaimable_points u ord now d"
        using ok st that u(1) by (auto simp: cancel_allowed_def)
      then have "o_earned_points ord \<le> get_usable_points (u_id user) True now d"
        using rget_Some_key [OF u(1)] by (simp add: reclaimable_points_def)
      moreover have "get_usable_points (u_id user) True now ?u = get_usable_points (u_id user) True now d"
        by (rule usable_cong) simp
      ultimately show ?thesis
        using r(2) by linarith
    qed
    then obtain m d3 where "reclaim_step (u_id user) pid ord why now d2 = Inr (m, d3)"
      using reclaim_step_ok [OF inv2 u2, of ord now pid why] by blast
    then show ?thesis
      using False eq unpaid_eq [OF products_exist_items [OF inv]] fold r(1) by (simp add: oid)
  qed (simp add: eq)
qed

section \<open>Confirming a payment\<close>

lemma paid_payment_Inr:
  assumes "paid_payment dat p = Inr q"
  shows "pay_id q = pay_id p" "pay_status q = Done" "pay_order q = pay_order p" "pay_amount q = pay_amount p"
    "pay_key q = dget_str dat ''paymentKey''" "pay_raw q = sanitize_raw_response dat"
    "pay_is_canceled q = pay_is_canceled p"
  using assms by (auto simp: paid_payment_def set_card_def sbind_eq_Inr split: if_splits)

lemma mark_as_paid_Inr:
  assumes "mark_as_paid p dat now d = Inr (q, d')"
  shows "pay_id q = pay_id p" "pay_status q = Done" "pay_order q = pay_order p" "pay_amount q = pay_amount p"
    "pay_raw q = sanitize_raw_response dat" "pay_is_canceled q = pay_is_canceled p" "d' = upd_payment (pay_id p) (\<lambda>_. q) d"
proof -
  obtain r where r: "paid_payment dat p = Inr r" "save_payment r now d = Inr (q, d')"
    using assms by (auto simp: mark_as_paid_def split: sum.splits)
  show "pay_id q = pay_id p" "pay_status q = Done" "pay_order q = pay_order p" "pay_amount q = pay_amount p"
    "pay_raw q = sanitize_raw_response dat" "pay_is_canceled q = pay_is_canceled p" "d' = upd_payment (pay_id p) (\<lambda>_. q) d"
    using paid_payment_Inr [OF r(1)] save_payment_Inr [OF r(2)] by simp_all
qed

lemma waiting_payment_Inr:
  assumes "waiting_payment dat p = Inr q"
  shows "pay_id q = pay_id p" "pay_status q = WaitingForDeposit" "pay_order q = pay_order p" "pay_amount q = pay_amount p"
    "pay_raw q = sanitize_raw_response dat"
  using assms by (auto simp: waiting_payment_def sbind_eq_Inr)

lemma mark_as_waiting_Inr:
  assumes "mark_as_waiting_for_deposit p dat now d = Inr (q, d')"
  shows "pay_id q = pay_id p" "pay_status q = WaitingForDeposit" "pay_order q = pay_order p"
    "pay_raw q = sanitize_raw_response dat" "d' = upd_payment (pay_id p) (\<lambda>_. q) d"
proof -
  obtain r where r: "waiting_payment dat p = Inr r" "save_payment r now d = Inr (q, d')"
    using assms by (auto simp: mark_as_waiting_for_deposit_def split: sum.splits)
  show "pay_id q = pay_id p" "pay_status q = WaitingForDeposit" "pay_order q = pay_order p"
    "pay_raw q = sanitize_raw_response dat" "d' = upd_payment (pay_id p) (\<lambda>_. q) d"
    using waiting_payment_Inr [OF r(1)] save_payment_Inr [OF r(2)] by simp_all
qed

text \<open>A step that changes points and logs and, of the orders, only the earned points of one.\<close>

definition earn_step :: "pk \<Rightarrow> int \<Rightarrow> db \<Rightarrow> db \<Rightarrow> bool" where
  "earn_step oid n d d' \<longleftrightarrow> shop_change d d' \<and> payments d' = payments d \<and> products d' = products d
     \<and> order_items d' = order_items d
     \<and> orders d' = (if n > 0 then rupd o_id (orders d) oid (\<lambda>r. r\<lparr>o_earned_points := n\<rparr>) else orders d)"

lemma earn_step_refl: "shop_inv d \<Longrightarrow> n \<le> 0 \<Longrightarrow> earn_step oid n d d"
  by (simp add: earn_step_def shop_change_refl)

lemma earned_change: "shop_inv d \<Longrightarrow> shop_change d (upd_order oid (\<lambda>r. r\<lparr>o_earned_points := n\<rparr>) d)"
  by (rule order_row_change) simp_all

lemma earn_for_order_Inr:
  assumes run: "earn_for_order user ord pid now d = Inr (n, d')" and inv: "shop_inv d"
  shows "earn_step (o_id ord) n d d'"
    "n = (if o_final_amount ord > 0 then points_of_amount (o_total_amount ord) (o_earn_rate ord) else 0)"
proof -
  let ?pts = "points_of_amount (o_total_amount ord) (o_earn_rate ord)"
  show n: "n = (if o_final_amount ord > 0 then ?pts else 0)"
    using run by (auto simp: earn_for_order_def Let_def rbind_eq_Inr split: if_splits)
  show "earn_step (o_id ord) n d d'"
  proof (cases "o_final_amount ord > 0 \<and> ?pts > 0")
    case True
    then obtain b e x where e: "add_points (u_id user) ?pts Earn (Some (o_id ord)) (earn_info ord user) now d = Inr (b, e)"
      and d': "d' = add_log pid LApprove (MsgPointsEarned ?pts) x (upd_order (o_id ord) (\<lambda>r. r\<lparr>o_earned_points := ?pts\<rparr>) e)"
      using run by (auto simp: earn_for_order_def Let_def rbind_eq_Inr)
    have ch: "ledger_change d e"
      by (rule add_points_change [OF shop_invD(1) [OF inv] e]) simp
    have c1: "point_step d e"
      by (rule ledger_point_step [OF inv ch])
    have inv_e: "shop_inv e"
      using c1 by (auto simp: point_step_def dest: shop_change_inv)
    have c2: "shop_change e (upd_order (o_id ord) (\<lambda>r. r\<lparr>o_earned_points := ?pts\<rparr>) e)"
      by (rule earned_change [OF inv_e])
    have "shop_change e d'"
      unfolding d' using c2 inert_change [OF shop_change_inv [OF c2]] shop_change_trans by (metis inert_simps(4))
    then show ?thesis
      using c1 True n unfolding earn_step_def point_step_def d' by (auto intro: shop_change_trans)
  next
    case False
    then have "n \<le> 0" "d' = d \<or> (\<exists>m x. d' = add_log pid LApprove m x d)"
      using run by (auto simp: earn_for_order_def Let_def split: if_splits)
    then show ?thesis
      using earn_step_refl [OF inv] inert_change [OF inv]
      by (auto simp: earn_step_def)
  qed
qed

text \<open>The two ways a confirmation succeeds.\<close>

lemma confirm_payment_sync_Inr:
  assumes run: "confirm_payment_sync http pid key amount user now d = Inr (res, d')"
  obtains (waiting) p ord dat q x where "get_payment d pid = Some p" "confirmable p" "get_order d (pay_order p) = Some ord"
      "toss_confirm_payment http key (pay_toss_order_id p) amount = Inr dat" "cr_waiting res" "cr_payment res = q"
      "pay_status q = WaitingForDeposit" "pay_id q = pid" "pay_order q = pay_order p"
      "d' = add_log pid LApprove x dat (upd_payment pid (\<lambda>_. q) d)"
      "dget_str dat ''status'' = Some ''WAITING_FOR_DEPOSIT''"
  | (paid) p ord dat q d1 d4 where "get_payment d pid = Some p" "confirmable p" "get_order d (pay_order p) = Some ord"
      "toss_confirm_payment http key (pay_toss_order_id p) amount = Inr dat" "\<not> cr_waiting res" "cr_payment res = q"
      "pay_status q = Done" "pay_id q = pid" "pay_order q = pay_order p" "pay_raw q = sanitize_raw_response dat"
      "d1 = deactivate_carts_of (u_id user) (upd_order (pay_order p) (set_order_paid (pay_method q) now)
         ((upd_payment pid (\<lambda>_. q) d)\<lparr>products := sell (items_of d (pay_order p)) (products d)\<rparr>))"
      "earn_for_order user ord pid now d1 = Inr (cr_points res, d4)" "d' = add_log pid LApprove MsgApproved dat d4"
      "mark_as_paid p dat now d = Inr (q, upd_payment pid (\<lambda>_. q) d)"
proof -
  obtain p where p: "get_payment d pid = Some p" "confirmable p"
    using run by (auto simp: confirm_payment_sync_def rbind_eq_Inr of_get_eq_Inr split: if_splits)
  obtain ord where ord: "get_order d (pay_order p) = Some ord"
    using run p by (auto simp: confirm_payment_sync_def rbind_eq_Inr of_get_eq_Inr)
  obtain dat where dat: "toss_confirm_payment http key (pay_toss_order_id p) amount = Inr dat"
    using run p ord by (auto simp: confirm_payment_sync_def split: sum.splits)
  have pid: "pay_id p = pid" and oid: "o_id ord = pay_order p"
    using p(1) ord by (auto dest: rget_Some_key)
  show thesis
  proof (cases "dget_str dat ''status'' = Some ''WAITING_FOR_DEPOSIT''")
    case True
    then obtain q e where q: "mark_as_waiting_for_deposit p dat now d = Inr (q, e)"
      and res: "res = \<lparr>cr_payment = q, cr_points = 0, cr_receipt_url = [], cr_waiting = True\<rparr>"
        "d' = add_log (pay_id q) LApprove MsgVirtualAccountIssued dat e"
      using run p ord dat
      by (auto simp: confirm_payment_sync_def record_virtual_account_issued_def rbind_eq_Inr)
    note m = mark_as_waiting_Inr [OF q]
    show thesis
      using waiting [OF p ord dat, of q MsgVirtualAccountIssued] m res pid True by simp
  next
    case False
    then obtain q e where q: "mark_as_paid p dat now d = Inr (q, e)"
      using run p ord dat by (auto simp: confirm_payment_sync_def rbind_eq_Inr)
    note m = mark_as_paid_Inr [OF q]
    have items: "items_of e (pay_order p) = items_of d (pay_order p)" "products e = products d"
      by (simp_all add: m(7) items_of_def)
    obtain f where f: "fold_res count_sold (items_of e (pay_order p)) e = Inr f"
      using run p ord dat False q oid by (auto simp: confirm_payment_sync_def split: sum.splits)
    have f': "f = e\<lparr>products := sell (items_of d (pay_order p)) (products d)\<rparr>"
      using count_sold_items_Inr [OF f] by (simp add: items)
    obtain d4 where "earn_for_order user ord pid now (deactivate_carts_of (u_id user)
        (upd_order (pay_order p) (set_order_paid (pay_method q) now) f)) = Inr (cr_points res, d4)"
      "d' = add_log pid LApprove MsgApproved dat d4" "cr_payment res = q" "\<not> cr_waiting res"
      using run p ord dat False q f oid by (auto simp: confirm_payment_sync_def Let_def rbind_eq_Inr)
    then show thesis
      using paid [OF p ord dat] m pid q unfolding f' by simp
  qed
qed

lemma inert_deactivate [simp]: "shop_inert d (deactivate_carts_of uid d)"
  by (simp add: shop_inert_def deactivate_carts_of_def)

lemma set_order_paid_sel [simp]:
  "o_id (set_order_paid m now r) = o_id r" "o_user (set_order_paid m now r) = o_user r"
  "o_status (set_order_paid m now r) = Paid" "o_earned_points (set_order_paid m now r) = o_earned_points r"
  by (simp_all add: set_order_paid_def)

text \<open>Selling an order that holds stock: payment, sales counters, order and carts.\<close>

lemma sold_change:
  assumes inv: "shop_inv d" and ord: "get_order d oid = Some ord" "holds_stock (o_status ord)"
  shows "shop_change d (deactivate_carts_of uid (upd_order oid (set_order_paid m now)
     ((upd_payment pid f d)\<lparr>products := sell (items_of d oid) (products d)\<rparr>)))"
proof -
  let ?e = "upd_payment pid f d"
  let ?s = "?e\<lparr>products := sell (items_of d oid) (products d)\<rparr>"
  have c1: "shop_change d ?e"
    using inv by (rule inert_change) simp
  have "same_shelf (products ?e) (sell (items_of d oid) (products d))"
    using same_shelf_sell [of "items_of d oid" "products d"] by (simp add: same_shelf_def)
  then have c2: "shop_change ?e ?s"
    by (rule shelf_change [OF shop_change_inv [OF c1]])
  have c3: "shop_change ?s (upd_order oid (set_order_paid m now) ?s)"
    using shop_change_inv [OF c2] by (rule order_row_change) (use ord in simp_all)
  have c4: "shop_change (upd_order oid (set_order_paid m now) ?s)
      (deactivate_carts_of uid (upd_order oid (set_order_paid m now) ?s))"
    using shop_change_inv [OF c3] by (rule inert_change) simp
  show ?thesis
    using c1 c2 c3 c4 shop_change_trans by blast
qed

lemma confirm_payment_sync_change:
  assumes run: "confirm_payment_sync http pid key amount user now d = Inr (res, d')" and inv: "shop_inv d"
    and hold: "\<And>p. get_payment d pid = Some p \<Longrightarrow> holding (orders d) (pay_order p)"
  shows "shop_change d d'"
  using run
proof (cases rule: confirm_payment_sync_Inr)
  case (waiting p ord dat q x)
  have "shop_inert d d'"
    unfolding waiting(10) by (rule inert_trans [of _ "upd_payment pid (\<lambda>_. q) d"]) simp_all
  then show ?thesis
    by (rule inert_change [OF inv])
next
  case (paid p ord dat q d1 d4)
  have "holds_stock (o_status ord)"
    using hold [OF paid(1)] paid(3) by (simp add: holding_def)
  then have c1: "shop_change d d1"
    unfolding paid(11) by (rule sold_change [OF inv paid(3)])
  have c4: "shop_change d1 d4"
    using earn_for_order_Inr(1) [OF paid(12) shop_change_inv [OF c1]] by (simp add: earn_step_def)
  have "shop_change d4 d'"
    unfolding paid(13) using shop_change_inv [OF c4] by (rule inert_change) simp
  then show ?thesis
    using c1 c4 shop_change_trans by blast
qed

interpretation confirm_op: shop_op
  "\<lambda>(http, pid, key, amount, user, now). confirm_payment_sync http pid key amount user now"
  "\<lambda>(http, pid, key, amount, user, now) d. \<forall>p. get_payment d pid = Some p \<longrightarrow> holding (orders d) (pay_order p)"
  by unfold_locales (auto intro: confirm_payment_sync_change)

end
