(* ===== verification/Payment_Task_Ops.thy ===== *)
theory Payment_Task_Ops
  imports Payment_Tasks Payment_Ops
begin

text \<open>
  The contracts of the payment tasks: what the confirm call can end in, what finalizing, rolling
  back and earning write, and that they keep the invariant of the shop and the total of every product.
\<close>

section \<open>Tables a task leaves alone\<close>

lemma log_for_order_frame [simp]:
  "payments (log_for_order oid t m x d) = payments d" "outbox (log_for_order oid t m x d) = outbox d"
  "orders (log_for_order oid t m x d) = orders d" "products (log_for_order oid t m x d) = products d"
  "users (log_for_order oid t m x d) = users d" "histories (log_for_order oid t m x d) = histories d"
  "order_items (log_for_order oid t m x d) = order_items d" "broker_up (log_for_order oid t m x d) = broker_up d"
  "carts (log_for_order oid t m x d) = carts d" "next_id (log_for_order oid t m x d) = next_id d"
  "cart_items (log_for_order oid t m x d) = cart_items d"
  by (simp_all add: log_for_order_def split: option.split)

lemma mark_confirm_aborted_frame [simp]:
  "outbox (mark_confirm_aborted oid d) = outbox d" "orders (mark_confirm_aborted oid d) = orders d"
  "products (mark_confirm_aborted oid d) = products d" "users (mark_confirm_aborted oid d) = users d"
  "histories (mark_confirm_aborted oid d) = histories d" "order_items (mark_confirm_aborted oid d) = order_items d"
  "broker_up (mark_confirm_aborted oid d) = broker_up d" "next_id (mark_confirm_aborted oid d) = next_id d"
  "cart_items (mark_confirm_aborted oid d) = cart_items d"
  by (simp_all add: mark_confirm_aborted_def)

lemma inert_tasks [simp]:
  "shop_inert d (log_for_order oid t m x d)" "shop_inert d (mark_confirm_aborted oid d)"
  "shop_inert d (deactivate_carts_where u d)" "shop_inert d (alert_canceled_order_charged oid d)"
  by (simp_all add: shop_inert_def deactivate_carts_where_def alert_canceled_order_charged_def)

lemma inert_publish: "publish m d = Inr d' \<Longrightarrow> shop_inert d d'"
  by (auto simp: publish_eq_Inr)

lemma inert_alert_finalize [simp]: "shop_inert d (alert_finalize_exhausted pid d)"
  by (auto simp: alert_finalize_exhausted_def inert_trans [OF inert_simps(4) inert_simps(6)] split: option.split)

lemma alert_finalize_payments [simp]: "payments (alert_finalize_exhausted pid d) = payments d"
  by (simp add: alert_finalize_exhausted_def split: option.split)

lemma deactivate_carts_Some: "deactivate_carts_where (Some uid) d = deactivate_carts_of uid d"
  by (simp add: deactivate_carts_where_def deactivate_carts_of_def)

section \<open>The confirm call\<close>

lemma publish_and_raise_outcome:
  assumes "publish_and_raise m e d = (r, d')"
  shows "(\<exists>x. r = Raised x) \<and> d' = (if broker_up d then d\<lparr>outbox := outbox d @ [m]\<rparr> else d)"
  using assms by (auto simp: publish_and_raise_def publish_def split: if_splits)

text \<open>
  When a rollback is decided: for an error that may follow an approval the lookup says that this
  payment was not approved; any other error is final by its code or its status, or no retry is left.
\<close>

definition settled_rejection :: "http \<Rightarrow> nat \<Rightarrow> string \<Rightarrow> int \<Rightarrow> string \<Rightarrow> toss_error \<Rightarrow> bool" where
  "settled_rejection http retries payment_key amount toss_order_id err \<longleftrightarrow>
     (if te_code err \<in> set TOSS_RECONCILE_ERRORS
      then \<exists>dat. toss_get_payment http (Some payment_key) = Inr dat
             \<and> \<not> (approved_status dat \<and> order_id_matches dat toss_order_id \<and> amount_matches dat amount = Inr True)
      else te_code err \<in> set TOSS_NON_RETRYABLE_ERRORS \<or> te_code err \<notin> set TOSS_RETRYABLE_ERRORS \<and> te_status err < 500
        \<or> CONFIRM_MAX_RETRIES \<le> retries)"

definition effective_toss_id :: "pk \<Rightarrow> string option \<Rightarrow> string" where
  "effective_toss_id oid toid = (case toid of None \<Rightarrow> str_nat oid | Some s \<Rightarrow> str_or s (str_nat oid))"

text \<open>Either no payment and no message but an alert is touched, or the payment is aborted for a rollback.\<close>

definition only_alerts :: "db \<Rightarrow> db \<Rightarrow> bool" where
  "only_alerts d d' \<longleftrightarrow> payments d' = payments d
     \<and> (outbox d' = outbox d \<or> (\<exists>u k s. outbox d' = outbox d @ [NotifyFailure u k s]))"

definition aborted_for_rollback :: "pk \<Rightarrow> db \<Rightarrow> db \<Rightarrow> bool" where
  "aborted_for_rollback oid d d' \<longleftrightarrow> payments d' = payments (mark_confirm_aborted oid d)
     \<and> (\<exists>why. outbox d' = (if broker_up d then outbox d @ [RollbackPayment oid why] else outbox d))"

lemma abort_and_rollback_outcome:
  assumes "abort_and_rollback oid why err d = (r, d')"
  shows "\<exists>x. r = Raised x" "aborted_for_rollback oid d d'"
proof -
  note p = publish_and_raise_outcome [OF assms [unfolded abort_and_rollback_def]]
  show "\<exists>x. r = Raised x"
    using p by simp
  show "aborted_for_rollback oid d d'"
    using p by (auto simp: aborted_for_rollback_def)
qed

lemma aborted_for_rollback_log [simp]:
  "aborted_for_rollback oid (log_for_order k t m x d) d' = aborted_for_rollback oid d d'"
  by (simp add: aborted_for_rollback_def mark_confirm_aborted_def)

lemma confirm_error_outcome:
  assumes "confirm_error retries oid err d = (r, d')"
  shows "r = Retried \<and> only_alerts d d' \<and> retries < CONFIRM_MAX_RETRIES
    \<or> (\<exists>x. r = Raised x) \<and> aborted_for_rollback oid d d'
      \<and> (te_code err \<in> set TOSS_NON_RETRYABLE_ERRORS \<or> te_code err \<notin> set TOSS_RETRYABLE_ERRORS \<and> te_status err < 500
         \<or> CONFIRM_MAX_RETRIES \<le> retries)"
  using assms unfolding confirm_error_def Let_def retry_unless_exhausted_def
  by (auto simp: only_alerts_def not_less split: if_splits dest: abort_and_rollback_outcome)

lemma reconcile_errors_final: "c \<in> set TOSS_RECONCILE_ERRORS \<Longrightarrow> c \<in> set TOSS_NON_RETRYABLE_ERRORS"
  by (auto simp: TOSS_RECONCILE_ERRORS_def TOSS_NON_RETRYABLE_ERRORS_def)

lemma reconcile_outcome:
  assumes "reconcile_confirmed_payment http retries n key oid amount err toid d = (r, d')"
  shows "only_alerts d d'
    \<and> (r = Returned None \<longrightarrow> d' = d \<and> (\<exists>dat. toss_get_payment http (Some key) = Inr dat
         \<and> \<not> (approved_status dat \<and> order_id_matches dat toid \<and> amount_matches dat amount = Inr True)))
    \<and> (\<forall>dat. r = Returned (Some dat) \<longrightarrow> toss_get_payment http (Some key) = Inr dat
         \<and> approved_status dat \<and> order_id_matches dat toid \<and> amount_matches dat amount = Inr True)"
proof (cases "toss_get_payment http (Some key)")
  case (Inl lookup_error)
  then show ?thesis
    using assms by (auto simp: reconcile_confirmed_payment_def retry_unless_exhausted_def only_alerts_def
        dest!: publish_and_raise_outcome split: if_splits)
next
  case (Inr dat)
  then show ?thesis
    using assms by (auto simp: reconcile_confirmed_payment_def only_alerts_def split: sum.splits if_splits)
qed

text \<open>How a confirm call ends.\<close>

lemma call_toss_confirm_outcome:
  assumes run: "call_toss_confirm_api http timed_out retries key oid amount toid d = (r, d')"
  obtains (open_end) "only_alerts d d'"
  | (rejected) err where "\<not> timed_out"
      "toss_confirm_payment http key (effective_toss_id oid toid) amount = Inl err"
      "settled_rejection http retries key amount (effective_toss_id oid toid) err"
      "aborted_for_rollback oid d d'" "\<exists>x. r = Raised x"
proof (cases timed_out)
  case True
  then have "only_alerts d d'"
    using run by (auto simp: call_toss_confirm_api_def Let_def retry_unless_exhausted_def only_alerts_def
        split: if_splits dest!: publish_and_raise_outcome)
  then show thesis
    by (rule open_end)
next
  case False
  note eq = run [unfolded call_toss_confirm_api_def Let_def, folded effective_toss_id_def]
  show thesis
  proof (cases "toss_confirm_payment http key (effective_toss_id oid toid) amount")
    case (Inr dat)
    then show thesis
      using eq False open_end by (auto simp: only_alerts_def)
  next
    case (Inl err)
    show thesis
    proof (cases "te_code err \<in> set TOSS_RECONCILE_ERRORS")
      case True
      obtain r1 d1 where rec: "reconcile_confirmed_payment http retries CONFIRM_MAX_RETRIES key oid amount err
          (effective_toss_id oid toid) d = (r1, d1)"
        by fastforce
      note out = reconcile_outcome [OF rec]
      show thesis
      proof (cases "r1 = Returned None")
        case none: True
        then have ce: "confirm_error retries oid err d = (r, d')"
          using eq False Inl True rec out by simp
        have settled: "settled_rejection http retries key amount (effective_toss_id oid toid) err"
          using out none True by (simp add: settled_rejection_def)
        show thesis
          using confirm_error_outcome [OF ce] open_end rejected [OF False Inl settled] by blast
      next
        case other: False
        then have "d' = d1"
          using eq False Inl True rec by (auto split: outcome.splits option.splits)
        then show thesis
          using out open_end by blast
      qed
    next
      case False
      then have ce: "confirm_error retries oid err d = (r, d')"
        using eq \<open>\<not> timed_out\<close> Inl by simp
      show thesis
        using confirm_error_outcome [OF ce] open_end rejected [OF \<open>\<not> timed_out\<close> Inl] False
        by (auto simp: settled_rejection_def)
    qed
  qed
qed

text \<open>The call writes payments, logs and messages only.\<close>

lemma inert_publish_and_raise: "shop_inert d0 d \<Longrightarrow> shop_inert d0 (snd (publish_and_raise m e d))"
  by (auto simp: publish_and_raise_def publish_def elim!: inert_trans)

lemma inert_retry:
  "shop_inert d0 d \<Longrightarrow> shop_inert d0 (snd (k d)) \<Longrightarrow> shop_inert d0 (snd (retry_unless_exhausted a b k d))"
  by (simp add: retry_unless_exhausted_def)

lemma inert_confirm_error: "shop_inert d (snd (confirm_error retries oid err d))"
proof -
  let ?e = "log_for_order oid LError (MsgConfirmError (te_code err)) [(''error_code'', JStr (te_code err))] d"
  have "shop_inert d (snd (abort_and_rollback oid why err ?e))" for why
    unfolding abort_and_rollback_def by (rule inert_publish_and_raise, rule inert_trans [of _ ?e]) simp_all
  then show ?thesis
    by (simp add: confirm_error_def Let_def inert_retry)
qed

lemma inert_reconcile: "shop_inert d (snd (reconcile_confirmed_payment http retries n key oid amount err toid d))"
  by (auto simp: reconcile_confirmed_payment_def intro!: inert_retry inert_publish_and_raise split: sum.split)

lemma inert_call_toss: "shop_inert d (snd (call_toss_confirm_api http timed_out retries key oid amount toid d))"
proof -
  have "shop_inert d (snd (case reconcile_confirmed_payment http retries n key oid amount err i d of
      (Returned (Some payment_data), d1) \<Rightarrow> (Returned payment_data, d1)
    | (Returned None, d1) \<Rightarrow> confirm_error retries oid err d1
    | (Retried, d1) \<Rightarrow> (Retried, d1) | (Raised e, d1) \<Rightarrow> (Raised e, d1)))" for n err i
    using inert_reconcile [of d http retries n key oid amount err i] inert_confirm_error
    by (auto intro: inert_trans split: prod.split outcome.split option.split)
  then show ?thesis
    by (auto simp: call_toss_confirm_api_def Let_def inert_confirm_error
        intro!: inert_retry inert_publish_and_raise split: sum.split)
qed

section \<open>Finalizing\<close>

lemma finalize_tx_Inr:
  assumes run: "finalize_tx dat pid uo now d = Inr (r, d')"
  obtains (before) p where "get_payment d pid = Some p" "pay_status p = Done" "r = FinalizedBefore" "d' = d"
  | (waiting) p q where "get_payment d pid = Some p" "pay_status p \<noteq> Done" "r = FinalizedWaiting (pay_order p)"
      "pay_status q = WaitingForDeposit" "pay_id q = pid"
      "d' = add_log pid LApprove MsgVirtualAccountIssued dat (upd_payment pid (\<lambda>_. q) d)"
  | (canceled) p ord q where "get_payment d pid = Some p" "pay_status p \<noteq> Done" "get_order d (pay_order p) = Some ord"
      "o_status ord = OCanceled" "r = FinalizedCanceled (pay_order p)" "mark_as_paid p dat now d = Inr (q, upd_payment pid (\<lambda>_. q) d)"
      "d' = add_log pid LError MsgCanceledOrderCharged dat (upd_payment pid (\<lambda>_. q) d)"
  | (paid) p ord q where "get_payment d pid = Some p" "pay_status p \<noteq> Done" "get_order d (pay_order p) = Some ord"
      "o_status ord \<noteq> OCanceled" "r = Finalized (pay_order p)" "mark_as_paid p dat now d = Inr (q, upd_payment pid (\<lambda>_. q) d)"
      "d' = add_log pid LApprove MsgApproved dat (deactivate_carts_where uo
         (upd_order (pay_order p) (set_order_paid (pay_method q) now)
           ((upd_payment pid (\<lambda>_. q) d)\<lparr>products := sell (items_of d (pay_order p)) (products d)\<rparr>)))"
proof -
  obtain p where p: "get_payment d pid = Some p"
    using run by (auto simp: finalize_tx_def rbind_eq_Inr of_get_eq_Inr)
  have pid: "pay_id p = pid"
    using p by (rule rget_Some_key)
  show thesis
  proof (cases "pay_is_paid p")
    case True
    then show thesis
      using before [OF p] run p by (simp add: finalize_tx_def pay_is_paid_def)
  next
    case np: False
    then have st: "pay_status p \<noteq> Done"
      by (simp add: pay_is_paid_def)
    show thesis
    proof (cases "dget_str dat ''status'' = Some ''WAITING_FOR_DEPOSIT''")
      case True
      then obtain q e where q: "mark_as_waiting_for_deposit p dat now d = Inr (q, e)"
        and res: "r = FinalizedWaiting (pay_order q)" "d' = add_log (pay_id q) LApprove MsgVirtualAccountIssued dat e"
        using run p np by (auto simp: finalize_tx_def record_virtual_account_issued_def rbind_eq_Inr)
      show thesis
        using waiting [OF p st] mark_as_waiting_Inr [OF q] res pid by simp
    next
      case False
      then obtain ord q e where ord: "get_order d (pay_order p) = Some ord" and q: "mark_as_paid p dat now d = Inr (q, e)"
        using run p np by (auto simp: finalize_tx_def rbind_eq_Inr of_get_eq_Inr)
      have oid: "o_id ord = pay_order p" and e: "e = upd_payment pid (\<lambda>_. q) d"
        using ord mark_as_paid_Inr(7) [OF q] pid by (auto dest: rget_Some_key)
      show thesis
      proof (cases "o_status ord = OCanceled")
        case True
        then show thesis
          using canceled [OF p st ord] run p np False ord q e oid by (simp add: finalize_tx_def)
      next
        case nc: False
        have items: "items_of e (pay_order p) = items_of d (pay_order p)" "products e = products d"
          by (simp_all add: e items_of_def)
        obtain f where f: "fold_res count_sold (items_of e (pay_order p)) e = Inr f"
          using run p np False ord q oid nc by (auto simp: finalize_tx_def split: sum.splits)
        have "f = e\<lparr>products := sell (items_of d (pay_order p)) (products d)\<rparr>"
          using count_sold_items_Inr [OF f] by (simp add: items)
        then show thesis
          using paid [OF p st ord nc] run p np False ord q oid nc f e by (simp add: finalize_tx_def)
      qed
    qed
  qed
qed

text \<open>Finalizing keeps the totals when the order holds its stock or is cancelled.\<close>

definition payable :: "db \<Rightarrow> pk \<Rightarrow> bool" where
  "payable d pid \<longleftrightarrow> (\<forall>p ord. get_payment d pid = Some p \<and> get_order d (pay_order p) = Some ord
     \<longrightarrow> holds_stock (o_status ord) \<or> o_status ord = OCanceled)"

lemma sold_change_where:
  assumes inv: "shop_inv d" and ord: "get_order d oid = Some ord" "holds_stock (o_status ord)"
  shows "shop_change d (deactivate_carts_where uo (upd_order oid (set_order_paid m now)
     ((upd_payment pid f d)\<lparr>products := sell (items_of d oid) (products d)\<rparr>)))" (is "shop_change d (deactivate_carts_where uo ?e)")
proof -
  have c: "shop_change d (deactivate_carts_of 0 ?e)"
    using assms by (rule sold_change)
  have "shop_inert (deactivate_carts_of 0 ?e) (deactivate_carts_where uo ?e)"
    by (simp add: shop_inert_def deactivate_carts_of_def deactivate_carts_where_def)
  from inert_change [OF shop_change_inv [OF c] this] show ?thesis
    by (rule shop_change_trans [OF c])
qed

lemma finalize_tx_change:
  assumes run: "finalize_tx dat pid uo now d = Inr (r, d')" and inv: "shop_inv d" and pre: "payable d pid"
  shows "shop_change d d'"
  using run
proof (cases rule: finalize_tx_Inr)
  case (waiting p q)
  have "shop_inert d d'"
    unfolding waiting by (rule inert_trans [of _ "upd_payment pid (\<lambda>_. q) d"]) simp_all
  then show ?thesis
    by (rule inert_change [OF inv])
next
  case (canceled p ord q)
  have "shop_inert d d'"
    unfolding canceled(7) by (rule inert_trans [of _ "upd_payment pid (\<lambda>_. q) d"]) simp_all
  then show ?thesis
    by (rule inert_change [OF inv])
next
  case (paid p ord q)
  have "holds_stock (o_status ord)"
    using pre paid(1,3,4) by (auto simp: payable_def)
  note c = sold_change_where [OF inv paid(3) this]
  show ?thesis
    unfolding paid(7) using c inert_change [OF shop_change_inv [OF c]] inert_simps(4) shop_change_trans by blast
qed (use inv shop_change_refl in simp)

interpretation finalize_op: shop_op
  "\<lambda>(dat, pid, uo, now). finalize_tx dat pid uo now" "\<lambda>(dat, pid, uo, now) d. payable d pid"
  by unfold_locales (auto intro: finalize_tx_change)

text \<open>The whole task: the transaction, then messages.\<close>

lemma finalize_payment_confirm_state:
  assumes "finalize_payment_confirm retries dat pid uo now d = (out, d')"
  shows "(\<exists>e. finalize_tx dat pid uo now d = Inl e \<and> shop_inert d d' \<and> payments d' = payments d \<and> (\<forall>r. out \<noteq> Returned r))
    \<or> (\<exists>r d1. finalize_tx dat pid uo now d = Inr (r, d1) \<and> shop_inert d1 d' \<and> payments d' = payments d1
         \<and> (\<forall>oid. r = FinalizedCanceled oid \<longrightarrow> d' = alert_canceled_order_charged oid d1)
         \<and> (out = Returned r \<or> (\<forall>x. out \<noteq> Returned x) \<and> (\<exists>oid. r = Finalized oid) \<and> \<not> broker_up d1))"
proof -
  have failed: "shop_inert e d' \<and> payments d' = payments e \<and> (\<forall>r. out \<noteq> Returned r)" if "finalize_failed retries pid x e = (out, d')" for x e
    using that by (auto simp: finalize_failed_def retry_unless_exhausted_def split: if_splits)
  show ?thesis
  proof (cases "finalize_tx dat pid uo now d")
    case (Inl e)
    then show ?thesis
      using assms failed by (simp add: finalize_payment_confirm_def)
  next
    case (Inr rd)
    obtain r d1 where rd: "rd = (r, d1)"
      by fastforce
    show ?thesis
    proof (cases r)
      case (Finalized oid)
      then show ?thesis
        using assms failed Inr rd
        by (auto simp: finalize_payment_confirm_def publish_def split: if_splits option.splits)
    qed (use assms Inr rd in \<open>auto simp: finalize_payment_confirm_def alert_canceled_order_charged_def\<close>)
  qed
qed

section \<open>Rolling back\<close>

lemma set_payment_failed_sel [simp]:
  "o_id (set_payment_failed w now r) = o_id r" "o_user (set_payment_failed w now r) = o_user r"
  "o_status (set_payment_failed w now r) = PaymentFailed" "o_used_points (set_payment_failed w now r) = o_used_points r"
  by (simp_all add: set_payment_failed_def)

text \<open>A change of stock and status, and a point operation interleaved with it.\<close>

lemma shop_change_merge:
  assumes ch: "shop_change d e" and led: "ledger_inv d'"
    and eq: "products d' = products e" "orders d' = orders e" "order_items d' = order_items e"
      "cart_items d' = cart_items e" "map u_id (users d') = map u_id (users e)" "next_id e \<le> next_id d'"
  shows "shop_change d d'"
proof -
  note D = shop_invD [OF shop_change_inv [OF ch]]
  have "shop_inv d'"
    using led D by (intro shop_invI) (simp_all add: eq orders_ok_mono [OF _ eq(6)] items_ok_mono [OF _ eq(6)])
  then show ?thesis
    using ch by (simp add: shop_change_def stock_total_def reserved_def eq)
qed

lemma abort_payment_of_frame [simp]:
  "orders (abort_payment_of oid w a b d) = orders d" "products (abort_payment_of oid w a b d) = products d"
  "users (abort_payment_of oid w a b d) = users d" "histories (abort_payment_of oid w a b d) = histories d"
  "order_items (abort_payment_of oid w a b d) = order_items d" "next_id (abort_payment_of oid w a b d) = next_id d"
  "cart_items (abort_payment_of oid w a b d) = cart_items d"
  by (simp_all add: abort_payment_of_def split: option.split)

lemma inert_abort [simp]: "shop_inert d (abort_payment_of oid w a b d)"
  by (simp add: shop_inert_def)

text \<open>The order really rolled back: its points are refunded on the way.\<close>

definition rollback_refund :: "order \<Rightarrow> timestamp \<Rightarrow> db \<Rightarrow> exn + int \<times> db" where
  "rollback_refund ord now d = (if o_used_points ord > 0
     then rbind (of_get AttributeError (o_user ord) d) (\<lambda>uid d.
            rbind (refund_used_points uid (o_used_points ord) (o_id ord) PaymentFailRefund (order_info ord) now d)
              (\<lambda>_ d2. Inr (o_used_points ord, d2)))
     else Inr (0, d))"

definition shelved :: "pk \<Rightarrow> db \<Rightarrow> db" where
  "shelved oid d = d\<lparr>products := restock (items_of d oid) (products d)\<rparr>"

lemma rollback_tx_eq:
  assumes "get_order d oid = Some ord" "o_status ord \<in> {Pending, Confirmed}"
  shows "rollback_tx oid why now ord d = rbind (rollback_refund ord now (shelved oid d)) (\<lambda>n d2.
     Inr (RolledBack (restored_count (items_of d oid)) n,
          abort_payment_of oid why (restored_count (items_of d oid)) n (upd_order oid (set_payment_failed why now) d2)))"
  using assms(2) rget_Some_key [OF assms(1)]
  by (auto simp: rollback_tx_def rollback_refund_def shelved_def restore_items Let_def)

lemma shelved_ledger:
  assumes inv: "shop_inv d"
  shows "ledger_inv (shelved oid d)"
  using shop_invD(1) [OF inv] by (rule ledger_inv_frame) (auto simp: shelved_def)

lemma shelved_owned:
  assumes inv: "shop_inv d" and ord: "get_order d oid = Some ord" "o_user ord = Some uid"
  shows "order_owned (shelved oid d) (Some oid) uid"
  using shop_inv_order(2) [OF inv ord] by (simp add: order_owned_def shelved_def)

lemma rollback_refund_Inr:
  assumes run: "rollback_refund ord now (shelved oid d) = Inr (n, e)" and inv: "shop_inv d"
    and ord: "get_order d oid = Some ord"
  shows "ledger_change (shelved oid d) e" "n = max 0 (o_used_points ord)"
proof -
  have oid: "o_id ord = oid"
    using ord by (rule rget_Some_key)
  have "ledger_change (shelved oid d) e \<and> n = max 0 (o_used_points ord)"
  proof (cases "o_used_points ord > 0")
    case True
    then obtain uid r where uid: "o_user ord = Some uid" and n: "n = o_used_points ord"
      and r: "refund_used_points uid (o_used_points ord) oid PaymentFailRefund (order_info ord) now (shelved oid d) = Inr (r, e)"
      using run by (auto simp: rollback_refund_def rbind_eq_Inr of_get_eq_Inr oid)
    show ?thesis
      using refund_used_points_change [OF shelved_ledger [OF inv] r shelved_owned [OF inv ord uid]] n True by simp
  next
    case False
    then show ?thesis
      using run ledger_change_refl [OF shelved_ledger [OF inv, of oid]] by (simp add: rollback_refund_def)
  qed
  then show "ledger_change (shelved oid d) e" "n = max 0 (o_used_points ord)"
    by simp_all
qed

lemma rollback_refund_ok:
  assumes inv: "shop_inv d" and ord: "get_order d oid = Some ord"
    and user: "o_user ord \<noteq> None \<or> o_used_points ord \<le> 0"
  obtains n e where "rollback_refund ord now (shelved oid d) = Inr (n, e)"
proof (cases "o_used_points ord > 0")
  case True
  then obtain uid where uid: "o_user ord = Some uid"
    using user by auto
  obtain u where u: "get_user (shelved oid d) uid = Some u"
    using shop_inv_order(3) [OF inv ord uid] by (auto simp: shelved_def)
  obtain r e where "refund_used_points uid (o_used_points ord) oid PaymentFailRefund (order_info ord) now (shelved oid d) = Inr (r, e)"
    using refund_succeeds [OF shelved_ledger [OF inv] u shelved_owned [OF inv ord uid] True] by blast
  then show thesis
    using that True uid rget_Some_key [OF ord] by (simp add: rollback_refund_def)
next
  case False
  then show thesis
    using that by (simp add: rollback_refund_def)
qed

text \<open>The ways a rollback returns.\<close>

lemma rollback_tx_Inr:
  assumes run: "rollback_tx oid why now ord d = Inr (r, d')" and inv: "shop_inv d" and ord: "get_order d oid = Some ord"
  obtains (kept) "o_status ord \<notin> {Pending, Confirmed}" "d' = d" "\<forall>n m. r \<noteq> RolledBack n m"
  | (rolled) n e where "o_status ord \<in> {Pending, Confirmed}" "r = RolledBack (restored_count (items_of d oid)) n"
      "n = max 0 (o_used_points ord)" "ledger_change (shelved oid d) e"
      "d' = abort_payment_of oid why (restored_count (items_of d oid)) n (upd_order oid (set_payment_failed why now) e)"
proof (cases "o_status ord \<in> {Pending, Confirmed}")
  case True
  then obtain n e where "rollback_refund ord now (shelved oid d) = Inr (n, e)"
    and "r = RolledBack (restored_count (items_of d oid)) n"
    and "d' = abort_payment_of oid why (restored_count (items_of d oid)) n (upd_order oid (set_payment_failed why now) e)"
    using run by (auto simp: rollback_tx_eq [OF ord True] rbind_eq_Inr)
  then show thesis
    using rolled [OF True] rollback_refund_Inr [OF _ inv ord] by blast
next
  case False
  then show thesis
    using kept run by (auto simp: rollback_tx_def split: if_splits)
qed

lemma rolled_back_change:
  assumes inv: "shop_inv d" and ord: "get_order d oid = Some ord" "o_status ord \<in> {Pending, Confirmed}"
    and e: "ledger_change (shelved oid d) e"
  shows "shop_change d (abort_payment_of oid why a b (upd_order oid (set_payment_failed why now) e))"
proof -
  have fr: "points_frame (shelved oid d) e" and le: "next_id (shelved oid d) \<le> next_id e" and led: "ledger_inv e"
    using e by (auto simp: ledger_change_def append_only_def)
  note eq = points_frame_eqs [OF fr]
  have "shop_change d (released oid (set_payment_failed why now) d)"
    using inv ord(1) by (rule released_change) (use ord(2) in auto)
  then show ?thesis
  proof (rule shop_change_merge)
    show "ledger_inv (abort_payment_of oid why a b (upd_order oid (set_payment_failed why now) e))"
      using led by (rule ledger_inv_frame) (auto simp: rget_rupd)
  qed (use le user_ids_frame [OF fr] in \<open>simp_all add: eq shelved_def released_def\<close>)
qed

lemma rollback_tx_change:
  assumes run: "rollback_tx oid why now ord d = Inr (r, d')" and inv: "shop_inv d" and ord: "get_order d oid = Some ord"
  shows "shop_change d d'"
  using run inv ord
proof (cases rule: rollback_tx_Inr)
  case (rolled n e)
  then show ?thesis
    using rolled_back_change [OF inv ord] by simp
qed (use inv shop_change_refl in simp)

interpretation rollback_op: shop_op
  "\<lambda>(oid, why, now, ord). rollback_tx oid why now ord" "\<lambda>(oid, why, now, ord) d. get_order d oid = Some ord"
  by unfold_locales (auto intro: rollback_tx_change)

section \<open>Earning\<close>

lemma earn_tx_change:
  assumes run: "earn_tx user ord now d = Inr (r, d')" and inv: "shop_inv d"
  shows "shop_change d d'"
proof (cases "\<exists>n. r = Earned n")
  case True
  then obtain n b e where e: "add_points (u_id user) n Earn (Some (o_id ord)) (task_earn_info ord user) now d = Inr (b, e)"
    and d': "d' = log_for_order (o_id ord) LApprove (MsgPointsEarned n) [(''points'', JNum n)]
      (upd_order (o_id ord) (\<lambda>r. r\<lparr>o_earned_points := n\<rparr>) e)"
    using run by (auto simp: earn_tx_def Let_def rbind_eq_Inr split: if_splits)
  have c1: "shop_change d e"
    using ledger_shop_change [OF inv] add_points_change [OF shop_invD(1) [OF inv] e] by simp
  have c2: "shop_change e (upd_order (o_id ord) (\<lambda>r. r\<lparr>o_earned_points := n\<rparr>) e)"
    by (rule earned_change [OF shop_change_inv [OF c1]])
  show ?thesis
    unfolding d' using c1 c2 inert_change [OF shop_change_inv [OF c2]] inert_tasks(1) shop_change_trans by blast
next
  case False
  then show ?thesis
    using run shop_change_refl [OF inv] by (auto simp: earn_tx_def Let_def rbind_eq_Inr split: if_splits)
qed

interpretation earn_task_op: shop_op
  "\<lambda>(user, ord, now). earn_tx user ord now" "\<lambda>_ _. True"
  by unfold_locales (auto intro: earn_tx_change)

end
