(* ===== verification/Webhook_Ops.thy ===== *)
theory Webhook_Ops
  imports Webhooks Payment_Task_Ops
begin

text \<open>
  The contracts of the webhook handlers: what each writes, that it keeps the invariant of the shop
  and the totals of all products, and what a redelivery finds.
\<close>

section \<open>Building blocks\<close>

lemma webhook_frame [simp]:
  "payments (mark_webhook_processed x t now d) = payments d" "orders (mark_webhook_processed x t now d) = orders d"
  "products (mark_webhook_processed x t now d) = products d" "users (mark_webhook_processed x t now d) = users d"
  "histories (mark_webhook_processed x t now d) = histories d"
  "payments (log_webhook_event x t d) = payments d" "orders (log_webhook_event x t d) = orders d"
  "products (log_webhook_event x t d) = products d" "users (log_webhook_event x t d) = users d"
  "histories (log_webhook_event x t d) = histories d"
  "order_items (mark_webhook_processed x t now d) = order_items d" "next_id (mark_webhook_processed x t now d) = next_id d"
  "cart_items (mark_webhook_processed x t now d) = cart_items d" "outbox (mark_webhook_processed x t now d) = outbox d"
  "order_items (log_webhook_event x t d) = order_items d" "next_id (log_webhook_event x t d) = next_id d"
  "cart_items (log_webhook_event x t d) = cart_items d" "outbox (log_webhook_event x t d) = outbox d"
  by (simp_all add: mark_webhook_processed_def cache_set_def cache_delete_def log_webhook_event_def Let_def)

lemma inert_webhook [simp]:
  "shop_inert d (mark_webhook_processed x t now d)" "shop_inert d (log_webhook_event x t d)"
  by (simp_all add: shop_inert_def)

lemma inert_then:
  assumes "shop_change d e" "shop_inert e f"
  shows "shop_change d f"
  using assms inert_change [OF shop_change_inv [OF assms(1)] assms(2)] shop_change_trans by blast

lemma find_toss_payment_Some:
  assumes "find_toss_payment d i = Some p"
  shows "p \<in> set (payments d)" "pay_toss_order_id p = i"
  using assms by (auto simp: find_toss_payment_def find_Some_iff in_set_conv_nth)

lemma restore_sold_items:
  "fold restore_sold_item is d = d\<lparr>products := unsell is (products d)\<rparr>"
proof (induction "is" arbitrary: d)
  case (Cons i "is")
  have "(\<lambda>p. if p_sold_count p \<ge> oi_quantity i
       then map_sold (\<lambda>n. n - oi_quantity i) (map_stock (\<lambda>s. s + oi_quantity i) p)
       else map_sold (\<lambda>_. 0) (map_stock (\<lambda>s. s + oi_quantity i) p))
     = (\<lambda>p. map_sold (\<lambda>n. max (n - oi_quantity i) 0) (map_stock (\<lambda>s. s + oi_quantity i) p))"
    by (auto simp: map_sold_def map_stock_def fun_eq_iff)
  then show ?case
    using Cons.IH by (cases "oi_product i") (simp_all add: restore_sold_item_def unsell_def upd_product_def)
qed (simp add: unsell_def)

lemma rupd_id: "rupd key rs k (\<lambda>r. r) = rs"
  by (induction rs) auto

lemma uncount_items:
  obtains ps where "fold uncount_sold is d = d\<lparr>products := ps\<rparr>" "same_shelf (products d) ps"
proof (induction "is" arbitrary: d thesis)
  case Nil
  show ?case
    by (rule Nil [of "products d"]) simp_all
next
  case (Cons i "is")
  define e where "e = uncount_sold i d"
  obtain qs where qs: "e = d\<lparr>products := qs\<rparr>" "same_shelf (products d) qs"
  proof (cases "oi_product i")
    case None
    then show thesis
      using that [of "products d"] by (simp add: e_def uncount_sold_def)
  next
    case (Some k)
    let ?g = "\<lambda>p. if p_sold_count p \<ge> oi_quantity i then map_sold (\<lambda>n. n - oi_quantity i) p else p"
    have "same_shelf (rupd p_id (products d) k (\<lambda>p. p)) (rupd p_id (products d) k ?g)"
      by (rule same_shelf_rupd) simp_all
    then show thesis
      using that [of "rupd p_id (products d) k ?g"] Some by (simp add: rupd_id e_def uncount_sold_def upd_product_def)
  qed
  obtain ps where "fold uncount_sold is e = e\<lparr>products := ps\<rparr>" "same_shelf (products e) ps"
    using Cons.IH by blast
  then show ?case
    using Cons.prems [of ps] qs same_shelf_trans [of "products d" qs ps] by (simp add: e_def)
qed

text \<open>Stock back on the shelf; the totals are right again only when the order has let go of it.\<close>

lemma shelved_inv:
  assumes inv: "shop_inv d"
  shows "shop_inv (shelved oid d)"
proof -
  note D = shop_invD [OF inv]
  have "\<forall>i \<in> set (items_of d oid). 0 \<le> oi_quantity i"
    using D(4) by (auto simp: items_of_def items_ok_def)
  then have "products_ok (restock (items_of d oid) (products d))"
    using D(2) restock_nonneg [of "products d" "items_of d oid"] by (simp add: products_ok_def)
  then show ?thesis
    using D shelved_ledger [OF inv, of oid] by (intro shop_invI) (simp_all add: shelved_def)
qed

lemma unsold_inv:
  assumes inv: "shop_inv d"
  shows "shop_inv (d\<lparr>products := unsell (items_of d oid) (products d)\<rparr>)"
proof -
  have "same_shelf (products (shelved oid d)) (unsell (items_of d oid) (products d))"
    using same_shelf_unsell [of "products d" "products d" "items_of d oid"] by (simp add: shelved_def same_shelf_def)
  from shop_change_inv [OF shelf_change [OF shelved_inv [OF inv] this]] show ?thesis
    by (simp add: shelved_def)
qed

text \<open>The status is written last, after stock and points.\<close>

lemma late_status_change:
  assumes ch: "shop_change d e" and inv: "shop_inv d2" and f: "\<And>r. o_id (f r) = o_id r" "\<And>r. o_user (f r) = o_user r"
    and eq: "products d2 = products e" "order_items d2 = order_items e" "rupd o_id (orders d2) oid f = orders e"
  shows "shop_change d (upd_order oid f d2)"
proof -
  note D = shop_invD [OF inv]
  have "ledger_inv (upd_order oid f d2)"
    using D(1) by (rule ledger_inv_frame) (auto simp: rget_rupd f)
  then have "shop_inv (upd_order oid f d2)"
    using D by (intro shop_invI) (simp_all add: orders_ok_rupd f)
  then show ?thesis
    using ch by (simp add: shop_change_def stock_total_def reserved_def eq)
qed

lemma reclaim_earned_points_Inr:
  assumes run: "reclaim_earned_points uid ord pid now d = Inr (b, d')" and inv: "shop_inv d"
  shows "point_step d d'"
proof -
  obtain r e where e: "use_points_fifo uid (o_earned_points ord) CancelDeduct (Some (o_id ord)) (order_info ord) now d = Inr (r, e)"
    and d': "d' = e \<or> (\<exists>m x. d' = add_log pid LError m x e)"
    using run by (auto simp: reclaim_earned_points_def rbind_eq_Inr split: if_splits)
  have s: "point_step d e"
    by (rule ledger_point_step [OF inv]) (rule use_points_fifo_change [OF shop_invD(1) [OF inv] e], simp)
  then show ?thesis
    using d' log_point_step [of e] point_step_trans [OF s] by (auto simp: point_step_def dest: shop_change_inv)
qed

lemma webhook_settle_points_Inr:
  assumes run: "webhook_settle_points ord pid now d = Inr (x, d')" and inv: "shop_inv d"
    and own: "\<And>uid. o_user ord = Some uid \<Longrightarrow> order_owned d (Some (o_id ord)) uid"
  shows "point_step d d'"
proof (cases "o_user ord")
  case None
  then show ?thesis
    using run point_step_refl [OF inv] by (simp add: webhook_settle_points_def)
next
  case (Some uid)
  then obtain e where e: "e = d \<or> (\<exists>b. reclaim_earned_points uid ord pid now d = Inr (b, e))"
    and d': "d' = e \<or> (\<exists>r. refund_used_points uid (o_used_points ord) (o_id ord) CancelRefund
        (order_info ord @ [(''source'', JStr ''webhook'')]) now e = Inr (r, d'))"
    using run by (auto simp: webhook_settle_points_def rbind_eq_Inr split: if_splits)
  have s: "point_step d e"
    using e point_step_refl [OF inv] reclaim_earned_points_Inr [OF _ inv] by blast
  then have inv_e: "shop_inv e" and own_e: "order_owned e (Some (o_id ord)) uid"
    using own [OF Some] by (auto simp: point_step_def order_owned_def dest: shop_change_inv)
  show ?thesis
    using d' point_step_trans [OF s] s
      ledger_point_step [OF inv_e refund_used_points_change [OF shop_invD(1) [OF inv_e] _ own_e]] by blast
qed

section \<open>A completed payment\<close>

lemma webhook_earn_Inr:
  assumes run: "webhook_earn ord now d = Inr (x, d')" and inv: "shop_inv d"
  shows "shop_change d d' \<and> products d' = products d \<and> payments d' = payments d
    \<and> (\<exists>n. orders d' = orders d \<or> orders d' = rupd o_id (orders d) (o_id ord) (\<lambda>r. r\<lparr>o_earned_points := n\<rparr>))"
proof (cases "d' = d")
  case True
  then show ?thesis
    using shop_change_refl [OF inv] by simp
next
  case False
  then obtain uid n b e info where e: "add_points uid n Earn (Some (o_id ord)) info now d = Inr (b, e)"
    and d': "d' = upd_order (o_id ord) (\<lambda>r. r\<lparr>o_earned_points := n\<rparr>) e"
    using run by (auto simp: webhook_earn_def Let_def rbind_eq_Inr of_get_eq_Inr split: option.splits if_splits)
  have s: "point_step d e"
    by (rule ledger_point_step [OF inv]) (rule add_points_change [OF shop_invD(1) [OF inv] e], simp)
  then have c: "shop_change d e" "shop_inv e"
    by (auto simp: point_step_def dest: shop_change_inv)
  have "shop_change d d'"
    unfolding d' using earned_change [OF c(2)] c(1) shop_change_trans by blast
  then show ?thesis
    using s by (auto simp: d' point_step_def)
qed

lemma set_order_paid_by_eq: "set_order_paid_by m now = set_order_paid (str_or m ''card'') now"
  by (simp add: set_order_paid_by_def fun_eq_iff)

definition webhook_order_ok :: "(order_status \<Rightarrow> bool) \<Rightarrow> dict \<Rightarrow> db \<Rightarrow> bool" where
  "webhook_order_ok ok dat d \<longleftrightarrow> (\<forall>p ord. find_toss_payment d (event_order_id dat) = Some p
     \<and> get_order d (pay_order p) = Some ord \<longrightarrow> ok (o_status ord))"

text \<open>The cases of the handler.\<close>

lemma handle_payment_done_Inr:
  assumes run: "handle_payment_done dat now d = Inr (x, d')"
  obtains (ignored) "shop_inert d d'" "payments d' = payments d"
      "\<And>p. find_toss_payment d (event_order_id dat) = Some p \<Longrightarrow> \<not> is_webhook_duplicate (event_order_id dat) ''DONE'' now d \<Longrightarrow>
         pay_status p \<in> {Done, Aborted, Canceled, Expired}"
  | (kept) p ord q where "find_toss_payment d (event_order_id dat) = Some p" "get_order d (pay_order p) = Some ord"
      "o_status ord \<in> {OCanceled, Paid}" "mark_as_paid p dat now d = Inr (q, upd_payment (pay_id p) (\<lambda>_. q) d)"
      "shop_inert (upd_payment (pay_id p) (\<lambda>_. q) d) d'" "payments d' = rupd pay_id (payments d) (pay_id p) (\<lambda>_. q)"
  | (paid) p ord q d1 d2 where "find_toss_payment d (event_order_id dat) = Some p" "get_order d (pay_order p) = Some ord"
      "o_status ord \<notin> {OCanceled, Paid}" "mark_as_paid p dat now d = Inr (q, upd_payment (pay_id p) (\<lambda>_. q) d)"
      "d1 = deactivate_carts_where (o_user ord) (upd_order (pay_order p) (set_order_paid (str_or (pay_method q) ''card'') now)
         ((upd_payment (pay_id p) (\<lambda>_. q) d)\<lparr>products := sell (items_of d (pay_order p)) (products d)\<rparr>))"
      "webhook_earn ord now d1 = Inr ((), d2)" "shop_inert d2 d'" "payments d' = payments d2"
proof (cases "is_webhook_duplicate (event_order_id dat) ''DONE'' now d")
  case True
  then show thesis
    using ignored run by (simp add: handle_payment_done_def)
next
  case nd: False
  show thesis
  proof (cases "find_toss_payment d (event_order_id dat)")
    case None
    then show thesis
      using ignored run nd by (simp add: handle_payment_done_def)
  next
    case p: (Some p)
    show thesis
    proof (cases "pay_status p \<in> {Done, Aborted, Canceled, Expired}")
      case True
      have "shop_inert d d'" "payments d' = payments d"
        using run nd p True inert_trans [OF inert_simps(4) inert_simps(6)]
        by (auto simp: handle_payment_done_def pay_is_paid_def split: if_splits)
      then show thesis
        using ignored p True by simp
    next
      case False
      then obtain ord q e where ord: "get_order d (pay_order p) = Some ord" and q: "mark_as_paid p dat now d = Inr (q, e)"
        and rest: "webhook_pay_order dat (event_order_id dat) q ord now e = Inr ((), d')"
        using run nd p by (auto simp: handle_payment_done_def pay_is_paid_def Let_def rbind_eq_Inr of_get_eq_Inr)
      have e: "e = upd_payment (pay_id p) (\<lambda>_. q) d" and oid: "o_id ord = pay_order p"
        using mark_as_paid_Inr(7) [OF q] ord by (auto dest: rget_Some_key)
      show thesis
      proof (cases "o_status ord \<in> {OCanceled, Paid}")
        case True
        have "shop_inert e d'" "payments d' = payments e"
          using rest True by (auto simp: webhook_pay_order_def shop_inert_def split: if_splits)
        then show thesis
          using kept [OF p ord True] q e by simp
      next
        case op: False
        have items: "items_of e (pay_order p) = items_of d (pay_order p)" "products e = products d"
          by (simp_all add: e items_of_def)
        obtain f where f: "fold_res count_sold (items_of e (pay_order p)) e = Inr f"
          using rest op by (auto simp: webhook_pay_order_def oid split: sum.splits)
        have f': "f = e\<lparr>products := sell (items_of d (pay_order p)) (products d)\<rparr>"
          using count_sold_items_Inr [OF f] by (simp add: items)
        obtain d2 where d2: "webhook_earn ord now (deactivate_carts_where (o_user ord)
            (upd_order (pay_order p) (set_order_paid (str_or (pay_method q) ''card'') now) f)) = Inr ((), d2)"
          "d' = mark_webhook_processed (event_order_id dat) ''DONE'' now (log_webhook_event (event_order_id dat) ''DONE''
             (add_log (pay_id q) LWebhook MsgWebhookDone dat d2))"
          using rest op f by (auto simp: webhook_pay_order_def oid set_order_paid_by_eq rbind_eq_Inr)
        have "shop_inert d2 d'"
          by (simp add: d2(2) shop_inert_def)
        then show thesis
          using paid [OF p ord op q [unfolded e] refl] d2 f' by (simp add: e)
      qed
    qed
  qed
qed

lemma handle_payment_done_change:
  assumes run: "handle_payment_done dat now d = Inr (x, d')" and inv: "shop_inv d"
    and pre: "webhook_order_ok (\<lambda>s. holds_stock s \<or> s = OCanceled) dat d"
  shows "shop_change d d'"
  using run
proof (cases rule: handle_payment_done_Inr)
  case ignored
  then show ?thesis
    using inert_change [OF inv] by simp
next
  case (kept p ord q)
  have "shop_change d (upd_payment (pay_id p) (\<lambda>_. q) d)"
    using inv by (rule inert_change) simp
  then show ?thesis
    using kept(5) by (rule inert_then)
next
  case (paid p ord q d1 d2)
  have "holds_stock (o_status ord)"
    using pre paid(1-3) by (auto simp: webhook_order_ok_def)
  then have c1: "shop_change d d1"
    unfolding paid(5) by (rule sold_change_where [OF inv paid(2)])
  have "shop_change d1 d2"
    using webhook_earn_Inr [OF paid(6) shop_change_inv [OF c1]] by simp
  then show ?thesis
    using c1 paid(7) shop_change_trans inert_then by blast
qed

interpretation done_op: shop_op
  "\<lambda>(dat, now). handle_payment_done dat now" "\<lambda>(dat, now). webhook_order_ok (\<lambda>s. holds_stock s \<or> s = OCanceled) dat"
  by unfold_locales (auto intro: handle_payment_done_change)

section \<open>A cancelled payment\<close>

text \<open>The shelf after the stock of a cancelled order is given back, by the status of the order.\<close>

definition webhook_shelf :: "order \<Rightarrow> db \<Rightarrow> db" where
  "webhook_shelf ord d = (if o_status ord \<in> {Paid, Preparing} then d\<lparr>products := unsell (items_of d (o_id ord)) (products d)\<rparr>
     else if o_status ord = Confirmed then shelved (o_id ord) d else d)"

lemma webhook_shelf_sel [simp]:
  "orders (webhook_shelf ord d) = orders d" "order_items (webhook_shelf ord d) = order_items d"
  "payments (webhook_shelf ord d) = payments d" "users (webhook_shelf ord d) = users d"
  by (simp_all add: webhook_shelf_def shelved_def)

lemma webhook_shelf_inv: "shop_inv d \<Longrightarrow> shop_inv (webhook_shelf ord d)"
  by (simp add: webhook_shelf_def unsold_inv shelved_inv)

lemma handle_payment_canceled_Inr:
  assumes run: "handle_payment_canceled dat now d = Inr (x, d')"
  obtains (ignored) "d' = d" "\<And>p. find_toss_payment d (event_order_id dat) = Some p \<Longrightarrow>
         \<not> is_webhook_duplicate (event_order_id dat) ''CANCELED'' now d \<Longrightarrow> pay_is_canceled p \<or> pay_status p = Aborted"
  | (kept) p ord q where "find_toss_payment d (event_order_id dat) = Some p" "get_order d (pay_order p) = Some ord"
      "o_status ord = OCanceled" "mark_as_canceled p dat now d = Inr (q, upd_payment (pay_id p) (\<lambda>_. q) d)"
      "shop_inert (upd_payment (pay_id p) (\<lambda>_. q) d) d'" "payments d' = rupd pay_id (payments d) (pay_id p) (\<lambda>_. q)"
      "\<not> pay_is_canceled p"
  | (canceled) p ord q d2 where "find_toss_payment d (event_order_id dat) = Some p" "get_order d (pay_order p) = Some ord"
      "o_status ord \<noteq> OCanceled" "mark_as_canceled p dat now d = Inr (q, upd_payment (pay_id p) (\<lambda>_. q) d)"
      "webhook_settle_points ord (pay_id q) now (webhook_shelf ord (upd_payment (pay_id p) (\<lambda>_. q) d)) = Inr ((), d2)"
      "shop_inert (upd_order (pay_order p) (set_order_status OCanceled now) d2) d'" "payments d' = payments d2"
      "\<not> pay_is_canceled p"
proof (cases "is_webhook_duplicate (event_order_id dat) ''CANCELED'' now d
    \<or> (\<forall>p. find_toss_payment d (event_order_id dat) = Some p \<longrightarrow> pay_is_canceled p \<or> pay_status p = Aborted)")
  case True
  then have "d' = d"
    using run by (auto simp: handle_payment_canceled_def Let_def split: if_splits option.splits)
  then show thesis
    using True by (intro ignored) auto
next
  case False
  let ?i = "event_order_id dat"
  obtain p q e ord where p: "find_toss_payment d ?i = Some p" and q: "mark_as_canceled p dat now d = Inr (q, e)" "\<not> pay_is_canceled p"
    and ord: "get_order e (pay_order q) = Some ord"
    and rest: "if o_status ord = OCanceled
       then d' = mark_webhook_processed ?i ''CANCELED'' now (log_webhook_event ?i ''CANCELED'' e)
       else \<exists>d2. webhook_settle_points ord (pay_id q) now
           (if o_status ord \<in> {Paid, Preparing} then restore_stock_for_order (o_id ord) True e
            else if o_status ord = Confirmed then restore_stock_for_order (o_id ord) False e else e) = Inr ((), d2)
         \<and> d' = mark_webhook_processed ?i ''CANCELED'' now (log_webhook_event ?i ''CANCELED''
             (add_log (pay_id q) LWebhook MsgWebhookCanceled dat (upd_order (o_id ord) (set_order_status OCanceled now) d2)))"
    using run False
    by (auto simp: handle_payment_canceled_def Let_def rbind_eq_Inr of_get_eq_Inr split: if_splits option.splits)
  note m = mark_as_canceled_Inr [OF q(1)]
  have e: "e = upd_payment (pay_id p) (\<lambda>_. q) d" and ord': "get_order d (pay_order p) = Some ord" and oid: "o_id ord = pay_order p"
    using m ord by (auto dest: rget_Some_key)
  have shelf: "(if o_status ord \<in> {Paid, Preparing} then restore_stock_for_order (o_id ord) True e
      else if o_status ord = Confirmed then restore_stock_for_order (o_id ord) False e else e) = webhook_shelf ord e"
    by (simp add: webhook_shelf_def restore_stock_for_order_def restore_sold_items restore_items shelved_def)
  show thesis
  proof (cases "o_status ord = OCanceled")
    case True
    then show thesis
      using kept [OF p ord' True q(1) [unfolded e]] rest q(2) by (simp add: e shop_inert_def)
  next
    case nc: False
    then obtain d2 where d2: "webhook_settle_points ord (pay_id q) now (webhook_shelf ord e) = Inr ((), d2)"
      and d': "d' = mark_webhook_processed ?i ''CANCELED'' now (log_webhook_event ?i ''CANCELED''
             (add_log (pay_id q) LWebhook MsgWebhookCanceled dat (upd_order (o_id ord) (set_order_status OCanceled now) d2)))"
      using rest unfolding shelf by auto
    show thesis
      using canceled [OF p ord' nc q(1) [unfolded e] d2 [unfolded e]] q(2) by (simp add: d' oid shop_inert_def)
  qed
qed

text \<open>Statuses from which the handler gives back exactly what the order holds.\<close>

definition cancellable_status :: "order_status \<Rightarrow> bool" where
  "cancellable_status s \<longleftrightarrow> s \<in> {Confirmed, Paid, Preparing} \<or> \<not> holds_stock s"

lemma webhook_cancel_totals:
  assumes inv: "shop_inv d" and ord: "get_order d oid = Some ord" and st: "cancellable_status (o_status ord)"
  obtains e where "shop_change d e" "products e = products (webhook_shelf ord d)" "order_items e = order_items d"
    "orders e = rupd o_id (orders d) oid (set_order_status OCanceled now)"
proof -
  have oid: "o_id ord = oid"
    using ord by (rule rget_Some_key)
  consider "o_status ord \<in> {Paid, Preparing}" | "o_status ord = Confirmed" | "\<not> holds_stock (o_status ord)"
    using st by (auto simp: cancellable_status_def)
  then show thesis
  proof cases
    case 1
    have "shop_change d (unpaid 0 undefined oid now d)"
      using 1 by (intro unpaid_change [OF inv ord]) auto
    then show thesis
      using 1 by (intro that [of "unpaid 0 undefined oid now d"]) (simp_all add: webhook_shelf_def oid)
  next
    case 2
    have "shop_change d (released oid (set_order_status OCanceled now) d)"
      using 2 by (intro released_change [OF inv ord]) simp_all
    then show thesis
      using 2 by (intro that [of "released oid (set_order_status OCanceled now) d"])
        (simp_all add: webhook_shelf_def oid shelved_def)
  next
    case 3
    have "shop_change d (upd_order oid (set_order_status OCanceled now) d)"
      using inv by (rule order_row_change) (use 3 ord in simp_all)
    moreover have "webhook_shelf ord d = d"
      using 3 by (auto simp: webhook_shelf_def)
    ultimately show thesis
      by (intro that [of "upd_order oid (set_order_status OCanceled now) d"]) simp_all
  qed
qed

lemma handle_payment_canceled_change:
  assumes run: "handle_payment_canceled dat now d = Inr (x, d')" and inv: "shop_inv d"
    and pre: "webhook_order_ok cancellable_status dat d"
  shows "shop_change d d'"
  using run
proof (cases rule: handle_payment_canceled_Inr)
  case ignored
  then show ?thesis
    using shop_change_refl [OF inv] by simp
next
  case (kept p ord q)
  have "shop_change d (upd_payment (pay_id p) (\<lambda>_. q) d)"
    using inv by (rule inert_change) simp
  then show ?thesis
    using kept(5) by (rule inert_then)
next
  case (canceled p ord q d2)
  let ?e = "upd_payment (pay_id p) (\<lambda>_. q) d"
  have c: "shop_change d ?e"
    using inv by (rule inert_change) simp
  note inv_e = shop_change_inv [OF c]
  have ord_e: "get_order ?e (pay_order p) = Some ord" and oid: "o_id ord = pay_order p"
    using canceled(2) by (auto dest: rget_Some_key)
  have own: "order_owned (webhook_shelf ord ?e) (Some (o_id ord)) uid" if "o_user ord = Some uid" for uid
    using that canceled(2) oid by (simp add: order_owned_def)
  have s: "point_step (webhook_shelf ord ?e) d2"
    by (rule webhook_settle_points_Inr [OF canceled(5) webhook_shelf_inv [OF inv_e] own])
  obtain f where f: "shop_change ?e f" "products f = products (webhook_shelf ord ?e)" "order_items f = order_items ?e"
    "orders f = rupd o_id (orders ?e) (pay_order p) (set_order_status OCanceled now)"
    using webhook_cancel_totals [OF inv_e ord_e] pre canceled(1,2) by (auto simp: webhook_order_ok_def)
  have "shop_change ?e (upd_order (pay_order p) (set_order_status OCanceled now) d2)"
    using f(1) by (rule late_status_change) (use s f in \<open>auto simp: point_step_def dest: shop_change_inv\<close>)
  then show ?thesis
    using c canceled(6) shop_change_trans inert_then by blast
qed

interpretation canceled_op: shop_op
  "\<lambda>(dat, now). handle_payment_canceled dat now" "\<lambda>(dat, now). webhook_order_ok cancellable_status dat"
  by unfold_locales (auto intro: handle_payment_canceled_change)

section \<open>A deposit that is awaited or taken back\<close>

lemma revert_deposit_change:
  assumes run: "revert_deposit dat p ord now d = Inr (x, d')" and inv: "shop_inv d"
    and ord: "get_order d oid = Some ord" "holds_stock (o_status ord)"
  shows "shop_change d d'" "payments d' = payments d"
    "\<exists>f. orders d' = rupd o_id (orders d) oid f \<and> o_status (f ord) = Confirmed"
proof -
  have oid: "o_id ord = oid"
    using ord(1) by (rule rget_Some_key)
  obtain ps where ps: "fold uncount_sold (items_of d oid) d = d\<lparr>products := ps\<rparr>" "same_shelf (products d) ps"
    by (rule uncount_items)
  let ?d1 = "d\<lparr>products := ps\<rparr>"
  have c1: "shop_change d ?d1"
    by (rule shelf_change [OF inv ps(2)])
  obtain b d2 n where b: "(case o_user ord of None \<Rightarrow> Inr (False, ?d1)
      | Some uid \<Rightarrow> if o_earned_points ord > 0 then reclaim_earned_points uid ord (pay_id p) now ?d1 else Inr (False, ?d1)) = Inr (b, d2)"
    and d': "d' = add_log (pay_id p) LWebhook MsgDepositReverted dat (upd_order oid (set_order_unpaid n now) d2)"
    using run unfolding revert_deposit_def Let_def rbind_eq_Inr oid ps(1) by auto
  have d2: "point_step ?d1 d2"
    using b reclaim_earned_points_Inr [OF _ shop_change_inv [OF c1]] point_step_refl [OF shop_change_inv [OF c1]]
    by (auto split: option.splits if_splits)
  have eq: "orders d2 = orders d" "payments d2 = payments d" and c2: "shop_change ?d1 d2"
    using d2 by (simp_all add: point_step_def)
  have c3: "shop_change d2 (upd_order oid (set_order_unpaid n now) d2)"
    using shop_change_inv [OF c2] by (rule order_row_change) (use ord in \<open>simp_all add: set_order_unpaid_def eq\<close>)
  show "shop_change d d'"
    unfolding d' by (rule inert_then [OF shop_change_trans [OF c1 shop_change_trans [OF c2 c3]]]) simp
  show "payments d' = payments d" "\<exists>f. orders d' = rupd o_id (orders d) oid f \<and> o_status (f ord) = Confirmed"
    using eq by (auto simp: d' set_order_unpaid_def)
qed

lemma handle_waiting_Inr:
  assumes run: "handle_waiting_for_deposit dat now d = Inr (x, d')"
  obtains (ignored) "d' = d" "\<And>p. find_toss_payment d (event_order_id dat) = Some p \<Longrightarrow>
         pay_status p \<in> {WaitingForDeposit, Canceled, Aborted, Expired}"
  | (waiting) p ord e q where "find_toss_payment d (event_order_id dat) = Some p" "get_order d (pay_order p) = Some ord"
      "pay_status p \<notin> {WaitingForDeposit, Canceled, Aborted, Expired}"
      "if pay_is_paid p then revert_deposit dat p ord now d = Inr ((), e)
       else e = add_log (pay_id p) LWebhook MsgWebhookIssued dat d"
      "mark_as_waiting_for_deposit p dat now e = Inr (q, upd_payment (pay_id p) (\<lambda>_. q) e)"
      "d' = log_webhook_event (event_order_id dat) ''WAITING_FOR_DEPOSIT'' (upd_payment (pay_id p) (\<lambda>_. q) e)"
proof (cases "\<forall>p. find_toss_payment d (event_order_id dat) = Some p \<longrightarrow> pay_status p \<in> {WaitingForDeposit, Canceled, Aborted, Expired}")
  case True
  then have "d' = d"
    using run by (auto simp: handle_waiting_for_deposit_def Let_def is_waiting_for_deposit_def split: option.splits)
  then show thesis
    using True by (intro ignored) auto
next
  case False
  then obtain p where p: "find_toss_payment d (event_order_id dat) = Some p"
    "pay_status p \<notin> {WaitingForDeposit, Canceled, Aborted, Expired}"
    by blast
  obtain ord where ord: "get_order d (pay_order p) = Some ord"
    using run p by (auto simp: handle_waiting_for_deposit_def Let_def is_waiting_for_deposit_def rbind_eq_Inr of_get_eq_Inr)
  obtain e q f where e: "(if pay_is_paid p then revert_deposit dat p ord now d
      else Inr ((), add_log (pay_id p) LWebhook MsgWebhookIssued dat d)) = Inr ((), e)"
    and q: "mark_as_waiting_for_deposit p dat now e = Inr (q, f)"
    and d': "d' = log_webhook_event (event_order_id dat) ''WAITING_FOR_DEPOSIT'' f"
    using run p ord by (auto simp: handle_waiting_for_deposit_def Let_def is_waiting_for_deposit_def rbind_eq_Inr simp del: split_paired_Ex split del: if_split)
  show thesis
    using waiting [OF p(1) ord p(2), of e q] e q d' mark_as_waiting_Inr(5) [OF q] by (auto split: if_splits)
qed

lemma handle_waiting_change:
  assumes run: "handle_waiting_for_deposit dat now d = Inr (x, d')" and inv: "shop_inv d"
    and pre: "webhook_order_ok holds_stock dat d"
  shows "shop_change d d'"
  using run
proof (cases rule: handle_waiting_Inr)
  case ignored
  then show ?thesis
    using shop_change_refl [OF inv] by simp
next
  case (waiting p ord e q)
  have "holds_stock (o_status ord)"
    using pre waiting(1,2) by (auto simp: webhook_order_ok_def)
  then have "shop_change d e"
    using waiting(4) revert_deposit_change(1) [OF _ inv waiting(2)] inert_change [OF inv] by (auto split: if_splits)
  moreover have "shop_inert e d'"
    unfolding waiting(6) by (rule inert_trans [of _ "upd_payment (pay_id p) (\<lambda>_. q) e"]) simp_all
  ultimately show ?thesis
    by (rule inert_then)
qed

interpretation waiting_op: shop_op
  "\<lambda>(dat, now). handle_waiting_for_deposit dat now" "\<lambda>(dat, now). webhook_order_ok holds_stock dat"
  by unfold_locales (auto intro: handle_waiting_change)

section \<open>A failed payment\<close>

lemma mark_as_failed_Inr:
  assumes "(if b then mark_as_expired p why now d else mark_as_failed p why now d) = Inr (q, e)"
  shows "pay_status q = (if b then Expired else Aborted)" "pay_id q = pay_id p" "pay_order q = pay_order p"
    "pay_toss_order_id q = pay_toss_order_id p" "e = upd_payment (pay_id p) (\<lambda>_. q) d"
  using assms by (auto simp: mark_as_expired_def mark_as_failed_def dest: save_payment_Inr split: if_splits)

lemma handle_payment_failed_cases:
  assumes run: "handle_payment_failed dat now d = (out, d')"
  obtains (ignored) "d' = d" "\<And>p. out = Inr () \<Longrightarrow> find_toss_payment d (event_order_id dat) = Some p \<Longrightarrow>
         pay_status p \<in> {Aborted, Expired, Done, Canceled}"
  | (failed) p q where "find_toss_payment d (event_order_id dat) = Some p" "pay_status p \<notin> {Aborted, Expired, Done, Canceled}"
      "pay_status q \<in> {Aborted, Expired}" "pay_id q = pay_id p" "pay_toss_order_id q = pay_toss_order_id p"
      "shop_inert (upd_payment (pay_id p) (\<lambda>_. q) d) d'" "payments d' = rupd pay_id (payments d) (pay_id p) (\<lambda>_. q)"
proof -
  define st where "st = (case map_of dat ''status'' of None \<Rightarrow> ''ABORTED'' | Some (JStr s) \<Rightarrow> s | Some _ \<Rightarrow> '''')"
  note run' = run [unfolded handle_payment_failed_def Let_def, folded st_def]
  show thesis
  proof (cases "\<exists>why p q. webhook_fail_reason dat st = Inr why \<and> find_toss_payment d (event_order_id dat) = Some p
      \<and> pay_status p \<notin> {Aborted, Expired, Done, Canceled}
      \<and> \<not> isl (if st = ''EXPIRED'' then mark_as_expired p why now d else mark_as_failed p why now d)")
    case False
    have "d' = d \<and> (out = Inr () \<longrightarrow> (\<forall>p. find_toss_payment d (event_order_id dat) = Some p \<longrightarrow>
        pay_status p \<in> {Aborted, Expired, Done, Canceled}))"
    proof (cases "webhook_fail_reason dat st")
      case (Inr why)
      show ?thesis
      proof (cases "find_toss_payment d (event_order_id dat)")
        case (Some p)
        show ?thesis
        proof (cases "pay_status p \<in> {Aborted, Expired, Done, Canceled}")
          case True
          then show ?thesis
            using run' [unfolded Inr sum.case Some option.case if_P [OF True]] Some by simp
        next
          case np: False
          then obtain e where e: "(if st = ''EXPIRED'' then mark_as_expired p why now d else mark_as_failed p why now d) = Inl e"
            using False Inr Some by (auto simp: isl_def split del: if_split)
          show ?thesis
            using run' [unfolded Inr sum.case Some option.case if_not_P [OF np] e] by auto
        qed
      qed (use run' [unfolded Inr sum.case] in simp)
    qed (use run' in auto)
    then show thesis
      by (intro ignored) auto
  next
    case True
    then obtain why p where why: "webhook_fail_reason dat st = Inr why" and p: "find_toss_payment d (event_order_id dat) = Some p"
      "pay_status p \<notin> {Aborted, Expired, Done, Canceled}"
      and ok: "\<not> isl (if st = ''EXPIRED'' then mark_as_expired p why now d else mark_as_failed p why now d)"
      by blast
  obtain q e where q: "(if st = ''EXPIRED'' then mark_as_expired p why now d else mark_as_failed p why now d) = Inr (q, e)"
    using ok by (cases "if st = ''EXPIRED'' then mark_as_expired p why now d else mark_as_failed p why now d") auto
  note m = mark_as_failed_Inr [OF q]
  have "(case get_order e (pay_order q) of None \<Rightarrow> (Inl DoesNotExist, e)
      | Some ord \<Rightarrow> (case (if o_status ord \<in> {Pending, Confirmed}
            then publish (RollbackPayment (o_id ord) (if why = NoReason then WebhookFailure else why)) e else Inr e) of
          Inl x \<Rightarrow> (Inl x, e)
        | Inr d2 \<Rightarrow> (Inr (), log_webhook_event (event_order_id dat) st (add_log (pay_id q) LWebhook (MsgWebhookFailed why) dat d2)))) = (out, d')"
    using run' [unfolded why sum.case p(1) option.case if_not_P [OF p(2)] q prod.case] .
  then have "shop_inert e d' \<and> payments d' = payments e"
    by (auto simp: shop_inert_def publish_eq_Inr split: option.splits sum.splits if_splits)
  then show thesis
    using failed [OF p, of q] m by (auto split: if_splits)
  qed
qed

lemma handle_payment_failed_inert: "shop_inert d (snd (handle_payment_failed dat now d))"
proof (cases "handle_payment_failed dat now d")
  case (Pair out d')
  then show ?thesis
    by (cases rule: handle_payment_failed_cases) (use inert_trans [OF inert_simps(5)] Pair in auto)
qed

end
