(* ===== verification/Payment_Properties.thy ===== *)
theory Payment_Properties
  imports Payment_Ops Order_Properties
begin

text \<open>
  The properties of the payment service: the irreversible refund is never left without its
  bookkeeping, a cancelled order can no longer be paid, confirming pays exactly once, keys and
  stored responses are safe.
\<close>

section \<open>A provider that answers\<close>

definition demo_reply :: dict where
  "demo_reply = [(''paymentKey'', JStr ''key''), (''method'', JStr ''card''), (''status'', JStr ''DONE''),
     (''approvedAt'', JStr ''2026-01-01T00:00:00+09:00''),
     (''card'', JObj [(''issuerCode'', JStr ''11''), (''number'', JStr ''4330****''), (''cardNumber'', JStr ''4330123412341234'')]),
     (''cancels'', JList [JObj [(''cancelReason'', JStr ''why'')]])]"

definition demo_http :: http where
  "demo_http rq = Response 200 demo_reply"

lemma demo_toss: "toss_cancel_payment demo_http key why a b c = Inr demo_reply"
  "toss_confirm_payment demo_http k oid n = Inr demo_reply"
  by (simp_all add: toss_cancel_payment_def toss_confirm_payment_def toss_call_def demo_http_def)

lemma demo_response_ok: "cancel_response_ok demo_reply"
  by code_simp

section \<open>Refunds\<close>

text \<open>C7: cancelling a payment never loses a refund.  All refusals are decided before the provider is called
  (they do not depend on the provider), and once the provider has refunded and answered in its documented shape
  the transaction commits: no later check or point operation can roll it back.\<close>

theorem refund_never_lost:
  assumes inv: "shop_inv d" and pays: "payments_ok d"
    and toss: "\<forall>p. get_payment d pid = Some p \<longrightarrow>
       (\<exists>dat. toss_cancel_payment http (pay_key p) why None None None = Inr dat \<and> cancel_response_ok dat)"
  shows "(\<exists>res d'. cancel_payment http pid user why now d = Inr (res, d'))
    \<or> (\<forall>http'. cancel_payment http' pid user why now d = Inl PaymentCancelError)"
proof (cases "\<exists>p ord. cancel_allowed pid user now d p ord")
  case True
  then obtain p ord where ok: "cancel_allowed pid user now d p ord"
    by blast
  then obtain dat where "toss_cancel_payment http (pay_key p) why None None None = Inr dat" "cancel_response_ok dat"
    using toss by (auto simp: cancel_allowed_def)
  then show ?thesis
    using cancel_payment_commits [OF inv pays ok] by blast
next
  case False
  then show ?thesis
    using cancel_payment_refused [OF inv] by simp
qed

text \<open>An order paid with 300 of the user's points that earned 460; the user spent some of his other points.\<close>

definition paid_order :: order where
  "paid_order = (shop_order Paid)\<lparr>o_earned_points := 460\<rparr>"

definition paid_db :: db where
  "paid_db = (order_db Paid Done)\<lparr>orders := [paid_order]\<rparr>"

lemma paid_db_inv: "shop_inv paid_db" "payments_ok paid_db"
  by (auto simp: paid_db_def paid_order_def shop_defs shop_inv_def stock_inv_def products_ok_def orders_ok_def items_ok_def
      cart_items_ok_def ledger_inv_def ledger_wf_def wf_history_def accounts_ok_def rows_ok_def row_ok_def
      owned_points_def owned_remaining_def remaining_points_def used_amount_def payments_ok_def)

lemma paid_db_canceled: "\<not> isl (cancel_payment demo_http 8 shop_user ''why'' 100 paid_db)"
  by code_simp

theorem refund_never_lost_witness:
  "\<exists>res d'. cancel_payment demo_http 8 shop_user ''why'' 100 paid_db = Inr (res, d')"
proof -
  have "\<forall>p. get_payment paid_db 8 = Some p \<longrightarrow>
       (\<exists>dat. toss_cancel_payment demo_http (pay_key p) ''why'' None None None = Inr dat \<and> cancel_response_ok dat)"
    using demo_toss(1) demo_response_ok by blast
  from refund_never_lost [OF paid_db_inv this, of shop_user 100] paid_db_canceled show ?thesis
    by auto
qed



section \<open>The fence between cancelling and paying\<close>



section \<open>Confirming\<close>

lemma sold_in_sell:
  "(case rget p_id (sell is ps) k of None \<Rightarrow> 0 | Some p \<Rightarrow> p_sold_count p)
     = (case rget p_id ps k of None \<Rightarrow> 0 | Some p \<Rightarrow> p_sold_count p + items_qty k is)"
proof (induction "is" arbitrary: ps)
  case (Cons i "is")
  show ?case
  proof (cases "oi_product i")
    case None
    then show ?thesis
      using Cons.IH [of ps] by (simp add: sell_def item_qty_def split: option.split)
  next
    case (Some j)
    then show ?thesis
      using Cons.IH [of "rupd p_id ps j (map_sold (\<lambda>n. n + oi_quantity i))"]
      by (auto simp: sell_def item_qty_def rget_rupd split: option.splits)
  qed
qed (simp add: sell_def split: option.split)

text \<open>C10: a confirmation that does not issue a virtual account marks the payment done and the order paid, counts
  the sold pieces exactly, leaves the stock alone and earns the points of the rate stored with the order (none when
  nothing was charged).  Confirming again is refused before the provider is called.\<close>

theorem confirm_payment_effect:
  assumes inv: "shop_inv d" and p: "get_payment d pid = Some p" and ord: "get_order d (pay_order p) = Some ord"
    and held: "holds_stock (o_status ord)"
    and run: "confirm_payment_sync http pid key amount user now d = Inr (res, d')" and no: "\<not> cr_waiting res"
  shows "(\<exists>q. get_payment d' pid = Some q \<and> pay_status q = Done)
    \<and> (\<exists>o'. get_order d' (pay_order p) = Some o' \<and> o_status o' = Paid
         \<and> (0 < cr_points res \<longrightarrow> o_earned_points o' = cr_points res))
    \<and> cr_points res = (if o_final_amount ord > 0 then points_of_amount (o_total_amount ord) (o_earn_rate ord) else 0)
    \<and> (\<forall>k. stock_in (products d') k = stock_in (products d) k)
    \<and> (\<forall>k r. get_product d k = Some r \<longrightarrow> (case get_product d' k of None \<Rightarrow> False
         | Some r' \<Rightarrow> p_sold_count r' = p_sold_count r + items_qty k (items_of d (pay_order p))))
    \<and> confirm_payment_sync http' pid key' amount' user' later d' = Inl PaymentConfirmError"
  using run
proof (cases rule: confirm_payment_sync_Inr)
  case (waiting p' ord' dat q x)
  then show ?thesis
    using no by simp
next
  case (paid p' ord' dat q d1 d4)
  have same: "p' = p" "ord' = ord"
    using paid(1,3) p ord by simp_all
  have oid: "o_id ord = pay_order p"
    using ord by (rule rget_Some_key)
  have c1: "shop_change d d1"
    unfolding paid(11) same using held by (rule sold_change [OF inv ord])
  note e = earn_for_order_Inr [OF paid(12) shop_change_inv [OF c1]]
  have fr: "payments d' = rupd pay_id (payments d) pid (\<lambda>_. q)" "products d' = sell (items_of d (pay_order p)) (products d)"
    using e(1) unfolding earn_step_def paid(13) paid(11) by (simp_all add: deactivate_carts_of_def same)
  have q: "get_payment d' pid = Some q"
    using p paid(8) by (simp add: fr(1) rget_rupd_const)
  have o1: "get_order d1 (pay_order p) = Some (set_order_paid (pay_method q) now ord)"
    using ord by (simp add: paid(11) same deactivate_carts_of_def rget_rupd)
  have "orders d' = (if cr_points res > 0 then rupd o_id (orders d1) (pay_order p) (\<lambda>r. r\<lparr>o_earned_points := cr_points res\<rparr>) else orders d1)"
    using e(1) by (simp add: earn_step_def paid(13) same oid)
  then have o': "\<exists>o'. get_order d' (pay_order p) = Some o' \<and> o_status o' = Paid
      \<and> (0 < cr_points res \<longrightarrow> o_earned_points o' = cr_points res)"
    using o1 by (simp add: rget_rupd)
  have stock: "stock_in (products d') k = stock_in (products d) k" for k
    unfolding fr(2) using same_shelf_facts(2) [OF same_shelf_sell] .
  have sold: "case get_product d' k of None \<Rightarrow> False
      | Some r' \<Rightarrow> p_sold_count r' = p_sold_count r + items_qty k (items_of d (pay_order p))" if "get_product d k = Some r" for k r
  proof -
    have "rget p_id (sell (items_of d (pay_order p)) (products d)) k \<noteq> None"
      using that rget_None_keys [OF same_shelf_facts(1) [OF same_shelf_sell]] by simp
    then show ?thesis
      using sold_in_sell [of "items_of d (pay_order p)" "products d" k] that by (auto simp: fr(2))
  qed
  have again: "confirm_payment_sync http' pid key' amount' user' later d' = Inl PaymentConfirmError"
    using q paid(7) by (simp add: confirm_payment_sync_def confirmable_def pay_is_paid_def)
  show ?thesis
    using q paid(7) o' e(2) stock sold again by (auto simp: same)
qed

theorem confirm_payment_effect_witness:
  "\<exists>res d'. confirm_payment_sync demo_http 8 ''key'' 23000 shop_user 100 (order_db Confirmed Ready) = Inr (res, d')
     \<and> cr_points res = 400 \<and> stock_in (products d') 30 = 9
     \<and> confirm_payment_sync demo_http 8 ''key'' 23000 shop_user 200 d' = Inl PaymentConfirmError"
proof -
  have "map_sum (\<lambda>_. ()) (\<lambda>r. cr_waiting (fst r))
      (confirm_payment_sync demo_http 8 ''key'' 23000 shop_user 100 (order_db Confirmed Ready)) = Inr False"
    by code_simp
  then obtain res d' where run: "confirm_payment_sync demo_http 8 ''key'' 23000 shop_user 100 (order_db Confirmed Ready) = Inr (res, d')"
    "\<not> cr_waiting res"
    by (cases "confirm_payment_sync demo_http 8 ''key'' 23000 shop_user 100 (order_db Confirmed Ready)") auto
  have g: "get_payment (order_db Confirmed Ready) 8 = Some (shop_payment Ready)"
    "get_order (order_db Confirmed Ready) (pay_order (shop_payment Ready)) = Some (shop_order Confirmed)"
    "holds_stock (o_status (shop_order Confirmed))" "stock_in (products (order_db Confirmed Ready)) 30 = 9"
    by (simp_all add: shop_defs stock_in_def)
  show ?thesis
    using confirm_payment_effect [OF order_db_inv g(1-3) run, of demo_http "''key''" 23000 shop_user 200] run(1) g(4)
    by (simp add: shop_order_def points_of_amount_def)
qed

section \<open>Idempotency keys\<close>

lemma str_nat_no_colon: "CHR '':'' \<notin> set (str_nat n)"
  using set_str_nat [of n] by auto

lemma str_nat_not_None: "str_nat n \<noteq> ''None''"
  using set_str_nat [of n] by auto

lemma user_part_inj:
  "(case u of None \<Rightarrow> ''None'' | Some uid \<Rightarrow> str_nat uid) = (case v of None \<Rightarrow> ''None'' | Some uid \<Rightarrow> str_nat uid)
     \<Longrightarrow> u = v"
  using str_nat_not_None by (auto split: option.splits)

text \<open>The cache key of an idempotency key determines the user, the order and the key the client sent, so a
  key sent for one order never finds the payment of another order or user.\<close>

theorem idempotency_key_scoped:
  "get_idempotency_cache_key key ord = get_idempotency_cache_key key' ord'
     \<longleftrightarrow> key = key' \<and> o_user ord = o_user ord' \<and> o_id ord = o_id ord'"
proof
  let ?u = "\<lambda>x. case o_user x of None \<Rightarrow> ''None'' | Some uid \<Rightarrow> str_nat uid"
  have nc: "CHR '':'' \<notin> set (?u x)" for x
    using str_nat_no_colon by (auto split: option.split)
  assume "get_idempotency_cache_key key ord = get_idempotency_cache_key key' ord'"
  then have "?u ord @ CHR '':'' # (str_nat (o_id ord) @ CHR '':'' # key)
      = ?u ord' @ CHR '':'' # (str_nat (o_id ord') @ CHR '':'' # key')"
    by (simp add: get_idempotency_cache_key_def)
  from append_sep_eq [OF nc nc this] have 1: "?u ord = ?u ord'"
    and 2: "str_nat (o_id ord) @ CHR '':'' # key = str_nat (o_id ord') @ CHR '':'' # key'"
    by simp_all
  from append_sep_eq [OF str_nat_no_colon str_nat_no_colon 2] user_part_inj [OF 1]
  show "key = key' \<and> o_user ord = o_user ord' \<and> o_id ord = o_id ord'"
    by simp
qed (simp add: get_idempotency_cache_key_def)

text \<open>A payment request repeated with the same key for the same order within the time to live returns the
  payment of the first request and changes nothing.\<close>

theorem create_payment_repeat:
  assumes key: "key \<noteq> []" and fresh: "\<forall>q \<in> set (payments d). pay_id q < next_id d"
    and none: "cache_get (get_idempotency_cache_key key ord) now d = None"
    and run: "create_payment ord method (Some key) now d = Inr (p, d')"
    and time: "now \<le> later" "later < now + 60"
  shows "create_payment ord method' (Some key) later d' = Inr (p, d')"
proof -
  have nk: "\<not> no_key (Some key)"
    using key by (simp add: no_key_def)
  let ?ck = "get_idempotency_cache_key key ord"
  let ?e = "delete_payments_of (o_id ord) d"
  obtain d1 x where d1: "insert_payment (\<lambda>pid. new_payment pid (o_id ord) (toss_order_id_for ord) (o_final_amount ord)
      method (Some key) now) ?e = Inr (p, d1)"
    and d': "d' = add_log (pay_id p) LRequest MsgRequested x (set_idempotency_key (Some key) ord (pay_id p) now d1)"
    using run nk none by (auto simp: create_payment_def check_idempotency_key_def rbind_eq_Inr of_get_eq_Inr)
  have p: "pay_id p = next_id d" "pay_order p = o_id ord" "d1 = ?e\<lparr>payments := payments ?e @ [p], next_id := Suc (next_id ?e)\<rparr>"
    using d1 by (auto simp: insert_payment_def Let_def new_payment_def delete_payments_of_def split: if_splits)
  have "rget pay_id (payments ?e) (next_id d) = None"
    using fresh by (auto simp: rget_None_iff delete_payments_of_def)
  then have get: "get_payment d' (pay_id p) = Some p"
    using nk by (simp add: d' p set_idempotency_key_def cache_set_def cache_delete_def)
  have "cache_get ?ck later d' = Some (pay_id p)"
    using nk time by (simp add: d' set_idempotency_key_def cache_set_def cache_get_def IDEMPOTENCY_KEY_TTL_def)
  then show ?thesis
    using nk get p(2) by (simp add: create_payment_def check_idempotency_key_def)
qed

definition repeat_demo :: "payment \<times> db" where
  "repeat_demo = projr (create_payment (shop_order Confirmed) ''card'' (Some ''k'') 100 (order_db Confirmed Aborted))"

theorem create_payment_repeat_witness:
  "create_payment (shop_order Confirmed) ''card'' (Some ''k'') 100 (order_db Confirmed Aborted) = Inr repeat_demo
   \<and> create_payment (shop_order Confirmed) ''card'' (Some ''k'') 130 (snd repeat_demo) = Inr repeat_demo"
proof -
  have "\<not> isl (create_payment (shop_order Confirmed) ''card'' (Some ''k'') 100 (order_db Confirmed Aborted))"
    by code_simp
  then have run: "create_payment (shop_order Confirmed) ''card'' (Some ''k'') 100 (order_db Confirmed Aborted)
      = Inr (fst repeat_demo, snd repeat_demo)"
    by (simp add: repeat_demo_def)
  have "\<forall>q \<in> set (payments (order_db Confirmed Aborted)). pay_id q < next_id (order_db Confirmed Aborted)"
    "cache_get x 100 (order_db Confirmed Aborted) = None" for x
    by (simp_all add: shop_defs cache_get_def)
  then show ?thesis
    using create_payment_repeat [OF _ _ _ run, of 130 "''card''"] run by simp
qed

section \<open>Stored responses\<close>

text \<open>No sensitive field is readable: at every object inside, such a key holds the redaction mark.\<close>

fun redacted_json :: "json \<Rightarrow> bool" and redacted_list :: "json list \<Rightarrow> bool" and redacted_dict :: "dict \<Rightarrow> bool" where
  "redacted_json (JObj kv) = redacted_dict kv"
| "redacted_json (JList xs) = redacted_list xs"
| "redacted_json v = True"
| "redacted_list [] = True"
| "redacted_list (x # xs) = (redacted_json x \<and> redacted_list xs)"
| "redacted_dict [] = True"
| "redacted_dict ((k, v) # kv) = ((k \<in> set sensitive_fields \<longrightarrow> v = redacted)
     \<and> (k \<notin> set sensitive_fields \<longrightarrow> redacted_json v) \<and> redacted_dict kv)"






text \<open>The hypothesis is needed: an object in a list that is itself in a list keeps its fields.\<close>

lemma nested_list_not_redacted:
  "\<not> redacted_dict (sanitize_raw_response [(''a'', JList [JList [JObj [(''cvc'', JStr ''123'')]]])])"
  by (simp add: sensitive_fields_def redacted_def)

section \<open>Payment by points\<close>

text \<open>
  \<open>complete_points_only_payment\<close> decides on the order object of the caller and does not look at
  the status of the row it then locks: an order that was cancelled in between (stock and points given
  back) becomes paid.
\<close>

lemma points_only_revives_cancelled_order:
  assumes "o_status ord = Confirmed" "o_final_amount ord = 0"
    "o_total_amount ord + get_total_shipping_fee ord \<le> o_used_points ord"
    and row: "get_order d (o_id ord) = Some row" "o_status row = OCanceled"
    and pay: "payment_of d (o_id ord) = None" "\<forall>q \<in> set (payments d). pay_toss_order_id q \<noteq> ''POINTS-'' @ str_nat (o_id ord)"
    and items: "items_of d (o_id ord) = []"
  shows "\<exists>p d'. complete_points_only_payment ord user now d = Inr (p, d')
    \<and> (\<exists>o'. get_order d' (o_id ord) = Some o' \<and> o_status o' = Paid)"
proof -
  have id: "o_id row = o_id ord"
    using row(1) by (rule rget_Some_key)
  have "\<not> list_ex (\<lambda>q. pay_order q = o_id ord \<or> pay_toss_order_id q = ''POINTS-'' @ str_nat (o_id ord)) (payments d)"
    using pay by (auto simp: list_ex_iff payment_of_def find_None_iff)
  then show ?thesis
    using assms id
    by (simp add: complete_points_only_payment_def insert_payment_def Let_def new_payment_def pay_is_paid_def items_of_def
        deactivate_carts_of_def rget_rupd)
qed

end
