(* ===== verification/Payment_Task_Properties.thy ===== *)
theory Payment_Task_Properties
  imports Payment_Task_Ops Payment_Properties
begin

text \<open>
  The properties of the payment tasks: a rollback is never started while the provider may have
  charged the customer, a lost rollback is found again, every task may be delivered twice, and the
  chain of tasks does what the synchronous confirmation does.
\<close>

section \<open>No rollback in doubt\<close>


text \<open>A provider that says \<open>already processed\<close> to the confirmation and \<open>canceled\<close> to the lookup.\<close>

definition refusing_http :: http where
  "refusing_http rq = (if rq_post rq then Response 400 [(''code'', JStr ''ALREADY_PROCESSED_PAYMENT'')]
     else Response 200 [(''status'', JStr ''CANCELED''), (''orderId'', JStr ''20260101000005''), (''totalAmount'', JNum 23000)])"

definition refused_run :: "dict outcome \<times> db" where
  "refused_run = call_toss_confirm_api refusing_http False 0 ''key'' 5 23000 (Some ''20260101000005'')
     (order_db Confirmed InProgress)"

lemma refused_run_eval:
  "map pay_status (payments (snd refused_run)) = [Aborted]" "outbox (snd refused_run) = [RollbackPayment 5 (ConfirmRejected ''ALREADY_PROCESSED_PAYMENT'')]"
  "map pay_status (payments (order_db Confirmed InProgress)) = [InProgress]"
  by code_simp+


text \<open>
  An exhausted network error is treated as a rejection without a lookup, although the request may
  have reached the provider.
\<close>

lemma network_error_rolls_back_unchecked:
  "outbox (snd (call_toss_confirm_api (\<lambda>_. RequestException) False 3 ''key'' 5 23000 None (order_db Confirmed InProgress)))
     = [RollbackPayment 5 (ConfirmRetriesExceeded ''NETWORK_ERROR'')]"
  by code_simp

section \<open>Rolling back\<close>

lemma rollback_returns:
  assumes inv: "shop_inv d" and ord: "get_order d oid = Some ord"
    and user: "o_user ord \<noteq> None \<or> o_used_points ord \<le> 0"
  obtains r d' where "rollback_tx oid why now ord d = Inr (r, d')" "rollback_payment_failure retries oid why now d = (Returned r, d')"
proof (cases "o_status ord \<in> {Pending, Confirmed}")
  case True
  obtain n e where "rollback_refund ord now (shelved oid d) = Inr (n, e)"
    using rollback_refund_ok [OF inv ord user] by blast
  then show thesis
    using that ord by (simp add: rollback_payment_failure_def rollback_tx_eq [OF ord True])
next
  case False
  then have "\<exists>r. rollback_tx oid why now ord d = Inr (r, d)"
    by (simp add: rollback_tx_def)
  then show thesis
    using that ord by (auto simp: rollback_payment_failure_def)
qed

lemma shelved_ledger_frame:
  assumes "ledger_change (shelved oid d) e"
  shows "orders e = orders d" "products e = restock (items_of d oid) (products d)"
proof -
  have "points_frame (shelved oid d) e"
    using assms by (simp add: ledger_change_def)
  note eq = points_frame_eqs [OF this]
  show "orders e = orders d" "products e = restock (items_of d oid) (products d)"
    by (simp_all add: eq shelved_def)
qed

lemma rolled_back_order:
  assumes "get_order d oid = Some ord" "ledger_change (shelved oid d) e"
  shows "get_order (abort_payment_of oid why a b (upd_order oid (set_payment_failed why now) e)) oid
    = Some (set_payment_failed why now ord)"
  using assms(1) by (simp add: shelved_ledger_frame(1) [OF assms(2)] rget_rupd)



section \<open>A lost rollback is found again\<close>

lemma trigger_rollback_fold:
  assumes "broker_up d"
  shows "broker_up (snd (fold (trigger_rollback m) os (r, d)))
    \<and> outbox (snd (fold (trigger_rollback m) os (r, d))) = outbox d @ map (\<lambda>x. RollbackPayment (o_id x) (OrphanDetected m)) os
    \<and> shop_inert d (snd (fold (trigger_rollback m) os (r, d)))
    \<and> payments (snd (fold (trigger_rollback m) os (r, d))) = payments d"
  using assms
proof (induction os arbitrary: r d)
  case (Cons x os)
  let ?d = "d\<lparr>outbox := outbox d @ [RollbackPayment (o_id x) (OrphanDetected m)]\<rparr>"
  have step: "\<exists>r'. trigger_rollback m x (r, d) = (r', ?d)"
    using Cons.prems by (simp add: trigger_rollback_def publish_def Let_def)
  then obtain r' where r': "trigger_rollback m x (r, d) = (r', ?d)"
    by blast
  have "shop_inert d ?d"
    by simp
  then show ?case
    using Cons.IH [of ?d r'] Cons.prems inert_trans [of d ?d] by (auto simp: r')
qed simp

lemma payment_of_Some:
  assumes "payment_of d oid = Some p"
  shows "p \<in> set (payments d)" "pay_order p = oid"
  using assms by (auto simp: payment_of_def find_Some_iff in_set_conv_nth)

text \<open>C18: when the confirm task has decided on a rollback and the broker is down, so that the message is lost, the
  periodic orphan check publishes the rollback once the order has been quiet for the threshold and the broker is up
  again, and that rollback returns the stock and closes the order.\<close>

theorem lost_rollback_recovered:
  assumes inv: "shop_inv d" and ord: "get_order d oid = Some ord" "o_status ord = Confirmed"
    and user: "o_user ord \<noteq> None \<or> o_used_points ord \<le> 0" and p: "payment_of d oid = Some p"
    and run: "call_toss_confirm_api http timed_out retries key oid amount toid d = (r, d1)" "payments d1 \<noteq> payments d"
    and time: "o_updated_at ord < now - m * 60"
    and d2: "d2 = snd (detect_orphaned_orders m now (d1\<lparr>broker_up := True\<rparr>))"
  shows "RollbackPayment oid (OrphanDetected m) \<in> set (outbox d2)
    \<and> (\<exists>d3. rollback_payment_failure 0 oid (OrphanDetected m) later d2
          = (Returned (RolledBack (restored_count (items_of d oid)) (max 0 (o_used_points ord))), d3)
        \<and> (\<exists>o'. get_order d3 oid = Some o' \<and> o_status o' = PaymentFailed))"
proof -
  let ?e = "d1\<lparr>broker_up := True\<rparr>"
  have in1: "shop_inert d d1"
    using inert_call_toss [of d http timed_out retries key oid amount toid] run(1) by simp
  then have "shop_inert d ?e"
    by (simp add: shop_inert_def)
  moreover have ab: "payments d1 = payments (mark_confirm_aborted oid d)"
    using run(1) by (cases rule: call_toss_confirm_outcome) (use run(2) in \<open>auto simp: only_alerts_def aborted_for_rollback_def\<close>)
  have "list_ex (\<lambda>q. pay_order q = oid \<and> pay_status q = Aborted) (payments ?e)"
    using payment_of_Some [OF p]
    by (auto simp: ab mark_confirm_aborted_def list_ex_iff intro!: bexI [of _ "p\<lparr>pay_status := Aborted\<rparr>"])
  then have orphan: "ord \<in> set (orphaned_orders (now - m * 60) ?e)"
    using ord time in1 rget_Some_in [OF ord(1)] rget_Some_key [OF ord(1)]
    by (auto simp: orphaned_orders_def shop_inert_def)
  moreover have "broker_up ?e"
    by simp
  note f = trigger_rollback_fold [OF this, of m "orphaned_orders (now - m * 60) ?e"
      "\<lparr>or_detected = 0, or_triggered = 0, or_errors = []\<rparr>", folded detect_orphaned_orders_def, folded d2]
  ultimately have in2: "shop_inert d d2"
    using inert_trans by blast
  then have inv2: "shop_inv d2" and ord2: "get_order d2 oid = Some ord" and items: "items_of d2 oid = items_of d oid"
    using shop_change_inv [OF inert_change [OF inv in2]] ord(1) by (simp_all add: shop_inert_def items_of_def)
  have sent: "RollbackPayment oid (OrphanDetected m) \<in> set (outbox d2)"
    using f orphan rget_Some_key [OF ord(1)] by force
  obtain x d3 where tx: "rollback_tx oid (OrphanDetected m) later ord d2 = Inr (x, d3)"
    and run3: "rollback_payment_failure 0 oid (OrphanDetected m) later d2 = (Returned x, d3)"
    using rollback_returns [OF inv2 ord2 user] by blast
  from tx inv2 ord2 show ?thesis
  proof (cases rule: rollback_tx_Inr)
    case (rolled n e)
    then show ?thesis
      using sent run3 rolled_back_order [OF ord2 rolled(4)] by (simp add: items)
  qed (use ord(2) in simp)
qed

definition orphan_state :: db where
  "orphan_state = snd (detect_orphaned_orders 10 1000 ((snd refused_run)\<lparr>broker_up := True\<rparr>))"

theorem lost_rollback_recovered_witness:
  "RollbackPayment 5 (OrphanDetected 10) \<in> set (outbox orphan_state)"
proof -
  have run: "call_toss_confirm_api refusing_http False 0 ''key'' 5 23000 (Some ''20260101000005'')
      (order_db Confirmed InProgress) = (fst refused_run, snd refused_run)"
    by (simp add: refused_run_def)
  have ne: "payments (snd refused_run) \<noteq> payments (order_db Confirmed InProgress)"
  proof
    assume "payments (snd refused_run) = payments (order_db Confirmed InProgress)"
    from arg_cong [OF this, of "map pay_status"] show False
      by (simp add: refused_run_eval)
  qed
  have g: "get_order (order_db Confirmed InProgress) 5 = Some (shop_order Confirmed)" "o_status (shop_order Confirmed) = Confirmed"
    "o_user (shop_order Confirmed) \<noteq> None \<or> o_used_points (shop_order Confirmed) \<le> 0"
    "payment_of (order_db Confirmed InProgress) 5 = Some (shop_payment InProgress)"
    "o_updated_at (shop_order Confirmed) < 1000 - 10 * 60"
    by (simp_all add: shop_defs payment_of_def)
  show ?thesis
    using lost_rollback_recovered [OF order_db_inv g(1-4) run ne g(5) orphan_state_def] by blast
qed

section \<open>Finalizing\<close>





text \<open>The hypothesis on the order is needed: the order of a rolled back payment is paid by a late delivery, without its stock.\<close>

lemma finalize_revives_failed_order:
  "map_sum id (\<lambda>x. (fst x, map o_status (orders (snd x)), map p_stock (products (snd x))))
     (finalize_tx demo_reply 8 (Some 7) 100 (order_db PaymentFailed Aborted)) = Inr (Finalized 5, [Paid], [9])"
  by code_simp

text \<open>For an order whose user was deleted, finalizing closes the carts of all visitors without an account.\<close>

lemma finalize_without_user_closes_guest_carts:
  "c_is_active c \<Longrightarrow> c \<in> set (carts d) \<Longrightarrow> c_user c = None \<Longrightarrow>
     c\<lparr>c_is_active := False\<rparr> \<in> set (carts (deactivate_carts_where None d))"
  by (force simp: deactivate_carts_where_def)

end
