(* ===== verification/Payment_Chain.thy ===== *)
theory Payment_Chain
  imports Payment_Task_Properties
begin

text \<open>
  The chain of tasks as a whole: points are earned once, the asynchronous confirmation does what the
  synchronous one does, and the periodic reconciliation only repeats what the provider confirms.
\<close>

section \<open>Points are earned once\<close>

lemma earn_tx_Inr:
  assumes "earn_tx user ord now d = Inr (Earned n, d')"
  obtains u h where "\<not> order_earned ord d" "o_final_amount ord > 0" "n = points_of_amount (o_total_amount ord) (get_earn_rate user)"
    "n > 0" "get_user d (u_id user) = Some u"
    "d' = log_for_order (o_id ord) LApprove (MsgPointsEarned n) [(''points'', JNum n)]
       (upd_order (o_id ord) (\<lambda>r. r\<lparr>o_earned_points := n\<rparr>) (posted (u_id user) (\<lambda>p. p + n) (histories d) h d))"
proof -
  obtain b e where e: "add_points (u_id user) n Earn (Some (o_id ord)) (task_earn_info ord user) now d = Inr (b, e)"
    and n: "\<not> order_earned ord d" "o_final_amount ord > 0" "n = points_of_amount (o_total_amount ord) (get_earn_rate user)" "n > 0"
    and d': "d' = log_for_order (o_id ord) LApprove (MsgPointsEarned n) [(''points'', JNum n)]
       (upd_order (o_id ord) (\<lambda>r. r\<lparr>o_earned_points := n\<rparr>) e)"
    using assms by (auto simp: earn_tx_def Let_def rbind_eq_Inr split: if_splits)
  from e show thesis
    by (cases rule: add_points_Inr) (use that [OF n] n(4) d' in simp_all)
qed

definition balance :: "db \<Rightarrow> pk \<Rightarrow> int" where
  "balance d v = (case get_user d v of None \<Rightarrow> 0 | Some u \<Rightarrow> u_points u)"

lemma balance_posted:
  "balance (posted uid (\<lambda>p. p + n) t h d) v = balance d v + (if v = uid \<and> get_user d uid \<noteq> None then n else 0)"
  by (auto simp: balance_def points_col.rget_bump split: option.split)

lemma add_points_after_payment_again:
  assumes "get_order d oid = Some ord" "o_earned_points ord > 0" "get_user d uid \<noteq> None"
  shows "add_points_after_payment retries (Some uid) oid now d = (Returned EarnedBefore, d)"
  using assms by (auto simp: add_points_after_payment_def earn_tx_def order_earned_def)

text \<open>The earning task credits the user exactly the points of the user's rate, nobody else, and records them with the order;
  any later delivery finds the order earned and changes nothing.\<close>

theorem points_earned_once:
  assumes run: "add_points_after_payment retries (Some uid) oid now d = (Returned (Earned n), d')"
    and usr: "get_user d uid = Some usr" and row: "get_order d oid = Some ord"
  shows "n = points_of_amount (o_total_amount ord) (get_earn_rate usr)
    \<and> (\<forall>v. balance d' v = balance d v + (if v = uid then n else 0))
    \<and> (\<exists>o'. get_order d' oid = Some o' \<and> o_earned_points o' = n)
    \<and> add_points_after_payment retries' (Some uid) oid later d' = (Returned EarnedBefore, d')"
proof -
  have u: "get_user d uid = Some usr" "u_id usr = uid" and ord: "get_order d oid = Some ord" "o_id ord = oid"
    using usr row by (auto dest: rget_Some_key)
  have "earn_tx usr ord now d = Inr (Earned n, d')"
    using run usr row by (auto simp: add_points_after_payment_def retry_with_backoff_def retry_unless_exhausted_def
        split: sum.splits if_splits)
  then show ?thesis
  proof (cases rule: earn_tx_Inr)
    case (1 w h)
    have o': "get_order d' oid = Some (ord\<lparr>o_earned_points := n\<rparr>)"
      using 1(6) ord by (simp add: rget_rupd)
    have us: "users d' = users (posted uid (\<lambda>p. p + n) (histories d) h d)"
      using 1(6) u(2) by simp
    have "balance d' v = balance d v + (if v = uid then n else 0)" for v
      using balance_posted [of uid n "histories d" h d v] u(1) us by (simp add: balance_def)
    moreover have "get_user d' uid \<noteq> None"
      using us u(1) by (simp add: points_col.rget_bump)
    then have "add_points_after_payment retries' (Some uid) oid later d' = (Returned EarnedBefore, d')"
      using add_points_after_payment_again [OF o'] 1(4) by simp
    ultimately show ?thesis
      using 1(3) o' by simp
  qed
qed

definition earned_demo :: "earn_result outcome \<times> db" where
  "earned_demo = add_points_after_payment 0 (Some 7) 5 100 (order_db Paid Done)"

theorem points_earned_once_witness:
  "balance (snd earned_demo) 7 = 900
   \<and> add_points_after_payment 0 (Some 7) 5 200 (snd earned_demo) = (Returned EarnedBefore, snd earned_demo)"
proof -
  have "fst earned_demo = Returned (Earned 400)"
    by code_simp
  then have "add_points_after_payment 0 (Some 7) 5 100 (order_db Paid Done) = (Returned (Earned 400), snd earned_demo)"
    by (metis earned_demo_def prod.collapse)
  moreover have "get_user (order_db Paid Done) 7 = Some shop_user" "get_order (order_db Paid Done) 5 = Some (shop_order Paid)"
    "balance (order_db Paid Done) 7 = 500"
    by (simp_all add: shop_defs balance_def)
  ultimately show ?thesis
    using points_earned_once [of 0 7 5 100 "order_db Paid Done" 400 "snd earned_demo" shop_user "shop_order Paid" 0 200]
    by simp
qed

section \<open>The chain and the synchronous confirmation\<close>

text \<open>What the two ways have in common.\<close>

definition same_outcome :: "db \<Rightarrow> db \<Rightarrow> bool" where
  "same_outcome d e \<longleftrightarrow> orders d = orders e \<and> products d = products e \<and> payments d = payments e
     \<and> order_items d = order_items e \<and> carts d = carts e \<and> (\<forall>v. balance d v = balance e v)"

lemma rupd_const_twice: "key a = k \<Longrightarrow> rupd key (rupd key rs k (\<lambda>_. a)) k (\<lambda>_. b) = rupd key rs k (\<lambda>_. b)"
  by (induction rs) simp_all

text \<open>The answer of the provider overwrites what the asynchronous start wrote.\<close>

lemma paid_payment_overwrites:
  "map_sum id (\<lambda>q. q\<lparr>pay_updated_at := now\<rparr>) (paid_payment dat (p\<lparr>pay_status := s, pay_key := k, pay_updated_at := t\<rparr>))
     = map_sum id (\<lambda>q. q\<lparr>pay_updated_at := now\<rparr>) (paid_payment dat p)"
  by (simp add: paid_payment_def set_card_def sbind_def split: sum.split)

lemma save_payment_alone:
  "save_payment p now d = (if pay_key p \<noteq> None \<and> (\<exists>q \<in> set (payments d). pay_id q \<noteq> pay_id p \<and> pay_key q = pay_key p)
     then Inl IntegrityError else Inr (p\<lparr>pay_updated_at := now\<rparr>, upd_payment (pay_id p) (\<lambda>_. p\<lparr>pay_updated_at := now\<rparr>) d))"
  by (auto simp: save_payment_def Let_def list_ex_iff)

lemma others_rupd:
  assumes "pay_id a = pid"
  shows "(\<exists>q \<in> set (rupd pay_id ps pid (\<lambda>_. a)). pay_id q \<noteq> pid \<and> P q) \<longleftrightarrow> (\<exists>q \<in> set ps. pay_id q \<noteq> pid \<and> P q)"
  using assms by (induction ps) auto

lemma mark_as_paid_after_start:
  assumes sync: "mark_as_paid p dat now d = Inr (q, d')" and pid: "pay_id p = pid"
    and a: "a = p\<lparr>pay_status := InProgress, pay_key := Some key, pay_updated_at := now\<rparr>"
    and e: "payments e = rupd pay_id (payments d) pid (\<lambda>_. a)"
  shows "mark_as_paid a dat now e = Inr (q, upd_payment pid (\<lambda>_. q) e)"
proof -
  obtain r where r: "paid_payment dat p = Inr r" and s: "save_payment r now d = Inr (q, d')"
    using sync by (auto simp: mark_as_paid_def split: sum.splits)
  have "map_sum id (\<lambda>q. q\<lparr>pay_updated_at := now\<rparr>) (paid_payment dat a) = Inr (r\<lparr>pay_updated_at := now\<rparr>)"
    unfolding a paid_payment_overwrites by (simp add: r)
  then obtain r' where r': "paid_payment dat a = Inr r'" "r'\<lparr>pay_updated_at := now\<rparr> = r\<lparr>pay_updated_at := now\<rparr>"
    by (cases "paid_payment dat a") auto
  have ids: "pay_id r = pid" "pay_id r' = pid" "pay_key r' = pay_key r" "pay_id a = pid"
    using paid_payment_Inr [OF r] paid_payment_Inr [OF r'(1)] pid a by simp_all
  have ok: "\<not> (pay_key r \<noteq> None \<and> (\<exists>q \<in> set (payments d). pay_id q \<noteq> pid \<and> pay_key q = pay_key r))"
    and q: "q = r\<lparr>pay_updated_at := now\<rparr>"
    using s unfolding save_payment_alone ids by (auto split: if_splits)
  show ?thesis
    using ok r' q ids by (simp add: mark_as_paid_def save_payment_alone e others_rupd [OF ids(4)])
qed

text \<open>The point step of both ways: balances and earned points move by \<open>n\<close>, or nothing moves.\<close>

definition earns :: "pk \<Rightarrow> pk \<Rightarrow> int \<Rightarrow> db \<Rightarrow> db \<Rightarrow> bool" where
  "earns uid oid n d d' \<longleftrightarrow> products d' = products d \<and> payments d' = payments d \<and> order_items d' = order_items d
     \<and> carts d' = carts d
     \<and> orders d' = (if n > 0 then rupd o_id (orders d) oid (\<lambda>r. r\<lparr>o_earned_points := n\<rparr>) else orders d)
     \<and> (\<forall>v. balance d' v = balance d v + (if v = uid \<and> n > 0 then n else 0))"

lemma posted_more [simp]:
  "products (posted uid g t h d) = products d" "payments (posted uid g t h d) = payments d"
  "order_items (posted uid g t h d) = order_items d" "carts (posted uid g t h d) = carts d"
  by (simp_all add: posted_def)

lemma balance_frame: "users d' = users d \<Longrightarrow> balance d' v = balance d v"
  by (simp add: balance_def)

lemma earns_posted:
  assumes "get_user d uid \<noteq> None" "n > 0" "payments d' = payments d" "products d' = products d"
    "order_items d' = order_items d" "carts d' = carts d"
    "orders d' = rupd o_id (orders d) oid (\<lambda>r. r\<lparr>o_earned_points := n\<rparr>)"
    "users d' = users (posted uid (\<lambda>p. p + n) t h d)"
  shows "earns uid oid n d d'"
  using assms(1-7) balance_posted [of uid n t h d] by (simp add: earns_def balance_frame [OF assms(8)])

lemma earn_for_order_earns:
  assumes run: "earn_for_order user ord pid now d = Inr (n, d')"
  shows "earns (u_id user) (o_id ord) n d d'"
    "n > 0 \<Longrightarrow> \<not> (\<exists>g \<in> set (histories d). ph_type g = Earn \<and> ph_order g = Some (o_id ord))"
proof -
  let ?pts = "points_of_amount (o_total_amount ord) (o_earn_rate ord)"
  have "earns (u_id user) (o_id ord) n d d'
    \<and> (n > 0 \<longrightarrow> \<not> (\<exists>g \<in> set (histories d). ph_type g = Earn \<and> ph_order g = Some (o_id ord)))"
  proof (cases "o_final_amount ord > 0 \<and> ?pts > 0")
    case True
    then obtain b e x where e: "add_points (u_id user) ?pts Earn (Some (o_id ord)) (earn_info ord user) now d = Inr (b, e)"
      and d': "d' = add_log pid LApprove (MsgPointsEarned ?pts) x (upd_order (o_id ord) (\<lambda>r. r\<lparr>o_earned_points := ?pts\<rparr>) e)" "n = ?pts"
      using run by (auto simp: earn_for_order_def Let_def rbind_eq_Inr)
    have free: "\<not> (\<exists>g \<in> set (histories d). ph_type g = Earn \<and> ph_order g = Some (o_id ord))"
      using e True by (auto simp: add_points_def Let_def rbind_eq_Inr of_get_eq_Inr create_history_Inr)
    from e show ?thesis
    proof (cases rule: add_points_Inr)
      case (2 u)
      have "earns (u_id user) (o_id ord) n d d'"
        by (rule earns_posted [where t = "histories d"]) (use 2 d' in simp_all)
      then show ?thesis
        using free by simp
    qed (use True in simp)
  next
    case False
    then have "n \<le> 0" "d' = d \<or> (\<exists>m x. d' = add_log pid LApprove m x d)"
      using run by (auto simp: earn_for_order_def Let_def split: if_splits)
    then show ?thesis
      by (auto simp: earns_def balance_def)
  qed
  then show "earns (u_id user) (o_id ord) n d d'"
    "n > 0 \<Longrightarrow> \<not> (\<exists>g \<in> set (histories d). ph_type g = Earn \<and> ph_order g = Some (o_id ord))"
    by blast+
qed

lemma add_points_earns:
  assumes u: "get_user d uid = Some u" "0 \<le> u_points u" and n: "0 < n"
    and free: "\<not> (\<exists>g \<in> set (histories d). ph_type g = Earn \<and> ph_order g = Some oid)"
  obtains e where "add_points uid n Earn (Some oid) info now d = Inr (True, e)"
proof -
  let ?d = "upd_user uid (map_points (\<lambda>p. p + n)) d"
  have "\<exists>h e. create_history uid n (u_points u + n) Earn (Some oid) (no_meta\<lparr>m_info := info\<rparr>) now ?d = Inr (h, e)"
    using u n free by (simp add: create_history_Inr)
  then show thesis
    using that u n by (auto simp: add_points_def Let_def)
qed

lemma earn_task_earns:
  assumes u: "get_user d uid = Some u" "0 \<le> u_points u" and ord: "get_order d oid = Some ord" and fresh: "o_earned_points ord \<le> 0"
    and n: "n = points_of_amount (o_total_amount ord) (get_earn_rate u)" and fin: "o_final_amount ord > 0"
    and free: "0 < n \<Longrightarrow> \<not> (\<exists>g \<in> set (histories d). ph_type g = Earn \<and> ph_order g = Some oid)"
  obtains r d' where "add_points_after_payment retries (Some uid) oid now d = (Returned r, d')" "earns uid oid n d d'"
proof -
  have ids: "u_id u = uid" "o_id ord = oid"
    using u(1) ord by (auto dest: rget_Some_key)
  have ne: "\<not> order_earned ord d" if "0 < n"
    using fresh free [OF that] ids by (auto simp: order_earned_def list_ex_iff)
  show thesis
  proof (cases "n > 0")
    case True
    obtain e where e: "add_points uid n Earn (Some oid) (task_earn_info ord u) now d = Inr (True, e)"
      using add_points_earns [OF u True free [OF True]] by blast
    let ?d' = "log_for_order oid LApprove (MsgPointsEarned n) [(''points'', JNum n)] (upd_order oid (\<lambda>r. r\<lparr>o_earned_points := n\<rparr>) e)"
    have run: "add_points_after_payment retries (Some uid) oid now d = (Returned (Earned n), ?d')"
      using u(1) ord ne [OF True] fin True e ids n by (simp add: add_points_after_payment_def earn_tx_def Let_def)
    from e have "earns uid oid n d ?d'"
    proof (cases rule: add_points_Inr)
      case (2 w)
      show ?thesis
        by (rule earns_posted [where t = "histories d"]) (use 2 True in simp_all)
    qed (use True in simp)
    then show thesis
      using that run by blast
  next
    case False
    then have "\<exists>r. add_points_after_payment retries (Some uid) oid now d = (Returned r, d)"
      using u(1) ord fin n by (simp add: add_points_after_payment_def earn_tx_def Let_def)
    then show thesis
      using that False by (auto simp: earns_def)
  qed
qed

text \<open>The start of the chain and its finalization, for a provider that approves.\<close>

lemma async_start:
  assumes p: "get_payment d pid = Some p" "pay_status p = Ready"
    and sync: "mark_as_paid p dat now d = Inr (q, e)" and key: "dget_str dat ''paymentKey'' = Some key" and up: "broker_up d"
    and a: "a = p\<lparr>pay_status := InProgress, pay_key := Some key, pay_updated_at := now\<rparr>"
  shows "confirm_payment_async pid key oid amount user now d
    = (Inr pid, (upd_payment pid (\<lambda>_. a) d)\<lparr>outbox := outbox d @ [ConfirmChain key oid amount (pay_toss_order_id p) pid (u_id user)]\<rparr>)"
proof -
  obtain r where r: "paid_payment dat p = Inr r" and s: "save_payment r now d = Inr (q, e)"
    using sync by (auto simp: mark_as_paid_def split: sum.splits)
  have "pay_id r = pid" "pay_key r = Some key" "pay_id p = pid"
    using paid_payment_Inr [OF r] key rget_Some_key [OF p(1)] by simp_all
  then have "\<not> (\<exists>q \<in> set (payments d). pay_id q \<noteq> pid \<and> pay_key q = Some key)"
    using s unfolding save_payment_alone by (auto split: if_splits)
  then show ?thesis
    using p up \<open>pay_id p = pid\<close> a
    by (simp add: confirm_payment_async_def pay_is_paid_def is_waiting_for_deposit_def save_payment_alone publish_def)
qed

text \<open>The state a confirmation reaches before it earns points.\<close>

definition confirmed_state :: "pk \<Rightarrow> payment \<Rightarrow> pk \<Rightarrow> pk \<Rightarrow> timestamp \<Rightarrow> db \<Rightarrow> db" where
  "confirmed_state pid q oid uid now d = deactivate_carts_of uid (upd_order oid (set_order_paid (pay_method q) now)
     ((upd_payment pid (\<lambda>_. q) d)\<lparr>products := sell (items_of d oid) (products d)\<rparr>))"

definition agree :: "db \<Rightarrow> db \<Rightarrow> bool" where
  "agree d e \<longleftrightarrow> orders d = orders e \<and> products d = products e \<and> payments d = payments e
     \<and> order_items d = order_items e \<and> carts d = carts e \<and> users d = users e \<and> histories d = histories e"

lemma agree_earns:
  assumes "agree d s" "earns uid oid n d d'" "earns uid oid n s s'"
  shows "same_outcome d' s'"
  using assms balance_frame [of d s] by (auto simp: agree_def earns_def same_outcome_def)

lemma agree_confirmed:
  assumes "pay_id a = pid" "payments e = rupd pay_id (payments d) pid (\<lambda>_. a)"
    "orders e = orders d" "products e = products d" "order_items e = order_items d" "carts e = carts d"
    "users e = users d" "histories e = histories d"
  shows "agree (confirmed_state pid q oid uid now e) (confirmed_state pid q oid uid now d)"
  using assms
  by (simp add: agree_def confirmed_state_def deactivate_carts_of_def items_of_def rupd_const_twice)

lemma finalize_confirms:
  assumes inv: "shop_inv d" and p: "get_payment d pid = Some p" "pay_status p \<noteq> Done"
    and ord: "get_order d (pay_order p) = Some ord" "o_status ord \<noteq> OCanceled" and up: "broker_up d"
    and mp: "mark_as_paid p dat now d = Inr (q, upd_payment pid (\<lambda>_. q) d)"
    and st: "dget_str dat ''status'' \<noteq> Some ''WAITING_FOR_DEPOSIT''"
  obtains d2 where "finalize_payment_confirm retries dat pid (Some uid) now d = (Returned (Finalized (pay_order p)), d2)"
    "agree d2 (confirmed_state pid q (pay_order p) uid now d)"
proof -
  let ?e = "upd_payment pid (\<lambda>_. q) d"
  let ?f = "add_log pid LApprove MsgApproved dat (confirmed_state pid q (pay_order p) uid now d)"
  have items: "items_of ?e (pay_order p) = items_of d (pay_order p)" "products ?e = products d"
    by (simp_all add: items_of_def)
  have oid: "o_id ord = pay_order p"
    using ord(1) by (rule rget_Some_key)
  have "fold_res count_sold (items_of ?e (pay_order p)) ?e = Inr (?e\<lparr>products := sell (items_of d (pay_order p)) (products d)\<rparr>)"
    using count_sold_items [of "items_of d (pay_order p)" ?e] products_exist_items [OF inv] by (simp add: items)
  then have tx: "finalize_tx dat pid (Some uid) now d = Inr (Finalized (pay_order p), ?f)"
    using p ord mp st oid by (simp add: finalize_tx_def pay_is_paid_def deactivate_carts_Some confirmed_state_def)
  have f: "get_order ?f (pay_order p) = Some (set_order_paid (pay_method q) now ord)" "broker_up ?f"
    using ord(1) up by (simp_all add: confirmed_state_def deactivate_carts_of_def rget_rupd)
  show thesis
    using that tx f by (cases "o_final_amount ord > 0")
      (simp_all add: finalize_payment_confirm_def publish_def set_order_paid_def agree_def)
qed

text \<open>The chain up to the finalization.\<close>

lemma chain_confirms:
  assumes inv: "shop_inv d" and p: "get_payment d pid = Some p" "pay_status p = Ready" "pay_toss_order_id p \<noteq> []"
    and ord: "get_order d (pay_order p) = Some ord" "o_status ord \<noteq> OCanceled" and up: "broker_up d"
    and toss: "toss_confirm_payment http key (pay_toss_order_id p) amount = Inr dat" "dget_str dat ''paymentKey'' = Some key"
      "dget_str dat ''status'' \<noteq> Some ''WAITING_FOR_DEPOSIT''"
    and mp: "mark_as_paid p dat now d = Inr (q, upd_payment pid (\<lambda>_. q) d)"
  obtains d1 d2 where "confirm_payment_async pid key (pay_order p) amount usr now d = (Inr pid, d1)"
    "call_toss_confirm_api http False 0 key (pay_order p) amount (Some (pay_toss_order_id p)) d1 = (Returned dat, d1)"
    "finalize_payment_confirm 0 dat pid (Some uid) now d1 = (Returned (Finalized (pay_order p)), d2)"
    "agree d2 (confirmed_state pid q (pay_order p) uid now d)"
proof -
  define a where "a = p\<lparr>pay_status := InProgress, pay_key := Some key, pay_updated_at := now\<rparr>"
  define d1 where "d1 = (upd_payment pid (\<lambda>_. a) d)\<lparr>outbox := outbox d @
     [ConfirmChain key (pay_order p) amount (pay_toss_order_id p) pid (u_id usr)]\<rparr>"
  have start: "confirm_payment_async pid key (pay_order p) amount usr now d = (Inr pid, d1)"
    unfolding d1_def by (rule async_start [OF p(1,2) mp toss(2) up a_def])
  have call: "call_toss_confirm_api http False 0 key (pay_order p) amount (Some (pay_toss_order_id p)) d1 = (Returned dat, d1)"
    using p(3) toss(1) by (simp add: call_toss_confirm_api_def str_or_def)
  have pa: "pay_id p = pid" "pay_id a = pid" "get_payment d1 pid = Some a" "payments d1 = rupd pay_id (payments d) pid (\<lambda>_. a)"
    "pay_status a \<noteq> Done" "pay_order a = pay_order p"
    using p(1) rget_Some_key [OF p(1)] by (simp_all add: a_def d1_def rget_rupd_const)
  have eq: "orders d1 = orders d" "products d1 = products d" "order_items d1 = order_items d" "carts d1 = carts d"
    "users d1 = users d" "histories d1 = histories d" "broker_up d1 = broker_up d"
    by (simp_all add: d1_def)
  have "shop_inert d d1"
    by (simp add: shop_inert_def d1_def)
  then have inv1: "shop_inv d1"
    using inert_change [OF inv] shop_change_inv by blast
  obtain d2 where fin: "finalize_payment_confirm 0 dat pid (Some uid) now d1 = (Returned (Finalized (pay_order a)), d2)"
    "agree d2 (confirmed_state pid q (pay_order a) uid now d1)"
    by (rule finalize_confirms [OF inv1 pa(3,5) _ ord(2) _ mark_as_paid_after_start [OF mp pa(1) a_def pa(4)] toss(3)])
      (use ord(1) up pa(6) eq in auto)
  show thesis
    using that [OF start call] fin agree_confirmed [OF pa(2,4) eq(1-6)] pa(6) by (simp add: agree_def)
qed

text \<open>C20: when the provider approves, confirming a payment through the chain of tasks (start, confirm call, finalization,
  earning) ends with the same orders, products, payments, carts and balances as confirming it at once, provided the
  user's earning rate is still the one stored with the order.\<close>

theorem async_equals_sync:
  assumes inv: "shop_inv d" and p: "get_payment d pid = Some p" "pay_status p = Ready" "pay_toss_order_id p \<noteq> []"
    and ord: "get_order d (pay_order p) = Some ord" "holds_stock (o_status ord)" "o_user ord = Some uid" "o_earned_points ord = 0"
    and usr: "get_user d uid = Some usr" "get_earn_rate usr = o_earn_rate ord" and up: "broker_up d"
    and toss: "toss_confirm_payment http key (pay_toss_order_id p) amount = Inr dat" "dget_str dat ''paymentKey'' = Some key"
      "dget_str dat ''status'' \<noteq> Some ''WAITING_FOR_DEPOSIT''"
    and sync: "confirm_payment_sync http pid key amount usr now d = Inr (res, ds)"
  shows "\<exists>d1 d2 d3 r. confirm_payment_async pid key (pay_order p) amount usr now d = (Inr pid, d1)
    \<and> call_toss_confirm_api http False 0 key (pay_order p) amount (Some (pay_toss_order_id p)) d1 = (Returned dat, d1)
    \<and> finalize_payment_confirm 0 dat pid (Some uid) now d1 = (Returned (Finalized (pay_order p)), d2)
    \<and> (if o_final_amount ord > 0 then add_points_after_payment 0 (Some uid) (pay_order p) now d2 = (Returned r, d3) else d3 = d2)
    \<and> same_outcome d3 ds"
  using sync
proof (cases rule: confirm_payment_sync_Inr)
  case (waiting p' ord' dat' q x)
  then show ?thesis
    using p(1) toss(1,3) by simp
next
  case (paid p' ord' dat' q s d4)
  have same: "p' = p" "ord' = ord" "dat' = dat" "u_id usr = uid" "o_id ord = pay_order p"
    using paid(1,3,4) p(1) ord(1) toss(1) usr(1) by (auto dest: rget_Some_key)
  have s: "s = confirmed_state pid q (pay_order p) uid now d"
    using paid(11) by (simp add: same confirmed_state_def)
  have st: "o_status ord \<noteq> OCanceled"
    using ord(2) by auto
  obtain d1 d2 where chain: "confirm_payment_async pid key (pay_order p) amount usr now d = (Inr pid, d1)"
    "call_toss_confirm_api http False 0 key (pay_order p) amount (Some (pay_toss_order_id p)) d1 = (Returned dat, d1)"
    "finalize_payment_confirm 0 dat pid (Some uid) now d1 = (Returned (Finalized (pay_order p)), d2)" "agree d2 s"
    using chain_confirms [OF inv p ord(1) st up toss paid(14) [unfolded same]] s by blast
  have earn: "earns uid (pay_order p) (cr_points res) s ds"
    "cr_points res > 0 \<Longrightarrow> \<not> (\<exists>g \<in> set (histories s). ph_type g = Earn \<and> ph_order g = Some (pay_order p))"
    using earn_for_order_earns [OF paid(12)] unfolding paid(13) same by (simp_all add: earns_def balance_def)
  have "shop_inv s"
    using shop_change_inv [OF sold_change [OF inv ord(1,2)]] s by (simp add: confirmed_state_def)
  then have n: "cr_points res = (if o_final_amount ord > 0 then points_of_amount (o_total_amount ord) (get_earn_rate usr) else 0)"
    using earn_for_order_Inr(2) [OF paid(12)] usr(2) by (simp add: same)
  have d2: "get_order d2 (pay_order p) = Some (set_order_paid (pay_method q) now ord)" "get_user d2 uid = Some usr"
    "histories d2 = histories s" "0 \<le> u_points usr"
    using chain(4) s ord(1) usr(1) ledger_inv_account(1) [OF shop_invD(1) [OF inv] usr(1)]
    by (simp_all add: agree_def confirmed_state_def deactivate_carts_of_def rget_rupd)
  show ?thesis
  proof (cases "o_final_amount ord > 0")
    case True
    then obtain r d3 where "add_points_after_payment 0 (Some uid) (pay_order p) now d2 = (Returned r, d3)"
      "earns uid (pay_order p) (cr_points res) d2 d3"
      using earn_task_earns [OF d2(2,4,1), of "cr_points res" 0 now] n ord(4) earn(2)
      by (auto simp: set_order_paid_def d2(3))
    then show ?thesis
      using chain True agree_earns [OF chain(4) _ earn(1)] by auto
  next
    case False
    then have "earns uid (pay_order p) (cr_points res) d2 d2"
      using n by (simp add: earns_def)
    then show ?thesis
      using chain False agree_earns [OF chain(4) _ earn(1)] by auto
  qed
qed

theorem async_equals_sync_witness:
  "\<exists>res ds d1 d2 d3. confirm_payment_sync demo_http 8 ''key'' 23000 shop_user 100 (order_db Confirmed Ready) = Inr (res, ds)
     \<and> confirm_payment_async 8 ''key'' 5 23000 shop_user 100 (order_db Confirmed Ready) = (Inr 8, d1)
     \<and> finalize_payment_confirm 0 demo_reply 8 (Some 7) 100 d1 = (Returned (Finalized 5), d2) \<and> same_outcome d3 ds"
proof -
  have "\<not> isl (confirm_payment_sync demo_http 8 ''key'' 23000 shop_user 100 (order_db Confirmed Ready))"
    by code_simp
  then obtain res ds where sync: "confirm_payment_sync demo_http 8 ''key'' 23000 shop_user 100 (order_db Confirmed Ready) = Inr (res, ds)"
    by (cases "confirm_payment_sync demo_http 8 ''key'' 23000 shop_user 100 (order_db Confirmed Ready)") auto
  have g: "get_payment (order_db Confirmed Ready) 8 = Some (shop_payment Ready)" "pay_status (shop_payment Ready) = Ready"
    "pay_toss_order_id (shop_payment Ready) \<noteq> []"
    "get_order (order_db Confirmed Ready) (pay_order (shop_payment Ready)) = Some (shop_order Confirmed)"
    "holds_stock (o_status (shop_order Confirmed))" "o_user (shop_order Confirmed) = Some 7" "o_earned_points (shop_order Confirmed) = 0"
    "get_user (order_db Confirmed Ready) 7 = Some shop_user" "get_earn_rate shop_user = o_earn_rate (shop_order Confirmed)"
    "broker_up (order_db Confirmed Ready)"
    by (simp_all add: shop_defs get_earn_rate_def)
  have r: "dget_str demo_reply ''paymentKey'' = Some ''key''" "dget_str demo_reply ''status'' \<noteq> Some ''WAITING_FOR_DEPOSIT''"
    by (simp_all add: demo_reply_def dget_str_def dget_def)
  have "pay_order (shop_payment Ready) = 5"
    by (simp add: shop_payment_def)
  then show ?thesis
    using async_equals_sync [OF order_db_inv g demo_toss(2) r sync] sync by auto
qed

section \<open>Reconciliation of stalled payments\<close>

text \<open>The provider confirms a stalled payment: \<open>dat\<close> is an approval of this order over this amount.\<close>

definition provider_confirms :: "http \<Rightarrow> payment \<Rightarrow> dict \<Rightarrow> bool" where
  "provider_confirms http p dat \<longleftrightarrow> \<not> no_key (pay_key p) \<and> toss_get_payment http (pay_key p) = Inr dat \<and> approved_status dat
     \<and> order_id_matches dat (str_or (pay_toss_order_id p) (str_nat (pay_order p))) \<and> amount_matches dat (pay_amount p) = Inr True"

definition reconcile_msg :: "http \<Rightarrow> db \<Rightarrow> payment list \<Rightarrow> msg \<Rightarrow> bool" where
  "reconcile_msg http d ps m \<longleftrightarrow> (\<exists>u k s. m = NotifyFailure u k s)
     \<or> (\<exists>p \<in> set ps. \<exists>dat uo. m = FinalizeConfirm dat (pay_id p) uo \<and> provider_confirms http p dat)"

definition reconciles :: "http \<Rightarrow> payment list \<Rightarrow> db \<Rightarrow> db \<Rightarrow> bool" where
  "reconciles http ps d d' \<longleftrightarrow> shop_inert d d' \<and> payments d' = payments d \<and> broker_up d' = broker_up d
     \<and> (\<exists>new. outbox d' = outbox d @ new \<and> (\<forall>m \<in> set new. reconcile_msg http d ps m))"

lemma reconciles_refl: "reconciles http ps d d"
  by (simp add: reconciles_def)

lemma flag_reconciles: "reconciles http ps d (snd (flag_stalled_payment_unresolved p why d))"
  by (auto simp: flag_stalled_payment_unresolved_def reconciles_def reconcile_msg_def try_publish_def publish_def
      shop_inert_def)

lemma count_unresolved_snd [simp]: "snd (count_unresolved r fl) = snd fl"
  by (simp add: count_unresolved_def)

lemma refinalize_reconciles:
  assumes "p \<in> set ps" "provider_confirms http p dat"
  shows "reconciles http ps d (snd (refinalize p dat d))"
  using assms by (auto simp: refinalize_def reconciles_def reconcile_msg_def publish_def shop_inert_def Let_def)

lemma reconcile_one_snd:
  assumes p: "p \<in> set ps"
  shows "reconciles http ps d (snd (reconcile_one http p (r, d)))"
proof (cases "\<exists>dat. provider_confirms http p dat")
  case True
  then obtain dat where dat: "provider_confirms http p dat"
    by blast
  then have "snd (reconcile_one http p (r, d)) = snd (refinalize p dat d)"
    by (auto simp: reconcile_one_def provider_confirms_def stalled_matches_def Let_def split: prod.split sum.split)
  then show ?thesis
    using refinalize_reconciles [OF p dat] by simp
next
  case False
  then have "snd (reconcile_one http p (r, d)) = d
      \<or> (\<exists>why. snd (reconcile_one http p (r, d)) = snd (flag_stalled_payment_unresolved p why d))"
    by (auto simp: reconcile_one_def provider_confirms_def stalled_matches_def Let_def split: sum.split if_splits)
  then show ?thesis
    using flag_reconciles reconciles_refl by (auto simp del: split_paired_Ex)
qed

lemma reconciles_trans:
  assumes "reconciles http ps d e" "reconciles http ps e f"
  shows "reconciles http ps d f"
proof -
  obtain n1 n2 where "outbox e = outbox d @ n1" "outbox f = outbox e @ n2"
    "\<forall>m \<in> set n1. reconcile_msg http d ps m" "\<forall>m \<in> set n2. reconcile_msg http d ps m"
    using assms by (auto simp: reconciles_def reconcile_msg_def)
  then show ?thesis
    using assms inert_trans [of d e f] by (auto simp: reconciles_def intro!: exI [of _ "n1 @ n2"])
qed

lemma reconcile_fold:
  assumes "set qs \<subseteq> set ps"
  shows "reconciles http ps d (snd (fold (reconcile_one http) qs (r, d)))"
  using assms
proof (induction qs arbitrary: r d)
  case (Cons p qs)
  obtain r1 d1 where s: "reconcile_one http p (r, d) = (r1, d1)"
    by fastforce
  have "reconciles http ps d d1"
    using reconcile_one_snd [of p ps http d r] Cons.prems s by simp
  then show ?case
    using Cons.IH [of d1 r1] Cons.prems s reconciles_trans by fastforce
qed (simp add: reconciles_refl)

lemma reconcile_publishes:
  assumes "p \<in> set qs" "provider_confirms http p dat" "broker_up d"
  shows "\<exists>uo. FinalizeConfirm dat (pay_id p) uo \<in> set (outbox (snd (fold (reconcile_one http) qs (r, d))))"
  using assms
proof (induction qs arbitrary: r d)
  case (Cons q qs)
  obtain r1 d1 where s: "reconcile_one http q (r, d) = (r1, d1)"
    by fastforce
  have "reconciles http (q # qs) d d1"
    using reconcile_one_snd [of q "q # qs" http d r] s by simp
  then have up: "broker_up d1"
    using Cons.prems(3) by (simp add: reconciles_def)
  have later: "set (outbox d1) \<subseteq> set (outbox (snd (fold (reconcile_one http) qs (r1, d1))))"
    using reconcile_fold [of qs qs http d1 r1] by (auto simp: reconciles_def)
  show ?case
  proof (cases "p = q")
    case True
    then have "\<exists>uo. FinalizeConfirm dat (pay_id p) uo \<in> set (outbox d1)"
      using s Cons.prems(2,3) by (auto simp: reconcile_one_def provider_confirms_def stalled_matches_def refinalize_def
          publish_def Let_def)
    then show ?thesis
      using later s by auto
  next
    case False
    then show ?thesis
      using Cons.IH [of d1 r1] Cons.prems s up by simp
  qed
qed simp

text \<open>The reconciliation of stalled payments never decides by itself: it changes no payment, order, stock, balance or
  history, never asks for a rollback, and asks for a finalization exactly of those stalled payments
  that the provider confirms as approved for the right order and amount (with the broker up, all of them).\<close>

theorem reconcile_only_confirmed:
  assumes run: "reconcile_stalled_payments http minutes now d = (res, d')"
  shows "payments d' = payments d \<and> orders d' = orders d \<and> products d' = products d \<and> users d' = users d
    \<and> histories d' = histories d
    \<and> (\<exists>new. outbox d' = outbox d @ new \<and> (\<forall>m \<in> set new. (\<exists>u k s. m = NotifyFailure u k s)
         \<or> (\<exists>p dat uo. p \<in> set (stalled_payments (now - minutes * 60) d) \<and> provider_confirms http p dat
              \<and> m = FinalizeConfirm dat (pay_id p) uo)))
    \<and> (broker_up d \<longrightarrow> (\<forall>p dat. p \<in> set (stalled_payments (now - minutes * 60) d) \<and> provider_confirms http p dat
         \<longrightarrow> (\<exists>uo. FinalizeConfirm dat (pay_id p) uo \<in> set (outbox d'))))"
proof -
  let ?ps = "stalled_payments (now - minutes * 60) d"
  let ?r = "\<lparr>st_candidates = 0, st_refinalized = 0, st_unresolved = 0, st_errors = []\<rparr>"
  have d': "d' = snd (fold (reconcile_one http) ?ps (?r, d))"
    using run by (simp add: reconcile_stalled_payments_def)
  have rec: "reconciles http ?ps d d'"
    unfolding d' by (rule reconcile_fold) simp
  then have fr: "payments d' = payments d" "orders d' = orders d" "products d' = products d" "users d' = users d" "histories d' = histories d"
    by (simp_all add: reconciles_def shop_inert_def)
  obtain new where new: "outbox d' = outbox d @ new" "\<forall>m \<in> set new. reconcile_msg http d ?ps m"
    using rec by (auto simp: reconciles_def)
  have "(\<exists>u k s. m = NotifyFailure u k s) \<or> (\<exists>p dat uo. p \<in> set ?ps \<and> provider_confirms http p dat \<and> m = FinalizeConfirm dat (pay_id p) uo)"
    if "m \<in> set new" for m
    using bspec [OF new(2) that] unfolding reconcile_msg_def by blast
  moreover have "\<exists>uo. FinalizeConfirm dat (pay_id p) uo \<in> set (outbox d')"
    if "broker_up d" "p \<in> set ?ps" "provider_confirms http p dat" for p dat
    unfolding d' using that(2,3,1) by (rule reconcile_publishes)
  ultimately show ?thesis
    using fr new(1) by blast
qed

definition lookup_http :: http where
  "lookup_http rq = Response 200 ([(''orderId'', JStr ''20260101000005''), (''totalAmount'', JNum 23000)] @ demo_reply)"

definition reconciled_demo :: "stalled_result \<times> db" where
  "reconciled_demo = reconcile_stalled_payments lookup_http 10 1000 (order_db Confirmed InProgress)"

theorem reconcile_only_confirmed_witness:
  "payments (snd reconciled_demo) = [shop_payment InProgress]
   \<and> (\<exists>dat uo. FinalizeConfirm dat 8 uo \<in> set (outbox (snd reconciled_demo)))"
proof -
  have run: "reconcile_stalled_payments lookup_http 10 1000 (order_db Confirmed InProgress) = (fst reconciled_demo, snd reconciled_demo)"
    by (simp add: reconciled_demo_def)
  let ?dat = "[(''orderId'', JStr ''20260101000005''), (''totalAmount'', JNum 23000)] @ demo_reply"
  have g: "shop_payment InProgress \<in> set (stalled_payments (1000 - 10 * 60) (order_db Confirmed InProgress))"
    "broker_up (order_db Confirmed InProgress)" "payments (order_db Confirmed InProgress) = [shop_payment InProgress]"
    "pay_id (shop_payment InProgress) = 8"
    by (simp_all add: shop_defs stalled_payments_def)
  have "provider_confirms lookup_http (shop_payment InProgress) ?dat"
    by (simp add: provider_confirms_def shop_payment_def no_key_def toss_get_payment_def toss_call_def lookup_http_def
        approved_status_def demo_reply_def dget_str_def dget_def order_id_matches_def text_of_key_def str_or_def amount_matches_def)
  then show ?thesis
    using reconcile_only_confirmed [OF run] g by metis
qed

end
