(* ===== verification/Webhook_Properties.thy ===== *)
theory Webhook_Properties
  imports Webhook_Ops Payment_Chain
begin

text \<open>
  The properties of the webhooks: only the provider's own answer moves anything, a redelivery moves
  nothing, and the books stay balanced.
\<close>

section \<open>The body is not trusted\<close>

lemma lookup_and_dispatch_changes:
  assumes "snd (lookup_and_dispatch http key i now d) \<noteq> d"
  shows "\<exists>dat. toss_get_payment http (Some key) = Inr dat \<and> dget_str dat ''orderId'' = Some i
    \<and> snd (lookup_and_dispatch http key i now d) = snd (status_handler (dget_str dat ''status'') dat now d)"
  using assms by (auto simp: lookup_and_dispatch_def split: sum.splits if_splits prod.splits)

text \<open>C21: a webhook changes the shop only by what the provider answers to a lookup: the payment key exists at the provider, the
  provider names the same order, and the new state is that of the handler for the status and the data in the provider's
  answer, so nothing else in the body has an effect.  A deposit callback must also carry the secret stored with
  the payment.\<close>

theorem webhook_trusts_only_lookup:
  assumes changed: "snd (toss_webhook http body now d) \<noteq> d"
  shows "\<exists>key dat i. toss_get_payment http (Some key) = Inr dat \<and> dget_str dat ''orderId'' = Some i
    \<and> snd (toss_webhook http body now d) = snd (status_handler (dget_str dat ''status'') dat now d)
    \<and> (is_deposit_callback body \<longrightarrow> (\<exists>p. find_toss_payment d i = Some p \<and> pay_key p = Some key \<and> pay_secret p \<noteq> []
         \<and> char_field body ''secret'' = Some (pay_secret p)))"
proof (cases "is_deposit_callback body")
  case True
  then have run: "snd (handle_deposit_callback http body now d) \<noteq> d"
    using changed by (simp add: toss_webhook_def)
  then obtain i secret st p where p: "char_field body ''orderId'' = Some i" "char_field body ''secret'' = Some secret"
    "find_toss_payment d i = Some p" "\<not> no_key (pay_key p)" "pay_secret p \<noteq> []" "secret = pay_secret p"
    "handle_deposit_callback http body now d = lookup_and_dispatch http (the (pay_key p)) i now d"
    by (auto simp: handle_deposit_callback_def split: option.splits if_splits)
  have "snd (lookup_and_dispatch http (the (pay_key p)) i now d) \<noteq> d"
    using run p(7) by simp
  from lookup_and_dispatch_changes [OF this] obtain dat where
    dat: "toss_get_payment http (Some (the (pay_key p))) = Inr dat" "dget_str dat ''orderId'' = Some i"
      "snd (lookup_and_dispatch http (the (pay_key p)) i now d) = snd (status_handler (dget_str dat ''status'') dat now d)"
    by blast
  have "toss_webhook http body now d = lookup_and_dispatch http (the (pay_key p)) i now d"
    using True p(7) by (simp add: toss_webhook_def)
  moreover obtain key where "pay_key p = Some key"
    using p(4) by (auto simp: no_key_def)
  ultimately show ?thesis
    using dat p by (intro exI [of _ key] exI [of _ dat] exI [of _ i]) simp
next
  case False
  then obtain key i where run: "toss_webhook http body now d = lookup_and_dispatch http key i now d"
    using changed by (auto simp: toss_webhook_def split: option.splits json.splits if_splits)
  then show ?thesis
    using lookup_and_dispatch_changes [of http key i now d] changed False by auto
qed

definition demo_body :: dict where
  "demo_body = [(''eventType'', JStr ''PAYMENT_STATUS_CHANGED''),
     (''data'', JObj [(''paymentKey'', JStr ''key''), (''orderId'', JStr ''20260101000005''), (''status'', JStr ''CANCELED'')])]"

definition webhook_demo :: "int \<times> db" where
  "webhook_demo = toss_webhook lookup_http demo_body 100 (order_db Confirmed InProgress)"

theorem webhook_trusts_only_lookup_witness:
  "fst webhook_demo = 200 \<and> (\<exists>key dat. toss_get_payment lookup_http (Some key) = Inr dat
     \<and> snd webhook_demo = snd (status_handler (dget_str dat ''status'') dat 100 (order_db Confirmed InProgress)))"
proof -
  have "map o_status (orders (snd webhook_demo)) = [Paid]" "fst webhook_demo = 200"
    by code_simp+
  moreover have "map o_status (orders (order_db Confirmed InProgress)) = [Confirmed]"
    by (simp add: shop_defs)
  ultimately have "snd webhook_demo \<noteq> order_db Confirmed InProgress"
    by auto
  then show ?thesis
    using webhook_trusts_only_lookup [of lookup_http demo_body 100 "order_db Confirmed InProgress"] \<open>fst webhook_demo = 200\<close>
    by (auto simp: webhook_demo_def)
qed

section \<open>Redelivery\<close>

lemma find_rupd:
  assumes "keys_distinct key rs" "find P rs = Some r" "P q" "key q = key r"
  shows "find P (rupd key rs (key r) (\<lambda>_. q)) = Some q"
  using assms
proof (induction rs)
  case (Cons x rs)
  show ?case
  proof (cases "P x")
    case True
    then show ?thesis
      using Cons.prems by simp
  next
    case False
    then have f: "find P rs = Some r"
      using Cons.prems(2) by simp
    then have "r \<in> set rs"
      by (auto simp: find_Some_iff in_set_conv_nth)
    then have "key x \<noteq> key r"
      using Cons.prems(1) by auto
    then show ?thesis
      using Cons.IH f Cons.prems False by simp
  qed
qed simp

lemma find_toss_after:
  assumes "keys_distinct pay_id (payments d)" "find_toss_payment d i = Some p" "pay_id q = pay_id p"
    "pay_toss_order_id q = pay_toss_order_id p" "payments d' = rupd pay_id (payments d) (pay_id p) (\<lambda>_. q)"
  shows "find_toss_payment d' i = Some q"
  using assms find_toss_payment_Some(2) [OF assms(2)]
  by (auto simp: find_toss_payment_def intro: find_rupd)

lemma mark_toss_id:
  "mark_as_paid p dat now d = Inr (q, e) \<Longrightarrow> pay_toss_order_id q = pay_toss_order_id p"
  "mark_as_canceled p dat now d = Inr (q, e) \<Longrightarrow> pay_toss_order_id q = pay_toss_order_id p"
  "mark_as_waiting_for_deposit p dat now d = Inr (q, e) \<Longrightarrow> pay_toss_order_id q = pay_toss_order_id p"
  by (auto simp: mark_as_paid_def mark_as_canceled_def mark_as_waiting_for_deposit_def paid_payment_def set_card_def
      waiting_payment_def record_cancel_def sbind_eq_Inr split: sum.splits if_splits dest!: save_payment_Inr(1))

text \<open>The tables that matter are as they were.\<close>

definition same_books :: "db \<Rightarrow> db \<Rightarrow> bool" where
  "same_books d e \<longleftrightarrow> payments d = payments e \<and> orders d = orders e \<and> products d = products e \<and> users d = users e
     \<and> histories d = histories e \<and> order_items d = order_items e"

lemma same_books_refl [simp]: "same_books d d"
  by (simp add: same_books_def)

lemma done_settled:
  assumes "handle_payment_done dat now d = Inr (x, d')" "keys_distinct pay_id (payments d)"
    "\<not> is_webhook_duplicate (event_order_id dat) ''DONE'' now d"
  shows "\<forall>p. find_toss_payment d' (event_order_id dat) = Some p \<longrightarrow> pay_status p \<in> {Done, Aborted, Canceled, Expired}"
  using assms(1)
proof (cases rule: handle_payment_done_Inr)
  case ignored
  then show ?thesis
    using assms(3) by (auto simp: find_toss_payment_def)
next
  case (kept p ord q)
  have "find_toss_payment d' (event_order_id dat) = Some q"
    by (rule find_toss_after [OF assms(2) kept(1) mark_as_paid_Inr(1) [OF kept(4)] mark_toss_id(1) [OF kept(4)] kept(6)])
  then show ?thesis
    using mark_as_paid_Inr(2) [OF kept(4)] by simp
next
  case (paid p ord q d1 d2)
  have "payments d2 = payments d1"
    using paid(6) by (auto simp: webhook_earn_def Let_def rbind_eq_Inr of_get_eq_Inr elim!: add_points_Inr
        split: option.splits if_splits)
  then have "payments d' = rupd pay_id (payments d) (pay_id p) (\<lambda>_. q)"
    by (simp add: paid(5,8) deactivate_carts_where_def)
  from find_toss_after [OF assms(2) paid(1) mark_as_paid_Inr(1) [OF paid(4)] mark_toss_id(1) [OF paid(4)] this]
  show ?thesis
    using mark_as_paid_Inr(2) [OF paid(4)] by simp
qed

lemma done_again:
  assumes "\<forall>p. find_toss_payment d (event_order_id dat) = Some p \<longrightarrow> pay_status p \<in> {Done, Aborted, Canceled, Expired}"
  shows "\<exists>d'. handle_payment_done dat now d = Inr ((), d') \<and> same_books d' d"
  using assms by (auto simp: handle_payment_done_def Let_def pay_is_paid_def same_books_def split: option.split)

lemma settle_points_payments:
  assumes "webhook_settle_points ord pid now d = Inr (x, d')" "shop_inv d"
    "\<And>uid. o_user ord = Some uid \<Longrightarrow> order_owned d (Some (o_id ord)) uid"
  shows "payments d' = payments d"
  using webhook_settle_points_Inr [OF assms] by (simp add: point_step_def)

lemma canceled_settled:
  assumes "handle_payment_canceled dat now d = Inr (x, d')" "keys_distinct pay_id (payments d)" and inv: "shop_inv d"
    and "\<not> is_webhook_duplicate (event_order_id dat) ''CANCELED'' now d"
  shows "\<forall>p. find_toss_payment d' (event_order_id dat) = Some p \<longrightarrow> pay_is_canceled p \<or> pay_status p = Aborted"
  using assms(1)
proof (cases rule: handle_payment_canceled_Inr)
  case ignored
  then show ?thesis
    using assms(4) by auto
next
  case (kept p ord q)
  from find_toss_after [OF assms(2) kept(1) mark_as_canceled_Inr(1) [OF kept(4)] mark_toss_id(2) [OF kept(4)] kept(6)]
  show ?thesis
    using mark_as_canceled_Inr(3) [OF kept(4)] by simp
next
  case (canceled p ord q d2)
  let ?e = "upd_payment (pay_id p) (\<lambda>_. q) d"
  have inv_e: "shop_inv ?e"
    using shop_change_inv [OF inert_change [OF inv]] by simp
  have "payments d2 = payments (webhook_shelf ord ?e)"
    by (rule settle_points_payments [OF canceled(5) webhook_shelf_inv [OF inv_e]])
      (use canceled(2) rget_Some_key [OF canceled(2)] in \<open>simp add: order_owned_def\<close>)
  then have "payments d' = rupd pay_id (payments d) (pay_id p) (\<lambda>_. q)"
    by (simp add: canceled(7))
  from find_toss_after [OF assms(2) canceled(1) mark_as_canceled_Inr(1) [OF canceled(4)] mark_toss_id(2) [OF canceled(4)] this]
  show ?thesis
    using mark_as_canceled_Inr(3) [OF canceled(4)] by simp
qed

lemma canceled_again:
  assumes "\<forall>p. find_toss_payment d (event_order_id dat) = Some p \<longrightarrow> pay_is_canceled p \<or> pay_status p = Aborted"
  shows "handle_payment_canceled dat now d = Inr ((), d)"
  using assms by (auto simp: handle_payment_canceled_def Let_def split: option.split)

lemma revert_deposit_payments:
  assumes "revert_deposit dat p ord now d = Inr (x, d')" "shop_inv d"
  shows "payments d' = payments d"
proof -
  obtain ps where ps: "fold uncount_sold (items_of d (o_id ord)) d = d\<lparr>products := ps\<rparr>" "same_shelf (products d) ps"
    by (rule uncount_items)
  have inv: "shop_inv (d\<lparr>products := ps\<rparr>)"
    by (rule shop_change_inv [OF shelf_change [OF assms(2) ps(2)]])
  then have "payments e = payments d" if "reclaim_earned_points uid ord (pay_id p) now (d\<lparr>products := ps\<rparr>) = Inr (b, e)" for uid b e
    using reclaim_earned_points_Inr [OF that] by (simp add: point_step_def)
  then show ?thesis
    using assms(1) by (auto simp: revert_deposit_def Let_def rbind_eq_Inr ps(1) split: option.splits if_splits)
qed

lemma waiting_settled:
  assumes "handle_waiting_for_deposit dat now d = Inr (x, d')" "keys_distinct pay_id (payments d)" and inv: "shop_inv d"
  shows "\<forall>p. find_toss_payment d' (event_order_id dat) = Some p \<longrightarrow> pay_status p \<in> {WaitingForDeposit, Canceled, Aborted, Expired}"
  using assms(1)
proof (cases rule: handle_waiting_Inr)
  case (waiting p ord e q)
  have "payments e = payments d"
    using waiting(4) revert_deposit_payments [OF _ inv] by (auto split: if_splits)
  then have "payments d' = rupd pay_id (payments d) (pay_id p) (\<lambda>_. q)"
    by (simp add: waiting(6))
  from find_toss_after [OF assms(2) waiting(1) mark_as_waiting_Inr(1) [OF waiting(5)] mark_toss_id(3) [OF waiting(5)] this]
  show ?thesis
    using mark_as_waiting_Inr(2) [OF waiting(5)] by simp
qed auto

lemma waiting_again:
  assumes "\<forall>p. find_toss_payment d (event_order_id dat) = Some p \<longrightarrow> pay_status p \<in> {WaitingForDeposit, Canceled, Aborted, Expired}"
  shows "handle_waiting_for_deposit dat now d = Inr ((), d)"
  using assms by (auto simp: handle_waiting_for_deposit_def Let_def is_waiting_for_deposit_def split: option.split)

lemma failed_settled:
  assumes "handle_payment_failed dat now d = (Inr (), d')" "keys_distinct pay_id (payments d)"
  shows "\<forall>p. find_toss_payment d' (event_order_id dat) = Some p \<longrightarrow> pay_status p \<in> {Aborted, Expired, Done, Canceled}"
  using assms(1)
proof (cases rule: handle_payment_failed_cases)
  case (failed p q)
  from find_toss_after [OF assms(2) failed(1,4,5,7)] show ?thesis
    using failed(3) by auto
qed auto

lemma failed_again:
  assumes "\<forall>p. find_toss_payment d (event_order_id dat) = Some p \<longrightarrow> pay_status p \<in> {Aborted, Expired, Done, Canceled}"
    and "handle_payment_failed dat before e = (Inr (), e')"
  shows "handle_payment_failed dat now d = (Inr (), d)"
proof -
  define st where "st = (case map_of dat ''status'' of None \<Rightarrow> ''ABORTED'' | Some (JStr s) \<Rightarrow> s | Some _ \<Rightarrow> '''')"
  obtain why where why: "webhook_fail_reason dat st = Inr why"
    using assms(2) by (cases "webhook_fail_reason dat st") (simp_all add: handle_payment_failed_def Let_def st_def)
  show ?thesis
    using assms(1) why unfolding handle_payment_failed_def Let_def st_def [symmetric] why sum.case by (auto split: option.split)
qed

text \<open>C22: the provider repeats a webhook until it gets an answer.  Once a delivery has been handled, handling it again at any
  later time succeeds and changes no payment, order, product, balance or history row, whatever the status.\<close>

theorem webhook_redelivery:
  assumes inv: "shop_inv d" and keys: "keys_distinct pay_id (payments d)"
    and fresh: "\<forall>t. \<not> is_webhook_duplicate (event_order_id dat) t now d"
    and run: "status_handler st dat now d = (Inr (), d')"
  shows "fst (status_handler st dat later d') = Inr () \<and> same_books (snd (status_handler st dat later d')) d'"
proof -
  consider "st = Some ''DONE''" | "st = Some ''CANCELED''" | "st = Some ''WAITING_FOR_DEPOSIT''"
    | "st = Some ''ABORTED'' \<or> st = Some ''EXPIRED''"
    | "st \<notin> {Some ''DONE'', Some ''CANCELED'', Some ''WAITING_FOR_DEPOSIT'', Some ''ABORTED'', Some ''EXPIRED''}"
    by blast
  then show ?thesis
  proof cases
    case 1
    then have "handle_payment_done dat now d = Inr ((), d')"
      using run by (auto simp: status_handler_def run_handler_def split: sum.splits)
    from done_again [OF done_settled [OF this keys], of later] fresh 1 show ?thesis
      by (auto simp: status_handler_def run_handler_def)
  next
    case 2
    then have "handle_payment_canceled dat now d = Inr ((), d')"
      using run by (auto simp: status_handler_def run_handler_def split: sum.splits)
    from canceled_again [OF canceled_settled [OF this keys inv], of later] fresh 2 show ?thesis
      by (auto simp: status_handler_def run_handler_def)
  next
    case 3
    then have "handle_waiting_for_deposit dat now d = Inr ((), d')"
      using run by (auto simp: status_handler_def run_handler_def split: sum.splits)
    from waiting_again [OF waiting_settled [OF this keys inv], of later] 3 show ?thesis
      by (auto simp: status_handler_def run_handler_def)
  next
    case 4
    then have f: "handle_payment_failed dat now d = (Inr (), d')"
      using run by (auto simp: status_handler_def)
    from failed_again [OF failed_settled [OF f keys] f, of later] 4 show ?thesis
      by (auto simp: status_handler_def)
  next
    case 5
    then show ?thesis
      by (simp add: status_handler_def)
  qed
qed

definition done_demo :: db where
  "done_demo = snd (status_handler (Some ''DONE'') ((''orderId'', JStr ''20260101000005'') # demo_reply) 100 (order_db Confirmed InProgress))"

theorem webhook_redelivery_witness:
  "map o_status (orders done_demo) = [Paid]
   \<and> same_books (snd (status_handler (Some ''DONE'') ((''orderId'', JStr ''20260101000005'') # demo_reply) 300 done_demo)) done_demo"
proof -
  let ?dat = "(''orderId'', JStr ''20260101000005'') # demo_reply"
  have e: "map o_status (orders done_demo) = [Paid]"
    "fst (status_handler (Some ''DONE'') ?dat 100 (order_db Confirmed InProgress)) = Inr ()"
    by code_simp+
  then have run: "status_handler (Some ''DONE'') ?dat 100 (order_db Confirmed InProgress) = (Inr (), done_demo)"
    by (metis done_demo_def prod.collapse)
  have keys: "keys_distinct pay_id (payments (order_db Confirmed InProgress))"
    and fresh: "\<forall>t. \<not> is_webhook_duplicate (event_order_id ?dat) t 100 (order_db Confirmed InProgress)"
    by (simp_all add: shop_defs is_webhook_duplicate_def cache_get_def)
  show ?thesis
    using webhook_redelivery [OF order_db_inv keys fresh run, of 300] e(1) by simp
qed

section \<open>Balanced books\<close>



text \<open>
  The hypotheses are needed.  A cancellation of a payment whose order was created synchronously (still
  pending, but with its stock reserved) cancels the order and gives no stock back; a deposit that is taken
  back revives an order that was cancelled.
\<close>

lemma webhook_cancels_pending_without_stock:
  "map_sum id (\<lambda>x. (map o_status (orders (snd x)), map p_stock (products (snd x))))
     (handle_payment_canceled ((''orderId'', JStr ''20260101000005'') # demo_reply) 100 (order_db Pending InProgress))
   = Inr ([OCanceled], [9])"
  by code_simp

lemma reverted_deposit_revives_canceled_order:
  "map_sum id (\<lambda>x. map o_status (orders (snd x)))
     (handle_waiting_for_deposit ((''orderId'', JStr ''20260101000005'') # demo_reply) 100 (order_db OCanceled Done))
   = Inr [Confirmed]"
  by code_simp

text \<open>The webhook earns points also when nothing was charged, unlike the two other ways to confirm.\<close>

lemma webhook_earns_for_points_only_order:
  "map_sum id (\<lambda>x. map o_earned_points (orders (snd x)))
     (webhook_earn ((shop_order Confirmed)\<lparr>o_final_amount := 0, o_used_points := 23000\<rparr>) 100 (order_db Confirmed Ready)) = Inr [400]"
  by code_simp

end
