(* ===== verification/Account_Numbers.thy ===== *)
theory Account_Numbers
  imports Shop_State
begin

text \<open>
  The bank account number of a refund: \<^verbatim>\<open>src/shopping/utils/encryption.py\<close> and the methods of
  \<^verbatim>\<open>Return\<close> that store and show it.  The Fernet cipher with the key of the settings is the
  parameter \<open>fernet\<close>; \<open>None\<close> stands for an exception of the cipher (a missing key, an invalid token).
\<close>

record fernet =
  fe_encrypt :: "string \<Rightarrow> string option"
  fe_decrypt :: "string \<Rightarrow> string option"

definition encrypt_account_number :: "fernet \<Rightarrow> string \<Rightarrow> exn + string" where
  "encrypt_account_number fe account_number = (
     if account_number = [] then Inl ValueError
     else case fe_encrypt fe account_number of None \<Rightarrow> Inl ValueError | Some t \<Rightarrow> Inr t)"

definition decrypt_account_number :: "fernet \<Rightarrow> string \<Rightarrow> exn + string" where
  "decrypt_account_number fe encrypted_account = (
     if encrypted_account = [] then Inl ValueError
     else case fe_decrypt fe encrypted_account of None \<Rightarrow> Inl ValueError | Some s \<Rightarrow> Inr s)"

definition is_encrypted :: "string \<Rightarrow> bool" where
  "is_encrypted v \<longleftrightarrow> take 6 v = ''gAAAAA'' \<and> length v > 50"

text \<open>\<^verbatim>\<open>account_number.split("-")\<close>; the result is never empty.\<close>

fun split_hyphen :: "string \<Rightarrow> string list" where
  "split_hyphen [] = [[]]"
| "split_hyphen (c # s) = (if c = CHR ''-'' then [] # split_hyphen s
     else case split_hyphen s of [] \<Rightarrow> [[c]] | p # ps \<Rightarrow> (c # p) # ps)"

fun join_hyphen :: "string list \<Rightarrow> string" where
  "join_hyphen [] = []"
| "join_hyphen [p] = p"
| "join_hyphen (p # ps) = p @ CHR ''-'' # join_hyphen ps"

definition stars :: "nat \<Rightarrow> string" where
  "stars n = replicate n (CHR ''*'')"

text \<open>\<^verbatim>\<open>last_four[-len(part):]\<close> of an empty part is the whole text.\<close>

definition mask_last_part :: "string \<Rightarrow> string \<Rightarrow> string" where
  "mask_last_part last_four part = (
     if length part \<ge> 4 then stars (length part - 4) @ last_four
     else if part = [] then last_four else drop (length last_four - length part) last_four)"

fun mask_parts :: "string \<Rightarrow> string list \<Rightarrow> string list" where
  "mask_parts last_four [] = []"
| "mask_parts last_four [p] = [mask_last_part last_four p]"
| "mask_parts last_four (p # ps) = stars (length p) # mask_parts last_four ps"

definition mask_account_number :: "string \<Rightarrow> string" where
  "mask_account_number account_number = (
     let numbers_only = filter (\<lambda>c. c \<noteq> CHR ''-'' \<and> c \<noteq> CHR '' '') account_number;
         last_four = drop (length numbers_only - 4) numbers_only
     in if account_number = [] then []
        else if length numbers_only < 4 then stars (length account_number)
        else if CHR ''-'' \<in> set account_number
        then join_hyphen (mask_parts last_four (split_hyphen account_number))
        else stars (length numbers_only - 4) @ last_four)"

section \<open>The number in a return request\<close>

text \<open>\<^verbatim>\<open>Return.save\<close>: a plain number is encrypted; if that fails it is saved as it is.\<close>

definition save_account :: "fernet \<Rightarrow> return_request \<Rightarrow> return_request" where
  "save_account fe r = (
     if ret_account_number r \<noteq> [] \<and> \<not> is_encrypted (ret_account_number r)
     then (case encrypt_account_number fe (ret_account_number r) of
             Inl e \<Rightarrow> r | Inr t \<Rightarrow> r\<lparr>ret_account_number := t\<rparr>)
     else r)"

definition get_decrypted_account_number :: "fernet \<Rightarrow> return_request \<Rightarrow> exn + string" where
  "get_decrypted_account_number fe r = (
     if ret_account_number r = [] then Inr []
     else if \<not> is_encrypted (ret_account_number r) then Inr (ret_account_number r)
     else case decrypt_account_number fe (ret_account_number r) of Inl e \<Rightarrow> Inl ValueError | Inr s \<Rightarrow> Inr s)"

definition get_masked_account_number :: "fernet \<Rightarrow> return_request \<Rightarrow> string" where
  "get_masked_account_number fe r = (
     if ret_account_number r = [] then []
     else case get_decrypted_account_number fe r of
            Inl e \<Rightarrow> stars 12 | Inr s \<Rightarrow> mask_account_number s)"

section \<open>Facts\<close>

lemma save_account_sel [simp]:
  "ret_id (save_account fe r) = ret_id r" "ret_order (save_account fe r) = ret_order r"
  "ret_user (save_account fe r) = ret_user r" "ret_number (save_account fe r) = ret_number r"
  "ret_type (save_account fe r) = ret_type r" "ret_status (save_account fe r) = ret_status r"
  "ret_refund_amount (save_account fe r) = ret_refund_amount r" "ret_shipping_fee (save_account fe r) = ret_shipping_fee r"
  "ret_exchange_product (save_account fe r) = ret_exchange_product r"
  by (simp_all add: save_account_def split: sum.splits)

text \<open>The characters of a masked number that are neither stars nor hyphens.\<close>

abbreviation shown :: "string \<Rightarrow> string" where
  "shown s \<equiv> filter (\<lambda>c. c \<noteq> CHR ''*'' \<and> c \<noteq> CHR ''-'') s"

lemma shown_stars [simp]: "shown (stars n) = []"
  by (simp add: stars_def)

lemma shown_mask_parts: "length last_four \<le> 4 \<Longrightarrow> length (shown (join_hyphen (mask_parts last_four ps))) \<le> 4"
proof (induction last_four ps rule: mask_parts.induct)
  case (2 last_four p)
  have "length (shown xs) \<le> length last_four" if "xs = last_four \<or> (\<exists>n. xs = drop n last_four)" for xs
    using that by (auto intro: order_trans [OF length_filter_le])
  then have "length (shown (mask_last_part last_four p)) \<le> length last_four"
    by (auto simp: mask_last_part_def)
  then show ?case
    using 2 by simp
next
  case (3 last_four p q ps)
  then show ?case
    by (cases "mask_parts last_four (q # ps)") simp_all
qed simp

lemma mask_account_number_shows: "length (shown (mask_account_number a)) \<le> 4"
proof -
  define nums where "nums = filter (\<lambda>c. c \<noteq> CHR ''-'' \<and> c \<noteq> CHR '' '') a"
  have "length (drop (length nums - 4) nums) \<le> 4"
    by simp
  note parts = shown_mask_parts [OF this, of "split_hyphen a"]
  have "length (shown (drop (length nums - 4) nums)) \<le> 4"
    by (rule order_trans [OF length_filter_le]) simp
  then show ?thesis
    using parts unfolding mask_account_number_def nums_def [symmetric] Let_def by simp
qed

end
