(* ===== verification/Returns.thy ===== *)
theory Returns
  imports Payment_Service Account_Numbers
begin

text \<open>
  Returns and exchanges: \<^verbatim>\<open>src/shopping/services/return_service.py\<close>, the return rules of
  \<^verbatim>\<open>models/return_request.py\<close> and the two steps that live in
  \<^verbatim>\<open>serializers/return_serializers.py\<close> (requesting a return, entering the tracking number).

  Form fields reach the serializers parsed (types, choices, blanks).  A notification is stored as
  its user, a short name of its title and its metadata.  \<open>seller_of\<close> is the seller column of the
  products, \<open>fe\<close> the cipher of account numbers, \<open>http\<close> the payment provider.
\<close>

section \<open>Who may ask for a return\<close>

definition is_active_return :: "return_request \<Rightarrow> bool" where
  "is_active_return r \<longleftrightarrow> ret_status r \<in> {Requested, Approved, Shipping, Received}"

definition has_active_return :: "pk \<Rightarrow> db \<Rightarrow> bool" where
  "has_active_return oid d = list_ex (\<lambda>r. ret_order r = oid \<and> is_active_return r) (returns d)"

text \<open>\<^verbatim>\<open>(timezone.now() - order.created_at).days\<close> is rounded down.\<close>

definition days_passed :: "order \<Rightarrow> timestamp \<Rightarrow> int" where
  "days_passed ord now = (now - o_created_at ord) div 86400"

definition validate_order_for_return :: "order \<Rightarrow> timestamp \<Rightarrow> db \<Rightarrow> exn + unit" where
  "validate_order_for_return ord now d = (
     if o_status ord \<noteq> Delivered then Inl ReturnValidationError
     else if days_passed ord now > 7 then Inl ReturnValidationError
     else if has_active_return (o_id ord) d then Inl ReturnValidationError
     else Inr ())"

datatype return_answer = CanRequest | OrderNotDelivered | ReturnTooLate | ReturnActive

definition can_request_for_order :: "int \<Rightarrow> order \<Rightarrow> timestamp \<Rightarrow> db \<Rightarrow> bool \<times> return_answer" where
  "can_request_for_order deadline_days ord now d = (
     if o_status ord \<noteq> Delivered then (False, OrderNotDelivered)
     else if days_passed ord now > deadline_days then (False, ReturnTooLate)
     else if has_active_return (o_id ord) d then (False, ReturnActive)
     else (True, CanRequest))"

definition is_completed_refund :: "db \<Rightarrow> pk \<Rightarrow> bool" where
  "is_completed_refund d rid = (case get_return d rid of
     None \<Rightarrow> False | Some r \<Rightarrow> ret_type r = RefundReturn \<and> ret_status r = Completed)"

definition already_returned :: "pk \<Rightarrow> db \<Rightarrow> int" where
  "already_returned oi d = sum_list (map ri_quantity
     (filter (\<lambda>i. ri_order_item i = oi \<and> is_completed_refund d (ri_return i)) (return_items d)))"

definition find_order_item :: "pk \<Rightarrow> pk \<Rightarrow> db \<Rightarrow> order_item option" where
  "find_order_item oid k d = find (\<lambda>i. oi_id i = k \<and> oi_order i = oid) (order_items d)"

fun validate_items_loop :: "pk \<Rightarrow> (pk \<times> int) list \<Rightarrow> db \<Rightarrow> exn + order_item list" where
  "validate_items_loop oid [] d = Inr []"
| "validate_items_loop oid ((k, quantity) # xs) d = (
     case find_order_item oid k d of
       None \<Rightarrow> Inl ReturnValidationError
     | Some oi \<Rightarrow>
         if quantity > oi_quantity oi - already_returned (oi_id oi) d then Inl ReturnValidationError
         else sbind (validate_items_loop oid xs d) (\<lambda>ois. Inr (oi # ois)))"

definition validate_return_items :: "pk \<Rightarrow> (pk \<times> int) list \<Rightarrow> db \<Rightarrow> exn + order_item list" where
  "validate_return_items oid return_items_data d = (
     if return_items_data = [] then Inl ReturnValidationError else validate_items_loop oid return_items_data d)"

section \<open>Return numbers\<close>

text \<open>The order of the database on texts: character by character, a prefix first.\<close>

fun str_less :: "string \<Rightarrow> string \<Rightarrow> bool" where
  "str_less _ [] = False"
| "str_less [] (_ # _) = True"
| "str_less (a # s) (b # t) = (if a = b then str_less s t else (of_char a :: nat) < of_char b)"

definition str_max :: "string \<Rightarrow> string \<Rightarrow> string" where
  "str_max s t = (if str_less s t then t else s)"

definition return_prefix :: "timestamp \<Rightarrow> string" where
  "return_prefix now = ''RET'' @ date_str now"

definition numbers_of_day :: "timestamp \<Rightarrow> db \<Rightarrow> string list" where
  "numbers_of_day now d = filter (\<lambda>s. take (length (return_prefix now)) s = return_prefix now) (map ret_number (returns d))"

definition generate_return_number :: "timestamp \<Rightarrow> db \<Rightarrow> string" where
  "generate_return_number now d = return_prefix now @ pad0 3 (
     case numbers_of_day now d of
       [] \<Rightarrow> 1
     | n # ns \<Rightarrow> (let last_return = fold str_max ns n
                  in int_of_str (drop (length last_return - 3) last_return) + 1))"

section \<open>Requesting a return\<close>

record return_form =
  rf_type :: return_type
  rf_reason :: return_reason
  rf_detail :: string
  rf_items :: "(pk \<times> int) list"
  rf_bank :: string
  rf_account :: string
  rf_holder :: string
  rf_exchange :: "pk option"

definition calculate_refund_amount :: "return_item list \<Rightarrow> money" where
  "calculate_refund_amount ris = sum_list (map (\<lambda>i. ri_product_price i * ri_quantity i) ris)"

text \<open>Stock is only looked at here; it is taken when the exchange is completed.\<close>

definition exchange_in_stock :: "pk \<Rightarrow> db \<Rightarrow> exn + pk option" where
  "exchange_in_stock pid d = (case get_product d pid of
     None \<Rightarrow> Inl DoesNotExist
   | Some p \<Rightarrow> if p_stock p < 1 then Inl ValueError else Inr (Some pid))"

definition exchange_for :: "pk option \<Rightarrow> (order_item \<times> int) list \<Rightarrow> db \<Rightarrow> exn + pk option" where
  "exchange_for chosen xs d = (case chosen of
     Some pid \<Rightarrow> exchange_in_stock pid d
   | None \<Rightarrow>
       if length xs > 1 then Inl ValueError
       else case xs of
              [] \<Rightarrow> Inr None
            | (oi, _) # _ \<Rightarrow> (case oi_product oi of None \<Rightarrow> Inl ValueError | Some pid \<Rightarrow> exchange_in_stock pid d))"

text \<open>
  A row of \<^verbatim>\<open>ReturnItem\<close>: unique per request and order item, its quantity is not negative.
  \<^verbatim>\<open>save\<close> takes an empty name and a price of zero from the order item, where they come from anyway.
\<close>

definition create_return_item :: "pk \<Rightarrow> order_item \<times> int \<Rightarrow> db \<Rightarrow> exn + db" where
  "create_return_item rid x d = (case x of (oi, quantity) \<Rightarrow>
     if quantity < 0 \<or> list_ex (\<lambda>i. ri_return i = rid \<and> ri_order_item i = oi_id oi) (return_items d)
     then Inl IntegrityError
     else Inr (d\<lparr>return_items := return_items d @
            [\<lparr>ri_id = next_id d, ri_return = rid, ri_order_item = oi_id oi, ri_quantity = quantity,
              ri_product_name = oi_product_name oi, ri_product_price = oi_price oi\<rparr>],
          next_id := Suc (next_id d)\<rparr>))"

definition return_items_of :: "db \<Rightarrow> pk \<Rightarrow> return_item list" where
  "return_items_of d rid = filter (\<lambda>i. ri_return i = rid) (return_items d)"

definition new_return :: "fernet \<Rightarrow> order \<Rightarrow> pk \<Rightarrow> return_form \<Rightarrow> pk option \<Rightarrow> string \<Rightarrow> pk \<Rightarrow> return_request" where
  "new_return fe ord uid form exchange return_number rid = save_account fe
     \<lparr>ret_id = rid, ret_order = o_id ord, ret_user = uid, ret_number = return_number,
      ret_type = rf_type form, ret_status = Requested, ret_reason = rf_reason form,
      ret_reason_detail = rf_detail form, ret_shipping_company = [], ret_tracking_number = [],
      ret_shipping_fee = 0, ret_refund_amount = 0, ret_account_bank = rf_bank form,
      ret_account_number = rf_account form, ret_account_holder = rf_holder form,
      ret_exchange_product = exchange, ret_exchange_company = [], ret_exchange_tracking = [],
      ret_admin_memo = [], ret_approved_at = None, ret_completed_at = None, ret_rejected_reason = []\<rparr>"

definition create_return ::
  "fernet \<Rightarrow> order \<Rightarrow> pk \<Rightarrow> return_form \<Rightarrow> (order_item \<times> int) list \<Rightarrow> timestamp \<Rightarrow> return_request op" where
  "create_return fe ord uid form xs now d = (
     let return_number = generate_return_number now d
     in case (if rf_type form = ExchangeReturn then exchange_for (rf_exchange form) xs d else Inr (rf_exchange form)) of
          Inl e \<Rightarrow> Inl e
        | Inr exchange \<Rightarrow>
            if return_number \<in> ret_number ` set (returns d) then Inl IntegrityError
            else let rid = next_id d; r = new_return fe ord uid form exchange return_number rid
              in case fold_res (create_return_item rid) xs (d\<lparr>returns := returns d @ [r], next_id := Suc rid\<rparr>) of
                   Inl e \<Rightarrow> Inl e
                 | Inr d1 \<Rightarrow>
                     let r1 = (if rf_type form = RefundReturn
                               then r\<lparr>ret_refund_amount := calculate_refund_amount (return_items_of d1 rid)\<rparr> else r)
                     in Inr (r1, upd_return rid (\<lambda>_. r1) d1))"

definition add_notification :: "pk \<Rightarrow> string \<Rightarrow> dict \<Rightarrow> db \<Rightarrow> db" where
  "add_notification uid title dat d = d\<lparr>notifications := notifications d @ [(uid, title, dat)]\<rparr>"

definition return_info :: "return_request \<Rightarrow> dict" where
  "return_info r = [(''return_id'', JNum (int (ret_id r))), (''return_number'', JStr (ret_number r))]"

definition product_of_return_item :: "db \<Rightarrow> return_item \<Rightarrow> pk option" where
  "product_of_return_item d i = (case rget oi_id (order_items d) (ri_order_item i) of
     None \<Rightarrow> None | Some oi \<Rightarrow> oi_product oi)"

text \<open>The set of sellers; the order of the notifications is that of the items.\<close>

definition sellers_of_return :: "(pk \<Rightarrow> pk option) \<Rightarrow> pk \<Rightarrow> db \<Rightarrow> pk list" where
  "sellers_of_return seller_of rid d = remdups (List.map_filter
     (\<lambda>i. case product_of_return_item d i of None \<Rightarrow> None | Some pid \<Rightarrow> seller_of pid) (return_items_of d rid))"

definition notify_sellers :: "(pk \<Rightarrow> pk option) \<Rightarrow> return_request \<Rightarrow> string \<Rightarrow> dict \<Rightarrow> db \<Rightarrow> db" where
  "notify_sellers seller_of r title dat d =
     fold (\<lambda>seller. add_notification seller title dat) (sellers_of_return seller_of (ret_id r) d) d"

definition return_form_ok :: "return_form \<Rightarrow> order \<Rightarrow> timestamp \<Rightarrow> db \<Rightarrow> bool" where
  "return_form_ok form ord now d \<longleftrightarrow>
     list_all (\<lambda>x. snd x \<ge> 1) (rf_items form)
     \<and> (case rf_exchange form of None \<Rightarrow> True | Some pid \<Rightarrow> get_product d pid \<noteq> None)
     \<and> validate_order_for_return ord now d = Inr ()
     \<and> (rf_type form = RefundReturn \<longrightarrow> rf_bank form \<noteq> [] \<and> rf_account form \<noteq> [])
     \<and> (case validate_return_items (o_id ord) (rf_items form) d of Inl _ \<Rightarrow> False | Inr _ \<Rightarrow> True)"

text \<open>The request of a customer: validation, the request itself, a notification to every seller.\<close>

definition request_return ::
  "fernet \<Rightarrow> (pk \<Rightarrow> pk option) \<Rightarrow> pk \<Rightarrow> pk \<Rightarrow> return_form \<Rightarrow> timestamp \<Rightarrow> return_request op" where
  "request_return fe seller_of oid uid form now d = (
     case get_order d oid of
       None \<Rightarrow> Inl ValidationError
     | Some ord \<Rightarrow>
         if o_user ord \<noteq> Some uid \<or> \<not> return_form_ok form ord now d then Inl ValidationError
         else case validate_return_items oid (rf_items form) d of
                Inl e \<Rightarrow> Inl ValidationError
              | Inr ois \<Rightarrow>
                  (case create_return fe ord uid form (zip ois (map snd (rf_items form))) now d of
                     Inl e \<Rightarrow> Inl (if e = ValueError then ValidationError else e)
                   | Inr (r, d1) \<Rightarrow> Inr (r, notify_sellers seller_of r ''new_return'' (return_info r) d1)))"

section \<open>The seller's steps\<close>

text \<open>\<^verbatim>\<open>return_obj.save()\<close> of the locked row; \<open>save\<close> is the overridden method.\<close>

definition save_return :: "fernet \<Rightarrow> return_request \<Rightarrow> return_request op" where
  "save_return fe r d = (let r1 = save_account fe r in Inr (r1, upd_return (ret_id r) (\<lambda>_. r1) d))"

definition approve_return :: "fernet \<Rightarrow> pk \<Rightarrow> string \<Rightarrow> timestamp \<Rightarrow> return_request op" where
  "approve_return fe rid admin_memo now d = rbind (of_get DoesNotExist (get_return d rid) d) (\<lambda>r d.
     if ret_status r \<noteq> Requested then Inl ValueError
     else rbind (save_return fe (r\<lparr>ret_status := Approved, ret_approved_at := Some now,
                   ret_admin_memo := (if admin_memo = [] then ret_admin_memo r else admin_memo)\<rparr>) d) (\<lambda>r d.
            Inr (r, add_notification (ret_user r) ''return_approved'' (return_info r) d)))"

definition reject_return :: "fernet \<Rightarrow> pk \<Rightarrow> string \<Rightarrow> return_request op" where
  "reject_return fe rid why d = rbind (of_get DoesNotExist (get_return d rid) d) (\<lambda>r d.
     if ret_status r \<noteq> Requested then Inl ValueError
     else rbind (save_return fe (r\<lparr>ret_status := Rejected, ret_rejected_reason := why\<rparr>) d) (\<lambda>r d.
            Inr (r, add_notification (ret_user r) ''return_rejected'' (return_info r) d)))"

text \<open>The customer enters the tracking number.\<close>

definition update_return_tracking ::
  "fernet \<Rightarrow> (pk \<Rightarrow> pk option) \<Rightarrow> pk \<Rightarrow> string \<Rightarrow> string \<Rightarrow> return_request op" where
  "update_return_tracking fe seller_of rid company tracking d = rbind (of_get DoesNotExist (get_return d rid) d) (\<lambda>r d.
     if ret_status r \<noteq> Approved \<or> company = [] \<or> tracking = [] then Inl ValidationError
     else rbind (save_return fe (r\<lparr>ret_shipping_company := company, ret_tracking_number := tracking,
                   ret_status := Shipping\<rparr>) d) (\<lambda>r d.
            Inr (r, notify_sellers seller_of r ''return_shipped''
              (return_info r @ [(''tracking_number'', JStr tracking)]) d)))"

definition confirm_receive_return :: "fernet \<Rightarrow> pk \<Rightarrow> return_request op" where
  "confirm_receive_return fe rid d = rbind (of_get DoesNotExist (get_return d rid) d) (\<lambda>r d.
     if ret_status r \<noteq> Shipping then Inl ValueError
     else rbind (save_return fe (r\<lparr>ret_status := Received\<rparr>) d) (\<lambda>r d.
            Inr (r, add_notification (ret_user r) ''return_received'' (return_info r) d)))"

section \<open>Completing a refund\<close>

text \<open>
  \<^verbatim>\<open>int((total * part / whole).to_integral_value(ROUND_DOWN))\<close>.  The amounts have at most ten
  digits, so the 28 digits of a \<^verbatim>\<open>Decimal\<close> do not round the quotient up to the next integer.
\<close>

definition proportional_share :: "int \<Rightarrow> int \<Rightarrow> int \<Rightarrow> int" where
  "proportional_share tot part whole = (
     if whole \<le> 0 then 0
     else if tot * part \<ge> 0 then tot * part div whole else - (- (tot * part) div whole))"

definition refunded_before :: "pk \<Rightarrow> db \<Rightarrow> money" where
  "refunded_before oid d = sum_list (map ret_refund_amount (filter
     (\<lambda>r. ret_order r = oid \<and> ret_type r = RefundReturn \<and> ret_status r = Completed) (returns d)))"

record refund_split =
  rs_cash :: money
  rs_points :: int
  rs_earned :: int

definition refund_shares :: "order \<Rightarrow> return_request \<Rightarrow> db \<Rightarrow> refund_split" where
  "refund_shares ord r d = (
     let goods_total = o_total_amount ord; used_for_goods = min (o_used_points ord) goods_total;
         previous = refunded_before (o_id ord) d; this_goods = ret_refund_amount r;
         points_back = proportional_share used_for_goods (previous + this_goods) goods_total
                         - proportional_share used_for_goods previous goods_total;
         earned_back = proportional_share (o_earned_points ord) (previous + this_goods) goods_total
                         - proportional_share (o_earned_points ord) previous goods_total;
         cash_back = this_goods - points_back - ret_shipping_fee r;
         points_left = (if cash_back < 0 then max (points_back + cash_back) 0 else points_back);
         was_used = list_ex (\<lambda>h. ph_order h = Some (o_id ord) \<and> ph_type h = Use) (histories d)
     in \<lparr>rs_cash = max cash_back 0, rs_points = (if points_left > 0 \<and> \<not> was_used then 0 else points_left),
         rs_earned = earned_back\<rparr>)"

text \<open>A refund that was done already has left its id in a payment log or in the point history.\<close>

definition refund_recorded :: "pk \<Rightarrow> db \<Rightarrow> bool" where
  "refund_recorded rid d \<longleftrightarrow>
     list_ex (\<lambda>l. map_of (lg_data l) ''return_id'' = Some (JNum (int rid))) (payment_logs d)
     \<or> list_ex (\<lambda>h. map_of (m_info (ph_meta h)) ''return_id'' = Some (JNum (int rid))) (histories d)"

definition VIRTUAL_ACCOUNT_METHOD :: string where
  "VIRTUAL_ACCOUNT_METHOD = [CHR 0xEA, CHR 0xB0, CHR 0x80, CHR 0xEC, CHR 0x83, CHR 0x81, CHR 0xEA, CHR 0xB3, CHR 0x84,
     CHR 0xEC, CHR 0xA2, CHR 0x8C]"

fun reason_display :: "return_reason \<Rightarrow> string" where
  "reason_display ChangeOfMind = [CHR 0xEB, CHR 0x8B, CHR 0xA8, CHR 0xEC, CHR 0x88, CHR 0x9C, CHR 0xEB, CHR 0xB3, CHR 0x80,
     CHR 0xEC, CHR 0x8B, CHR 0xAC]"
| "reason_display Defective = [CHR 0xEC, CHR 0x83, CHR 0x81, CHR 0xED, CHR 0x92, CHR 0x88, CHR 0xEB, CHR 0xB6, CHR 0x88,
     CHR 0xEB, CHR 0x9F, CHR 0x89]"
| "reason_display WrongProduct = [CHR 0xEC, CHR 0x98, CHR 0xA4, CHR 0xEB, CHR 0xB0, CHR 0xB0, CHR 0xEC, CHR 0x86, CHR 0xA1]"
| "reason_display DescriptionMismatch = [CHR 0xEC, CHR 0x83, CHR 0x81, CHR 0xEC, CHR 0x84, CHR 0xB8, CHR 0xED, CHR 0x8E,
     CHR 0x98, CHR 0xEC, CHR 0x9D, CHR 0xB4, CHR 0xEC, CHR 0xA7, CHR 0x80, CHR 0xEC, CHR 0x99, CHR 0x80, CHR '' '',
     CHR 0xEB, CHR 0x8B, CHR 0xA4, CHR 0xEB, CHR 0xA6, CHR 0x84]"
| "reason_display SizeIssue = [CHR 0xEC, CHR 0x82, CHR 0xAC, CHR 0xEC, CHR 0x9D, CHR 0xB4, CHR 0xEC, CHR 0xA6, CHR 0x88,
     CHR '' '', CHR 0xEB, CHR 0xAC, CHR 0xB8, CHR 0xEC, CHR 0xA0, CHR 0x9C]"
| "reason_display OtherReason = [CHR 0xEA, CHR 0xB8, CHR 0xB0, CHR 0xED, CHR 0x83, CHR 0x80]"

definition refund_account :: "fernet \<Rightarrow> payment \<Rightarrow> return_request \<Rightarrow> exn + dict option" where
  "refund_account fe p r = (
     if pay_method p = VIRTUAL_ACCOUNT_METHOD \<and> ret_account_number r \<noteq> []
     then sbind (get_decrypted_account_number fe r) (\<lambda>number.
            Inr (Some [(''bank'', JStr (ret_account_bank r)), (''accountNumber'', JStr number),
                       (''holderName'', JStr (ret_account_holder r))]))
     else Inr None)"

text \<open>The idempotency key depends on the return only.\<close>

definition return_refund_key :: "pk \<Rightarrow> string" where
  "return_refund_key rid = ''return-refund-'' @ str_nat rid"

definition toss_refund :: "http \<Rightarrow> fernet \<Rightarrow> payment \<Rightarrow> return_request \<Rightarrow> money \<Rightarrow> exn + dict" where
  "toss_refund http fe p r cash = sbind (refund_account fe p r) (\<lambda>acc.
     case toss_cancel_payment http (pay_key p) (reason_display (ret_reason r) @ '' - '' @ ret_reason_detail r)
            (Some cash) acc (Some (return_refund_key (ret_id r))) of
       Inl e \<Rightarrow> Inl ValueError | Inr cancel_data \<Rightarrow> Inr cancel_data)"

text \<open>Step 4: the partial cancellation at the provider, recorded with the payment.\<close>

definition refund_cash :: "http \<Rightarrow> fernet \<Rightarrow> payment option \<Rightarrow> return_request \<Rightarrow> refund_split \<Rightarrow> timestamp \<Rightarrow> unit op" where
  "refund_cash http fe pm r sp now d = (
     if rs_cash sp > 0
     then (case pm of
             None \<Rightarrow> Inl ValueError
           | Some p \<Rightarrow>
               if rs_cash sp > pay_amount p - pay_canceled_amount p then Inl ValueError
               else (case toss_refund http fe p r (rs_cash sp) of
                       Inl e \<Rightarrow> Inl e
                     | Inr cancel_data \<Rightarrow> rbind (mark_as_partial_canceled p (rs_cash sp) cancel_data now d) (\<lambda>p d.
                         Inr ((), add_log (pay_id p) LCancel (MsgReturnRefund (ret_number r) (rs_cash sp))
                           [(''return_id'', JNum (int (ret_id r))), (''cash'', JNum (rs_cash sp)),
                            (''points'', JNum (rs_points sp))] d))))
     else Inr ((), d))"

text \<open>Step 5: \<^verbatim>\<open>Greatest(F("sold_count") - quantity, 0)\<close>.\<close>

definition take_back :: "return_item \<Rightarrow> db \<Rightarrow> db" where
  "take_back i d = (case product_of_return_item d i of
     None \<Rightarrow> d
   | Some pid \<Rightarrow> upd_product pid (\<lambda>p. map_sold (\<lambda>n. max (n - ri_quantity i) 0) (map_stock (\<lambda>s. s + ri_quantity i) p)) d)"

definition refund_meta :: "order \<Rightarrow> return_request \<Rightarrow> dict" where
  "refund_meta ord r = order_info ord @ return_info r"

text \<open>Step 6.\<close>

definition refund_points :: "order \<Rightarrow> return_request \<Rightarrow> refund_split \<Rightarrow> timestamp \<Rightarrow> unit op" where
  "refund_points ord r sp now d =
     rbind (if rs_points sp > 0
            then rbind (refund_used_points (ret_user r) (rs_points sp) (o_id ord) CancelRefund (refund_meta ord r) now d)
                   (\<lambda>_ d. Inr ((), d))
            else Inr ((), d)) (\<lambda>_ d.
     if rs_earned sp > 0
     then rbind (use_points_fifo (ret_user r) (rs_earned sp) CancelDeduct (Some (o_id ord)) (refund_meta ord r) now d)
            (\<lambda>u d. if ur_success u then Inr ((), d) else Inl ValueError)
     else Inr ((), d))"

definition returned_quantity :: "pk \<Rightarrow> db \<Rightarrow> int" where
  "returned_quantity oid d = sum_list (map ri_quantity (filter (\<lambda>i. is_completed_refund d (ri_return i)
     \<and> (case get_return d (ri_return i) of None \<Rightarrow> False | Some r \<Rightarrow> ret_order r = oid)) (return_items d)))"

definition ordered_quantity :: "pk \<Rightarrow> db \<Rightarrow> int" where
  "ordered_quantity oid d = sum_list (map oi_quantity (items_of d oid))"

text \<open>Step 7.\<close>

definition finish_refund :: "fernet \<Rightarrow> order \<Rightarrow> return_request \<Rightarrow> refund_split \<Rightarrow> timestamp \<Rightarrow> return_request op" where
  "finish_refund fe ord r sp now d =
     rbind (save_return fe (r\<lparr>ret_status := Completed, ret_completed_at := Some now\<rparr>) d) (\<lambda>r d.
       let d1 = (if returned_quantity (o_id ord) d \<ge> ordered_quantity (o_id ord) d
                 then upd_order (o_id ord) (set_order_status Refunded now) d else d)
       in Inr (r, add_notification (ret_user r) ''refund_completed''
            (return_info r @ [(''refund_amount'', JStr (str_int (rs_cash sp))), (''points_refunded'', JNum (rs_points sp)),
               (''points_deducted'', JNum (rs_earned sp))]) d1))"

text \<open>Step 3, the part about points: what can be reclaimed before money moves.\<close>

definition earned_reclaimable :: "user \<Rightarrow> refund_split \<Rightarrow> timestamp \<Rightarrow> db \<Rightarrow> bool" where
  "earned_reclaimable user sp now d \<longleftrightarrow> (rs_earned sp > 0 \<longrightarrow>
     min (u_points user + rs_points sp) (get_usable_points (u_id user) True now d) \<ge> rs_earned sp)"

definition complete_refund :: "http \<Rightarrow> fernet \<Rightarrow> pk \<Rightarrow> timestamp \<Rightarrow> return_request op" where
  "complete_refund http fe rid now d =
     rbind (of_get DoesNotExist (get_return d rid) d) (\<lambda>r d.
       if ret_type r \<noteq> RefundReturn then Inl ValueError
       else if ret_status r \<noteq> Received then Inl ValueError
       else if refund_recorded rid d then Inl ValueError
       else rbind (of_get DoesNotExist (get_order d (ret_order r)) d) (\<lambda>ord d.
            rbind (of_get DoesNotExist (get_user d (ret_user r)) d) (\<lambda>user d.
              let sp = refund_shares ord r d
              in if \<not> earned_reclaimable user sp now d then Inl ValueError
                 else rbind (refund_cash http fe (payment_of d (o_id ord)) r sp now d) (\<lambda>_ d.
                      rbind (refund_points ord r sp now (fold take_back (return_items_of d rid) d)) (\<lambda>_ d.
                        finish_refund fe ord r sp now d)))))"

section \<open>Completing an exchange\<close>

text \<open>One piece of the exchange product leaves the shelf, whatever the quantities are.\<close>

definition take_exchange_product :: "pk option \<Rightarrow> unit op" where
  "take_exchange_product ex d = (case ex of
     None \<Rightarrow> Inr ((), d)
   | Some pid \<Rightarrow> rbind (of_get DoesNotExist (get_product d pid) d) (\<lambda>p d.
       if p_stock p < 1 then Inl ValueError else Inr ((), upd_product pid (map_stock (\<lambda>s. s - 1)) d)))"

definition put_back :: "return_item \<Rightarrow> db \<Rightarrow> db" where
  "put_back i d = (case product_of_return_item d i of
     None \<Rightarrow> d | Some pid \<Rightarrow> upd_product pid (map_stock (\<lambda>s. s + ri_quantity i)) d)"

definition complete_exchange :: "fernet \<Rightarrow> pk \<Rightarrow> string \<Rightarrow> string \<Rightarrow> timestamp \<Rightarrow> return_request op" where
  "complete_exchange fe rid tracking company now d =
     rbind (of_get DoesNotExist (get_return d rid) d) (\<lambda>r d.
       if ret_type r \<noteq> ExchangeReturn then Inl ValueError
       else if ret_status r \<noteq> Received then Inl ValueError
       else rbind (take_exchange_product (ret_exchange_product r) d) (\<lambda>_ d.
            rbind (save_return fe (r\<lparr>ret_exchange_tracking := tracking, ret_exchange_company := company,
                     ret_status := Completed, ret_completed_at := Some now\<rparr>)
                     (fold put_back (return_items_of d rid) d)) (\<lambda>r d.
              Inr (r, add_notification (ret_user r) ''exchange_completed''
                (return_info r @ [(''tracking_number'', JStr tracking)]) d))))"

text \<open>\<^verbatim>\<open>ReturnCompleteSerializer\<close>.\<close>

definition complete_return :: "http \<Rightarrow> fernet \<Rightarrow> pk \<Rightarrow> string \<Rightarrow> string \<Rightarrow> timestamp \<Rightarrow> return_request op" where
  "complete_return http fe rid tracking company now d = rbind (of_get DoesNotExist (get_return d rid) d) (\<lambda>r d.
     if ret_status r \<noteq> Received then Inl ValidationError
     else if ret_type r = ExchangeReturn \<and> (tracking = [] \<or> company = []) then Inl ValidationError
     else if ret_type r = RefundReturn then complete_refund http fe rid now d
     else complete_exchange fe rid tracking company now d)"

end
