(* ===== verification/Return_Ops.thy ===== *)
theory Return_Ops
  imports Returns Payment_Ops
begin

text \<open>
  The contracts of the return service: which tables each step of a refund writes, what it books in
  the point history, that the ledger and the shelf stay consistent, and that the steps after the
  provider's refund cannot fail.
\<close>

section \<open>Pieces that come back\<close>

text \<open>The returned items, written as order items so that the facts about the shelf apply.\<close>

definition return_pieces :: "db \<Rightarrow> return_item list \<Rightarrow> order_item list" where
  "return_pieces d ris = map (\<lambda>i. \<lparr>oi_id = ri_order_item i, oi_order = 0, oi_product = product_of_return_item d i,
     oi_product_name = [], oi_quantity = ri_quantity i, oi_price = ri_product_price i\<rparr>) ris"

lemma product_of_return_item_cong:
  "order_items d' = order_items d \<Longrightarrow> product_of_return_item d' i = product_of_return_item d i"
  by (simp add: product_of_return_item_def)

lemma return_pieces_cong: "order_items d' = order_items d \<Longrightarrow> return_pieces d' ris = return_pieces d ris"
  unfolding return_pieces_def using product_of_return_item_cong [of d' d] by (intro map_cong) simp_all

lemma take_back_items: "fold take_back ris d = d\<lparr>products := unsell (return_pieces d ris) (products d)\<rparr>"
proof (induction ris arbitrary: d)
  case (Cons i ris)
  have "return_pieces (take_back i d) ris = return_pieces d ris"
    by (rule return_pieces_cong) (simp add: take_back_def split: option.split)
  then have "fold take_back ris (take_back i d)
      = (take_back i d)\<lparr>products := unsell (return_pieces d ris) (products (take_back i d))\<rparr>"
    using Cons.IH [of "take_back i d"] by simp
  also have "\<dots> = d\<lparr>products := unsell (return_pieces d (i # ris)) (products d)\<rparr>"
    by (cases "product_of_return_item d i") (simp_all add: take_back_def return_pieces_def unsell_def upd_product_def)
  finally show ?case
    by simp
qed (simp add: return_pieces_def unsell_def)

lemma put_back_items: "fold put_back ris d = d\<lparr>products := restock (return_pieces d ris) (products d)\<rparr>"
proof (induction ris arbitrary: d)
  case (Cons i ris)
  have "return_pieces (put_back i d) ris = return_pieces d ris"
    by (rule return_pieces_cong) (simp add: put_back_def split: option.split)
  then have "fold put_back ris (put_back i d)
      = (put_back i d)\<lparr>products := restock (return_pieces d ris) (products (put_back i d))\<rparr>"
    using Cons.IH [of "put_back i d"] by simp
  also have "\<dots> = d\<lparr>products := restock (return_pieces d (i # ris)) (products d)\<rparr>"
    by (cases "product_of_return_item d i") (simp_all add: put_back_def return_pieces_def upd_product_def)
  finally show ?case
    by simp
qed (simp add: return_pieces_def)

lemma products_ok_restock:
  assumes "products_ok ps" "\<forall>i \<in> set is. 0 \<le> oi_quantity i"
  shows "products_ok (restock is ps)" "products_ok (unsell is ps)"
proof -
  show r: "products_ok (restock is ps)"
    using assms restock_nonneg [of ps "is"] by (simp add: products_ok_def)
  show "products_ok (unsell is ps)"
    using r same_shelf_facts(3) [OF same_shelf_unsell [of ps ps "is"]] by simp
qed

lemma unsell_keys: "map p_id (unsell is ps) = map p_id ps"
  using same_shelf_facts(1) [OF same_shelf_unsell [of ps ps "is"]] by simp

lemma stock_in_unsell:
  "stock_in (unsell is ps) k = stock_in ps k + (if rget p_id ps k = None then 0 else items_qty k is)"
  using same_shelf_facts(2) [OF same_shelf_unsell [of ps ps "is"]] by (simp add: stock_in_restock)

lemma shop_inv_products:
  assumes inv: "shop_inv d" and "products_ok ps" "map p_id ps = map p_id (products d)"
  shows "shop_inv (d\<lparr>products := ps\<rparr>)"
proof -
  have "ledger_inv (d\<lparr>products := ps\<rparr>)"
    using shop_invD(1) [OF inv] by (rule ledger_inv_frame) auto
  then show ?thesis
    using shop_invD [OF inv] assms(2,3) by (intro shop_invI) simp_all
qed

section \<open>What the point history books for an order\<close>

definition booked_in :: "point_type \<Rightarrow> pk \<Rightarrow> history list \<Rightarrow> int" where
  "booked_in ty oid t = sum_list (map ph_points (filter (\<lambda>h. ph_type h = ty \<and> ph_order h = Some oid) t))"

abbreviation booked :: "point_type \<Rightarrow> pk \<Rightarrow> db \<Rightarrow> int" where
  "booked ty oid d \<equiv> booked_in ty oid (histories d)"

lemma booked_append [simp]: "booked_in ty oid (t @ u) = booked_in ty oid t + booked_in ty oid u"
  by (simp add: booked_in_def)

lemma booked_rows [simp]:
  "booked_in ty oid [] = 0"
  "booked_in ty oid (h # t) = (if ph_type h = ty \<and> ph_order h = Some oid then ph_points h else 0) + booked_in ty oid t"
  by (simp_all add: booked_in_def)

lemma booked_core: "map core t = map core t' \<Longrightarrow> booked_in ty oid t = booked_in ty oid t'"
proof (induction t arbitrary: t')
  case (Cons h t)
  then obtain h' u where u: "t' = h' # u" "core h = core h'" "map core t = map core u"
    by (cases t') auto
  have "ph_type h = ph_type h'" "ph_order h = ph_order h'" "ph_points h = ph_points h'"
    using u(2) by (simp_all add: core_def)
  then show ?case
    using Cons.IH [OF u(3)] u(1) by simp
qed simp

lemma refund_used_points_books:
  assumes inv: "ledger_inv d" and run: "refund_used_points uid amount oid CancelRefund info now d = Inr (r, d')"
    and own: "order_owned d (Some oid) uid" and pos: "0 < amount"
  shows "booked CancelRefund k d' = booked CancelRefund k d + (if k = oid then amount else 0)"
    "booked CancelDeduct k d' = booked CancelDeduct k d"
proof -
  have "booked CancelRefund k d' = booked CancelRefund k d + (if k = oid then amount else 0)
      \<and> booked CancelDeduct k d' = booked CancelDeduct k d"
    using run
  proof (cases rule: refund_used_points_Inr)
    case (refunded u ds ex left t d1)
    have "booked_in ty j t = booked ty j d" for ty j
      using restore_earn_rows(1) [OF inv own refunded(1,4)] by (rule booked_core)
    then show ?thesis
      unfolding refunded(10) refunded(9) by simp
  qed (use pos in simp)
  then show "booked CancelRefund k d' = booked CancelRefund k d + (if k = oid then amount else 0)"
    "booked CancelDeduct k d' = booked CancelDeduct k d"
    by simp_all
qed

lemma reclaim_books:
  assumes inv: "ledger_inv d" and run: "use_points_fifo uid amount CancelDeduct (Some oid) info now d = Inr (r, d')"
    and ok: "ur_success r"
  shows "booked CancelDeduct k d' = booked CancelDeduct k d - (if k = oid then amount else 0)"
    "booked CancelRefund k d' = booked CancelRefund k d"
proof -
  have "booked CancelDeduct k d' = booked CancelDeduct k d - (if k = oid then amount else 0)
      \<and> booked CancelRefund k d' = booked CancelRefund k d"
    using run
  proof (cases rule: use_points_fifo_Inr)
    case (used u ds left t)
    have "booked_in ty j t = booked ty j d" for ty j
      using consume_available(1) [OF inv used(4,8)] by (rule booked_core)
    then show ?thesis
      unfolding used(9) by simp
  qed (use ok in simp_all)
  then show "booked CancelDeduct k d' = booked CancelDeduct k d - (if k = oid then amount else 0)"
    "booked CancelRefund k d' = booked CancelRefund k d"
    by simp_all
qed

section \<open>The point step\<close>

lemma refund_points_Inr:
  assumes run: "refund_points ord r sp now d = Inr (x, d')" and inv: "ledger_inv d"
    and own: "order_owned d (Some (o_id ord)) (ret_user r)"
  shows "ledger_change d d'" "booked CancelRefund (o_id ord) d' = booked CancelRefund (o_id ord) d + max 0 (rs_points sp)"
    "booked CancelDeduct (o_id ord) d' = booked CancelDeduct (o_id ord) d - max 0 (rs_earned sp)"
proof -
  obtain y e where e: "(if rs_points sp > 0
       then rbind (refund_used_points (ret_user r) (rs_points sp) (o_id ord) CancelRefund (refund_meta ord r) now d)
              (\<lambda>_ d. Inr ((), d)) else Inr ((), d)) = Inr (y, e)"
    and f: "(if rs_earned sp > 0
       then rbind (use_points_fifo (ret_user r) (rs_earned sp) CancelDeduct (Some (o_id ord)) (refund_meta ord r) now e)
              (\<lambda>u d. if ur_success u then Inr ((), d) else Inl ValueError) else Inr ((), e)) = Inr (x, d')"
    using run unfolding refund_points_def rbind_eq_Inr by blast
  have 1: "ledger_change d e \<and> booked CancelRefund (o_id ord) e = booked CancelRefund (o_id ord) d + max 0 (rs_points sp)
      \<and> booked CancelDeduct (o_id ord) e = booked CancelDeduct (o_id ord) d"
  proof (cases "rs_points sp > 0")
    case True
    then obtain u where "refund_used_points (ret_user r) (rs_points sp) (o_id ord) CancelRefund (refund_meta ord r) now d = Inr (u, e)"
      using e by (auto simp: rbind_eq_Inr)
    from refund_used_points_change [OF inv this own] refund_used_points_books [OF inv this own True] show ?thesis
      using True by simp
  qed (use e ledger_change_refl [OF inv] in simp)
  then have inv_e: "ledger_inv e"
    by (simp add: ledger_change_def)
  have 2: "ledger_change e d' \<and> booked CancelRefund (o_id ord) d' = booked CancelRefund (o_id ord) e
      \<and> booked CancelDeduct (o_id ord) d' = booked CancelDeduct (o_id ord) e - max 0 (rs_earned sp)"
  proof (cases "rs_earned sp > 0")
    case True
    then obtain u where "use_points_fifo (ret_user r) (rs_earned sp) CancelDeduct (Some (o_id ord)) (refund_meta ord r) now e = Inr (u, d')"
      "ur_success u"
      using f by (auto simp: rbind_eq_Inr split: if_splits)
    from use_points_fifo_change [OF inv_e this(1)] reclaim_books [OF inv_e this] show ?thesis
      using True by simp
  qed (use f ledger_change_refl [OF inv_e] in simp)
  show "ledger_change d d'" "booked CancelRefund (o_id ord) d' = booked CancelRefund (o_id ord) d + max 0 (rs_points sp)"
    "booked CancelDeduct (o_id ord) d' = booked CancelDeduct (o_id ord) d - max 0 (rs_earned sp)"
    using 1 2 ledger_change_trans by auto
qed

lemma refund_points_ok:
  assumes inv: "ledger_inv d" and u: "get_user d (ret_user r) = Some u"
    and own: "order_owned d (Some (o_id ord)) (ret_user r)"
    and enough: "rs_earned sp > 0 \<Longrightarrow> rs_earned sp \<le> get_usable_points (ret_user r) True now d"
  shows "\<exists>d'. refund_points ord r sp now d = Inr ((), d')"
proof -
  have reclaim: "\<exists>d'. (if rs_earned sp > 0
       then rbind (use_points_fifo (ret_user r) (rs_earned sp) CancelDeduct (Some (o_id ord)) (refund_meta ord r) now e)
              (\<lambda>u d. if ur_success u then Inr ((), d) else Inl ValueError) else Inr ((), e)) = Inr ((), d')"
    if e: "ledger_inv e" "get_user e (ret_user r) = Some w"
      and us: "get_usable_points (ret_user r) True now d \<le> get_usable_points (ret_user r) True now e" for e w
  proof (cases "rs_earned sp > 0")
    case True
    then obtain x f where "use_points_fifo (ret_user r) (rs_earned sp) CancelDeduct (Some (o_id ord)) (refund_meta ord r) now e = Inr (x, f)"
      "ur_success x"
      using reclaim_succeeds [OF e True order_trans [OF enough [OF True] us]] by blast
    then show ?thesis
      using True by simp
  qed simp
  show ?thesis
  proof (cases "rs_points sp > 0")
    case True
    obtain x e where e: "refund_used_points (ret_user r) (rs_points sp) (o_id ord) CancelRefund (refund_meta ord r) now d = Inr (x, e)"
      using refund_succeeds [OF inv u own True] by blast
    have ch: "ledger_change d e"
      by (rule refund_used_points_change [OF inv e own]) simp
    have "map u_id (users e) = map u_id (users d)"
      using ch user_ids_frame by (simp add: ledger_change_def)
    then obtain w where w: "get_user e (ret_user r) = Some w"
      using rget_None_keys [of u_id "users e" "users d" "ret_user r"] u by fastforce
    have "ledger_inv e"
      using ch by (simp add: ledger_change_def)
    from reclaim [OF this w refund_usable [OF inv e own u]] show ?thesis
      using True e by (simp add: refund_points_def)
  next
    case False
    then show ?thesis
      using reclaim [OF inv u] by (simp add: refund_points_def)
  qed
qed

section \<open>The cash step\<close>

lemma mark_as_partial_canceled_Inr:
  assumes "mark_as_partial_canceled p amount dat now d = Inr (q, d')"
  shows "pay_id q = pay_id p" "pay_canceled_amount q = pay_canceled_amount p + amount" "pay_order q = pay_order p"
    "pay_key q = pay_key p" "pay_amount q = pay_amount p" "d' = upd_payment (pay_id p) (\<lambda>_. q) d"
    "pay_is_canceled q \<longleftrightarrow> pay_is_canceled p \<or> pay_canceled_amount p + amount \<ge> pay_amount p"
proof -
  define p2 where "p2 = (if pay_canceled_amount p + amount \<ge> pay_amount p
      then (p\<lparr>pay_canceled_amount := pay_canceled_amount p + amount\<rparr>)\<lparr>pay_status := Canceled, pay_is_canceled := True\<rparr>
      else (p\<lparr>pay_canceled_amount := pay_canceled_amount p + amount\<rparr>)\<lparr>pay_status := PartialCanceled\<rparr>)"
  obtain s where s: "record_cancel dat p2 = Inr s" "save_payment s now d = Inr (q, d')"
    using assms unfolding mark_as_partial_canceled_def Let_def p2_def by (auto split: sum.splits)
  have "pay_id p2 = pay_id p" "pay_canceled_amount p2 = pay_canceled_amount p + amount" "pay_order p2 = pay_order p"
    "pay_key p2 = pay_key p" "pay_amount p2 = pay_amount p"
    "pay_is_canceled p2 \<longleftrightarrow> pay_is_canceled p \<or> pay_canceled_amount p + amount \<ge> pay_amount p"
    by (simp_all add: p2_def)
  then show "pay_id q = pay_id p" "pay_canceled_amount q = pay_canceled_amount p + amount" "pay_order q = pay_order p"
    "pay_key q = pay_key p" "pay_amount q = pay_amount p" "d' = upd_payment (pay_id p) (\<lambda>_. q) d"
    "pay_is_canceled q \<longleftrightarrow> pay_is_canceled p \<or> pay_canceled_amount p + amount \<ge> pay_amount p"
    using record_cancel_Inr [OF s(1)] save_payment_Inr [OF s(2)] by simp_all
qed

lemma mark_as_partial_canceled_ok:
  assumes "payments_ok d" "get_payment d pid = Some p" "cancel_response_ok dat"
  shows "\<exists>q. mark_as_partial_canceled p amount dat now d = Inr (q, upd_payment pid (\<lambda>_. q) d)"
proof -
  define p2 where "p2 = (if pay_canceled_amount p + amount \<ge> pay_amount p
      then (p\<lparr>pay_canceled_amount := pay_canceled_amount p + amount\<rparr>)\<lparr>pay_status := Canceled, pay_is_canceled := True\<rparr>
      else (p\<lparr>pay_canceled_amount := pay_canceled_amount p + amount\<rparr>)\<lparr>pay_status := PartialCanceled\<rparr>)"
  have p2: "pay_id p2 = pay_id p" "pay_key p2 = pay_key p"
    by (simp_all add: p2_def)
  obtain q where q: "record_cancel dat p2 = Inr q"
    using record_cancel_ok [OF assms(3)] by blast
  have "pay_id q = pid" "pay_key q = pay_key p"
    using record_cancel_Inr [OF q] rget_Some_key [OF assms(2)] p2 by simp_all
  from save_payment_same_key [OF assms(1,2) this] show ?thesis
    using q unfolding mark_as_partial_canceled_def Let_def p2_def by simp
qed

text \<open>What the cash step writes: the payment and its log.\<close>

definition cash_refunded :: "payment option \<Rightarrow> money \<Rightarrow> db \<Rightarrow> db \<Rightarrow> bool" where
  "cash_refunded pm cash d d' \<longleftrightarrow> (if cash > 0
     then \<exists>p q lg. pm = Some p \<and> cash \<le> pay_amount p - pay_canceled_amount p \<and> pay_id q = pay_id p
        \<and> pay_order q = pay_order p \<and> pay_canceled_amount q = pay_canceled_amount p + cash \<and> pay_amount q = pay_amount p
        \<and> pay_key q = pay_key p
        \<and> d' = d\<lparr>payments := rupd pay_id (payments d) (pay_id p) (\<lambda>_. q), payment_logs := payment_logs d @ [lg]\<rparr>
        \<and> map_of (lg_data lg) ''return_id'' \<noteq> None
     else d' = d)"

lemma refund_cash_Inr:
  assumes "refund_cash http fe pm r sp now d = Inr (x, d')"
  shows "cash_refunded pm (rs_cash sp) d d'"
proof (cases "rs_cash sp > 0")
  case True
  obtain p where p: "pm = Some p"
    using assms True by (cases pm) (simp_all add: refund_cash_def)
  have bal: "rs_cash sp \<le> pay_amount p - pay_canceled_amount p"
    using assms True p by (auto simp: refund_cash_def split: if_splits)
  obtain dat where dat: "toss_refund http fe p r (rs_cash sp) = Inr dat"
    using assms True p bal by (cases "toss_refund http fe p r (rs_cash sp)") (simp_all add: refund_cash_def)
  obtain q e where q: "mark_as_partial_canceled p (rs_cash sp) dat now d = Inr (q, e)"
    and d': "d' = add_log (pay_id q) LCancel (MsgReturnRefund (ret_number r) (rs_cash sp))
       [(''return_id'', JNum (int (ret_id r))), (''cash'', JNum (rs_cash sp)), (''points'', JNum (rs_points sp))] e"
    using assms True p bal dat by (auto simp: refund_cash_def rbind_eq_Inr)
  note m = mark_as_partial_canceled_Inr [OF q]
  show ?thesis
    unfolding cash_refunded_def using True p bal m d'
    by (auto simp: add_log_def upd_payment_def intro!: exI [of _ q])
qed (use assms in \<open>simp add: refund_cash_def cash_refunded_def\<close>)

lemma cash_refunded_frame:
  assumes "cash_refunded pm cash d d'"
  shows "users d' = users d" "products d' = products d" "orders d' = orders d" "order_items d' = order_items d"
    "histories d' = histories d" "returns d' = returns d" "return_items d' = return_items d" "next_id d' = next_id d"
    "shop_inert d d'"
  using assms by (auto simp: cash_refunded_def shop_inert_def split: if_splits)

section \<open>The whole refund\<close>

definition completed_row :: "fernet \<Rightarrow> timestamp \<Rightarrow> return_request \<Rightarrow> return_request" where
  "completed_row fe now r = save_account fe (r\<lparr>ret_status := Completed, ret_completed_at := Some now\<rparr>)"

lemma completed_row_sel [simp]:
  "ret_id (completed_row fe now r) = ret_id r" "ret_order (completed_row fe now r) = ret_order r"
  "ret_user (completed_row fe now r) = ret_user r" "ret_type (completed_row fe now r) = ret_type r"
  "ret_status (completed_row fe now r) = Completed" "ret_refund_amount (completed_row fe now r) = ret_refund_amount r"
  "ret_number (completed_row fe now r) = ret_number r" "ret_shipping_fee (completed_row fe now r) = ret_shipping_fee r"
  by (simp_all add: completed_row_def)

lemma add_notification_frame [simp]:
  "users (add_notification u t x d) = users d" "products (add_notification u t x d) = products d"
  "orders (add_notification u t x d) = orders d" "order_items (add_notification u t x d) = order_items d"
  "histories (add_notification u t x d) = histories d" "returns (add_notification u t x d) = returns d"
  "return_items (add_notification u t x d) = return_items d" "payments (add_notification u t x d) = payments d"
  "payment_logs (add_notification u t x d) = payment_logs d" "next_id (add_notification u t x d) = next_id d"
  "cart_items (add_notification u t x d) = cart_items d" "carts (add_notification u t x d) = carts d"
  by (simp_all add: add_notification_def)

lemma upd_return_frame2 [simp]: "carts (upd_return k f d) = carts d" "cart_items (upd_return k f d) = cart_items d"
  by (simp_all add: upd_return_def)

text \<open>The tables after a refund, from those before the cash step (\<open>d\<close>) and after the point step (\<open>d2\<close>).\<close>

definition refund_finished :: "fernet \<Rightarrow> timestamp \<Rightarrow> order \<Rightarrow> return_request \<Rightarrow> db \<Rightarrow> db \<Rightarrow> bool" where
  "refund_finished fe now ord r d2 d' \<longleftrightarrow>
     returns d' = rupd ret_id (returns d2) (ret_id r) (\<lambda>_. completed_row fe now r) \<and> return_items d' = return_items d2
     \<and> users d' = users d2 \<and> histories d' = histories d2 \<and> products d' = products d2 \<and> order_items d' = order_items d2
     \<and> payments d' = payments d2 \<and> next_id d' = next_id d2 \<and> cart_items d' = cart_items d2
     \<and> payment_logs d' = payment_logs d2
     \<and> orders d' = (if returned_quantity (o_id ord) d' \<ge> ordered_quantity (o_id ord) d'
          then rupd o_id (orders d2) (o_id ord) (set_order_status Refunded now) else orders d2)"

lemma returned_quantity_cong:
  "returns d' = returns d \<Longrightarrow> return_items d' = return_items d \<Longrightarrow> returned_quantity oid d' = returned_quantity oid d"
  by (simp add: returned_quantity_def is_completed_refund_def)

lemma ordered_quantity_cong: "order_items d' = order_items d \<Longrightarrow> ordered_quantity oid d' = ordered_quantity oid d"
  by (simp add: ordered_quantity_def items_of_def)

lemma finish_refund_Inr:
  assumes "finish_refund fe ord r sp now d2 = Inr (r', d')"
  shows "r' = completed_row fe now r" "refund_finished fe now ord r d2 d'"
proof -
  define e where "e = upd_return (ret_id r) (\<lambda>_. completed_row fe now r) d2"
  define b where "b \<longleftrightarrow> returned_quantity (o_id ord) e \<ge> ordered_quantity (o_id ord) e"
  define f where "f = (if b then upd_order (o_id ord) (set_order_status Refunded now) e else e)"
  have d': "d' = add_notification (ret_user r) ''refund_completed''
      (return_info r' @ [(''refund_amount'', JStr (str_int (rs_cash sp))), (''points_refunded'', JNum (rs_points sp)),
         (''points_deducted'', JNum (rs_earned sp))]) f"
    and r': "r' = completed_row fe now r"
    using assms unfolding f_def b_def e_def
    by (auto simp: finish_refund_def save_return_def completed_row_def Let_def)
  show "r' = completed_row fe now r"
    by (rule r')
  have tabs: "returns d' = returns e" "return_items d' = return_items e" "order_items d' = order_items e"
    by (simp_all add: d' f_def)
  have "b \<longleftrightarrow> returned_quantity (o_id ord) d' \<ge> ordered_quantity (o_id ord) d'"
    unfolding b_def using returned_quantity_cong [OF tabs(1,2)] ordered_quantity_cong [OF tabs(3)] by simp
  then show "refund_finished fe now ord r d2 d'"
    unfolding refund_finished_def by (cases b) (simp_all add: d' f_def e_def)
qed

lemma finish_refund_ok: "\<exists>r' d'. finish_refund fe ord r sp now d = Inr (r', d')"
  by (simp add: finish_refund_def save_return_def Let_def)

text \<open>The guards of a refund, all decided before the provider is called; the balance of the payment is the last one.\<close>

definition refund_allowed :: "pk \<Rightarrow> timestamp \<Rightarrow> db \<Rightarrow> return_request \<Rightarrow> order \<Rightarrow> user \<Rightarrow> bool" where
  "refund_allowed rid now d r ord user \<longleftrightarrow> get_return d rid = Some r \<and> ret_type r = RefundReturn \<and> ret_status r = Received
     \<and> \<not> refund_recorded rid d \<and> get_order d (ret_order r) = Some ord \<and> get_user d (ret_user r) = Some user
     \<and> earned_reclaimable user (refund_shares ord r d) now d"

lemma complete_refund_refused:
  assumes "\<nexists>r ord user. refund_allowed rid now d r ord user"
  shows "complete_refund http fe rid now d = Inl DoesNotExist \<or> complete_refund http fe rid now d = Inl ValueError"
  using assms by (auto simp: complete_refund_def refund_allowed_def of_get_def rbind_def Let_def split: option.split)

lemma complete_refund_allowed:
  assumes "refund_allowed rid now d r ord user"
  shows "complete_refund http fe rid now d =
    rbind (refund_cash http fe (payment_of d (o_id ord)) r (refund_shares ord r d) now d) (\<lambda>_ d1.
    rbind (refund_points ord r (refund_shares ord r d) now (fold take_back (return_items_of d1 rid) d1)) (\<lambda>_ d2.
      finish_refund fe ord r (refund_shares ord r d) now d2))"
  using assms by (simp add: complete_refund_def refund_allowed_def Let_def)

text \<open>The shelf after the returned pieces are back.\<close>

abbreviation returned_shelf :: "pk \<Rightarrow> db \<Rightarrow> product list" where
  "returned_shelf rid d \<equiv> unsell (return_pieces d (return_items_of d rid)) (products d)"

lemma shelf_after_cash:
  assumes "cash_refunded pm cash d d1"
  shows "fold take_back (return_items_of d1 rid) d1 = d1\<lparr>products := returned_shelf rid d\<rparr>"
proof -
  note f = cash_refunded_frame [OF assms]
  have "return_items_of d1 rid = return_items_of d rid"
    by (simp add: return_items_of_def f)
  then show ?thesis
    using return_pieces_cong [OF f(4)] f(2) by (simp add: take_back_items)
qed

lemma returned_shelf_inv:
  assumes inv: "shop_inv d" and qty: "\<forall>i \<in> set (return_items_of d rid). 0 \<le> ri_quantity i"
    and cash: "cash_refunded pm cash d d1"
  shows "shop_inv (d1\<lparr>products := returned_shelf rid d\<rparr>)"
proof (rule shop_inv_products)
  show "shop_inv d1"
    using shop_change_inv [OF inert_change [OF inv cash_refunded_frame(9) [OF cash]]] .
  have "\<forall>i \<in> set (return_pieces d (return_items_of d rid)). 0 \<le> oi_quantity i"
    using qty by (auto simp: return_pieces_def)
  then show "products_ok (returned_shelf rid d)"
    using shop_invD(2) [OF inv] by (rule products_ok_restock(2) [rotated])
  show "map p_id (returned_shelf rid d) = map p_id (products d1)"
    by (simp add: unsell_keys cash_refunded_frame(2) [OF cash])
qed

lemma complete_refund_Inr:
  assumes run: "complete_refund http fe rid now d = Inr (r', d')" and inv: "shop_inv d"
    and own: "\<And>r. get_return d rid = Some r \<Longrightarrow> order_owned d (Some (ret_order r)) (ret_user r)"
    and qty: "\<forall>i \<in> set (return_items_of d rid). 0 \<le> ri_quantity i"
  obtains r ord user d1 d2 where "refund_allowed rid now d r ord user"
    "cash_refunded (payment_of d (o_id ord)) (rs_cash (refund_shares ord r d)) d d1"
    "refund_points ord r (refund_shares ord r d) now (d1\<lparr>products := returned_shelf rid d\<rparr>) = Inr ((), d2)"
    "shop_inv (d1\<lparr>products := returned_shelf rid d\<rparr>)" "ledger_change (d1\<lparr>products := returned_shelf rid d\<rparr>) d2"
    "booked CancelRefund (o_id ord) d2 = booked CancelRefund (o_id ord) d + max 0 (rs_points (refund_shares ord r d))"
    "booked CancelDeduct (o_id ord) d2 = booked CancelDeduct (o_id ord) d - max 0 (rs_earned (refund_shares ord r d))"
    "r' = completed_row fe now r" "refund_finished fe now ord r d2 d'"
proof -
  obtain r ord user where al: "refund_allowed rid now d r ord user"
    using run complete_refund_refused [of rid now d http fe] by (metis sum.simps(4))
  let ?sp = "refund_shares ord r d"
  obtain x d1 y d2 where d1: "refund_cash http fe (payment_of d (o_id ord)) r ?sp now d = Inr (x, d1)"
    and d2: "refund_points ord r ?sp now (fold take_back (return_items_of d1 rid) d1) = Inr (y, d2)"
    and fin: "finish_refund fe ord r ?sp now d2 = Inr (r', d')"
    using run unfolding complete_refund_allowed [OF al] rbind_eq_Inr by blast
  note cash = refund_cash_Inr [OF d1]
  note d2' = d2 [unfolded shelf_after_cash [OF cash]]
  have inv1: "shop_inv (d1\<lparr>products := returned_shelf rid d\<rparr>)"
    by (rule returned_shelf_inv [OF inv qty cash])
  have ord: "get_order d (ret_order r) = Some ord" "get_return d rid = Some r"
    using al by (simp_all add: refund_allowed_def)
  have "order_owned (d1\<lparr>products := returned_shelf rid d\<rparr>) (Some (o_id ord)) (ret_user r)"
    using own [OF ord(2)] cash_refunded_frame(3) [OF cash] rget_Some_key [OF ord(1)] by (simp add: order_owned_def)
  from refund_points_Inr [OF d2' shop_invD(1) [OF inv1] this] show thesis
    using that [OF al cash _ inv1] d2' finish_refund_Inr [OF fin] cash_refunded_frame(5) [OF cash] by simp
qed

end
