(* ===== verification/Return_System.thy ===== *)
theory Return_System
  imports Return_Ops
begin

text \<open>
  The life of returns as a transition system: requests, the seller's steps, refunds and exchanges in
  any order, together with whatever the rest of the shop does in between.  The invariant says that
  return rows point to rows that exist, that an order has at most one return in progress and that
  nothing is returned twice.
\<close>

section \<open>The invariant\<close>

definition return_rows_ok :: "db \<Rightarrow> bool" where
  "return_rows_ok d \<longleftrightarrow> keys_distinct ret_id (returns d)
     \<and> (\<forall>r \<in> set (returns d). ret_id r < next_id d \<and> order_owned d (Some (ret_order r)) (ret_user r))"

text \<open>\<open>return_item_ok d i\<close>: the request and the order item of a returned item exist and belong together.\<close>

definition return_item_ok :: "db \<Rightarrow> return_item \<Rightarrow> bool" where
  "return_item_ok d i \<longleftrightarrow> 0 \<le> ri_quantity i
     \<and> (\<exists>r oi. get_return d (ri_return i) = Some r \<and> rget oi_id (order_items d) (ri_order_item i) = Some oi
          \<and> oi_order oi = ret_order r \<and> ri_product_price i = oi_price oi)"

definition return_items_ok :: "db \<Rightarrow> bool" where
  "return_items_ok d \<longleftrightarrow> keys_distinct oi_id (order_items d)
     \<and> distinct (map (\<lambda>i. (ri_return i, ri_order_item i)) (return_items d))
     \<and> (\<forall>i \<in> set (return_items d). return_item_ok d i)"

definition one_active :: "db \<Rightarrow> bool" where
  "one_active d \<longleftrightarrow> (\<forall>r \<in> set (returns d). \<forall>s \<in> set (returns d).
     ret_order r = ret_order s \<and> is_active_return r \<and> is_active_return s \<longrightarrow> ret_id r = ret_id s)"

text \<open>What is returned and what is on its way back never exceeds what was ordered.\<close>

definition active_item :: "db \<Rightarrow> return_item \<Rightarrow> bool" where
  "active_item d i = (case get_return d (ri_return i) of None \<Rightarrow> False | Some r \<Rightarrow> is_active_return r)"

definition quantities_ok :: "db \<Rightarrow> bool" where
  "quantities_ok d \<longleftrightarrow> (\<forall>oi \<in> set (order_items d). already_returned (oi_id oi) d \<le> oi_quantity oi
     \<and> (\<forall>i \<in> set (return_items d). ri_order_item i = oi_id oi \<and> active_item d i \<longrightarrow>
          already_returned (oi_id oi) d + ri_quantity i \<le> oi_quantity oi))"

definition amounts_ok :: "db \<Rightarrow> bool" where
  "amounts_ok d \<longleftrightarrow> (\<forall>r \<in> set (returns d). ret_type r = RefundReturn \<longrightarrow>
     ret_refund_amount r = calculate_refund_amount (return_items_of d (ret_id r)))"

definition returns_inv :: "db \<Rightarrow> bool" where
  "returns_inv d \<longleftrightarrow> shop_inv d \<and> return_rows_ok d \<and> return_items_ok d \<and> one_active d \<and> quantities_ok d \<and> amounts_ok d"

lemma returns_invD:
  assumes "returns_inv d"
  shows "shop_inv d" "return_rows_ok d" "return_items_ok d" "one_active d" "quantities_ok d" "amounts_ok d"
  using assms by (simp_all add: returns_inv_def)

lemma returns_inv_return:
  assumes "returns_inv d" and "get_return d rid = Some r"
  shows "ret_id r = rid" "rid < next_id d" "order_owned d (Some (ret_order r)) (ret_user r)" "r \<in> set (returns d)"
proof -
  show *: "ret_id r = rid" "r \<in> set (returns d)"
    using assms(2) by (auto dest: rget_Some_key rget_Some_in)
  show "rid < next_id d" "order_owned d (Some (ret_order r)) (ret_user r)"
    using returns_invD(2) [OF assms(1)] * by (auto simp: return_rows_ok_def)
qed

lemma returns_inv_quantity:
  assumes "returns_inv d"
  shows "\<forall>i \<in> set (return_items_of d rid). 0 \<le> ri_quantity i"
  using returns_invD(3) [OF assms] by (auto simp: return_items_ok_def return_item_ok_def return_items_of_def)

lemma already_returned_nonneg:
  assumes "return_items_ok d"
  shows "0 \<le> already_returned k d"
  unfolding already_returned_def
  by (rule sum_list_nonneg_int) (use assms in \<open>auto simp: return_items_ok_def return_item_ok_def\<close>)

section \<open>Steps that keep the return tables\<close>

text \<open>What the rest of the shop does: it adds order items, keeps the owners of orders and never touches a return.\<close>

definition elsewhere :: "db \<Rightarrow> db \<Rightarrow> bool" where
  "elsewhere d d' \<longleftrightarrow> shop_inv d' \<and> returns d' = returns d \<and> return_items d' = return_items d \<and> next_id d \<le> next_id d'
     \<and> (\<exists>new. order_items d' = order_items d @ new) \<and> keys_distinct oi_id (order_items d')
     \<and> (\<forall>oid uid. order_owned d (Some oid) uid \<longrightarrow> order_owned d' (Some oid) uid)"

lemma elsewhere_inv:
  assumes inv: "returns_inv d" and st: "elsewhere d d'"
  shows "returns_inv d'"
proof -
  obtain new where new: "order_items d' = order_items d @ new" and dist: "keys_distinct oi_id (order_items d')"
    and eq: "returns d' = returns d" "return_items d' = return_items d" and n: "next_id d \<le> next_id d'"
    and own: "\<And>oid uid. order_owned d (Some oid) uid \<Longrightarrow> order_owned d' (Some oid) uid" and shop: "shop_inv d'"
    using st by (auto simp: elsewhere_def)
  have ar: "already_returned k d' = already_returned k d" for k
    by (simp add: already_returned_def is_completed_refund_def eq)
  have ok: "return_item_ok d' i" if "i \<in> set (return_items d)" for i
    using returns_invD(3) [OF inv] that by (fastforce simp: return_items_ok_def return_item_ok_def eq new)
  have old: "oi_id oi \<in> oi_id ` set (order_items d)" if i: "i \<in> set (return_items d)" "ri_order_item i = oi_id oi" for i oi
  proof -
    obtain oj where "rget oi_id (order_items d) (oi_id oi) = Some oj"
      using returns_invD(3) [OF inv] i by (auto simp: return_items_ok_def return_item_ok_def)
    then show ?thesis
      using rget_None_iff [of oi_id "order_items d" "oi_id oi"] by auto
  qed
  have fresh: "already_returned (oi_id oi) d = 0" "\<forall>i \<in> set (return_items d). ri_order_item i \<noteq> oi_id oi"
    if "oi \<in> set new" for oi
  proof -
    have "oi_id oi \<notin> oi_id ` set (order_items d)"
      using dist that by (auto simp: new)
    then show *: "\<forall>i \<in> set (return_items d). ri_order_item i \<noteq> oi_id oi"
      using old by blast
    then have "filter (\<lambda>i. ri_order_item i = oi_id oi \<and> is_completed_refund d (ri_return i)) (return_items d) = []"
      by (auto simp: filter_empty_conv)
    then show "already_returned (oi_id oi) d = 0"
      by (simp add: already_returned_def)
  qed
  have "quantities_ok d'"
    unfolding quantities_ok_def ar eq new
  proof (intro ballI)
    fix oi
    assume "oi \<in> set (order_items d @ new)"
    then consider "oi \<in> set (order_items d)" | "oi \<in> set new"
      by auto
    then show "already_returned (oi_id oi) d \<le> oi_quantity oi \<and> (\<forall>i \<in> set (return_items d).
        ri_order_item i = oi_id oi \<and> active_item d' i \<longrightarrow> already_returned (oi_id oi) d + ri_quantity i \<le> oi_quantity oi)"
    proof cases
      case 1
      then show ?thesis
        using returns_invD(5) [OF inv] by (simp add: quantities_ok_def active_item_def eq)
    next
      case 2
      then have "0 \<le> oi_quantity oi"
        using shop_invD(4) [OF shop] by (auto simp: items_ok_def new)
      then show ?thesis
        using fresh [OF 2] by simp
    qed
  qed
  moreover have "return_rows_ok d'"
    using returns_invD(2) [OF inv] n own unfolding return_rows_ok_def eq by (meson less_le_trans)
  moreover have "return_items_ok d'"
    using returns_invD(3) [OF inv] ok dist by (simp add: return_items_ok_def eq)
  moreover have "one_active d'"
    using returns_invD(4) [OF inv] unfolding one_active_def eq .
  moreover have "amounts_ok d'"
    using returns_invD(6) [OF inv] by (simp add: amounts_ok_def return_items_of_def eq)
  ultimately show ?thesis
    using shop by (simp add: returns_inv_def)
qed

section \<open>Steps that change the status\<close>

text \<open>
  A new version \<open>r1\<close> of one row that is in progress only if the old one was and is a completed refund
  only if the old one was.
\<close>

definition row_step :: "return_request \<Rightarrow> return_request \<Rightarrow> bool" where
  "row_step r r1 \<longleftrightarrow> ret_id r1 = ret_id r \<and> ret_order r1 = ret_order r \<and> ret_user r1 = ret_user r
     \<and> ret_type r1 = ret_type r \<and> ret_refund_amount r1 = ret_refund_amount r
     \<and> (is_active_return r1 \<longrightarrow> is_active_return r)"

lemma rupd_const_keys: "key q = k \<Longrightarrow> map key (rupd key rs k (\<lambda>_. q)) = map key rs"
  by (induction rs) auto

lemma get_return_row:
  assumes "get_return d rid = Some r" "ret_id r1 = rid" "returns d' = rupd ret_id (returns d) rid (\<lambda>_. r1)"
  shows "get_return d' k = (if k = rid then Some r1 else get_return d k)"
  using assms by (simp add: rget_rupd_const)

lemma row_step_parts:
  assumes inv: "returns_inv d" and r: "get_return d rid = Some r" and st: "row_step r r1"
    and eq: "returns d' = rupd ret_id (returns d) rid (\<lambda>_. r1)" "return_items d' = return_items d"
      "order_items d' = order_items d" "next_id d \<le> next_id d'"
      "\<And>oid uid. order_owned d (Some oid) uid \<Longrightarrow> order_owned d' (Some oid) uid"
  shows "return_rows_ok d'" "return_items_ok d'" "one_active d'" "amounts_ok d'" "active_item d' i \<longrightarrow> active_item d i"
proof -
  have rid: "ret_id r = rid" "r \<in> set (returns d)"
    using returns_inv_return [OF inv r] by simp_all
  have r1: "ret_id r1 = rid" "ret_order r1 = ret_order r" "ret_user r1 = ret_user r" "ret_type r1 = ret_type r"
    "ret_refund_amount r1 = ret_refund_amount r" "is_active_return r1 \<Longrightarrow> is_active_return r"
    using st rid by (simp_all add: row_step_def)
  have keys: "map ret_id (returns d') = map ret_id (returns d)"
    unfolding eq by (rule rupd_const_keys) (rule r1)
  have rows: "s \<in> set (returns d') \<Longrightarrow> s = r1 \<or> s \<in> set (returns d)" for s
    unfolding eq using set_rupdD by fastforce
  note get = get_return_row [OF r r1(1) eq(1)]
  show "return_rows_ok d'"
    using returns_invD(2) [OF inv] rid r1 eq(4,5) unfolding return_rows_ok_def keys
    by (auto dest!: rows intro: less_le_trans)
  show "return_items_ok d'"
    using returns_invD(3) [OF inv] r r1(2) by (auto simp: return_items_ok_def return_item_ok_def eq(2,3) get)
  have act: "s \<in> set (returns d') \<Longrightarrow> is_active_return s
      \<Longrightarrow> \<exists>q \<in> set (returns d). ret_id q = ret_id s \<and> ret_order q = ret_order s \<and> is_active_return q" for s
    using rows [of s] rid r1 by auto
  show "one_active d'"
    using returns_invD(4) [OF inv] unfolding one_active_def by (metis act)
  have items: "return_items_of d' k = return_items_of d k" for k
    by (simp add: return_items_of_def eq)
  show "amounts_ok d'"
    using returns_invD(6) [OF inv] rid r1 by (auto simp: amounts_ok_def items dest!: rows)
  show "active_item d' i \<longrightarrow> active_item d i"
    using r r1(6) by (simp add: active_item_def get)
qed

lemma status_step_inv:
  assumes inv: "returns_inv d" and r: "get_return d rid = Some r" and st: "row_step r r1"
    and same: "(ret_type r = RefundReturn \<and> ret_status r1 = Completed) = (ret_type r = RefundReturn \<and> ret_status r = Completed)"
    and shop: "shop_inv d'"
    and eq: "returns d' = rupd ret_id (returns d) rid (\<lambda>_. r1)" "return_items d' = return_items d"
      "order_items d' = order_items d" "next_id d \<le> next_id d'"
      "\<And>oid uid. order_owned d (Some oid) uid \<Longrightarrow> order_owned d' (Some oid) uid"
  shows "returns_inv d'"
proof -
  note p = row_step_parts [OF inv r st eq]
  have rid: "ret_id r1 = rid" "ret_type r1 = ret_type r"
    using st returns_inv_return(1) [OF inv r] by (simp_all add: row_step_def)
  have "is_completed_refund d' k = is_completed_refund d k" for k
    using r same rid(2) by (auto simp: is_completed_refund_def get_return_row [OF r rid(1) eq(1)])
  then have "already_returned k d' = already_returned k d" for k
    by (simp add: already_returned_def eq)
  then have "quantities_ok d'"
    using returns_invD(5) [OF inv] p(5) unfolding quantities_ok_def eq(2,3) by auto
  then show ?thesis
    using p(1-4) shop by (simp add: returns_inv_def)
qed

section \<open>The seller's steps\<close>

text \<open>Only one return row is written.\<close>

definition only_return :: "pk \<Rightarrow> return_request \<Rightarrow> db \<Rightarrow> db \<Rightarrow> bool" where
  "only_return rid r1 d d' \<longleftrightarrow> returns d' = rupd ret_id (returns d) rid (\<lambda>_. r1) \<and> return_items d' = return_items d
     \<and> order_items d' = order_items d \<and> orders d' = orders d \<and> users d' = users d \<and> products d' = products d
     \<and> histories d' = histories d \<and> next_id d' = next_id d \<and> cart_items d' = cart_items d \<and> payments d' = payments d"

definition moves :: "return_status \<Rightarrow> return_status \<Rightarrow> pk \<Rightarrow> return_request \<Rightarrow> db \<Rightarrow> db \<Rightarrow> bool" where
  "moves s t rid r1 d d' \<longleftrightarrow> (\<exists>r. get_return d rid = Some r \<and> ret_status r = s \<and> ret_status r1 = t \<and> row_step r r1)
     \<and> only_return rid r1 d d'"

lemma notify_sellers_frame [simp]:
  "returns (notify_sellers so r t x d) = returns d" "return_items (notify_sellers so r t x d) = return_items d"
  "order_items (notify_sellers so r t x d) = order_items d" "orders (notify_sellers so r t x d) = orders d"
  "users (notify_sellers so r t x d) = users d" "products (notify_sellers so r t x d) = products d"
  "histories (notify_sellers so r t x d) = histories d" "next_id (notify_sellers so r t x d) = next_id d"
  "cart_items (notify_sellers so r t x d) = cart_items d" "payments (notify_sellers so r t x d) = payments d"
proof -
  have *: "g (fold (\<lambda>s. add_notification s t x) ss d) = g d" if "\<And>s d. g (add_notification s t x d) = g d" for g :: "db \<Rightarrow> 'a" and ss
    using that by (induction ss arbitrary: d) simp_all
  show "returns (notify_sellers so r t x d) = returns d" "return_items (notify_sellers so r t x d) = return_items d"
    "order_items (notify_sellers so r t x d) = order_items d" "orders (notify_sellers so r t x d) = orders d"
    "users (notify_sellers so r t x d) = users d" "products (notify_sellers so r t x d) = products d"
    "histories (notify_sellers so r t x d) = histories d" "next_id (notify_sellers so r t x d) = next_id d"
    "cart_items (notify_sellers so r t x d) = cart_items d" "payments (notify_sellers so r t x d) = payments d"
    unfolding notify_sellers_def by (rule *, simp)+
qed

lemma is_active_status [simp]:
  "is_active_return (save_account fe r) = is_active_return r"
  "is_active_return (r\<lparr>ret_status := s\<rparr>) \<longleftrightarrow> s \<in> {Requested, Approved, Shipping, Received}"
  by (simp_all add: is_active_return_def)

lemmas return_step_defs = of_get_eq_Inr rbind_eq_Inr save_return_def Let_def moves_def only_return_def row_step_def
  is_active_return_def

lemma approve_moves: "approve_return fe rid memo now d = Inr (r1, d') \<Longrightarrow> moves Requested Approved rid r1 d d'"
  by (auto simp: approve_return_def return_step_defs dest: rget_Some_key split: if_splits)

lemma reject_moves: "reject_return fe rid why d = Inr (r1, d') \<Longrightarrow> moves Requested Rejected rid r1 d d'"
  by (auto simp: reject_return_def return_step_defs dest: rget_Some_key split: if_splits)

lemma tracking_moves:
  "update_return_tracking fe so rid company tracking d = Inr (r1, d') \<Longrightarrow> moves Approved Shipping rid r1 d d'"
  by (auto simp: update_return_tracking_def return_step_defs dest: rget_Some_key split: if_splits)

lemma receive_moves: "confirm_receive_return fe rid d = Inr (r1, d') \<Longrightarrow> moves Shipping Received rid r1 d d'"
  by (auto simp: confirm_receive_return_def return_step_defs dest: rget_Some_key split: if_splits)

lemma moves_inv:
  assumes inv: "returns_inv d" and mv: "moves s t rid r1 d d'" and nc: "s \<noteq> Completed" "t \<noteq> Completed"
  shows "returns_inv d'"
proof -
  obtain r where r: "get_return d rid = Some r" "ret_status r = s" "ret_status r1 = t" "row_step r r1"
    and o: "only_return rid r1 d d'"
    using mv by (auto simp: moves_def)
  have inert: "shop_inert d d'"
    using o by (simp add: only_return_def shop_inert_def)
  show ?thesis
    by (rule status_step_inv [OF inv r(1) r(4) _ shop_change_inv [OF inert_change [OF returns_invD(1) [OF inv] inert]]])
      (use r nc o in \<open>simp_all add: only_return_def order_owned_def\<close>)
qed

section \<open>Exchanges\<close>

lemma complete_exchange_Inr:
  assumes "complete_exchange fe rid tracking company now d = Inr (r1, d')"
  obtains r d1 where "get_return d rid = Some r" "ret_type r = ExchangeReturn" "ret_status r = Received"
    "take_exchange_product (ret_exchange_product r) d = Inr ((), d1)" "ret_status r1 = Completed" "row_step r r1"
    "only_return rid r1 (d1\<lparr>products := restock (return_pieces d1 (return_items_of d1 rid)) (products d1)\<rparr>) d'"
  using assms unfolding complete_exchange_def put_back_items
  by (auto simp: return_step_defs dest: rget_Some_key split: if_splits)

lemma take_exchange_Inr:
  assumes "take_exchange_product ex d = Inr (x, d1)"
  shows "d1 = d\<lparr>products := products d1\<rparr>" "products_ok (products d) \<Longrightarrow> products_ok (products d1)"
    "map p_id (products d1) = map p_id (products d)"
    "stock_in (products d1) k = stock_in (products d) k - (if ex = Some k then 1 else 0)"
proof -
  have "d1 = d\<lparr>products := products d1\<rparr> \<and> (products_ok (products d) \<longrightarrow> products_ok (products d1))
    \<and> map p_id (products d1) = map p_id (products d)
    \<and> stock_in (products d1) k = stock_in (products d) k - (if ex = Some k then 1 else 0)"
  proof (cases ex)
    case (Some pid)
    then obtain p where p: "get_product d pid = Some p" "1 \<le> p_stock p"
      and d1: "d1 = upd_product pid (map_stock (\<lambda>s. s - 1)) d"
      using assms by (auto simp: take_exchange_product_def rbind_eq_Inr of_get_eq_Inr split: if_splits)
    have keys: "map p_id (products d1) = map p_id (products d)"
      unfolding d1 by (simp add: stock_col.keys_bump)
    have "0 \<le> p_stock q" if ok: "products_ok (products d)" and q: "q \<in> set (products d1)" for q
    proof -
      consider "q \<in> set (products d)" | q' where "q' \<in> set (products d)" "p_id q' = pid" "q = map_stock (\<lambda>s. s - 1) q'"
        using q unfolding d1 by (auto dest!: set_rupdD)
      then show ?thesis
      proof cases
        case 2
        then have "q' = p"
          using ok p(1) rget_in_distinct [of p_id "products d" q'] by (simp add: products_ok_def)
        then show ?thesis
          using 2 p(2) by simp
      qed (use ok in \<open>simp add: products_ok_def\<close>)
    qed
    then have "products_ok (products d) \<longrightarrow> products_ok (products d1)"
      unfolding products_ok_def keys by blast
    then show ?thesis
      using keys p(1) Some stock_in_add [of "products d" pid "- 1" k] by (auto simp: d1 upd_product_def)
  qed (use assms in \<open>simp add: take_exchange_product_def\<close>)
  then show "d1 = d\<lparr>products := products d1\<rparr>" "products_ok (products d) \<Longrightarrow> products_ok (products d1)"
    "map p_id (products d1) = map p_id (products d)"
    "stock_in (products d1) k = stock_in (products d) k - (if ex = Some k then 1 else 0)"
    by simp_all
qed

text \<open>The shelf after an exchange.\<close>

lemma exchange_shelf:
  assumes inv: "returns_inv d" and run: "complete_exchange fe rid tracking company now d = Inr (r1, d')"
  shows "\<exists>r ps. get_return d rid = Some r \<and> ret_type r = ExchangeReturn \<and> ret_status r = Received \<and> ret_status r1 = Completed
    \<and> row_step r r1 \<and> only_return rid r1 (d\<lparr>products := ps\<rparr>) d' \<and> products_ok ps \<and> map p_id ps = map p_id (products d)
    \<and> (\<forall>k. get_product d k \<noteq> None \<longrightarrow> stock_in ps k = stock_in (products d) k
         - (if ret_exchange_product r = Some k then 1 else 0) + items_qty k (return_pieces d (return_items_of d rid)))"
proof -
  obtain r d1 where r: "get_return d rid = Some r" "ret_type r = ExchangeReturn" "ret_status r = Received" "ret_status r1 = Completed"
      "row_step r r1"
    and d1: "take_exchange_product (ret_exchange_product r) d = Inr ((), d1)"
    and d': "only_return rid r1 (d1\<lparr>products := restock (return_pieces d1 (return_items_of d1 rid)) (products d1)\<rparr>) d'"
    using run by (rule complete_exchange_Inr)
  note t = take_exchange_Inr [OF d1]
  define pcs where "pcs = return_pieces d (return_items_of d rid)"
  have pieces: "return_pieces d1 (return_items_of d1 rid) = pcs"
    by (subst t(1), subst (2) t(1)) (simp add: pcs_def return_items_of_def return_pieces_cong [of "d\<lparr>products := _\<rparr>" d])
  have q: "\<forall>i \<in> set pcs. 0 \<le> oi_quantity i"
    using returns_inv_quantity [OF inv] by (auto simp: pcs_def return_pieces_def)
  have "d1\<lparr>products := restock pcs (products d1)\<rparr> = d\<lparr>products := restock pcs (products d1)\<rparr>"
    by (subst t(1)) simp
  then have "only_return rid r1 (d\<lparr>products := restock pcs (products d1)\<rparr>) d'"
    using d' by (simp add: pieces)
  moreover have "products_ok (restock pcs (products d1))"
    by (rule products_ok_restock(1) [OF t(2) [OF shop_invD(2) [OF returns_invD(1) [OF inv]]] q])
  moreover have "stock_in (restock pcs (products d1)) k = stock_in (products d) k
      - (if ret_exchange_product r = Some k then 1 else 0) + items_qty k pcs" if "get_product d k \<noteq> None" for k
    using that rget_None_keys [OF t(3), of k] by (auto simp: stock_in_restock t(4))
  ultimately show ?thesis
    using r t(3) unfolding pcs_def by (intro exI [of _ r] exI [of _ "restock (return_pieces d (return_items_of d rid)) (products d1)"]) simp
qed

lemma exchange_inv:
  assumes inv: "returns_inv d" and run: "complete_exchange fe rid tracking company now d = Inr (r1, d')"
  shows "returns_inv d'"
proof -
  obtain r ps where r: "get_return d rid = Some r" "ret_type r = ExchangeReturn" "row_step r r1"
    and o: "only_return rid r1 (d\<lparr>products := ps\<rparr>) d'" and ps: "products_ok ps" "map p_id ps = map p_id (products d)"
    using exchange_shelf [OF inv run] by blast
  have "shop_inert (d\<lparr>products := ps\<rparr>) d'"
    using o by (simp add: only_return_def shop_inert_def)
  then have "shop_inv d'"
    using shop_change_inv [OF inert_change [OF shop_inv_products [OF returns_invD(1) [OF inv] ps]]] by simp
  then show ?thesis
    by (rule status_step_inv [OF inv r(1) r(3), rotated])
      (use r o in \<open>simp_all add: only_return_def order_owned_def\<close>)
qed

section \<open>Refunds\<close>

lemma sum_list_filter_disj:
  assumes "\<And>x. x \<in> set xs \<Longrightarrow> \<not> (P x \<and> Q x)"
  shows "sum_list (map g (filter (\<lambda>x. P x \<or> Q x) xs)) = sum_list (map g (filter P xs)) + (sum_list (map g (filter Q xs)) :: int)"
  using assms by (induction xs) auto

lemma filter_key_unique: "distinct (map key xs) \<Longrightarrow> x \<in> set xs \<Longrightarrow> filter (\<lambda>y. key y = key x) xs = [x]"
  by (induction xs) (auto simp: filter_empty_conv image_iff)

lemma refund_finished_inv:
  assumes inv: "shop_inv d2" and fin: "refund_finished fe now ord r d2 d'"
  shows "shop_inv d'"
proof -
  let ?f = "set_order_status Refunded now"
  have f: "\<And>x. o_id (?f x) = o_id x" "\<And>x. o_user (?f x) = o_user x"
    by (simp_all add: set_order_status_def)
  have os: "orders d' = orders d2 \<or> orders d' = rupd o_id (orders d2) (o_id ord) ?f"
    using fin by (auto simp: refund_finished_def)
  have eq: "users d' = users d2" "histories d' = histories d2" "products d' = products d2" "order_items d' = order_items d2"
    "next_id d' = next_id d2" "cart_items d' = cart_items d2"
    using fin by (simp_all add: refund_finished_def)
  have "\<exists>y. get_order d' k = Some y \<and> o_user y = o_user x" if "get_order d2 k = Some x" for k x
    using os that by (auto simp: rget_rupd f)
  then have "ledger_inv d'"
    using ledger_inv_frame [OF shop_invD(1) [OF inv] eq(1,2)] eq(5) by auto
  moreover have "orders_ok (map u_id (users d2)) (next_id d2) (orders d')"
    using os shop_invD(3) [OF inv] orders_ok_rupd [OF shop_invD(3) [OF inv] f] by auto
  ultimately show ?thesis
    using shop_invD [OF inv] by (intro shop_invI) (simp_all add: eq)
qed

text \<open>What a refund leaves in the tables.\<close>

lemma complete_refund_tables:
  assumes run: "complete_refund http fe rid now d = Inr (r1, d')" and inv: "returns_inv d"
  obtains r ord user d1 d2 where "refund_allowed rid now d r ord user" "ret_id r = rid" "o_id ord = ret_order r"
    "r1 = completed_row fe now r" "shop_inv d'" "returns d' = rupd ret_id (returns d) rid (\<lambda>_. r1)"
    "return_items d' = return_items d" "order_items d' = order_items d" "next_id d \<le> next_id d'"
    "products d' = returned_shelf rid d" "payments d' = payments d1"
    "cash_refunded (payment_of d (o_id ord)) (rs_cash (refund_shares ord r d)) d d1"
    "orders d' = (if returned_quantity (o_id ord) d' \<ge> ordered_quantity (o_id ord) d'
       then rupd o_id (orders d) (o_id ord) (set_order_status Refunded now) else orders d)"
    "booked CancelRefund (o_id ord) d' = booked CancelRefund (o_id ord) d + max 0 (rs_points (refund_shares ord r d))"
    "booked CancelDeduct (o_id ord) d' = booked CancelDeduct (o_id ord) d - max 0 (rs_earned (refund_shares ord r d))"
    "\<exists>new. map core (histories d') = map core (histories d) @ new"
proof (rule complete_refund_Inr [OF run returns_invD(1) [OF inv] _ returns_inv_quantity [OF inv]])
  show "get_return d rid = Some r \<Longrightarrow> order_owned d (Some (ret_order r)) (ret_user r)" for r
    using returns_inv_return(3) [OF inv] .
  fix r ord user d1 d2
  assume al: "refund_allowed rid now d r ord user"
    and cash: "cash_refunded (payment_of d (o_id ord)) (rs_cash (refund_shares ord r d)) d d1"
    and inv1: "shop_inv (d1\<lparr>products := returned_shelf rid d\<rparr>)"
    and ch: "ledger_change (d1\<lparr>products := returned_shelf rid d\<rparr>) d2"
    and b: "booked CancelRefund (o_id ord) d2 = booked CancelRefund (o_id ord) d + max 0 (rs_points (refund_shares ord r d))"
      "booked CancelDeduct (o_id ord) d2 = booked CancelDeduct (o_id ord) d - max 0 (rs_earned (refund_shares ord r d))"
    and r1: "r1 = completed_row fe now r" and fin: "refund_finished fe now ord r d2 d'"
  have rid: "ret_id r = rid" "o_id ord = ret_order r"
    using al by (auto simp: refund_allowed_def dest: rget_Some_key)
  have fr: "points_frame (d1\<lparr>products := returned_shelf rid d\<rparr>) d2"
    using ch by (simp add: ledger_change_def)
  note e = points_frame_eqs [OF fr, simplified]
  have n: "next_id d1 \<le> next_id d2" and hist: "\<exists>new. map core (histories d2) = map core (histories d1) @ new"
    using ch by (auto simp: ledger_change_def append_only_def)
  note c = cash_refunded_frame [OF cash]
  have inv2: "shop_inv d2"
    using shop_change_inv [OF ledger_shop_change [OF inv1 ch]] .
  have t: "returns d' = rupd ret_id (returns d2) rid (\<lambda>_. r1)" "return_items d' = return_items d2" "histories d' = histories d2"
    "products d' = products d2" "order_items d' = order_items d2" "payments d' = payments d2" "next_id d' = next_id d2"
    "orders d' = (if returned_quantity (o_id ord) d' \<ge> ordered_quantity (o_id ord) d'
       then rupd o_id (orders d2) (o_id ord) (set_order_status Refunded now) else orders d2)"
    using fin unfolding refund_finished_def r1 rid(1) by simp_all
  show thesis
    by (rule that [OF al rid r1 refund_finished_inv [OF inv2 fin] _ _ _ _ _ _ cash])
      (use n b hist in \<open>simp_all add: t e c\<close>)
qed

lemma completed_refund_after:
  assumes r: "get_return d rid = Some r" and rd: "ret_type r = RefundReturn" "ret_status r1 = Completed" "ret_id r1 = rid"
      "ret_type r1 = ret_type r"
    and eq: "returns d' = rupd ret_id (returns d) rid (\<lambda>_. r1)"
  shows "is_completed_refund d' k \<longleftrightarrow> is_completed_refund d k \<or> k = rid"
  using rd r by (simp add: is_completed_refund_def get_return_row [OF r rd(3) eq])

lemma already_returned_after:
  assumes r: "get_return d rid = Some r" "ret_status r = Received"
    and comp: "\<And>k. is_completed_refund d' k \<longleftrightarrow> is_completed_refund d k \<or> k = rid"
    and eq: "return_items d' = return_items d"
  shows "already_returned k d' = already_returned k d
    + sum_list (map ri_quantity (filter (\<lambda>i. ri_order_item i = k \<and> ri_return i = rid) (return_items d)))"
proof -
  have "\<not> is_completed_refund d rid"
    using r by (simp add: is_completed_refund_def)
  then have "sum_list (map ri_quantity (filter (\<lambda>i. (ri_order_item i = k \<and> is_completed_refund d (ri_return i))
        \<or> (ri_order_item i = k \<and> ri_return i = rid)) (return_items d))) = already_returned k d
      + sum_list (map ri_quantity (filter (\<lambda>i. ri_order_item i = k \<and> ri_return i = rid) (return_items d)))"
    unfolding already_returned_def by (intro sum_list_filter_disj) auto
  then show ?thesis
    by (simp add: already_returned_def comp eq conj_disj_distribL)
qed

lemma refund_quantities:
  assumes inv: "returns_inv d" and r: "get_return d rid = Some r" "ret_status r = Received"
    and comp: "\<And>k. is_completed_refund d' k \<longleftrightarrow> is_completed_refund d k \<or> k = rid"
    and act: "\<And>i. active_item d' i \<longrightarrow> active_item d i \<and> ri_return i \<noteq> rid"
    and eq: "return_items d' = return_items d" "order_items d' = order_items d"
  shows "quantities_ok d'"
  unfolding quantities_ok_def eq
proof (intro ballI)
  fix oi
  assume oi: "oi \<in> set (order_items d)"
  note q = returns_invD(5) [OF inv, unfolded quantities_ok_def, rule_format, OF oi]
  have ract: "is_active_return r"
    using r(2) by (simp add: is_active_return_def)
  have dist: "distinct (map (\<lambda>i. (ri_return i, ri_order_item i)) (return_items d))"
    and ok: "\<And>i. i \<in> set (return_items d) \<Longrightarrow> return_item_ok d i"
    using returns_invD(3) [OF inv] by (auto simp: return_items_ok_def)
  note ar = already_returned_after [OF r comp eq(1), of "oi_id oi"]
  show "already_returned (oi_id oi) d' \<le> oi_quantity oi \<and> (\<forall>i \<in> set (return_items d).
      ri_order_item i = oi_id oi \<and> active_item d' i \<longrightarrow> already_returned (oi_id oi) d' + ri_quantity i \<le> oi_quantity oi)"
  proof (cases "\<exists>i \<in> set (return_items d). ri_order_item i = oi_id oi \<and> ri_return i = rid")
    case False
    then have "filter (\<lambda>i. ri_order_item i = oi_id oi \<and> ri_return i = rid) (return_items d) = []"
      by (simp add: filter_empty_conv)
    then have "already_returned (oi_id oi) d' = already_returned (oi_id oi) d"
      using ar by simp
    then show ?thesis
      using q act by simp
  next
    case True
    then obtain i where i: "i \<in> set (return_items d)" "ri_order_item i = oi_id oi" "ri_return i = rid"
      by blast
    have "filter (\<lambda>j. ri_order_item j = oi_id oi \<and> ri_return j = rid) (return_items d) = [i]"
      using filter_key_unique [OF dist i(1)] i(2,3) by (simp add: conj_commute)
    then have ar': "already_returned (oi_id oi) d' = already_returned (oi_id oi) d + ri_quantity i"
      using ar by simp
    have "active_item d i"
      using r(1) ract i(3) by (simp add: active_item_def)
    then have le: "already_returned (oi_id oi) d + ri_quantity i \<le> oi_quantity oi"
      using q i by blast
    have "\<not> active_item d' j" if j: "j \<in> set (return_items d)" "ri_order_item j = oi_id oi" for j
    proof
      assume "active_item d' j"
      then obtain s where s: "get_return d (ri_return j) = Some s" "is_active_return s" "ri_return j \<noteq> rid"
        using act [of j] by (auto simp: active_item_def split: option.splits)
      have "ret_order s = ret_order r"
        using ok [OF i(1)] ok [OF j(1)] i(2,3) j(2) s(1) r(1) by (auto simp: return_item_ok_def)
      then have "ret_id s = ret_id r"
        using returns_invD(4) [OF inv] s(2) ract returns_inv_return(4) [OF inv s(1)] returns_inv_return(4) [OF inv r(1)]
        unfolding one_active_def by blast
      then show False
        using s(3) returns_inv_return(1) [OF inv s(1)] returns_inv_return(1) [OF inv r(1)] by simp
    qed
    then show ?thesis
      using ar' le by auto
  qed
qed

lemma refund_inv:
  assumes inv: "returns_inv d" and run: "complete_refund http fe rid now d = Inr (r1, d')"
  shows "returns_inv d'"
  using run inv
proof (rule complete_refund_tables)
  fix r ord user d1
  assume al: "refund_allowed rid now d r ord user" and rid: "ret_id r = rid" "o_id ord = ret_order r"
    and r1: "r1 = completed_row fe now r" and shop: "shop_inv d'"
    and eq: "returns d' = rupd ret_id (returns d) rid (\<lambda>_. r1)" "return_items d' = return_items d"
      "order_items d' = order_items d" "next_id d \<le> next_id d'"
    and os: "orders d' = (if returned_quantity (o_id ord) d' \<ge> ordered_quantity (o_id ord) d'
       then rupd o_id (orders d) (o_id ord) (set_order_status Refunded now) else orders d)"
  have r: "get_return d rid = Some r" "ret_type r = RefundReturn" "ret_status r = Received"
    using al by (simp_all add: refund_allowed_def)
  have st: "row_step r r1"
    by (simp add: r1 row_step_def is_active_return_def)
  have "orders d' = orders d \<or> orders d' = rupd o_id (orders d) (o_id ord) (set_order_status Refunded now)"
    using os by metis
  then have own: "order_owned d (Some oid) uid \<Longrightarrow> order_owned d' (Some oid) uid" for oid uid
    by (auto simp: order_owned_def rget_rupd set_order_status_def split: option.splits if_splits)
  note p = row_step_parts [OF inv r(1) st eq own]
  note get = get_return_row [OF r(1) _ eq(1)]
  have comp: "is_completed_refund d' k \<longleftrightarrow> is_completed_refund d k \<or> k = rid" for k
    by (rule completed_refund_after [OF r(1,2) _ _ _ eq(1)]) (simp_all add: r1 rid)
  have "active_item d' i \<longrightarrow> active_item d i \<and> ri_return i \<noteq> rid" for i
    using get r by (auto simp: active_item_def r1 rid is_active_return_def)
  then have "quantities_ok d'"
    by (rule refund_quantities [OF inv r(1,3) comp _ eq(2,3)])
  then show "returns_inv d'"
    using p(1-4) shop by (simp add: returns_inv_def)
qed

section \<open>Requests\<close>

definition item_row :: "return_item \<Rightarrow> pk \<times> pk \<times> int \<times> money" where
  "item_row i = (ri_return i, ri_order_item i, ri_quantity i, ri_product_price i)"

lemma create_return_items_Inr:
  assumes "fold_res (create_return_item rid) xs d = Inr d1"
  obtains new n where "d1 = d\<lparr>return_items := return_items d @ new, next_id := n\<rparr>" "next_id d \<le> n"
    "map item_row new = map (\<lambda>(oi, q). (rid, oi_id oi, q, oi_price oi)) xs" "\<forall>i \<in> set new. 0 \<le> ri_quantity i"
    "distinct (map (\<lambda>i. (ri_return i, ri_order_item i)) (return_items d))
       \<Longrightarrow> distinct (map (\<lambda>i. (ri_return i, ri_order_item i)) (return_items d @ new))"
  using assms
proof (induction xs arbitrary: d thesis)
  case Nil
  then have "d1 = d"
    by simp
  then show ?case
    by (intro Nil(1) [of "next_id d" "[]"]) simp_all
next
  case (Cons x xs)
  obtain oi q where x: "x = (oi, q)"
    by (cases x)
  let ?i = "\<lparr>ri_id = next_id d, ri_return = rid, ri_order_item = oi_id oi, ri_quantity = q,
              ri_product_name = oi_product_name oi, ri_product_price = oi_price oi\<rparr>"
  let ?e = "d\<lparr>return_items := return_items d @ [?i], next_id := Suc (next_id d)\<rparr>"
  obtain e where e: "create_return_item rid x d = Inr e" "fold_res (create_return_item rid) xs e = Inr d1"
    using Cons.prems(2) by (cases "create_return_item rid x d") simp_all
  then have ok: "0 \<le> q" "\<forall>i \<in> set (return_items d). \<not> (ri_return i = rid \<and> ri_order_item i = oi_id oi)" and "e = ?e"
    by (auto simp: x create_return_item_def list_ex_iff split: if_splits)
  then have rest: "fold_res (create_return_item rid) xs ?e = Inr d1"
    using e(2) by simp
  show ?case
  proof (rule Cons.IH [OF _ rest])
    fix new n
    assume "d1 = ?e\<lparr>return_items := return_items ?e @ new, next_id := n\<rparr>" "next_id ?e \<le> n"
      "map item_row new = map (\<lambda>(oi, q). (rid, oi_id oi, q, oi_price oi)) xs" "\<forall>i \<in> set new. 0 \<le> ri_quantity i"
      "distinct (map (\<lambda>i. (ri_return i, ri_order_item i)) (return_items ?e))
         \<Longrightarrow> distinct (map (\<lambda>i. (ri_return i, ri_order_item i)) (return_items ?e @ new))"
    moreover have "item_row ?i = (rid, oi_id oi, q, oi_price oi)"
      by (simp add: item_row_def)
    moreover have "(rid, oi_id oi) \<notin> (\<lambda>i. (ri_return i, ri_order_item i)) ` set (return_items d)"
      using ok(2) by auto
    ultimately show thesis
      using ok(1) by (intro Cons.prems(1) [of n "?i # new"]) (simp_all add: x)
  qed
qed

lemma validate_items_loop_Inr:
  assumes "validate_items_loop oid xs d = Inr ois"
  shows "length ois = length xs"
    "\<forall>(oi, q) \<in> set (zip ois (map snd xs)). oi \<in> set (order_items d) \<and> oi_order oi = oid
       \<and> q \<le> oi_quantity oi - already_returned (oi_id oi) d"
proof -
  have "length ois = length xs \<and> (\<forall>(oi, q) \<in> set (zip ois (map snd xs)). oi \<in> set (order_items d) \<and> oi_order oi = oid
       \<and> q \<le> oi_quantity oi - already_returned (oi_id oi) d)"
    using assms
  proof (induction xs arbitrary: ois)
    case (Cons x xs)
    obtain k q where x: "x = (k, q)"
      by (cases x)
    obtain oi where oi: "find_order_item oid k d = Some oi"
      using Cons.prems by (cases "find_order_item oid k d") (simp_all add: x)
    then have "oi \<in> set (order_items d)" "oi_order oi = oid"
      by (auto simp: find_order_item_def find_Some_iff)
    moreover obtain ois' where "validate_items_loop oid xs d = Inr ois'" "ois = oi # ois'"
      and "q \<le> oi_quantity oi - already_returned (oi_id oi) d"
      using Cons.prems oi by (auto simp: x sbind_eq_Inr split: if_splits)
    ultimately show ?case
      using Cons.IH [of ois'] by (simp add: x)
  qed simp
  then show "length ois = length xs"
    "\<forall>(oi, q) \<in> set (zip ois (map snd xs)). oi \<in> set (order_items d) \<and> oi_order oi = oid
       \<and> q \<le> oi_quantity oi - already_returned (oi_id oi) d"
    by simp_all
qed

text \<open>A new request in progress and its items.\<close>

definition requested :: "return_request \<Rightarrow> return_item list \<Rightarrow> (order_item \<times> int) list \<Rightarrow> db \<Rightarrow> db \<Rightarrow> bool" where
  "requested r new xs d d' \<longleftrightarrow> returns d' = returns d @ [r] \<and> return_items d' = return_items d @ new
     \<and> ret_id r = next_id d \<and> ret_status r = Requested \<and> next_id d < next_id d'
     \<and> map item_row new = map (\<lambda>(oi, q). (next_id d, oi_id oi, q, oi_price oi)) xs \<and> (\<forall>i \<in> set new. 0 \<le> ri_quantity i)
     \<and> (distinct (map (\<lambda>i. (ri_return i, ri_order_item i)) (return_items d))
          \<longrightarrow> distinct (map (\<lambda>i. (ri_return i, ri_order_item i)) (return_items d @ new)))
     \<and> (ret_type r = RefundReturn \<longrightarrow> ret_refund_amount r = calculate_refund_amount (return_items_of d' (next_id d)))
     \<and> users d' = users d \<and> products d' = products d \<and> orders d' = orders d \<and> order_items d' = order_items d
     \<and> histories d' = histories d \<and> cart_items d' = cart_items d \<and> payments d' = payments d"

lemma new_return_sel [simp]:
  "ret_id (new_return fe ord uid form ex num rid) = rid" "ret_order (new_return fe ord uid form ex num rid) = o_id ord"
  "ret_user (new_return fe ord uid form ex num rid) = uid" "ret_number (new_return fe ord uid form ex num rid) = num"
  "ret_type (new_return fe ord uid form ex num rid) = rf_type form"
  "ret_status (new_return fe ord uid form ex num rid) = Requested"
  by (simp_all add: new_return_def)

lemma create_return_Inr:
  assumes run: "create_return fe ord uid form xs now d = Inr (r, d')"
    and fresh: "next_id d \<notin> ret_id ` set (returns d)"
  obtains new where "requested r new xs d d'" "ret_order r = o_id ord" "ret_user r = uid" "ret_type r = rf_type form"
    "ret_number r = generate_return_number now d" "ret_number r \<notin> ret_number ` set (returns d)"
proof -
  let ?rid = "next_id d"
  obtain r0 d1 where r0: "ret_id r0 = ?rid" "ret_status r0 = Requested" "ret_order r0 = o_id ord" "ret_user r0 = uid"
      "ret_type r0 = rf_type form" "ret_number r0 = generate_return_number now d"
    and un: "generate_return_number now d \<notin> ret_number ` set (returns d)"
    and loop: "fold_res (create_return_item ?rid) xs (d\<lparr>returns := returns d @ [r0], next_id := Suc ?rid\<rparr>) = Inr d1"
    and r: "r = (if rf_type form = RefundReturn
       then r0\<lparr>ret_refund_amount := calculate_refund_amount (return_items_of d1 ?rid)\<rparr> else r0)"
    and d': "d' = upd_return ?rid (\<lambda>_. r) d1"
  proof -
    obtain ex where ex: "(if rf_type form = ExchangeReturn then exchange_for (rf_exchange form) xs d else Inr (rf_exchange form)) = Inr ex"
      using run unfolding create_return_def Let_def by (auto split: sum.splits)
    let ?r = "new_return fe ord uid form ex (generate_return_number now d) ?rid"
    have un: "generate_return_number now d \<notin> ret_number ` set (returns d)"
      using run ex unfolding create_return_def Let_def by (auto split: if_splits)
    obtain d1 where "fold_res (create_return_item ?rid) xs (d\<lparr>returns := returns d @ [?r], next_id := Suc ?rid\<rparr>) = Inr d1"
      using run ex un unfolding create_return_def Let_def by (auto split: sum.splits)
    then show thesis
      using run ex un by (intro that [of ?r d1]) (auto simp: create_return_def Let_def)
  qed
  show thesis
    using loop
  proof (rule create_return_items_Inr)
    fix new n
    assume new: "d1 = d\<lparr>returns := returns d @ [r0], next_id := Suc ?rid\<rparr>\<lparr>return_items := return_items
          (d\<lparr>returns := returns d @ [r0], next_id := Suc ?rid\<rparr>) @ new, next_id := n\<rparr>"
      "next_id (d\<lparr>returns := returns d @ [r0], next_id := Suc ?rid\<rparr>) \<le> n"
      "map item_row new = map (\<lambda>(oi, q). (?rid, oi_id oi, q, oi_price oi)) xs" "\<forall>i \<in> set new. 0 \<le> ri_quantity i"
      "distinct (map (\<lambda>i. (ri_return i, ri_order_item i)) (return_items (d\<lparr>returns := returns d @ [r0], next_id := Suc ?rid\<rparr>)))
       \<Longrightarrow> distinct (map (\<lambda>i. (ri_return i, ri_order_item i)) (return_items (d\<lparr>returns := returns d @ [r0], next_id := Suc ?rid\<rparr>) @ new))"
    have rs: "returns d' = returns d @ [r]"
      using new(1) fresh r0(1) by (simp add: d' rupd_absent)
    have ri: "return_items d' = return_items d @ new" "return_items_of d' ?rid = return_items_of d1 ?rid"
      using new(1) by (simp_all add: d' return_items_of_def)
    have rr: "ret_id r = ?rid" "ret_status r = Requested" "ret_order r = o_id ord" "ret_user r = uid"
      "ret_type r = rf_type form" "ret_number r = generate_return_number now d"
      "ret_type r = RefundReturn \<longrightarrow> ret_refund_amount r = calculate_refund_amount (return_items_of d1 ?rid)"
      by (simp_all add: r r0)
    show thesis
    proof (rule that)
      show "requested r new xs d d'"
        unfolding requested_def using rs ri rr new un by (simp add: d')
    qed (use rr un in simp_all)
  qed
qed

lemma requested_inv:
  assumes inv: "returns_inv d" and rq: "requested r new xs d d'"
    and own: "order_owned d (Some (ret_order r)) (ret_user r)" and none: "\<not> has_active_return (ret_order r) d"
    and xs: "\<forall>(oi, q) \<in> set xs. oi \<in> set (order_items d) \<and> oi_order oi = ret_order r
       \<and> q \<le> oi_quantity oi - already_returned (oi_id oi) d"
  shows "returns_inv d'"
proof -
  let ?n = "next_id d"
  have eq: "returns d' = returns d @ [r]" "return_items d' = return_items d @ new" "ret_id r = ?n" "ret_status r = Requested"
    "next_id d < next_id d'" "map item_row new = map (\<lambda>(oi, q). (?n, oi_id oi, q, oi_price oi)) xs"
    "\<forall>i \<in> set new. 0 \<le> ri_quantity i" "orders d' = orders d" "order_items d' = order_items d"
    "ret_type r = RefundReturn \<longrightarrow> ret_refund_amount r = calculate_refund_amount (return_items_of d' ?n)"
    using rq by (simp_all add: requested_def)
  note rows = returns_invD(2) [OF inv, unfolded return_rows_ok_def]
  have fresh: "?n \<notin> ret_id ` set (returns d)"
    using rows by auto
  have get: "get_return d' k = (if k = ?n then Some r else get_return d k)" for k
  proof -
    have "get_return d ?n = None"
      using fresh by (simp add: rget_None_iff)
    then show ?thesis
      by (cases "get_return d k") (auto simp: eq(1,3))
  qed
  have old: "ri_return i \<noteq> ?n" "return_item_ok d i" if "i \<in> set (return_items d)" for i
  proof -
    show "return_item_ok d i"
      using returns_invD(3) [OF inv] that by (simp add: return_items_ok_def)
    then obtain s where "get_return d (ri_return i) = Some s"
      by (auto simp: return_item_ok_def)
    from returns_inv_return(2) [OF inv this] show "ri_return i \<noteq> ?n"
      by simp
  qed
  have new: "ri_return i = ?n \<and> (\<exists>oi q. (oi, q) \<in> set xs \<and> ri_order_item i = oi_id oi \<and> ri_quantity i = q
      \<and> ri_product_price i = oi_price oi)" if "i \<in> set new" for i
  proof -
    have "item_row i \<in> set (map (\<lambda>(oi, q). (?n, oi_id oi, q, oi_price oi)) xs)"
      unfolding eq(6) [symmetric] using that by simp
    then show ?thesis
      by (auto simp: item_row_def)
  qed
  have dist: "keys_distinct oi_id (order_items d)"
    using returns_invD(3) [OF inv] by (simp add: return_items_ok_def)
  have inert: "shop_inert d d'"
    using rq by (simp add: requested_def shop_inert_def)
  have 1: "shop_inv d'"
    using shop_change_inv [OF inert_change [OF returns_invD(1) [OF inv] inert]] .
  have owned: "order_owned d' = order_owned d"
    unfolding order_owned_def fun_eq_iff eq(8) by simp
  have 2: "return_rows_ok d'"
    using rows fresh own eq(5) unfolding return_rows_ok_def owned eq(1) by (auto simp: eq(3))
  have "return_item_ok d' i" if "i \<in> set (return_items d)" for i
    using old [OF that] by (simp add: return_item_ok_def get eq(9))
  moreover have "return_item_ok d' i" if i: "i \<in> set new" for i
  proof -
    obtain oi q where x: "(oi, q) \<in> set xs" "ri_order_item i = oi_id oi" "ri_product_price i = oi_price oi"
      using new [OF i] by blast
    then have "rget oi_id (order_items d) (oi_id oi) = Some oi"
      using xs dist by (auto intro!: rget_in_distinct)
    then show ?thesis
      using new [OF i] x xs eq(7) i by (auto simp: return_item_ok_def get eq(9))
  qed
  moreover have "distinct (map (\<lambda>i. (ri_return i, ri_order_item i)) (return_items d @ new))"
    using rq returns_invD(3) [OF inv] by (simp add: requested_def return_items_ok_def)
  ultimately have 3: "return_items_ok d'"
    using dist unfolding return_items_ok_def eq(2,9) by auto
  have 4: "one_active d'"
    unfolding one_active_def
  proof (intro ballI impI)
    fix s t
    assume s: "s \<in> set (returns d')" "t \<in> set (returns d')"
      and h: "ret_order s = ret_order t \<and> is_active_return s \<and> is_active_return t"
    have act: "q \<in> set (returns d) \<Longrightarrow> is_active_return q \<Longrightarrow> ret_order q \<noteq> ret_order r" for q
      using none unfolding has_active_return_def list_ex_iff by blast
    from s have "s = r \<or> s \<in> set (returns d)" "t = r \<or> t \<in> set (returns d)"
      by (auto simp: eq(1))
    then show "ret_id s = ret_id t"
      using h act [of s] act [of t] returns_invD(4) [OF inv] unfolding one_active_def by metis
  qed
  have "is_completed_refund d' (ri_return i) = is_completed_refund d (ri_return i)" if "i \<in> set (return_items d)" for i
    using old(1) [OF that] by (simp add: is_completed_refund_def get)
  moreover have "\<not> is_completed_refund d' (ri_return i)" if "i \<in> set new" for i
    using new [OF that] eq(4) by (simp add: is_completed_refund_def get)
  ultimately have ar: "already_returned k d' = already_returned k d" for k
    unfolding already_returned_def eq(2) by (simp cong: filter_cong)
  have "quantities_ok d'"
    unfolding quantities_ok_def ar eq(9)
  proof (intro ballI conjI impI)
    fix oi
    assume oi: "oi \<in> set (order_items d)"
    note q = returns_invD(5) [OF inv, unfolded quantities_ok_def, rule_format, OF oi]
    show "already_returned (oi_id oi) d \<le> oi_quantity oi"
      using q by simp
    fix i
    assume i: "i \<in> set (return_items d')" "ri_order_item i = oi_id oi \<and> active_item d' i"
    show "already_returned (oi_id oi) d + ri_quantity i \<le> oi_quantity oi"
    proof (cases "i \<in> set new")
      case True
      then obtain oj q where x: "(oj, q) \<in> set xs" "oi_id oj = oi_id oi" "ri_quantity i = q"
        using new i(2) by metis
      then have "oj = oi"
        using xs oi dist by (auto simp: distinct_map inj_on_def)
      then show ?thesis
        using x xs by fastforce
    next
      case False
      then have "i \<in> set (return_items d)"
        using i(1) by (simp add: eq(2))
      moreover from this have "active_item d i"
        using i(2) old(1) by (simp add: active_item_def get)
      ultimately show ?thesis
        using q i(2) by blast
    qed
  qed
  moreover have "return_items_of d' (ret_id s) = return_items_of d (ret_id s)" if "s \<in> set (returns d)" for s
  proof -
    have "ret_id s \<noteq> ?n"
      using fresh imageI [OF that, of ret_id] by metis
    then show ?thesis
      using new by (auto simp: return_items_of_def eq(2) filter_empty_conv)
  qed
  then have "amounts_ok d'"
    using returns_invD(6) [OF inv] eq(10) unfolding amounts_ok_def eq(1) by (auto simp: eq(3))
  ultimately show ?thesis
    using 1 2 3 4 by (simp add: returns_inv_def)
qed

lemma request_return_Inr:
  assumes inv: "returns_inv d" and run: "request_return fe so oid uid form now d = Inr (r, d')"
  obtains ord xs new where "get_order d oid = Some ord" "o_user ord = Some uid" "return_form_ok form ord now d"
    "requested r new xs d d'" "ret_order r = oid" "ret_user r = uid" "ret_type r = rf_type form"
    "ret_number r = generate_return_number now d" "ret_number r \<notin> ret_number ` set (returns d)"
    "\<forall>(oi, q) \<in> set xs. oi \<in> set (order_items d) \<and> oi_order oi = oid \<and> q \<le> oi_quantity oi - already_returned (oi_id oi) d"
proof -
  obtain ord where ord: "get_order d oid = Some ord"
    using run by (cases "get_order d oid") (simp_all add: request_return_def)
  have ok: "o_user ord = Some uid" "return_form_ok form ord now d"
    using run ord by (auto simp: request_return_def split: if_splits)
  obtain ois where ois: "validate_return_items oid (rf_items form) d = Inr ois"
    using run ord ok by (auto simp: request_return_def split: sum.splits)
  let ?xs = "zip ois (map snd (rf_items form))"
  obtain e where e: "create_return fe ord uid form ?xs now d = Inr (r, e)"
    and d': "d' = notify_sellers so r ''new_return'' (return_info r) e"
    using run ord ok ois by (auto simp: request_return_def split: sum.splits)
  have "next_id d \<notin> ret_id ` set (returns d)"
    using returns_invD(2) [OF inv] by (auto simp: return_rows_ok_def)
  with e show thesis
  proof (rule create_return_Inr)
    fix new
    assume rq: "requested r new ?xs d e" and r: "ret_order r = o_id ord" "ret_user r = uid" "ret_type r = rf_type form"
      "ret_number r = generate_return_number now d" "ret_number r \<notin> ret_number ` set (returns d)"
    have items: "return_items_of d' k = return_items_of e k" for k
      by (simp add: d' return_items_of_def)
    have rq': "requested r new ?xs d d'"
      using rq unfolding requested_def items by (simp add: d')
    have "validate_items_loop oid (rf_items form) d = Inr ois"
      using ois by (simp add: validate_return_items_def split: if_splits)
    from validate_items_loop_Inr(2) [OF this] that [OF ord ok rq' _ r(2-5)] show thesis
      using r(1) rget_Some_key [OF ord] by simp
  qed
qed

lemma request_inv:
  assumes inv: "returns_inv d" and run: "request_return fe so oid uid form now d = Inr (r, d')"
  shows "returns_inv d'"
  using inv run
proof (rule request_return_Inr)
  fix ord xs new
  assume ord: "get_order d oid = Some ord" "o_user ord = Some uid" "return_form_ok form ord now d"
    and rq: "requested r new xs d d'" and r: "ret_order r = oid" "ret_user r = uid"
    and xs: "\<forall>(oi, q) \<in> set xs. oi \<in> set (order_items d) \<and> oi_order oi = oid \<and> q \<le> oi_quantity oi - already_returned (oi_id oi) d"
  have "order_owned d (Some (ret_order r)) (ret_user r)"
    using ord(1,2) r by (simp add: order_owned_def)
  moreover have "\<not> has_active_return (ret_order r) d"
    using ord(3) rget_Some_key [OF ord(1)] r(1)
    by (auto simp: return_form_ok_def validate_order_for_return_def split: if_splits)
  ultimately show "returns_inv d'"
    by (rule requested_inv [OF inv rq]) (use xs r(1) in simp)
qed

section \<open>The transition system\<close>

inductive return_step :: "db \<Rightarrow> db \<Rightarrow> bool" where
  request: "request_return fe so oid uid form now d = Inr (r, d') \<Longrightarrow> return_step d d'"
| approve: "approve_return fe rid memo now d = Inr (r, d') \<Longrightarrow> return_step d d'"
| reject: "reject_return fe rid why d = Inr (r, d') \<Longrightarrow> return_step d d'"
| tracking: "update_return_tracking fe so rid company tracking d = Inr (r, d') \<Longrightarrow> return_step d d'"
| receive: "confirm_receive_return fe rid d = Inr (r, d') \<Longrightarrow> return_step d d'"
| finish: "complete_return http fe rid tracking company now d = Inr (r, d') \<Longrightarrow> return_step d d'"
| other: "elsewhere d d' \<Longrightarrow> return_step d d'"

inductive_cases return_stepE: "return_step d d'"

lemma complete_return_Inr:
  assumes "complete_return http fe rid tracking company now d = Inr (r, d')"
  shows "complete_refund http fe rid now d = Inr (r, d') \<or> complete_exchange fe rid tracking company now d = Inr (r, d')"
  using assms by (auto simp: complete_return_def rbind_eq_Inr of_get_eq_Inr split: if_splits)

lemma return_step_inv: "returns_inv d \<Longrightarrow> return_step d d' \<Longrightarrow> returns_inv d'"
proof (erule return_stepE)
  show "returns_inv d \<Longrightarrow> approve_return fe rid memo now d = Inr (r, d') \<Longrightarrow> returns_inv d'" for fe rid memo now r
    by (rule moves_inv [OF _ approve_moves]) simp_all
  show "returns_inv d \<Longrightarrow> reject_return fe rid why d = Inr (r, d') \<Longrightarrow> returns_inv d'" for fe rid why r
    by (rule moves_inv [OF _ reject_moves]) simp_all
  show "returns_inv d \<Longrightarrow> update_return_tracking fe so rid company tracking d = Inr (r, d') \<Longrightarrow> returns_inv d'"
    for fe so rid company tracking r
    by (rule moves_inv [OF _ tracking_moves]) simp_all
  show "returns_inv d \<Longrightarrow> confirm_receive_return fe rid d = Inr (r, d') \<Longrightarrow> returns_inv d'" for fe rid r
    by (rule moves_inv [OF _ receive_moves]) simp_all
  show "returns_inv d \<Longrightarrow> complete_return http fe rid tracking company now d = Inr (r, d') \<Longrightarrow> returns_inv d'"
    for http fe rid tracking company now r
    by (drule complete_return_Inr) (blast intro: refund_inv exchange_inv)
qed (blast intro: request_inv elsewhere_inv)+

text \<open>A shop without returns.\<close>

definition no_returns :: "db \<Rightarrow> bool" where
  "no_returns d \<longleftrightarrow> shop_inv d \<and> returns d = [] \<and> return_items d = [] \<and> keys_distinct oi_id (order_items d)"

lemma no_returns_inv: "no_returns d \<Longrightarrow> returns_inv d"
  by (auto simp: no_returns_def returns_inv_def return_rows_ok_def return_items_ok_def one_active_def quantities_ok_def
      amounts_ok_def already_returned_def items_ok_def dest: shop_invD(4))

interpretation return_system: transition_system no_returns return_step returns_inv
  by unfold_locales (auto intro: no_returns_inv return_step_inv)

section \<open>The life of one return\<close>

definition return_moves :: "(return_status \<times> return_status) set" where
  "return_moves = {(Requested, Approved), (Requested, Rejected), (Approved, Shipping), (Shipping, Received), (Received, Completed)}"

text \<open>\<open>advances d d' rid\<close>: the row is still there, its status is the same or the next one, its owner never changes.\<close>

definition advances :: "db \<Rightarrow> db \<Rightarrow> pk \<Rightarrow> bool" where
  "advances d d' rid \<longleftrightarrow> (\<forall>r. get_return d rid = Some r \<longrightarrow> (\<exists>r'. get_return d' rid = Some r'
     \<and> (ret_status r' = ret_status r \<or> (ret_status r, ret_status r') \<in> return_moves)
     \<and> ret_order r' = ret_order r \<and> ret_user r' = ret_user r \<and> ret_type r' = ret_type r))"

lemma advances_row:
  assumes r: "get_return d rid = Some r" "row_step r r1" "(ret_status r, ret_status r1) \<in> return_moves"
    and eq: "returns d' = rupd ret_id (returns d) rid (\<lambda>_. r1)"
  shows "advances d d' k"
proof -
  have "ret_id r1 = rid"
    using r(2) rget_Some_key [OF r(1)] by (simp add: row_step_def)
  from get_return_row [OF r(1) this eq] show ?thesis
    using r by (auto simp: advances_def row_step_def)
qed

lemma moves_advances: "moves s t rid r1 d d' \<Longrightarrow> (s, t) \<in> return_moves \<Longrightarrow> advances d d' k"
  unfolding moves_def only_return_def by (blast intro: advances_row)

lemma requested_advances: "requested r new xs d d' \<Longrightarrow> advances d d' k"
  by (auto simp: requested_def advances_def)

lemma return_step_advances:
  assumes inv: "returns_inv d" and st: "return_step d d'"
  shows "advances d d' k"
  using st
proof cases
  case (request fe so oid uid form now r)
  from inv this show ?thesis
    by (rule request_return_Inr) (rule requested_advances)
next
  case (finish http fe rid tracking company now r)
  then consider "complete_refund http fe rid now d = Inr (r, d')" | "complete_exchange fe rid tracking company now d = Inr (r, d')"
    using complete_return_Inr by blast
  then show ?thesis
  proof cases
    case 1
    from this inv show ?thesis
    proof (rule complete_refund_tables)
      fix r0 ord user
      assume "refund_allowed rid now d r0 ord user" "r = completed_row fe now r0"
        "returns d' = rupd ret_id (returns d) rid (\<lambda>_. r)"
      then show ?thesis
        by (intro advances_row [of d rid r0 r])
          (auto simp: refund_allowed_def row_step_def return_moves_def is_active_return_def)
    qed
  next
    case 2
    then show ?thesis
      using exchange_shelf [OF inv 2] by (auto simp: only_return_def return_moves_def intro!: advances_row)
  qed
next
  case other
  then show ?thesis
    by (auto simp: elsewhere_def advances_def)
qed (auto dest!: approve_moves reject_moves tracking_moves receive_moves intro!: moves_advances simp: return_moves_def)

section \<open>Sums over the returned items of an order\<close>

lemma sum_list_groups:
  assumes "distinct ks" "\<forall>x \<in> set xs. key x \<in> set ks"
  shows "sum_list (map g xs) = sum_list (map (\<lambda>k. sum_list (map g (filter (\<lambda>x. key x = k) xs)) :: int) ks)"
  using assms(2)
proof (induction xs)
  case (Cons x xs)
  have "sum_list (map (\<lambda>k. sum_list (map g (filter (\<lambda>y. key y = k) (x # xs)))) ks)
      = sum_list (map (\<lambda>k. (if k = key x then g x else 0) + sum_list (map g (filter (\<lambda>y. key y = k) xs))) ks)"
    by (intro arg_cong [where f = sum_list] map_cong) auto
  also have "\<dots> = sum_list (map (\<lambda>k. if k = key x then g x else 0) ks) + sum_list (map g xs)"
    using Cons by (simp add: sum_list_addf)
  also have "sum_list (map (\<lambda>k. if k = key x then g x else 0) ks) = g x"
    using assms(1) Cons.prems by (simp add: sum_list_map_eq_sum_count sum_list_distinct_conv_sum_set)
  finally show ?case
    by simp
qed simp

text \<open>The items of completed refunds of one order.\<close>

definition refunded_items :: "pk \<Rightarrow> db \<Rightarrow> return_item list" where
  "refunded_items oid d = filter (\<lambda>i. is_completed_refund d (ri_return i)
     \<and> (case get_return d (ri_return i) of None \<Rightarrow> False | Some r \<Rightarrow> ret_order r = oid)) (return_items d)"

lemma return_item_order:
  assumes inv: "returns_inv d" and i: "i \<in> set (return_items d)" "get_return d (ri_return i) = Some r"
  obtains oi where "rget oi_id (order_items d) (ri_order_item i) = Some oi" "oi \<in> set (items_of d (ret_order r))"
    "oi_id oi = ri_order_item i" "ri_product_price i = oi_price oi"
proof -
  have "return_item_ok d i"
    using returns_invD(3) [OF inv] i(1) by (simp add: return_items_ok_def)
  then show thesis
    using i(2) that by (auto simp: return_item_ok_def items_of_def dest: rget_Some_in rget_Some_key)
qed

lemma order_item_ids_distinct:
  assumes "returns_inv d"
  shows "distinct (map oi_id (items_of d oid))"
  using returns_invD(3) [OF assms] by (auto simp: return_items_ok_def items_of_def distinct_map inj_on_def)

lemma refunded_items_sum:
  assumes inv: "returns_inv d"
  shows "sum_list (map (\<lambda>i. c (ri_order_item i) * ri_quantity i) (refunded_items oid d))
    = sum_list (map (\<lambda>oi. c (oi_id oi) * already_returned (oi_id oi) d) (items_of d oid))"
proof -
  have "\<forall>i \<in> set (refunded_items oid d). ri_order_item i \<in> set (map oi_id (items_of d oid))"
  proof
    fix i
    assume "i \<in> set (refunded_items oid d)"
    then obtain r where "i \<in> set (return_items d)" "get_return d (ri_return i) = Some r" "ret_order r = oid"
      by (auto simp: refunded_items_def split: option.splits)
    then show "ri_order_item i \<in> set (map oi_id (items_of d oid))"
      using return_item_order [OF inv] by (metis image_eqI list.set_map)
  qed
  then have "sum_list (map (\<lambda>i. c (ri_order_item i) * ri_quantity i) (refunded_items oid d))
    = sum_list (map (\<lambda>k. sum_list (map (\<lambda>i. c (ri_order_item i) * ri_quantity i)
        (filter (\<lambda>i. ri_order_item i = k) (refunded_items oid d)))) (map oi_id (items_of d oid)))"
    using order_item_ids_distinct [OF inv] by (rule sum_list_groups [rotated])
  also have "\<dots> = sum_list (map (\<lambda>oi. c (oi_id oi) * already_returned (oi_id oi) d) (items_of d oid))"
    unfolding map_map comp_def
  proof (intro arg_cong [where f = sum_list] map_cong refl)
    fix oi
    assume oi: "oi \<in> set (items_of d oid)"
    have "filter (\<lambda>i. ri_order_item i = oi_id oi) (refunded_items oid d)
        = filter (\<lambda>i. ri_order_item i = oi_id oi \<and> is_completed_refund d (ri_return i)) (return_items d)"
      unfolding refunded_items_def filter_filter
    proof (rule filter_cong [OF refl])
      fix i
      assume i: "i \<in> set (return_items d)"
      have "ret_order r = oid" if "get_return d (ri_return i) = Some r" "ri_order_item i = oi_id oi" for r
      proof -
        obtain oj where oj: "oj \<in> set (items_of d (ret_order r))" "oi_id oj = oi_id oi"
          using return_item_order [OF inv i \<open>get_return d (ri_return i) = Some r\<close>] \<open>ri_order_item i = oi_id oi\<close> by metis
        have "oj = oi"
          using returns_invD(3) [OF inv] oi oj by (auto simp: return_items_ok_def items_of_def distinct_map inj_on_def)
        then show ?thesis
          using oi oj by (simp add: items_of_def)
      qed
      then show "((is_completed_refund d (ri_return i) \<and> (case get_return d (ri_return i) of None \<Rightarrow> False | Some r \<Rightarrow> ret_order r = oid))
            \<and> ri_order_item i = oi_id oi) = (ri_order_item i = oi_id oi \<and> is_completed_refund d (ri_return i))"
        by (auto simp: is_completed_refund_def split: option.splits)
    qed
    moreover have "sum_list (map (\<lambda>i. c (ri_order_item i) * ri_quantity i)
          (filter (\<lambda>i. ri_order_item i = oi_id oi \<and> P i) xs))
        = c (oi_id oi) * sum_list (map ri_quantity (filter (\<lambda>i. ri_order_item i = oi_id oi \<and> P i) xs))" for P xs
      by (induction xs) (auto simp: distrib_left)
    ultimately show "sum_list (map (\<lambda>i. c (ri_order_item i) * ri_quantity i)
        (filter (\<lambda>i. ri_order_item i = oi_id oi) (refunded_items oid d))) = c (oi_id oi) * already_returned (oi_id oi) d"
      by (simp add: already_returned_def)
  qed
  finally show ?thesis .
qed

lemma returned_quantity_sum:
  assumes inv: "returns_inv d"
  shows "returned_quantity oid d = sum_list (map (\<lambda>oi. already_returned (oi_id oi) d) (items_of d oid))"
  using refunded_items_sum [OF inv, of "\<lambda>_. 1" oid] by (simp add: returned_quantity_def refunded_items_def)

lemma refunded_before_sum:
  assumes inv: "returns_inv d"
  shows "refunded_before oid d = sum_list (map (\<lambda>oi. oi_price oi * already_returned (oi_id oi) d) (items_of d oid))"
proof -
  define price where "price k = (case rget oi_id (order_items d) k of None \<Rightarrow> 0 | Some oi \<Rightarrow> oi_price oi)" for k
  define rs where "rs = filter (\<lambda>r. ret_order r = oid \<and> ret_type r = RefundReturn \<and> ret_status r = Completed) (returns d)"
  define g where "g i = price (ri_order_item i) * ri_quantity i" for i :: return_item
  have keys: "keys_distinct ret_id (returns d)"
    using returns_invD(2) [OF inv] by (simp add: return_rows_ok_def)
  have rid: "get_return d (ret_id r) = Some r" if "r \<in> set (returns d)" for r
    using rget_in_distinct [OF keys that] .
  have sel: "is_completed_refund d k \<and> (case get_return d k of None \<Rightarrow> False | Some r \<Rightarrow> ret_order r = oid)
      \<longleftrightarrow> k \<in> ret_id ` set rs" for k
  proof (cases "get_return d k")
    case None
    then show ?thesis
      using rget_None_iff [of ret_id "returns d" k] by (auto simp: is_completed_refund_def rs_def)
  next
    case (Some r)
    then have r: "r \<in> set (returns d)" "ret_id r = k"
      by (auto dest: rget_Some_in rget_Some_key)
    have "s = r" if "s \<in> set (returns d)" "ret_id s = k" for s
      using rid [OF that(1)] that(2) Some by simp
    moreover have "set rs \<subseteq> set (returns d)"
      by (auto simp: rs_def)
    ultimately have "k \<in> ret_id ` set rs \<longleftrightarrow> r \<in> set rs"
      using r by blast
    then show ?thesis
      using r Some by (auto simp: is_completed_refund_def rs_def)
  qed
  have dist: "distinct (map ret_id rs)"
    using keys by (auto simp: rs_def distinct_map inj_on_def)
  have ri: "refunded_items oid d = filter (\<lambda>i. ri_return i \<in> ret_id ` set rs) (return_items d)"
    unfolding refunded_items_def sel ..
  have "sum_list (map g (refunded_items oid d))
      = sum_list (map (\<lambda>k. sum_list (map g (filter (\<lambda>i. ri_return i = k) (refunded_items oid d)))) (map ret_id rs))"
    by (rule sum_list_groups [OF dist]) (simp add: ri)
  also have "\<dots> = sum_list (map ret_refund_amount rs)"
    unfolding map_map comp_def
  proof (intro arg_cong [where f = sum_list] map_cong refl)
    fix r
    assume r: "r \<in> set rs"
    then have r': "r \<in> set (returns d)" "ret_type r = RefundReturn"
      by (simp_all add: rs_def)
    have "filter (\<lambda>i. ri_return i = ret_id r) (refunded_items oid d) = return_items_of d (ret_id r)"
      unfolding ri return_items_of_def filter_filter by (rule filter_cong) (use r in auto)
    moreover have "map g (return_items_of d (ret_id r)) = map (\<lambda>i. ri_product_price i * ri_quantity i) (return_items_of d (ret_id r))"
    proof (rule map_cong [OF refl])
      fix i
      assume "i \<in> set (return_items_of d (ret_id r))"
      then have "i \<in> set (return_items d)" "get_return d (ri_return i) = Some r"
        using rid [OF r'(1)] by (auto simp: return_items_of_def)
      then show "g i = ri_product_price i * ri_quantity i"
        by (rule return_item_order [OF inv]) (simp add: g_def price_def)
    qed
    ultimately show "sum_list (map g (filter (\<lambda>i. ri_return i = ret_id r) (refunded_items oid d))) = ret_refund_amount r"
      using returns_invD(6) [OF inv] r' by (simp add: amounts_ok_def calculate_refund_amount_def cong: map_cong)
  qed
  finally have "refunded_before oid d = sum_list (map g (refunded_items oid d))"
    by (simp add: refunded_before_def rs_def)
  also have "\<dots> = sum_list (map (\<lambda>oi. price (oi_id oi) * already_returned (oi_id oi) d) (items_of d oid))"
    unfolding g_def by (rule refunded_items_sum [OF inv])
  also have "\<dots> = sum_list (map (\<lambda>oi. oi_price oi * already_returned (oi_id oi) d) (items_of d oid))"
  proof (intro arg_cong [where f = sum_list] map_cong refl)
    fix oi
    assume "oi \<in> set (items_of d oid)"
    then have "rget oi_id (order_items d) (oi_id oi) = Some oi"
      using returns_invD(3) [OF inv] by (intro rget_in_distinct) (auto simp: return_items_ok_def items_of_def)
    then show "price (oi_id oi) * already_returned (oi_id oi) d = oi_price oi * already_returned (oi_id oi) d"
      by (simp add: price_def)
  qed
  finally show ?thesis .
qed

definition goods_value :: "pk \<Rightarrow> db \<Rightarrow> money" where
  "goods_value oid d = sum_list (map (\<lambda>oi. oi_price oi * oi_quantity oi) (items_of d oid))"

lemma refunded_before_le:
  assumes inv: "returns_inv d" and price: "\<forall>oi \<in> set (items_of d oid). 0 \<le> oi_price oi"
  shows "refunded_before oid d \<le> goods_value oid d"
  unfolding refunded_before_sum [OF inv] goods_value_def
proof (rule sum_list_mono)
  fix oi
  assume oi: "oi \<in> set (items_of d oid)"
  then have "already_returned (oi_id oi) d \<le> oi_quantity oi"
    using returns_invD(5) [OF inv] by (simp add: quantities_ok_def items_of_def)
  then show "oi_price oi * already_returned (oi_id oi) d \<le> oi_price oi * oi_quantity oi"
    using price oi by (simp add: mult_left_mono)
qed

end
