(* ===== verification/Return_Shares.thy ===== *)
theory Return_Shares
  imports Return_System
begin

text \<open>
  Splitting an order into several refunds: the shares are differences of rounded-down cumulative
  shares, so they are never negative, never exceed what is returned and add up exactly.
\<close>

lemma share_diff:
  assumes "0 < whole" "0 \<le> tot" "0 \<le> p" "0 \<le> t"
  shows "0 \<le> proportional_share tot (p + t) whole - proportional_share tot p whole"
    "tot \<le> whole \<Longrightarrow> proportional_share tot (p + t) whole - proportional_share tot p whole \<le> t"
proof -
  have sh: "proportional_share tot x whole = tot * x div whole" if "0 \<le> x" for x
    using assms(1,2) that by (simp add: proportional_share_def)
  have "tot * p \<le> tot * (p + t)"
    using assms by (simp add: distrib_left)
  then show "0 \<le> proportional_share tot (p + t) whole - proportional_share tot p whole"
    using assms sh [of p] sh [of "p + t"] by (simp add: zdiv_mono1)
  assume "tot \<le> whole"
  then have "tot * (p + t) \<le> tot * p + t * whole"
    using assms(4) mult_right_mono [of tot whole t] by (simp add: algebra_simps)
  then have "tot * (p + t) div whole \<le> (tot * p + t * whole) div whole"
    using assms(1) by (rule zdiv_mono1)
  then show "proportional_share tot (p + t) whole - proportional_share tot p whole \<le> t"
    using assms sh [of p] sh [of "p + t"] by simp
qed

lemma share_ends:
  assumes "0 < whole" "0 \<le> tot"
  shows "proportional_share tot 0 whole = 0" "proportional_share tot whole whole = tot"
  using assms by (simp_all add: proportional_share_def)

section \<open>One refund\<close>

text \<open>The amounts of an order as the order service writes them; points used have a row in the point history.\<close>

definition refundable :: "pk \<Rightarrow> order \<Rightarrow> db \<Rightarrow> bool" where
  "refundable oid ord d \<longleftrightarrow> get_order d oid = Some ord \<and> 0 < o_total_amount ord \<and> 0 \<le> o_used_points ord
     \<and> o_used_points ord \<le> o_total_amount ord \<and> 0 \<le> o_earned_points ord
     \<and> (0 < o_used_points ord \<longrightarrow> list_ex (\<lambda>h. ph_order h = Some oid \<and> ph_type h = Use) (histories d))
     \<and> (\<forall>oi \<in> set (order_items d). 0 \<le> oi_price oi)"

definition same_amounts :: "order \<Rightarrow> order \<Rightarrow> bool" where
  "same_amounts a b \<longleftrightarrow> o_total_amount a = o_total_amount b \<and> o_used_points a = o_used_points b
     \<and> o_earned_points a = o_earned_points b"

abbreviation used_share :: "order \<Rightarrow> money \<Rightarrow> int" where
  "used_share ord part \<equiv> proportional_share (o_used_points ord) part (o_total_amount ord)"

abbreviation earned_share :: "order \<Rightarrow> money \<Rightarrow> int" where
  "earned_share ord part \<equiv> proportional_share (o_earned_points ord) part (o_total_amount ord)"

lemma refunded_before_nonneg:
  assumes inv: "returns_inv d" and price: "\<forall>oi \<in> set (order_items d). 0 \<le> oi_price oi"
  shows "0 \<le> refunded_before oid d" "get_return d rid = Some r \<Longrightarrow> ret_type r = RefundReturn \<Longrightarrow> 0 \<le> ret_refund_amount r"
proof -
  have ar: "0 \<le> already_returned k d" for k
    using already_returned_nonneg [OF returns_invD(3) [OF inv]] .
  show "0 \<le> refunded_before oid d"
    unfolding refunded_before_sum [OF inv]
    by (rule sum_list_nonneg_int) (use price ar in \<open>auto simp: items_of_def\<close>)
  assume r: "get_return d rid = Some r" "ret_type r = RefundReturn"
  have "0 \<le> ri_product_price i * ri_quantity i" if i: "i \<in> set (return_items_of d (ret_id r))" for i
  proof -
    have "i \<in> set (return_items d)" "get_return d (ri_return i) = Some r"
      using i r(1) rget_Some_key [OF r(1)] by (auto simp: return_items_of_def)
    then obtain oi where "oi \<in> set (items_of d (ret_order r))" "ri_product_price i = oi_price oi"
      using return_item_order [OF inv] by metis
    then show ?thesis
      using price returns_inv_quantity [OF inv] i by (auto simp: items_of_def)
  qed
  then show "0 \<le> ret_refund_amount r"
    using returns_invD(6) [OF inv] r rget_Some_in [OF r(1)]
    by (auto simp: amounts_ok_def calculate_refund_amount_def intro!: sum_list_nonneg_int)
qed

lemma refund_shares_exact:
  assumes inv: "returns_inv d" and ok: "refundable oid ord d" and r: "get_return d rid = Some r" "ret_type r = RefundReturn"
    and fee: "ret_shipping_fee r = 0"
  defines "R \<equiv> refunded_before oid d" and "sp \<equiv> refund_shares ord r d"
  shows "rs_points sp = used_share ord (R + ret_refund_amount r) - used_share ord R" "0 \<le> rs_points sp"
    "rs_earned sp = earned_share ord (R + ret_refund_amount r) - earned_share ord R" "0 \<le> rs_earned sp"
    "rs_cash sp = ret_refund_amount r - rs_points sp" "0 \<le> rs_cash sp"
proof -
  have o: "0 < o_total_amount ord" "0 \<le> o_used_points ord" "o_used_points ord \<le> o_total_amount ord" "0 \<le> o_earned_points ord"
    "0 < o_used_points ord \<Longrightarrow> list_ex (\<lambda>h. ph_order h = Some (o_id ord) \<and> ph_type h = Use) (histories d)"
    "o_id ord = oid"
    using ok by (auto simp: refundable_def dest: rget_Some_key)
  have nn: "0 \<le> R" "0 \<le> ret_refund_amount r"
    using refunded_before_nonneg [OF inv] ok r unfolding R_def refundable_def by blast+
  define pb where "pb = used_share ord (R + ret_refund_amount r) - used_share ord R"
  have pb: "0 \<le> pb" "pb \<le> ret_refund_amount r"
    unfolding pb_def using share_diff [OF o(1,2) nn] o(3) by simp_all
  have used: "list_ex (\<lambda>h. ph_order h = Some (o_id ord) \<and> ph_type h = Use) (histories d)" if "0 < pb"
  proof (rule o(5))
    show "0 < o_used_points ord"
      using that o(1,2) by (cases "o_used_points ord = 0") (auto simp: pb_def proportional_share_def)
  qed
  have sp: "rs_points sp = pb \<and> rs_cash sp = ret_refund_amount r - pb
      \<and> rs_earned sp = earned_share ord (R + ret_refund_amount r) - earned_share ord R"
  proof (cases "0 < pb")
    case True
    then show ?thesis
      unfolding sp_def refund_shares_def Let_def using o(3) pb fee used [OF True] by (simp add: R_def pb_def min_def o(6))
  next
    case False
    then have "used_share ord (R + ret_refund_amount r) = used_share ord R"
      using pb(1) by (simp add: pb_def)
    then show ?thesis
      unfolding sp_def refund_shares_def Let_def using o(3) pb fee by (simp add: R_def pb_def min_def o(6))
  qed
  show "rs_points sp = used_share ord (R + ret_refund_amount r) - used_share ord R" "0 \<le> rs_points sp"
    "rs_earned sp = earned_share ord (R + ret_refund_amount r) - earned_share ord R" "0 \<le> rs_earned sp"
    "rs_cash sp = ret_refund_amount r - rs_points sp" "0 \<le> rs_cash sp"
    using sp pb share_diff(1) [OF o(1,4) nn] by (simp_all add: pb_def)
qed

section \<open>Several refunds of one order\<close>

text \<open>What the provider has paid back for an order.\<close>

definition paid_back :: "pk \<Rightarrow> db \<Rightarrow> money" where
  "paid_back oid d = (case payment_of d oid of None \<Rightarrow> 0 | Some p \<Rightarrow> pay_canceled_amount p)"

lemma used_row_core:
  "list_ex (\<lambda>h. ph_order h = Some k \<and> ph_type h = Use) t
    = list_ex (\<lambda>(_, _, _, _, ty, ord, _). ord = Some k \<and> ty = Use) (map core t)"
  by (induction t) (simp_all add: core_def)

lemma find_rupd_key:
  assumes "find P rs = Some p" "key p = k" "P q" "key q = k"
  shows "find P (rupd key rs k (\<lambda>_. q)) = Some q"
  using assms by (induction rs) (auto split: if_splits)

lemma refunded_before_after:
  assumes inv: "returns_inv d" and r: "get_return d rid = Some r" "ret_type r = RefundReturn" "ret_status r = Received"
    and eq: "returns d' = rupd ret_id (returns d) rid (\<lambda>_. completed_row fe now r)"
  shows "refunded_before oid d' = refunded_before oid d + (if ret_order r = oid then ret_refund_amount r else 0)"
proof -
  define g where "g s = (if ret_order s = oid \<and> ret_type s = RefundReturn \<and> ret_status s = Completed
     then ret_refund_amount s else 0)" for s :: return_request
  have rb: "refunded_before oid e = sum_list (map g (returns e))" for e
    unfolding refunded_before_def sum_list_filter_if g_def ..
  have "keys_distinct ret_id (returns d)"
    using returns_invD(2) [OF inv] by (simp add: return_rows_ok_def)
  then have "sum_list (map g (returns d')) = sum_list (map g (returns d)) - g r + g (completed_row fe now r)"
    unfolding eq by (rule sum_list_rupd) (use returns_inv_return [OF inv r(1)] in simp_all)
  then show ?thesis
    unfolding rb using r(2,3) by (simp add: g_def)
qed

lemma refund_step_exact:
  assumes run: "complete_refund http fe rid now d = Inr (r1, d')" and inv: "returns_inv d" and ok: "refundable oid ord d"
    and r: "get_return d rid = Some r" "ret_order r = oid" "ret_shipping_fee r = 0"
  defines "R \<equiv> refunded_before oid d" and "R' \<equiv> refunded_before oid d'"
  shows "\<exists>ord'. refundable oid ord' d' \<and> same_amounts ord' ord"
    "booked CancelRefund oid d' = booked CancelRefund oid d + (used_share ord R' - used_share ord R)"
    "booked CancelDeduct oid d' = booked CancelDeduct oid d - (earned_share ord R' - earned_share ord R)"
    "paid_back oid d' = paid_back oid d + (R' - R) - (used_share ord R' - used_share ord R)"
    "get_return d k = Some s \<Longrightarrow> \<exists>s'. get_return d' k = Some s' \<and> ret_order s' = ret_order s
       \<and> ret_shipping_fee s' = ret_shipping_fee s"
proof -
  have "(\<exists>ord'. refundable oid ord' d' \<and> same_amounts ord' ord)
    \<and> booked CancelRefund oid d' = booked CancelRefund oid d + (used_share ord R' - used_share ord R)
    \<and> booked CancelDeduct oid d' = booked CancelDeduct oid d - (earned_share ord R' - earned_share ord R)
    \<and> paid_back oid d' = paid_back oid d + (R' - R) - (used_share ord R' - used_share ord R)
    \<and> (get_return d k = Some s \<longrightarrow> (\<exists>s'. get_return d' k = Some s' \<and> ret_order s' = ret_order s
       \<and> ret_shipping_fee s' = ret_shipping_fee s))"
    using run inv
  proof (rule complete_refund_tables)
    fix r0 ord0 user d1
    assume al: "refund_allowed rid now d r0 ord0 user" and rid: "ret_id r0 = rid" "o_id ord0 = ret_order r0"
      and r1: "r1 = completed_row fe now r0" and eq: "returns d' = rupd ret_id (returns d) rid (\<lambda>_. r1)"
        "order_items d' = order_items d" "payments d' = payments d1"
      and cash: "cash_refunded (payment_of d (o_id ord0)) (rs_cash (refund_shares ord0 r0 d)) d d1"
      and os: "orders d' = (if returned_quantity (o_id ord0) d' \<ge> ordered_quantity (o_id ord0) d'
         then rupd o_id (orders d) (o_id ord0) (set_order_status Refunded now) else orders d)"
      and b: "booked CancelRefund (o_id ord0) d' = booked CancelRefund (o_id ord0) d + max 0 (rs_points (refund_shares ord0 r0 d))"
        "booked CancelDeduct (o_id ord0) d' = booked CancelDeduct (o_id ord0) d - max 0 (rs_earned (refund_shares ord0 r0 d))"
      and hist: "\<exists>new. map core (histories d') = map core (histories d) @ new"
    have same: "r0 = r" "ord0 = ord" and ty: "ret_type r = RefundReturn" "ret_status r = Received" and oid: "o_id ord = oid"
      using al r(1,2) ok by (auto simp: refund_allowed_def refundable_def dest: rget_Some_key)
    note sh = refund_shares_exact [OF inv ok r(1) ty(1) r(3)]
    have R': "R' = R + ret_refund_amount r"
      unfolding R'_def R_def using refunded_before_after [OF inv r(1) ty eq(1) [unfolded r1 same]] r(2) by simp
    have "orders d' = orders d \<or> orders d' = rupd o_id (orders d) oid (set_order_status Refunded now)"
      using os unfolding same oid by metis
    then have "\<exists>ord'. get_order d' oid = Some ord' \<and> same_amounts ord' ord"
      using ok by (auto simp: refundable_def rget_rupd set_order_status_def same_amounts_def)
    moreover have "list_ex (\<lambda>h. ph_order h = Some oid \<and> ph_type h = Use) (histories d)
        \<Longrightarrow> list_ex (\<lambda>h. ph_order h = Some oid \<and> ph_type h = Use) (histories d')"
      using hist unfolding used_row_core by auto
    ultimately obtain ord' where ord': "get_order d' oid = Some ord'" "same_amounts ord' ord"
      "0 < o_used_points ord \<Longrightarrow> list_ex (\<lambda>h. ph_order h = Some oid \<and> ph_type h = Use) (histories d')"
      using ok by (auto simp: refundable_def)
    then have 1: "\<exists>ord'. refundable oid ord' d' \<and> same_amounts ord' ord"
      using ok by (intro exI [of _ ord']) (simp add: refundable_def same_amounts_def eq(2))
    have 2: "paid_back oid d' = paid_back oid d + rs_cash (refund_shares ord r d)"
    proof (cases "rs_cash (refund_shares ord r d) > 0")
      case True
      then obtain p q where p: "payment_of d oid = Some p" "pay_id q = pay_id p" "pay_order q = pay_order p"
          "pay_canceled_amount q = pay_canceled_amount p + rs_cash (refund_shares ord r d)"
          "payments d' = rupd pay_id (payments d) (pay_id p) (\<lambda>_. q)"
        using cash eq(3) by (auto simp: cash_refunded_def same oid)
      have "pay_order p = oid"
        using p(1) by (auto simp: payment_of_def find_Some_iff)
      then have "payment_of d' oid = Some q"
        using p find_rupd_key [of "\<lambda>p. pay_order p = oid" "payments d" p pay_id "pay_id p" q] by (simp add: payment_of_def)
      then show ?thesis
        using p by (simp add: paid_back_def)
    next
      case False
      then have "payments d' = payments d" "rs_cash (refund_shares ord r d) = 0"
        using cash eq(3) sh(6) by (simp_all add: cash_refunded_def same)
      then show ?thesis
        by (simp add: paid_back_def payment_of_def)
    qed
    have "get_return d' k = (if k = rid then Some r1 else get_return d k)"
      by (rule get_return_row [OF r(1) _ eq(1)]) (simp add: r1 rid)
    then have 3: "get_return d k = Some s \<longrightarrow> (\<exists>s'. get_return d' k = Some s' \<and> ret_order s' = ret_order s
       \<and> ret_shipping_fee s' = ret_shipping_fee s)"
      using r(1) by (auto simp: r1 same)
    show ?thesis
      using 1 2 3 b sh unfolding same oid R' R_def by auto
  qed
  then show "\<exists>ord'. refundable oid ord' d' \<and> same_amounts ord' ord"
    "booked CancelRefund oid d' = booked CancelRefund oid d + (used_share ord R' - used_share ord R)"
    "booked CancelDeduct oid d' = booked CancelDeduct oid d - (earned_share ord R' - earned_share ord R)"
    "paid_back oid d' = paid_back oid d + (R' - R) - (used_share ord R' - used_share ord R)"
    "get_return d k = Some s \<Longrightarrow> \<exists>s'. get_return d' k = Some s' \<and> ret_order s' = ret_order s
       \<and> ret_shipping_fee s' = ret_shipping_fee s"
    by blast+
qed

text \<open>
  The steps of the returns of one order: requests, the seller's steps and refunds without a return
  shipping fee.
\<close>

inductive refund_phase :: "pk \<Rightarrow> db \<Rightarrow> db \<Rightarrow> bool" for oid where
  request: "request_return fe so oid uid form now d = Inr (r, d') \<Longrightarrow> refund_phase oid d d'"
| approve: "approve_return fe rid memo now d = Inr (r, d') \<Longrightarrow> refund_phase oid d d'"
| reject: "reject_return fe rid why d = Inr (r, d') \<Longrightarrow> refund_phase oid d d'"
| tracking: "update_return_tracking fe so rid company tracking d = Inr (r, d') \<Longrightarrow> refund_phase oid d d'"
| receive: "confirm_receive_return fe rid d = Inr (r, d') \<Longrightarrow> refund_phase oid d d'"
| refund: "complete_refund http fe rid now d = Inr (r, d') \<Longrightarrow> ret_order r = oid \<Longrightarrow> ret_shipping_fee r = 0
     \<Longrightarrow> refund_phase oid d d'"

text \<open>Steps that move neither money nor points.\<close>

definition quiet :: "pk \<Rightarrow> db \<Rightarrow> db \<Rightarrow> bool" where
  "quiet oid d d' \<longleftrightarrow> histories d' = histories d \<and> payments d' = payments d \<and> orders d' = orders d
     \<and> order_items d' = order_items d \<and> refunded_before oid d' = refunded_before oid d"

lemma moves_quiet:
  assumes inv: "returns_inv d" and mv: "moves s t rid r1 d d'" and nc: "s \<noteq> Completed" "t \<noteq> Completed"
  shows "quiet oid d d'"
proof -
  obtain r where r: "get_return d rid = Some r" "ret_status r = s" "ret_status r1 = t" and o: "only_return rid r1 d d'"
    using mv by (auto simp: moves_def)
  define g where "g q = (if ret_order q = oid \<and> ret_type q = RefundReturn \<and> ret_status q = Completed
     then ret_refund_amount q else 0)" for q :: return_request
  have rb: "refunded_before oid e = sum_list (map g (returns e))" for e
    unfolding refunded_before_def sum_list_filter_if g_def ..
  have "keys_distinct ret_id (returns d)"
    using returns_invD(2) [OF inv] by (simp add: return_rows_ok_def)
  then have "sum_list (map g (rupd ret_id (returns d) rid (\<lambda>_. r1))) = sum_list (map g (returns d)) - g r + g r1"
    by (rule sum_list_rupd) (use returns_inv_return [OF inv r(1)] in simp_all)
  then have "refunded_before oid d' = refunded_before oid d"
    using o r nc unfolding rb by (simp add: only_return_def g_def)
  then show ?thesis
    using o by (simp add: quiet_def only_return_def)
qed

lemma requested_quiet: "requested r new xs d d' \<Longrightarrow> quiet oid d d'"
  by (simp add: requested_def quiet_def refunded_before_def)

lemma refund_phase_cases:
  assumes inv: "returns_inv d" and st: "refund_phase oid d d'"
  obtains (quiet) "quiet oid d d'" | (refund) http fe rid now r where
    "complete_refund http fe rid now d = Inr (r, d')" "ret_order r = oid" "ret_shipping_fee r = 0"
  using st
proof cases
  case (request fe so uid form now r)
  from inv this show thesis
    by (rule request_return_Inr) (rule quiet [OF requested_quiet])
next
  case (approve fe rid memo now r)
  then show thesis
    by (intro quiet moves_quiet [OF inv approve_moves]) simp_all
next
  case (reject fe rid why r)
  then show thesis
    by (intro quiet moves_quiet [OF inv reject_moves]) simp_all
next
  case (tracking fe so rid company tracking r)
  then show thesis
    by (intro quiet moves_quiet [OF inv tracking_moves]) simp_all
next
  case (receive fe rid r)
  then show thesis
    by (intro quiet moves_quiet [OF inv receive_moves]) simp_all
next
  case (refund http fe rid now r)
  then show thesis
    by (rule that(2))
qed

lemma refund_phase_inv: "returns_inv d \<Longrightarrow> refund_phase oid d d' \<Longrightarrow> returns_inv d'"
  by (erule refund_phase.cases)
    (blast intro: request_inv moves_inv [OF _ approve_moves] moves_inv [OF _ reject_moves] moves_inv [OF _ tracking_moves]
      moves_inv [OF _ receive_moves] refund_inv)+

definition settled :: "pk \<Rightarrow> order \<Rightarrow> db \<Rightarrow> db \<Rightarrow> bool" where
  "settled oid ord d d' \<longleftrightarrow> (let R = refunded_before oid d; R' = refunded_before oid d' in
     booked CancelRefund oid d' - booked CancelRefund oid d = used_share ord R' - used_share ord R
     \<and> booked CancelDeduct oid d - booked CancelDeduct oid d' = earned_share ord R' - earned_share ord R
     \<and> paid_back oid d' - paid_back oid d = R' - R - (used_share ord R' - used_share ord R))"

lemma settled_trans: "settled oid ord d e \<Longrightarrow> settled oid ord' e f \<Longrightarrow> same_amounts ord' ord \<Longrightarrow> settled oid ord d f"
  by (simp add: settled_def Let_def same_amounts_def)

lemma refund_phase_settled:
  assumes inv: "returns_inv d" and ok: "refundable oid ord d" and st: "refund_phase oid d d'"
  shows "settled oid ord d d'" "\<exists>ord'. refundable oid ord' d' \<and> same_amounts ord' ord"
proof -
  have "settled oid ord d d' \<and> (\<exists>ord'. refundable oid ord' d' \<and> same_amounts ord' ord)"
    using inv st
  proof (cases rule: refund_phase_cases)
    case quiet
    then have "settled oid ord d d'" "refundable oid ord d'"
      using ok by (simp_all add: quiet_def settled_def refundable_def paid_back_def payment_of_def)
    then show ?thesis
      by (auto simp: same_amounts_def)
  next
    case (refund http fe rid now r)
    from refund(1) inv show ?thesis
    proof (rule complete_refund_tables)
      fix r0 ord0 user
      assume al: "refund_allowed rid now d r0 ord0 user" and "r = completed_row fe now r0"
      then have r0: "get_return d rid = Some r0" "ret_order r0 = oid" "ret_shipping_fee r0 = 0"
        using refund(2,3) by (simp_all add: refund_allowed_def)
      from refund_step_exact [OF refund(1) inv ok r0] show ?thesis
        by (simp add: settled_def Let_def)
    qed
  qed
  then show "settled oid ord d d'" "\<exists>ord'. refundable oid ord' d' \<and> same_amounts ord' ord"
    by simp_all
qed

lemma refund_phases_settled:
  assumes "(refund_phase oid)\<^sup>*\<^sup>* d d'" "returns_inv d" "refundable oid ord d"
  shows "settled oid ord d d' \<and> returns_inv d' \<and> (\<exists>ord'. refundable oid ord' d' \<and> same_amounts ord' ord)"
  using assms
proof (induction rule: rtranclp_induct)
  case base
  then show ?case
    by (auto simp: settled_def same_amounts_def)
next
  case (step e f)
  then obtain ord' where e: "settled oid ord d e" "returns_inv e" "refundable oid ord' e" "same_amounts ord' ord"
    by blast
  note st = refund_phase_settled [OF e(2,3) step.hyps(2)]
  have "settled oid ord d f"
    by (rule settled_trans [OF e(1) st(1) e(4)])
  moreover have "\<exists>ord''. refundable oid ord'' f \<and> same_amounts ord'' ord"
    using st(2) e(4) by (auto simp: same_amounts_def)
  ultimately show ?case
    using refund_phase_inv [OF e(2) step.hyps(2)] by blast
qed

end
