(* ===== verification/Return_Pieces.thy ===== *)
theory Return_Pieces
  imports Return_System
begin

text \<open>
  Where the pieces of a product are: on the shelf or with customers.  A refund moves the returned
  pieces back to the shelf; that the order turns to \<^verbatim>\<open>refunded\<close> does not move any.
\<close>

definition with_customers :: "db \<Rightarrow> pk \<Rightarrow> int" where
  "with_customers d k = sum_list (map (\<lambda>oi. if oi_product oi = Some k \<and> holding (orders d) (oi_order oi)
     then oi_quantity oi - already_returned (oi_id oi) d else 0) (order_items d))"

definition returned_in :: "pk \<Rightarrow> db \<Rightarrow> pk \<Rightarrow> int" where
  "returned_in rid d k = sum_list (map ri_quantity (filter (\<lambda>i. ri_order_item i = k \<and> ri_return i = rid) (return_items d)))"

lemma returned_in_pieces:
  assumes inv: "returns_inv d" and r: "get_return d rid = Some r" and h: "holding (orders d) (ret_order r)"
  shows "sum_list (map (\<lambda>oi. if oi_product oi = Some k \<and> holding (orders d) (oi_order oi) then returned_in rid d (oi_id oi) else 0)
      (order_items d)) = items_qty k (return_pieces d (return_items_of d rid))"
proof -
  define g where "g i = (if product_of_return_item d i = Some k then ri_quantity i else 0)" for i :: return_item
  have item: "\<exists>oi. rget oi_id (order_items d) (ri_order_item i) = Some oi \<and> oi_order oi = ret_order r \<and> oi \<in> set (order_items d)
      \<and> oi_id oi = ri_order_item i" if i: "i \<in> set (return_items_of d rid)" for i
  proof -
    have "i \<in> set (return_items d)" "get_return d (ri_return i) = Some r"
      using i r by (auto simp: return_items_of_def)
    from return_item_order [OF inv this] show ?thesis
      by (metis (mono_tags, lifting) items_of_def mem_Collect_eq set_filter)
  qed
  have dist: "keys_distinct oi_id (order_items d)"
    using returns_invD(3) [OF inv] by (simp add: return_items_ok_def)
  have "items_qty k (return_pieces d (return_items_of d rid)) = sum_list (map g (return_items_of d rid))"
    by (simp add: items_qty_def return_pieces_def item_qty_def g_def [abs_def] comp_def cong: if_cong)
  also have "\<dots> = sum_list (map (\<lambda>j. sum_list (map g (filter (\<lambda>i. ri_order_item i = j) (return_items_of d rid))))
      (map oi_id (order_items d)))"
    by (rule sum_list_groups [OF dist]) (use item in force)
  also have "\<dots> = sum_list (map (\<lambda>oi. if oi_product oi = Some k \<and> holding (orders d) (oi_order oi)
      then returned_in rid d (oi_id oi) else 0) (order_items d))"
    unfolding map_map comp_def
  proof (intro arg_cong [where f = sum_list] map_cong refl)
    fix oi
    assume oi: "oi \<in> set (order_items d)"
    define ris where "ris = filter (\<lambda>i. ri_order_item i = oi_id oi) (return_items_of d rid)"
    have ri: "returned_in rid d (oi_id oi) = sum_list (map ri_quantity ris)"
      by (simp add: returned_in_def ris_def return_items_of_def conj_commute)
    show "sum_list (map g ris) = (if oi_product oi = Some k \<and> holding (orders d) (oi_order oi)
        then returned_in rid d (oi_id oi) else 0)"
    proof (cases "ris = []")
      case False
      have "rget oi_id (order_items d) (oi_id oi) = Some oi"
        using rget_in_distinct [OF dist oi] .
      then have "product_of_return_item d i = oi_product oi \<and> oi_order oi = ret_order r" if "i \<in> set ris" for i
        using item [of i] that by (auto simp: ris_def product_of_return_item_def)
      then have "map g ris = map (\<lambda>i. if oi_product oi = Some k then ri_quantity i else 0) ris"
        and "i \<in> set ris \<Longrightarrow> oi_order oi = ret_order r" for i
        by (auto simp: g_def)
      moreover from this(2) False have "oi_order oi = ret_order r"
        by (cases ris) auto
      ultimately show ?thesis
        using h by (simp add: ri cong: map_cong)
    qed (simp add: ri)
  qed
  finally show ?thesis
    by simp
qed

lemma refund_conserves:
  assumes inv: "returns_inv d" and run: "complete_refund http fe rid now d = Inr (r1, d')" and k: "get_product d k \<noteq> None"
    and h: "holding (orders d) (ret_order r1)"
  shows "stock_in (products d') k = stock_in (products d) k + items_qty k (return_pieces d (return_items_of d rid))"
    "stock_in (products d') k + with_customers d' k = stock_in (products d) k + with_customers d k"
proof -
  have "stock_in (products d') k = stock_in (products d) k + items_qty k (return_pieces d (return_items_of d rid))
      \<and> with_customers d' k = with_customers d k - items_qty k (return_pieces d (return_items_of d rid))"
    using run inv
  proof (rule complete_refund_tables)
    fix r ord user
    assume al: "refund_allowed rid now d r ord user" and rid: "ret_id r = rid" "o_id ord = ret_order r"
      and r1: "r1 = completed_row fe now r" and eq: "returns d' = rupd ret_id (returns d) rid (\<lambda>_. r1)"
        "return_items d' = return_items d" "order_items d' = order_items d" "products d' = returned_shelf rid d"
      and os: "orders d' = (if returned_quantity (o_id ord) d' \<ge> ordered_quantity (o_id ord) d'
         then rupd o_id (orders d) (o_id ord) (set_order_status Refunded now) else orders d)"
    have r: "get_return d rid = Some r" "ret_type r = RefundReturn" "ret_status r = Received"
      using al by (simp_all add: refund_allowed_def)
    have comp: "is_completed_refund d' j \<longleftrightarrow> is_completed_refund d j \<or> j = rid" for j
      by (rule completed_refund_after [OF r(1,2) _ _ _ eq(1)]) (simp_all add: r1 rid)
    have ar: "already_returned j d' = already_returned j d + returned_in rid d j" for j
      using already_returned_after [OF r(1,3) comp eq(2)] by (simp add: returned_in_def)
    have inv': "returns_inv d'"
      by (rule refund_inv [OF inv run])
    let ?f = "\<lambda>os oi. if oi_product oi = Some k \<and> holding os (oi_order oi)
        then oi_quantity oi - already_returned (oi_id oi) d' else 0"
    have zero: "oi_quantity oi = already_returned (oi_id oi) d'"
      if all: "returned_quantity (o_id ord) d' \<ge> ordered_quantity (o_id ord) d'" and oi: "oi \<in> set (items_of d (o_id ord))" for oi
    proof -
      have items: "items_of d' (o_id ord) = items_of d (o_id ord)"
        by (simp add: items_of_def eq(3))
      have nn: "0 \<le> oi_quantity oj - already_returned (oi_id oj) d'" if "oj \<in> set (items_of d (o_id ord))" for oj
        using returns_invD(5) [OF inv'] that by (simp add: quantities_ok_def eq(3) items_of_def)
      have "oi_quantity oi - already_returned (oi_id oi) d'
          \<le> sum_list (map (\<lambda>oj. oi_quantity oj - already_returned (oi_id oj) d') (items_of d (o_id ord)))"
        using sum_list_member_le [OF nn oi] .
      also have "\<dots> = ordered_quantity (o_id ord) d' - returned_quantity (o_id ord) d'"
        by (simp add: sum_list_subtractf ordered_quantity_def returned_quantity_sum [OF inv'] items)
      finally show ?thesis
        using nn [OF oi] all by simp
    qed
    have "map (?f (orders d')) (order_items d) = map (?f (orders d)) (order_items d)"
    proof (cases "returned_quantity (o_id ord) d' \<ge> ordered_quantity (o_id ord) d'")
      case True
      have "holding (orders d') j = holding (orders d) j" if "j \<noteq> o_id ord" for j
        using os True that by (simp add: holding_def rget_rupd set_order_status_def)
      then show ?thesis
        using zero [OF True] by (auto simp: items_of_def)
    qed (use os in simp)
    then have "with_customers d' k = sum_list (map (?f (orders d)) (order_items d))"
      unfolding with_customers_def eq(3) by (rule arg_cong)
    also have "\<dots> = sum_list (map (\<lambda>oi. (if oi_product oi = Some k \<and> holding (orders d) (oi_order oi)
          then oi_quantity oi - already_returned (oi_id oi) d else 0)
        - (if oi_product oi = Some k \<and> holding (orders d) (oi_order oi) then returned_in rid d (oi_id oi) else 0)) (order_items d))"
      by (intro arg_cong [where f = sum_list] map_cong refl) (simp add: ar)
    also have "\<dots> = with_customers d k - items_qty k (return_pieces d (return_items_of d rid))"
      using returned_in_pieces [OF inv r(1)] h unfolding sum_list_subtractf with_customers_def by (simp add: r1)
    finally show ?thesis
      using k eq(4) by (auto simp: stock_in_unsell)
  qed
  then show "stock_in (products d') k = stock_in (products d) k + items_qty k (return_pieces d (return_items_of d rid))"
    "stock_in (products d') k + with_customers d' k = stock_in (products d) k + with_customers d k"
    by simp_all
qed

end
