(* ===== verification/Return_Numbers.thy ===== *)
theory Return_Numbers
  imports Returns
begin

text \<open>
  The numbers of the returns of one day: three padded digits sort like the numbers they show, so the
  greatest text is the last number given, until the counter needs a fourth digit.
\<close>

lemma str_less_append [simp]: "str_less (p @ s) (p @ t) = str_less s t"
  by (induction p) simp_all

lemma fold_str_max:
  assumes "m \<in> set (n # ns)" and "\<And>x. x \<in> set (n # ns) \<Longrightarrow> x \<noteq> m \<Longrightarrow> str_less x m \<and> \<not> str_less m x"
  shows "fold str_max ns n = m"
  using assms
proof (induction ns arbitrary: n)
  case (Cons x xs)
  have pick: "str_max x n \<in> {n, x}" "n = m \<or> x = m \<Longrightarrow> str_max x n = m"
    using Cons.prems(2) [of n] Cons.prems(2) [of x] by (auto simp: str_max_def)
  have "m \<in> set (str_max x n # xs)"
    using Cons.prems(1) pick(2) by (cases "n = m \<or> x = m") auto
  moreover have "str_less y m \<and> \<not> str_less m y" if "y \<in> set (str_max x n # xs)" "y \<noteq> m" for y
    using Cons.prems(2) [of y] pick(1) that by auto
  ultimately have "fold str_max xs (str_max x n) = m"
    by (rule Cons.IH)
  then show ?case
    by simp
qed simp

lemma digit_char_code: "0 \<le> n \<Longrightarrow> n < 10 \<Longrightarrow> (of_char (digit_char n) :: nat) = 48 + nat n"
  by (drule (1) less_10_cases) (auto simp: digit_char_def)

lemma digit_char_inj: "0 \<le> m \<Longrightarrow> m < 10 \<Longrightarrow> 0 \<le> n \<Longrightarrow> n < 10 \<Longrightarrow> digit_char m = digit_char n \<longleftrightarrow> m = n"
  by (metis digit_val_char)

lemma pad0_3:
  assumes "0 \<le> k" "k < 1000"
  shows "pad0 3 k = [digit_char (k div 100), digit_char (k div 10 mod 10), digit_char (k mod 10)]"
proof -
  have z: "digit_char 0 = CHR ''0''"
    by (simp add: digit_char_def)
  consider "k < 10" | "10 \<le> k" "k < 100" | "100 \<le> k"
    by linarith
  then show ?thesis
  proof cases
    case 1
    then show ?thesis
      using assms by (simp add: pad0_def str_pos.simps [of k] z numeral_2_eq_2)
  next
    case 2
    then have "k div 10 < 10"
      by simp
    then show ?thesis
      using assms 2 by (simp add: pad0_def str_pos.simps [of k] str_pos.simps [of "k div 10"] z mod_pos_pos_trivial)
  next
    case 3
    then have "\<not> k div 10 < 10" "k div 10 div 10 < 10" "k div 10 div 10 = k div 100"
      using assms by (auto simp: zdiv_zmult2_eq [symmetric])
    then show ?thesis
      using assms 3 by (simp add: pad0_def str_pos.simps [of k] str_pos.simps [of "k div 10"] str_pos.simps [of "k div 100"])
  qed
qed

lemma digits_less:
  assumes "0 \<le> b" "b < 10" "0 \<le> c" "c < 10" "0 \<le> y" "y < 10" "0 \<le> z" "z < (10::int)"
  shows "100 * a + 10 * b + c < 100 * x + 10 * y + z \<longleftrightarrow> a < x \<or> a = x \<and> (b < y \<or> b = y \<and> c < z)"
  using assms by (cases a x rule: linorder_cases; cases b y rule: linorder_cases; cases c z rule: linorder_cases) linarith+

lemma three_digits:
  assumes "0 \<le> k" "k < (1000::int)"
  obtains a b c where "k = 100 * a + 10 * b + c" "0 \<le> a" "a < 10" "0 \<le> b" "b < 10" "0 \<le> c" "c < 10"
    "pad0 3 k = [digit_char a, digit_char b, digit_char c]"
proof -
  have "k div 10 div 10 = k div 100"
    by (simp add: zdiv_zmult2_eq [symmetric])
  then have "k = 100 * (k div 100) + 10 * (k div 10 mod 10) + k mod 10"
    using mult_div_mod_eq [of 10 k] mult_div_mod_eq [of 10 "k div 10"] by linarith
  then show thesis
    using that [of "k div 100" "k div 10 mod 10" "k mod 10"] pad0_3 [OF assms] assms by simp
qed

lemma pad0_3_less:
  assumes "0 \<le> j" "j < 1000" "0 \<le> k" "k < 1000"
  shows "str_less (pad0 3 j) (pad0 3 k) \<longleftrightarrow> j < k"
proof -
  obtain a b c where j: "j = 100 * a + 10 * b + c" "0 \<le> a" "a < 10" "0 \<le> b" "b < 10" "0 \<le> c" "c < 10"
    "pad0 3 j = [digit_char a, digit_char b, digit_char c]"
    using three_digits [OF assms(1,2)] .
  obtain x y z where k: "k = 100 * x + 10 * y + z" "0 \<le> x" "x < 10" "0 \<le> y" "y < 10" "0 \<le> z" "z < 10"
    "pad0 3 k = [digit_char x, digit_char y, digit_char z]"
    using three_digits [OF assms(3,4)] .
  have "str_less (pad0 3 j) (pad0 3 k) \<longleftrightarrow> a < x \<or> a = x \<and> (b < y \<or> b = y \<and> c < z)"
    unfolding j(8) k(8) using j(2-7) k(2-7) by (simp add: digit_char_inj digit_char_code) auto
  also have "\<dots> \<longleftrightarrow> j < k"
    unfolding j(1) k(1) using digits_less [OF j(4-7) k(4-7)] by simp
  finally show ?thesis .
qed

lemma pad0_1000: "pad0 3 1000 = ''1000''"
  by code_simp

lemma pad0_1000_less:
  assumes "1 \<le> k" "k < 1000"
  shows "str_less ''1000'' (pad0 3 k) \<longleftrightarrow> 100 < k" "str_less (pad0 3 k) ''1000'' \<longleftrightarrow> k \<le> 100"
proof -
  have "pad0 3 (100::int) = ''100''"
    by code_simp
  then have *: "str_less ''100'' (pad0 3 k) \<longleftrightarrow> 100 < k" "str_less (pad0 3 k) ''100'' \<longleftrightarrow> k < 100"
    using pad0_3_less [of 100 k] pad0_3_less [of k 100] assms by simp_all
  obtain a b c where abc: "pad0 3 k = [a, b, c]"
    using pad0_3 assms by auto
  have eq: "pad0 3 k = ''100'' \<longleftrightarrow> k = 100"
    using pad0_inj [of k 100 3] assms \<open>pad0 3 100 = ''100''\<close> by auto
  have "str_less ''1000'' [a, b, c] \<longleftrightarrow> str_less ''100'' [a, b, c]"
    "str_less [a, b, c] ''1000'' \<longleftrightarrow> str_less [a, b, c] ''100'' \<or> [a, b, c] = ''100''"
    by (simp_all split: if_splits)
  then show "str_less ''1000'' (pad0 3 k) \<longleftrightarrow> 100 < k" "str_less (pad0 3 k) ''1000'' \<longleftrightarrow> k \<le> 100"
    using * eq abc by auto
qed

text \<open>The numbers \<open>1 \<dots> n\<close> of a day, in any order.\<close>

definition day_numbers :: "timestamp \<Rightarrow> int \<Rightarrow> string set" where
  "day_numbers now n = (\<lambda>k. return_prefix now @ pad0 3 k) ` {1..n}"

lemma generate_return_number_last:
  assumes "m \<in> set (numbers_of_day now d)"
    and "\<And>x. x \<in> set (numbers_of_day now d) \<Longrightarrow> x \<noteq> m \<Longrightarrow> str_less x m \<and> \<not> str_less m x"
    and "m = return_prefix now @ pad0 3 k" "0 \<le> k" "k < 1000"
  shows "generate_return_number now d = return_prefix now @ pad0 3 (k + 1)"
proof -
  obtain n ns where nd: "numbers_of_day now d = n # ns"
    using assms(1) by (cases "numbers_of_day now d") auto
  have "fold str_max ns n = m"
    using assms(1,2) unfolding nd by (rule fold_str_max)
  moreover have "drop (length m - 3) m = pad0 3 k"
    using assms(3) pad0_3 [OF assms(4,5)] by simp
  ultimately show ?thesis
    using assms(4) by (simp add: generate_return_number_def nd Let_def)
qed

lemma next_number:
  assumes "set (numbers_of_day now d) = day_numbers now n" "0 \<le> n" "n \<le> 999"
  shows "generate_return_number now d = return_prefix now @ pad0 3 (n + 1)"
proof (cases "n = 0")
  case True
  then show ?thesis
    using assms(1) by (simp add: day_numbers_def generate_return_number_def)
next
  case False
  show ?thesis
  proof (rule generate_return_number_last [where m = "return_prefix now @ pad0 3 n"])
    fix x
    assume x: "x \<in> set (numbers_of_day now d)" "x \<noteq> return_prefix now @ pad0 3 n"
    then obtain j where "x = return_prefix now @ pad0 3 j" "j \<in> {1..n}"
      using assms(1) unfolding day_numbers_def by blast
    moreover from this have "j \<noteq> n"
      using x(2) by auto
    ultimately have j: "x = return_prefix now @ pad0 3 j" "1 \<le> j" "j \<le> n" "j \<noteq> n"
      by simp_all
    show "str_less x (return_prefix now @ pad0 3 n) \<and> \<not> str_less (return_prefix now @ pad0 3 n) x"
      using assms(3) j by (simp add: pad0_3_less)
  qed (use assms False in \<open>auto simp: day_numbers_def\<close>)
qed

lemma number_stuck:
  assumes "set (numbers_of_day now d) = day_numbers now 1000"
  shows "generate_return_number now d = return_prefix now @ ''1000''"
proof -
  have "generate_return_number now d = return_prefix now @ pad0 3 (999 + 1)"
  proof (rule generate_return_number_last [where m = "return_prefix now @ pad0 3 999"])
    fix x
    assume x: "x \<in> set (numbers_of_day now d)" "x \<noteq> return_prefix now @ pad0 3 999"
    then obtain j where "x = return_prefix now @ pad0 3 j" "j \<in> {1..1000}"
      using assms unfolding day_numbers_def by blast
    moreover from this have "j \<noteq> 999"
      using x(2) by auto
    ultimately have j: "x = return_prefix now @ pad0 3 j" "1 \<le> j" "j \<le> 1000" "j \<noteq> 999"
      by simp_all
    show "str_less x (return_prefix now @ pad0 3 999) \<and> \<not> str_less (return_prefix now @ pad0 3 999) x"
    proof (cases "j = 1000")
      case True
      then show ?thesis
        using j(1) pad0_1000_less [of 999] by (simp add: pad0_1000)
    next
      case False
      then show ?thesis
        using j by (simp add: pad0_3_less)
    qed
  qed (use assms in \<open>auto simp: day_numbers_def\<close>)
  then show ?thesis
    by (simp add: pad0_1000)
qed

end
