(* ===== verification/Return_Properties.thy ===== *)
theory Return_Properties
  imports Return_Shares Return_Pieces Return_Numbers Payment_Properties
begin

text \<open>
  The properties of returns: nothing is returned twice, partial refunds add up exactly, a refund of
  the provider is never lost, pieces are conserved, numbers are consecutive and account numbers
  are protected.
\<close>

section \<open>A delivered order\<close>

text \<open>Two pieces of 10000, paid with 300 points, 100 points earned; then one piece comes back.\<close>

definition plain_cipher :: fernet where
  "plain_cipher = \<lparr>fe_encrypt = (\<lambda>s. Some (''gAAAAA'' @ replicate 60 (CHR ''x'') @ s)), fe_decrypt = (\<lambda>t. Some (drop 66 t))\<rparr>"

definition delivered_order :: order where
  "delivered_order = (shop_order Delivered)\<lparr>o_used_points := 300, o_earned_points := 100, o_final_amount := 22700\<rparr>"

definition spent_db :: "(exn + (use_result \<times> db))" where
  "spent_db = use_points_fifo 7 300 Use (Some 5) [] 10 ((order_db Delivered Done)\<lparr>orders := [delivered_order]\<rparr>)"

definition delivered_db :: db where
  "delivered_db = snd (projr spent_db)"

definition one_back :: return_form where
  "one_back = \<lparr>rf_type = RefundReturn, rf_reason = Defective, rf_detail = ''broken'', rf_items = [(6, 1)], rf_bank = ''bank'',
     rf_account = ''110-123-456789'', rf_holder = ''kim'', rf_exchange = None\<rparr>"

abbreviation after :: "(exn + ('a \<times> db)) \<Rightarrow> db" where
  "after x \<equiv> snd (projr x)"

text \<open>A return on its way to the seller, and then received.\<close>

definition ship_back :: "db \<Rightarrow> return_form \<Rightarrow> db" where
  "ship_back d form = (let rid = next_id d;
     d1 = after (request_return plain_cipher (\<lambda>_. None) 5 7 form 100 d);
     d2 = after (approve_return plain_cipher rid '''' 110 d1);
     d3 = after (update_return_tracking plain_cipher (\<lambda>_. None) rid ''cj'' ''1'' d2)
   in after (confirm_receive_return plain_cipher rid d3))"

definition back_once :: db where
  "back_once = ship_back delivered_db one_back"

definition refunded_once :: db where
  "refunded_once = after (complete_refund demo_http plain_cipher 61 200 back_once)"

lemma after_Inr: "\<not> isl x \<Longrightarrow> x = Inr (fst (projr x), after x)"
  by (cases x) auto

lemma delivered_db_inv: "shop_inv delivered_db"
proof -
  let ?d = "(order_db Delivered Done)\<lparr>orders := [delivered_order]\<rparr>"
  have inv: "shop_inv ?d"
    by (auto simp: delivered_order_def shop_defs shop_inv_def stock_inv_def products_ok_def orders_ok_def items_ok_def
        cart_items_ok_def ledger_inv_def ledger_wf_def wf_history_def accounts_ok_def rows_ok_def row_ok_def
        owned_points_def owned_remaining_def remaining_points_def used_amount_def)
  have "\<not> isl spent_db"
    by code_simp
  then have "use_points_fifo 7 300 Use (Some 5) [] 10 ?d = Inr (fst (projr spent_db), delivered_db)"
    unfolding delivered_db_def using after_Inr [of spent_db] by (simp add: spent_db_def)
  moreover have "order_owned ?d (Some 5) 7"
    by (simp add: order_owned_def delivered_order_def shop_defs)
  ultimately show ?thesis
    using shop_change_inv [OF ledger_shop_change [OF inv use_points_fifo_change [OF shop_invD(1) [OF inv]]]] by blast
qed

lemma delivered_db_start: "no_returns delivered_db"
proof -
  have "returns delivered_db = [] \<and> return_items delivered_db = [] \<and> keys_distinct oi_id (order_items delivered_db)"
    by code_simp
  then show ?thesis
    using delivered_db_inv by (simp add: no_returns_def)
qed

text \<open>Every step of the returns of one order is a step of the system.\<close>

lemma refund_phase_step: "refund_phase oid d d' \<Longrightarrow> return_step d d'"
proof (erule refund_phase.cases)
  fix http fe rid now r e e'
  assume e: "d = e" "d' = e'" "complete_refund http fe rid now e = Inr (r, e')"
  then have "complete_return http fe rid [] [] now e = Inr (r, e')"
    by (auto simp: complete_return_def complete_refund_def rbind_eq_Inr of_get_eq_Inr split: if_splits)
  then show "return_step d d'"
    using e by (auto intro: return_step.finish)
qed (blast intro: return_step.intros)+

lemma ship_back_phases:
  assumes x: "x1 = request_return plain_cipher (\<lambda>_. None) 5 7 form 100 d" "x2 = approve_return plain_cipher (next_id d) '''' 110 (after x1)"
      "x3 = update_return_tracking plain_cipher (\<lambda>_. None) (next_id d) ''cj'' ''1'' (after x2)"
      "x4 = confirm_receive_return plain_cipher (next_id d) (after x3)"
    and ok: "\<not> isl x1" "\<not> isl x2" "\<not> isl x3" "\<not> isl x4"
  shows "(refund_phase 5)\<^sup>*\<^sup>* d (ship_back d form)"
proof -
  have "refund_phase 5 d (after x1)"
    by (rule refund_phase.request) (use after_Inr [OF ok(1)] in \<open>simp only: x(1)\<close>)
  moreover have "refund_phase 5 (after x1) (after x2)"
    by (rule refund_phase.approve) (use after_Inr [OF ok(2)] in \<open>simp only: x(2)\<close>)
  moreover have "refund_phase 5 (after x2) (after x3)"
    by (rule refund_phase.tracking) (use after_Inr [OF ok(3)] in \<open>simp only: x(3)\<close>)
  moreover have "refund_phase 5 (after x3) (after x4)"
    by (rule refund_phase.receive) (use after_Inr [OF ok(4)] in \<open>simp only: x(4)\<close>)
  moreover have "ship_back d form = after x4"
    by (simp add: ship_back_def Let_def x)
  ultimately show ?thesis
    by (metis (no_types) rtranclp.rtrancl_into_rtrancl rtranclp.rtrancl_refl)
qed

lemma back_once_phases: "(refund_phase 5)\<^sup>*\<^sup>* delivered_db back_once"
  unfolding back_once_def by (rule ship_back_phases [OF refl refl refl refl]) code_simp+

lemma refund_once:
  "map_sum (\<lambda>_. ()) (\<lambda>x. (ret_order (fst x), ret_shipping_fee (fst x))) (complete_refund demo_http plain_cipher 61 200 back_once)
     = Inr (5, 0)"
  by code_simp

lemma refunded_once_run:
  obtains r where "complete_refund demo_http plain_cipher 61 200 back_once = Inr (r, refunded_once)" "ret_order r = 5"
    "ret_shipping_fee r = 0"
proof -
  obtain r d where "complete_refund demo_http plain_cipher 61 200 back_once = Inr (r, d)" "ret_order r = 5" "ret_shipping_fee r = 0"
    using refund_once by (cases "complete_refund demo_http plain_cipher 61 200 back_once") auto
  then show thesis
    using that by (simp add: refunded_once_def)
qed

lemma refund_once_phase: "refund_phase 5 back_once refunded_once"
  by (rule refunded_once_run) (rule refund_phase.refund)

lemma phases_reachable: "(refund_phase 5)\<^sup>*\<^sup>* d d' \<Longrightarrow> return_system.reachable d \<Longrightarrow> return_system.reachable d'"
  by (induction rule: rtranclp_induct) (auto intro: return_system.reachable.step refund_phase_step)

lemma back_once_reachable: "return_system.reachable back_once"
  by (rule phases_reachable [OF back_once_phases return_system.reachable.start [OF delivered_db_start]])

section \<open>Nothing is returned twice\<close>

text \<open>C24: in every reachable state of the returns, whatever the rest of the shop does in between, no more pieces of an
  order item are refunded than were ordered, the goods refunded for an order are worth no more than the goods of the order,
  an order has at most one return in progress, and every step moves each return at most one state forward along
  requested, approved, shipping, received, completed (or from requested to rejected): finished returns stay finished.\<close>

theorem nothing_returned_twice:
  assumes reach: "return_system.reachable d" and st: "return_step d d'"
  shows "(\<forall>oi \<in> set (order_items d'). 0 \<le> already_returned (oi_id oi) d' \<and> already_returned (oi_id oi) d' \<le> oi_quantity oi)
    \<and> ((\<forall>oi \<in> set (items_of d' oid). 0 \<le> oi_price oi) \<longrightarrow> refunded_before oid d' \<le> goods_value oid d')
    \<and> (\<forall>r \<in> set (returns d'). \<forall>s \<in> set (returns d').
         ret_order r = ret_order s \<and> is_active_return r \<and> is_active_return s \<longrightarrow> ret_id r = ret_id s)
    \<and> advances d d' rid"
proof -
  have inv: "returns_inv d" "returns_inv d'"
    using return_system.reachable_inv [OF reach] return_step_inv [OF _ st] by blast+
  show ?thesis
  proof (intro conjI)
    show "\<forall>oi \<in> set (order_items d'). 0 \<le> already_returned (oi_id oi) d' \<and> already_returned (oi_id oi) d' \<le> oi_quantity oi"
      using returns_invD(5) [OF inv(2)] already_returned_nonneg [OF returns_invD(3) [OF inv(2)]] by (simp add: quantities_ok_def)
    show "(\<forall>oi \<in> set (items_of d' oid). 0 \<le> oi_price oi) \<longrightarrow> refunded_before oid d' \<le> goods_value oid d'"
      using refunded_before_le [OF inv(2)] by blast
    show "\<forall>r \<in> set (returns d'). \<forall>s \<in> set (returns d').
         ret_order r = ret_order s \<and> is_active_return r \<and> is_active_return s \<longrightarrow> ret_id r = ret_id s"
      using returns_invD(4) [OF inv(2)] unfolding one_active_def .
    show "advances d d' rid"
      by (rule return_step_advances [OF inv(1) st])
  qed
qed

theorem nothing_returned_twice_witness:
  "return_system.reachable back_once \<and> return_step back_once refunded_once
    \<and> list_all (\<lambda>oi. already_returned (oi_id oi) refunded_once \<le> oi_quantity oi) (order_items refunded_once)
    \<and> advances back_once refunded_once 61"
  using nothing_returned_twice [OF back_once_reachable refund_phase_step [OF refund_once_phase], of 5 61]
    back_once_reachable refund_phase_step [OF refund_once_phase] unfolding list_all_iff by blast

section \<open>Partial refunds add up\<close>

text \<open>C25: however an order is returned in parts, what is paid back follows exactly from the goods refunded so far: the
  points refunded and the earned points reclaimed are the rounded-down shares of the goods, the provider pays back the rest.
  Rounding errors do not accumulate: once all goods are back, exactly the points used are refunded, exactly the points
  earned are reclaimed and exactly the rest of the price is paid back.\<close>

theorem partial_refunds_add_up:
  assumes inv: "returns_inv d" and ok: "refundable oid ord d" and run: "(refund_phase oid)\<^sup>*\<^sup>* d d'"
  defines "R \<equiv> refunded_before oid d" and "R' \<equiv> refunded_before oid d'"
  shows "booked CancelRefund oid d' - booked CancelRefund oid d = used_share ord R' - used_share ord R
    \<and> booked CancelDeduct oid d - booked CancelDeduct oid d' = earned_share ord R' - earned_share ord R
    \<and> paid_back oid d' - paid_back oid d = R' - R - (used_share ord R' - used_share ord R)
    \<and> (R = 0 \<and> R' = o_total_amount ord \<longrightarrow>
         booked CancelRefund oid d' - booked CancelRefund oid d = o_used_points ord
         \<and> booked CancelDeduct oid d - booked CancelDeduct oid d' = o_earned_points ord
         \<and> paid_back oid d' - paid_back oid d = o_total_amount ord - o_used_points ord)"
proof -
  have st: "settled oid ord d d'"
    using refund_phases_settled [OF run inv ok] by blast
  have o: "0 < o_total_amount ord" "0 \<le> o_used_points ord" "0 \<le> o_earned_points ord"
    using ok by (simp_all add: refundable_def)
  show ?thesis
    using st share_ends [OF o(1,2)] share_ends [OF o(1,3)] unfolding settled_def Let_def R_def R'_def by simp
qed

lemma delivered_db_refundable:
  "refundable 5 delivered_order delivered_db"
proof -
  have "map (\<lambda>x. (o_id x, o_total_amount x)) (orders delivered_db) = [(5, 20000)]
      \<and> list_ex (\<lambda>h. ph_order h = Some 5 \<and> ph_type h = Use) (histories delivered_db)
      \<and> (\<forall>oi \<in> set (order_items delivered_db). 0 \<le> oi_price oi)"
    by code_simp
  moreover have "orders delivered_db = [delivered_order]"
    by code_simp
  ultimately show ?thesis
    by (simp add: refundable_def) (simp add: delivered_order_def shop_order_def)
qed

theorem partial_refunds_add_up_witness:
  "booked CancelRefund 5 refunded_once - booked CancelRefund 5 delivered_db = 150
    \<and> booked CancelDeduct 5 delivered_db - booked CancelDeduct 5 refunded_once = 50
    \<and> paid_back 5 refunded_once - paid_back 5 delivered_db = 9850"
proof -
  have "(refund_phase 5)\<^sup>*\<^sup>* delivered_db refunded_once"
    using back_once_phases refund_once_phase by (rule rtranclp.rtrancl_into_rtrancl)
  note add = partial_refunds_add_up [OF no_returns_inv [OF delivered_db_start] delivered_db_refundable this]
  have R: "refunded_before 5 delivered_db = 0" "refunded_before 5 refunded_once = 10000"
    by code_simp+
  have "o_used_points delivered_order = 300" "o_earned_points delivered_order = 100" "o_total_amount delivered_order = 20000"
    by (simp_all add: delivered_order_def shop_order_def)
  then show ?thesis
    using add unfolding R by (simp add: proportional_share_def)
qed

section \<open>A refund is never lost\<close>

lemma refund_cash_ok:
  assumes pays: "payments_ok d" and pm: "rs_cash sp > 0 \<Longrightarrow> \<exists>p dat. pm = Some p \<and> p \<in> set (payments d)
      \<and> rs_cash sp \<le> pay_amount p - pay_canceled_amount p
      \<and> toss_refund http fe p r (rs_cash sp) = Inr dat \<and> cancel_response_ok dat"
  shows "\<exists>d'. refund_cash http fe pm r sp now d = Inr ((), d')"
proof (cases "rs_cash sp > 0")
  case True
  then obtain p dat where p: "pm = Some p" "p \<in> set (payments d)" "rs_cash sp \<le> pay_amount p - pay_canceled_amount p"
    "toss_refund http fe p r (rs_cash sp) = Inr dat" "cancel_response_ok dat"
    using pm by blast
  have "get_payment d (pay_id p) = Some p"
    using pays p(2) by (auto simp: payments_ok_def intro: rget_in_distinct)
  from mark_as_partial_canceled_ok [OF pays this p(5), of "rs_cash sp" now] show ?thesis
    using True p by (auto simp: refund_cash_def)
qed (simp add: refund_cash_def)

lemma complete_refund_commits:
  assumes inv: "returns_inv d" and pays: "payments_ok d" and al: "refund_allowed rid now d r ord user"
    and toss: "rs_cash (refund_shares ord r d) > 0 \<Longrightarrow> \<exists>p dat. payment_of d (o_id ord) = Some p
      \<and> rs_cash (refund_shares ord r d) \<le> pay_amount p - pay_canceled_amount p
      \<and> toss_refund http fe p r (rs_cash (refund_shares ord r d)) = Inr dat \<and> cancel_response_ok dat"
  shows "\<exists>r' d'. complete_refund http fe rid now d = Inr (r', d')"
proof -
  let ?sp = "refund_shares ord r d"
  have mem: "payment_of d (o_id ord) = Some p \<Longrightarrow> p \<in> set (payments d)" for p
    by (auto simp: payment_of_def find_Some_iff)
  have "\<exists>d1. refund_cash http fe (payment_of d (o_id ord)) r ?sp now d = Inr ((), d1)"
    by (rule refund_cash_ok [OF pays]) (use toss mem in blast)
  then obtain d1 where d1: "refund_cash http fe (payment_of d (o_id ord)) r ?sp now d = Inr ((), d1)"
    by blast
  note cash = refund_cash_Inr [OF d1]
  note c = cash_refunded_frame [OF cash]
  define e where "e = d1\<lparr>products := returned_shelf rid d\<rparr>"
  have r: "get_return d rid = Some r" "get_order d (ret_order r) = Some ord" "get_user d (ret_user r) = Some user"
    "earned_reclaimable user ?sp now d"
    using al by (simp_all add: refund_allowed_def)
  have inv_e: "shop_inv e"
    unfolding e_def by (rule returned_shelf_inv [OF returns_invD(1) [OF inv] returns_inv_quantity [OF inv] cash])
  have "order_owned e (Some (o_id ord)) (ret_user r)"
    using returns_inv_return(3) [OF inv r(1)] c(3) rget_Some_key [OF r(2)] by (simp add: order_owned_def e_def)
  moreover have "get_user e (ret_user r) = Some user"
    using r(3) by (simp add: e_def c)
  moreover have "rs_earned ?sp \<le> get_usable_points (ret_user r) True now e" if "rs_earned ?sp > 0"
    using r(4) that rget_Some_key [OF r(3)] usable_cong [of e d] by (simp add: earned_reclaimable_def e_def c)
  ultimately obtain d2 where "refund_points ord r ?sp now e = Inr ((), d2)"
    using refund_points_ok [OF shop_invD(1) [OF inv_e]] by blast
  then show ?thesis
    using d1 finish_refund_ok [of fe ord r ?sp now d2] unfolding complete_refund_allowed [OF al] shelf_after_cash [OF cash] e_def
    by (auto simp: shelf_after_cash [OF cash])
qed

text \<open>C26: completing a refund never loses a refund of the provider.  All refusals are decided before the provider is called
  (they do not depend on it); once the provider has refunded and answered in its documented shape, the transaction commits: no
  stock or point operation after it can fail.  A completed refund cannot be completed again, whatever the provider answers.\<close>

theorem return_refund_never_lost:
  assumes inv: "returns_inv d" and pays: "payments_ok d"
    and toss: "\<forall>r p cash. get_return d rid = Some r \<and> payment_of d (ret_order r) = Some p \<longrightarrow>
       (\<exists>dat. toss_refund http fe p r cash = Inr dat \<and> cancel_response_ok dat)"
  shows "(\<exists>r d'. complete_refund http fe rid now d = Inr (r, d')
       \<and> (\<forall>http' later. complete_refund http' fe rid later d' = Inl ValueError))
    \<or> (\<forall>http'. complete_refund http' fe rid now d \<in> {Inl DoesNotExist, Inl ValueError})"
proof (cases "\<exists>r ord user. refund_allowed rid now d r ord user")
  case True
  then obtain r ord user where al: "refund_allowed rid now d r ord user"
    by blast
  let ?sp = "refund_shares ord r d"
  let ?ok = "\<lambda>p. rs_cash ?sp \<le> pay_amount p - pay_canceled_amount p"
  have r: "get_return d rid = Some r" "o_id ord = ret_order r"
    using al by (auto simp: refund_allowed_def dest: rget_Some_key)
  show ?thesis
  proof (cases "rs_cash ?sp > 0 \<and> \<not> (\<exists>p. payment_of d (o_id ord) = Some p \<and> ?ok p)")
    case True
    then have "refund_cash http' fe (payment_of d (o_id ord)) r ?sp now d = Inl ValueError" for http'
      by (cases "payment_of d (o_id ord)") (auto simp: refund_cash_def)
    then show ?thesis
      by (simp add: complete_refund_allowed [OF al])
  next
    case False
    have "\<exists>r' d'. complete_refund http fe rid now d = Inr (r', d')"
      by (rule complete_refund_commits [OF inv pays al]) (use False toss r in fastforce)
    then obtain r' d' where run: "complete_refund http fe rid now d = Inr (r', d')"
      by blast
    from run inv have "complete_refund http' fe rid later d' = Inl ValueError" for http' later
    proof (rule complete_refund_tables)
      fix r0 ord0 user0
      assume "refund_allowed rid now d r0 ord0 user0" "ret_id r0 = rid" "r' = completed_row fe now r0"
        "returns d' = rupd ret_id (returns d) rid (\<lambda>_. r')"
      then have "get_return d' rid = Some (completed_row fe now r0)"
        by (auto simp: refund_allowed_def rget_rupd_const)
      then show ?thesis
        by (simp add: complete_refund_def)
    qed
    then show ?thesis
      using run by blast
  qed
next
  case False
  then show ?thesis
    using complete_refund_refused by fastforce
qed

lemma demo_refund: "\<exists>dat. toss_refund demo_http plain_cipher p r cash = Inr dat \<and> cancel_response_ok dat"
proof -
  have "\<exists>acc. refund_account plain_cipher p r = Inr acc"
    by (auto simp: refund_account_def get_decrypted_account_number_def decrypt_account_number_def plain_cipher_def)
  then show ?thesis
    using demo_response_ok by (auto simp: toss_refund_def demo_toss)
qed

lemma back_once_payments: "payments_ok back_once"
proof -
  have "map (\<lambda>p. (pay_id p, pay_key p)) (payments back_once) = [(8, Some ''key'')]"
    by code_simp
  then show ?thesis
    by (auto simp: payments_ok_def)
qed

theorem return_refund_never_lost_witness:
  "\<exists>r d'. complete_refund demo_http plain_cipher 61 200 back_once = Inr (r, d')
     \<and> (\<forall>http' later. complete_refund http' plain_cipher 61 later d' = Inl ValueError)"
proof -
  have run: "complete_refund demo_http plain_cipher 61 200 back_once \<notin> {Inl DoesNotExist, Inl ValueError}"
    by (rule refunded_once_run) simp
  have "\<forall>r p cash. get_return back_once 61 = Some r \<and> payment_of back_once (ret_order r) = Some p \<longrightarrow>
       (\<exists>dat. toss_refund demo_http plain_cipher p r cash = Inr dat \<and> cancel_response_ok dat)"
    using demo_refund by blast
  from return_refund_never_lost [OF return_system.reachable_inv [OF back_once_reachable] back_once_payments this]
  show ?thesis
    using run by blast
qed

section \<open>Return numbers\<close>

lemma day_numbers_Suc: "0 \<le> n \<Longrightarrow> day_numbers now (n + 1) = insert (return_prefix now @ pad0 3 (n + 1)) (day_numbers now n)"
proof -
  assume "0 \<le> n"
  then have "{1..n + 1} = insert (n + 1) {1..n}"
    by auto
  then show ?thesis
    by (simp add: day_numbers_def)
qed

lemma numbers_of_day_requested:
  assumes "requested r new xs d d'" and "ret_number r = return_prefix now @ s"
  shows "numbers_of_day now d' = numbers_of_day now d @ [ret_number r]"
  using assms by (simp add: numbers_of_day_def requested_def)

text \<open>While a day has at most 999 returns, their numbers are the day's prefix with 001, 002, and so on without gaps: an
  accepted request gets the next number, which no return has.  With 1000 returns the number proposed is the last one again, so
  that the unique column refuses every further request of the day.\<close>

theorem return_numbers_consecutive:
  assumes inv: "returns_inv d" and nums: "set (numbers_of_day now d) = day_numbers now n" and n: "0 \<le> n" "n \<le> 1000"
  shows "case request_return fe so oid uid form now d of
      Inl e \<Rightarrow> True
    | Inr (r, d') \<Rightarrow> n \<le> 999 \<and> ret_number r = return_prefix now @ pad0 3 (n + 1)
        \<and> ret_number r \<notin> ret_number ` set (returns d) \<and> set (numbers_of_day now d') = day_numbers now (n + 1)"
proof -
  have "n \<le> 999 \<and> ret_number r = return_prefix now @ pad0 3 (n + 1) \<and> ret_number r \<notin> ret_number ` set (returns d)
      \<and> set (numbers_of_day now d') = day_numbers now (n + 1)"
    if run: "request_return fe so oid uid form now d = Inr (r, d')" for r d'
    using inv run
  proof (rule request_return_Inr)
    fix xs new
    assume rq: "requested r new xs d d'"
      and num: "ret_number r = generate_return_number now d" "ret_number r \<notin> ret_number ` set (returns d)"
    have old: "set (numbers_of_day now d) \<subseteq> ret_number ` set (returns d)"
      by (auto simp: numbers_of_day_def)
    have "return_prefix now @ ''1000'' \<in> day_numbers now 1000"
      unfolding day_numbers_def pad0_1000 [symmetric] by (rule imageI) simp
    then have "n \<noteq> 1000"
      using num number_stuck [of now d] nums old by auto
    then have "n \<le> 999"
      using n by simp
    note next_n = next_number [OF nums n(1) this]
    show ?thesis
      using num \<open>n \<le> 999\<close> numbers_of_day_requested [OF rq, of now "pad0 3 (n + 1)"] nums
      by (simp add: next_n day_numbers_Suc [OF n(1)])
  qed
  then show ?thesis
    by (auto split: sum.splits)
qed

theorem return_numbers_consecutive_witness:
  "map_sum (\<lambda>_. ()) (\<lambda>x. ret_number (fst x)) (request_return plain_cipher (\<lambda>_. None) 5 7 one_back 100 delivered_db)
     = Inr (return_prefix 100 @ ''001'')"
proof -
  have "set (numbers_of_day 100 delivered_db) = day_numbers 100 0"
    using delivered_db_start by (simp add: no_returns_def numbers_of_day_def day_numbers_def)
  from return_numbers_consecutive [OF no_returns_inv [OF delivered_db_start] this, of plain_cipher "\<lambda>_. None" 5 7 one_back]
  have "case request_return plain_cipher (\<lambda>_. None) 5 7 one_back 100 delivered_db of Inl e \<Rightarrow> True
      | Inr (r, d') \<Rightarrow> ret_number r = return_prefix 100 @ pad0 3 1"
    by (auto split: sum.splits)
  moreover have "\<not> isl (request_return plain_cipher (\<lambda>_. None) 5 7 one_back 100 delivered_db)"
    by code_simp
  moreover have "pad0 3 1 = ''001''"
    by code_simp
  ultimately show ?thesis
    by (auto split: sum.splits simp: isl_def)
qed

section \<open>Pieces and returns\<close>

lemma complete_exchange_product:
  assumes "complete_exchange fe rid tracking company now d = Inr (r', d')" "get_return d rid = Some r"
  shows "ret_exchange_product r' = ret_exchange_product r"
  using assms by (auto simp: complete_exchange_def save_return_def rbind_eq_Inr of_get_eq_Inr Let_def split: if_splits)

text \<open>Completing a return puts exactly the returned pieces back on the shelf, and an exchange takes one piece of the
  exchange product.  A refund only moves pieces from the customers to the shelf: for an order that holds stock, the pieces of
  every product on the shelf and with the customers together stay the same.\<close>

theorem return_conserves_pieces:
  assumes inv: "returns_inv d" and run: "complete_return http fe rid tracking company now d = Inr (r', d')"
    and k: "get_product d k \<noteq> None" and h: "holding (orders d) (ret_order r')"
  shows "stock_in (products d') k = stock_in (products d) k + items_qty k (return_pieces d (return_items_of d rid))
      - (if ret_type r' = ExchangeReturn \<and> ret_exchange_product r' = Some k then 1 else 0)
    \<and> (ret_type r' = RefundReturn \<longrightarrow>
         stock_in (products d') k + with_customers d' k = stock_in (products d) k + with_customers d k)"
proof -
  from complete_return_Inr [OF run] show ?thesis
  proof
    assume r: "complete_refund http fe rid now d = Inr (r', d')"
    have "ret_type r' = RefundReturn"
      using r inv by (rule complete_refund_tables) (simp add: refund_allowed_def)
    then show ?thesis
      using refund_conserves [OF inv r k h] by simp
  next
    assume ex: "complete_exchange fe rid tracking company now d = Inr (r', d')"
    from exchange_shelf [OF inv ex] obtain r ps where r: "get_return d rid = Some r" "ret_type r = ExchangeReturn" "row_step r r'"
      "only_return rid r' (d\<lparr>products := ps\<rparr>) d'"
      "stock_in ps k = stock_in (products d) k
         - (if ret_exchange_product r = Some k then 1 else 0) + items_qty k (return_pieces d (return_items_of d rid))"
      using k by blast
    then show ?thesis
      using complete_exchange_product [OF ex r(1)] by (simp add: only_return_def row_step_def)
  qed
qed

lemma refunded_once_return:
  obtains r where "complete_return demo_http plain_cipher 61 [] [] 200 back_once = Inr (r, refunded_once)" "ret_order r = 5"
    "ret_type r = RefundReturn"
proof (rule refunded_once_run)
  fix r
  assume r: "complete_refund demo_http plain_cipher 61 200 back_once = Inr (r, refunded_once)" "ret_order r = 5"
  then have "complete_return demo_http plain_cipher 61 [] [] 200 back_once = Inr (r, refunded_once)"
    by (auto simp: complete_return_def complete_refund_def rbind_eq_Inr of_get_eq_Inr split: if_splits)
  moreover have "ret_type r = RefundReturn"
    using r(1) return_system.reachable_inv [OF back_once_reachable]
    by (rule complete_refund_tables) (simp add: refund_allowed_def)
  ultimately show thesis
    using r(2) that by blast
qed

theorem return_conserves_pieces_witness:
  "stock_in (products refunded_once) 30 = stock_in (products back_once) 30 + 1
    \<and> stock_in (products refunded_once) 30 + with_customers refunded_once 30
      = stock_in (products back_once) 30 + with_customers back_once 30"
proof (rule refunded_once_return)
  fix r
  assume r: "complete_return demo_http plain_cipher 61 [] [] 200 back_once = Inr (r, refunded_once)" "ret_order r = 5"
    "ret_type r = RefundReturn"
  have "get_product back_once 30 \<noteq> None" "holding (orders back_once) 5"
    "items_qty 30 (return_pieces back_once (return_items_of back_once 61)) = 1"
    by code_simp+
  then show ?thesis
    using return_conserves_pieces [OF return_system.reachable_inv [OF back_once_reachable] r(1), of 30] r(2,3) by simp
qed

text \<open>An exchange of both pieces of the order takes one piece from the shelf and puts two back.\<close>

definition both_exchanged :: return_form where
  "both_exchanged = one_back\<lparr>rf_type := ExchangeReturn, rf_items := [(6, 2)]\<rparr>"

lemma exchange_takes_one_piece:
  "map (\<lambda>x. stock_in (products x) 30) [ship_back delivered_db both_exchanged,
      after (complete_return demo_http plain_cipher 61 ''1'' ''cj'' 200 (ship_back delivered_db both_exchanged))] = [9, 10]
    \<and> map_sum (\<lambda>_. ()) (\<lambda>x. (ret_status (fst x), map ri_quantity (return_items_of (snd x) 61)))
        (complete_return demo_http plain_cipher 61 ''1'' ''cj'' 200 (ship_back delivered_db both_exchanged))
      = Inr (Completed, [2])"
  by code_simp

section \<open>The account number\<close>

text \<open>C27: a refund account number survives storage.  For a cipher whose tokens have Fernet's shape and decrypt to what was
  encrypted, the number that was entered is the number read back, also when the request is saved again; where the cipher works,
  only its token is stored, and the number shown never has more than four of its characters.\<close>

theorem account_number_protected:
  assumes shape: "\<forall>s t. fe_encrypt fe s = Some t \<longrightarrow> is_encrypted t"
    and inverse: "\<forall>s t. fe_encrypt fe s = Some t \<longrightarrow> fe_decrypt fe t = Some s"
    and plain: "\<not> is_encrypted (ret_account_number r)"
  shows "get_decrypted_account_number fe (save_account fe r) = Inr (ret_account_number r)
    \<and> save_account fe (save_account fe r) = save_account fe r
    \<and> (ret_account_number r \<noteq> [] \<and> fe_encrypt fe (ret_account_number r) \<noteq> None \<longrightarrow>
         is_encrypted (ret_account_number (save_account fe r))
         \<and> fe_encrypt fe (ret_account_number r) = Some (ret_account_number (save_account fe r)))
    \<and> get_masked_account_number fe (save_account fe r) = mask_account_number (ret_account_number r)
    \<and> length (shown (get_masked_account_number fe (save_account fe r))) \<le> 4"
proof -
  let ?a = "ret_account_number r"
  have token: "is_encrypted t \<and> t \<noteq> [] \<and> fe_decrypt fe t = Some ?a" if "fe_encrypt fe ?a = Some t" for t
    using shape inverse that by (cases "t = []") (fastforce simp: is_encrypted_def)+
  have "get_decrypted_account_number fe (save_account fe r) = Inr ?a \<and> save_account fe (save_account fe r) = save_account fe r
      \<and> (?a \<noteq> [] \<and> fe_encrypt fe ?a \<noteq> None \<longrightarrow> is_encrypted (ret_account_number (save_account fe r))
           \<and> fe_encrypt fe ?a = Some (ret_account_number (save_account fe r)))
      \<and> (ret_account_number (save_account fe r) = [] \<longleftrightarrow> ?a = [])"
    using token plain by (cases "fe_encrypt fe ?a")
      (auto simp: save_account_def get_decrypted_account_number_def decrypt_account_number_def encrypt_account_number_def)
  moreover from this have "get_masked_account_number fe (save_account fe r) = mask_account_number ?a"
    by (auto simp: get_masked_account_number_def mask_account_number_def)
  ultimately show ?thesis
    using mask_account_number_shows by simp
qed

definition new_request :: return_request where
  "new_request = new_return plain_cipher delivered_order 7 one_back None ''RET001'' 61"

definition plain_request :: return_request where
  "plain_request = new_request\<lparr>ret_account_number := ''110-123-456789''\<rparr>"

theorem account_number_protected_witness:
  "get_decrypted_account_number plain_cipher (save_account plain_cipher plain_request) = Inr ''110-123-456789''
    \<and> get_masked_account_number plain_cipher (save_account plain_cipher plain_request) = ''***-***-**6789''"
proof -
  have "\<forall>s t. fe_encrypt plain_cipher s = Some t \<longrightarrow> is_encrypted t"
    "\<forall>s t. fe_encrypt plain_cipher s = Some t \<longrightarrow> fe_decrypt plain_cipher t = Some s"
    by (auto simp: plain_cipher_def is_encrypted_def)
  moreover have a: "ret_account_number plain_request = ''110-123-456789''"
    by (simp add: plain_request_def)
  then have "\<not> is_encrypted (ret_account_number plain_request)"
    by (simp add: is_encrypted_def)
  moreover have "mask_account_number ''110-123-456789'' = ''***-***-**6789''"
    by code_simp
  ultimately show ?thesis
    using account_number_protected [of plain_cipher plain_request] a by simp
qed

end
