(* ===== verification/Carts.thy ===== *)
theory Carts
  imports Orders
begin

text \<open>
  Shopping carts: \<^verbatim>\<open>src/shopping/services/cart_service.py\<close>, the carts and cart items of
  \<^verbatim>\<open>models/cart.py\<close> and the check of a cart before it is ordered
  (\<^verbatim>\<open>serializers/order_serializers.py\<close>).

  A cart is named by its id.  Rows stand in the table in the order they were created, so that the
  default order \<^verbatim>\<open>-added_at\<close> of the items is the reverse of the table.  Prefetching of related
  rows does not change what is returned and is left out.
\<close>

section \<open>Reading carts\<close>

definition cart_lines :: "db \<Rightarrow> pk \<Rightarrow> cart_item list" where
  "cart_lines d cid = rev (cart_items_of d cid)"

definition get_cart_item :: "db \<Rightarrow> pk \<Rightarrow> pk \<Rightarrow> cart_item option" where
  "get_cart_item d cid item_id = find (\<lambda>i. ci_id i = item_id) (cart_lines d cid)"

definition item_of_product :: "db \<Rightarrow> pk \<Rightarrow> pk \<Rightarrow> cart_item option" where
  "item_of_product d cid product_id = find (\<lambda>i. ci_product i = product_id) (cart_lines d cid)"

definition upd_cart_item :: "pk \<Rightarrow> (cart_item \<Rightarrow> cart_item) \<Rightarrow> db \<Rightarrow> db" where
  "upd_cart_item k f d = d\<lparr>cart_items := rupd ci_id (cart_items d) k f\<rparr>"

definition delete_cart_item :: "pk \<Rightarrow> db \<Rightarrow> db" where
  "delete_cart_item k d = d\<lparr>cart_items := filter (\<lambda>i. ci_id i \<noteq> k) (cart_items d)\<rparr>"

definition set_quantity :: "int \<Rightarrow> cart_item \<Rightarrow> cart_item" where
  "set_quantity n i = i\<lparr>ci_quantity := n\<rparr>"

definition more_quantity :: "int \<Rightarrow> cart_item \<Rightarrow> cart_item" where
  "more_quantity n i = i\<lparr>ci_quantity := ci_quantity i + n\<rparr>"

text \<open>\<^verbatim>\<open>CartItem.objects.create\<close>; a second row for the same cart and product violates \<^verbatim>\<open>unique_together\<close>.\<close>

definition create_cart_item :: "pk \<Rightarrow> pk \<Rightarrow> int \<Rightarrow> money option \<Rightarrow> cart_item op" where
  "create_cart_item cid product_id quantity price d = (
     if list_ex (\<lambda>i. ci_product i = product_id) (cart_items_of d cid) then Inl IntegrityError
     else let i = \<lparr>ci_id = next_id d, ci_cart = cid, ci_product = product_id, ci_quantity = quantity, ci_price_at_add = price\<rparr>
          in Inr (i, d\<lparr>cart_items := cart_items d @ [i], next_id := Suc (next_id d)\<rparr>))"

text \<open>The properties of a cart item; its product exists (the foreign key cascades).\<close>

definition subtotal :: "db \<Rightarrow> cart_item \<Rightarrow> money" where
  "subtotal d i = product_price d (ci_product i) * ci_quantity i"

definition is_price_changed :: "db \<Rightarrow> cart_item \<Rightarrow> bool" where
  "is_price_changed d i = (case ci_price_at_add i of None \<Rightarrow> False | Some p \<Rightarrow> product_price d (ci_product i) \<noteq> p)"

definition price_difference :: "db \<Rightarrow> cart_item \<Rightarrow> money" where
  "price_difference d i = (case ci_price_at_add i of None \<Rightarrow> 0 | Some p \<Rightarrow> product_price d (ci_product i) - p)"

definition is_available :: "db \<Rightarrow> cart_item \<Rightarrow> bool" where
  "is_available d i = (case get_product d (ci_product i) of None \<Rightarrow> False
     | Some p \<Rightarrow> p_is_active p \<and> p_stock p \<ge> ci_quantity i)"

definition increase_quantity :: "pk \<Rightarrow> int \<Rightarrow> db \<Rightarrow> db" where
  "increase_quantity k quantity d = upd_cart_item k (more_quantity quantity) d"

definition decrease_quantity :: "cart_item \<Rightarrow> int \<Rightarrow> db \<Rightarrow> db" where
  "decrease_quantity i quantity d = (
     if ci_quantity i > quantity then upd_cart_item (ci_id i) (set_quantity (ci_quantity i - quantity)) d
     else delete_cart_item (ci_id i) d)"

definition update_quantity :: "pk \<Rightarrow> int \<Rightarrow> db \<Rightarrow> db" where
  "update_quantity k quantity d = (
     if quantity > 0 then upd_cart_item k (set_quantity quantity) d else delete_cart_item k d)"

section \<open>The active cart\<close>

datatype cart_owner = Member pk | Guest string

fun owned_by :: "cart_owner \<Rightarrow> cart \<Rightarrow> bool" where
  "owned_by (Member uid) c = (c_user c = Some uid)"
| "owned_by (Guest key) c = (c_session c = Some key)"

definition active_cart :: "cart_owner \<Rightarrow> db \<Rightarrow> cart option" where
  "active_cart who d = find (\<lambda>c. owned_by who c \<and> c_is_active c) (carts d)"

fun new_cart :: "cart_owner \<Rightarrow> pk \<Rightarrow> cart" where
  "new_cart (Member uid) k = \<lparr>c_id = k, c_user = Some uid, c_session = None, c_is_active = True\<rparr>"
| "new_cart (Guest key) k = \<lparr>c_id = k, c_user = None, c_session = Some key, c_is_active = True\<rparr>"

text \<open>\<^verbatim>\<open>Cart.objects.create\<close> with the unique constraints on active carts.\<close>

definition create_cart :: "cart_owner \<Rightarrow> cart op" where
  "create_cart who d = (
     if active_cart who d \<noteq> None then Inl IntegrityError
     else let c = new_cart who (next_id d)
          in case cart_clean c of
               Inl e \<Rightarrow> Inl e
             | Inr _ \<Rightarrow> Inr (c, d\<lparr>carts := carts d @ [c], next_id := Suc (next_id d)\<rparr>))"

text \<open>
  \<^verbatim>\<open>Cart.get_or_create_active_cart\<close>.  The argument \<open>others\<close> is what other transactions commit between
  the lookup and the insertion (the identity when none does): the insertion then fails and the cart is
  looked up again.  The flag says whether the cart is new.
\<close>

definition get_or_create_active_cart :: "(db \<Rightarrow> db) \<Rightarrow> cart_owner \<Rightarrow> (cart \<times> bool) op" where
  "get_or_create_active_cart others who d = (
     if who = Guest [] then Inl ValueError
     else case active_cart who d of
       Some c \<Rightarrow> Inr ((c, False), d)
     | None \<Rightarrow> (case create_cart who (others d) of
         Inr (c, d1) \<Rightarrow> Inr ((c, True), d1)
       | Inl _ \<Rightarrow> rbind (of_get DoesNotExist (active_cart who (others d)) (others d)) (\<lambda>c d1. Inr ((c, False), d1))))"

text \<open>\<^verbatim>\<open>CartService.get_or_create_cart\<close>: a request without session gets the new key \<open>fresh\<close>.\<close>

definition get_or_create_cart :: "pk option \<Rightarrow> string \<Rightarrow> string option \<Rightarrow> string \<Rightarrow> cart op" where
  "get_or_create_cart user session_key request fresh d = (
     let lookup = (\<lambda>who. rbind (get_or_create_active_cart (\<lambda>d. d) who d) (\<lambda>(c, _) d.
           rbind (of_get DoesNotExist (get_cart d (c_id c)) d) (\<lambda>c d. Inr (c, d))))
     in case user of
          Some uid \<Rightarrow> lookup (Member uid)
        | None \<Rightarrow> if session_key \<noteq> [] then lookup (Guest session_key)
                  else (case request of
                          Some key \<Rightarrow> lookup (Guest (if key = [] then fresh else key))
                        | None \<Rightarrow> Inl (CartServiceError ''MISSING_IDENTITY'')))"

section \<open>Changing items\<close>

definition MIN_QUANTITY :: int where
  "MIN_QUANTITY = 1"

definition MAX_QUANTITY :: int where
  "MAX_QUANTITY = 999"

definition validate_quantity :: "int \<Rightarrow> exn + unit" where
  "validate_quantity quantity = (
     if quantity < MIN_QUANTITY then Inl (CartServiceError ''INVALID_QUANTITY'')
     else if quantity > MAX_QUANTITY then Inl (CartServiceError ''QUANTITY_EXCEEDED'')
     else Inr ())"

definition get_active_product :: "pk \<Rightarrow> product op" where
  "get_active_product product_id d = (case get_product d product_id of
     Some p \<Rightarrow> if p_is_active p then Inr (p, d) else Inl (CartServiceError ''PRODUCT_NOT_FOUND'')
   | None \<Rightarrow> Inl (CartServiceError ''PRODUCT_NOT_FOUND''))"

definition validate_stock :: "product \<Rightarrow> int \<Rightarrow> exn + unit" where
  "validate_stock p quantity = (if p_stock p < quantity then Inl (CartServiceError ''INSUFFICIENT_STOCK'') else Inr ())"

definition add_item :: "pk \<Rightarrow> pk \<Rightarrow> int \<Rightarrow> cart_item op" where
  "add_item cid product_id quantity d = (case validate_quantity quantity of
     Inl e \<Rightarrow> Inl e
   | Inr _ \<Rightarrow> rbind (get_active_product product_id d) (\<lambda>product d.
       rbind (of_get DoesNotExist (get_cart d cid) d) (\<lambda>_ d.
         let existing_item = item_of_product d cid product_id;
             total_quantity = quantity + (case existing_item of None \<Rightarrow> 0 | Some i \<Rightarrow> ci_quantity i)
         in case validate_stock product total_quantity of
              Inl e \<Rightarrow> Inl e
            | Inr _ \<Rightarrow> (case existing_item of
                Some i \<Rightarrow> Inr (more_quantity quantity i, upd_cart_item (ci_id i) (more_quantity quantity) d)
              | None \<Rightarrow> create_cart_item cid product_id quantity (Some (p_price product)) d))))"

text \<open>The result is the name of the product.\<close>

definition remove_item :: "pk \<Rightarrow> pk \<Rightarrow> string op" where
  "remove_item cid item_id d = (case get_cart_item d cid item_id of
     None \<Rightarrow> Inl (CartServiceError ''ITEM_NOT_FOUND'')
   | Some i \<Rightarrow> rbind (of_get DoesNotExist (get_product d (ci_product i)) d) (\<lambda>p d.
       Inr (p_name p, delete_cart_item item_id d)))"

definition update_item_quantity :: "pk \<Rightarrow> pk \<Rightarrow> int \<Rightarrow> cart_item option op" where
  "update_item_quantity cid item_id quantity d = (
     if quantity = 0 then rbind (remove_item cid item_id d) (\<lambda>_ d. Inr (None, d))
     else case validate_quantity quantity of
       Inl e \<Rightarrow> Inl e
     | Inr _ \<Rightarrow> (case get_cart_item d cid item_id of
         None \<Rightarrow> Inl (CartServiceError ''ITEM_NOT_FOUND'')
       | Some i \<Rightarrow> rbind (of_get DoesNotExist (get_product d (ci_product i)) d) (\<lambda>p d.
           case validate_stock p quantity of
             Inl e \<Rightarrow> Inl e
           | Inr _ \<Rightarrow> Inr (Some (set_quantity quantity i), upd_cart_item item_id (set_quantity quantity) d))))"

definition clear_cart :: "pk \<Rightarrow> db \<Rightarrow> nat \<times> db" where
  "clear_cart cid d = (let item_count = length (cart_items_of d cid)
     in if item_count = 0 then (0, d) else (item_count, cart_clear cid d))"

section \<open>Adding many items\<close>

text \<open>
  An entry of the request: the product id (\<open>None\<close> when absent or null) and the quantity, any JSON value
  (\<open>None\<close> when absent: one piece).  Python's truth values are integers.
\<close>

type_synonym bulk_entry = "pk option \<times> json option"

datatype bulk_fault = ProductIdMissing | ProductNotFound | QuantityTooSmall | QuantityTooBig | StockShortage int | AddFailed exn

fun as_int :: "json \<Rightarrow> int option" where
  "as_int (JNum n) = Some n"
| "as_int (JBool b) = Some (if b then 1 else 0)"
| "as_int _ = None"

definition validate_bulk_item :: "pk option \<Rightarrow> json \<Rightarrow> product list \<Rightarrow> bulk_fault option" where
  "validate_bulk_item product_id quantity ps = (
     if product_id = None \<or> product_id = Some 0 then Some ProductIdMissing
     else if rget p_id ps (the product_id) = None then Some ProductNotFound
     else case as_int quantity of
       None \<Rightarrow> Some QuantityTooSmall
     | Some n \<Rightarrow> if n < MIN_QUANTITY then Some QuantityTooSmall
                 else if n > MAX_QUANTITY then Some QuantityTooBig
                 else None)"

definition add_or_update_item :: "pk \<Rightarrow> pk \<Rightarrow> int \<Rightarrow> cart_item op" where
  "add_or_update_item cid product_id quantity d = (case item_of_product d cid product_id of
     Some i \<Rightarrow> Inr (more_quantity quantity i, upd_cart_item (ci_id i) (more_quantity quantity) d)
   | None \<Rightarrow> rbind (of_get DoesNotExist (get_product d product_id) d) (\<lambda>p d.
       create_cart_item cid product_id quantity (Some (p_price p)) d))"

text \<open>One entry: the item added or the fault; \<open>ps\<close> are the active products read before the loop.\<close>

definition bulk_add_one :: "pk \<Rightarrow> product list \<Rightarrow> bulk_entry \<Rightarrow> db \<Rightarrow> (bulk_fault + cart_item) \<times> db" where
  "bulk_add_one cid ps entry d = (
     let product_id = fst entry; quantity = (case snd entry of None \<Rightarrow> JNum 1 | Some q \<Rightarrow> q)
     in case validate_bulk_item product_id quantity ps of
          Some fault \<Rightarrow> (Inl fault, d)
        | None \<Rightarrow> (let n = the (as_int quantity); product = the (rget p_id ps (the product_id))
            in if p_stock product < n then (Inl (StockShortage (p_stock product)), d)
               else case add_or_update_item cid (the product_id) n d of
                 Inl e \<Rightarrow> (Inl (AddFailed e), d)
               | Inr (i, d1) \<Rightarrow> (Inr i, d1)))"

record bulk_result =
  br_added :: "cart_item list"
  br_errors :: "(nat \<times> pk option \<times> bulk_fault) list"

fun bulk_add_loop :: "pk \<Rightarrow> product list \<Rightarrow> nat \<Rightarrow> bulk_entry list \<Rightarrow> bulk_result \<Rightarrow> db \<Rightarrow> bulk_result \<times> db" where
  "bulk_add_loop cid ps idx [] res d = (res, d)"
| "bulk_add_loop cid ps idx (x # xs) res d = (case bulk_add_one cid ps x d of
     (Inl fault, d1) \<Rightarrow> bulk_add_loop cid ps (Suc idx) xs
       (res\<lparr>br_errors := br_errors res @ [(idx, if fault = ProductIdMissing then None else fst x, fault)]\<rparr>) d1
   | (Inr i, d1) \<Rightarrow> bulk_add_loop cid ps (Suc idx) xs (res\<lparr>br_added := br_added res @ [i]\<rparr>) d1)"

definition bulk_add_items :: "pk \<Rightarrow> bulk_entry list \<Rightarrow> bulk_result op" where
  "bulk_add_items cid items_data d = (
     if items_data = [] then Inl (CartServiceError ''EMPTY_ITEMS'')
     else let product_ids = filter (\<lambda>k. k \<noteq> 0) (List.map_filter fst items_data);
              ps = filter (\<lambda>p. p_id p \<in> set product_ids \<and> p_is_active p) (products d)
          in rbind (of_get DoesNotExist (get_cart d cid) d) (\<lambda>_ d.
               Inr (bulk_add_loop cid ps 0 items_data \<lparr>br_added = [], br_errors = []\<rparr> d)))"

section \<open>Checking stock and prices\<close>

datatype issue_type = Inactive | OutOfStock | Insufficient

record stock_issue =
  si_item :: pk
  si_product :: pk
  si_type :: issue_type
  si_requested :: int
  si_available :: int

definition stock_issue_of :: "db \<Rightarrow> cart_item \<Rightarrow> stock_issue option" where
  "stock_issue_of d i = (case get_product d (ci_product i) of
     None \<Rightarrow> None
   | Some p \<Rightarrow>
       if \<not> p_is_active p
       then Some \<lparr>si_item = ci_id i, si_product = p_id p, si_type = Inactive, si_requested = ci_quantity i, si_available = 0\<rparr>
       else if p_stock p = 0
       then Some \<lparr>si_item = ci_id i, si_product = p_id p, si_type = OutOfStock, si_requested = ci_quantity i, si_available = 0\<rparr>
       else if p_stock p < ci_quantity i
       then Some \<lparr>si_item = ci_id i, si_product = p_id p, si_type = Insufficient, si_requested = ci_quantity i,
              si_available = p_stock p\<rparr>
       else None)"

definition check_stock :: "pk \<Rightarrow> db \<Rightarrow> stock_issue list" where
  "check_stock cid d = List.map_filter (stock_issue_of d) (cart_lines d cid)"

record price_change =
  pc_item :: pk
  pc_product :: pk
  pc_original :: "money option"
  pc_current :: money
  pc_difference :: money
  pc_increased :: bool

definition check_price_changes :: "pk \<Rightarrow> db \<Rightarrow> price_change list" where
  "check_price_changes cid d = map (\<lambda>i. \<lparr>pc_item = ci_id i, pc_product = ci_product i, pc_original = ci_price_at_add i,
       pc_current = product_price d (ci_product i), pc_difference = price_difference d i,
       pc_increased = (price_difference d i > 0)\<rparr>) (filter (is_price_changed d) (cart_lines d cid))"

definition set_price :: "money \<Rightarrow> cart_item \<Rightarrow> cart_item" where
  "set_price p i = i\<lparr>ci_price_at_add := Some p\<rparr>"

definition update_price :: "cart_item \<Rightarrow> nat \<times> db \<Rightarrow> nat \<times> db" where
  "update_price i = (\<lambda>(updated_count, d). if is_price_changed d i
     then (Suc updated_count, upd_cart_item (ci_id i) (set_price (product_price d (ci_product i))) d)
     else (updated_count, d))"

definition update_item_prices :: "pk \<Rightarrow> db \<Rightarrow> nat \<times> db" where
  "update_item_prices cid d = fold update_price (cart_lines d cid) (0, d)"

section \<open>Removing what cannot be bought\<close>

record cleanup_result =
  cr_removed :: "(pk \<times> int \<times> issue_type) list"
  cr_updated :: "(pk \<times> int \<times> int) list"

text \<open>One item: removed (with its quantity and the reason), lowered to the stock, or kept.\<close>

definition cleanup_one :: "cart_item \<Rightarrow> cleanup_result \<times> db \<Rightarrow> cleanup_result \<times> db" where
  "cleanup_one i = (\<lambda>(res, d). case get_product d (ci_product i) of
     None \<Rightarrow> (res, d)
   | Some p \<Rightarrow>
       if \<not> p_is_active p
       then (res\<lparr>cr_removed := cr_removed res @ [(ci_id i, ci_quantity i, Inactive)]\<rparr>, delete_cart_item (ci_id i) d)
       else if p_stock p = 0
       then (res\<lparr>cr_removed := cr_removed res @ [(ci_id i, ci_quantity i, OutOfStock)]\<rparr>, delete_cart_item (ci_id i) d)
       else if ci_quantity i > p_stock p
       then (res\<lparr>cr_updated := cr_updated res @ [(ci_id i, ci_quantity i, p_stock p)]\<rparr>,
             upd_cart_item (ci_id i) (set_quantity (p_stock p)) d)
       else (res, d))"

definition cleanup_unavailable_items :: "pk \<Rightarrow> db \<Rightarrow> cleanup_result \<times> db" where
  "cleanup_unavailable_items cid d = fold cleanup_one (cart_lines d cid) (\<lparr>cr_removed = [], cr_updated = []\<rparr>, d)"

section \<open>Merging the cart of a guest\<close>

text \<open>\<^verbatim>\<open>CartService.merge_anonymous_cart\<close>: rows move or are added up; the guest's cart is closed.\<close>

definition merge_item :: "pk \<Rightarrow> cart_item \<Rightarrow> db \<Rightarrow> db" where
  "merge_item user_cart i d = (case item_of_product d user_cart (ci_product i) of
     Some existing \<Rightarrow> upd_cart_item (ci_id existing) (set_quantity (ci_quantity existing + ci_quantity i)) d
   | None \<Rightarrow> upd_cart_item (ci_id i) (\<lambda>i. i\<lparr>ci_cart := user_cart\<rparr>) d)"

definition merge_anonymous_cart :: "pk \<Rightarrow> string \<Rightarrow> nat op" where
  "merge_anonymous_cart uid session_key d = (
     if session_key = [] then Inr (0, d)
     else case active_cart (Guest session_key) d of
       None \<Rightarrow> Inr (0, d)
     | Some anonymous_cart \<Rightarrow>
         if cart_items_of d (c_id anonymous_cart) = [] then Inr (0, d)
         else rbind (get_or_create_active_cart (\<lambda>d. d) (Member uid) d) (\<lambda>(user_cart, _) d.
           let items = cart_lines d (c_id anonymous_cart)
           in rbind (cart_deactivate (c_id anonymous_cart) (fold (merge_item (c_id user_cart)) items d)) (\<lambda>_ d.
                Inr (length items, d))))"

text \<open>\<^verbatim>\<open>Cart.merge_anonymous_cart\<close>, called at login: new rows have no price; the guest's cart is deleted.\<close>

definition login_merge_item :: "pk \<Rightarrow> cart_item \<Rightarrow> db \<Rightarrow> exn + db" where
  "login_merge_item user_cart i d = (case item_of_product d user_cart (ci_product i) of
     Some user_item \<Rightarrow> Inr (upd_cart_item (ci_id user_item) (more_quantity (ci_quantity i)) d)
   | None \<Rightarrow> (case create_cart_item user_cart (ci_product i) (ci_quantity i) None d of
       Inl e \<Rightarrow> Inl e | Inr (_, d1) \<Rightarrow> Inr d1))"

definition delete_cart :: "pk \<Rightarrow> db \<Rightarrow> db" where
  "delete_cart cid d = (cart_clear cid d)\<lparr>carts := filter (\<lambda>c. c_id c \<noteq> cid) (carts d),
     orders := map (\<lambda>ord. if o_cart ord = Some cid then ord\<lparr>o_cart := None\<rparr> else ord) (orders d)\<rparr>"

definition login_merge_cart :: "pk \<Rightarrow> string \<Rightarrow> cart op" where
  "login_merge_cart uid session_key d =
     rbind (get_or_create_active_cart (\<lambda>d. d) (Member uid) d) (\<lambda>(user_cart, _) d.
       case active_cart (Guest session_key) d of
         None \<Rightarrow> Inr (user_cart, d)
       | Some anon_cart \<Rightarrow>
           (case fold_res (login_merge_item (c_id user_cart)) (cart_lines d (c_id anon_cart)) d of
              Inl e \<Rightarrow> Inl e
            | Inr d1 \<Rightarrow> Inr (user_cart, delete_cart (c_id anon_cart) d1)))"

section \<open>Before an order\<close>

datatype cart_error = NotSold pk | SoldOut pk | TooFew pk int int | PricesChanged "price_change list"

definition cart_item_error :: "db \<Rightarrow> cart_item \<Rightarrow> cart_error option" where
  "cart_item_error d i = (case get_product d (ci_product i) of
     None \<Rightarrow> None
   | Some p \<Rightarrow>
       if \<not> p_is_active p then Some (NotSold (p_id p))
       else if p_stock p = 0 then Some (SoldOut (p_id p))
       else if ci_quantity i > p_stock p then Some (TooFew (p_id p) (ci_quantity i) (p_stock p))
       else None)"

text \<open>The empty list of errors stands for the first refusal, an empty cart.\<close>

definition validate_cart_items :: "pk \<Rightarrow> db \<Rightarrow> cart_error list + cart_item list" where
  "validate_cart_items cid d = (
     if cart_items_of d cid = [] then Inl []
     else let price_changes = check_price_changes cid d;
              errors = List.map_filter (cart_item_error d) (cart_lines d cid)
                @ (if price_changes \<noteq> [] then [PricesChanged price_changes] else [])
          in if errors \<noteq> [] then Inl errors else Inr (cart_lines d cid))"

end
