(* ===== verification/Cart_Rows.thy ===== *)
theory Cart_Rows
  imports Carts
begin

text \<open>
  Well-formed carts: what the constraints of the tables promise, and that every change of rows keeps it.
\<close>

section \<open>The constraints\<close>

definition slot :: "cart_item \<Rightarrow> pk \<times> pk" where
  "slot i = (ci_cart i, ci_product i)"

definition cart_owner_of :: "cart \<Rightarrow> pk option \<times> string option" where
  "cart_owner_of c = (c_user c, c_session c)"

definition proper_owner :: "cart \<Rightarrow> bool" where
  "proper_owner c \<longleftrightarrow> (c_user c = None) \<noteq> (c_session c = None) \<and> c_session c \<noteq> Some []"

definition lines_ok :: "pk set \<Rightarrow> pk set \<Rightarrow> pk \<Rightarrow> cart_item list \<Rightarrow> bool" where
  "lines_ok cs ps n xs \<longleftrightarrow> keys_distinct ci_id xs \<and> distinct (map slot xs)
     \<and> (\<forall>i \<in> set xs. ci_id i < n \<and> 1 \<le> ci_quantity i \<and> ci_cart i \<in> cs \<and> ci_product i \<in> ps)"

definition carts_ok :: "pk \<Rightarrow> cart list \<Rightarrow> bool" where
  "carts_ok n cs \<longleftrightarrow> keys_distinct c_id cs \<and> distinct (map cart_owner_of (filter c_is_active cs))
     \<and> (\<forall>c \<in> set cs. c_id c < n \<and> proper_owner c)"

abbreviation cart_ids :: "db \<Rightarrow> pk set" where
  "cart_ids d \<equiv> c_id ` set (carts d)"

abbreviation product_ids :: "db \<Rightarrow> pk set" where
  "product_ids d \<equiv> p_id ` set (products d)"

definition cart_inv :: "db \<Rightarrow> bool" where
  "cart_inv d \<longleftrightarrow> lines_ok (cart_ids d) (product_ids d) (next_id d) (cart_items d) \<and> carts_ok (next_id d) (carts d)
     \<and> keys_distinct p_id (products d) \<and> (\<forall>p \<in> set (products d). 0 \<le> p_stock p)"

lemma cart_invD:
  assumes "cart_inv d"
  shows "lines_ok (cart_ids d) (product_ids d) (next_id d) (cart_items d)" "carts_ok (next_id d) (carts d)"
    "keys_distinct p_id (products d)" "\<And>p. p \<in> set (products d) \<Longrightarrow> 0 \<le> p_stock p"
  using assms by (simp_all add: cart_inv_def)

text \<open>A change of the items only, with or without a new row.\<close>

lemma cart_inv_items:
  assumes inv: "cart_inv d" and d': "carts d' = carts d" "products d' = products d" "next_id d \<le> next_id d'"
    and ok: "lines_ok (cart_ids d) (product_ids d) (next_id d') (cart_items d')"
  shows "cart_inv d'"
  using assms by (auto simp: cart_inv_def carts_ok_def intro: less_le_trans)

section \<open>Changes of items\<close>

lemma lines_ok_mono: "lines_ok cs ps n xs \<Longrightarrow> n \<le> m \<Longrightarrow> cs \<subseteq> cs' \<Longrightarrow> lines_ok cs' ps m xs"
  by (auto simp: lines_ok_def intro: less_le_trans)

lemma lines_ok_filter: "lines_ok cs ps n xs \<Longrightarrow> lines_ok cs ps n (filter P xs)"
  by (auto simp: lines_ok_def distinct_map_filter)

lemma lines_ok_rupd:
  assumes ok: "lines_ok cs ps n xs" and f: "\<And>i. ci_id (f i) = ci_id i" "\<And>i. slot (f i) = slot i"
    and q: "\<And>i. i \<in> set xs \<Longrightarrow> ci_id i = k \<Longrightarrow> 1 \<le> ci_quantity (f i)"
  shows "lines_ok cs ps n (rupd ci_id xs k f)"
proof -
  have s: "ci_cart (f i) = ci_cart i" "ci_product (f i) = ci_product i" for i
    using f(2) [of i] by (simp_all add: slot_def)
  have "map ci_id (rupd ci_id xs k f) = map ci_id xs" "map slot (rupd ci_id xs k f) = map slot xs"
    by (simp_all add: rupd_def comp_def f)
  then show ?thesis
    using ok q by (auto simp: lines_ok_def f s dest!: set_rupdD)
qed

lemma lines_ok_snoc:
  assumes "lines_ok cs ps n xs" "ci_id i = n" "slot i \<notin> slot ` set xs" "1 \<le> ci_quantity i" "ci_cart i \<in> cs" "ci_product i \<in> ps"
  shows "lines_ok cs ps (Suc n) (xs @ [i])"
  using assms by (auto simp: lines_ok_def less_Suc_eq)

lemma lines_ok_move:
  assumes ok: "lines_ok cs ps n xs" and c: "c \<in> cs"
    and P: "\<And>i. i \<in> set xs \<Longrightarrow> P i \<Longrightarrow> ci_cart i = a \<and> (c, ci_product i) \<notin> slot ` set xs"
  shows "lines_ok cs ps n (map (\<lambda>i. if P i then i\<lparr>ci_cart := c\<rparr> else i) xs)"
proof -
  define f where "f = (\<lambda>i. if P i then i\<lparr>ci_cart := c\<rparr> else i)"
  have inj: "inj_on slot (set xs)" and dist: "distinct xs"
    using ok by (simp_all add: lines_ok_def distinct_map)
  have "inj_on (\<lambda>i. slot (f i)) (set xs)"
  proof (rule inj_onI)
    fix i j
    assume ij: "i \<in> set xs" "j \<in> set xs" "slot (f i) = slot (f j)"
    have "P i = P j"
    proof (rule ccontr)
      assume "P i \<noteq> P j"
      then have "P i \<and> (c, ci_product i) = slot j \<or> P j \<and> (c, ci_product j) = slot i"
        using ij(3) by (auto simp: slot_def f_def)
      then show False
        using P ij(1,2) by (metis imageI)
    qed
    then have "slot i = slot j"
      using ij(3) P [OF ij(1)] P [OF ij(2)] by (auto simp: slot_def f_def split: if_splits)
    then show "i = j"
      using inj ij by (simp add: inj_on_eq_iff)
  qed
  then have "distinct (map slot (map f xs))"
    using dist by (simp add: distinct_map comp_def)
  moreover have "map ci_id (map f xs) = map ci_id xs"
    by (simp add: f_def)
  moreover have "\<forall>i \<in> set (map f xs). ci_id i < n \<and> 1 \<le> ci_quantity i \<and> ci_cart i \<in> cs \<and> ci_product i \<in> ps"
    using ok c by (auto simp: lines_ok_def f_def)
  ultimately have "lines_ok cs ps n (map f xs)"
    using ok unfolding lines_ok_def by metis
  then show ?thesis
    by (simp add: f_def)
qed

lemma lines_ok_move_one:
  assumes ok: "lines_ok cs ps n xs" and c: "c \<in> cs" and i: "i \<in> set xs" "(c, ci_product i) \<notin> slot ` set xs"
  shows "lines_ok cs ps n (rupd ci_id xs (ci_id i) (\<lambda>i. i\<lparr>ci_cart := c\<rparr>))"
proof -
  have "j = i" if "j \<in> set xs" "ci_id j = ci_id i" for j
    using ok that i(1) by (auto simp: lines_ok_def distinct_map dest: inj_onD)
  then show ?thesis
    unfolding rupd_def by (intro lines_ok_move [OF ok c, where a = "ci_cart i"]) (use i in auto)
qed

section \<open>Changes of carts\<close>

lemma carts_ok_close:
  assumes "carts_ok n cs"
  shows "carts_ok n (rupd c_id cs k (\<lambda>c. c\<lparr>c_is_active := False\<rparr>))"
proof -
  let ?g = "\<lambda>c. c\<lparr>c_is_active := False\<rparr>"
  have "filter c_is_active (rupd c_id cs k ?g) = filter (\<lambda>c. c_is_active c \<and> c_id c \<noteq> k) cs"
    by (induction cs) auto
  moreover have "map c_id (rupd c_id cs k ?g) = map c_id cs"
    by (rule map_key_rupd) simp
  ultimately show ?thesis
    using assms by (auto simp: carts_ok_def proper_owner_def distinct_map_filter simp flip: filter_filter dest!: set_rupdD)
qed

lemma carts_ok_snoc:
  assumes "carts_ok n cs" "c_id c = n" "proper_owner c" "\<And>c'. c' \<in> set cs \<Longrightarrow> c_is_active c' \<Longrightarrow> cart_owner_of c' \<noteq> cart_owner_of c"
  shows "carts_ok (Suc n) (cs @ [c])"
  using assms by (fastforce simp: carts_ok_def less_Suc_eq)

lemma carts_ok_filter: "carts_ok n cs \<Longrightarrow> carts_ok n (filter P cs)"
proof -
  have "filter c_is_active (filter P cs) = filter P (filter c_is_active cs)"
    by (simp add: conj_commute)
  then show "carts_ok n cs \<Longrightarrow> carts_ok n (filter P cs)"
    by (auto simp: carts_ok_def distinct_map_filter simp del: filter_filter)
qed

end
