(* ===== verification/Cart_Ops.thy ===== *)
theory Cart_Ops
  imports Cart_Rows Order_Ops
begin

text \<open>
  Every operation on carts keeps the carts well-formed, and touches no table but the carts, their items
  and the links from orders to carts.
\<close>

section \<open>Lookups\<close>

lemma set_cart_lines [simp]: "set (cart_lines d cid) = set (cart_items_of d cid)"
  by (simp add: cart_lines_def)

lemma in_cart_items_of: "i \<in> set (cart_items_of d cid) \<longleftrightarrow> i \<in> set (cart_items d) \<and> ci_cart i = cid"
  by (auto simp: cart_items_of_def)

lemma item_of_product_Some:
  "item_of_product d cid p = Some i \<Longrightarrow> i \<in> set (cart_items d) \<and> ci_cart i = cid \<and> ci_product i = p"
  unfolding item_of_product_def find_Some_iff by (metis in_cart_items_of nth_mem set_cart_lines)

lemma item_of_product_None: "item_of_product d cid p = None \<longleftrightarrow> (cid, p) \<notin> slot ` set (cart_items d)"
  by (auto simp: item_of_product_def find_None_iff in_cart_items_of slot_def)

lemma get_cart_item_Some:
  "get_cart_item d cid k = Some i \<Longrightarrow> i \<in> set (cart_items d) \<and> ci_cart i = cid \<and> ci_id i = k"
  unfolding get_cart_item_def find_Some_iff by (metis in_cart_items_of nth_mem set_cart_lines)

lemma active_cart_Some: "active_cart who d = Some c \<Longrightarrow> c \<in> set (carts d) \<and> owned_by who c \<and> c_is_active c"
  by (auto simp: active_cart_def find_Some_iff)

lemma active_cart_None: "active_cart who d = None \<longleftrightarrow> (\<forall>c \<in> set (carts d). \<not> (owned_by who c \<and> c_is_active c))"
  by (auto simp: active_cart_def find_None_iff)

lemma get_cart_in: "get_cart d k = Some c \<Longrightarrow> k \<in> cart_ids d"
  by (auto dest: rget_Some_key rget_Some_in)

lemma get_product_in: "get_product d k = Some p \<Longrightarrow> k \<in> product_ids d"
  by (auto dest: rget_Some_key rget_Some_in)

section \<open>The contract of a cart operation\<close>

text \<open>Everything but carts, items and the links to carts stays.\<close>

definition cart_frame :: "db \<Rightarrow> db \<Rightarrow> bool" where
  "cart_frame d d' \<longleftrightarrow> users d' = users d \<and> products d' = products d \<and> order_items d' = order_items d \<and> payments d' = payments d
     \<and> histories d' = histories d \<and> returns d' = returns d \<and> return_items d' = return_items d \<and> outbox d' = outbox d
     \<and> next_id d \<le> next_id d'
     \<and> map (\<lambda>ord. ord\<lparr>o_cart := None\<rparr>) (orders d') = map (\<lambda>ord. ord\<lparr>o_cart := None\<rparr>) (orders d)"

definition cart_change :: "db \<Rightarrow> db \<Rightarrow> bool" where
  "cart_change d d' \<longleftrightarrow> cart_inv d' \<and> cart_frame d d'"

lemma cart_frame_refl [simp]: "cart_frame d d"
  by (simp add: cart_frame_def)

lemma cart_frame_trans: "cart_frame d e \<Longrightarrow> cart_frame e f \<Longrightarrow> cart_frame d f"
  by (simp add: cart_frame_def)

lemma cart_change_refl: "cart_inv d \<Longrightarrow> cart_change d d"
  by (simp add: cart_change_def)

lemma cart_change_trans: "cart_change d e \<Longrightarrow> cart_change e f \<Longrightarrow> cart_change d f"
  by (auto simp: cart_change_def intro: cart_frame_trans)

lemma cart_change_inv: "cart_change d d' \<Longrightarrow> cart_inv d'"
  by (simp add: cart_change_def)

locale cart_op =
  fixes f :: "'x \<Rightarrow> db \<Rightarrow> exn + 'a \<times> db"
  assumes change: "cart_inv d \<Longrightarrow> f x d = Inr (r, d') \<Longrightarrow> cart_change d d'"
begin

lemma keeps_inv: "cart_inv d \<Longrightarrow> f x d = Inr (r, d') \<Longrightarrow> cart_inv d'"
  by (rule cart_change_inv [OF change])

lemma keeps_frame: "cart_inv d \<Longrightarrow> f x d = Inr (r, d') \<Longrightarrow> cart_frame d d'"
  using change by (simp add: cart_change_def)

end

section \<open>Changes of one row\<close>

lemma upd_cart_item_change:
  assumes "cart_inv d" "\<And>i. ci_id (f i) = ci_id i" "\<And>i. slot (f i) = slot i"
    and "\<And>i. i \<in> set (cart_items d) \<Longrightarrow> ci_id i = k \<Longrightarrow> 1 \<le> ci_quantity (f i)"
  shows "cart_change d (upd_cart_item k f d)"
proof -
  have "cart_inv (upd_cart_item k f d)"
    by (rule cart_inv_items [OF assms(1)])
      (use lines_ok_rupd [OF cart_invD(1) [OF assms(1)] assms(2,3,4)] in \<open>simp_all add: upd_cart_item_def\<close>)
  then show ?thesis
    by (simp add: cart_change_def cart_frame_def upd_cart_item_def)
qed

lemma quantity_positive: "cart_inv d \<Longrightarrow> i \<in> set (cart_items d) \<Longrightarrow> 1 \<le> ci_quantity i"
  by (auto simp: cart_inv_def lines_ok_def)

lemma more_quantity_change: "cart_inv d \<Longrightarrow> 0 \<le> n \<Longrightarrow> cart_change d (upd_cart_item k (more_quantity n) d)"
  by (rule upd_cart_item_change) (auto simp: more_quantity_def slot_def dest: quantity_positive)

lemma set_quantity_change: "cart_inv d \<Longrightarrow> 1 \<le> n \<Longrightarrow> cart_change d (upd_cart_item k (set_quantity n) d)"
  by (rule upd_cart_item_change) (auto simp: set_quantity_def slot_def)

lemma set_price_change: "cart_inv d \<Longrightarrow> cart_change d (upd_cart_item k (set_price p) d)"
  by (rule upd_cart_item_change) (auto simp: set_price_def slot_def dest: quantity_positive)

lemma delete_items_change:
  assumes "cart_inv d"
  shows "cart_change d (d\<lparr>cart_items := filter P (cart_items d)\<rparr>)"
proof -
  have "cart_inv (d\<lparr>cart_items := filter P (cart_items d)\<rparr>)"
    by (rule cart_inv_items [OF assms]) (use lines_ok_filter [OF cart_invD(1) [OF assms]] in simp_all)
  then show ?thesis
    by (simp add: cart_change_def cart_frame_def)
qed

lemma delete_cart_item_change: "cart_inv d \<Longrightarrow> cart_change d (delete_cart_item k d)"
  by (simp add: delete_cart_item_def delete_items_change)

lemma cart_clear_change: "cart_inv d \<Longrightarrow> cart_change d (cart_clear k d)"
  by (simp add: cart_clear_def delete_items_change)

lemma create_cart_item_change:
  assumes inv: "cart_inv d" and run: "create_cart_item cid p n price d = Inr (i, d')"
    and ok: "cid \<in> cart_ids d" "p \<in> product_ids d" "1 \<le> n"
  shows "cart_change d d'"
proof -
  have i: "i = \<lparr>ci_id = next_id d, ci_cart = cid, ci_product = p, ci_quantity = n, ci_price_at_add = price\<rparr>"
    and d': "d' = d\<lparr>cart_items := cart_items d @ [i], next_id := Suc (next_id d)\<rparr>"
    and free: "slot i \<notin> slot ` set (cart_items d)"
    using run by (auto simp: create_cart_item_def Let_def list_ex_iff in_cart_items_of slot_def split: if_splits)
  have "lines_ok (cart_ids d) (product_ids d) (Suc (next_id d)) (cart_items d @ [i])"
    by (rule lines_ok_snoc [OF cart_invD(1) [OF inv]]) (use i free ok in simp_all)
  then have "cart_inv d'"
    by (intro cart_inv_items [OF inv]) (simp_all add: d')
  then show ?thesis
    by (simp add: cart_change_def cart_frame_def d')
qed

lemma carts_only_change:
  assumes inv: "cart_inv d" and ok: "carts_ok n cs" "cart_ids d \<subseteq> c_id ` set cs" "next_id d \<le> n"
  shows "cart_change d (d\<lparr>carts := cs, next_id := n\<rparr>)"
proof -
  have "cart_inv (d\<lparr>carts := cs, next_id := n\<rparr>)"
    using inv ok(1) lines_ok_mono [OF cart_invD(1) [OF inv] ok(3,2)] by (simp add: cart_inv_def)
  then show ?thesis
    using ok(3) by (simp add: cart_change_def cart_frame_def)
qed

section \<open>The operations of the service\<close>

lemma validate_quantity_Inr: "validate_quantity n = Inr x \<longleftrightarrow> 1 \<le> n \<and> n \<le> 999"
  by (auto simp: validate_quantity_def MIN_QUANTITY_def MAX_QUANTITY_def)

lemma validate_stock_Inr: "validate_stock p n = Inr x \<longleftrightarrow> n \<le> p_stock p"
  by (auto simp: validate_stock_def)

lemma get_active_product_Inr: "get_active_product k d = Inr (p, e) \<longleftrightarrow> get_product d k = Some p \<and> p_is_active p \<and> e = d"
  by (auto simp: get_active_product_def split: option.splits)

lemmas cart_checks = validate_quantity_Inr validate_stock_Inr get_active_product_Inr of_get_eq_Inr rbind_eq_Inr

text \<open>What an accepted addition did.\<close>

lemma add_item_Inr:
  assumes "add_item cid k n d = Inr (r, d')"
  obtains p c where "1 \<le> n" "n \<le> 999" "get_product d k = Some p" "p_is_active p" "get_cart d cid = Some c"
    "case item_of_product d cid k of
       Some i \<Rightarrow> ci_quantity i + n \<le> p_stock p \<and> r = more_quantity n i \<and> d' = upd_cart_item (ci_id i) (more_quantity n) d
     | None \<Rightarrow> n \<le> p_stock p \<and> create_cart_item cid k n (Some (p_price p)) d = Inr (r, d')"
proof -
  have q: "validate_quantity n = Inr ()"
    using assms by (cases "validate_quantity n") (simp_all add: add_item_def)
  then obtain p c where p: "get_product d k = Some p" "p_is_active p" "get_cart d cid = Some c"
    using assms unfolding add_item_def by (auto simp: rbind_eq_Inr of_get_eq_Inr get_active_product_Inr)
  moreover have "1 \<le> n" "n \<le> 999"
    using q by (simp_all add: validate_quantity_Inr)
  ultimately show thesis
    using assms unfolding add_item_def q
    by (intro that [of p c])
      (auto simp: Let_def get_active_product_def validate_stock_def split: option.splits if_splits)
qed

interpretation add_op: cart_op "\<lambda>(cid, k, n). add_item cid k n"
proof (unfold_locales, clarify)
  fix d cid k n r d'
  assume inv: "cart_inv d" and run: "add_item cid k n d = Inr (r, d')"
  from run show "cart_change d d'"
  proof (rule add_item_Inr)
    fix p c
    assume p: "1 \<le> n" "get_product d k = Some p" "get_cart d cid = Some c"
      "case item_of_product d cid k of
       Some i \<Rightarrow> ci_quantity i + n \<le> p_stock p \<and> r = more_quantity n i \<and> d' = upd_cart_item (ci_id i) (more_quantity n) d
     | None \<Rightarrow> n \<le> p_stock p \<and> create_cart_item cid k n (Some (p_price p)) d = Inr (r, d')"
    then show ?thesis
      using create_cart_item_change [OF inv _ get_cart_in get_product_in] more_quantity_change [OF inv]
      by (auto split: option.splits)
  qed
qed

lemma remove_item_Inr:
  "remove_item cid k d = Inr (r, d') \<longleftrightarrow> (\<exists>i p. get_cart_item d cid k = Some i \<and> get_product d (ci_product i) = Some p
     \<and> r = p_name p \<and> d' = delete_cart_item k d)"
  by (auto simp: remove_item_def cart_checks split: option.splits)

interpretation remove_op: cart_op "\<lambda>(cid, k). remove_item cid k"
  by unfold_locales (auto simp: remove_item_Inr intro: delete_cart_item_change)

lemma update_item_quantity_Inr:
  assumes "update_item_quantity cid k n d = Inr (r, d')"
  shows "n = 0 \<and> d' = delete_cart_item k d \<or> 1 \<le> n \<and> d' = upd_cart_item k (set_quantity n) d
    \<and> (\<exists>i p. get_cart_item d cid k = Some i \<and> get_product d (ci_product i) = Some p \<and> n \<le> p_stock p)"
  using assms
  by (auto simp: update_item_quantity_def validate_quantity_def validate_stock_def MIN_QUANTITY_def of_get_eq_Inr rbind_eq_Inr
      remove_item_Inr split: if_splits option.splits)

interpretation update_op: cart_op "\<lambda>(cid, k, n). update_item_quantity cid k n"
  by unfold_locales (auto dest!: update_item_quantity_Inr intro: delete_cart_item_change set_quantity_change)

lemma add_or_update_item_change:
  assumes "cart_inv d" "add_or_update_item cid k n d = Inr (i, d')" "cid \<in> cart_ids d" "1 \<le> n"
  shows "cart_change d d'"
  using assms create_cart_item_change [OF assms(1) _ assms(3) get_product_in assms(4)] more_quantity_change [OF assms(1)]
  by (auto simp: add_or_update_item_def cart_checks split: option.splits)

lemma bulk_add_one_change:
  assumes inv: "cart_inv d" "cid \<in> cart_ids d" and run: "bulk_add_one cid ps x d = (r, d')"
  shows "cart_change d d'"
proof (cases r)
  case (Inl fault)
  then show ?thesis
    using run cart_change_refl [OF inv(1)] by (auto simp: bulk_add_one_def Let_def split: option.splits if_splits sum.splits)
next
  case (Inr i)
  let ?q = "case snd x of None \<Rightarrow> JNum 1 | Some q \<Rightarrow> q"
  have v: "validate_bulk_item (fst x) ?q ps = None"
    using run Inr by (cases "validate_bulk_item (fst x) ?q ps") (simp_all add: bulk_add_one_def Let_def)
  then have "1 \<le> the (as_int ?q)"
    by (auto simp: validate_bulk_item_def MIN_QUANTITY_def split: if_splits option.splits)
  moreover have "add_or_update_item cid (the (fst x)) (the (as_int ?q)) d = Inr (i, d')"
    using run Inr v by (auto simp: bulk_add_one_def Let_def split: if_splits sum.splits)
  ultimately show ?thesis
    using add_or_update_item_change [OF inv(1) _ inv(2)] by blast
qed

text \<open>The ids of carts grow: a cart found before a change of items is there afterwards.\<close>

lemma carts_of_items:
  "carts (upd_cart_item k f d) = carts d" "carts (delete_cart_item k d) = carts d" "carts (cart_clear k d) = carts d"
  "create_cart_item cid p n price d = Inr (i, d') \<Longrightarrow> carts d' = carts d"
  by (auto simp: upd_cart_item_def delete_cart_item_def cart_clear_def create_cart_item_def Let_def split: if_splits)

lemma add_or_update_item_carts: "add_or_update_item cid k n d = Inr (i, d') \<Longrightarrow> carts d' = carts d"
  by (auto simp: add_or_update_item_def cart_checks carts_of_items split: option.splits)

lemma bulk_add_one_carts: "bulk_add_one cid ps x d = (r, d') \<Longrightarrow> carts d' = carts d"
  by (auto simp: bulk_add_one_def Let_def add_or_update_item_carts split: option.splits if_splits sum.splits)

lemma bulk_add_loop_change:
  "cart_inv d \<Longrightarrow> cid \<in> cart_ids d \<Longrightarrow> bulk_add_loop cid ps idx xs res d = (r, d') \<Longrightarrow> cart_change d d'"
proof (induction xs arbitrary: idx res d)
  case Nil
  then show ?case
    by (auto intro: cart_change_refl)
next
  case (Cons x xs)
  obtain s d1 where one: "bulk_add_one cid ps x d = (s, d1)"
    by fastforce
  note ch = bulk_add_one_change [OF Cons.prems(1,2) one]
  obtain idx' res' where rest: "bulk_add_loop cid ps idx' xs res' d1 = (r, d')"
    using Cons.prems(3) one by (cases s) auto
  have "cart_change d1 d'"
    by (rule Cons.IH [OF cart_change_inv [OF ch] _ rest]) (use Cons.prems(2) bulk_add_one_carts [OF one] in simp)
  with ch show ?case
    by (rule cart_change_trans)
qed

interpretation bulk_op: cart_op "\<lambda>(cid, xs). bulk_add_items cid xs"
proof (unfold_locales, clarify)
  fix d cid xs r d'
  assume inv: "cart_inv d" and run: "bulk_add_items cid xs d = Inr (r, d')"
  then obtain c ps res where "get_cart d cid = Some c" "bulk_add_loop cid ps 0 xs res d = (r, d')"
    by (auto simp: bulk_add_items_def cart_checks Let_def split: if_splits)
  then show "cart_change d d'"
    using bulk_add_loop_change [OF inv get_cart_in] by blast
qed

lemma clear_cart_change: "cart_inv d \<Longrightarrow> cart_change d (snd (clear_cart cid d))"
  by (simp add: clear_cart_def Let_def cart_change_refl cart_clear_change)

text \<open>A loop over items that counts or collects beside the database.\<close>

lemma counted_fold_change:
  assumes "\<And>i x. i \<in> set xs \<Longrightarrow> cart_inv (snd x) \<Longrightarrow> cart_change (snd x) (snd (g i x))" and "cart_inv (snd x)"
  shows "cart_change (snd x) (snd (fold g xs x))"
  using assms
proof (induction xs arbitrary: x)
  case (Cons i xs)
  have ch: "cart_change (snd x) (snd (g i x))"
    using Cons.prems by simp
  have "cart_change (snd (g i x)) (snd (fold g xs (g i x)))"
    by (rule Cons.IH [OF Cons.prems(1) cart_change_inv [OF ch]]) simp_all
  with ch show ?case
    by (simp add: cart_change_trans)
qed (simp add: cart_change_refl)

lemma update_item_prices_change:
  assumes "cart_inv d"
  shows "cart_change d (snd (update_item_prices cid d))"
  unfolding update_item_prices_def using assms
  by (intro counted_fold_change [of _ _ "(0, d)", simplified])
    (auto simp: update_price_def split_beta intro: set_price_change cart_change_refl)

lemma cleanup_change:
  assumes "cart_inv d"
  shows "cart_change d (snd (cleanup_unavailable_items cid d))"
proof -
  have "cart_change (snd x) (snd (cleanup_one i x))" if inv: "cart_inv (snd x)" for i x
  proof (cases "get_product (snd x) (ci_product i)")
    case (Some p)
    then have "0 \<le> p_stock p"
      using cart_invD(4) [OF inv] by (blast dest: rget_Some_in)
    then show ?thesis
      using Some inv by (auto simp: cleanup_one_def split_beta intro: cart_change_refl delete_cart_item_change set_quantity_change)
  qed (use inv in \<open>simp add: cleanup_one_def split_beta cart_change_refl\<close>)
  then show ?thesis
    unfolding cleanup_unavailable_items_def
    using counted_fold_change [of "cart_lines d cid" cleanup_one "(\<lparr>cr_removed = [], cr_updated = []\<rparr>, d)"] assms by simp
qed

section \<open>Carts and their owners\<close>

lemma new_cart_sel [simp]:
  "c_id (new_cart who k) = k" "c_is_active (new_cart who k)" "owned_by who (new_cart who k)"
  by (cases who; simp)+

lemma proper_new_cart: "who \<noteq> Guest [] \<longleftrightarrow> proper_owner (new_cart who k)"
  by (cases who) (simp_all add: proper_owner_def)

lemma cart_clean_proper: "proper_owner c \<Longrightarrow> cart_clean c = Inr ()"
  by (auto simp: cart_clean_def proper_owner_def)

lemma owned_by_key: "proper_owner c \<Longrightarrow> owned_by who c \<longleftrightarrow> cart_owner_of c = cart_owner_of (new_cart who k)"
  by (cases who) (auto simp: proper_owner_def cart_owner_of_def)

lemma proper_in: "cart_inv d \<Longrightarrow> c \<in> set (carts d) \<Longrightarrow> proper_owner c"
  by (simp add: cart_inv_def carts_ok_def)

text \<open>Among well-formed carts, an owner has at most one that is active.\<close>

lemma active_cart_unique:
  assumes inv: "cart_inv d" and c: "c \<in> set (carts d)" "owned_by who c" "c_is_active c"
  shows "active_cart who d = Some c"
proof -
  obtain c' where c': "active_cart who d = Some c'"
    using c active_cart_None by (cases "active_cart who d") blast+
  have "c' \<in> set (carts d)" "owned_by who c'" "c_is_active c'"
    using active_cart_Some [OF c'] by simp_all
  moreover from this c have "cart_owner_of c' = cart_owner_of c"
    using owned_by_key [of _ who 0] proper_in [OF inv] by metis
  ultimately have "c' = c"
    using cart_invD(2) [OF inv] c by (auto simp: carts_ok_def distinct_map dest: inj_onD)
  then show ?thesis
    using c' by simp
qed

lemma create_cart_Inr:
  assumes inv: "cart_inv d" and run: "create_cart who d = Inr (c, d')" and who: "who \<noteq> Guest []"
  shows "cart_change d d'" "c = new_cart who (next_id d)" "carts d' = carts d @ [c]" "cart_items d' = cart_items d"
    "orders d' = orders d"
proof -
  let ?c = "new_cart who (next_id d)"
  have c: "c = ?c" "d' = d\<lparr>carts := carts d @ [?c], next_id := Suc (next_id d)\<rparr>" and none: "active_cart who d = None"
    using run by (auto simp: create_cart_def Let_def split: if_splits sum.splits)
  have "carts_ok (Suc (next_id d)) (carts d @ [?c])"
  proof (rule carts_ok_snoc [OF cart_invD(2) [OF inv]])
    show "cart_owner_of c' \<noteq> cart_owner_of ?c" if "c' \<in> set (carts d)" "c_is_active c'" for c'
      using none that owned_by_key [OF proper_in [OF inv that(1)]] by (auto simp: active_cart_None)
  qed (use proper_new_cart who in simp_all)
  from carts_only_change [OF inv this] show "cart_change d d'"
    by (auto simp: c)
  show "c = ?c" "carts d' = carts d @ [c]" "cart_items d' = cart_items d" "orders d' = orders d"
    by (simp_all add: c)
qed

text \<open>
  The operation survives a race: whatever other transactions commit in between, as long as they keep the
  constraints, it returns the one active cart of the owner.
\<close>

lemma get_or_create_active_cart_race:
  assumes inv: "cart_inv d" "cart_inv (others d)" and who: "who \<noteq> Guest []"
  obtains c new d' where "get_or_create_active_cart others who d = Inr ((c, new), d')" "cart_inv d'" "active_cart who d' = Some c"
    "new \<Longrightarrow> active_cart who d = None"
proof (cases "active_cart who d")
  case (Some c)
  then show thesis
    using that [of c False d] inv who by (simp add: get_or_create_active_cart_def)
next
  case None
  show thesis
  proof (cases "active_cart who (others d)")
    case (Some c)
    then have "get_or_create_active_cart others who d = Inr ((c, False), others d)"
      using None who by (simp add: get_or_create_active_cart_def create_cart_def)
    then show thesis
      using that Some inv(2) by blast
  next
    case no: None
    let ?c = "new_cart who (next_id (others d))"
    obtain d' where run: "create_cart who (others d) = Inr (?c, d')"
      using no cart_clean_proper proper_new_cart [of who "next_id (others d)"] who by (simp add: create_cart_def Let_def)
    note cr = create_cart_Inr [OF inv(2) run who]
    have "get_or_create_active_cart others who d = Inr ((?c, True), d')"
      using None run who by (simp add: get_or_create_active_cart_def)
    moreover have "active_cart who d' = Some ?c"
      by (rule active_cart_unique [OF cart_change_inv [OF cr(1)]]) (simp_all add: cr(3))
    ultimately show thesis
      using that cart_change_inv [OF cr(1)] None by blast
  qed
qed

lemma get_or_create_Inr:
  assumes inv: "cart_inv d" and run: "get_or_create_active_cart (\<lambda>d. d) who d = Inr ((c, new), d')"
  shows "cart_change d d'" "active_cart who d' = Some c" "cart_items d' = cart_items d" "orders d' = orders d"
    "\<And>who' c'. active_cart who' d = Some c' \<Longrightarrow> active_cart who' d' = Some c'"
proof -
  have who: "who \<noteq> Guest []"
    using run by (auto simp: get_or_create_active_cart_def)
  have "(active_cart who d = Some c \<and> d' = d) \<or> (active_cart who d = None \<and> create_cart who d = Inr (c, d'))"
    using run who by (auto simp: get_or_create_active_cart_def of_get_eq_Inr rbind_eq_Inr split: option.splits sum.splits)
  then have "cart_change d d' \<and> active_cart who d' = Some c \<and> cart_items d' = cart_items d \<and> orders d' = orders d
      \<and> (\<forall>who' c'. active_cart who' d = Some c' \<longrightarrow> active_cart who' d' = Some c')"
  proof
    assume "active_cart who d = None \<and> create_cart who d = Inr (c, d')"
    then have cr: "create_cart who d = Inr (c, d')"
      by simp
    note cr = create_cart_Inr [OF inv cr who]
    note inv' = cart_change_inv [OF cr(1)]
    have "active_cart who d' = Some c"
      by (rule active_cart_unique [OF inv']) (simp_all add: cr(2,3))
    moreover have "active_cart who' d' = Some c'" if "active_cart who' d = Some c'" for who' c'
      using active_cart_Some [OF that] by (intro active_cart_unique [OF inv']) (simp_all add: cr(3))
    ultimately show ?thesis
      using cr by simp
  qed (use inv in \<open>simp add: cart_change_refl\<close>)
  then show "cart_change d d'" "active_cart who d' = Some c" "cart_items d' = cart_items d" "orders d' = orders d"
    "\<And>who' c'. active_cart who' d = Some c' \<Longrightarrow> active_cart who' d' = Some c'"
    by blast+
qed

interpretation get_cart_op: cart_op "\<lambda>(user, key, request, fresh). get_or_create_cart user key request fresh"
proof (unfold_locales, clarify)
  fix d user key request fresh r d'
  assume inv: "cart_inv d" and run: "get_or_create_cart user key request fresh d = Inr (r, d')"
  then obtain who c new where "get_or_create_active_cart (\<lambda>d. d) who d = Inr ((c, new), d')"
    by (auto simp: get_or_create_cart_def rbind_eq_Inr of_get_eq_Inr split: option.splits if_splits)
  then show "cart_change d d'"
    by (rule get_or_create_Inr(1) [OF inv])
qed

section \<open>Closing and reopening carts\<close>

lemma carts_upd_change:
  assumes "cart_inv d" "carts_ok (next_id d) cs" "cart_ids d \<subseteq> c_id ` set cs"
  shows "cart_change d (d\<lparr>carts := cs\<rparr>)"
  using carts_only_change [OF assms order_refl] by simp

lemma cart_ids_rupd: "(\<And>c. c_id (f c) = c_id c) \<Longrightarrow> c_id ` set (rupd c_id cs k f) = c_id ` set cs"
  by (metis image_set map_key_rupd)

lemma cart_deactivate_Inr:
  "cart_deactivate cid d = Inr (x, d') \<Longrightarrow> get_cart d cid \<noteq> None \<and> d' = upd_cart cid (\<lambda>c. c\<lparr>c_is_active := False\<rparr>) d"
  by (auto simp: cart_deactivate_def cart_clean_def rbind_eq_Inr of_get_eq_Inr split: if_splits)

interpretation deactivate_op: cart_op cart_deactivate
  by unfold_locales (auto dest!: cart_deactivate_Inr simp: upd_cart_def
      intro!: carts_upd_change carts_ok_close [OF cart_invD(2)] simp: cart_ids_rupd)

lemma carts_ok_open:
  assumes ok: "carts_ok n cs" and c: "c \<in> set cs" and free: "\<And>c'. c' \<in> set cs \<Longrightarrow> c_id c' \<noteq> c_id c \<Longrightarrow> c_is_active c' \<Longrightarrow>
      cart_owner_of c' \<noteq> cart_owner_of c"
  shows "carts_ok n (rupd c_id cs (c_id c) (\<lambda>c. c\<lparr>c_is_active := True\<rparr>))"
proof -
  obtain xs ys where cs: "cs = xs @ c # ys"
    using split_list [OF c] by blast
  have ids: "\<And>c'. c' \<in> set xs \<union> set ys \<Longrightarrow> c_id c' \<noteq> c_id c"
  proof -
    have "keys_distinct c_id (xs @ c # ys)"
      using ok by (simp only: carts_ok_def cs)
    then have "c_id c \<notin> c_id ` (set xs \<union> set ys)"
      by auto
    then show "c' \<in> set xs \<union> set ys \<Longrightarrow> c_id c' \<noteq> c_id c" for c'
      by (metis imageI)
  qed
  then have up: "rupd c_id cs (c_id c) (\<lambda>c. c\<lparr>c_is_active := True\<rparr>) = xs @ c\<lparr>c_is_active := True\<rparr> # ys"
    by (simp add: cs rupd_unused)
  have key: "cart_owner_of (c\<lparr>c_is_active := True\<rparr>) = cart_owner_of c" "proper_owner (c\<lparr>c_is_active := True\<rparr>) = proper_owner c"
    by (simp_all add: cart_owner_of_def proper_owner_def)
  have "\<And>c'. c' \<in> set xs \<union> set ys \<Longrightarrow> c_is_active c' \<Longrightarrow> cart_owner_of c' \<noteq> cart_owner_of c"
    using free ids cs by auto
  then have "cart_owner_of c \<notin> cart_owner_of ` set (filter c_is_active xs) \<union> cart_owner_of ` set (filter c_is_active ys)"
    by (force simp: image_iff)
  then show ?thesis
    using ok unfolding up by (cases "c_is_active c") (auto simp: carts_ok_def cs key)
qed

lemma activate_cart_change:
  assumes inv: "cart_inv d" and run: "activate_cart cid d = Inr (x, d')"
  shows "cart_change d d'"
proof -
  obtain c where c: "get_cart d cid = Some c" and d': "d' = d\<lparr>carts := rupd c_id (carts d) cid (\<lambda>c. c\<lparr>c_is_active := True\<rparr>)\<rparr>"
    and no: "\<And>c'. c' \<in> set (carts d) \<Longrightarrow> c_id c' \<noteq> cid \<Longrightarrow> c_is_active c' \<Longrightarrow>
      \<not> (c_user c \<noteq> None \<and> c_user c' = c_user c \<or> c_session c \<noteq> None \<and> c_session c' = c_session c)"
    using run by (auto simp: activate_cart_def rbind_eq_Inr of_get_eq_Inr list_ex_iff upd_cart_def split: if_splits)
  have key: "c_id c = cid" "c \<in> set (carts d)"
    using rget_Some_key [OF c] rget_Some_in [OF c] by simp_all
  have "proper_owner c"
    by (rule proper_in [OF inv key(2)])
  then have "cart_owner_of c' \<noteq> cart_owner_of c" if "c' \<in> set (carts d)" "c_id c' \<noteq> cid" "c_is_active c'" for c'
    using no [OF that] by (auto simp: cart_owner_of_def proper_owner_def)
  then have "carts_ok (next_id d) (rupd c_id (carts d) cid (\<lambda>c. c\<lparr>c_is_active := True\<rparr>))"
    using carts_ok_open [OF cart_invD(2) [OF inv] key(2)] key(1) by simp
  from carts_upd_change [OF inv this] show ?thesis
    by (simp add: d' cart_ids_rupd)
qed

lemma move_cart_items_change:
  assumes inv: "cart_inv d" and a: "a \<in> cart_ids d"
  shows "cart_change d (move_cart_items cid a d)"
proof -
  let ?P = "\<lambda>i. ci_cart i = cid \<and> ci_product i \<notin> set (map ci_product (cart_items_of d a))"
  have "lines_ok (cart_ids d) (product_ids d) (next_id d) (map (\<lambda>i. if ?P i then i\<lparr>ci_cart := a\<rparr> else i) (cart_items d))"
    by (rule lines_ok_move [OF cart_invD(1) [OF inv] a, where a = cid])
      (auto simp: slot_def cart_items_of_def)
  then have "cart_inv (move_cart_items cid a d)"
    by (intro cart_inv_items [OF inv]) (simp_all add: move_cart_items_def Let_def)
  then show ?thesis
    by (simp add: cart_change_def cart_frame_def move_cart_items_def Let_def)
qed

interpretation restore_op: cart_op restore_cart
proof
  fix d cid r d'
  assume inv: "cart_inv d" and run: "restore_cart cid d = Inr (r, d')"
  have "find P xs = Some a \<Longrightarrow> a \<in> set xs" for P xs and a :: cart
    by (auto simp: find_Some_iff)
  with run consider "activate_cart cid d = Inr (r, d')" | a where "a \<in> set (carts d)" "d' = move_cart_items cid (c_id a) d"
    by (auto simp: restore_cart_def rbind_eq_Inr of_get_eq_Inr split: if_splits option.splits)
  then show "cart_change d d'"
    by cases (auto intro: activate_cart_change [OF inv] move_cart_items_change [OF inv])
qed

lemma delete_cart_change:
  assumes inv: "cart_inv d"
  shows "cart_change d (delete_cart cid d)"
proof -
  have "lines_ok (c_id ` set (filter (\<lambda>c. c_id c \<noteq> cid) (carts d))) (product_ids d) (next_id d) (filter (\<lambda>i. ci_cart i \<noteq> cid) (cart_items d))"
    using lines_ok_filter [OF cart_invD(1) [OF inv], of "\<lambda>i. ci_cart i \<noteq> cid"] by (auto simp: lines_ok_def)
  moreover have "map ((\<lambda>ord. ord\<lparr>o_cart := None\<rparr>) \<circ> (\<lambda>ord. if o_cart ord = Some cid then ord\<lparr>o_cart := None\<rparr> else ord)) (orders d)
      = map (\<lambda>ord. ord\<lparr>o_cart := None\<rparr>) (orders d)"
    by simp
  ultimately show ?thesis
    using inv carts_ok_filter [OF cart_invD(2) [OF inv]]
    by (simp add: cart_change_def cart_inv_def cart_frame_def delete_cart_def cart_clear_def)
qed

end
