(* ===== verification/Cart_Merge.thy ===== *)
theory Cart_Merge
  imports Cart_Ops
begin

text \<open>
  Merging the cart of a guest into the cart of a member: the two implementations keep carts well-formed
  and give the member the same pieces.
\<close>

section \<open>Pieces of a product in a cart\<close>

definition cart_pieces :: "db \<Rightarrow> pk \<Rightarrow> pk \<Rightarrow> int" where
  "cart_pieces d cid k = sum_list (map (\<lambda>i. if slot i = (cid, k) then ci_quantity i else 0) (cart_items d))"

definition line_qty :: "pk \<Rightarrow> cart_item \<Rightarrow> int" where
  "line_qty k i = (if ci_product i = k then ci_quantity i else 0)"

lemma cart_pieces_lines: "cart_pieces d cid k = sum_list (map (line_qty k) (cart_lines d cid))"
proof -
  have "cart_pieces d cid k = sum_list (map (line_qty k) (cart_items_of d cid))"
    unfolding cart_pieces_def cart_items_of_def sum_list_filter_if
    by (intro arg_cong [where f = sum_list] map_cong) (auto simp: slot_def line_qty_def)
  then show ?thesis
    by (simp add: cart_lines_def sum_list.rev flip: rev_map)
qed

lemma cart_pieces_upd:
  assumes "cart_inv d" "i \<in> set (cart_items d)"
  shows "cart_pieces (upd_cart_item (ci_id i) f d) cid k = cart_pieces d cid k
    - (if slot i = (cid, k) then ci_quantity i else 0) + (if slot (f i) = (cid, k) then ci_quantity (f i) else 0)"
proof -
  have "keys_distinct ci_id (cart_items d)"
    using cart_invD(1) [OF assms(1)] by (simp add: lines_ok_def)
  from sum_list_rupd [OF this assms(2) refl] show ?thesis
    by (simp add: cart_pieces_def upd_cart_item_def)
qed

section \<open>The merging loops\<close>

text \<open>Items of another cart that are still to be merged stay as they are.\<close>

lemma other_row_stays:
  assumes inv: "cart_inv d" and i: "i \<in> set (cart_items d)" and j: "j \<in> set (cart_items d)" "j \<noteq> i"
  shows "j \<in> set (cart_items (upd_cart_item (ci_id i) f d))"
proof -
  have "inj_on ci_id (set (cart_items d))"
    using cart_invD(1) [OF inv] by (simp add: lines_ok_def distinct_map)
  then have "ci_id j \<noteq> ci_id i"
    using i j by (auto dest: inj_onD)
  then show ?thesis
    using j(1) by (simp add: upd_cart_item_def in_rupd_other)
qed

lemma merge_item_effect:
  assumes inv: "cart_inv d" and uc: "uc \<in> cart_ids d" and i: "i \<in> set (cart_items d)" "ci_cart i \<noteq> uc"
  shows "cart_change d (merge_item uc i d)" "carts (merge_item uc i d) = carts d" "orders (merge_item uc i d) = orders d"
    "cart_pieces (merge_item uc i d) uc k = cart_pieces d uc k + line_qty k i"
    "j \<in> set (cart_items d) \<Longrightarrow> ci_cart j \<noteq> uc \<Longrightarrow> j \<noteq> i \<Longrightarrow> j \<in> set (cart_items (merge_item uc i d))"
proof -
  have "cart_change d (merge_item uc i d) \<and> carts (merge_item uc i d) = carts d \<and> orders (merge_item uc i d) = orders d
      \<and> cart_pieces (merge_item uc i d) uc k = cart_pieces d uc k + line_qty k i
      \<and> (j \<in> set (cart_items d) \<longrightarrow> ci_cart j \<noteq> uc \<longrightarrow> j \<noteq> i \<longrightarrow> j \<in> set (cart_items (merge_item uc i d)))"
  proof (cases "item_of_product d uc (ci_product i)")
    case (Some e)
    then have e: "e \<in> set (cart_items d)" "slot e = (uc, ci_product i)"
      using item_of_product_Some by (auto simp: slot_def)
    let ?f = "set_quantity (ci_quantity e + ci_quantity i)"
    have m: "merge_item uc i d = upd_cart_item (ci_id e) ?f d"
      using Some by (simp add: merge_item_def)
    have "cart_change d (upd_cart_item (ci_id e) ?f d)"
      by (rule set_quantity_change [OF inv]) (use quantity_positive [OF inv e(1)] quantity_positive [OF inv i(1)] in simp)
    moreover have "ci_cart j \<noteq> uc \<Longrightarrow> j \<noteq> e"
      using e(2) by (auto simp: slot_def)
    ultimately show ?thesis
      unfolding m using cart_pieces_upd [OF inv e(1), of ?f uc k] e(2) other_row_stays [OF inv e(1), of j ?f]
      by (auto simp: upd_cart_item_def slot_def set_quantity_def line_qty_def)
  next
    case None
    let ?f = "\<lambda>i. i\<lparr>ci_cart := uc\<rparr>"
    have m: "merge_item uc i d = upd_cart_item (ci_id i) ?f d"
      using None by (simp add: merge_item_def)
    have "lines_ok (cart_ids d) (product_ids d) (next_id d) (rupd ci_id (cart_items d) (ci_id i) ?f)"
      by (rule lines_ok_move_one [OF cart_invD(1) [OF inv] uc i(1)]) (use None in \<open>simp add: item_of_product_None\<close>)
    then have "cart_change d (upd_cart_item (ci_id i) ?f d)"
      using cart_inv_items [OF inv] by (simp add: cart_change_def cart_frame_def upd_cart_item_def)
    then show ?thesis
      unfolding m using cart_pieces_upd [OF inv i(1), of ?f uc k] i(2) other_row_stays [OF inv i(1), of j ?f]
      by (auto simp: upd_cart_item_def slot_def line_qty_def)
  qed
  then show "cart_change d (merge_item uc i d)" "carts (merge_item uc i d) = carts d" "orders (merge_item uc i d) = orders d"
    "cart_pieces (merge_item uc i d) uc k = cart_pieces d uc k + line_qty k i"
    "j \<in> set (cart_items d) \<Longrightarrow> ci_cart j \<noteq> uc \<Longrightarrow> j \<noteq> i \<Longrightarrow> j \<in> set (cart_items (merge_item uc i d))"
    by simp_all
qed

lemma merge_items_effect:
  assumes "cart_inv d" "uc \<in> cart_ids d" "\<And>i. i \<in> set xs \<Longrightarrow> i \<in> set (cart_items d) \<and> ci_cart i \<noteq> uc" "distinct xs"
  shows "cart_change d (fold (merge_item uc) xs d) \<and> carts (fold (merge_item uc) xs d) = carts d
    \<and> cart_pieces (fold (merge_item uc) xs d) uc k = cart_pieces d uc k + sum_list (map (line_qty k) xs)"
  using assms
proof (induction xs arbitrary: d)
  case Nil
  then show ?case
    by (simp add: cart_change_refl)
next
  case (Cons i xs)
  have i: "i \<in> set (cart_items d)" "ci_cart i \<noteq> uc"
    using Cons.prems(3) by simp_all
  note m = merge_item_effect [OF Cons.prems(1,2) i]
  have "cart_change (merge_item uc i d) (fold (merge_item uc) xs (merge_item uc i d))
      \<and> carts (fold (merge_item uc) xs (merge_item uc i d)) = carts (merge_item uc i d)
      \<and> cart_pieces (fold (merge_item uc) xs (merge_item uc i d)) uc k
        = cart_pieces (merge_item uc i d) uc k + sum_list (map (line_qty k) xs)"
  proof (rule Cons.IH)
    show "j \<in> set (cart_items (merge_item uc i d)) \<and> ci_cart j \<noteq> uc" if "j \<in> set xs" for j
      using m(5) [of j] Cons.prems(3) [of j] Cons.prems(4) that by auto
  qed (use m Cons.prems in \<open>auto simp: cart_change_inv\<close>)
  then show ?case
    using m by (auto intro: cart_change_trans)
qed

lemma login_merge_item_effect:
  assumes inv: "cart_inv d" and uc: "uc \<in> cart_ids d" and i: "1 \<le> ci_quantity i" "ci_product i \<in> product_ids d"
  obtains d' where "login_merge_item uc i d = Inr d'" "cart_change d d'" "carts d' = carts d" "orders d' = orders d"
    "products d' = products d" "cart_pieces d' uc k = cart_pieces d uc k + line_qty k i"
proof (cases "item_of_product d uc (ci_product i)")
  case (Some e)
  then have e: "e \<in> set (cart_items d)" "slot e = (uc, ci_product i)"
    using item_of_product_Some by (auto simp: slot_def)
  show thesis
    using Some more_quantity_change [OF inv, of "ci_quantity i" "ci_id e"] i
      cart_pieces_upd [OF inv e(1), of "more_quantity (ci_quantity i)" uc k] e(2)
    by (intro that [of "upd_cart_item (ci_id e) (more_quantity (ci_quantity i)) d"])
      (auto simp: login_merge_item_def upd_cart_item_def slot_def more_quantity_def line_qty_def)
next
  case None
  then have "\<not> list_ex (\<lambda>j. ci_product j = ci_product i) (cart_items_of d uc)"
    by (auto simp: item_of_product_None list_ex_iff in_cart_items_of slot_def)
  then obtain r d' where cr: "create_cart_item uc (ci_product i) (ci_quantity i) None d = Inr (r, d')"
    and d': "slot r = (uc, ci_product i)" "ci_quantity r = ci_quantity i" "cart_items d' = cart_items d @ [r]" "carts d' = carts d"
      "orders d' = orders d" "products d' = products d"
    by (simp add: create_cart_item_def Let_def slot_def)
  from d' None show thesis
    by (intro that [of d'] create_cart_item_change [OF inv cr uc i(2,1)])
      (simp_all add: login_merge_item_def cr cart_pieces_def line_qty_def)
qed

lemma login_merge_items_effect:
  assumes "cart_inv d" "uc \<in> cart_ids d" "\<And>i. i \<in> set xs \<Longrightarrow> 1 \<le> ci_quantity i \<and> ci_product i \<in> product_ids d"
  shows "\<exists>d'. fold_res (login_merge_item uc) xs d = Inr d' \<and> cart_change d d' \<and> carts d' = carts d
    \<and> cart_pieces d' uc k = cart_pieces d uc k + sum_list (map (line_qty k) xs)"
  using assms
proof (induction xs arbitrary: d)
  case Nil
  then show ?case
    by (simp add: cart_change_refl)
next
  case (Cons i xs)
  have i: "1 \<le> ci_quantity i" "ci_product i \<in> product_ids d"
    using Cons.prems(3) by simp_all
  obtain e where e: "login_merge_item uc i d = Inr e" "cart_change d e" "carts e = carts d" "products e = products d"
    "cart_pieces e uc k = cart_pieces d uc k + line_qty k i"
    using login_merge_item_effect [OF Cons.prems(1,2) i] .
  have "\<exists>d'. fold_res (login_merge_item uc) xs e = Inr d' \<and> cart_change e d' \<and> carts d' = carts e
      \<and> cart_pieces d' uc k = cart_pieces e uc k + sum_list (map (line_qty k) xs)"
    by (rule Cons.IH) (use e Cons.prems in \<open>auto simp: cart_change_inv\<close>)
  then show ?case
    using e by (auto intro: cart_change_trans)
qed

section \<open>The whole merge\<close>

lemma get_or_create_member:
  assumes inv: "cart_inv d"
  obtains c new d' where "get_or_create_active_cart (\<lambda>d. d) (Member uid) d = Inr ((c, new), d')" "cart_change d d'"
    "active_cart (Member uid) d' = Some c" "cart_items d' = cart_items d"
    "\<And>key g. active_cart (Guest key) d = Some g \<Longrightarrow> active_cart (Guest key) d' = Some g"
    "\<And>key. active_cart (Guest key) d = None \<Longrightarrow> active_cart (Guest key) d' = None"
proof -
  obtain c new d' where run: "get_or_create_active_cart (\<lambda>d. d) (Member uid) d = Inr ((c, new), d')"
    by (rule get_or_create_active_cart_race [of d "\<lambda>d. d" "Member uid"]) (use inv in auto)
  note g = get_or_create_Inr [OF inv run]
  have "active_cart (Guest key) d' = None" if "active_cart (Guest key) d = None" for key
  proof -
    have "d' = d \<or> (\<exists>c. create_cart (Member uid) d = Inr (c, d'))"
      using run by (auto simp: get_or_create_active_cart_def of_get_eq_Inr rbind_eq_Inr split: option.splits sum.splits)
    then show ?thesis
    proof
      assume "\<exists>c. create_cart (Member uid) d = Inr (c, d')"
      then obtain x where x: "create_cart (Member uid) d = Inr (x, d')"
        by blast
      then have "carts d' = carts d @ [new_cart (Member uid) (next_id d)]"
        using create_cart_Inr(2,3) [OF inv x] by simp
      then show ?thesis
        using that by (auto simp: active_cart_None)
    qed (use that in simp)
  qed
  with g run show thesis
    using that by blast
qed

lemma guest_not_member: "cart_inv d \<Longrightarrow> active_cart (Member uid) d = Some c \<Longrightarrow> active_cart (Guest key) d = Some g \<Longrightarrow> c_id g \<noteq> c_id c"
proof -
  assume inv: "cart_inv d" and c: "active_cart (Member uid) d = Some c" and g: "active_cart (Guest key) d = Some g"
  have "inj_on c_id (set (carts d))"
    using cart_invD(2) [OF inv] by (simp add: carts_ok_def distinct_map)
  moreover have "c \<noteq> g"
    using active_cart_Some [OF c] active_cart_Some [OF g] proper_in [OF inv, of c] by (auto simp: proper_owner_def)
  ultimately show "c_id g \<noteq> c_id c"
    using active_cart_Some [OF c] active_cart_Some [OF g] by (auto dest: inj_onD)
qed

lemma cart_lines_distinct: "cart_inv d \<Longrightarrow> distinct (cart_lines d cid)"
  using cart_invD(1) by (auto simp: cart_lines_def cart_items_of_def lines_ok_def distinct_map)

lemma cart_lines_rows:
  assumes "cart_inv d" "i \<in> set (cart_lines d cid)"
  shows "i \<in> set (cart_items d)" "ci_cart i = cid" "1 \<le> ci_quantity i" "ci_product i \<in> product_ids d"
  using assms cart_invD(1) [OF assms(1)] by (auto simp: in_cart_items_of lines_ok_def)

lemma owner_after_close:
  assumes inv: "cart_inv d" and g: "active_cart (Guest key) d = Some g" and c: "active_cart (Member uid) d = Some c"
    and cs: "\<And>x. x \<in> set (carts d') \<Longrightarrow> c_is_active x \<Longrightarrow> x \<in> set (carts d) \<and> c_id x \<noteq> c_id g" "c \<in> set (carts d')" and inv': "cart_inv d'"
  shows "active_cart (Guest key) d' = None" "active_cart (Member uid) d' = Some c"
proof -
  have "\<not> owned_by (Guest key) x" if "x \<in> set (carts d')" "c_is_active x" for x
  proof
    assume "owned_by (Guest key) x"
    then have "active_cart (Guest key) d = Some x"
      using active_cart_unique [OF inv] cs(1) [OF that] that by blast
    then show False
      using g cs(1) [OF that] by simp
  qed
  then show "active_cart (Guest key) d' = None"
    by (auto simp: active_cart_None)
  show "active_cart (Member uid) d' = Some c"
    using active_cart_unique [OF inv' cs(2)] active_cart_Some [OF c] by simp
qed

text \<open>The service's merge of a cart that is not empty.\<close>

lemma merge_effect:
  assumes inv: "cart_inv d" and g: "active_cart (Guest key) d = Some g" "cart_items_of d (c_id g) \<noteq> []"
    and gc: "get_or_create_active_cart (\<lambda>d. d) (Member uid) d = Inr ((c, new), e)"
  obtains d' where "merge_anonymous_cart uid key d = Inr (length (cart_items_of d (c_id g)), d')" "cart_change d d'"
    "active_cart (Member uid) d' = Some c" "active_cart (Guest key) d' = None"
    "cart_pieces d' (c_id c) k = cart_pieces d (c_id c) k + cart_pieces d (c_id g) k"
proof -
  note ge = get_or_create_Inr [OF inv gc]
  note inv_e = cart_change_inv [OF ge(1)]
  note ge5 = ge(5) [OF g(1)]
  have g_e: "g \<in> set (carts e)" "proper_owner g" "key \<noteq> []"
    using active_cart_Some [OF ge5] proper_in [OF inv_e, of g] by (auto simp: proper_owner_def)
  let ?xs = "cart_lines e (c_id g)"
  let ?f = "fold (merge_item (c_id c)) ?xs e"
  let ?d' = "upd_cart (c_id g) (\<lambda>c. c\<lparr>c_is_active := False\<rparr>) ?f"
  have lines: "?xs = cart_lines d (c_id g)"
    by (simp add: cart_lines_def cart_items_of_def ge(3))
  have uc: "c_id c \<in> cart_ids e"
    using active_cart_Some [OF ge(2)] by simp
  have rows: "i \<in> set (cart_items e) \<and> ci_cart i \<noteq> c_id c" if "i \<in> set ?xs" for i
    using cart_lines_rows [OF inv_e that] guest_not_member [OF inv_e ge(2) ge5] by auto
  have m: "cart_change e ?f \<and> carts ?f = carts e \<and> cart_pieces ?f (c_id c) k = cart_pieces e (c_id c) k + sum_list (map (line_qty k) ?xs)"
    by (rule merge_items_effect [OF inv_e uc rows cart_lines_distinct [OF inv_e]])
  have inv_f: "cart_inv ?f" and carts_f: "carts ?f = carts e"
    using m by (auto simp: cart_change_inv)
  have get: "get_cart ?f (c_id g) = Some g"
    using g_e(1) cart_invD(2) [OF inv_e] by (simp add: carts_f carts_ok_def rget_in_distinct)
  then have de: "cart_deactivate (c_id g) ?f = Inr ((), ?d')"
    using cart_clean_proper [OF g_e(2)] by (simp add: cart_deactivate_def)
  have ch: "cart_change ?f ?d'"
    by (rule deactivate_op.change [OF inv_f de])
  have run: "merge_anonymous_cart uid key d = Inr (length (cart_items_of d (c_id g)), ?d')"
    using g gc g_e(3) de ge(3) by (simp add: merge_anonymous_cart_def Let_def cart_lines_def cart_items_of_def)
  have "x \<in> set (carts e) \<and> c_id x \<noteq> c_id g" if "x \<in> set (carts ?d')" "c_is_active x" for x
    using that by (auto simp: upd_cart_def carts_f rupd_def split: if_splits)
  moreover have "c \<in> set (carts ?d')"
    using active_cart_Some [OF ge(2)] guest_not_member [OF inv_e ge(2) ge5] by (simp add: upd_cart_def carts_f in_rupd_other)
  ultimately have own: "active_cart (Guest key) ?d' = None" "active_cart (Member uid) ?d' = Some c"
    using owner_after_close [OF inv_e ge5 ge(2) _ _ cart_change_inv [OF ch]] by blast+
  have qty: "cart_pieces ?d' (c_id c) k = cart_pieces d (c_id c) k + cart_pieces d (c_id g) k"
    using m by (simp add: cart_pieces_lines [of d "c_id g"] lines) (simp add: cart_pieces_def upd_cart_def ge(3))
  show thesis
    using that [OF run _ own(2,1) qty] m ge(1) ch by (blast intro: cart_change_trans)
qed

text \<open>The merge at login.\<close>

lemma login_merge_effect:
  assumes inv: "cart_inv d" and g: "active_cart (Guest key) d = Some g"
    and gc: "get_or_create_active_cart (\<lambda>d. d) (Member uid) d = Inr ((c, new), e)"
  obtains d' where "login_merge_cart uid key d = Inr (c, d')" "cart_change d d'"
    "active_cart (Member uid) d' = Some c" "active_cart (Guest key) d' = None"
    "cart_pieces d' (c_id c) k = cart_pieces d (c_id c) k + cart_pieces d (c_id g) k"
proof -
  note ge = get_or_create_Inr [OF inv gc]
  note inv_e = cart_change_inv [OF ge(1)]
  note ge5 = ge(5) [OF g]
  let ?xs = "cart_lines e (c_id g)"
  have lines: "?xs = cart_lines d (c_id g)"
    by (simp add: cart_lines_def cart_items_of_def ge(3))
  have uc: "c_id c \<in> cart_ids e"
    using active_cart_Some [OF ge(2)] by simp
  have "1 \<le> ci_quantity i \<and> ci_product i \<in> product_ids e" if "i \<in> set ?xs" for i
    using cart_lines_rows [OF inv_e that] by simp
  then obtain f where f: "fold_res (login_merge_item (c_id c)) ?xs e = Inr f" "cart_change e f" "carts f = carts e"
    "cart_pieces f (c_id c) k = cart_pieces e (c_id c) k + sum_list (map (line_qty k) ?xs)"
    using login_merge_items_effect [OF inv_e uc, of ?xs k] by blast
  let ?d' = "delete_cart (c_id g) f"
  note ch = delete_cart_change [OF cart_change_inv [OF f(2)], of "c_id g"]
  have run: "login_merge_cart uid key d = Inr (c, ?d')"
    using gc ge5 f(1) by (simp add: login_merge_cart_def)
  have ne: "c_id g \<noteq> c_id c"
    by (rule guest_not_member [OF inv_e ge(2) ge5])
  have "active_cart (Guest key) ?d' = None \<and> active_cart (Member uid) ?d' = Some c"
    using owner_after_close [OF inv_e ge5 ge(2) _ _ cart_change_inv [OF ch]] active_cart_Some [OF ge(2)] ne
    by (simp add: delete_cart_def f(3))
  moreover have "cart_pieces ?d' (c_id c) k = cart_pieces f (c_id c) k"
    using ne unfolding cart_pieces_def delete_cart_def cart_clear_def
    by (simp add: sum_list_filter_if) (intro arg_cong [where f = sum_list] map_cong; simp add: slot_def)
  moreover have "cart_pieces e (c_id c) k = cart_pieces d (c_id c) k"
    by (simp add: cart_pieces_def ge(3))
  ultimately show thesis
    using that [OF run cart_change_trans [OF ge(1) cart_change_trans [OF f(2) ch]]] f(4)
    by (simp add: cart_pieces_lines [of d "c_id g"] lines)
qed

interpretation login_op: cart_op "\<lambda>(uid, key). login_merge_cart uid key"
proof (unfold_locales, clarify)
  fix d uid key r d'
  assume inv: "cart_inv d" and run: "login_merge_cart uid key d = Inr (r, d')"
  obtain c new e where gc: "get_or_create_active_cart (\<lambda>d. d) (Member uid) d = Inr ((c, new), e)"
    and e: "cart_change d e" "\<And>key. active_cart (Guest key) d = None \<Longrightarrow> active_cart (Guest key) e = None"
    using get_or_create_member [OF inv] by metis
  show "cart_change d d'"
  proof (cases "active_cart (Guest key) d")
    case None
    then show ?thesis
      using run gc e by (simp add: login_merge_cart_def)
  next
    case (Some g)
    from login_merge_effect [OF inv Some gc] show ?thesis
      using run by (metis Pair_inject sum.inject(2))
  qed
qed

interpretation merge_op: cart_op "\<lambda>(uid, key). merge_anonymous_cart uid key"
proof (unfold_locales, clarify)
  fix d uid key r d'
  assume inv: "cart_inv d" and run: "merge_anonymous_cart uid key d = Inr (r, d')"
  obtain c new e where gc: "get_or_create_active_cart (\<lambda>d. d) (Member uid) d = Inr ((c, new), e)"
    using get_or_create_member [OF inv] by metis
  show "cart_change d d'"
  proof (cases "\<exists>g. active_cart (Guest key) d = Some g \<and> cart_items_of d (c_id g) \<noteq> []")
    case True
    then obtain g where g: "active_cart (Guest key) d = Some g" "cart_items_of d (c_id g) \<noteq> []"
      by blast
    from merge_effect [OF inv g gc] show ?thesis
      using run by (metis Pair_inject sum.inject(2))
  next
    case False
    then show ?thesis
      using run cart_change_refl [OF inv] by (auto simp: merge_anonymous_cart_def split: option.splits if_splits)
  qed
qed

end
