(* ===== verification/Cart_Checkout.thy ===== *)
theory Cart_Checkout
  imports Cart_Merge
begin

text \<open>
  From a cart to an order: what the cleanup and the price update leave in a cart, and that a cart that
  passes the checks can be reserved.
\<close>

section \<open>Loops over the lines of a cart\<close>

text \<open>A loop that treats each line on its own is one pass over the table.\<close>

definition on_ids :: "pk set \<Rightarrow> (cart_item \<Rightarrow> cart_item option) \<Rightarrow> cart_item list \<Rightarrow> cart_item list" where
  "on_ids ks g xs = List.map_filter (\<lambda>i. if ci_id i \<in> ks then g i else Some i) xs"

lemma on_ids_simps [simp]:
  "on_ids ks g [] = []"
  "on_ids ks g (i # xs) = (if ci_id i \<in> ks then case g i of None \<Rightarrow> on_ids ks g xs | Some j \<Rightarrow> j # on_ids ks g xs
     else i # on_ids ks g xs)"
  by (simp_all add: on_ids_def List.map_filter_def split: option.splits)

lemma on_ids_cong: "(\<And>i. i \<in> set xs \<Longrightarrow> ci_id i \<in> ks \<Longrightarrow> g i = h i) \<Longrightarrow> on_ids ks g xs = on_ids ks h xs"
  by (induction xs) (auto split: option.splits)

lemma on_ids_delete: "on_ids {k} (\<lambda>_. None) xs = filter (\<lambda>i. ci_id i \<noteq> k) xs"
  by (induction xs) auto

lemma on_ids_update: "on_ids {k} (\<lambda>i. Some (f i)) xs = rupd ci_id xs k f"
  by (induction xs) auto

lemma on_ids_keep: "(\<And>i. i \<in> set xs \<Longrightarrow> ci_id i \<in> ks \<Longrightarrow> g i = Some i) \<Longrightarrow> on_ids ks g xs = xs"
  by (induction xs) auto

lemma on_ids_empty [simp]: "on_ids {} g xs = xs"
  by (induction xs) auto

lemma on_ids_step:
  assumes "k \<notin> ks" "\<And>i j. g i = Some j \<Longrightarrow> ci_id j = ci_id i"
  shows "on_ids ks g (on_ids {k} g xs) = on_ids (insert k ks) g xs"
  using assms by (induction xs) (auto split: option.splits)

text \<open>One step of a loop on the database and a second component, as a pass over the table.\<close>

lemma line_loop:
  assumes step: "\<And>i x. i \<in> set (cart_items (snd x)) \<Longrightarrow> keys_distinct ci_id (cart_items (snd x)) \<Longrightarrow> products (snd x) = ps \<Longrightarrow>
      snd (f i x) = (snd x)\<lparr>cart_items := on_ids {ci_id i} g (cart_items (snd x))\<rparr>"
    and g: "\<And>i j. g i = Some j \<Longrightarrow> ci_id j = ci_id i"
    and xs: "keys_distinct ci_id xs" "set xs \<subseteq> set (cart_items (snd x))" "keys_distinct ci_id (cart_items (snd x))" "products (snd x) = ps"
  shows "snd (fold f xs x) = (snd x)\<lparr>cart_items := on_ids (ci_id ` set xs) g (cart_items (snd x))\<rparr>"
  using xs
proof (induction xs arbitrary: x)
  case Nil
  then show ?case
    by simp
next
  case (Cons i xs)
  let ?t = "cart_items (snd x)"
  have one: "snd (f i x) = (snd x)\<lparr>cart_items := on_ids {ci_id i} g ?t\<rparr>"
    using Cons.prems by (intro step) simp_all
  have ids: "map ci_id (on_ids ks g t) = map ci_id (filter (\<lambda>j. ci_id j \<in> ks \<longrightarrow> g j \<noteq> None) t)" for ks t
    using g by (induction t) (auto split: option.splits)
  have stay: "j \<in> set (on_ids {ci_id i} g t)" if "j \<in> set t" "ci_id j \<noteq> ci_id i" for j t
    using that by (induction t) (auto split: option.splits)
  have "snd (fold f xs (f i x)) = (snd (f i x))\<lparr>cart_items := on_ids (ci_id ` set xs) g (cart_items (snd (f i x)))\<rparr>"
  proof (rule Cons.IH)
    have "ci_id j \<noteq> ci_id i" if "j \<in> set xs" for j
      using Cons.prems(1) that by (auto simp: image_iff)
    then show "set xs \<subseteq> set (cart_items (snd (f i x)))"
      using Cons.prems(2) stay by (auto simp: one)
    show "keys_distinct ci_id (cart_items (snd (f i x)))"
      using Cons.prems(3) by (simp add: one ids distinct_map_filter)
  qed (use Cons.prems one in simp_all)
  moreover have "ci_id i \<notin> ci_id ` set xs"
    using Cons.prems(1) by simp
  ultimately show ?case
    using on_ids_step [OF _ g] by (simp add: one)
qed

lemma map_filter_cong: "(\<And>x. x \<in> set xs \<Longrightarrow> f x = g x) \<Longrightarrow> List.map_filter f xs = List.map_filter g xs"
  by (induction xs) (auto split: option.splits)

lemma on_ids_cart:
  assumes "keys_distinct ci_id xs"
  shows "on_ids (ci_id ` set (filter (\<lambda>i. ci_cart i = cid) xs)) g xs
    = List.map_filter (\<lambda>i. if ci_cart i = cid then g i else Some i) xs"
  unfolding on_ids_def
proof (rule map_filter_cong)
  show "(if ci_id i \<in> ci_id ` set (filter (\<lambda>i. ci_cart i = cid) xs) then g i else Some i) = (if ci_cart i = cid then g i else Some i)"
    if "i \<in> set xs" for i
    using assms that by (auto simp: distinct_map dest: inj_onD)
qed

section \<open>What the cleanup leaves\<close>

definition fix_line :: "product list \<Rightarrow> cart_item \<Rightarrow> cart_item option" where
  "fix_line ps i = (case rget p_id ps (ci_product i) of
     None \<Rightarrow> Some i
   | Some p \<Rightarrow> if \<not> p_is_active p \<or> p_stock p = 0 then None
               else Some (set_quantity (min (ci_quantity i) (p_stock p)) i))"

lemma set_quantity_same [simp]: "set_quantity n i = i \<longleftrightarrow> ci_quantity i = n"
  by (cases i) (auto simp: set_quantity_def)

lemma fix_line_sel:
  "fix_line ps i = Some j \<Longrightarrow> ci_id j = ci_id i \<and> ci_cart j = ci_cart i \<and> ci_product j = ci_product i \<and> ci_price_at_add j = ci_price_at_add i"
  by (auto simp: fix_line_def set_quantity_def split: option.splits if_splits)

lemma cart_lines_keys: "cart_inv d \<Longrightarrow> keys_distinct ci_id (cart_lines d cid)"
  using cart_invD(1) [of d] by (auto simp: cart_lines_def cart_items_of_def lines_ok_def distinct_map_filter simp flip: rev_map)

lemma only_row: "keys_distinct ci_id xs \<Longrightarrow> i \<in> set xs \<Longrightarrow> j \<in> set xs \<Longrightarrow> ci_id j = ci_id i \<Longrightarrow> j = i"
  by (auto simp: distinct_map dest: inj_onD)

lemma cleanup_one_pass:
  assumes i: "i \<in> set (cart_items (snd x))" and dist: "keys_distinct ci_id (cart_items (snd x))" and ps: "products (snd x) = ps"
  shows "snd (cleanup_one i x) = (snd x)\<lparr>cart_items := on_ids {ci_id i} (fix_line ps) (cart_items (snd x))\<rparr>"
proof -
  obtain res d where x: "x = (res, d)"
    by fastforce
  have row: "j = i" if "j \<in> set (cart_items d)" "ci_id j \<in> {ci_id i}" for j
    using only_row [OF dist i] that by (simp add: x)
  have pass: "on_ids {ci_id i} (fix_line ps) (cart_items d) = on_ids {ci_id i} g (cart_items d)" if "fix_line ps i = g i" for g
    using that row by (auto intro: on_ids_cong)
  show ?thesis
  proof (cases "fix_line ps i")
    case None
    then show ?thesis
      using pass [of "\<lambda>_. None"] ps
      by (auto simp: x cleanup_one_def fix_line_def on_ids_delete delete_cart_item_def split: option.splits if_splits)
  next
    case (Some j)
    show ?thesis
    proof (cases "j = i")
      case True
      then have "on_ids {ci_id i} (fix_line ps) (cart_items d) = cart_items d"
        using Some row by (intro on_ids_keep) auto
      moreover have "snd (cleanup_one i x) = d"
        using Some True ps by (auto simp: x cleanup_one_def fix_line_def split: option.splits if_splits)
      ultimately show ?thesis
        by (simp add: x)
    next
      case False
      then obtain p where p: "get_product d (ci_product i) = Some p" "p_is_active p" "p_stock p \<noteq> 0" "p_stock p < ci_quantity i"
        using Some ps by (auto simp: fix_line_def x min_def split: option.splits if_splits)
      then have "fix_line ps i = Some (set_quantity (p_stock p) i)"
        using ps by (simp add: fix_line_def x)
      then show ?thesis
        using pass [of "\<lambda>i. Some (set_quantity (p_stock p) i)"] p
        by (simp add: x cleanup_one_def on_ids_update upd_cart_item_def)
    qed
  qed
qed

lemma cleanup_result:
  assumes inv: "cart_inv d"
  shows "snd (cleanup_unavailable_items cid d)
    = d\<lparr>cart_items := List.map_filter (\<lambda>i. if ci_cart i = cid then fix_line (products d) i else Some i) (cart_items d)\<rparr>"
proof -
  have dist: "keys_distinct ci_id (cart_items d)"
    using cart_invD(1) [OF inv] by (simp add: lines_ok_def)
  let ?x = "(\<lparr>cr_removed = [], cr_updated = []\<rparr>, d)"
  have "snd (fold cleanup_one (cart_lines d cid) ?x)
    = (snd ?x)\<lparr>cart_items := on_ids (ci_id ` set (cart_lines d cid)) (fix_line (products d)) (cart_items (snd ?x))\<rparr>"
  proof (rule line_loop)
    show "snd (cleanup_one i x) = (snd x)\<lparr>cart_items := on_ids {ci_id i} (fix_line (products d)) (cart_items (snd x))\<rparr>"
      if "i \<in> set (cart_items (snd x))" "keys_distinct ci_id (cart_items (snd x))" "products (snd x) = products d" for i x
      using that by (rule cleanup_one_pass)
  qed (use fix_line_sel dist cart_lines_keys [OF inv] in \<open>auto simp: in_cart_items_of\<close>)
  then show ?thesis
    using on_ids_cart [OF dist, of cid] by (simp add: cleanup_unavailable_items_def cart_items_of_def)
qed

section \<open>What the price update leaves\<close>

definition price_in :: "product list \<Rightarrow> pk \<Rightarrow> money" where
  "price_in ps k = (case rget p_id ps k of None \<Rightarrow> 0 | Some p \<Rightarrow> p_price p)"

lemma product_price_in: "product_price d k = price_in (products d) k"
  by (simp add: product_price_def price_in_def)

definition fix_price :: "product list \<Rightarrow> cart_item \<Rightarrow> cart_item" where
  "fix_price ps i = (if ci_price_at_add i = None then i else set_price (price_in ps (ci_product i)) i)"

lemma fix_price_sel [simp]:
  "ci_id (fix_price ps i) = ci_id i" "ci_cart (fix_price ps i) = ci_cart i" "ci_product (fix_price ps i) = ci_product i"
  "ci_quantity (fix_price ps i) = ci_quantity i"
  by (simp_all add: fix_price_def set_price_def)

lemma set_price_same [simp]: "set_price p i = i \<longleftrightarrow> ci_price_at_add i = Some p"
  by (cases i) (auto simp: set_price_def)

lemma update_price_pass:
  assumes i: "i \<in> set (cart_items (snd x))" and dist: "keys_distinct ci_id (cart_items (snd x))" and ps: "products (snd x) = ps"
  shows "snd (update_price i x) = (snd x)\<lparr>cart_items := on_ids {ci_id i} (\<lambda>i. Some (fix_price ps i)) (cart_items (snd x))\<rparr>"
proof -
  obtain n d where x: "x = (n, d)"
    by fastforce
  have row: "j = i" if "j \<in> set (cart_items d)" "ci_id j \<in> {ci_id i}" for j
    using only_row [OF dist i] that by (simp add: x)
  show ?thesis
  proof (cases "is_price_changed d i")
    case True
    have "on_ids {ci_id i} (\<lambda>i. Some (fix_price ps i)) (cart_items d)
        = on_ids {ci_id i} (\<lambda>j. Some (set_price (price_in ps (ci_product i)) j)) (cart_items d)"
    proof (rule on_ids_cong)
      fix j
      assume "j \<in> set (cart_items d)" "ci_id j \<in> {ci_id i}"
      then have "j = i"
        by (rule row)
      then show "Some (fix_price ps j) = Some (set_price (price_in ps (ci_product i)) j)"
        using True by (auto simp: fix_price_def is_price_changed_def)
    qed
    then show ?thesis
      using True ps by (simp add: x update_price_def on_ids_update upd_cart_item_def product_price_in)
  next
    case False
    have "on_ids {ci_id i} (\<lambda>i. Some (fix_price ps i)) (cart_items d) = cart_items d"
    proof (rule on_ids_keep)
      fix j
      assume "j \<in> set (cart_items d)" "ci_id j \<in> {ci_id i}"
      then have "j = i"
        by (rule row)
      then show "Some (fix_price ps j) = Some j"
        using False ps by (auto simp: x fix_price_def is_price_changed_def product_price_in)
    qed
    then show ?thesis
      using False by (simp add: x update_price_def)
  qed
qed

lemma update_prices_result:
  assumes inv: "cart_inv d"
  shows "snd (update_item_prices cid d)
    = d\<lparr>cart_items := map (\<lambda>i. if ci_cart i = cid then fix_price (products d) i else i) (cart_items d)\<rparr>"
proof -
  have dist: "keys_distinct ci_id (cart_items d)"
    using cart_invD(1) [OF inv] by (simp add: lines_ok_def)
  let ?x = "(0 :: nat, d)" let ?g = "\<lambda>i. Some (fix_price (products d) i)"
  have "snd (fold update_price (cart_lines d cid) ?x)
    = (snd ?x)\<lparr>cart_items := on_ids (ci_id ` set (cart_lines d cid)) ?g (cart_items (snd ?x))\<rparr>"
  proof (rule line_loop)
    show "snd (update_price i x) = (snd x)\<lparr>cart_items := on_ids {ci_id i} ?g (cart_items (snd x))\<rparr>"
      if "i \<in> set (cart_items (snd x))" "keys_distinct ci_id (cart_items (snd x))" "products (snd x) = products d" for i x
      using that by (rule update_price_pass)
  qed (use dist cart_lines_keys [OF inv] in \<open>auto simp: in_cart_items_of\<close>)
  moreover have "List.map_filter (\<lambda>i. if ci_cart i = cid then ?g i else Some i) (cart_items d)
      = map (\<lambda>i. if ci_cart i = cid then fix_price (products d) i else i) (cart_items d)"
    by (simp add: List.map_filter_def comp_def cong: if_cong)
  ultimately show ?thesis
    using on_ids_cart [OF dist, of cid ?g] by (simp add: update_item_prices_def cart_items_of_def)
qed

section \<open>Checks after cleanup and price update\<close>

lemma filter_map_filter:
  assumes "\<And>x y. f x = Some y \<Longrightarrow> P y = P x"
  shows "filter P (List.map_filter f xs) = List.map_filter f (filter P xs)"
  using assms by (induction xs) (auto split: option.splits)

lemma map_filter_Nil_iff: "List.map_filter f xs = [] \<longleftrightarrow> (\<forall>x \<in> set xs. f x = None)"
  by (induction xs) (auto split: option.splits)

lemma cleanup_lines:
  assumes inv: "cart_inv d"
  shows "cart_items_of (snd (cleanup_unavailable_items cid d)) cid = List.map_filter (fix_line (products d)) (cart_items_of d cid)"
    "cid' \<noteq> cid \<Longrightarrow> cart_items_of (snd (cleanup_unavailable_items cid d)) cid' = cart_items_of d cid'"
    "products (snd (cleanup_unavailable_items cid d)) = products d"
proof -
  let ?g = "\<lambda>i. if ci_cart i = cid then fix_line (products d) i else Some i"
  have "cart_items_of (snd (cleanup_unavailable_items cid d)) k = List.map_filter ?g (cart_items_of d k)" for k
    unfolding cart_items_of_def cleanup_result [OF inv]
    by (simp, rule filter_map_filter) (auto dest: fix_line_sel split: if_splits)
  moreover have "List.map_filter ?g (cart_items_of d cid) = List.map_filter (fix_line (products d)) (cart_items_of d cid)"
    by (rule map_filter_cong) (simp add: in_cart_items_of)
  moreover have "List.map_filter ?g (cart_items_of d k) = cart_items_of d k" if "k \<noteq> cid" for k
    using map_filter_cong [of "cart_items_of d k" ?g Some] that by (simp add: in_cart_items_of List.map_filter_def comp_def)
  ultimately show "cart_items_of (snd (cleanup_unavailable_items cid d)) cid = List.map_filter (fix_line (products d)) (cart_items_of d cid)"
    "cid' \<noteq> cid \<Longrightarrow> cart_items_of (snd (cleanup_unavailable_items cid d)) cid' = cart_items_of d cid'"
    "products (snd (cleanup_unavailable_items cid d)) = products d"
    by (simp_all add: cleanup_result [OF inv])
qed

lemma filter_map_cart:
  assumes "\<And>i. ci_cart (f i) = ci_cart i"
  shows "filter (\<lambda>i. ci_cart i = k) (map (\<lambda>i. if ci_cart i = cid then f i else i) xs)
    = (if k = cid then map f (filter (\<lambda>i. ci_cart i = cid) xs) else filter (\<lambda>i. ci_cart i = k) xs)"
  using assms by (induction xs) auto

lemma price_lines:
  assumes inv: "cart_inv d"
  shows "cart_items_of (snd (update_item_prices cid d)) k
      = (if k = cid then map (fix_price (products d)) (cart_items_of d cid) else cart_items_of d k)"
    "products (snd (update_item_prices cid d)) = products d"
  by (simp_all add: update_prices_result [OF inv] cart_items_of_def filter_map_cart del: filter_map)

lemma set_map_filter: "y \<in> set (List.map_filter f xs) \<longleftrightarrow> (\<exists>x \<in> set xs. f x = Some y)"
  by (induction xs) (auto split: option.splits)

lemma no_issue_iff: "stock_issue_of d i = None \<longleftrightarrow> cart_item_error d i = None"
  by (simp add: stock_issue_of_def cart_item_error_def split: option.splits)

lemma fix_line_no_issue:
  assumes "fix_line (products d) i = Some j" "products e = products d"
  shows "stock_issue_of e j = None"
  using assms by (auto simp: fix_line_def stock_issue_of_def set_quantity_def split: option.splits if_splits)

lemma no_issue_quantity:
  assumes "get_product d (ci_product i) = Some p"
  shows "stock_issue_of d i = None \<longleftrightarrow> p_is_active p \<and> p_stock p \<noteq> 0 \<and> ci_quantity i \<le> p_stock p"
  using assms by (auto simp: stock_issue_of_def)

section \<open>Reserving a checked cart\<close>

text \<open>Lines for different products do not compete for stock.\<close>

lemma reserve_loop_ok:
  assumes "distinct (map ci_product cis)"
    and "\<And>i. i \<in> set cis \<Longrightarrow> \<exists>p. get_product d (ci_product i) = Some p \<and> ci_quantity i \<le> p_stock p"
  shows "\<exists>d'. reserve_loop oid cis d = Inr (None, d')"
  using assms
proof (induction cis arbitrary: d)
  case (Cons i cis)
  obtain p where p: "get_product d (ci_product i) = Some p" "ci_quantity i \<le> p_stock p"
    using Cons.prems(2) [of i] by auto
  let ?d = "create_order_item oid p (ci_quantity i) (upd_product (p_id p) (map_stock (\<lambda>s. s - ci_quantity i)) d)"
  have pid: "p_id p = ci_product i"
    using rget_Some_key [OF p(1)] by simp
  have "\<exists>d'. reserve_loop oid cis ?d = Inr (None, d')"
  proof (rule Cons.IH)
    fix j
    assume j: "j \<in> set cis"
    then have "ci_product j \<noteq> p_id p"
      using Cons.prems(1) pid by (auto simp: image_iff)
    then have "get_product ?d (ci_product j) = get_product d (ci_product j)"
      by (simp add: create_order_item_def rget_rupd map_stock_def)
    then show "\<exists>p. get_product ?d (ci_product j) = Some p \<and> ci_quantity j \<le> p_stock p"
      using Cons.prems(2) [of j] j by simp
  qed (use Cons.prems(1) in simp)
  then show ?case
    using p by simp
qed simp

lemma cart_products_distinct:
  assumes inv: "cart_inv d"
  shows "distinct (map ci_product (cart_items_of d cid))"
proof -
  have "distinct (map slot (cart_items_of d cid))"
    using cart_invD(1) [OF inv] by (simp add: cart_items_of_def lines_ok_def distinct_map_filter)
  moreover have "map slot (cart_items_of d cid) = map (Pair cid) (map ci_product (cart_items_of d cid))"
    by (simp add: slot_def in_cart_items_of)
  ultimately have "distinct (map (Pair cid) (map ci_product (cart_items_of d cid)))"
    by simp
  then show ?thesis
    by (simp only: distinct_map)
qed

lemma checked_cart_reserves:
  assumes inv: "cart_inv d" and ok: "\<And>i. i \<in> set (cart_items_of d cid) \<Longrightarrow> stock_issue_of d i = None"
  shows "\<exists>d'. create_order_items_and_decrease_stock oid cid d = Inr ((), d')"
proof -
  have "\<exists>d'. reserve_loop oid (by_product (cart_items_of d cid)) d = Inr (None, d')"
  proof (rule reserve_loop_ok)
    have "mset (map ci_product (by_product (cart_items_of d cid))) = mset (map ci_product (cart_items_of d cid))"
      by (simp add: by_product_def)
    then show "distinct (map ci_product (by_product (cart_items_of d cid)))"
      using cart_products_distinct [OF inv] by (metis mset_eq_imp_distinct_iff)
    fix i
    assume "i \<in> set (by_product (cart_items_of d cid))"
    then have i: "i \<in> set (cart_items_of d cid)"
      by (simp add: by_product_def)
    then have "ci_product i \<in> product_ids d"
      using cart_invD(1) [OF inv] by (simp add: in_cart_items_of lines_ok_def)
    then obtain p where p: "get_product d (ci_product i) = Some p"
      using rget_None_iff [of p_id "products d" "ci_product i"] by (cases "get_product d (ci_product i)") auto
    then show "\<exists>p. get_product d (ci_product i) = Some p \<and> ci_quantity i \<le> p_stock p"
      using ok [OF i] by (simp add: no_issue_quantity [OF p])
  qed
  then show ?thesis
    by (auto simp: create_order_items_and_decrease_stock_def decrease_is_reserve)
qed

end
