(* ===== verification/Cart_Properties.thy ===== *)
theory Cart_Properties
  imports Cart_Checkout Order_Properties
begin

text \<open>
  The properties of carts: well-formed in every reachable state, ready to be ordered after cleanup and
  price update, and merged without losing pieces.
\<close>

section \<open>The life of carts\<close>

text \<open>
  The steps: the operations of the cart service, the two merges, what orders do to carts (closing and
  restoring them) and everything else the shop does that leaves carts and products' ids alone.
\<close>

inductive cart_step :: "db \<Rightarrow> db \<Rightarrow> bool" where
  look: "get_or_create_cart user key request fresh d = Inr (c, d') \<Longrightarrow> cart_step d d'"
| add: "add_item cid k n d = Inr (i, d') \<Longrightarrow> cart_step d d'"
| change: "update_item_quantity cid k n d = Inr (r, d') \<Longrightarrow> cart_step d d'"
| remove: "remove_item cid k d = Inr (name, d') \<Longrightarrow> cart_step d d'"
| clear: "cart_step d (snd (clear_cart cid d))"
| bulk: "bulk_add_items cid xs d = Inr (res, d') \<Longrightarrow> cart_step d d'"
| prices: "cart_step d (snd (update_item_prices cid d))"
| cleanup: "cart_step d (snd (cleanup_unavailable_items cid d))"
| merge: "merge_anonymous_cart uid key d = Inr (m, d') \<Longrightarrow> cart_step d d'"
| login: "login_merge_cart uid key d = Inr (c, d') \<Longrightarrow> cart_step d d'"
| close: "cart_deactivate cid d = Inr (u, d') \<Longrightarrow> cart_step d d'"
| restore: "restore_cart cid d = Inr (u, d') \<Longrightarrow> cart_step d d'"
| elsewhere: "carts d' = carts d \<Longrightarrow> cart_items d' = cart_items d \<Longrightarrow> map p_id (products d') = map p_id (products d) \<Longrightarrow>
    \<forall>p \<in> set (products d'). 0 \<le> p_stock p \<Longrightarrow> next_id d \<le> next_id d' \<Longrightarrow> cart_step d d'"

definition no_carts :: "db \<Rightarrow> bool" where
  "no_carts d \<longleftrightarrow> carts d = [] \<and> cart_items d = [] \<and> keys_distinct p_id (products d) \<and> (\<forall>p \<in> set (products d). 0 \<le> p_stock p)"

lemma no_carts_inv: "no_carts d \<Longrightarrow> cart_inv d"
  by (simp add: no_carts_def cart_inv_def lines_ok_def carts_ok_def)

lemma elsewhere_cart_inv:
  assumes inv: "cart_inv d" and d': "carts d' = carts d" "cart_items d' = cart_items d" "map p_id (products d') = map p_id (products d)"
    "\<forall>p \<in> set (products d'). 0 \<le> p_stock p" "next_id d \<le> next_id d'"
  shows "cart_inv d'"
proof -
  have "product_ids d' = product_ids d"
    using d'(3) by (metis list.set_map)
  then show ?thesis
    using inv d' lines_ok_mono [OF cart_invD(1) [OF inv] d'(5) order_refl] by (auto simp: cart_inv_def carts_ok_def intro: less_le_trans)
qed

lemmas tuple_ops_inv =
  get_cart_op.keeps_inv [of _ "(user, key, request, fresh)" for user key request fresh, simplified]
  add_op.keeps_inv [of _ "(cid, k, n)" for cid k n, simplified]
  update_op.keeps_inv [of _ "(cid, k, n)" for cid k n, simplified]
  remove_op.keeps_inv [of _ "(cid, k)" for cid k, simplified]
  bulk_op.keeps_inv [of _ "(cid, xs)" for cid xs, simplified]
  merge_op.keeps_inv [of _ "(uid, key)" for uid key, simplified]
  login_op.keeps_inv [of _ "(uid, key)" for uid key, simplified]

lemmas plain_ops_inv = cart_change_inv [OF clear_cart_change] cart_change_inv [OF update_item_prices_change]
  cart_change_inv [OF cleanup_change] deactivate_op.keeps_inv restore_op.keeps_inv

lemma cart_step_inv: "cart_inv d \<Longrightarrow> cart_step d d' \<Longrightarrow> cart_inv d'"
  by (erule cart_step.cases) (blast intro: tuple_ops_inv plain_ops_inv elsewhere_cart_inv)+

interpretation cart_system: transition_system no_carts cart_step cart_inv
  by unfold_locales (blast intro: no_carts_inv cart_step_inv)+

section \<open>Carts are well-formed\<close>

text \<open>C28: in every reachable state a user and a session have at most one active cart, a cart has at most one line per product,
  every line has a positive quantity and belongs to an existing cart and an existing product, and every cart has exactly one
  kind of owner.\<close>

theorem carts_well_formed:
  assumes reach: "cart_system.reachable d"
  shows "(\<forall>c \<in> set (carts d). \<forall>c' \<in> set (carts d). c_is_active c \<and> c_is_active c'
        \<and> (c_user c \<noteq> None \<and> c_user c = c_user c' \<or> c_session c \<noteq> None \<and> c_session c = c_session c') \<longrightarrow> c = c')
    \<and> (\<forall>i \<in> set (cart_items d). \<forall>i' \<in> set (cart_items d). ci_cart i = ci_cart i' \<and> ci_product i = ci_product i' \<longrightarrow> i = i')
    \<and> (\<forall>i \<in> set (cart_items d). 1 \<le> ci_quantity i \<and> get_cart d (ci_cart i) \<noteq> None \<and> get_product d (ci_product i) \<noteq> None)
    \<and> (\<forall>c \<in> set (carts d). (c_user c = None) \<noteq> (c_session c = None))"
proof -
  have inv: "cart_inv d"
    by (rule cart_system.reachable_inv [OF reach])
  note lines = cart_invD(1) [OF inv, unfolded lines_ok_def]
  have slots: "inj_on slot (set (cart_items d))" and owners: "inj_on cart_owner_of (set (filter c_is_active (carts d)))"
    using lines cart_invD(2) [OF inv] by (simp_all add: carts_ok_def distinct_map)
  have one: "c = c'" if c: "c \<in> set (carts d)" "c_is_active c" and c': "c' \<in> set (carts d)" "c_is_active c'"
    and eq: "c_user c \<noteq> None \<and> c_user c = c_user c' \<or> c_session c \<noteq> None \<and> c_session c = c_session c'" for c c'
  proof (rule inj_onD [OF owners])
    show "cart_owner_of c = cart_owner_of c'"
      using eq proper_in [OF inv c(1)] proper_in [OF inv c'(1)] by (auto simp: cart_owner_of_def proper_owner_def)
  qed (use c c' in simp_all)
  have two: "i = i'" if "i \<in> set (cart_items d)" "i' \<in> set (cart_items d)" "ci_cart i = ci_cart i'" "ci_product i = ci_product i'" for i i'
    using inj_onD [OF slots, of i i'] that by (simp add: slot_def)
  have three: "1 \<le> ci_quantity i \<and> get_cart d (ci_cart i) \<noteq> None \<and> get_product d (ci_product i) \<noteq> None"
    if "i \<in> set (cart_items d)" for i
    using lines that by (auto simp: rget_None_iff)
  have four: "(c_user c = None) \<noteq> (c_session c = None)" if "c \<in> set (carts d)" for c
    using proper_in [OF inv that] by (simp add: proper_owner_def)
  have A: "\<forall>c \<in> set (carts d). \<forall>c' \<in> set (carts d). c_is_active c \<and> c_is_active c'
      \<and> (c_user c \<noteq> None \<and> c_user c = c_user c' \<or> c_session c \<noteq> None \<and> c_session c = c_session c') \<longrightarrow> c = c'"
    by (intro ballI impI, elim conjE) (rule one)
  have B: "\<forall>i \<in> set (cart_items d). \<forall>i' \<in> set (cart_items d). ci_cart i = ci_cart i' \<and> ci_product i = ci_product i' \<longrightarrow> i = i'"
    by (intro ballI impI, elim conjE) (rule two)
  show ?thesis
    by (rule conjI [OF A conjI [OF B conjI]]; rule ballI; erule three four)
qed

text \<open>A guest and a member with a piece of the same product.\<close>

definition shelf_db :: db where
  "shelf_db = empty_db\<lparr>products := [shop_product 30 1000 5, shop_product 31 2000 1], next_id := 60\<rparr>"

definition filled :: "pk option \<Rightarrow> string \<Rightarrow> (pk \<times> int) list \<Rightarrow> db \<Rightarrow> db" where
  "filled user key xs d = (case get_or_create_cart user key None '''' d of
     Inl e \<Rightarrow> d
   | Inr (c, d) \<Rightarrow> fold (\<lambda>(k, n) d. case add_item (c_id c) k n d of Inl e \<Rightarrow> d | Inr (i, d) \<Rightarrow> d) xs d)"

definition two_carts :: db where
  "two_carts = filled None ''s1'' [(30, 2), (31, 1)] (filled (Some 7) '''' [(30, 1)] shelf_db)"

lemma filled_reachable:
  assumes "cart_system.reachable d"
  shows "cart_system.reachable (filled user key xs d)"
proof (cases "get_or_create_cart user key None '''' d")
  case (Inr x)
  obtain c e where x: "x = (c, e)"
    by fastforce
  have "cart_system.reachable e"
    using Inr by (intro cart_system.reachable.step [OF assms] cart_step.look) (simp add: x)
  then have "cart_system.reachable (fold (\<lambda>(k, n) d. case add_item (c_id c) k n d of Inl e \<Rightarrow> d | Inr (i, d) \<Rightarrow> d) xs e)"
  proof (rule fold_invariant_on)
    show "cart_system.reachable ((\<lambda>(k, n) d. case add_item (c_id c) k n d of Inl e \<Rightarrow> d | Inr (i, d) \<Rightarrow> d) y s)"
      if "cart_system.reachable s" for y s
      using that by (cases y) (auto split: sum.splits intro: cart_system.reachable.step cart_step.add)
  qed
  then show ?thesis
    using Inr by (simp add: filled_def x)
qed (use assms in \<open>simp add: filled_def\<close>)

lemma two_carts_reachable: "cart_system.reachable two_carts"
  unfolding two_carts_def
  by (intro filled_reachable cart_system.reachable.start) (simp add: no_carts_def shelf_db_def empty_db_def shop_product_def)

theorem carts_well_formed_witness:
  "map (\<lambda>c. (c_id c, c_user c, c_session c)) (carts two_carts) = [(60, Some 7, None), (62, None, Some ''s1'')]
    \<and> map (\<lambda>i. (ci_cart i, ci_product i, ci_quantity i)) (cart_items two_carts) = [(60, 30, 1), (62, 30, 2), (62, 31, 1)]
    \<and> list_all (\<lambda>i. 1 \<le> ci_quantity i) (cart_items two_carts)"
proof -
  have "map (\<lambda>c. (c_id c, c_user c, c_session c)) (carts two_carts) = [(60, Some 7, None), (62, None, Some ''s1'')]"
    "map (\<lambda>i. (ci_cart i, ci_product i, ci_quantity i)) (cart_items two_carts) = [(60, 30, 1), (62, 30, 2), (62, 31, 1)]"
    by code_simp+
  then show ?thesis
    using carts_well_formed [OF two_carts_reachable] unfolding list_all_iff by blast
qed

section \<open>From the cart to the order\<close>

lemma validate_cart_Inr:
  "validate_cart_items cid d = Inr xs \<longleftrightarrow> cart_items_of d cid \<noteq> [] \<and> xs = cart_lines d cid \<and> check_stock cid d = []
     \<and> check_price_changes cid d = []"
  by (auto simp: validate_cart_items_def Let_def check_stock_def map_filter_Nil_iff no_issue_iff)

text \<open>C29: a cart that passes the checks before an order can be reserved completely, as long as no stock is sold in between: the
  reservation of the order does not fail.  The cleanup removes exactly the lines that are not sold any more or sold out, lowers
  the others to the stock, and then no stock problem is left; after the price update no price has changed; so a cart that is
  not empty afterwards passes the checks.  Other carts are not touched.\<close>

theorem checkout_after_cleanup:
  fixes d :: db and cid :: pk
  assumes inv: "cart_inv d"
  defines "d1 \<equiv> snd (cleanup_unavailable_items cid d)" and "d2 \<equiv> snd (update_item_prices cid (snd (cleanup_unavailable_items cid d)))"
  shows "(\<forall>xs. validate_cart_items cid d = Inr xs \<longrightarrow> (\<exists>e. create_order_items_and_decrease_stock oid cid d = Inr ((), e)))
    \<and> cart_items_of d1 cid = List.map_filter (fix_line (products d)) (cart_items_of d cid)
    \<and> check_stock cid d1 = [] \<and> check_stock cid d2 = [] \<and> check_price_changes cid d2 = []
    \<and> validate_cart_items cid d2 = (if cart_items_of d2 cid = [] then Inl [] else Inr (cart_lines d2 cid))
    \<and> (cid' \<noteq> cid \<longrightarrow> cart_items_of d2 cid' = cart_items_of d cid')"
proof -
  have inv1: "cart_inv d1"
    unfolding d1_def by (rule cart_change_inv [OF cleanup_change [OF inv]])
  note c1 = cleanup_lines [OF inv, where cid = cid, folded d1_def]
  note c2 = price_lines [OF inv1, of cid, folded d2_def [folded d1_def]]
  have issue1: "stock_issue_of e i = None" if "i \<in> set (cart_items_of d1 cid)" "products e = products d" for e i
    using that fix_line_no_issue [of d _ i e] by (auto simp: c1(1) set_map_filter)
  have stock1: "check_stock cid d1 = []"
    using issue1 c1(3) by (simp add: check_stock_def map_filter_Nil_iff)
  have "stock_issue_of d2 (fix_price ps i) = stock_issue_of d2 i" for ps i
    by (simp add: stock_issue_of_def split: option.split)
  then have stock2: "check_stock cid d2 = []"
    using issue1 [of _ d2] c1(3) c2 by (auto simp: check_stock_def map_filter_Nil_iff)
  have "\<not> is_price_changed d2 (fix_price (products d1) i)" for i
    using c2(2) by (auto simp: is_price_changed_def fix_price_def set_price_def product_price_in split: option.splits)
  then have price2: "check_price_changes cid d2 = []"
    using c2(1) by (auto simp: check_price_changes_def filter_empty_conv)
  have "\<exists>e. create_order_items_and_decrease_stock oid cid d = Inr ((), e)" if "validate_cart_items cid d = Inr xs" for xs
    using checked_cart_reserves [OF inv] that by (simp add: validate_cart_Inr check_stock_def map_filter_Nil_iff)
  moreover have "validate_cart_items cid d2 = (if cart_items_of d2 cid = [] then Inl [] else Inr (cart_lines d2 cid))"
    using validate_cart_Inr [of cid d2] stock2 price2 by (cases "cart_items_of d2 cid = []") (simp_all add: validate_cart_items_def)
  ultimately show ?thesis
    using stock1 stock2 price2 c1(1,2) c2(1) by auto
qed

definition stale_db :: db where
  "stale_db = two_carts\<lparr>products := [shop_product 30 1500 1, shop_product 31 2000 0]\<rparr>"

theorem checkout_after_cleanup_witness:
  "map (\<lambda>i. (ci_product i, ci_quantity i)) (cart_items_of (snd (cleanup_unavailable_items 62 stale_db)) 62) = [(30, 1)]
    \<and> isl (validate_cart_items 62 stale_db)
    \<and> \<not> isl (validate_cart_items 62 (snd (update_item_prices 62 (snd (cleanup_unavailable_items 62 stale_db)))))"
proof -
  have "cart_inv stale_db"
    unfolding stale_db_def
    by (rule elsewhere_cart_inv [OF cart_system.reachable_inv [OF two_carts_reachable]]) (simp_all, code_simp, simp add: shop_product_def)
  note th = checkout_after_cleanup [OF this, of 62]
  have "map (\<lambda>i. (ci_product i, ci_quantity i)) (List.map_filter (fix_line (products stale_db)) (cart_items_of stale_db 62)) = [(30, 1)]"
    "isl (validate_cart_items 62 stale_db)"
    "cart_items_of (snd (update_item_prices 62 (snd (cleanup_unavailable_items 62 stale_db)))) 62 \<noteq> []"
    by code_simp+
  then show ?thesis
    using th by simp
qed

section \<open>Merging\<close>

text \<open>When a guest with a cart that is not empty logs in, the two implementations of the merge agree on what the member gets:
  the same active cart with, of every product, the pieces of both carts; the guest has no active cart afterwards, and no other
  table changes except for the links from orders to a deleted cart.\<close>

theorem merges_agree:
  assumes inv: "cart_inv d" and g: "active_cart (Guest key) d = Some g" "cart_items_of d (c_id g) \<noteq> []"
  shows "\<exists>c d1 d2. merge_anonymous_cart uid key d = Inr (length (cart_items_of d (c_id g)), d1)
    \<and> login_merge_cart uid key d = Inr (c, d2)
    \<and> active_cart (Member uid) d1 = Some c \<and> active_cart (Member uid) d2 = Some c
    \<and> active_cart (Guest key) d1 = None \<and> active_cart (Guest key) d2 = None
    \<and> cart_pieces d1 (c_id c) k = cart_pieces d (c_id c) k + cart_pieces d (c_id g) k
    \<and> cart_pieces d2 (c_id c) k = cart_pieces d1 (c_id c) k
    \<and> cart_frame d d1 \<and> cart_frame d d2"
proof -
  obtain c new e where gc: "get_or_create_active_cart (\<lambda>d. d) (Member uid) d = Inr ((c, new), e)"
    using get_or_create_member [OF inv] by metis
  obtain d1 where d1: "merge_anonymous_cart uid key d = Inr (length (cart_items_of d (c_id g)), d1)" "cart_change d d1"
    "active_cart (Member uid) d1 = Some c" "active_cart (Guest key) d1 = None"
    "cart_pieces d1 (c_id c) k = cart_pieces d (c_id c) k + cart_pieces d (c_id g) k"
    using merge_effect [OF inv g gc] .
  obtain d2 where d2: "login_merge_cart uid key d = Inr (c, d2)" "cart_change d d2"
    "active_cart (Member uid) d2 = Some c" "active_cart (Guest key) d2 = None"
    "cart_pieces d2 (c_id c) k = cart_pieces d (c_id c) k + cart_pieces d (c_id g) k"
    using login_merge_effect [OF inv g(1) gc] .
  show ?thesis
    using d1 d2 by (auto simp: cart_change_def)
qed

theorem merges_agree_witness:
  "\<exists>c d1 d2. merge_anonymous_cart 7 ''s1'' two_carts = Inr (2, d1) \<and> login_merge_cart 7 ''s1'' two_carts = Inr (c, d2)
    \<and> c_id c = 60 \<and> cart_pieces d1 60 30 = 3 \<and> cart_pieces d2 60 30 = 3"
proof -
  have two: "map_option c_id (active_cart (Guest ''s1'') two_carts) = Some 62" "length (cart_items_of two_carts 62) = 2"
    "map_option c_id (active_cart (Member 7) two_carts) = Some 60" "cart_pieces two_carts 60 30 = 1" "cart_pieces two_carts 62 30 = 2"
    by code_simp+
  obtain g where g: "active_cart (Guest ''s1'') two_carts = Some g" "c_id g = 62"
    using two(1) by auto
  obtain m where m: "active_cart (Member 7) two_carts = Some m" "c_id m = 60"
    using two(3) by auto
  have inv: "cart_inv two_carts"
    by (rule cart_system.reachable_inv [OF two_carts_reachable])
  have "cart_items_of two_carts (c_id g) \<noteq> []"
    using two(2) g(2) by auto
  from merges_agree [OF inv g(1) this, of 7 30] obtain c d1 d2 where
    r: "merge_anonymous_cart 7 ''s1'' two_carts = Inr (2, d1)" "login_merge_cart 7 ''s1'' two_carts = Inr (c, d2)"
      "cart_pieces d1 (c_id c) 30 = cart_pieces two_carts (c_id c) 30 + 2" "cart_pieces d2 (c_id c) 30 = cart_pieces d1 (c_id c) 30"
    using g(2) two(2,5) by auto
  have "c = m"
    using r(2) m(1) g(1) by (auto simp: login_merge_cart_def get_or_create_active_cart_def split: sum.splits)
  then show ?thesis
    using r m(2) two(4) by auto
qed

text \<open>The two merges differ in the price a new line remembers: at login it has none, so that a later change of the price is not
  noticed.\<close>

lemma login_merge_forgets_price:
  "map ci_price_at_add (cart_items_of two_carts 62) = [Some 1000, Some 2000]
    \<and> map_sum (\<lambda>_. ()) (\<lambda>x. map (\<lambda>i. (ci_product i, ci_price_at_add i)) (cart_items_of (snd x) 60)) (merge_anonymous_cart 7 ''s1'' two_carts)
      = Inr [(30, Some 1000), (31, Some 2000)]
    \<and> map_sum (\<lambda>_. ()) (\<lambda>x. map (\<lambda>i. (ci_product i, ci_price_at_add i)) (cart_items_of (snd x) 60)) (login_merge_cart 7 ''s1'' two_carts)
      = Inr [(30, Some 1000), (31, None)]"
  by code_simp

text \<open>The limit of 999 pieces holds per call, not per line; adding many items compares only the increment with the stock.\<close>

lemma bulk_add_exceeds_stock:
  "map_sum (\<lambda>_. ()) (\<lambda>x. (map ci_quantity (br_added (fst x)), br_errors (fst x)))
     (bulk_add_items 60 [(Some 30, Some (JNum 5)), (Some 30, None), (None, None), (Some 30, Some (JNum 1000))] two_carts)
   = Inr ([6, 7], [(2, None, ProductIdMissing), (3, Some 30, QuantityTooBig)])
   \<and> map p_stock (products two_carts) = [5, 1]"
  by code_simp

end
