(* ===== verification/Payment_Recovery.thy ===== *)
theory Payment_Recovery
  imports Payment_Tasks Complex_Main
begin

text \<open>
  The recovery of failed payments: \<^verbatim>\<open>src/shopping/services/payment_recovery_service.py\<close>,
  \<^verbatim>\<open>tasks/payment_recovery_tasks.py\<close> and the replay handlers of
  \<^verbatim>\<open>handlers/replay_handlers.py\<close>.

  Two parts of this code lie outside the repository.  The table of failed requests (the dead letter
  queue) is Django's, but \<^verbatim>\<open>FailedExternalRequest.create_from_failure\<close>, which fills in a row, is not:
  it is the parameter \<open>create\<close>.  The circuit breaker of the package \<^verbatim>\<open>selfhealing\<close> is the parameter
  \<open>breaker\<close>: the answers it gives during one run.  Random numbers are the parameter \<open>draw\<close>.

  The tasks do not run in a transaction: what they wrote before an exception stays.  Of an error of the
  provider its code is modelled and its message is not.
\<close>

section \<open>State and parameters\<close>

datatype dlq_status = DlqPending | DlqReviewing | DlqResolved | DlqRejected | DlqExpired

datatype failure_type = NonRetryableError | MaxRetriesExceeded | SlaTimeout | UnknownFailure

record failure =
  fl_payment :: "pk option"
  fl_order :: "pk option"
  fl_user :: "pk option"
  fl_type :: failure_type
  fl_code :: string
  fl_retry_count :: nat
  fl_response :: dict

record dlq_row =
  dl_id :: pk
  dl_failure :: failure
  dl_status :: dlq_status
  dl_note :: string
  dl_expires_at :: timestamp
  dl_created_at :: timestamp

type_synonym rstate = "db \<times> dlq_row list"

type_synonym create_failure = "failure \<Rightarrow> dlq_row list \<Rightarrow> exn + dlq_row \<times> dlq_row list"

text \<open>A run of a task: its result or exception, and the state it leaves.\<close>

type_synonym 'a rtask = "rstate \<Rightarrow> (exn + 'a) \<times> rstate"

definition rt_return :: "'a \<Rightarrow> 'a rtask" where
  "rt_return a s = (Inr a, s)"

definition rt_raise :: "exn \<Rightarrow> 'a rtask" where
  "rt_raise e s = (Inl e, s)"

definition rt_bind :: "'a rtask \<Rightarrow> ('a \<Rightarrow> 'b rtask) \<Rightarrow> 'b rtask" where
  "rt_bind m f s = (case m s of (Inl e, t) \<Rightarrow> (Inl e, t) | (Inr a, t) \<Rightarrow> f a t)"

definition rt_publish :: "msg \<Rightarrow> unit rtask" where
  "rt_publish m = (\<lambda>(d, q). case publish m d of Inl e \<Rightarrow> (Inl e, (d, q)) | Inr d1 \<Rightarrow> (Inr (), (d1, q)))"

record recovery_config =
  rc_max_attempts :: nat
  rc_backoff_base :: int
  rc_backoff_max :: int
  rc_jitter :: bool
  rc_sla_seconds :: int
  rc_sla_abort :: bool
  rc_breaker :: bool
  rc_notify_dlq :: bool
  rc_notify_open :: bool

definition default_config :: recovery_config where
  "default_config = \<lparr>rc_max_attempts = 3, rc_backoff_base = 4, rc_backoff_max = 180, rc_jitter = True, rc_sla_seconds = 300,
     rc_sla_abort = True, rc_breaker = False, rc_notify_dlq = True, rc_notify_open = True\<rparr>"

record breaker =
  bk_state :: "exn + string option"
  bk_failure :: "exn + string"

section \<open>The service\<close>

text \<open>\<^verbatim>\<open>int(x)\<close> drops the fraction.\<close>

definition py_int :: "rat \<Rightarrow> int" where
  "py_int x = (if x < 0 then - \<lfloor>- x\<rfloor> else \<lfloor>x\<rfloor>)"

text \<open>\<open>r\<close> is the value of \<^verbatim>\<open>random.random()\<close>, between zero and one.\<close>

definition get_backoff_delay :: "recovery_config \<Rightarrow> rat \<Rightarrow> nat \<Rightarrow> int" where
  "get_backoff_delay cfg r attempt = (
     let delay = min (rc_backoff_base cfg ^ attempt) (rc_backoff_max cfg);
         jitter = of_int delay / 4 * (r * 2 - 1)
     in max 1 (if rc_jitter cfg then py_int (of_int delay + jitter) else delay))"

definition check_circuit_breaker :: "recovery_config \<Rightarrow> breaker \<Rightarrow> bool" where
  "check_circuit_breaker cfg bk = (
     if \<not> rc_breaker cfg then True
     else case bk_state bk of
       Inl e \<Rightarrow> True
     | Inr None \<Rightarrow> True
     | Inr (Some s) \<Rightarrow> s = ''closed'' \<or> s = ''half_open'')"

definition notify_circuit_open :: "db \<Rightarrow> db" where
  "notify_circuit_open d = try_publish (NotifyFailure None ''circuit_breaker_open'' ''critical'') d"

definition record_circuit_breaker_result :: "recovery_config \<Rightarrow> breaker \<Rightarrow> bool \<Rightarrow> db \<Rightarrow> db" where
  "record_circuit_breaker_result cfg bk success d = (
     if \<not> rc_breaker cfg \<or> success then d
     else case bk_state bk of
       Inl e \<Rightarrow> d
     | Inr previous \<Rightarrow> (case bk_failure bk of
         Inl e \<Rightarrow> d
       | Inr current \<Rightarrow>
           if (case previous of None \<Rightarrow> ''closed'' | Some s \<Rightarrow> s) \<noteq> ''open'' \<and> current = ''open'' \<and> rc_notify_open cfg
           then notify_circuit_open d else d))"

definition check_sla_timeout :: "recovery_config \<Rightarrow> timestamp \<Rightarrow> timestamp \<Rightarrow> bool" where
  "check_sla_timeout cfg created_at now \<longleftrightarrow> rc_sla_abort cfg \<and> now - created_at > rc_sla_seconds cfg"

definition schedule_retry :: "recovery_config \<Rightarrow> rat \<Rightarrow> pk \<Rightarrow> pk \<Rightarrow> nat \<Rightarrow> unit rtask" where
  "schedule_retry cfg r payment_id order_id attempt =
     rt_publish (RetryFailedPayment payment_id order_id attempt (get_backoff_delay cfg r attempt))"

text \<open>The rows a failure belongs to; the order of a payment always exists.\<close>

definition failure_owner :: "pk option \<Rightarrow> pk option \<Rightarrow> db \<Rightarrow> pk option \<times> pk option \<times> pk option" where
  "failure_owner payment_id order_id d = (
     let payment = (case payment_id of None \<Rightarrow> None | Some k \<Rightarrow> if k = 0 then None else get_payment d k);
         of_payment = (case payment of None \<Rightarrow> None | Some p \<Rightarrow> get_order d (pay_order p));
         of_id = (case order_id of None \<Rightarrow> None | Some k \<Rightarrow> if k = 0 then None else get_order d k);
         ord = (if of_payment = None then of_id else of_payment)
     in (map_option pay_id payment, map_option o_id ord, case ord of None \<Rightarrow> None | Some x \<Rightarrow> o_user x))"

definition notify_dlq_entry :: "dlq_row \<Rightarrow> unit rtask" where
  "notify_dlq_entry row = rt_publish (NotifyFailure (fl_order (dl_failure row)) ''dlq_entry'' ''warning'')"

definition move_to_dlq :: "recovery_config \<Rightarrow> create_failure \<Rightarrow> pk option \<Rightarrow> pk option \<Rightarrow> failure_type \<Rightarrow> string \<Rightarrow> nat \<Rightarrow> dict \<Rightarrow> pk rtask" where
  "move_to_dlq cfg create payment_id order_id ftype code retry_count response = (\<lambda>(d, q).
     let (payment, ord, usr) = failure_owner payment_id order_id d
     in case create \<lparr>fl_payment = payment, fl_order = ord, fl_user = usr, fl_type = ftype, fl_code = code,
              fl_retry_count = retry_count, fl_response = response\<rparr> q of
          Inl e \<Rightarrow> (Inl e, (d, q))
        | Inr (row, q1) \<Rightarrow>
            rt_bind (if rc_notify_dlq cfg then notify_dlq_entry row else rt_return ()) (\<lambda>_. rt_return (dl_id row)) (d, q1))"

datatype recovery_result =
    CircuitOpen
  | RecoveryPaymentNotFound
  | SlaAborted pk
  | RecoveryAlreadyPaid
  | RecoveryNoKey
  | RecoverySucceeded nat
  | MovedToDlq pk failure_type
  | RetryScheduled nat int
  | RecoveryError exn

definition handle_failure :: "recovery_config \<Rightarrow> create_failure \<Rightarrow> (nat \<Rightarrow> rat) \<Rightarrow> pk option \<Rightarrow> pk option \<Rightarrow> string \<Rightarrow> nat \<Rightarrow> dict
    \<Rightarrow> recovery_result rtask" where
  "handle_failure cfg create draw payment_id order_id code retry_count response = (
     let to_dlq = (\<lambda>ftype. rt_bind (move_to_dlq cfg create payment_id order_id ftype code retry_count response)
           (\<lambda>dlq_id. rt_return (MovedToDlq dlq_id ftype)))
     in if code \<in> set TOSS_NON_RETRYABLE_ERRORS then to_dlq NonRetryableError
        else if retry_count \<ge> rc_max_attempts cfg then to_dlq MaxRetriesExceeded
        else if payment_id \<noteq> None \<and> payment_id \<noteq> Some 0 \<and> order_id \<noteq> None \<and> order_id \<noteq> Some 0
        then rt_bind (schedule_retry cfg (draw 0) (the payment_id) (the order_id) (Suc retry_count))
               (\<lambda>_. rt_return (RetryScheduled (Suc retry_count) (get_backoff_delay cfg (draw 1) (Suc retry_count))))
        else to_dlq UnknownFailure)"

definition abort_for_sla :: "recovery_config \<Rightarrow> create_failure \<Rightarrow> pk \<Rightarrow> pk \<Rightarrow> timestamp \<Rightarrow> timestamp \<Rightarrow> recovery_result rtask" where
  "abort_for_sla cfg create payment_id order_id created_at now =
     rt_bind (move_to_dlq cfg create (Some payment_id) (Some order_id) SlaTimeout ''SLA_TIMEOUT'' 0 []) (\<lambda>dlq_id.
     rt_bind (rt_publish (RollbackPayment order_id (SlaExceeded (now - created_at)))) (\<lambda>_.
       rt_return (SlaAborted dlq_id)))"

section \<open>The retry task\<close>

definition rt_catch :: "recovery_result rtask \<Rightarrow> rstate \<Rightarrow> recovery_result \<times> rstate" where
  "rt_catch m s = (case m s of (Inl e, t) \<Rightarrow> (RecoveryError e, t) | (Inr r, t) \<Rightarrow> (r, t))"

text \<open>\<^verbatim>\<open>with transaction.atomic(): mark_as_paid, PaymentLog\<close>, then the finalize task.\<close>

definition retry_confirmed :: "payment \<Rightarrow> dict \<Rightarrow> nat \<Rightarrow> timestamp \<Rightarrow> recovery_result rtask" where
  "retry_confirmed p payment_data attempt now = (\<lambda>(d, q).
     case mark_as_paid p payment_data now d of
       Inl e \<Rightarrow> (Inl e, (d, q))
     | Inr (_, d1) \<Rightarrow>
         (let d2 = add_log (pay_id p) LApprove (MsgRetrySucceeded attempt) payment_data d1
          in rt_bind (rt_publish (FinalizeConfirm payment_data (pay_id p)
                 (case get_order d2 (pay_order p) of None \<Rightarrow> None | Some ord \<Rightarrow> o_user ord)))
               (\<lambda>_. rt_return (RecoverySucceeded attempt)) (d2, q)))"

fun action_name :: "recovery_result \<Rightarrow> json" where
  "action_name (MovedToDlq _ _) = JStr ''moved_to_dlq''"
| "action_name (RetryScheduled _ _) = JStr ''retry_scheduled''"
| "action_name _ = JNull"

definition retry_refused :: "recovery_config \<Rightarrow> create_failure \<Rightarrow> (nat \<Rightarrow> rat) \<Rightarrow> payment \<Rightarrow> pk \<Rightarrow> nat \<Rightarrow> string \<Rightarrow> recovery_result rtask" where
  "retry_refused cfg create draw p order_id attempt code =
     rt_bind (handle_failure cfg create draw (Some (pay_id p)) (Some order_id) code attempt
         [(''error_code'', JStr code)]) (\<lambda>result.
       (\<lambda>(d, q). (Inr result, (add_log (pay_id p) LError (MsgRetryFailed attempt code)
          [(''error_code'', JStr code), (''action'', action_name result)] d, q))))"

definition retry_failed_payment :: "recovery_config \<Rightarrow> breaker \<Rightarrow> http \<Rightarrow> create_failure \<Rightarrow> (nat \<Rightarrow> rat) \<Rightarrow> pk \<Rightarrow> pk \<Rightarrow> nat \<Rightarrow> timestamp
    \<Rightarrow> rstate \<Rightarrow> recovery_result \<times> rstate" where
  "retry_failed_payment cfg bk http create draw payment_id order_id attempt now = rt_catch (\<lambda>(d, q).
     if \<not> check_circuit_breaker cfg bk then (Inr CircuitOpen, (d, q))
     else case get_payment d payment_id of
       None \<Rightarrow> (Inr RecoveryPaymentNotFound, (d, q))
     | Some p \<Rightarrow>
         if check_sla_timeout cfg (pay_created_at p) now
         then abort_for_sla cfg create payment_id order_id (pay_created_at p) now (d, q)
         else if pay_is_paid p then (Inr RecoveryAlreadyPaid, (d, q))
         else if pay_key p = None \<or> pay_key p = Some []
         then rt_bind (move_to_dlq cfg create (Some payment_id) (Some order_id) NonRetryableError ''NO_PAYMENT_KEY'' attempt [])
                (\<lambda>_. rt_return RecoveryNoKey) (d, q)
         else (case toss_confirm_payment http (the (pay_key p)) (pay_toss_order_id p) (pay_amount p) of
                 Inr payment_data \<Rightarrow> retry_confirmed p payment_data attempt now (record_circuit_breaker_result cfg bk True d, q)
               | Inl err \<Rightarrow> retry_refused cfg create draw p order_id attempt (te_code err)
                   (record_circuit_breaker_result cfg bk False d, q)))"

section \<open>The periodic tasks\<close>

record sla_result =
  sl_detected :: nat
  sl_aborted :: nat
  sl_errors :: "(pk \<times> exn) list"

definition stale_payments :: "int \<Rightarrow> timestamp \<Rightarrow> db \<Rightarrow> payment list" where
  "stale_payments threshold_minutes now d = sort_key (\<lambda>p. - pay_created_at p)
     (filter (\<lambda>p. pay_status p = InProgress \<and> pay_created_at p < now - threshold_minutes * 60) (payments d))"

definition abort_stale :: "recovery_config \<Rightarrow> create_failure \<Rightarrow> timestamp \<Rightarrow> payment \<Rightarrow> sla_result \<times> rstate \<Rightarrow> sla_result \<times> rstate" where
  "abort_stale cfg create now p = (\<lambda>(res, s).
     let res1 = res\<lparr>sl_detected := Suc (sl_detected res)\<rparr>
     in case abort_for_sla cfg create (pay_id p) (pay_order p) (pay_created_at p) now s of
          (Inr _, t) \<Rightarrow> (res1\<lparr>sl_aborted := Suc (sl_aborted res1)\<rparr>, t)
        | (Inl e, t) \<Rightarrow> (res1\<lparr>sl_errors := sl_errors res1 @ [(pay_id p, e)]\<rparr>, t))"

definition check_sla_violations :: "recovery_config \<Rightarrow> create_failure \<Rightarrow> int option \<Rightarrow> timestamp \<Rightarrow> rstate \<Rightarrow> sla_result \<times> rstate" where
  "check_sla_violations cfg create threshold_minutes now s = (
     let minutes = (case threshold_minutes of None \<Rightarrow> rc_sla_seconds cfg div 60 | Some m \<Rightarrow> m)
     in fold (abort_stale cfg create now) (stale_payments minutes now (fst s))
          (\<lparr>sl_detected = 0, sl_aborted = 0, sl_errors = []\<rparr>, s))"

definition cleanup_expired_dlq :: "timestamp \<Rightarrow> dlq_row list \<Rightarrow> nat \<times> dlq_row list" where
  "cleanup_expired_dlq now q = (
     let expired = (\<lambda>r. dl_expires_at r < now \<and> dl_status r \<in> {DlqResolved, DlqRejected, DlqExpired})
     in (length (filter expired q), filter (\<lambda>r. \<not> expired r) q))"

record batch_result =
  bt_processed :: nat
  bt_retried :: nat
  bt_rejected :: nat
  bt_errors :: "(pk \<times> exn) list"

definition set_dlq :: "pk \<Rightarrow> (dlq_row \<Rightarrow> dlq_row) \<Rightarrow> dlq_row list \<Rightarrow> dlq_row list" where
  "set_dlq k f q = rupd dl_id q k f"

text \<open>One record; \<open>draw k\<close> is the random number for the retry of record \<open>k\<close>.\<close>

definition process_record :: "recovery_config \<Rightarrow> (pk \<Rightarrow> rat) \<Rightarrow> dlq_row \<Rightarrow> batch_result \<times> rstate \<Rightarrow> batch_result \<times> rstate" where
  "process_record cfg draw row = (\<lambda>(res, (d, q)).
     let fl = dl_failure row;
         reviewing = set_dlq (dl_id row) (\<lambda>x. x\<lparr>dl_status := DlqReviewing\<rparr>) q;
         done_res = res\<lparr>bt_processed := Suc (bt_processed res)\<rparr>
     in if fl_type fl = MaxRetriesExceeded
        then if fl_payment fl \<noteq> None \<and> fl_payment fl \<noteq> Some 0 \<and> fl_order fl \<noteq> None \<and> fl_order fl \<noteq> Some 0
             then (case schedule_retry cfg (draw (dl_id row)) (the (fl_payment fl)) (the (fl_order fl)) (Suc (fl_retry_count fl)) (d, reviewing) of
                     (Inr _, t) \<Rightarrow> (done_res\<lparr>bt_retried := Suc (bt_retried res)\<rparr>, t)
                   | (Inl e, (d1, q1)) \<Rightarrow> (res\<lparr>bt_errors := bt_errors res @ [(dl_id row, e)]\<rparr>,
                       (d1, set_dlq (dl_id row) (\<lambda>x. x\<lparr>dl_status := DlqPending\<rparr>) q1)))
             else (done_res\<lparr>bt_rejected := Suc (bt_rejected res)\<rparr>,
                   (d, set_dlq (dl_id row) (\<lambda>x. x\<lparr>dl_status := DlqRejected, dl_note := ''Missing payment_id or order_id''\<rparr>) reviewing))
        else (done_res\<lparr>bt_rejected := Suc (bt_rejected res)\<rparr>,
              (d, set_dlq (dl_id row) (\<lambda>x. x\<lparr>dl_status := DlqPending\<rparr>) reviewing)))"

definition pending_batch :: "nat \<Rightarrow> failure_type list \<Rightarrow> dlq_row list \<Rightarrow> dlq_row list" where
  "pending_batch batch_size failure_types q = take batch_size (sort_key dl_created_at
     (filter (\<lambda>r. dl_status r = DlqPending \<and> (failure_types = [] \<or> fl_type (dl_failure r) \<in> set failure_types)) q))"

definition process_dlq_batch :: "recovery_config \<Rightarrow> breaker \<Rightarrow> (pk \<Rightarrow> rat) \<Rightarrow> nat \<Rightarrow> failure_type list \<Rightarrow> rstate \<Rightarrow> batch_result option \<times> rstate" where
  "process_dlq_batch cfg bk draw batch_size failure_types s = (
     if \<not> check_circuit_breaker cfg bk then (None, s)
     else let (res, t) = fold (process_record cfg draw) (pending_batch batch_size failure_types (snd s))
                (\<lparr>bt_processed = 0, bt_retried = 0, bt_rejected = 0, bt_errors = []\<rparr>, s)
          in (Some res, t))"

section \<open>Replaying failed operations\<close>

text \<open>The data of a failed operation the handlers read; an absent attribute is \<open>None\<close>.\<close>

record failed_op =
  fo_failure_type :: string
  fo_snapshot :: dict
  fo_payment :: "pk option"
  fo_order :: "pk option"
  fo_user :: "pk option"
  fo_request :: dict

datatype replay_reason =
    PaymentCompleted | OrderIsCancelled | NotReplayable string | MissingIds | ReplayUserMissing | InvalidPointAmount
  | NoRequestData | MissingFields | ReplayRaised exn

datatype replay_result = ReplaySucceeded | ReplayFailed replay_reason

fun truthy :: "json \<Rightarrow> bool" where
  "truthy JNull = False"
| "truthy (JBool b) = b"
| "truthy (JNum n) = (n \<noteq> 0)"
| "truthy (JStr s) = (s \<noteq> [])"
| "truthy (JList l) = (l \<noteq> [])"
| "truthy (JObj kv) = (kv \<noteq> [])"

definition dget_true :: "dict \<Rightarrow> string \<Rightarrow> bool" where
  "dget_true d k = (case dget d k of None \<Rightarrow> False | Some v \<Rightarrow> truthy v)"

text \<open>\<^verbatim>\<open>getattr(op, name, None) or snapshot.get(name)\<close>; ids in snapshots are numbers.\<close>

definition id_or_snapshot :: "pk option \<Rightarrow> dict \<Rightarrow> string \<Rightarrow> pk option" where
  "id_or_snapshot attr snapshot name = (
     let found = (if attr = None \<or> attr = Some 0 then map_option nat (dget_int snapshot name) else attr)
     in if found = Some 0 then None else found)"

definition NON_REPLAYABLE_TYPES :: "string list" where
  "NON_REPLAYABLE_TYPES = [''AMOUNT_MISMATCH_PG_RESPONSE'', ''SECURITY_SIGNATURE_INVALID'', ''DUPLICATE_PAYMENT'']"

definition payment_can_replay :: "failed_op \<Rightarrow> replay_reason option" where
  "payment_can_replay fo = (
     if dget_true (fo_snapshot fo) ''payment_is_paid'' then Some PaymentCompleted
     else if dget_str (fo_snapshot fo) ''order_status'' = Some ''cancelled'' then Some OrderIsCancelled
     else if fo_failure_type fo \<in> set NON_REPLAYABLE_TYPES then Some (NotReplayable (fo_failure_type fo))
     else None)"

definition payment_replay :: "recovery_config \<Rightarrow> rat \<Rightarrow> failed_op \<Rightarrow> rstate \<Rightarrow> replay_result \<times> rstate" where
  "payment_replay cfg r fo s = (case payment_can_replay fo of
     Some reason \<Rightarrow> (ReplayFailed reason, s)
   | None \<Rightarrow> (case (id_or_snapshot (fo_payment fo) (fo_snapshot fo) ''payment_id'',
                    id_or_snapshot (fo_order fo) (fo_snapshot fo) ''order_id'') of
       (Some pid, Some oid) \<Rightarrow> (case schedule_retry cfg r pid oid 0 s of
           (Inr _, t) \<Rightarrow> (ReplaySucceeded, t)
         | (Inl e, t) \<Rightarrow> (ReplayFailed (ReplayRaised e), t))
     | _ \<Rightarrow> (ReplayFailed MissingIds, s)))"

text \<open>
  \<^verbatim>\<open>PointReplayHandler\<close> without a callback imports \<^verbatim>\<open>add_point\<close> of the point service, which has no
  such function.  The amount of a snapshot is a number.
\<close>

definition point_replay :: "failed_op \<Rightarrow> replay_result" where
  "point_replay fo = (
     if (fo_user fo = None \<or> fo_user fo = Some 0) \<and> \<not> dget_true (fo_snapshot fo) ''user_id'' then ReplayFailed ReplayUserMissing
     else if (case dget_int (fo_snapshot fo) ''amount'' of None \<Rightarrow> True | Some n \<Rightarrow> n \<le> 0) then ReplayFailed InvalidPointAmount
     else ReplayFailed (ReplayRaised ImportError))"

text \<open>The stored request holds the key as a text, the order's id and the amount as numbers.\<close>

definition webhook_replay :: "failed_op \<Rightarrow> db \<Rightarrow> replay_result \<times> db" where
  "webhook_replay fo d = (
     let req = fo_request fo
     in if req = [] then (ReplayFailed NoRequestData, d)
        else if \<not> (dget_true req ''payment_key'' \<and> dget_true req ''order_id'' \<and> dget_true req ''amount'')
        then (ReplayFailed MissingFields, d)
        else case (dget_str req ''payment_key'', dget_int req ''order_id'', dget_int req ''amount'') of
          (Some key, Some oid, Some amount) \<Rightarrow> (case publish (ConfirmCall key (nat oid) amount) d of
              Inr d1 \<Rightarrow> (ReplaySucceeded, d1)
            | Inl e \<Rightarrow> (ReplayFailed (ReplayRaised e), d))
        | _ \<Rightarrow> (ReplayFailed MissingFields, d))"

end
