(* ===== verification/Recovery_Properties.thy ===== *)
theory Recovery_Properties
  imports Payment_Recovery Payment_Properties
begin

text \<open>
  The properties of the payment recovery: the retries of a payment end, delays are bounded, and what
  the dead letter queue and the service level checks do and do not guarantee.
\<close>

section \<open>Retries end\<close>

lemmas rt_defs = rt_return_def rt_raise_def rt_bind_def rt_publish_def rt_catch_def

lemma move_to_dlq_result:
  "move_to_dlq cfg create p k ft code n resp s = (Inr i, t) \<Longrightarrow> \<exists>fl row. create fl (snd s) = Inr (row, snd t) \<and> dl_id row = i
     \<and> fl_type fl = ft \<and> fl_code fl = code \<and> fl_retry_count fl = n"
  by (cases s) (fastforce simp: move_to_dlq_def notify_dlq_entry_def rt_defs split: prod.splits sum.splits if_splits)








text \<open>
  The worker runs the retries of one payment: each run may meet another answer of the provider and of the
  breaker, other random numbers, another time, and a state others have changed meanwhile.
\<close>

record retry_env =
  re_breaker :: breaker
  re_http :: http
  re_draw :: "nat \<Rightarrow> rat"
  re_now :: timestamp
  re_others :: "rstate \<Rightarrow> rstate"

definition retry_in :: "recovery_config \<Rightarrow> create_failure \<Rightarrow> (nat \<Rightarrow> retry_env) \<Rightarrow> pk \<Rightarrow> pk \<Rightarrow> nat \<Rightarrow> rstate \<Rightarrow> recovery_result \<times> rstate" where
  "retry_in cfg create env pid oid n s = retry_failed_payment cfg (re_breaker (env n)) (re_http (env n)) create (re_draw (env n))
     pid oid n (re_now (env n)) (re_others (env n) s)"




lemma record_breaker_frame [simp]:
  "payments (record_circuit_breaker_result cfg bk ok d) = payments d" "broker_up (record_circuit_breaker_result cfg bk ok d) = broker_up d"
  by (simp_all add: record_circuit_breaker_result_def notify_circuit_open_def split: sum.splits option.splits)






definition down_env :: "nat \<Rightarrow> retry_env" where
  "down_env k = \<lparr>re_breaker = \<lparr>bk_state = Inr None, bk_failure = Inr ''closed''\<rparr>, re_http = (\<lambda>_. RequestException), re_draw = (\<lambda>_. 1 / 2),
     re_now = 30, re_others = (\<lambda>s. s)\<rparr>"

text \<open>A table that takes every failure.\<close>

definition plain_create :: create_failure where
  "plain_create fl q = (let row = \<lparr>dl_id = Suc (length q), dl_failure = fl, dl_status = DlqPending, dl_note = [], dl_expires_at = 0,
     dl_created_at = 0\<rparr> in Inr (row, q @ [row]))"


section \<open>Delays\<close>

lemma py_int_floor: "0 \<le> x \<Longrightarrow> py_int x = \<lfloor>x\<rfloor>"
  by (simp add: py_int_def)

lemma jitter_bounds:
  fixes r :: rat and c :: int
  assumes "0 \<le> r" "r < 1" "1 \<le> c"
  defines "x \<equiv> of_int c + of_int c / 4 * (r * 2 - 1)"
  shows "3 * of_int c \<le> 4 * x" "4 * x < 5 * of_int c"
proof -
  have x: "4 * x = 3 * of_int c + 2 * (of_int c * r)"
    by (simp add: x_def field_simps)
  have "0 < (of_int c :: rat)"
    using assms(3) by simp
  then have "0 \<le> of_int c * r" "of_int c * r < of_int c * 1"
    using assms(1,2) by (simp_all only: mult_less_cancel_left_pos zero_le_mult_iff) auto
  then show "3 * of_int c \<le> 4 * x" "4 * x < 5 * of_int c"
    unfolding x by simp_all
qed

lemma backoff_near_capped:
  fixes cfg n
  assumes "0 \<le> r" "r < 1" "1 \<le> rc_backoff_base cfg" "1 \<le> rc_backoff_max cfg"
  defines "c \<equiv> min (rc_backoff_base cfg ^ n) (rc_backoff_max cfg)"
  shows "1 \<le> get_backoff_delay cfg r n \<and> 3 * c < 4 * (get_backoff_delay cfg r n + 1) \<and> 4 * get_backoff_delay cfg r n < 5 * c"
proof -
  have c: "1 \<le> c"
    using assms(3,4) by (simp add: c_def one_le_power)
  define x :: rat where "x = of_int c + of_int c / 4 * (r * 2 - 1)"
  note x = jitter_bounds [OF assms(1,2) c, folded x_def]
  have "0 \<le> 3 * (of_int c :: rat)"
    using c by simp
  with x(1) have "0 \<le> x"
    by linarith
  then have int: "py_int x = \<lfloor>x\<rfloor>"
    by (rule py_int_floor)
  have "a < 4 * (f + 1)" if "a \<le> 4 * x" "x < f + 1" for a f
    using that(1) mult_strict_left_mono [OF that(2), of 4] by (rule le_less_trans) simp
  with x(1) floor_correct [THEN conjunct2, of x] have "of_int (3 * c) < (of_int (4 * (\<lfloor>x\<rfloor> + 1)) :: rat)"
    unfolding of_int_mult of_int_add of_int_numeral of_int_1 by blast
  moreover have "(of_int (4 * \<lfloor>x\<rfloor>) :: rat) < of_int (5 * c)"
    using x(2) of_int_floor_le [of x] unfolding of_int_mult of_int_numeral by linarith
  ultimately have near: "3 * c < 4 * (\<lfloor>x\<rfloor> + 1)" "4 * \<lfloor>x\<rfloor> < 5 * c"
    unfolding of_int_less_iff .
  have delay: "get_backoff_delay cfg r n = max 1 (if rc_jitter cfg then \<lfloor>x\<rfloor> else c)"
    unfolding get_backoff_delay_def Let_def c_def [symmetric] x_def [symmetric] int ..
  have "1 \<le> max 1 m \<and> 3 * c < 4 * (max 1 m + 1) \<and> 4 * max 1 m < 5 * c" if "3 * c < 4 * (m + 1)" "4 * m < 5 * c" for m
    using that c by (auto simp: max_def)
  then show ?thesis
    unfolding delay using c near by (cases "rc_jitter cfg") simp_all
qed

text \<open>The delay before a retry stays within a quarter of the capped exponential value and is at least a second.  With the
  settings of the shop and whatever the random numbers, the three delays together take between 63 and 102 seconds, so that
  they leave most of the five minutes of the service level.\<close>

theorem backoff_bounded:
  assumes draws: "\<And>i. 0 \<le> draw i \<and> draw i < 1" and cfg: "1 \<le> rc_backoff_base cfg" "1 \<le> rc_backoff_max cfg"
  shows "let capped = min (rc_backoff_base cfg ^ n) (rc_backoff_max cfg); delay = get_backoff_delay cfg (draw n) n
     in 1 \<le> delay \<and> 3 * capped < 4 * (delay + 1) \<and> 4 * delay < 5 * capped
        \<and> sum_list (map (\<lambda>i. get_backoff_delay default_config (draw i) i) [1, 2, 3]) \<in> {63..102}
        \<and> 102 < rc_sla_seconds default_config"
proof -
  have def: "get_backoff_delay default_config (draw i) i \<in> {lo..hi}"
    if "4 * lo \<le> 3 * min (4 ^ i) 180" "5 * min (4 ^ i) 180 \<le> 4 * (hi + 1)" for i and lo hi :: int
    using backoff_near_capped [of "draw i" default_config i] draws [of i] that by (simp add: default_config_def)
  have "get_backoff_delay default_config (draw 1) 1 \<in> {3..4}" "get_backoff_delay default_config (draw 2) 2 \<in> {12..19}"
    "get_backoff_delay default_config (draw 3) 3 \<in> {48..79}"
    by (rule def; simp)+
  then show ?thesis
    using backoff_near_capped [of "draw n" cfg n] draws [of n] cfg by (simp add: Let_def default_config_def)
qed

theorem backoff_bounded_witness:
  "1 \<le> get_backoff_delay default_config (1 / 2) 2 \<and> 48 < 4 * (get_backoff_delay default_config (1 / 2) 2 + 1)
     \<and> 4 * get_backoff_delay default_config (1 / 2) 2 < 80"
  using backoff_bounded [of "\<lambda>_. 1 / 2" default_config 2] by (simp add: Let_def default_config_def)

section \<open>What the recovery does not guarantee\<close>

text \<open>A retry the provider accepts marks the payment as paid before it starts the finalizing task, which then finds a paid
  payment and stops: the order is not marked as paid and no points are earned.\<close>

definition accept_env :: "nat \<Rightarrow> retry_env" where
  "accept_env k = (down_env k)\<lparr>re_http := demo_http\<rparr>"

definition retried :: "recovery_result \<times> rstate" where
  "retried = retry_in default_config plain_create accept_env 8 5 1 (order_db Confirmed Aborted, [])"

lemma retry_leaves_order_unpaid:
  "fst retried = RecoverySucceeded 1 \<and> map pay_status (payments (fst (snd retried))) = [Done]
     \<and> (case finalize_payment_confirm 0 demo_reply 8 (Some 7) 100 (fst (snd retried)) of
          (r, d) \<Rightarrow> r = Returned FinalizedBefore \<and> map o_status (orders d) = [Confirmed])"
  by code_simp

text \<open>An order whose payment failed was rolled back; a retry of its payment is charged nevertheless.\<close>

lemma retry_charges_rolled_back_order:
  "map_prod id (\<lambda>(d, _). (map o_status (orders d), map pay_status (payments d)))
     (retry_in default_config plain_create accept_env 8 5 1 (order_db PaymentFailed Aborted, []))
   = (RecoverySucceeded 1, [PaymentFailed], [Done])"
  by code_simp

text \<open>When the row of the queue cannot be written, an aborted payment is not rolled back.\<close>

lemma sla_abort_without_table:
  "map_prod id (\<lambda>(d, _). outbox d)
     (abort_for_sla default_config (\<lambda>_ _. Inl ImportError) 8 5 0 400 (order_db Confirmed InProgress, [])) = (Inl ImportError, [])"
  by code_simp

text \<open>Records of another kind go back to pending and keep their place, so that they keep the batch from a record it could retry.\<close>

definition pending_row :: "pk \<Rightarrow> failure_type \<Rightarrow> dlq_row" where
  "pending_row k ft = \<lparr>dl_id = k, dl_failure = \<lparr>fl_payment = Some 8, fl_order = Some 5, fl_user = Some 7, fl_type = ft, fl_code = ''x'',
     fl_retry_count = 3, fl_response = []\<rparr>, dl_status = DlqPending, dl_note = [], dl_expires_at = 0, dl_created_at = int k\<rparr>"

lemma dlq_batch_starves:
  "snd (process_dlq_batch default_config \<lparr>bk_state = Inr None, bk_failure = Inr ''closed''\<rparr> (\<lambda>_. 0) 1 []
       (order_db Confirmed Aborted, [pending_row 1 SlaTimeout, pending_row 2 MaxRetriesExceeded]))
   = (order_db Confirmed Aborted, [pending_row 1 SlaTimeout, pending_row 2 MaxRetriesExceeded])"
  by code_simp

text \<open>The orders' status is \<^verbatim>\<open>canceled\<close>; the handler compares with another spelling and replays the payment of a cancelled order.
  Points are never replayed.\<close>

lemma canceled_order_replayed:
  "payment_can_replay \<lparr>fo_failure_type = ''NETWORK_ERROR'', fo_snapshot = [(''order_status'', JStr ''canceled'')], fo_payment = Some 8,
     fo_order = Some 5, fo_user = Some 7, fo_request = []\<rparr> = None"
  by code_simp

lemma points_never_replayed: "point_replay fo \<noteq> ReplaySucceeded"
  by (simp add: point_replay_def split: option.split)

end
