(* ===== verification/Account_Texts.thy ===== *)
theory Account_Texts
  imports Shop_Prelude
begin

text \<open>
  What the account services use of Python's texts: case conversion, \<^verbatim>\<open>split\<close>, \<^verbatim>\<open>strip\<close>, \<^verbatim>\<open>replace\<close>, and the class
  \<^verbatim>\<open>uuid.UUID\<close>, whose values are numbers below \<open>2 ^ 128\<close>.  Texts are ASCII.
\<close>

section \<open>Texts\<close>

definition lower_char :: "char \<Rightarrow> char" where
  "lower_char c = (if of_char c \<in> {65..90 :: nat} then char_of (of_char c + 32 :: nat) else c)"

definition upper_char :: "char \<Rightarrow> char" where
  "upper_char c = (if of_char c \<in> {97..122 :: nat} then char_of (of_char c - 32 :: nat) else c)"

definition lower :: "string \<Rightarrow> string" where
  "lower s = map lower_char s"

definition upper :: "string \<Rightarrow> string" where
  "upper s = map upper_char s"

text \<open>\<^verbatim>\<open>s.split(c)[0]\<close> and \<^verbatim>\<open>s.strip()\<close>.\<close>

definition before :: "char \<Rightarrow> string \<Rightarrow> string" where
  "before c s = takeWhile (\<lambda>x. x \<noteq> c) s"

definition is_space :: "char \<Rightarrow> bool" where
  "is_space c \<longleftrightarrow> of_char c \<in> {9..13 :: nat} \<union> {28..32}"

definition strip_by :: "(char \<Rightarrow> bool) \<Rightarrow> string \<Rightarrow> string" where
  "strip_by p s = rev (dropWhile p (rev (dropWhile p s)))"

text \<open>\<^verbatim>\<open>s.replace(old, "")\<close> for a text \<open>old\<close> that is not empty.\<close>

fun remove_text :: "string \<Rightarrow> string \<Rightarrow> string" where
  "remove_text old [] = []"
| "remove_text old (c # cs) = (
     if old \<noteq> [] \<and> take (length old) (c # cs) = old then remove_text old (drop (length old - 1) cs)
     else c # remove_text old cs)"

definition hex_val :: "char \<Rightarrow> nat option" where
  "hex_val c = (let n = of_char c :: nat in
     if n \<in> {48..57} then Some (n - 48) else if n \<in> {65..70} then Some (n - 55)
     else if n \<in> {97..102} then Some (n - 87) else None)"

text \<open>\<^verbatim>\<open>int(s, 16)\<close>: blanks around, a sign, a prefix and single underscores between digits are allowed.\<close>

fun hex_digits :: "nat \<Rightarrow> bool \<Rightarrow> string \<Rightarrow> nat option" where
  "hex_digits acc digit_before [] = (if digit_before then Some acc else None)"
| "hex_digits acc digit_before (c # cs) = (
     if c = CHR ''_'' then (if digit_before then hex_digits acc False cs else None)
     else case hex_val c of None \<Rightarrow> None | Some v \<Rightarrow> hex_digits (16 * acc + v) True cs)"

definition unsigned_hex :: "string \<Rightarrow> nat option" where
  "unsigned_hex s = (if take 2 s = ''0x'' \<or> take 2 s = ''0X''
     then (if drop 2 s = [] then None else hex_digits 0 True (drop 2 s)) else hex_digits 0 False s)"

definition int_hex :: "string \<Rightarrow> int option" where
  "int_hex s = (let t = strip_by is_space s in
     if take 1 t = ''-'' then map_option (\<lambda>n. - int n) (unsigned_hex (drop 1 t))
     else map_option int (unsigned_hex (if take 1 t = ''+'' then drop 1 t else t)))"

text \<open>\<^verbatim>\<open>uuid.UUID(s)\<close> and \<^verbatim>\<open>str(uuid)\<close>; a uuid is its number.\<close>

definition uuid_of :: "string \<Rightarrow> nat option" where
  "uuid_of s = (let h = remove_text ''-'' (strip_by (\<lambda>c. c \<in> set ''{}'') (remove_text ''uuid:'' (remove_text ''urn:'' s))) in
     if length h \<noteq> 32 then None
     else case int_hex h of None \<Rightarrow> None | Some i \<Rightarrow> if 0 \<le> i \<and> i < 2 ^ 128 then Some (nat i) else None)"

definition hex_char :: "nat \<Rightarrow> char" where
  "hex_char n = char_of (if n < 10 then n + 48 else n + 87)"

fun hex_text :: "nat \<Rightarrow> nat \<Rightarrow> string" where
  "hex_text 0 n = []"
| "hex_text (Suc k) n = hex_text k (n div 16) @ [hex_char (n mod 16)]"

definition uuid_str :: "nat \<Rightarrow> string" where
  "uuid_str n = (let h = hex_text 32 n in
     take 8 h @ ''-'' @ take 4 (drop 8 h) @ ''-'' @ take 4 (drop 12 h) @ ''-'' @ take 4 (drop 16 h) @ ''-'' @ drop 20 h)"

section \<open>Reading a uuid back\<close>

lemma remove_text_absent: "old \<noteq> [] \<Longrightarrow> hd old \<notin> set s \<Longrightarrow> remove_text old s = s"
proof (induction s)
  case (Cons c cs)
  then have "take (length old) (c # cs) \<noteq> old"
    by (cases old) auto
  then show ?case
    using Cons by simp
qed simp

lemma remove_char: "remove_text [x] s = filter (\<lambda>c. c \<noteq> x) s"
  by (induction s) auto

lemma strip_by_absent: "(\<And>c. c \<in> set s \<Longrightarrow> \<not> p c) \<Longrightarrow> strip_by p s = s"
proof -
  assume absent: "\<And>c. c \<in> set s \<Longrightarrow> \<not> p c"
  have keep: "dropWhile p t = t" if "set t \<subseteq> set s" for t
    using that absent by (cases t) auto
  have "dropWhile p s = s" "dropWhile p (rev s) = rev s"
    by (rule keep, simp)+
  then show ?thesis
    by (simp add: strip_by_def)
qed

definition is_hex :: "string \<Rightarrow> bool" where
  "is_hex s \<longleftrightarrow> (\<forall>c \<in> set s. hex_val c \<noteq> None)"

lemma is_hex_append [simp]: "is_hex (xs @ ys) \<longleftrightarrow> is_hex xs \<and> is_hex ys"
  by (auto simp: is_hex_def)

lemma is_hex_notin: "is_hex s \<Longrightarrow> hex_val c = None \<Longrightarrow> c \<notin> set s"
  by (auto simp: is_hex_def)

lemma hex_val_char: "n < 16 \<Longrightarrow> hex_val (hex_char n) = Some n"
  by (simp add: hex_val_def hex_char_def Let_def)

lemma not_hex:
  "hex_val CHR ''-'' = None" "hex_val CHR ''+'' = None" "hex_val CHR ''x'' = None" "hex_val CHR ''X'' = None" "hex_val CHR ''_'' = None"
  "hex_val CHR ''u'' = None" "hex_val CHR ''{'' = None" "hex_val CHR ''}'' = None"
  by code_simp+

lemma not_hex_space: "is_space c \<Longrightarrow> hex_val c = None"
  by (auto simp: is_space_def hex_val_def Let_def)

lemma hex_text_hex: "is_hex (hex_text k n)"
  by (induction k arbitrary: n) (simp_all add: is_hex_def hex_val_char)

lemma length_hex_text [simp]: "length (hex_text k n) = k"
  by (induction k arbitrary: n) simp_all

lemma hex_digits_snoc:
  "is_hex xs \<Longrightarrow> hex_val c = Some v \<Longrightarrow> c \<noteq> CHR ''_'' \<Longrightarrow> xs \<noteq> [] \<or> d \<Longrightarrow>
     hex_digits acc d (xs @ [c]) = map_option (\<lambda>m. 16 * m + v) (hex_digits acc d xs)"
proof (induction xs arbitrary: acc d)
  case (Cons x xs)
  then obtain w where w: "hex_val x = Some w"
    by (auto simp: is_hex_def)
  then have "x \<noteq> CHR ''_''"
    using not_hex(5) by auto
  with w show ?case
    using Cons by (simp add: is_hex_def)
qed simp

lemma hex_digits_text: "hex_digits 0 False (hex_text (Suc k) n) = Some (n mod 16 ^ Suc k)"
proof (induction k arbitrary: n)
  case 0
  have "hex_char (n mod 16) \<noteq> CHR ''_''"
    using hex_val_char [of "n mod 16"] not_hex(5) by auto
  then show ?case
    by (simp add: hex_val_char)
next
  case (Suc k)
  have c: "hex_val (hex_char (n mod 16)) = Some (n mod 16)" "hex_char (n mod 16) \<noteq> CHR ''_''"
    using hex_val_char [of "n mod 16"] not_hex(5) by auto
  have "hex_digits 0 False (hex_text (Suc k) (n div 16) @ [hex_char (n mod 16)]) = Some (16 * (n div 16 mod 16 ^ Suc k) + n mod 16)"
    using hex_digits_snoc [OF hex_text_hex c, of "Suc k" "n div 16" False 0] Suc by simp
  also have "16 * (n div 16 mod 16 ^ Suc k) + n mod 16 = n mod 16 ^ Suc (Suc k)"
    using mod_mult2_eq [of n 16 "16 ^ Suc k"] by (simp only: power_Suc)
  finally show ?case
    by (simp only: hex_text.simps(2) [of "Suc k"])
qed

lemma uuid_of_str [simp]: "n < 2 ^ 128 \<Longrightarrow> uuid_of (uuid_str n) = Some n"
proof -
  assume n: "n < 2 ^ 128"
  let ?h = "hex_text 32 n"
  have h: "is_hex ?h"
    by (rule hex_text_hex)
  have "set (take i ?h) \<subseteq> set ?h" "set (drop i ?h) \<subseteq> set ?h" "set (take i (drop j ?h)) \<subseteq> set ?h" for i j
    by (rule set_take_subset set_drop_subset subset_trans [OF set_take_subset set_drop_subset])+
  then have ins: "set (take i ?h) \<subseteq> insert CHR ''-'' (set ?h)" "set (drop i ?h) \<subseteq> insert CHR ''-'' (set ?h)"
    "set (take i (drop j ?h)) \<subseteq> insert CHR ''-'' (set ?h)" for i j
    by (simp_all add: subset_insertI2)
  have chars: "set (uuid_str n) \<subseteq> insert CHR ''-'' (set ?h)"
    unfolding uuid_str_def Let_def set_append by (intro Un_least ins) simp_all
  have notin: "c \<notin> set (uuid_str n)" if "hex_val c = None" "c \<noteq> CHR ''-''" for c
    using chars is_hex_notin [OF h that(1)] that(2) by blast
  have parts: "filter (\<lambda>c. c \<noteq> CHR ''-'') (uuid_str n) = ?h"
  proof -
    have keep: "filter (\<lambda>c. c \<noteq> CHR ''-'') xs = xs" if "set xs \<subseteq> set ?h" for xs
      using that is_hex_notin [OF h not_hex(1)] by (intro filter_True) auto
    have "take 8 ?h @ take 4 (drop 8 ?h) @ take 4 (drop 12 ?h) @ take 4 (drop 16 ?h) @ drop 20 ?h = ?h"
    proof -
      have "drop 16 ?h = take 4 (drop 16 ?h) @ drop 20 ?h" "drop 12 ?h = take 4 (drop 12 ?h) @ drop 16 ?h" "drop 8 ?h = take 4 (drop 8 ?h) @ drop 12 ?h"
        using append_take_drop_id [of 4 "drop 16 ?h"] append_take_drop_id [of 4 "drop 12 ?h"] append_take_drop_id [of 4 "drop 8 ?h"]
        unfolding drop_drop by simp_all
      then show ?thesis
        using append_take_drop_id [of 8 ?h] by metis
    qed
    then show ?thesis
      unfolding uuid_str_def Let_def by (simp add: keep set_take_subset set_drop_subset subset_trans [OF set_take_subset set_drop_subset])
  qed
  have "remove_text ''uuid:'' (remove_text ''urn:'' (uuid_str n)) = uuid_str n"
    using notin [OF not_hex(6)] by (simp add: remove_text_absent)
  then have "remove_text ''-'' (strip_by (\<lambda>c. c \<in> set ''{}'') (remove_text ''uuid:'' (remove_text ''urn:'' (uuid_str n)))) = ?h"
    using notin [OF not_hex(7)] notin [OF not_hex(8)] by (subst strip_by_absent) (auto simp: remove_char parts)
  moreover have "int_hex ?h = Some (int n)"
  proof -
    have "strip_by is_space ?h = ?h"
      using is_hex_notin [OF h not_hex_space] by (intro strip_by_absent) blast
    moreover have "take 1 ?h \<noteq> ''-''" "take 1 ?h \<noteq> ''+''" "take 2 ?h \<noteq> ''0x''" "take 2 ?h \<noteq> ''0X''"
      using is_hex_notin [OF h not_hex(1)] is_hex_notin [OF h not_hex(2)] is_hex_notin [OF h not_hex(3)] is_hex_notin [OF h not_hex(4)]
        in_set_takeD [of _ 1 ?h] in_set_takeD [of _ 2 ?h] by force+
    moreover have "hex_digits 0 False ?h = Some n"
      using hex_digits_text [of 31 n] n by simp
    ultimately show ?thesis
      by (simp add: int_hex_def unsigned_hex_def Let_def)
  qed
  ultimately show ?thesis
    using n by (simp add: uuid_of_def Let_def)
qed

end
