(* ===== verification/Free_Names.thy ===== *)
theory Free_Names
  imports Shop_Prelude
begin

text \<open>
  The search for a name that is not taken, as the program does it for user names and for slugs: while the name is
  taken, a number is appended to the original name.  The loop ends because only finitely many names are taken,
  and it gives the first free one of the names it tries.
\<close>

definition numbered :: "string \<Rightarrow> string \<Rightarrow> nat \<Rightarrow> string" where
  "numbered original sep counter = original @ sep @ str_nat counter"

lemma numbered_inj [simp]: "numbered original sep i = numbered original sep j \<longleftrightarrow> i = j"
  by (simp add: numbered_def)

lemma finite_taken_numbers: "finite {k. counter \<le> k \<and> numbered original sep k \<in> set taken}"
proof -
  have "finite (numbered original sep -` set taken)"
    by (intro finite_vimageI) (simp_all add: inj_def)
  then show ?thesis
    by (rule rev_finite_subset) auto
qed

function free_name :: "string list \<Rightarrow> string \<Rightarrow> string \<Rightarrow> string \<Rightarrow> nat \<Rightarrow> string" where
  "free_name taken original sep name counter = (
     if name \<in> set taken then free_name taken original sep (numbered original sep counter) (Suc counter) else name)"
  by pat_completeness auto
termination
proof (relation "measures [\<lambda>(taken, original, sep, _, counter). card {k. counter \<le> k \<and> numbered original sep k \<in> set taken},
    \<lambda>(taken, _, _, name, _). if name \<in> set taken then 1 else 0]", simp)
  fix taken :: "string list" and original sep name :: string and counter :: nat
  assume taken: "name \<in> set taken"
  let ?S = "\<lambda>c. {k. c \<le> k \<and> numbered original sep k \<in> set taken}"
  have "?S (Suc counter) = ?S counter - {counter}"
    by auto
  then have "card (?S (Suc counter)) < card (?S counter)" if "numbered original sep counter \<in> set taken"
    using that card_Diff1_less [OF finite_taken_numbers, of counter counter original sep taken] by simp
  moreover have "?S (Suc counter) = ?S counter" if "numbered original sep counter \<notin> set taken"
    using that by (auto simp: Suc_le_eq le_less)
  ultimately show "((taken, original, sep, numbered original sep counter, Suc counter), taken, original, sep, name, counter)
      \<in> measures [\<lambda>(taken, original, sep, _, counter). card {k. counter \<le> k \<and> numbered original sep k \<in> set taken},
          \<lambda>(taken, _, _, name, _). if name \<in> set taken then 1 else 0]"
    using taken by (cases "numbered original sep counter \<in> set taken") auto
qed

declare free_name.simps [simp del]

lemma free_name_free: "free_name taken original sep name counter \<notin> set taken"
  by (induction taken original sep name counter rule: free_name.induct) (subst free_name.simps, simp)

text \<open>The names that are tried, and that the result is the first free one.\<close>

fun candidate :: "string \<Rightarrow> string \<Rightarrow> nat \<Rightarrow> string" where
  "candidate original sep 0 = original"
| "candidate original sep (Suc k) = numbered original sep (Suc k)"

lemma candidate_inj: "sep \<noteq> [] \<Longrightarrow> inj (candidate original sep)"
proof (rule injI)
  fix i j
  assume "sep \<noteq> []" "candidate original sep i = candidate original sep j"
  then show "i = j"
    by (cases i; cases j) (auto simp: numbered_def)
qed

lemma free_name_first:
  assumes "\<forall>j < k. candidate original sep j \<in> set taken"
  shows "\<exists>m. free_name taken original sep (candidate original sep k) (Suc k) = candidate original sep m
     \<and> (\<forall>j < m. candidate original sep j \<in> set taken)"
  using assms
proof (induction "card {j. Suc k \<le> j \<and> numbered original sep j \<in> set taken} + (if candidate original sep k \<in> set taken then 1 else 0)"
    arbitrary: k rule: less_induct)
  case less
  show ?case
  proof (cases "candidate original sep k \<in> set taken")
    case True
    let ?S = "\<lambda>c. {j. c \<le> j \<and> numbered original sep j \<in> set taken}"
    have "?S (Suc (Suc k)) = ?S (Suc k) - {Suc k}"
      by auto
    then have "card (?S (Suc (Suc k))) + (if candidate original sep (Suc k) \<in> set taken then 1 else 0) \<le> card (?S (Suc k))"
      using card_Suc_Diff1 [OF finite_taken_numbers, of "Suc k" "Suc k" original sep taken] by auto
    moreover have "\<forall>j < Suc k. candidate original sep j \<in> set taken"
      using less.prems True by (simp add: less_Suc_eq)
    ultimately show ?thesis
      using less.hyps [of "Suc k"] True by (simp add: free_name.simps [of taken original sep "candidate original sep k"])
  next
    case False
    then show ?thesis
      using less.prems by (intro exI [of _ k]) (simp add: free_name.simps [of taken original sep "candidate original sep k"])
  qed
qed

lemma free_name_candidate:
  assumes "sep \<noteq> []"
  shows "\<exists>k \<le> length taken. free_name taken original sep original 1 = candidate original sep k
     \<and> (\<forall>j < k. candidate original sep j \<in> set taken)"
proof -
  obtain m where m: "free_name taken original sep original 1 = candidate original sep m" "\<forall>j < m. candidate original sep j \<in> set taken"
    using free_name_first [of 0 original sep taken] by auto
  have "card (candidate original sep ` {..<m}) \<le> card (set taken)"
    using m(2) by (intro card_mono) auto
  also have "\<dots> \<le> length taken"
    by (rule card_length)
  finally have "m \<le> length taken"
    using card_image [OF inj_on_subset [OF candidate_inj [OF assms]], of "{..<m}" original] by simp
  then show ?thesis
    using m by blast
qed

end
