(* ===== verification/Accounts.thy ===== *)
theory Accounts
  imports Account_Texts Free_Names Carts Payment_Tasks
begin

text \<open>
  Accounts: \<^verbatim>\<open>src/shopping/models/email_verification.py\<close>, \<^verbatim>\<open>models/password_reset.py\<close>, the services for
  e-mail verification, password reset, tokens and users, their serializers, and the tasks that send mail.

  Outside of the repository, and parameters here: the package for JSON web tokens (\<open>jwt_lib\<close>), Django's handling of
  passwords (\<open>pw_lib\<close>), SHA-256 (\<open>sha\<close>) and the mail server (\<open>smtp\<close>).  Random values (uuids, codes, token ids)
  are arguments.  E-mail addresses and codes are ASCII texts.  Subjects and bodies of mails and texts of errors are
  not modelled; an error carries the code the service gives it, or a short name where it has none.
\<close>

section \<open>State\<close>

record account =
  ac_id :: pk
  ac_username :: string
  ac_email :: string
  ac_first_name :: string
  ac_password :: string
  ac_is_active :: bool
  ac_is_withdrawn :: bool
  ac_withdrawn_at :: "timestamp option"
  ac_is_email_verified :: bool
  ac_has_social :: bool
  ac_last_login :: "timestamp option"
  ac_last_login_ip :: "string option"

record ev_token =
  et_id :: pk
  et_user :: pk
  et_token :: nat
  et_code :: string
  et_created_at :: timestamp
  et_is_used :: bool
  et_used_at :: "timestamp option"

datatype mail_status = MailPending | MailSent | MailFailed | MailOpened | MailClicked | MailVerified

record email_log =
  el_id :: pk
  el_user :: "pk option"
  el_type :: string
  el_recipient :: string
  el_status :: mail_status
  el_token :: "pk option"
  el_sent_at :: "timestamp option"
  el_opened_at :: "timestamp option"
  el_clicked_at :: "timestamp option"
  el_verified_at :: "timestamp option"
  el_task_id :: "string option"
  el_failed_at :: "timestamp option"
  el_resend_count :: nat
  el_created_at :: timestamp

record reset_token =
  rs_id :: pk
  rs_user :: pk
  rs_hash :: string
  rs_created_at :: timestamp
  rs_is_used :: bool
  rs_used_at :: "timestamp option"

text \<open>The tables of the token package: issued refresh tokens, and the ids of the blacklisted ones.\<close>

record outstanding_token =
  ot_jti :: string
  ot_user :: "pk option"
  ot_expires_at :: timestamp

type_synonym token_tables = "outstanding_token list \<times> string list"

datatype mail = VerificationMail string nat string | PlainMail string "string list"

datatype mail_task = SendVerification pk pk bool | SendEmail string "string list" pk string

record adb =
  accounts :: "account list"
  ev_tokens :: "ev_token list"
  email_logs :: "email_log list"
  reset_tokens :: "reset_token list"
  token_rows :: token_tables
  mail_queue :: "mail_task list"
  mails :: "mail list"
  queue_up :: bool
  next_key :: pk

datatype acct_error = Refused string | Lib exn

type_synonym 'a aop = "adb \<Rightarrow> acct_error + 'a \<times> adb"

text \<open>An operation outside of a transaction: what it wrote before an exception stays.\<close>

type_synonym 'a arun = "adb \<Rightarrow> (acct_error + 'a) \<times> adb"

definition get_account :: "adb \<Rightarrow> pk \<Rightarrow> account option" where
  "get_account a k = rget ac_id (accounts a) k"

text \<open>\<^verbatim>\<open>User.save\<close> keeps the time of the withdrawal consistent.\<close>

definition account_save :: "timestamp \<Rightarrow> account \<Rightarrow> account" where
  "account_save now u = (
     if ac_is_withdrawn u \<and> ac_withdrawn_at u = None then u\<lparr>ac_withdrawn_at := Some now\<rparr>
     else if \<not> ac_is_withdrawn u \<and> ac_withdrawn_at u \<noteq> None then u\<lparr>ac_withdrawn_at := None\<rparr>
     else u)"

definition upd_account :: "timestamp \<Rightarrow> pk \<Rightarrow> (account \<Rightarrow> account) \<Rightarrow> adb \<Rightarrow> adb" where
  "upd_account now k f a = a\<lparr>accounts := rupd ac_id (accounts a) k (\<lambda>u. account_save now (f u))\<rparr>"

definition enqueue :: "mail_task \<Rightarrow> adb \<Rightarrow> acct_error + adb" where
  "enqueue m a = (if queue_up a then Inr (a\<lparr>mail_queue := mail_queue a @ [m]\<rparr>) else Inl (Lib BrokerError))"

definition newest :: "('r \<Rightarrow> timestamp) \<Rightarrow> 'r list \<Rightarrow> 'r option" where
  "newest created rs = (case sort_key (\<lambda>r. - created r) rs of [] \<Rightarrow> None | r # _ \<Rightarrow> Some r)"

section \<open>E-mail verification\<close>

definition token_expired :: "ev_token \<Rightarrow> timestamp \<Rightarrow> bool" where
  "token_expired t now \<longleftrightarrow> now > et_created_at t + 24 * 3600"

definition can_resend :: "ev_token \<Rightarrow> timestamp \<Rightarrow> bool" where
  "can_resend t now \<longleftrightarrow> now > et_created_at t + 60"

definition mark_as_used :: "timestamp \<Rightarrow> ev_token \<Rightarrow> ev_token" where
  "mark_as_used now t = t\<lparr>et_is_used := True, et_used_at := Some now\<rparr>"

definition upd_ev_token :: "pk \<Rightarrow> (ev_token \<Rightarrow> ev_token) \<Rightarrow> adb \<Rightarrow> adb" where
  "upd_ev_token k f a = a\<lparr>ev_tokens := rupd et_id (ev_tokens a) k f\<rparr>"

text \<open>The random codes the generator draws; it gives up after ten.\<close>

definition generate_verification_code :: "pk \<Rightarrow> string list \<Rightarrow> adb \<Rightarrow> acct_error + string" where
  "generate_verification_code uid draws a = (
     case find (\<lambda>code. \<not> (\<exists>t \<in> set (ev_tokens a). et_user t = uid \<and> et_code t = code \<and> \<not> et_is_used t)) (take 10 draws) of
       None \<Rightarrow> Inl (Lib ValueError) | Some code \<Rightarrow> Inr code)"

text \<open>\<^verbatim>\<open>EmailVerificationToken.objects.create(user=user)\<close> with the unique constraints of the table.\<close>

definition create_ev_token :: "pk \<Rightarrow> nat \<Rightarrow> string list \<Rightarrow> timestamp \<Rightarrow> ev_token aop" where
  "create_ev_token uid uuid draws now a = (case generate_verification_code uid draws a of
     Inl e \<Rightarrow> Inl e
   | Inr code \<Rightarrow>
       if \<exists>t \<in> set (ev_tokens a). et_token t = uuid \<or> (et_user t = uid \<and> et_code t = code) then Inl (Lib IntegrityError)
       else let t = \<lparr>et_id = next_key a, et_user = uid, et_token = uuid, et_code = code, et_created_at = now, et_is_used = False,
                     et_used_at = None\<rparr>
         in Inr (t, a\<lparr>ev_tokens := ev_tokens a @ [t], next_key := Suc (next_key a)\<rparr>))"

definition tokens_of :: "adb \<Rightarrow> pk \<Rightarrow> ev_token list" where
  "tokens_of a uid = filter (\<lambda>t. et_user t = uid) (ev_tokens a)"

definition get_active_token :: "pk \<Rightarrow> adb \<Rightarrow> ev_token option" where
  "get_active_token uid a = newest et_created_at (filter (\<lambda>t. \<not> et_is_used t) (tokens_of a uid))"

definition check_resend_cooldown :: "pk \<Rightarrow> timestamp \<Rightarrow> adb \<Rightarrow> acct_error + unit" where
  "check_resend_cooldown uid now a = (case newest et_created_at (tokens_of a uid) of
     None \<Rightarrow> Inr ()
   | Some t \<Rightarrow> if can_resend t now then Inr () else Inl (Refused ''RESEND_COOLDOWN''))"

definition invalidate_tokens :: "pk \<Rightarrow> adb \<Rightarrow> nat \<times> adb" where
  "invalidate_tokens uid a = (length (filter (\<lambda>t. \<not> et_is_used t) (tokens_of a uid)),
     a\<lparr>ev_tokens := map (\<lambda>t. if et_user t = uid \<and> \<not> et_is_used t then t\<lparr>et_is_used := True\<rparr> else t) (ev_tokens a)\<rparr>)"

definition send_verification_email :: "pk \<Rightarrow> bool \<Rightarrow> nat \<Rightarrow> string list \<Rightarrow> timestamp \<Rightarrow> pk aop" where
  "send_verification_email uid is_resend uuid draws now a = rbind (of_get (Lib DoesNotExist) (get_account a uid) a) (\<lambda>u a.
     if ac_is_email_verified u then Inl (Refused ''ALREADY_VERIFIED'')
     else case (if is_resend then check_resend_cooldown uid now a else Inr ()) of
       Inl e \<Rightarrow> Inl e
     | Inr _ \<Rightarrow> rbind (create_ev_token uid uuid draws now (snd (invalidate_tokens uid a))) (\<lambda>t a.
         case enqueue (SendVerification uid (et_id t) is_resend) a of
           Inl e \<Rightarrow> Inl e
         | Inr a \<Rightarrow> Inr (et_id t, a)))"

text \<open>The serializer of both requests for a mail.\<close>

definition validate_send_request :: "pk \<Rightarrow> timestamp \<Rightarrow> adb \<Rightarrow> acct_error + unit" where
  "validate_send_request uid now a = (case get_account a uid of
     None \<Rightarrow> Inl (Lib DoesNotExist)
   | Some u \<Rightarrow>
       if ac_is_email_verified u then Inl (Refused ''ALREADY_VERIFIED'')
       else case get_active_token uid a of
         None \<Rightarrow> Inr ()
       | Some t \<Rightarrow> if can_resend t now then Inr () else Inl (Refused ''TOO_EARLY''))"

definition validate_token :: "ev_token \<Rightarrow> account \<Rightarrow> timestamp \<Rightarrow> string option" where
  "validate_token t u now = (
     if et_is_used t then Some ''TOKEN_USED''
     else if token_expired t now then Some ''TOKEN_EXPIRED''
     else if ac_is_email_verified u then Some ''ALREADY_VERIFIED''
     else None)"

text \<open>Both ways to verify end the same.\<close>

definition complete_verification :: "ev_token \<Rightarrow> timestamp \<Rightarrow> adb \<Rightarrow> adb" where
  "complete_verification t now a = upd_ev_token (et_id t) (mark_as_used now)
     (upd_account now (et_user t) (\<lambda>u. u\<lparr>ac_is_email_verified := True\<rparr>) a)"

definition verify_by_token :: "string \<Rightarrow> timestamp \<Rightarrow> pk aop" where
  "verify_by_token token_str now a = (
     if token_str = [] then Inl (Refused ''TOKEN_MISSING'')
     else case uuid_of token_str of
       None \<Rightarrow> Inl (Refused ''TOKEN_INVALID'')
     | Some uuid \<Rightarrow> (case find (\<lambda>t. et_token t = uuid) (ev_tokens a) of
         None \<Rightarrow> Inl (Refused ''TOKEN_INVALID'')
       | Some t \<Rightarrow> rbind (of_get (Lib DoesNotExist) (get_account a (et_user t)) a) (\<lambda>u a.
           case validate_token t u now of
             Some code \<Rightarrow> Inl (Refused code)
           | None \<Rightarrow> Inr (ac_id u, complete_verification t now a))))"

definition verify_by_code :: "pk \<Rightarrow> string \<Rightarrow> timestamp \<Rightarrow> pk aop" where
  "verify_by_code uid code now a = (
     if code = [] then Inl (Refused ''CODE_MISSING'')
     else rbind (of_get (Lib DoesNotExist) (get_account a uid) a) (\<lambda>u a.
       if ac_is_email_verified u then Inl (Refused ''ALREADY_VERIFIED'')
       else case get_active_token uid a of
         None \<Rightarrow> Inl (Refused ''NO_VALID_TOKEN'')
       | Some t \<Rightarrow>
           if token_expired t now then Inl (Refused ''CODE_EXPIRED'')
           else if upper (et_code t) \<noteq> upper code then Inl (Refused ''CODE_MISMATCH'')
           else Inr (uid, complete_verification t now a)))"

record verification_status =
  vs_is_verified :: bool
  vs_email :: string
  vs_pending :: bool
  vs_token_expired :: bool
  vs_can_resend :: bool

definition get_verification_status :: "account \<Rightarrow> timestamp \<Rightarrow> adb \<Rightarrow> verification_status" where
  "get_verification_status u now a = (
     let plain = \<lparr>vs_is_verified = ac_is_email_verified u, vs_email = ac_email u, vs_pending = False, vs_token_expired = False,
                  vs_can_resend = True\<rparr>
     in if ac_is_email_verified u then plain
        else case newest et_created_at (tokens_of a (ac_id u)) of
          None \<Rightarrow> plain
        | Some t \<Rightarrow> plain\<lparr>vs_pending := True, vs_token_expired := token_expired t now,
                          vs_can_resend := (if et_is_used t then True else can_resend t now)\<rparr>)"

text \<open>Changing the address of a profile asks for a new verification.\<close>

definition change_email :: "pk \<Rightarrow> string \<Rightarrow> timestamp \<Rightarrow> unit aop" where
  "change_email uid email now a = rbind (of_get (Lib DoesNotExist) (get_account a uid) a) (\<lambda>u a.
     if ac_email u \<noteq> email \<and> (\<exists>v \<in> set (accounts a). ac_email v = email) then Inl (Refused ''EMAIL_TAKEN'')
     else Inr ((), upd_account now uid (\<lambda>v. v\<lparr>ac_email := email,
            ac_is_email_verified := (if ac_email u = email then ac_is_email_verified v else False)\<rparr>) a))"

section \<open>Refresh tokens\<close>

record refresh_token =
  tk_jti :: string
  tk_user :: "pk option"
  tk_exp :: timestamp

text \<open>
  The token package: \<open>jwt_id\<close> reads the id of a text without checking it (\<open>Inl\<close> for a text that is no token);
  \<open>jwt_verify\<close> is the constructor \<^verbatim>\<open>RefreshToken(text)\<close>, which checks signature, time and blacklist (\<open>None\<close> for
  \<^verbatim>\<open>TokenError\<close>); \<open>jwt_blacklist\<close>, \<open>jwt_outstand\<close> and \<open>jwt_for_user\<close> are the methods of that name, where the
  first tells whether it added the row, and the last gets the random id of the new token.
\<close>

record jwt_lib =
  jwt_id :: "string \<Rightarrow> unit + string option"
  jwt_verify :: "string \<Rightarrow> timestamp \<Rightarrow> string list \<Rightarrow> refresh_token option"
  jwt_text :: "refresh_token \<Rightarrow> string"
  jwt_access :: "refresh_token \<Rightarrow> string"
  jwt_blacklist :: "refresh_token \<Rightarrow> token_tables \<Rightarrow> bool \<times> token_tables"
  jwt_outstand :: "refresh_token \<Rightarrow> token_tables \<Rightarrow> token_tables"
  jwt_for_user :: "pk \<Rightarrow> string \<Rightarrow> timestamp \<Rightarrow> token_tables \<Rightarrow> refresh_token \<times> token_tables"
  jwt_may_login :: "account \<Rightarrow> bool"

definition REFRESH_TOKEN_LIFETIME :: int where
  "REFRESH_TOKEN_LIFETIME = 7 * 24 * 3600"

definition ROTATE_REFRESH_TOKENS :: bool where
  "ROTATE_REFRESH_TOKENS = True"

definition BLACKLIST_AFTER_ROTATION :: bool where
  "BLACKLIST_AFTER_ROTATION = True"

abbreviation blacklisted :: "adb \<Rightarrow> string list" where
  "blacklisted a \<equiv> snd (token_rows a)"

definition ensure_user_active :: "jwt_lib \<Rightarrow> refresh_token \<Rightarrow> adb \<Rightarrow> bool" where
  "ensure_user_active lib t a = (case tk_user t of
     None \<Rightarrow> False
   | Some k \<Rightarrow> (case get_account a k of None \<Rightarrow> False | Some u \<Rightarrow> jwt_may_login lib u))"

text \<open>The new token has a new id and a new lifetime.\<close>

definition issue_rotated :: "jwt_lib \<Rightarrow> refresh_token \<Rightarrow> string \<Rightarrow> timestamp \<Rightarrow> adb \<Rightarrow> (string \<times> string option) \<times> adb" where
  "issue_rotated lib t jti now a = (
     if ROTATE_REFRESH_TOKENS
     then let t1 = t\<lparr>tk_jti := jti, tk_exp := now + REFRESH_TOKEN_LIFETIME\<rparr>
          in ((jwt_access lib t, Some (jwt_text lib t1)), a\<lparr>token_rows := jwt_outstand lib t1 (token_rows a)\<rparr>)
     else ((jwt_access lib t, None), a))"

definition validate_and_refresh_token :: "jwt_lib \<Rightarrow> string \<Rightarrow> string \<Rightarrow> timestamp \<Rightarrow> (string \<times> string option) arun" where
  "validate_and_refresh_token lib refresh jti now a = (
     if refresh = [] then (Inl (Refused ''TOKEN_REQUIRED''), a)
     else case jwt_id lib refresh of
       Inl _ \<Rightarrow> (Inl (Refused ''INVALID_FORMAT''), a)
     | Inr j \<Rightarrow>
         if (case j of None \<Rightarrow> False | Some k \<Rightarrow> k \<noteq> [] \<and> k \<in> set (blacklisted a)) then (Inl (Refused ''TOKEN_BLACKLISTED''), a)
         else (case jwt_verify lib refresh now (blacklisted a) of
           None \<Rightarrow> (Inl (Refused ''TOKEN_INVALID''), a)
         | Some t \<Rightarrow>
             if \<not> ensure_user_active lib t a then (Inl (Refused ''USER_INACTIVE''), a)
             else if ROTATE_REFRESH_TOKENS \<and> BLACKLIST_AFTER_ROTATION
             then (case jwt_blacklist lib t (token_rows a) of (claimed, rows) \<Rightarrow>
                     if \<not> claimed then (Inl (Refused ''TOKEN_BLACKLISTED''), a\<lparr>token_rows := rows\<rparr>)
                     else apfst Inr (issue_rotated lib t jti now (a\<lparr>token_rows := rows\<rparr>)))
             else apfst Inr (issue_rotated lib t jti now a)))"

definition blacklist_token :: "jwt_lib \<Rightarrow> string \<Rightarrow> timestamp \<Rightarrow> unit arun" where
  "blacklist_token lib refresh now a = (
     if refresh = [] then (Inl (Refused ''TOKEN_REQUIRED''), a)
     else case jwt_verify lib refresh now (blacklisted a) of
       None \<Rightarrow> (Inl (Refused ''TOKEN_INVALID''), a)
     | Some t \<Rightarrow> (Inr (), a\<lparr>token_rows := snd (jwt_blacklist lib t (token_rows a))\<rparr>))"

definition revoke_all_for_user :: "jwt_lib \<Rightarrow> pk \<Rightarrow> string option \<Rightarrow> timestamp \<Rightarrow> adb \<Rightarrow> nat \<times> adb" where
  "revoke_all_for_user lib uid keep now a = (
     let keep_jti = (case keep of
           None \<Rightarrow> None
         | Some s \<Rightarrow> if s = [] then None else map_option tk_jti (jwt_verify lib s now (blacklisted a)));
         pending = filter (\<lambda>r. ot_user r = Some uid \<and> ot_expires_at r > now \<and> ot_jti r \<notin> set (blacklisted a)
           \<and> (case keep_jti of None \<Rightarrow> True | Some j \<Rightarrow> j = [] \<or> ot_jti r \<noteq> j)) (fst (token_rows a))
     in (length pending, a\<lparr>token_rows := (fst (token_rows a), blacklisted a @ map ot_jti pending)\<rparr>))"

section \<open>Password reset\<close>

text \<open>Django's accounts: \<^verbatim>\<open>set_password\<close>, \<^verbatim>\<open>check_password\<close>, \<^verbatim>\<open>validate_password\<close>, and the password and the address that
  \<^verbatim>\<open>create_user\<close> stores for a user without a password.\<close>

record pw_lib =
  pw_make :: "string \<Rightarrow> string"
  pw_check :: "string \<Rightarrow> string \<Rightarrow> bool"
  pw_acceptable :: "string \<Rightarrow> account option \<Rightarrow> bool"
  pw_unusable :: string
  pw_normalize :: "string \<Rightarrow> string"

definition PASSWORD_RESET_TIMEOUT :: int where
  "PASSWORD_RESET_TIMEOUT = 86400"

definition hash_token :: "(string \<Rightarrow> string) \<Rightarrow> nat \<Rightarrow> string" where
  "hash_token sha uuid = sha (uuid_str uuid)"

definition reset_expired :: "reset_token \<Rightarrow> timestamp \<Rightarrow> bool" where
  "reset_expired t now \<longleftrightarrow> now > rs_created_at t + PASSWORD_RESET_TIMEOUT"

definition use_reset :: "timestamp \<Rightarrow> reset_token \<Rightarrow> reset_token" where
  "use_reset now t = t\<lparr>rs_is_used := True, rs_used_at := Some now\<rparr>"

definition invalidate_previous_tokens :: "pk \<Rightarrow> timestamp \<Rightarrow> adb \<Rightarrow> adb" where
  "invalidate_previous_tokens uid now a = a\<lparr>reset_tokens :=
     map (\<lambda>t. if rs_user t = uid \<and> \<not> rs_is_used t then use_reset now t else t) (reset_tokens a)\<rparr>"

definition generate_token :: "(string \<Rightarrow> string) \<Rightarrow> pk \<Rightarrow> bool \<Rightarrow> nat \<Rightarrow> timestamp \<Rightarrow> string aop" where
  "generate_token sha uid invalidate_previous uuid now a = (
     let a1 = (if invalidate_previous then invalidate_previous_tokens uid now a else a)
     in if \<exists>t \<in> set (reset_tokens a1). rs_hash t = hash_token sha uuid then Inl (Lib IntegrityError)
        else Inr (uuid_str uuid, a1\<lparr>reset_tokens := reset_tokens a1 @
          [\<lparr>rs_id = next_key a1, rs_user = uid, rs_hash = hash_token sha uuid, rs_created_at = now, rs_is_used = False, rs_used_at = None\<rparr>],
          next_key := Suc (next_key a1)\<rparr>))"

definition verify_token :: "(string \<Rightarrow> string) \<Rightarrow> pk \<Rightarrow> string \<Rightarrow> timestamp \<Rightarrow> adb \<Rightarrow> reset_token option" where
  "verify_token sha uid raw now a = (
     case find (\<lambda>t. rs_user t = uid \<and> rs_hash t = sha raw \<and> \<not> rs_is_used t) (reset_tokens a) of
       None \<Rightarrow> None
     | Some t \<Rightarrow> if reset_expired t now then None else Some t)"

definition new_log :: "pk option \<Rightarrow> string \<Rightarrow> string \<Rightarrow> pk option \<Rightarrow> string option \<Rightarrow> timestamp \<Rightarrow> adb \<Rightarrow> email_log \<times> adb" where
  "new_log user etype recipient token task_id now a = (
     let row = \<lparr>el_id = next_key a, el_user = user, el_type = etype, el_recipient = recipient, el_status = MailPending, el_token = token,
                el_sent_at = None, el_opened_at = None, el_clicked_at = None, el_verified_at = None, el_task_id = task_id,
                el_failed_at = None, el_resend_count = 0, el_created_at = now\<rparr>
     in (row, a\<lparr>email_logs := email_logs a @ [row], next_key := Suc (next_key a)\<rparr>))"

text \<open>The serializer of the request; an unknown address passes as nobody.\<close>

definition validate_reset_request :: "string \<Rightarrow> adb \<Rightarrow> acct_error + account option" where
  "validate_reset_request email a = (case find (\<lambda>u. ac_email u = lower email) (accounts a) of
     None \<Rightarrow> Inr None
   | Some u \<Rightarrow>
       if ac_is_withdrawn u then Inl (Refused ''WITHDRAWN'')
       else if \<not> ac_is_active u then Inl (Refused ''INACTIVE'')
       else Inr (Some u))"

definition request_password_reset :: "(string \<Rightarrow> string) \<Rightarrow> account \<Rightarrow> nat \<Rightarrow> timestamp \<Rightarrow> unit arun" where
  "request_password_reset sha u uuid now a = (case generate_token sha (ac_id u) True uuid now a of
     Inl e \<Rightarrow> (Inl e, a)
   | Inr (raw, a1) \<Rightarrow> (case enqueue (SendEmail raw [ac_email u] (ac_id u) ''password_reset'') a1 of
       Inl e \<Rightarrow> (Inl e, a1)
     | Inr a2 \<Rightarrow> (Inr (), snd (new_log (Some (ac_id u)) ''password_reset'' (ac_email u) None None now a2))))"

text \<open>The serializer of the confirmation.\<close>

definition validate_reset_confirm :: "pw_lib \<Rightarrow> (string \<Rightarrow> string) \<Rightarrow> string \<Rightarrow> string \<Rightarrow> string \<Rightarrow> string \<Rightarrow> timestamp \<Rightarrow> adb
    \<Rightarrow> acct_error + account \<times> reset_token" where
  "validate_reset_confirm pw sha email token pw1 pw2 now a = (case uuid_of token of
     None \<Rightarrow> Inl (Refused ''INVALID_UUID'')
   | Some uuid \<Rightarrow>
       if length pw1 \<notin> {8..128} \<or> length pw2 \<notin> {8..128} then Inl (Refused ''PASSWORD_LENGTH'')
       else if pw1 \<noteq> pw2 then Inl (Refused ''PASSWORD_MISMATCH'')
       else case find (\<lambda>u. ac_email u = lower email) (accounts a) of
         None \<Rightarrow> Inl (Refused ''INVALID_TOKEN'')
       | Some u \<Rightarrow>
           if ac_is_withdrawn u then Inl (Refused ''WITHDRAWN'')
           else if \<not> ac_is_active u then Inl (Refused ''INACTIVE'')
           else if \<not> pw_acceptable pw pw1 (Some u) then Inl (Refused ''PASSWORD_POLICY'')
           else case verify_token sha (ac_id u) (uuid_str uuid) now a of
             None \<Rightarrow> Inl (Refused ''INVALID_TOKEN'')
           | Some t \<Rightarrow> Inr (u, t))"

definition close_reset_logs :: "pk \<Rightarrow> timestamp \<Rightarrow> timestamp \<Rightarrow> email_log \<Rightarrow> email_log" where
  "close_reset_logs uid since now l = (
     if el_user l = Some uid \<and> el_type l = ''password_reset'' \<and> el_status l = MailSent
        \<and> (case el_sent_at l of None \<Rightarrow> False | Some s \<Rightarrow> s \<ge> since)
     then l\<lparr>el_status := MailVerified, el_verified_at := Some now\<rparr> else l)"

definition confirm_password_reset :: "jwt_lib \<Rightarrow> pw_lib \<Rightarrow> account \<Rightarrow> reset_token \<Rightarrow> string \<Rightarrow> timestamp \<Rightarrow> adb \<Rightarrow> adb" where
  "confirm_password_reset lib pw u t new_password now a = (
     let a1 = upd_account now (ac_id u) (\<lambda>v. v\<lparr>ac_password := pw_make pw new_password\<rparr>) a;
         a2 = a1\<lparr>reset_tokens := rupd rs_id (reset_tokens a1) (rs_id t) (use_reset now)\<rparr>;
         a3 = a2\<lparr>email_logs := map (close_reset_logs (ac_id u) (rs_created_at t) now) (email_logs a2)\<rparr>
     in snd (revoke_all_for_user lib (ac_id u) None now a3))"

text \<open>A whole request with its serializer.\<close>

definition reset_password :: "jwt_lib \<Rightarrow> pw_lib \<Rightarrow> (string \<Rightarrow> string) \<Rightarrow> string \<Rightarrow> string \<Rightarrow> string \<Rightarrow> string \<Rightarrow> timestamp \<Rightarrow> pk aop" where
  "reset_password lib pw sha email token pw1 pw2 now a = (case validate_reset_confirm pw sha email token pw1 pw2 now a of
     Inl e \<Rightarrow> Inl e
   | Inr (u, t) \<Rightarrow> Inr (ac_id u, confirm_password_reset lib pw u t pw1 now a))"

section \<open>Users\<close>

text \<open>Changing the password keeps the login of this device.\<close>

definition change_password :: "jwt_lib \<Rightarrow> pw_lib \<Rightarrow> pk \<Rightarrow> string \<Rightarrow> string \<Rightarrow> string \<Rightarrow> string option \<Rightarrow> timestamp \<Rightarrow> unit aop" where
  "change_password lib pw uid old_password pw1 pw2 keep now a = rbind (of_get (Lib DoesNotExist) (get_account a uid) a) (\<lambda>u a.
     if \<not> pw_check pw old_password (ac_password u) then Inl (Refused ''OLD_PASSWORD'')
     else if \<not> pw_acceptable pw pw1 None then Inl (Refused ''PASSWORD_POLICY'')
     else if pw1 \<noteq> pw2 then Inl (Refused ''PASSWORD_MISMATCH'')
     else Inr ((), snd (revoke_all_for_user lib uid keep now
       (upd_account now uid (\<lambda>v. v\<lparr>ac_password := pw_make pw pw1\<rparr>) a))))"

definition create_tokens_for_user :: "jwt_lib \<Rightarrow> pk \<Rightarrow> string \<Rightarrow> timestamp \<Rightarrow> adb \<Rightarrow> (string \<times> string) \<times> adb" where
  "create_tokens_for_user lib uid jti now a = (case jwt_for_user lib uid jti now (token_rows a) of
     (t, rows) \<Rightarrow> ((jwt_text lib t, jwt_access lib t), a\<lparr>token_rows := rows\<rparr>))"

text \<open>\<^verbatim>\<open>User.objects.create_user\<close>, which normalises the address; names and addresses are unique.\<close>

definition create_user :: "pw_lib \<Rightarrow> string \<Rightarrow> string \<Rightarrow> string \<Rightarrow> bool \<Rightarrow> account aop" where
  "create_user pw username email password verified a = (
     let u = \<lparr>ac_id = next_key a, ac_username = username, ac_email = pw_normalize pw email, ac_first_name = [], ac_password = password,
              ac_is_active = True, ac_is_withdrawn = False, ac_withdrawn_at = None, ac_is_email_verified = verified, ac_has_social = False,
              ac_last_login = None, ac_last_login_ip = None\<rparr>
     in if \<exists>v \<in> set (accounts a). ac_username v = ac_username u \<or> ac_email v = ac_email u then Inl (Lib IntegrityError)
        else Inr (u, a\<lparr>accounts := accounts a @ [u], next_key := Suc (next_key a)\<rparr>))"

definition register_user :: "jwt_lib \<Rightarrow> pk \<Rightarrow> string \<Rightarrow> nat \<Rightarrow> string list \<Rightarrow> timestamp \<Rightarrow> (string \<times> string) aop" where
  "register_user lib uid jti uuid draws now a = (case create_tokens_for_user lib uid jti now a of
     (tokens, a1) \<Rightarrow> rbind (create_ev_token uid uuid draws now a1) (\<lambda>t a2.
       case enqueue (SendVerification uid (et_id t) False) a2 of
         Inl e \<Rightarrow> Inl e
       | Inr a3 \<Rightarrow> Inr (tokens, a3)))"

text \<open>The serializer of a registration and the transaction of the view.\<close>

definition validate_registration :: "pw_lib \<Rightarrow> string \<Rightarrow> string \<Rightarrow> string \<Rightarrow> string \<Rightarrow> adb \<Rightarrow> acct_error + unit" where
  "validate_registration pw username email pw1 pw2 a = (
     if \<not> pw_acceptable pw pw1 None then Inl (Refused ''PASSWORD_POLICY'')
     else if \<exists>v \<in> set (accounts a). ac_email v = email then Inl (Refused ''EMAIL_TAKEN'')
     else if \<exists>v \<in> set (accounts a). ac_username v = username then Inl (Refused ''USERNAME_TAKEN'')
     else if pw1 \<noteq> pw2 then Inl (Refused ''PASSWORD_MISMATCH'')
     else Inr ())"

definition register :: "jwt_lib \<Rightarrow> pw_lib \<Rightarrow> string \<Rightarrow> string \<Rightarrow> string \<Rightarrow> string \<Rightarrow> string \<Rightarrow> nat \<Rightarrow> string list \<Rightarrow> timestamp
    \<Rightarrow> (pk \<times> string \<times> string) aop" where
  "register lib pw username email pw1 pw2 jti uuid draws now a = (case validate_registration pw username email pw1 pw2 a of
     Inl e \<Rightarrow> Inl e
   | Inr _ \<Rightarrow> rbind (create_user pw username email (pw_make pw pw1) False a) (\<lambda>u a.
       rbind (register_user lib (ac_id u) jti uuid draws now a) (\<lambda>tokens a. Inr ((ac_id u, tokens), a))))"

definition extract_client_ip :: "string option \<Rightarrow> string option \<Rightarrow> string" where
  "extract_client_ip forwarded remote = (case forwarded of
     Some f \<Rightarrow> if f = [] then (case remote of None \<Rightarrow> [] | Some r \<Rightarrow> r) else strip_by is_space (before CHR '','' f)
   | None \<Rightarrow> (case remote of None \<Rightarrow> [] | Some r \<Rightarrow> r))"

text \<open>The carts are tables of the shop; a merge that fails does not stop the login.\<close>

definition login_user :: "jwt_lib \<Rightarrow> pk \<Rightarrow> string option \<Rightarrow> (string option \<times> string option) option \<Rightarrow> string \<Rightarrow> timestamp \<Rightarrow> adb \<times> db
    \<Rightarrow> ((string \<times> string) \<times> bool) \<times> adb \<times> db" where
  "login_user lib uid session_key meta jti now = (\<lambda>(a, d).
     let (merged, d1) = (case session_key of
           None \<Rightarrow> (False, d)
         | Some key \<Rightarrow> if key = [] then (False, d)
             else (case login_merge_cart uid key d of Inl e \<Rightarrow> (False, d) | Inr (_, d1) \<Rightarrow> (True, d1)));
         a1 = upd_account now uid (\<lambda>u. u\<lparr>ac_last_login := Some now, ac_last_login_ip :=
           (case meta of None \<Rightarrow> ac_last_login_ip u | Some (f, r) \<Rightarrow> Some (extract_client_ip f r))\<rparr>) a;
         (tokens, a2) = create_tokens_for_user lib uid jti now a1
     in ((tokens, merged), a2, d1))"

definition withdraw_user :: "jwt_lib \<Rightarrow> pk \<Rightarrow> timestamp \<Rightarrow> adb \<Rightarrow> nat \<times> adb" where
  "withdraw_user lib uid now a = revoke_all_for_user lib uid None now
     (upd_account now uid (\<lambda>u. u\<lparr>ac_is_withdrawn := True, ac_withdrawn_at := Some now, ac_is_active := False\<rparr>) a)"

text \<open>The search for a free name; a number is appended until the name is free.\<close>

definition generate_unique_username :: "string \<Rightarrow> string \<Rightarrow> adb \<Rightarrow> string" where
  "generate_unique_username email provider a = (
     let username = before CHR ''@'' email @ ''_'' @ provider in free_name (map ac_username (accounts a)) username ''_'' username 1)"

text \<open>What the providers tell about a user.\<close>

record social_info =
  si_email :: "string option"
  si_name :: "string option"
  si_provider_id :: "string option"

definition social_email :: "string \<Rightarrow> social_info \<Rightarrow> string option" where
  "social_email provider info = (case si_email info of
     Some e \<Rightarrow> if e \<noteq> [] then Some e else
       (case si_provider_id info of None \<Rightarrow> None | Some i \<Rightarrow> if i = [] then None else Some (provider @ ''_'' @ i @ ''@social.local''))
   | None \<Rightarrow> (case si_provider_id info of None \<Rightarrow> None | Some i \<Rightarrow> if i = [] then None else Some (provider @ ''_'' @ i @ ''@social.local'')))"

definition social_user :: "pw_lib \<Rightarrow> string \<Rightarrow> string \<Rightarrow> string option \<Rightarrow> timestamp \<Rightarrow> (pk \<times> bool) aop" where
  "social_user pw provider email name now a = (case find (\<lambda>u. ac_email u = email) (accounts a) of
     Some u \<Rightarrow>
       if \<not> ac_is_active u then Inl (Refused ''ACCOUNT_INACTIVE'')
       else if \<not> (ac_is_email_verified u \<or> ac_has_social u) then Inl (Refused ''EMAIL_NOT_VERIFIED'')
       else Inr ((ac_id u, False), upd_account now (ac_id u) (\<lambda>v. v\<lparr>ac_last_login := Some now\<rparr>) a)
   | None \<Rightarrow> rbind (create_user pw (generate_unique_username email provider a) email (pw_unusable pw) True a) (\<lambda>u a1.
       Inr ((ac_id u, True), (case name of
          None \<Rightarrow> a1
        | Some n \<Rightarrow> if n = [] then a1 else upd_account now (ac_id u) (\<lambda>v. v\<lparr>ac_first_name := n\<rparr>) a1))))"

definition process_social_login :: "jwt_lib \<Rightarrow> pw_lib \<Rightarrow> string \<Rightarrow> social_info \<Rightarrow> string \<Rightarrow> timestamp \<Rightarrow> (pk \<times> (string \<times> string) \<times> bool) aop" where
  "process_social_login lib pw provider info jti now a = (case social_email provider info of
     None \<Rightarrow> Inl (Refused ''EMAIL_NOT_PROVIDED'')
   | Some email \<Rightarrow> rbind (social_user pw provider email (si_name info) now a) (\<lambda>(uid, is_new) a1.
       case create_tokens_for_user lib uid jti now a1 of (tokens, a2) \<Rightarrow> Inr ((uid, tokens, is_new), a2)))"

text \<open>\<^verbatim>\<open>normalize_user_info\<close>: where each provider puts the data.\<close>

definition text_of_id :: "json option \<Rightarrow> string" where
  "text_of_id v = (case v of None \<Rightarrow> ''None'' | Some JNull \<Rightarrow> ''None'' | Some (JNum n) \<Rightarrow> str_int n | Some (JStr s) \<Rightarrow> s | Some _ \<Rightarrow> [])"

definition normalize_user_info :: "string \<Rightarrow> dict \<Rightarrow> social_info" where
  "normalize_user_info provider raw = (
     if provider = ''google''
     then \<lparr>si_email = dget_str raw ''email'', si_name = dget_str raw ''name'', si_provider_id = dget_str raw ''id''\<rparr>
     else if provider = ''kakao''
     then let acc = dget_dict raw ''kakao_account''; profile = dget_dict acc ''profile''
          in \<lparr>si_email = dget_str acc ''email'', si_name = dget_str profile ''nickname'', si_provider_id = Some (text_of_id (dget raw ''id''))\<rparr>
     else if provider = ''naver''
     then let response = dget_dict raw ''response''
          in \<lparr>si_email = dget_str response ''email'',
              si_name = (case dget_str response ''name'' of Some n \<Rightarrow> if n = [] then dget_str response ''nickname'' else Some n
                         | None \<Rightarrow> dget_str response ''nickname''),
              si_provider_id = dget_str response ''id''\<rparr>
     else \<lparr>si_email = None, si_name = None, si_provider_id = None\<rparr>)"

end
