(* ===== verification/Account_Mail.thy ===== *)
theory Account_Mail
  imports Accounts
begin

text \<open>
  The tasks that send mail and clean up: \<^verbatim>\<open>src/shopping/tasks/email_tasks.py\<close>, \<^verbatim>\<open>tasks/cleanup_tasks.py\<close> (logs and tokens)
  and the log of \<^verbatim>\<open>models/email_verification.py\<close>.  The mail server is the parameter \<open>smtp\<close>; \<open>mails\<close> records
  what it accepted.  The number of retries of a task so far is an argument.
\<close>

section \<open>The log of a mail\<close>

datatype smtp_answer = Delivered | SmtpFailure | OtherFailure

type_synonym smtp = "mail \<Rightarrow> smtp_answer"

definition SENT_EMAIL_STATUSES :: "mail_status list" where
  "SENT_EMAIL_STATUSES = [MailSent, MailOpened, MailClicked, MailVerified]"

definition is_already_sent :: "email_log \<Rightarrow> bool" where
  "is_already_sent l \<longleftrightarrow> el_status l \<in> set SENT_EMAIL_STATUSES"

definition mark_as_sent :: "timestamp \<Rightarrow> email_log \<Rightarrow> email_log" where
  "mark_as_sent now l = l\<lparr>el_status := MailSent, el_sent_at := Some now\<rparr>"

definition mark_as_failed :: "timestamp \<Rightarrow> email_log \<Rightarrow> email_log" where
  "mark_as_failed now l = l\<lparr>el_status := MailFailed, el_failed_at := Some now\<rparr>"

definition mark_as_verified :: "timestamp \<Rightarrow> email_log \<Rightarrow> email_log" where
  "mark_as_verified now l = l\<lparr>el_status := MailVerified, el_verified_at := Some now\<rparr>"

definition upd_log :: "pk \<Rightarrow> (email_log \<Rightarrow> email_log) \<Rightarrow> adb \<Rightarrow> adb" where
  "upd_log k f a = a\<lparr>email_logs := rupd el_id (email_logs a) k f\<rparr>"

fun valid_transitions :: "mail_status \<Rightarrow> mail_status list" where
  "valid_transitions MailPending = [MailSent, MailFailed]"
| "valid_transitions MailSent = [MailOpened, MailClicked, MailVerified, MailFailed]"
| "valid_transitions MailFailed = []"
| "valid_transitions MailOpened = [MailClicked, MailVerified]"
| "valid_transitions MailClicked = [MailVerified]"
| "valid_transitions MailVerified = []"

definition in_order :: "timestamp option \<Rightarrow> timestamp option \<Rightarrow> bool" where
  "in_order x y = (case (x, y) of (Some s, Some t) \<Rightarrow> s \<le> t | _ \<Rightarrow> True)"

definition email_log_clean :: "email_log \<Rightarrow> adb \<Rightarrow> bool" where
  "email_log_clean l a \<longleftrightarrow>
     (case rget el_id (email_logs a) (el_id l) of
        None \<Rightarrow> True
      | Some old \<Rightarrow> el_status old = el_status l \<or> el_status l \<in> set (valid_transitions (el_status old)))
     \<and> in_order (el_sent_at l) (el_opened_at l) \<and> in_order (el_opened_at l) (el_clicked_at l)
     \<and> in_order (el_clicked_at l) (el_verified_at l)"

section \<open>Sending\<close>

definition MAIL_MAX_RETRIES :: nat where
  "MAIL_MAX_RETRIES = 3"

datatype mail_outcome = MailAccepted | AlreadySent | NoRecipient | MailRetry | MailRaised

text \<open>\<^verbatim>\<open>raise retry_with_backoff(self, e)\<close>.\<close>

definition retry_mail :: "nat \<Rightarrow> mail_outcome" where
  "retry_mail retries = (if retries < MAIL_MAX_RETRIES then MailRetry else MailRaised)"

definition deliver :: "smtp \<Rightarrow> nat \<Rightarrow> mail \<Rightarrow> pk option \<Rightarrow> timestamp \<Rightarrow> adb \<Rightarrow> mail_outcome \<times> adb" where
  "deliver smtp retries m log now a = (
     let upd = (\<lambda>f a. case log of None \<Rightarrow> a | Some k \<Rightarrow> upd_log k f a)
     in case smtp m of
          Delivered \<Rightarrow> (MailAccepted, upd (mark_as_sent now) (a\<lparr>mails := mails a @ [m]\<rparr>))
        | SmtpFailure \<Rightarrow> (retry_mail retries, upd (mark_as_failed now) a)
        | OtherFailure \<Rightarrow> (MailRaised, upd (mark_as_failed now) a))"

text \<open>The log of a verification mail belongs to its token.\<close>

definition verification_log :: "account \<Rightarrow> pk \<Rightarrow> timestamp \<Rightarrow> adb \<Rightarrow> email_log \<times> adb" where
  "verification_log u tid now a = (case find (\<lambda>l. el_token l = Some tid) (email_logs a) of
     Some l \<Rightarrow> (l, a)
   | None \<Rightarrow> new_log (Some (ac_id u)) ''verification'' (ac_email u) (Some tid) None now a)"

definition send_verification_email_task :: "smtp \<Rightarrow> nat \<Rightarrow> pk \<Rightarrow> pk \<Rightarrow> timestamp \<Rightarrow> adb \<Rightarrow> mail_outcome \<times> adb" where
  "send_verification_email_task smtp retries uid tid now a = (case (get_account a uid, rget et_id (ev_tokens a) tid) of
     (Some u, Some t) \<Rightarrow> (case verification_log u tid now a of (log, a1) \<Rightarrow>
       if is_already_sent log then (AlreadySent, a1)
       else deliver smtp retries (VerificationMail (ac_email u) (et_token t) (et_code t)) (Some (el_id log)) now a1)
   | _ \<Rightarrow> (NoRecipient, a))"

text \<open>The log of another mail belongs to the message of the queue; \<open>task_id\<close> is its id.\<close>

definition send_email_task :: "smtp \<Rightarrow> nat \<Rightarrow> string option \<Rightarrow> string \<Rightarrow> string list \<Rightarrow> pk option \<Rightarrow> string \<Rightarrow> timestamp \<Rightarrow> adb
    \<Rightarrow> mail_outcome \<times> adb" where
  "send_email_task smtp retries task_id content recipients user_id etype now a = (
     let user = (case user_id of None \<Rightarrow> None | Some k \<Rightarrow> if k = 0 then None else get_account a k);
         fresh = (\<lambda>u. new_log (Some (ac_id u)) etype (case recipients of [] \<Rightarrow> [] | r # _ \<Rightarrow> r) None task_id now a)
     in case user of
          None \<Rightarrow> deliver smtp retries (PlainMail content recipients) None now a
        | Some u \<Rightarrow>
            if etype = [] then deliver smtp retries (PlainMail content recipients) None now a
            else (case (if task_id = None \<or> task_id = Some [] then None else find (\<lambda>l. el_task_id l = task_id) (email_logs a)) of
                    Some l \<Rightarrow> if is_already_sent l then (AlreadySent, a)
                      else deliver smtp retries (PlainMail content recipients) (Some (el_id l)) now a
                  | None \<Rightarrow> (case fresh u of (l, a1) \<Rightarrow>
                      deliver smtp retries (PlainMail content recipients) (Some (el_id l)) now a1)))"

section \<open>Sending again what failed\<close>

definition EMAIL_MAX_RESENDS :: nat where
  "EMAIL_MAX_RESENDS = 3"

definition EMAIL_RESEND_AFTER_MINUTES :: int where
  "EMAIL_RESEND_AFTER_MINUTES = 10"

definition resendable :: "timestamp \<Rightarrow> email_log \<Rightarrow> bool" where
  "resendable now l \<longleftrightarrow> el_status l = MailFailed \<and> el_created_at l \<ge> now - 24 * 3600 \<and> el_type l = ''verification''
     \<and> el_resend_count l < EMAIL_MAX_RESENDS
     \<and> \<not> (case el_failed_at l of None \<Rightarrow> False | Some f \<Rightarrow> f > now - EMAIL_RESEND_AFTER_MINUTES * 60)"

record resend_result =
  rr_total :: nat
  rr_attempted :: nat
  rr_queued :: nat

definition claim_log :: "email_log \<Rightarrow> email_log" where
  "claim_log l = (if el_status l = MailFailed then l\<lparr>el_status := MailPending, el_resend_count := Suc (el_resend_count l)\<rparr> else l)"

definition resend_one :: "timestamp \<Rightarrow> email_log \<Rightarrow> resend_result \<times> adb \<Rightarrow> resend_result \<times> adb" where
  "resend_one now l = (\<lambda>(res, a). case el_token l of
     None \<Rightarrow> (res, a)
   | Some tid \<Rightarrow> (case rget et_id (ev_tokens a) tid of
       None \<Rightarrow> (res, a)
     | Some t \<Rightarrow>
         if token_expired t now then (res, a)
         else if (case el_user l of None \<Rightarrow> False | Some k \<Rightarrow> (case get_account a k of None \<Rightarrow> False | Some u \<Rightarrow> ac_is_email_verified u))
         then (res, a)
         else if (case rget el_id (email_logs a) (el_id l) of None \<Rightarrow> True | Some cur \<Rightarrow> el_status cur \<noteq> MailFailed) then (res, a)
         else let a1 = upd_log (el_id l) claim_log a; res1 = res\<lparr>rr_attempted := Suc (rr_attempted res)\<rparr>
           in case el_user l of
                None \<Rightarrow> (res1, a1)
              | Some k \<Rightarrow> (case enqueue (SendVerification k tid True) a1 of
                  Inl e \<Rightarrow> (res1, a1)
                | Inr a2 \<Rightarrow> (res1\<lparr>rr_queued := Suc (rr_queued res1)\<rparr>, a2))))"

definition retry_failed_emails_task :: "timestamp \<Rightarrow> adb \<Rightarrow> resend_result \<times> adb" where
  "retry_failed_emails_task now a = (let failed_logs = filter (resendable now) (email_logs a) in
     fold (resend_one now) failed_logs (\<lparr>rr_total = length failed_logs, rr_attempted = 0, rr_queued = 0\<rparr>, a))"

section \<open>Cleaning up\<close>

definition cleanup_old_email_logs_task :: "int \<Rightarrow> timestamp \<Rightarrow> adb \<Rightarrow> nat \<times> adb" where
  "cleanup_old_email_logs_task days now a = (
     let old = (\<lambda>l. el_created_at l < now - days * 86400 \<and> el_status l \<in> {MailSent, MailVerified, MailFailed})
     in (length (filter old (email_logs a)), a\<lparr>email_logs := filter (\<lambda>l. \<not> old l) (email_logs a)\<rparr>))"

text \<open>Deleting a token sets the reference of its logs to null.\<close>

definition delete_tokens :: "(ev_token \<Rightarrow> bool) \<Rightarrow> adb \<Rightarrow> nat \<times> adb" where
  "delete_tokens old a = (
     let gone = map et_id (filter old (ev_tokens a))
     in (length gone, a\<lparr>ev_tokens := filter (\<lambda>t. \<not> old t) (ev_tokens a),
          email_logs := map (\<lambda>l. case el_token l of None \<Rightarrow> l | Some k \<Rightarrow> if k \<in> set gone then l\<lparr>el_token := None\<rparr> else l) (email_logs a)\<rparr>))"

definition cleanup_used_tokens_task :: "int \<Rightarrow> timestamp \<Rightarrow> adb \<Rightarrow> nat \<times> adb" where
  "cleanup_used_tokens_task days now a = delete_tokens (\<lambda>t. et_is_used t
     \<and> (case et_used_at t of None \<Rightarrow> False | Some u \<Rightarrow> u < now - days * 86400)) a"

definition cleanup_expired_tokens_task :: "timestamp \<Rightarrow> adb \<Rightarrow> nat \<times> adb" where
  "cleanup_expired_tokens_task now a = delete_tokens (\<lambda>t. \<not> et_is_used t \<and> et_created_at t < now - 24 * 3600) a"

end
