(* ===== verification/Account_System.thy ===== *)
theory Account_System
  imports Account_Mail
begin

text \<open>
  The accounts as a transition system: requests, mail tasks and cleanups in any order, at times that never go back.
  The invariant says that the unique constraints of the tables hold, that a user has at most one unused reset
  token, that a token has at most one mail log, and that a mail was sent at most once.
\<close>

section \<open>What the token package promises\<close>

definition row_token :: "outstanding_token \<Rightarrow> refresh_token" where
  "row_token r = \<lparr>tk_jti = ot_jti r, tk_user = ot_user r, tk_exp = ot_expires_at r\<rparr>"

definition token_row :: "refresh_token \<Rightarrow> outstanding_token" where
  "token_row t = \<lparr>ot_jti = tk_jti t, ot_user = tk_user t, ot_expires_at = tk_exp t\<rparr>"

text \<open>
  A text the package wrote is read back until it expires or is blacklisted.  Blacklisting adds the id and says
  whether it was new; issuing a token with a new id adds its row.  Only active users may log in.
\<close>

definition jwt_ok :: "jwt_lib \<Rightarrow> bool" where
  "jwt_ok lib \<longleftrightarrow>
     (\<forall>t. jwt_text lib t \<noteq> [] \<and> jwt_id lib (jwt_text lib t) = Inr (Some (tk_jti t)))
   \<and> (\<forall>t now bl. jwt_verify lib (jwt_text lib t) now bl = (if now < tk_exp t \<and> tk_jti t \<notin> set bl then Some t else None))
   \<and> (\<forall>t rows. fst (jwt_blacklist lib t rows) = (tk_jti t \<notin> set (snd rows))
        \<and> set (fst rows) \<subseteq> set (fst (snd (jwt_blacklist lib t rows)))
        \<and> set (fst (snd (jwt_blacklist lib t rows))) \<subseteq> insert (token_row t) (set (fst rows))
        \<and> set (snd (snd (jwt_blacklist lib t rows))) = insert (tk_jti t) (set (snd rows)))
   \<and> (\<forall>t rows. set (fst rows) \<subseteq> set (fst (jwt_outstand lib t rows)) \<and> snd (jwt_outstand lib t rows) = snd rows
        \<and> (tk_jti t \<notin> ot_jti ` set (fst rows) \<longrightarrow> token_row t \<in> set (fst (jwt_outstand lib t rows))))
   \<and> (\<forall>uid jti now rows. fst (jwt_for_user lib uid jti now rows) = \<lparr>tk_jti = jti, tk_user = Some uid, tk_exp = now + REFRESH_TOKEN_LIFETIME\<rparr>
        \<and> set (fst rows) \<subseteq> set (fst (snd (jwt_for_user lib uid jti now rows))) \<and> snd (snd (jwt_for_user lib uid jti now rows)) = snd rows
        \<and> (jti \<notin> ot_jti ` set (fst rows) \<longrightarrow> token_row (fst (jwt_for_user lib uid jti now rows)) \<in> set (fst (snd (jwt_for_user lib uid jti now rows)))))
   \<and> (\<forall>u. jwt_may_login lib u \<longrightarrow> ac_is_active u)"

section \<open>The invariant\<close>

definition key_col :: "('r \<Rightarrow> pk) \<Rightarrow> 'r list \<Rightarrow> pk \<Rightarrow> bool" where
  "key_col key rs n \<longleftrightarrow> distinct (map key rs) \<and> (\<forall>r \<in> set rs. key r < n)"

fun is_mail_of :: "nat \<Rightarrow> mail \<Rightarrow> bool" where
  "is_mail_of v (VerificationMail _ w _) = (v = w)"
| "is_mail_of v (PlainMail _ _) = False"

definition mail_count :: "nat \<Rightarrow> mail list \<Rightarrow> nat" where
  "mail_count v ms = length (filter (is_mail_of v) ms)"

definition never_mailed :: "nat \<Rightarrow> adb \<Rightarrow> bool" where
  "never_mailed v a \<longleftrightarrow> mail_count v (mails a) = 0"

definition accounts_ok :: "account list \<Rightarrow> pk \<Rightarrow> bool" where
  "accounts_ok us n \<longleftrightarrow> key_col ac_id us n \<and> distinct (map ac_username us) \<and> distinct (map ac_email us)"

definition ev_ok :: "ev_token list \<Rightarrow> pk \<Rightarrow> bool" where
  "ev_ok ts n \<longleftrightarrow> key_col et_id ts n \<and> distinct (map et_token ts)"

definition logs_ok :: "email_log list \<Rightarrow> pk \<Rightarrow> bool" where
  "logs_ok ls n \<longleftrightarrow> key_col el_id ls n \<and> (\<forall>l \<in> set ls. \<forall>k. el_token l = Some k \<longrightarrow> k < n)
     \<and> (\<forall>l \<in> set ls. \<forall>m \<in> set ls. el_token l \<noteq> None \<longrightarrow> el_token l = el_token m \<longrightarrow> el_id l = el_id m)"

definition resets_ok :: "reset_token list \<Rightarrow> pk \<Rightarrow> bool" where
  "resets_ok ts n \<longleftrightarrow> key_col rs_id ts n \<and> distinct (map rs_hash ts)
     \<and> distinct (map rs_user (filter (\<lambda>t. \<not> rs_is_used t) ts))"

definition mails_ok :: "mail list \<Rightarrow> ev_token list \<Rightarrow> email_log list \<Rightarrow> bool" where
  "mails_ok ms ts ls \<longleftrightarrow> (\<forall>v. mail_count v ms \<le> 1)
     \<and> (\<forall>t \<in> set ts. mail_count (et_token t) ms \<noteq> 0 \<longrightarrow> (\<exists>l \<in> set ls. el_token l = Some (et_id t) \<and> is_already_sent l))"

definition acct_inv :: "adb \<Rightarrow> bool" where
  "acct_inv a \<longleftrightarrow> accounts_ok (accounts a) (next_key a) \<and> ev_ok (ev_tokens a) (next_key a) \<and> logs_ok (email_logs a) (next_key a)
     \<and> resets_ok (reset_tokens a) (next_key a) \<and> mails_ok (mails a) (ev_tokens a) (email_logs a)"

lemma key_col_mono: "key_col key rs n \<Longrightarrow> n \<le> m \<Longrightarrow> key_col key rs m"
  by (auto simp: key_col_def)

lemma key_col_snoc: "key_col key rs n \<Longrightarrow> key r = n \<Longrightarrow> key_col key (rs @ [r]) (Suc n)"
  by (auto simp: key_col_def less_Suc_eq)

lemma key_col_map: "(\<And>r. r \<in> set rs \<Longrightarrow> key (f r) = key r) \<Longrightarrow> key_col key (map f rs) n = key_col key rs n"
  by (simp add: key_col_def cong: map_cong)

lemma key_col_filter: "key_col key rs n \<Longrightarrow> key_col key (filter P rs) n"
  by (simp add: key_col_def distinct_map_filter)

lemma mail_count_snoc [simp]: "mail_count v (ms @ [m]) = mail_count v ms + (if is_mail_of v m then 1 else 0)"
  by (simp add: mail_count_def)

text \<open>A new key does not hurt the tables it is not used in.\<close>

lemma ok_mono:
  "accounts_ok us n \<Longrightarrow> n \<le> m \<Longrightarrow> accounts_ok us m" "ev_ok ts n \<Longrightarrow> n \<le> m \<Longrightarrow> ev_ok ts m"
  "resets_ok rs n \<Longrightarrow> n \<le> m \<Longrightarrow> resets_ok rs m" "logs_ok ls n \<Longrightarrow> n \<le> m \<Longrightarrow> logs_ok ls m"
  by (auto simp: accounts_ok_def ev_ok_def resets_ok_def logs_ok_def intro: key_col_mono)

lemma accounts_ok_map:
  "(\<And>u. ac_id (f u) = ac_id u \<and> ac_username (f u) = ac_username u \<and> ac_email (f u) = ac_email u) \<Longrightarrow> accounts_ok (map f us) n = accounts_ok us n"
  by (simp add: accounts_ok_def key_col_map comp_def)

lemma account_save_frame [simp]:
  "ac_id (account_save now u) = ac_id u" "ac_username (account_save now u) = ac_username u" "ac_email (account_save now u) = ac_email u"
  "ac_is_email_verified (account_save now u) = ac_is_email_verified u" "ac_is_active (account_save now u) = ac_is_active u"
  "ac_password (account_save now u) = ac_password u"
  by (simp_all add: account_save_def)

text \<open>What the mail invariant reads of the token table are ids and values; tokens may disappear.\<close>

lemma ev_ok_map: "(\<And>t. t \<in> set ts \<Longrightarrow> et_id (f t) = et_id t \<and> et_token (f t) = et_token t) \<Longrightarrow> ev_ok (map f ts) n = ev_ok ts n"
  by (simp add: ev_ok_def key_col_map comp_def cong: map_cong)

lemma mails_ok_map_tokens:
  "(\<And>t. t \<in> set ts \<Longrightarrow> et_id (f t) = et_id t \<and> et_token (f t) = et_token t) \<Longrightarrow> mails_ok ms (map f ts) ls = mails_ok ms ts ls"
  by (auto simp: mails_ok_def)

lemma logs_ok_map:
  assumes "\<And>l. l \<in> set ls \<Longrightarrow> el_id (f l) = el_id l \<and> (el_token (f l) = el_token l \<or> el_token (f l) = None)" "logs_ok ls n"
  shows "logs_ok (map f ls) n"
proof -
  have same: "el_token (f l) \<noteq> None \<Longrightarrow> el_token l = el_token (f l)" if "l \<in> set ls" for l
    using assms(1) [OF that] by auto
  have ids: "el_id (f l) = el_id l" if "l \<in> set ls" for l
    using assms(1) [OF that] by simp
  have one: "el_id (f l) = el_id (f m)" if "l \<in> set ls" "m \<in> set ls" "el_token (f l) \<noteq> None" "el_token (f l) = el_token (f m)" for l m
  proof -
    have "el_token l \<noteq> None \<and> el_token l = el_token m"
      using same [OF that(1)] same [OF that(2)] that(3,4) by simp
    then show ?thesis
      using assms(2) that(1,2) unfolding logs_ok_def ids [OF that(1)] ids [OF that(2)] by blast
  qed
  have old: "k < n" if "l \<in> set ls" "el_token (f l) = Some k" for l k
    using same [OF that(1)] that assms(2) by (auto simp: logs_ok_def)
  have "key_col el_id (map f ls) n"
    using assms(2) key_col_map [of ls el_id f n] ids unfolding logs_ok_def by blast
  then show ?thesis
    using one old unfolding logs_ok_def set_map ball_simps by blast
qed

lemma mails_ok_map_logs:
  assumes "\<And>l. l \<in> set ls \<Longrightarrow> is_already_sent l \<Longrightarrow> is_already_sent (f l)"
    "\<And>l t. l \<in> set ls \<Longrightarrow> t \<in> set ts \<Longrightarrow> el_token l = Some (et_id t) \<Longrightarrow> el_token (f l) = el_token l" "mails_ok ms ts ls"
  shows "mails_ok ms ts (map f ls)"
proof -
  have "\<exists>l \<in> set (map f ls). el_token l = Some (et_id t) \<and> is_already_sent l"
    if t: "t \<in> set ts" "mail_count (et_token t) ms \<noteq> 0" for t
  proof -
    obtain l where "l \<in> set ls" "el_token l = Some (et_id t)" "is_already_sent l"
      using t assms(3) unfolding mails_ok_def by blast
    then show ?thesis
      using assms(1,2) t(1) by (intro bexI [of _ "f l"]) auto
  qed
  then show ?thesis
    using assms(3) by (simp add: mails_ok_def)
qed

lemma mails_ok_subset: "mails_ok ms ts ls \<Longrightarrow> set ts' \<subseteq> set ts \<Longrightarrow> set ls \<subseteq> set ls' \<Longrightarrow> mails_ok ms ts' ls'"
  unfolding mails_ok_def by blast

section \<open>Every operation keeps it\<close>

lemma upd_account_inv:
  assumes "acct_inv a" "\<And>u. ac_id (f u) = ac_id u \<and> ac_username (f u) = ac_username u \<and> ac_email (f u) = ac_email u"
  shows "acct_inv (upd_account now k f a)"
  using assms by (auto simp: acct_inv_def upd_account_def rupd_def intro!: accounts_ok_map [THEN iffD2])

lemma invalidate_tokens_inv: "acct_inv a \<Longrightarrow> acct_inv (snd (invalidate_tokens uid a))"
  by (auto simp: acct_inv_def invalidate_tokens_def ev_ok_map mails_ok_map_tokens)

lemma ev_use_inv: "acct_inv a \<Longrightarrow> acct_inv (upd_ev_token k (mark_as_used now) a)"
  by (auto simp: acct_inv_def upd_ev_token_def mark_as_used_def rupd_def ev_ok_map mails_ok_map_tokens)

lemma complete_verification_inv: "acct_inv a \<Longrightarrow> acct_inv (complete_verification t now a)"
  unfolding complete_verification_def by (intro ev_use_inv upd_account_inv) simp_all

lemma create_ev_token_inv:
  assumes "create_ev_token uid uuid draws now a = Inr (t, b)" "acct_inv a" "never_mailed uuid a"
  shows "acct_inv b \<and> accounts b = accounts a \<and> token_rows b = token_rows a \<and> mails b = mails a"
proof -
  have b: "b = a\<lparr>ev_tokens := ev_tokens a @ [t], next_key := Suc (next_key a)\<rparr>" and t: "et_id t = next_key a" "et_token t = uuid"
    and new: "uuid \<notin> et_token ` set (ev_tokens a)"
    using assms(1) by (auto simp: create_ev_token_def Let_def split: sum.splits if_splits)
  have "ev_ok (ev_tokens a @ [t]) (Suc (next_key a))"
    using assms(2) t new by (simp add: acct_inv_def ev_ok_def key_col_snoc)
  moreover have "mails_ok (mails a) (ev_tokens a @ [t]) (email_logs a)"
    using assms(2,3) t by (auto simp: acct_inv_def mails_ok_def never_mailed_def)
  ultimately show ?thesis
    using assms(2) unfolding b by (auto simp: acct_inv_def intro: ok_mono)
qed

lemma enqueue_inv: "enqueue m a = Inr b \<Longrightarrow> acct_inv b = acct_inv a \<and> accounts b = accounts a \<and> token_rows b = token_rows a"
  by (auto simp: enqueue_def acct_inv_def split: if_splits)

lemma send_verification_email_inv:
  assumes "send_verification_email uid resend uuid draws now a = Inr (i, b)" "acct_inv a" "never_mailed uuid a"
  shows "acct_inv b \<and> accounts b = accounts a \<and> token_rows b = token_rows a"
proof -
  let ?a = "snd (invalidate_tokens uid a)"
  obtain t a1 where c: "create_ev_token uid uuid draws now ?a = Inr (t, a1)" and e: "enqueue (SendVerification uid (et_id t) resend) a1 = Inr b"
    using assms(1) by (auto simp: send_verification_email_def rbind_def of_get_def split: option.splits if_splits sum.splits)
  have "never_mailed uuid ?a" "accounts ?a = accounts a" "token_rows ?a = token_rows a"
    using assms(3) by (simp_all add: never_mailed_def invalidate_tokens_def)
  with create_ev_token_inv [OF c invalidate_tokens_inv [OF assms(2)]] enqueue_inv [OF e] show ?thesis
    by simp
qed

lemma verify_by_token_result:
  assumes "verify_by_token text now a = Inr (i, b)"
  obtains t u where "t \<in> set (ev_tokens a)" "uuid_of text = Some (et_token t)" "get_account a (et_user t) = Some u" "validate_token t u now = None"
    "b = complete_verification t now a" "i = et_user t"
proof -
  obtain uuid t u where f: "uuid_of text = Some uuid" "find (\<lambda>t. et_token t = uuid) (ev_tokens a) = Some t"
    "get_account a (et_user t) = Some u" "validate_token t u now = None" "b = complete_verification t now a" "i = ac_id u"
    using assms by (auto simp: verify_by_token_def rbind_def of_get_def split: option.splits if_splits sum.splits)
  have "t \<in> set (ev_tokens a)" "et_token t = uuid"
    using f(2) by (auto simp: find_Some_iff)
  moreover have "ac_id u = et_user t"
    using f(3) rget_Some_key unfolding get_account_def by metis
  ultimately show thesis
    using that f by simp
qed

lemma newest_in:
  assumes "newest c rs = Some r"
  shows "r \<in> set rs"
proof -
  obtain qs where "sort_key (\<lambda>r. - c r) rs = r # qs"
    using assms by (auto simp: newest_def split: list.splits)
  then have "r \<in> set (sort_key (\<lambda>r. - c r) rs)"
    by (metis list.set_intros(1))
  then show ?thesis
    by simp
qed

lemma verify_by_code_result:
  assumes "verify_by_code uid code now a = Inr (i, b)"
  obtains t u where "t \<in> set (ev_tokens a)" "et_user t = uid" "\<not> et_is_used t" "\<not> token_expired t now" "get_account a uid = Some u"
    "\<not> ac_is_email_verified u" "upper (et_code t) = upper code" "b = complete_verification t now a" "i = uid"
proof -
  obtain t u where f: "get_active_token uid a = Some t" "get_account a uid = Some u" "\<not> ac_is_email_verified u" "\<not> token_expired t now"
    "upper (et_code t) = upper code" "b = complete_verification t now a" "i = uid"
    using assms by (auto simp: verify_by_code_def rbind_def of_get_def split: option.splits if_splits sum.splits)
  have "t \<in> set (filter (\<lambda>t. \<not> et_is_used t) (tokens_of a uid))"
    using f(1) unfolding get_active_token_def by (rule newest_in)
  then show thesis
    using that f by (auto simp: tokens_of_def)
qed

lemma distinct_map_rupd:
  assumes "distinct (map g rs)" "\<And>r. r \<in> set rs \<Longrightarrow> key r = k \<Longrightarrow> g (f r) = g r \<or> g (f r) \<notin> g ` set rs" "distinct (map key rs)"
  shows "distinct (map g (rupd key rs k f))"
  using assms
proof (induction rs)
  case (Cons q rs)
  have rest: "rupd key rs k f = rs" if "key q = k"
    using Cons.prems(3) that by (intro rupd_absent) auto
  have ih: "distinct (map g (rupd key rs k f))"
    using Cons.prems by (intro Cons.IH) auto
  show ?case
  proof (cases "key q = k")
    case True
    then show ?thesis
      using Cons.prems(1) Cons.prems(2) [of q] rest by auto
  next
    case False
    have "g q \<notin> g ` set (rupd key rs k f)"
    proof
      assume "g q \<in> g ` set (rupd key rs k f)"
      then obtain r where r: "r \<in> set (rupd key rs k f)" "g r = g q"
        by force
      have notin: "g q \<notin> g ` set rs"
        using Cons.prems(1) by simp
      consider "r \<in> set rs" | p where "p \<in> set rs" "key p = k" "r = f p"
        using set_rupdD [OF r(1)] by blast
      then show False
      proof cases
        case 1
        then show False
          using notin r(2) by (metis imageI)
      next
        case 2
        then have "g r = g p \<or> g r \<notin> g ` set (q # rs)"
          using Cons.prems(2) [of p] by simp
        then show False
          using notin r(2) 2(1) by auto
      qed
    qed
    then show ?thesis
      using ih False by simp
  qed
qed simp

lemma change_email_inv:
  assumes "change_email uid email now a = Inr (i, b)" "acct_inv a"
  shows "acct_inv b"
proof -
  obtain u where u: "get_account a uid = Some u" "ac_email u = email \<or> email \<notin> ac_email ` set (accounts a)"
    and b: "b = upd_account now uid (\<lambda>v. v\<lparr>ac_email := email,
            ac_is_email_verified := (if ac_email u = email then ac_is_email_verified v else False)\<rparr>) a"
    using assms(1) by (auto simp: change_email_def rbind_def of_get_def split: option.splits if_splits)
  have "ac_email v = ac_email u" if "v \<in> set (accounts a)" "ac_id v = uid" for v
    using that u(1) assms(2) rget_in_distinct [of ac_id "accounts a" v]
    by (simp add: acct_inv_def accounts_ok_def key_col_def get_account_def)
  then have "distinct (map ac_email (accounts b))"
    unfolding b upd_account_def using assms(2) u(2)
    by (auto simp: acct_inv_def accounts_ok_def key_col_def intro!: distinct_map_rupd)
  then show ?thesis
    using assms(2) unfolding b by (auto simp: acct_inv_def accounts_ok_def upd_account_def key_col_def row_simps dest: set_rupdD)
qed

lemma acct_inv_token_rows [simp]: "acct_inv (a\<lparr>token_rows := rows\<rparr>) = acct_inv a"
  by (simp add: acct_inv_def)

lemma acct_inv_queue_up [simp]: "acct_inv (a\<lparr>queue_up := up\<rparr>) = acct_inv a"
  by (simp add: acct_inv_def)

lemma refresh_inv: "validate_and_refresh_token lib text jti now a = (i, b) \<Longrightarrow> acct_inv a \<Longrightarrow> acct_inv b"
  by (auto simp: validate_and_refresh_token_def issue_rotated_def Let_def split: sum.splits option.splits prod.splits if_splits)

lemma logout_inv: "blacklist_token lib text now a = (i, b) \<Longrightarrow> acct_inv a \<Longrightarrow> acct_inv b"
  by (auto simp: blacklist_token_def split: option.splits if_splits)

lemma revoke_inv: "acct_inv a \<Longrightarrow> acct_inv (snd (revoke_all_for_user lib uid keep now a))"
  by (simp add: revoke_all_for_user_def Let_def)

lemma new_log_inv:
  assumes "new_log user etype rcpt tok task now a = (l, b)" "acct_inv a" "\<And>k. tok = Some k \<Longrightarrow> k < next_key a \<and> (\<forall>l \<in> set (email_logs a). el_token l \<noteq> tok)"
  shows "acct_inv b \<and> accounts b = accounts a \<and> ev_tokens b = ev_tokens a \<and> mails b = mails a \<and> l \<in> set (email_logs b) \<and> el_token l = tok"
proof -
  have b: "b = a\<lparr>email_logs := email_logs a @ [l], next_key := Suc (next_key a)\<rparr>" and l: "el_id l = next_key a" "el_token l = tok"
    using assms(1) by (auto simp: new_log_def Let_def)
  have "logs_ok (email_logs a @ [l]) (Suc (next_key a))"
    using assms(2,3) l by (fastforce simp: acct_inv_def logs_ok_def key_col_snoc less_Suc_eq)
  moreover have "mails_ok (mails a) (ev_tokens a) (email_logs a @ [l])"
    using assms(2) by (auto simp: acct_inv_def intro: mails_ok_subset)
  ultimately show ?thesis
    using assms(2) l unfolding b by (auto simp: acct_inv_def intro: ok_mono)
qed

lemma use_reset_frame [simp]:
  "rs_id (use_reset now t) = rs_id t" "rs_user (use_reset now t) = rs_user t" "rs_hash (use_reset now t) = rs_hash t" "rs_is_used (use_reset now t)"
  by (simp_all add: use_reset_def)

text \<open>Using up tokens leaves the live tokens a part of what they were.\<close>

lemma resets_ok_use:
  assumes "resets_ok ts n"
  shows "resets_ok (map (\<lambda>t. if P t then use_reset now t else t) ts) n"
proof -
  have "filter (\<lambda>t. \<not> rs_is_used t) (map (\<lambda>t. if P t then use_reset now t else t) ts) = filter (\<lambda>t. \<not> P t) (filter (\<lambda>t. \<not> rs_is_used t) ts)"
    by (induction ts) auto
  moreover have "distinct (map rs_user (filter (\<lambda>t. \<not> P t) (filter (\<lambda>t. \<not> rs_is_used t) ts)))"
    using assms distinct_map_filter unfolding resets_ok_def by blast
  moreover have "map rs_hash (map (\<lambda>t. if P t then use_reset now t else t) ts) = map rs_hash ts"
    by simp
  moreover have "key_col rs_id (map (\<lambda>t. if P t then use_reset now t else t) ts) n"
    using assms by (subst key_col_map) (auto simp: resets_ok_def)
  ultimately show ?thesis
    using assms unfolding resets_ok_def by metis
qed

lemma invalidate_previous_inv: "acct_inv a \<Longrightarrow> acct_inv (invalidate_previous_tokens uid now a)"
  by (auto simp: acct_inv_def invalidate_previous_tokens_def intro: resets_ok_use)

lemma invalidate_previous_none:
  assumes "t \<in> set (reset_tokens (invalidate_previous_tokens uid now a))" "rs_user t = uid"
  shows "rs_is_used t"
proof -
  have "t \<in> (\<lambda>q. if rs_user q = uid \<and> \<not> rs_is_used q then use_reset now q else q) ` set (reset_tokens a)"
    using assms(1) by (simp add: invalidate_previous_tokens_def)
  then obtain q where "t = (if rs_user q = uid \<and> \<not> rs_is_used q then use_reset now q else q)"
    by (rule imageE)
  then show ?thesis
    using assms(2) by (cases "rs_user q = uid \<and> \<not> rs_is_used q") auto
qed

lemma generate_token_inv:
  assumes "generate_token sha uid True uuid now a = Inr (raw, b)" "acct_inv a"
  shows "acct_inv b \<and> accounts b = accounts a \<and> raw = uuid_str uuid"
proof -
  let ?a = "invalidate_previous_tokens uid now a"
  define t where "t = \<lparr>rs_id = next_key ?a, rs_user = uid, rs_hash = hash_token sha uuid, rs_created_at = now, rs_is_used = False, rs_used_at = None\<rparr>"
  have b: "b = ?a\<lparr>reset_tokens := reset_tokens ?a @ [t], next_key := Suc (next_key ?a)\<rparr>" "raw = uuid_str uuid"
    and t: "rs_id t = next_key ?a" "rs_user t = uid" "rs_hash t \<notin> rs_hash ` set (reset_tokens ?a)"
    using assms(1) by (auto simp: generate_token_def Let_def t_def split: if_splits)
  note inv = invalidate_previous_inv [OF assms(2), of uid now]
  have "resets_ok (reset_tokens ?a @ [t]) (Suc (next_key ?a))"
    using inv t invalidate_previous_none [of _ uid now a] by (fastforce simp: acct_inv_def resets_ok_def key_col_snoc)
  then show ?thesis
    using inv b by (auto simp: acct_inv_def invalidate_previous_tokens_def intro: ok_mono)
qed

lemma request_password_reset_inv:
  assumes "request_password_reset sha u uuid now a = (i, b)" "acct_inv a"
  shows "acct_inv b \<and> accounts b = accounts a"
proof (cases "generate_token sha (ac_id u) True uuid now a")
  case (Inl e)
  then show ?thesis
    using assms by (simp add: request_password_reset_def)
next
  case (Inr x)
  then obtain raw a1 where g: "generate_token sha (ac_id u) True uuid now a = Inr (raw, a1)"
    by (cases x) simp
  note inv = generate_token_inv [OF g assms(2)]
  show ?thesis
  proof (cases "enqueue (SendEmail raw [ac_email u] (ac_id u) ''password_reset'') a1")
    case (Inl e)
    then show ?thesis
      using assms(1) g inv by (simp add: request_password_reset_def)
  next
    case (Inr a2)
    then have b: "snd (new_log (Some (ac_id u)) ''password_reset'' (ac_email u) None None now a2) = b"
      using assms(1) g by (simp add: request_password_reset_def)
    then obtain l where "new_log (Some (ac_id u)) ''password_reset'' (ac_email u) None None now a2 = (l, b)"
      by (metis prod.collapse)
    then show ?thesis
      using new_log_inv [of "Some (ac_id u)" "''password_reset''" "ac_email u" None None now a2 l b] enqueue_inv [OF Inr] inv by simp
  qed
qed

lemma close_reset_logs_frame [simp]:
  "el_id (close_reset_logs uid since now l) = el_id l" "el_token (close_reset_logs uid since now l) = el_token l"
  "is_already_sent (close_reset_logs uid since now l) = is_already_sent l"
  by (simp_all add: close_reset_logs_def is_already_sent_def SENT_EMAIL_STATUSES_def)

lemma close_reset_logs_inv: "acct_inv a \<Longrightarrow> acct_inv (a\<lparr>email_logs := map (close_reset_logs uid since now) (email_logs a)\<rparr>)"
  by (auto simp: acct_inv_def intro!: logs_ok_map mails_ok_map_logs)

lemma confirm_password_reset_inv:
  assumes "acct_inv a"
  shows "acct_inv (confirm_password_reset lib pw u t new now a)"
proof -
  have use: "acct_inv (b\<lparr>reset_tokens := rupd rs_id (reset_tokens b) k (use_reset now)\<rparr>)" if "acct_inv b" for b k
    using that by (auto simp: acct_inv_def rupd_def intro: resets_ok_use)
  show ?thesis
    unfolding confirm_password_reset_def Let_def by (intro revoke_inv close_reset_logs_inv use upd_account_inv assms) simp_all
qed

lemma reset_password_result:
  assumes "reset_password lib pw sha email text pw1 pw2 now a = Inr (i, b)"
  obtains u t uuid where "u \<in> set (accounts a)" "ac_email u = lower email" "ac_is_active u" "\<not> ac_is_withdrawn u" "uuid_of text = Some uuid"
    "verify_token sha (ac_id u) (uuid_str uuid) now a = Some t" "b = confirm_password_reset lib pw u t pw1 now a" "i = ac_id u"
proof -
  obtain u t uuid where f: "find (\<lambda>u. ac_email u = lower email) (accounts a) = Some u" "ac_is_active u" "\<not> ac_is_withdrawn u" "uuid_of text = Some uuid"
    "verify_token sha (ac_id u) (uuid_str uuid) now a = Some t" "b = confirm_password_reset lib pw u t pw1 now a" "i = ac_id u"
    using assms by (auto simp: reset_password_def validate_reset_confirm_def split: option.splits if_splits sum.splits prod.splits)
  have "u \<in> set (accounts a)" "ac_email u = lower email"
    using f(1) by (auto simp: find_Some_iff)
  then show thesis
    using that f by blast
qed

lemma change_password_inv: "change_password lib pw uid old pw1 pw2 keep now a = Inr (i, b) \<Longrightarrow> acct_inv a \<Longrightarrow> acct_inv b"
  by (auto simp: change_password_def rbind_def of_get_def split: option.splits if_splits intro!: revoke_inv upd_account_inv)

lemma create_tokens_inv:
  "create_tokens_for_user lib uid jti now a = (ts, b) \<Longrightarrow> acct_inv b = acct_inv a \<and> accounts b = accounts a \<and> mails b = mails a"
  by (auto simp: create_tokens_for_user_def split: prod.splits)

lemma create_user_inv:
  assumes "create_user pw name email pwd verified a = Inr (u, b)" "acct_inv a"
  shows "acct_inv b \<and> accounts b = accounts a @ [u] \<and> ac_id u = next_key a \<and> mails b = mails a"
proof -
  have b: "b = a\<lparr>accounts := accounts a @ [u], next_key := Suc (next_key a)\<rparr>" and u: "ac_id u = next_key a"
    and new: "ac_username u \<notin> ac_username ` set (accounts a)" "ac_email u \<notin> ac_email ` set (accounts a)"
    using assms(1) by (auto simp: create_user_def Let_def split: if_splits)
  have "accounts_ok (accounts a @ [u]) (Suc (next_key a))"
    using assms(2) u new by (simp add: acct_inv_def accounts_ok_def key_col_snoc)
  then show ?thesis
    using assms(2) u unfolding b by (auto simp: acct_inv_def intro: ok_mono)
qed

lemma register_inv:
  assumes "register lib pw name email pw1 pw2 jti uuid draws now a = Inr (i, b)" "acct_inv a" "never_mailed uuid a"
  shows "acct_inv b \<and> (\<exists>u. accounts b = accounts a @ [u] \<and> ac_id u = next_key a)"
proof -
  obtain u a1 ts where c: "create_user pw name email (pw_make pw pw1) False a = Inr (u, a1)"
    and r: "register_user lib (ac_id u) jti uuid draws now a1 = Inr (ts, b)"
    using assms(1) by (auto simp: register_def rbind_def split: sum.splits prod.splits)
  obtain a2 where t: "create_tokens_for_user lib (ac_id u) jti now a1 = (ts, a2)"
    and r2: "rbind (create_ev_token (ac_id u) uuid draws now a2) (\<lambda>t a2. case enqueue (SendVerification (ac_id u) (et_id t) False) a2 of
         Inl e \<Rightarrow> Inl e | Inr a3 \<Rightarrow> Inr (ts, a3)) = Inr (ts, b)"
    using r by (cases "create_tokens_for_user lib (ac_id u) jti now a1")
      (auto simp: register_user_def rbind_def split: sum.splits prod.splits)
  obtain tok a3 where v: "create_ev_token (ac_id u) uuid draws now a2 = Inr (tok, a3)" "enqueue (SendVerification (ac_id u) (et_id tok) False) a3 = Inr b"
    using r2 by (auto simp: rbind_def split: sum.splits prod.splits)
  show ?thesis
    using create_user_inv [OF c assms(2)] create_tokens_inv [OF t] create_ev_token_inv [OF v(1)] enqueue_inv [OF v(2)] assms(3)
    by (simp add: never_mailed_def)
qed

lemma login_user_result:
  assumes "login_user lib uid key meta jti now (a, d) = (i, b, e)"
  obtains f ts where "create_tokens_for_user lib uid jti now (upd_account now uid f a) = (ts, b)"
    "\<And>u. ac_id (f u) = ac_id u \<and> ac_username (f u) = ac_username u \<and> ac_email (f u) = ac_email u \<and> ac_is_email_verified (f u) = ac_is_email_verified u"
proof -
  let ?f = "\<lambda>u. u\<lparr>ac_last_login := Some now, ac_last_login_ip :=
           (case meta of None \<Rightarrow> ac_last_login_ip u | Some (f, r) \<Rightarrow> Some (extract_client_ip f r))\<rparr>"
  obtain ts b1 where c: "create_tokens_for_user lib uid jti now (upd_account now uid ?f a) = (ts, b1)"
    by (cases "create_tokens_for_user lib uid jti now (upd_account now uid ?f a)")
  then have "b1 = b"
    using assms by (auto simp: login_user_def Let_def split: prod.splits)
  with c show thesis
    by (intro that [of ?f ts]) simp_all
qed

lemma login_inv:
  assumes "login_user lib uid key meta jti now (a, d) = (i, b, e)" "acct_inv a"
  shows "acct_inv b"
proof -
  obtain f ts where "create_tokens_for_user lib uid jti now (upd_account now uid f a) = (ts, b)" "acct_inv (upd_account now uid f a)"
    using login_user_result [OF assms(1)] upd_account_inv [OF assms(2)] by metis
  then show ?thesis
    using create_tokens_inv by blast
qed

lemma withdraw_inv:
  assumes "withdraw_user lib uid now a = (i, b)" "acct_inv a"
  shows "acct_inv b"
proof -
  have "acct_inv (snd (withdraw_user lib uid now a))"
    unfolding withdraw_user_def by (intro revoke_inv upd_account_inv assms(2)) simp
  then show ?thesis
    using assms(1) by simp
qed

lemma social_inv:
  assumes "process_social_login lib pw provider info jti now a = Inr (i, b)" "acct_inv a"
  shows "acct_inv b"
proof -
  obtain email x a1 ts where s: "social_user pw provider email (si_name info) now a = Inr (x, a1)" "create_tokens_for_user lib (fst x) jti now a1 = (ts, b)"
    using assms(1) by (auto simp: process_social_login_def rbind_def split: option.splits sum.splits prod.splits)
  have "acct_inv a1"
  proof (cases "find (\<lambda>u. ac_email u = email) (accounts a)")
    case None
    then obtain u a2 where c: "create_user pw (generate_unique_username email provider a) email (pw_unusable pw) True a = Inr (u, a2)"
      and a1: "a1 = a2 \<or> (\<exists>n. a1 = upd_account now (ac_id u) (\<lambda>v. v\<lparr>ac_first_name := n\<rparr>) a2)"
      using s(1) by (auto simp: social_user_def rbind_def split: sum.splits prod.splits option.splits if_splits)
    show ?thesis
      using a1 create_user_inv [OF c assms(2)] by (auto intro: upd_account_inv)
  next
    case (Some u)
    then show ?thesis
      using s(1) assms(2) by (auto simp: social_user_def split: if_splits intro!: upd_account_inv)
  qed
  then show ?thesis
    using create_tokens_inv [OF s(2)] by simp
qed

lemma upd_log_inv:
  assumes "acct_inv a" "\<And>l. el_id (f l) = el_id l \<and> el_token (f l) = el_token l"
    "\<And>l. l \<in> set (email_logs a) \<Longrightarrow> el_id l = k \<Longrightarrow> is_already_sent l \<Longrightarrow> is_already_sent (f l)"
  shows "acct_inv (upd_log k f a)"
proof -
  let ?g = "\<lambda>l. if el_id l = k then f l else l"
  have "el_id (?g l) = el_id l" "el_token (?g l) = el_token l" for l
    using assms(2) by simp_all
  then have "logs_ok (map ?g (email_logs a)) (next_key a)" "mails_ok (mails a) (ev_tokens a) (map ?g (email_logs a))"
    using assms(1,3) unfolding acct_inv_def by (blast intro: logs_ok_map, intro mails_ok_map_logs) simp_all
  then show ?thesis
    using assms(1) by (simp add: acct_inv_def upd_log_def rupd_def)
qed

lemma mark_frame [simp]:
  "el_id (mark_as_sent now l) = el_id l" "el_token (mark_as_sent now l) = el_token l" "is_already_sent (mark_as_sent now l)"
  "el_id (mark_as_failed now l) = el_id l" "el_token (mark_as_failed now l) = el_token l"
  "el_id (claim_log l) = el_id l" "el_token (claim_log l) = el_token l" "is_already_sent (claim_log l) = is_already_sent l"
  by (simp_all add: mark_as_sent_def mark_as_failed_def claim_log_def is_already_sent_def SENT_EMAIL_STATUSES_def)

text \<open>A mail that belongs to no token of the table, or to one whose log was not sent yet, may be delivered.\<close>

lemma deliver_inv:
  assumes "deliver smtp retries m log now a = (i, b)" "acct_inv a"
    and log: "\<And>k l. log = Some k \<Longrightarrow> l \<in> set (email_logs a) \<Longrightarrow> el_id l = k \<Longrightarrow> \<not> is_already_sent l"
    and m: "\<And>v. is_mail_of v m \<Longrightarrow> mail_count v (mails a) = 0 \<and> (\<exists>t k. t \<in> set (ev_tokens a) \<and> et_token t = v \<and> log = Some k
        \<and> (\<exists>l \<in> set (email_logs a). el_id l = k \<and> el_token l = Some (et_id t)))"
  shows "acct_inv b \<and> accounts b = accounts a"
proof -
  have failed: "acct_inv (case log of None \<Rightarrow> a | Some k \<Rightarrow> upd_log k (mark_as_failed now) a)"
    using assms(2) log by (auto split: option.split intro!: upd_log_inv)
  have sent: "acct_inv (case log of None \<Rightarrow> a\<lparr>mails := mails a @ [m]\<rparr> | Some k \<Rightarrow> upd_log k (mark_as_sent now) (a\<lparr>mails := mails a @ [m]\<rparr>))"
  proof -
    let ?c = "case log of None \<Rightarrow> a | Some k \<Rightarrow> upd_log k (mark_as_sent now) a"
    have c: "acct_inv ?c"
      using assms(2) by (auto split: option.split intro!: upd_log_inv)
    have "mails_ok (mails a @ [m]) (ev_tokens a) (email_logs ?c)"
      unfolding mails_ok_def
    proof (intro conjI allI ballI impI)
      fix v show "mail_count v (mails a @ [m]) \<le> 1"
        using assms(2) m by (cases "is_mail_of v m") (simp_all add: acct_inv_def mails_ok_def)
    next
      fix t assume t: "t \<in> set (ev_tokens a)" "mail_count (et_token t) (mails a @ [m]) \<noteq> 0"
      show "\<exists>l \<in> set (email_logs ?c). el_token l = Some (et_id t) \<and> is_already_sent l"
      proof (cases "is_mail_of (et_token t) m")
        case True
        then obtain t' k l where k: "t' \<in> set (ev_tokens a)" "et_token t' = et_token t" "log = Some k" "l \<in> set (email_logs a)" "el_id l = k"
          "el_token l = Some (et_id t')"
          using m by blast
        then have "t' = t"
          using t(1) assms(2) by (auto simp: acct_inv_def ev_ok_def distinct_map dest: inj_onD)
        then show ?thesis
          using k by (auto simp: upd_log_def rupd_def intro!: bexI [of _ "mark_as_sent now l"] image_eqI [of _ _ l])
      next
        case False
        then show ?thesis
          using t c by (auto simp: acct_inv_def mails_ok_def upd_log_def split: option.splits)
      qed
    qed
    then show ?thesis
      using c by (auto simp: acct_inv_def upd_log_def split: option.splits)
  qed
  show ?thesis
    using assms(1) failed sent by (auto simp: deliver_def Let_def upd_log_def split: smtp_answer.splits option.splits)
qed

lemma key_col_inj: "key_col key rs n \<Longrightarrow> r \<in> set rs \<Longrightarrow> q \<in> set rs \<Longrightarrow> key r = key q \<Longrightarrow> r = q"
  by (auto simp: key_col_def distinct_map dest: inj_onD)

lemma send_verification_email_task_inv:
  assumes "send_verification_email_task smtp retries uid tid now a = (i, b)" "acct_inv a"
  shows "acct_inv b \<and> accounts b = accounts a"
proof (cases "\<exists>u t. get_account a uid = Some u \<and> rget et_id (ev_tokens a) tid = Some t")
  case False
  then show ?thesis
    using assms by (auto simp: send_verification_email_task_def split: option.splits prod.splits)
next
  case True
  then obtain u t where ut: "get_account a uid = Some u" "rget et_id (ev_tokens a) tid = Some t"
    by blast
  obtain log a1 where l: "verification_log u tid now a = (log, a1)"
    by (metis surj_pair)
  have t: "t \<in> set (ev_tokens a)" "et_id t = tid"
    using ut(2) rget_Some_in rget_Some_key by metis+
  then have "tid < next_key a"
    using assms(2) by (auto simp: acct_inv_def ev_ok_def key_col_def)
  then have a1: "acct_inv a1 \<and> accounts a1 = accounts a \<and> ev_tokens a1 = ev_tokens a \<and> mails a1 = mails a \<and> log \<in> set (email_logs a1) \<and> el_token log = Some tid"
    using l assms(2) new_log_inv [of "Some (ac_id u)" "''verification''" "ac_email u" "Some tid" None now a log a1]
    by (auto simp: verification_log_def find_None_iff find_Some_iff split: option.splits)
  show ?thesis
  proof (cases "is_already_sent log")
    case True
    then show ?thesis
      using assms(1) ut l a1 by (auto simp: send_verification_email_task_def)
  next
    case False
    have run: "deliver smtp retries (VerificationMail (ac_email u) (et_token t) (et_code t)) (Some (el_id log)) now a1 = (i, b)"
      using assms(1) ut l False by (simp add: send_verification_email_task_def)
    have logs: "logs_ok (email_logs a1) (next_key a1)"
      using a1 by (simp add: acct_inv_def)
    then have only: "m = log" if "m \<in> set (email_logs a1)" "el_id m = el_id log \<or> el_token m = Some tid" for m
      using that a1 key_col_inj [of el_id "email_logs a1"] unfolding logs_ok_def by (metis option.distinct(1))
    have none: "mail_count (et_token t) (mails a1) = 0"
    proof (rule ccontr)
      assume "mail_count (et_token t) (mails a1) \<noteq> 0"
      then obtain m where "m \<in> set (email_logs a1)" "el_token m = Some (et_id t)" "is_already_sent m"
        using a1 t(1) unfolding acct_inv_def mails_ok_def by metis
      then show False
        using only [of m] t(2) False by simp
    qed
    have "acct_inv b \<and> accounts b = accounts a1"
    proof (rule deliver_inv [OF run])
      fix v assume "is_mail_of v (VerificationMail (ac_email u) (et_token t) (et_code t))"
      then show "mail_count v (mails a1) = 0 \<and> (\<exists>t k. t \<in> set (ev_tokens a1) \<and> et_token t = v \<and> Some (el_id log) = Some k
        \<and> (\<exists>l \<in> set (email_logs a1). el_id l = k \<and> el_token l = Some (et_id t)))"
        using none t a1 by auto
    qed (use a1 only False in auto)
    then show ?thesis
      using a1 by simp
  qed
qed

lemma send_email_task_inv:
  assumes "send_email_task smtp retries task content rcpts user etype now a = (i, b)" "acct_inv a"
  shows "acct_inv b \<and> accounts b = accounts a"
proof -
  have plain: "acct_inv b \<and> accounts b = accounts c" if "deliver smtp retries (PlainMail content rcpts) log now c = (i, b)" "acct_inv c"
    "\<And>k l. log = Some k \<Longrightarrow> l \<in> set (email_logs c) \<Longrightarrow> el_id l = k \<Longrightarrow> \<not> is_already_sent l" for log c
    using deliver_inv [OF that] by simp
  have found: "\<not> is_already_sent m" if "l \<in> set (email_logs c)" "\<not> is_already_sent l" "m \<in> set (email_logs c)" "el_id m = el_id l" "acct_inv c" for l m c
    using that key_col_inj [of el_id "email_logs c"] unfolding acct_inv_def logs_ok_def by metis
  have fresh: "acct_inv b \<and> accounts b = accounts a" if "new_log (Some k) etype r None task now a = (l, c)"
    "deliver smtp retries (PlainMail content rcpts) (Some (el_id l)) now c = (i, b)" for k r l c
  proof -
    have c: "acct_inv c \<and> accounts c = accounts a \<and> l \<in> set (email_logs c)" "\<not> is_already_sent l"
      using new_log_inv [OF that(1) assms(2)] that(1) by (auto simp: new_log_def Let_def is_already_sent_def SENT_EMAIL_STATUSES_def)
    then show ?thesis
      using plain [OF that(2)] found [of l c] by auto
  qed
  have old: "acct_inv b \<and> accounts b = accounts a" if "find (\<lambda>l. el_task_id l = task) (email_logs a) = Some l" "\<not> is_already_sent l"
    "deliver smtp retries (PlainMail content rcpts) (Some (el_id l)) now a = (i, b)" for l
    using plain [OF that(3) assms(2)] found [of l a] that(1,2) assms(2) by (auto simp: find_Some_iff)
  show ?thesis
    using assms plain [of None a] fresh old
    by (fastforce simp: send_email_task_def Let_def split: option.splits if_splits prod.splits)
qed

lemma resend_one_inv: "resend_one now l (res, a) = (res', b) \<Longrightarrow> acct_inv a \<Longrightarrow> acct_inv b \<and> accounts b = accounts a"
  using enqueue_inv [of _ "upd_log (el_id l) claim_log a"] upd_log_inv [of a claim_log "el_id l"]
  by (fastforce simp: resend_one_def Let_def upd_log_def split: option.splits if_splits sum.splits)

lemma sweep_inv:
  assumes "retry_failed_emails_task now a = (i, b)" "acct_inv a"
  shows "acct_inv b \<and> accounts b = accounts a"
proof -
  have "acct_inv (snd (fold (resend_one now) ls (res, a))) \<and> accounts (snd (fold (resend_one now) ls (res, a))) = accounts a" for ls res
    using assms(2)
  proof (induction ls arbitrary: res a)
    case (Cons l ls)
    obtain res' c where c: "resend_one now l (res, a) = (res', c)"
      by (metis surj_pair)
    show ?case
      using Cons.IH [of c res'] resend_one_inv [OF c Cons.prems] c by simp
  qed simp
  then show ?thesis
    using assms(1) unfolding retry_failed_emails_task_def Let_def by (metis snd_conv)
qed

lemma delete_tokens_inv: 
  assumes "acct_inv a"
  shows "delete_tokens old a = (i, b) \<Longrightarrow> acct_inv b \<and> accounts b = accounts a"
proof -
  let ?gone = "map et_id (filter old (ev_tokens a))"
  define f :: "email_log \<Rightarrow> email_log" where "f = (\<lambda>l. case el_token l of None \<Rightarrow> l | Some k \<Rightarrow> if k \<in> set ?gone then l\<lparr>el_token := None\<rparr> else l)"
  have frame: "el_id (f l) = el_id l \<and> (el_token (f l) = el_token l \<or> el_token (f l) = None) \<and> is_already_sent (f l) = is_already_sent l" for l
    by (simp add: f_def is_already_sent_def split: option.splits)
  have keep: "el_token (f l) = el_token l" if "t \<in> set (filter (\<lambda>t. \<not> old t) (ev_tokens a))" "el_token l = Some (et_id t)" for l t
  proof -
    have "et_id q \<noteq> et_id t" if "q \<in> set (ev_tokens a)" "old q" for q
    proof
      assume "et_id q = et_id t"
      then have "q = t"
        using assms that(1) \<open>t \<in> _\<close> key_col_inj [of et_id "ev_tokens a" "next_key a" q t] by (simp add: acct_inv_def ev_ok_def)
      then show False
        using that(2) \<open>t \<in> _\<close> by simp
    qed
    then have "et_id t \<notin> set ?gone"
      by auto metis
    then show ?thesis
      using that(2) by (simp add: f_def)
  qed
  have old: "logs_ok (email_logs a) (next_key a)" "mails_ok (mails a) (filter (\<lambda>t. \<not> old t) (ev_tokens a)) (email_logs a)"
    using assms mails_ok_subset [of "mails a" "ev_tokens a" "email_logs a" "filter (\<lambda>t. \<not> old t) (ev_tokens a)" "email_logs a"]
    by (auto simp: acct_inv_def)
  have "logs_ok (map f (email_logs a)) (next_key a)"
    by (rule logs_ok_map [OF _ old(1)]) (simp only: frame simp_thms)
  moreover have "ev_ok (filter (\<lambda>t. \<not> old t) (ev_tokens a)) (next_key a)"
    using assms by (simp add: acct_inv_def ev_ok_def key_col_filter distinct_map_filter)
  moreover have "mails_ok (mails a) (filter (\<lambda>t. \<not> old t) (ev_tokens a)) (map f (email_logs a))"
    by (rule mails_ok_map_logs [OF _ _ old(2)]) (simp only: frame, erule (1) keep)
  ultimately show "delete_tokens old a = (i, b) \<Longrightarrow> acct_inv b \<and> accounts b = accounts a"
    using assms unfolding acct_inv_def delete_tokens_def Let_def f_def by auto
qed


section \<open>Steps\<close>

inductive account_step :: "jwt_lib \<Rightarrow> pw_lib \<Rightarrow> (string \<Rightarrow> string) \<Rightarrow> timestamp \<times> adb \<Rightarrow> timestamp \<times> adb \<Rightarrow> bool"
  for lib pw sha where
  wait: "now \<le> later \<Longrightarrow> account_step lib pw sha (now, a) (later, a)"
| broker: "account_step lib pw sha (now, a) (now, a\<lparr>queue_up := up\<rparr>)"
| send: "send_verification_email uid resend uuid draws now a = Inr (i, b) \<Longrightarrow> never_mailed uuid a
    \<Longrightarrow> account_step lib pw sha (now, a) (now, b)"
| invalidate: "account_step lib pw sha (now, a) (now, snd (invalidate_tokens uid a))"
| by_token: "verify_by_token text now a = Inr (i, b) \<Longrightarrow> account_step lib pw sha (now, a) (now, b)"
| by_code: "verify_by_code uid code now a = Inr (i, b) \<Longrightarrow> account_step lib pw sha (now, a) (now, b)"
| email: "change_email uid email now a = Inr (i, b) \<Longrightarrow> account_step lib pw sha (now, a) (now, b)"
| refresh: "validate_and_refresh_token lib text jti now a = (i, b) \<Longrightarrow> account_step lib pw sha (now, a) (now, b)"
| logout: "blacklist_token lib text now a = (i, b) \<Longrightarrow> account_step lib pw sha (now, a) (now, b)"
| request: "u \<in> set (accounts a) \<Longrightarrow> request_password_reset sha u uuid now a = (i, b) \<Longrightarrow> account_step lib pw sha (now, a) (now, b)"
| reset: "reset_password lib pw sha email text pw1 pw2 now a = Inr (i, b) \<Longrightarrow> account_step lib pw sha (now, a) (now, b)"
| change: "change_password lib pw uid old pw1 pw2 keep now a = Inr (i, b) \<Longrightarrow> account_step lib pw sha (now, a) (now, b)"
| register: "register lib pw username email pw1 pw2 jti uuid draws now a = Inr (i, b) \<Longrightarrow> never_mailed uuid a
    \<Longrightarrow> account_step lib pw sha (now, a) (now, b)"
| login: "login_user lib uid key meta jti now (a, d) = (i, b, e) \<Longrightarrow> account_step lib pw sha (now, a) (now, b)"
| withdraw: "withdraw_user lib uid now a = (i, b) \<Longrightarrow> account_step lib pw sha (now, a) (now, b)"
| social: "process_social_login lib pw provider info jti now a = Inr (i, b) \<Longrightarrow> account_step lib pw sha (now, a) (now, b)"
| mail: "send_verification_email_task smtp retries uid tid now a = (i, b) \<Longrightarrow> account_step lib pw sha (now, a) (now, b)"
| other_mail: "send_email_task smtp retries task content rcpts user etype now a = (i, b) \<Longrightarrow> account_step lib pw sha (now, a) (now, b)"
| sweep: "retry_failed_emails_task now a = (i, b) \<Longrightarrow> account_step lib pw sha (now, a) (now, b)"
| drop_used: "cleanup_used_tokens_task days now a = (i, b) \<Longrightarrow> account_step lib pw sha (now, a) (now, b)"
| drop_expired: "cleanup_expired_tokens_task now a = (i, b) \<Longrightarrow> account_step lib pw sha (now, a) (now, b)"

section \<open>Reachable states\<close>

definition no_accounts :: "timestamp \<times> adb \<Rightarrow> bool" where
  "no_accounts s \<longleftrightarrow> accounts (snd s) = [] \<and> ev_tokens (snd s) = [] \<and> email_logs (snd s) = [] \<and> reset_tokens (snd s) = [] \<and> mails (snd s) = []
     \<and> token_rows (snd s) = ([], [])"

lemma account_step_inv: "account_step lib pw sha (now, a) (later, b) \<Longrightarrow> acct_inv a \<Longrightarrow> acct_inv b"
proof (cases rule: account_step.cases, assumption)
qed (auto simp: invalidate_tokens_inv cleanup_used_tokens_task_def cleanup_expired_tokens_task_def
    dest: refresh_inv logout_inv send_verification_email_inv change_email_inv request_password_reset_inv change_password_inv register_inv login_inv
      withdraw_inv social_inv send_verification_email_task_inv send_email_task_inv sweep_inv delete_tokens_inv
    elim!: verify_by_token_result verify_by_code_result reset_password_result intro: complete_verification_inv confirm_password_reset_inv)

interpretation account_system: transition_system no_accounts "account_step lib pw sha" "\<lambda>s. acct_inv (snd s)" for lib pw sha
proof
  fix s assume "no_accounts s"
  then show "acct_inv (snd s)"
    by (simp add: no_accounts_def acct_inv_def accounts_ok_def ev_ok_def logs_ok_def resets_ok_def mails_ok_def key_col_def mail_count_def)
next
  fix s t assume "acct_inv (snd s)" "account_step lib pw sha s t"
  then show "acct_inv (snd t)"
    using account_step_inv by (metis prod.collapse)
qed

end
