(* ===== verification/Account_Properties.thy ===== *)
theory Account_Properties
  imports Account_System
begin

text \<open>
  What the accounts guarantee: sessions end when they should, only the newest reset link works and only once, a
  verification mail is sent once, and an address is verified only with a token of its user.
\<close>

section \<open>Sessions\<close>

text \<open>What the operations do to the tables of the token package.\<close>

lemma same_rows:
  "token_rows (upd_account now k f a) = token_rows a" "token_rows (snd (invalidate_tokens uid a)) = token_rows a"
  "token_rows (complete_verification t now a) = token_rows a" "token_rows (invalidate_previous_tokens uid now a) = token_rows a"
  "token_rows (upd_log k g a) = token_rows a" "token_rows (upd_ev_token k h a) = token_rows a"
  by (simp_all add: upd_account_def invalidate_tokens_def complete_verification_def upd_ev_token_def invalidate_previous_tokens_def upd_log_def)

lemma rows_create_ev: "create_ev_token uid uuid draws now a = Inr (t, b) \<Longrightarrow> token_rows b = token_rows a"
  by (auto simp: create_ev_token_def Let_def split: sum.splits if_splits)

lemma rows_enqueue: "enqueue m a = Inr b \<Longrightarrow> token_rows b = token_rows a"
  by (auto simp: enqueue_def split: if_splits)

lemma rows_send: "send_verification_email uid resend uuid draws now a = Inr (i, b) \<Longrightarrow> token_rows b = token_rows a"
  by (auto simp: send_verification_email_def rbind_def of_get_def same_rows dest!: rows_create_ev rows_enqueue
      split: option.splits if_splits sum.splits)

lemma rows_change_email: "change_email uid email now a = Inr (i, b) \<Longrightarrow> token_rows b = token_rows a"
  by (auto simp: change_email_def rbind_def of_get_def same_rows split: option.splits if_splits)

lemma rows_new_log: "token_rows (snd (new_log user etype rcpt tok task now a)) = token_rows a"
  by (simp add: new_log_def Let_def)

lemma rows_request: "request_password_reset sha u uuid now a = (i, b) \<Longrightarrow> token_rows b = token_rows a"
  by (auto simp: request_password_reset_def generate_token_def Let_def rows_new_log same_rows dest!: rows_enqueue
      split: sum.splits prod.splits if_splits)

lemma rows_deliver: "deliver smtp retries m log now a = (i, b) \<Longrightarrow> token_rows b = token_rows a"
  by (auto simp: deliver_def Let_def upd_log_def split: smtp_answer.splits option.splits)

lemma rows_verification_log: "token_rows (snd (verification_log u tid now a)) = token_rows a"
  by (simp add: verification_log_def rows_new_log split: option.split)

lemma rows_mail: "send_verification_email_task smtp retries uid tid now a = (i, b) \<Longrightarrow> token_rows b = token_rows a"
  using rows_verification_log by (auto simp: send_verification_email_task_def dest!: rows_deliver split: option.splits prod.splits if_splits)
    (metis snd_conv)+

lemma rows_other_mail: "send_email_task smtp retries task content rcpts user etype now a = (i, b) \<Longrightarrow> token_rows b = token_rows a"
  by (auto simp: send_email_task_def Let_def dest!: rows_deliver split: option.splits prod.splits if_splits) (auto simp: new_log_def Let_def)

lemma rows_sweep:
  assumes "retry_failed_emails_task now a = (i, b)"
  shows "token_rows b = token_rows a"
proof -
  have one: "token_rows (snd (resend_one now l s)) = token_rows (snd s)" for l s
    by (cases s) (auto simp: resend_one_def Let_def same_rows dest!: rows_enqueue split: option.splits if_splits sum.splits)
  have "token_rows (snd (fold (resend_one now) ls s)) = token_rows (snd s)" for ls s
    by (induction ls arbitrary: s) (simp_all add: one)
  from this [of "filter (resendable now) (email_logs a)" "(\<lparr>rr_total = length (filter (resendable now) (email_logs a)), rr_attempted = 0, rr_queued = 0\<rparr>, a)"]
  show ?thesis
    using assms unfolding retry_failed_emails_task_def Let_def by simp
qed

lemma rows_delete: "delete_tokens old a = (i, b) \<Longrightarrow> token_rows b = token_rows a"
  by (auto simp: delete_tokens_def Let_def)

text \<open>Nothing leaves the blacklist, and no issued token leaves the table.\<close>

definition rows_grow :: "adb \<Rightarrow> adb \<Rightarrow> bool" where
  "rows_grow a b \<longleftrightarrow> set (fst (token_rows a)) \<subseteq> set (fst (token_rows b)) \<and> set (blacklisted a) \<subseteq> set (blacklisted b)"

lemma grow_eq: "token_rows b = token_rows a \<Longrightarrow> rows_grow a b"
  by (simp add: rows_grow_def)

lemma grow_trans: "rows_grow a b \<Longrightarrow> rows_grow b c \<Longrightarrow> rows_grow a c"
  by (auto simp: rows_grow_def)

lemma grow_revoke: "rows_grow a (snd (revoke_all_for_user lib uid keep now a))"
  by (auto simp: rows_grow_def revoke_all_for_user_def Let_def)

lemma jwt_okD:
  assumes "jwt_ok lib"
  shows "jwt_text lib t \<noteq> []" "jwt_id lib (jwt_text lib t) = Inr (Some (tk_jti t))"
    "jwt_verify lib (jwt_text lib t) now bl = (if now < tk_exp t \<and> tk_jti t \<notin> set bl then Some t else None)"
    "set (fst rows) \<subseteq> set (fst (snd (jwt_blacklist lib t rows)))"
    "set (fst (snd (jwt_blacklist lib t rows))) \<subseteq> insert (token_row t) (set (fst rows))"
    "set (snd (snd (jwt_blacklist lib t rows))) = insert (tk_jti t) (set (snd rows))"
    "set (fst rows) \<subseteq> set (fst (jwt_outstand lib t rows))" "snd (jwt_outstand lib t rows) = snd rows"
    "tk_jti t \<notin> ot_jti ` set (fst rows) \<Longrightarrow> token_row t \<in> set (fst (jwt_outstand lib t rows))"
    "set (fst rows) \<subseteq> set (fst (snd (jwt_for_user lib uid jti now rows)))" "snd (snd (jwt_for_user lib uid jti now rows)) = snd rows"
  using assms unfolding jwt_ok_def by (simp_all, blast+)

lemma row_token_fields [simp]: "token_row (row_token r) = r" "tk_jti (row_token r) = ot_jti r"
  by (simp_all add: row_token_def token_row_def)

abbreviation claim_token :: "jwt_lib \<Rightarrow> refresh_token \<Rightarrow> adb \<Rightarrow> adb" where
  "claim_token lib t a \<equiv> a\<lparr>token_rows := snd (jwt_blacklist lib t (token_rows a))\<rparr>"

lemma grow_claim: "jwt_ok lib \<Longrightarrow> rows_grow a (claim_token lib t a)"
  using jwt_okD(4,6) [of lib] by (auto simp: rows_grow_def)

lemma grow_issue: "jwt_ok lib \<Longrightarrow> rows_grow a (snd (issue_rotated lib t jti now a))"
  using jwt_okD(7,8) [of lib] by (auto simp: rows_grow_def issue_rotated_def Let_def)

text \<open>A refresh changes nothing, or it claims the token and issues a new one.\<close>

lemma refresh_cases:
  assumes "validate_and_refresh_token lib text jti now a = (i, b)"
  obtains e where "i = Inl e" "b = a"
  | e t where "i = Inl e" "b = claim_token lib t a"
  | t where "jwt_verify lib text now (blacklisted a) = Some t" "ensure_user_active lib t a" "fst (jwt_blacklist lib t (token_rows a))"
    "(i, b) = apfst Inr (issue_rotated lib t jti now (claim_token lib t a))"
proof (cases "text = [] \<or> isl (jwt_id lib text) \<or> (\<exists>k. jwt_id lib text = Inr (Some k) \<and> k \<noteq> [] \<and> k \<in> set (blacklisted a))
    \<or> (case jwt_verify lib text now (blacklisted a) of None \<Rightarrow> True | Some t \<Rightarrow> \<not> ensure_user_active lib t a)")
  case True
  then have "isl i \<and> b = a"
    using assms by (auto simp: validate_and_refresh_token_def split: sum.splits option.splits if_splits)
  then show thesis
    using that(1) by (auto simp: isl_def)
next
  case False
  then obtain t where t: "jwt_verify lib text now (blacklisted a) = Some t" "ensure_user_active lib t a"
    by (auto split: option.splits)
  obtain new rows where bl: "jwt_blacklist lib t (token_rows a) = (new, rows)"
    by (metis surj_pair)
  have "validate_and_refresh_token lib text jti now a = (if \<not> new then (Inl (Refused ''TOKEN_BLACKLISTED''), a\<lparr>token_rows := rows\<rparr>)
      else apfst Inr (issue_rotated lib t jti now (a\<lparr>token_rows := rows\<rparr>)))"
    using False t bl unfolding validate_and_refresh_token_def
    by (cases "jwt_id lib text") (auto simp: ROTATE_REFRESH_TOKENS_def BLACKLIST_AFTER_ROTATION_def split: option.splits)
  then show thesis
    using that(2) [of "Refused ''TOKEN_BLACKLISTED''" t] that(3) [of t] t bl assms by (cases new) simp_all
qed

lemma grow_refresh:
  assumes "jwt_ok lib" "validate_and_refresh_token lib text jti now a = (i, b)"
  shows "rows_grow a b"
  using assms(2)
proof (cases rule: refresh_cases)
  case (3 t)
  then have "b = snd (issue_rotated lib t jti now (claim_token lib t a))"
    by (metis apfst_conv prod.collapse snd_conv)
  then show ?thesis
    using grow_trans [OF grow_claim grow_issue] assms(1) by blast
qed (use assms(1) grow_claim grow_eq in auto)

lemma grow_logout: "jwt_ok lib \<Longrightarrow> blacklist_token lib text now a = (i, b) \<Longrightarrow> rows_grow a b"
  using grow_claim by (auto simp: blacklist_token_def grow_eq split: option.splits if_splits)

lemma grow_create_tokens: "jwt_ok lib \<Longrightarrow> create_tokens_for_user lib uid jti now a = (ts, b) \<Longrightarrow> rows_grow a b"
  using jwt_okD(10,11) [where lib = lib and rows = "token_rows a" and uid = uid and jti = jti and now = now]
  by (auto simp: create_tokens_for_user_def rows_grow_def split: prod.splits)

lemma grow_register:
  assumes "jwt_ok lib" "register lib pw name email pw1 pw2 jti uuid draws now a = Inr (i, b)"
  shows "rows_grow a b"
proof -
  obtain u a1 ts where c: "create_user pw name email (pw_make pw pw1) False a = Inr (u, a1)"
    and r: "register_user lib (ac_id u) jti uuid draws now a1 = Inr (ts, b)"
    using assms(2) by (auto simp: register_def rbind_def split: sum.splits prod.splits)
  obtain ts2 a2 where t: "create_tokens_for_user lib (ac_id u) jti now a1 = (ts2, a2)"
    by (metis surj_pair)
  have "token_rows b = token_rows a2"
    using r t by (auto simp: register_user_def rbind_def split: sum.splits prod.splits dest!: rows_create_ev rows_enqueue)
  moreover have "token_rows a1 = token_rows a"
    using c by (auto simp: create_user_def Let_def split: if_splits)
  ultimately show ?thesis
    using grow_create_tokens [OF assms(1) t] by (simp add: rows_grow_def)
qed

lemma grow_login:
  assumes "jwt_ok lib" "login_user lib uid key meta jti now (a, d) = (i, b, e)"
  shows "rows_grow a b"
  using login_user_result [OF assms(2)] grow_create_tokens [OF assms(1)] by (metis grow_eq grow_trans same_rows(1))

lemma grow_social:
  assumes "jwt_ok lib" "process_social_login lib pw provider info jti now a = Inr (i, b)"
  shows "rows_grow a b"
proof -
  obtain email x a1 ts where s: "social_user pw provider email (si_name info) now a = Inr (x, a1)" "create_tokens_for_user lib (fst x) jti now a1 = (ts, b)"
    using assms(2) by (auto simp: process_social_login_def rbind_def split: option.splits sum.splits prod.splits)
  have "token_rows a1 = token_rows a"
    using s(1) by (auto simp: social_user_def rbind_def create_user_def Let_def same_rows split: option.splits if_splits sum.splits prod.splits)
  then show ?thesis
    using grow_create_tokens [OF assms(1) s(2)] by (simp add: rows_grow_def)
qed

lemma confirm_password_reset_rows: "\<exists>c. token_rows c = token_rows a \<and> confirm_password_reset lib pw u t new now a = snd (revoke_all_for_user lib (ac_id u) None now c)"
  unfolding confirm_password_reset_def Let_def by (intro exI conjI) (auto simp: same_rows)

lemma change_password_rows:
  assumes "change_password lib pw uid old pw1 pw2 keep now a = Inr (i, b)"
  shows "\<exists>c. token_rows c = token_rows a \<and> b = snd (revoke_all_for_user lib uid keep now c)"
proof -
  have "b = snd (revoke_all_for_user lib uid keep now (upd_account now uid (\<lambda>v. v\<lparr>ac_password := pw_make pw pw1\<rparr>) a))"
    using assms by (auto simp: change_password_def rbind_def of_get_def split: option.splits if_splits)
  then show ?thesis
    using same_rows(1) by blast
qed

lemma withdraw_rows: "\<exists>c. token_rows c = token_rows a \<and> snd (withdraw_user lib uid now a) = snd (revoke_all_for_user lib uid None now c)"
  unfolding withdraw_user_def by (intro exI conjI) (auto simp: same_rows)

lemma grow_revoke_after: "\<exists>c. token_rows c = token_rows a \<and> b = snd (revoke_all_for_user lib uid keep now c) \<Longrightarrow> rows_grow a b"
  using grow_trans [OF grow_eq grow_revoke] by metis

lemma grow_reset:
  assumes "reset_password lib pw sha email text pw1 pw2 now a = Inr (i, b)"
  shows "rows_grow a b"
  using assms
proof (rule reset_password_result)
  fix u t assume "b = confirm_password_reset lib pw u t pw1 now a"
  then show "rows_grow a b"
    using confirm_password_reset_rows [of a lib pw u t pw1 now] by (intro grow_revoke_after) simp
qed

lemma account_step_grow:
  assumes "account_step lib pw sha (now, a) (later, b)" "jwt_ok lib"
  shows "now \<le> later \<and> rows_grow a b"
  using assms(1)
proof (cases rule: account_step.cases)
  case (withdraw uid i)
  then show ?thesis
    using withdraw_rows [of a lib uid now] by (auto intro: grow_revoke_after)
qed (use assms(2) in \<open>auto simp: same_rows cleanup_used_tokens_task_def cleanup_expired_tokens_task_def
    dest: rows_delete rows_send rows_change_email rows_request rows_mail rows_other_mail rows_sweep change_password_rows
    intro: grow_eq grow_refresh grow_logout grow_register grow_login grow_social grow_reset grow_revoke_after
    elim!: verify_by_token_result verify_by_code_result\<close>)

section \<open>Sessions end\<close>

text \<open>The token of a row cannot be used any more.\<close>

definition dead :: "timestamp \<Rightarrow> adb \<Rightarrow> outstanding_token \<Rightarrow> bool" where
  "dead now a r \<longleftrightarrow> ot_jti r \<in> set (blacklisted a) \<or> ot_expires_at r \<le> now"

lemma dead_refused:
  assumes "jwt_ok lib" "dead now a r"
  shows "\<exists>e. validate_and_refresh_token lib (jwt_text lib (row_token r)) jti now a = (Inl e, a)"
  using assms(2) jwt_okD(1,2,3) [OF assms(1), of "row_token r"]
  by (auto simp: validate_and_refresh_token_def dead_def row_token_def)

lemma dead_stays:
  assumes "(account_step lib pw sha)\<^sup>*\<^sup>* (now, a) (later, b)" "jwt_ok lib" "dead now a r"
  shows "dead later b r"
  using assms(1)
proof (induction rule: rtranclp_induct2)
  case refl
  show ?case
    using assms(3) .
next
  case (step n c m d)
  then show ?case
    using account_step_grow [OF step(2) assms(2)] by (auto simp: dead_def rows_grow_def)
qed

lemma revoke_kills:
  assumes "r \<in> set (fst (token_rows a))" "ot_user r = Some uid"
    "\<And>s t. keep = Some s \<Longrightarrow> jwt_verify lib s now (blacklisted a) = Some t \<Longrightarrow> tk_jti t \<noteq> ot_jti r"
  shows "dead now (snd (revoke_all_for_user lib uid keep now a)) r"
  using assms by (auto simp: dead_def revoke_all_for_user_def Let_def not_less intro!: image_eqI [of _ _ r] split: option.split) blast

definition sessions_ended_by :: "jwt_lib \<Rightarrow> pw_lib \<Rightarrow> (string \<Rightarrow> string) \<Rightarrow> pk \<Rightarrow> string option \<Rightarrow> timestamp \<Rightarrow> adb \<Rightarrow> adb \<Rightarrow> bool" where
  "sessions_ended_by lib pw sha uid keep now a b \<longleftrightarrow>
     (keep = None \<and> b = snd (withdraw_user lib uid now a))
   \<or> (keep = None \<and> (\<exists>email text pw1 pw2. reset_password lib pw sha email text pw1 pw2 now a = Inr (uid, b)))
   \<or> (\<exists>old pw1 pw2. change_password lib pw uid old pw1 pw2 keep now a = Inr ((), b))"

lemma sessions_ended_rows:
  assumes "sessions_ended_by lib pw sha uid keep now a b"
  shows "\<exists>c. token_rows c = token_rows a \<and> b = snd (revoke_all_for_user lib uid keep now c)"
  using assms unfolding sessions_ended_by_def
proof (elim disjE exE conjE)
  assume "keep = None" "b = snd (withdraw_user lib uid now a)"
  then show ?thesis
    using withdraw_rows [of a lib uid now] by simp
next
  fix email link pw1 pw2
  assume k: "keep = None" and r: "reset_password lib pw sha email link pw1 pw2 now a = Inr (uid, b)"
  show ?thesis
    using r by (rule reset_password_result) (use k confirm_password_reset_rows in metis)
qed (rule change_password_rows)

text \<open>C31: withdrawing, resetting the password and changing it end the user's sessions for good: no refresh token that was issued
  before can be refreshed at any later time, whatever happens to the accounts in between, except the one of the device that
  changed the password.  And a refresh uses its token up: the same token is refused for ever, while the new token belongs
  to the same user and is in the table that later revocations read.\<close>

theorem sessions_end:
  assumes lib: "jwt_ok lib" and steps: "(account_step lib pw sha)\<^sup>*\<^sup>* (now, b) (later, c)"
    and ended: "(sessions_ended_by lib pw sha uid keep now a b \<and> r \<in> set (fst (token_rows a)) \<and> ot_user r = Some uid
        \<and> (\<forall>s t. keep = Some s \<longrightarrow> jwt_verify lib s now (blacklisted a) = Some t \<longrightarrow> tk_jti t \<noteq> ot_jti r))
      \<or> (\<exists>x. validate_and_refresh_token lib (jwt_text lib (row_token r)) fresh now a = (Inr x, b))"
  shows "(\<exists>e. validate_and_refresh_token lib (jwt_text lib (row_token r)) jti later c = (Inl e, c))
    \<and> (\<forall>x. validate_and_refresh_token lib (jwt_text lib (row_token r)) fresh now a = (Inr x, b) \<longrightarrow>
         fresh \<noteq> ot_jti r \<longrightarrow> fresh \<notin> ot_jti ` set (fst (token_rows a)) \<longrightarrow>
         (let t = \<lparr>tk_jti = fresh, tk_user = ot_user r, tk_exp = now + REFRESH_TOKEN_LIFETIME\<rparr>
          in snd x = Some (jwt_text lib t) \<and> token_row t \<in> set (fst (token_rows b))))"
proof -
  let ?t = "\<lparr>tk_jti = fresh, tk_user = ot_user r, tk_exp = now + REFRESH_TOKEN_LIFETIME\<rparr>"
  have issued: "dead now b r \<and> (fresh \<noteq> ot_jti r \<longrightarrow> fresh \<notin> ot_jti ` set (fst (token_rows a)) \<longrightarrow>
      snd x = Some (jwt_text lib ?t) \<and> token_row ?t \<in> set (fst (token_rows b)))"
    if "validate_and_refresh_token lib (jwt_text lib (row_token r)) fresh now a = (Inr x, b)" for x
    using that
  proof (cases rule: refresh_cases)
    case (3 t)
    have t: "t = row_token r"
      using 3(1) jwt_okD(3) [OF lib] by (auto split: if_splits)
    have rows: "ot_jti r \<in> set (blacklisted (claim_token lib t a))"
      "set (fst (token_rows (claim_token lib t a))) \<subseteq> insert r (set (fst (token_rows a)))"
      using jwt_okD(5,6) [OF lib, where rows = "token_rows a" and t = t] t by simp_all
    have "b = snd (issue_rotated lib t fresh now (claim_token lib t a))" "x = fst (issue_rotated lib t fresh now (claim_token lib t a))"
      using 3(4) by (cases "issue_rotated lib t fresh now (claim_token lib t a)"; simp)+
    then have bx: "b = (claim_token lib t a)\<lparr>token_rows := jwt_outstand lib ?t (token_rows (claim_token lib t a))\<rparr>" "snd x = Some (jwt_text lib ?t)"
      by (simp_all add: issue_rotated_def ROTATE_REFRESH_TOKENS_def Let_def t row_token_def)
    have "tk_jti ?t \<notin> ot_jti ` set (fst (token_rows (claim_token lib t a)))" if "fresh \<noteq> ot_jti r" "fresh \<notin> ot_jti ` set (fst (token_rows a))"
      using that rows(2) by fastforce
    then show ?thesis
      using bx rows(1) jwt_okD(8,9) [OF lib] by (simp add: dead_def)
  qed simp_all
  have "dead now b r"
    using ended
  proof
    assume e: "sessions_ended_by lib pw sha uid keep now a b \<and> r \<in> set (fst (token_rows a)) \<and> ot_user r = Some uid
        \<and> (\<forall>s t. keep = Some s \<longrightarrow> jwt_verify lib s now (blacklisted a) = Some t \<longrightarrow> tk_jti t \<noteq> ot_jti r)"
    then obtain c where "token_rows c = token_rows a" "b = snd (revoke_all_for_user lib uid keep now c)"
      using sessions_ended_rows by blast
    then show ?thesis
      using e revoke_kills [of r c uid keep lib now] by simp
  qed (use issued in blast)
  then show ?thesis
    using dead_refused [OF lib dead_stays [OF steps lib]] issued unfolding Let_def by blast
qed

text \<open>A token package that keeps its promises: a token's text holds all of its data.\<close>

definition demo_text :: "refresh_token \<Rightarrow> string" where
  "demo_text t = (if tk_exp t < 0 then CHR ''-'' else CHR ''+'') # str_pos \<bar>tk_exp t\<bar> @ CHR ''|''
     # str_nat (case tk_user t of None \<Rightarrow> 0 | Some k \<Rightarrow> Suc k) @ CHR ''|'' # tk_jti t"

definition demo_read :: "string \<Rightarrow> refresh_token" where
  "demo_read s = (let e = before CHR ''|'' (tl s); rest = drop (Suc (length e)) (tl s); u = before CHR ''|'' rest; k = nat (int_of_str u)
     in \<lparr>tk_jti = drop (Suc (length u)) rest, tk_user = (if k = 0 then None else Some (k - 1)),
         tk_exp = (if take 1 s = ''-'' then - int_of_str e else int_of_str e)\<rparr>)"

definition demo_jwt :: jwt_lib where
  "demo_jwt = \<lparr>jwt_id = (\<lambda>s. if demo_text (demo_read s) = s then Inr (Some (tk_jti (demo_read s))) else Inl ()),
     jwt_verify = (\<lambda>s now bl. let t = demo_read s in if demo_text t = s \<and> now < tk_exp t \<and> tk_jti t \<notin> set bl then Some t else None),
     jwt_text = demo_text, jwt_access = tk_jti,
     jwt_blacklist = (\<lambda>t (os, bl). (tk_jti t \<notin> set bl, (if tk_jti t \<in> ot_jti ` set os then os else os @ [token_row t]),
        if tk_jti t \<in> set bl then bl else bl @ [tk_jti t])),
     jwt_outstand = (\<lambda>t (os, bl). (if tk_jti t \<in> ot_jti ` set os then os else os @ [token_row t], bl)),
     jwt_for_user = (\<lambda>uid jti now (os, bl). let t = \<lparr>tk_jti = jti, tk_user = Some uid, tk_exp = now + REFRESH_TOKEN_LIFETIME\<rparr>
        in (t, (if jti \<in> ot_jti ` set os then os else os @ [token_row t]), bl)),
     jwt_may_login = ac_is_active\<rparr>"

lemma before_sep: "c \<notin> set xs \<Longrightarrow> before c (xs @ c # ys) = xs"
  by (induction xs) (auto simp: before_def)

lemma demo_text_not_Nil [simp]: "demo_text t \<noteq> []"
  by (simp add: demo_text_def)

lemma demo_read_text [simp]: "demo_read (demo_text t) = t"
proof -
  have "CHR ''|'' \<notin> set (str_pos \<bar>tk_exp t\<bar>)" "CHR ''|'' \<notin> set (str_nat n)" for n
    using set_str_pos [of "\<bar>tk_exp t\<bar>"] set_str_nat [of n] by auto
  then show ?thesis
    by (simp add: demo_read_def demo_text_def before_sep Let_def str_nat_def split: option.split)
qed

lemma demo_jwt_ok: "jwt_ok demo_jwt"
  unfolding jwt_ok_def demo_jwt_def by (auto simp: Let_def split: prod.splits)

definition demo_user :: account where
  "demo_user = \<lparr>ac_id = 1, ac_username = ''kim'', ac_email = ''kim@shop.kr'', ac_first_name = [], ac_password = ''old'', ac_is_active = True,
     ac_is_withdrawn = False, ac_withdrawn_at = None, ac_is_email_verified = False, ac_has_social = False, ac_last_login = None, ac_last_login_ip = None\<rparr>"

definition demo_row :: outstanding_token where
  "demo_row = \<lparr>ot_jti = ''t1'', ot_user = Some 1, ot_expires_at = 1000\<rparr>"

definition demo_adb :: adb where
  "demo_adb = \<lparr>accounts = [demo_user], ev_tokens = [], email_logs = [], reset_tokens = [], token_rows = ([demo_row], []), mail_queue = [],
     mails = [], queue_up = True, next_key = 2\<rparr>"

definition demo_pw :: pw_lib where
  "demo_pw = \<lparr>pw_make = (\<lambda>s. s), pw_check = (=), pw_acceptable = (\<lambda>_ _. True), pw_unusable = ''!'', pw_normalize = (\<lambda>s. s)\<rparr>"

theorem sessions_end_witness:
  "\<exists>e. validate_and_refresh_token demo_jwt (jwt_text demo_jwt (row_token demo_row)) ''t3'' 20 (snd (withdraw_user demo_jwt 1 10 demo_adb))
     = (Inl e, snd (withdraw_user demo_jwt 1 10 demo_adb))"
proof -
  let ?b = "snd (withdraw_user demo_jwt 1 10 demo_adb)"
  have "(account_step demo_jwt demo_pw id)\<^sup>*\<^sup>* (10, ?b) (20, ?b)"
    by (rule r_into_rtranclp) (rule account_step.wait, simp)
  moreover have "sessions_ended_by demo_jwt demo_pw id 1 None 10 demo_adb ?b"
    by (simp add: sessions_ended_by_def)
  ultimately show ?thesis
    using sessions_end [OF demo_jwt_ok, of demo_pw id 10 ?b 20 ?b 1 None demo_adb demo_row "''t2''" "''t3''"]
    by (simp add: demo_adb_def demo_row_def)
qed

section \<open>Password reset\<close>

lemma find_snoc: "(\<And>x. x \<in> set xs \<Longrightarrow> \<not> P x) \<Longrightarrow> find P (xs @ [y]) = (if P y then Some y else None)"
  by (induction xs) auto

lemma request_password_reset_tokens:
  assumes "request_password_reset sha u uuid now a = (Inr (), b)"
  shows "\<exists>t. reset_tokens b = reset_tokens (invalidate_previous_tokens (ac_id u) now a) @ [t] \<and> rs_user t = ac_id u
     \<and> rs_hash t = hash_token sha uuid \<and> rs_created_at t = now \<and> \<not> rs_is_used t"
  using assms
  by (auto simp: request_password_reset_def generate_token_def enqueue_def new_log_def Let_def split: sum.splits prod.splits if_splits)

lemma verify_token_unused:
  assumes "\<And>t. t \<in> set (reset_tokens a) \<Longrightarrow> rs_user t = uid \<Longrightarrow> rs_is_used t"
  shows "verify_token sha uid raw now a = None"
proof -
  have "find (\<lambda>t. rs_user t = uid \<and> rs_hash t = sha raw \<and> \<not> rs_is_used t) (reset_tokens a) = None"
    using assms unfolding find_None_iff by blast
  then show ?thesis
    by (simp add: verify_token_def)
qed

lemma verify_token_Some:
  assumes "verify_token sha uid raw now a = Some t"
  shows "t \<in> set (reset_tokens a) \<and> rs_user t = uid \<and> rs_hash t = sha raw \<and> \<not> rs_is_used t \<and> \<not> reset_expired t now"
  using assms by (auto simp: verify_token_def find_Some_iff split: option.splits if_splits)

lemma confirm_password_reset_tables:
  "reset_tokens (confirm_password_reset lib pw u t new now a) = rupd rs_id (reset_tokens a) (rs_id t) (use_reset now)"
  "accounts (confirm_password_reset lib pw u t new now a) = accounts (upd_account now (ac_id u) (\<lambda>v. v\<lparr>ac_password := pw_make pw new\<rparr>) a)"
  by (simp_all add: confirm_password_reset_def revoke_all_for_user_def upd_account_def Let_def)

lemma get_upd_account:
  assumes "\<And>u. ac_id (f u) = ac_id u"
  shows "get_account (upd_account now k f a) j = (if j = k then map_option (\<lambda>u. account_save now (f u)) (get_account a k) else get_account a j)"
  unfolding get_account_def upd_account_def using assms by (simp add: rget_rupd)

lemma used_up:
  assumes "resets_ok ts n" "t \<in> set ts" "\<not> rs_is_used t" "q \<in> set (rupd rs_id ts (rs_id t) (use_reset now))" "rs_user q = rs_user t"
  shows "rs_is_used q"
proof (rule ccontr)
  assume q: "\<not> rs_is_used q"
  then have "q \<in> set ts" "rs_id q \<noteq> rs_id t"
    using assms(4) by (auto simp: rupd_def split: if_splits)
  then have "q \<in> set (filter (\<lambda>t. \<not> rs_is_used t) ts)" "t \<in> set (filter (\<lambda>t. \<not> rs_is_used t) ts)" "q \<noteq> t"
    using q assms(2,3) by auto
  then show False
    using assms(1,5) unfolding resets_ok_def distinct_map by (meson inj_onD)
qed

lemma request_password_reset_accounts: "request_password_reset sha u uuid now a = (Inr (), b) \<Longrightarrow> accounts b = accounts a"
  by (auto simp: request_password_reset_def generate_token_def invalidate_previous_tokens_def enqueue_def new_log_def Let_def
      split: sum.splits prod.splits if_splits)

text \<open>What the serializer of the confirmation asks of the account and of the new password.\<close>

definition may_reset :: "pw_lib \<Rightarrow> account \<Rightarrow> string \<Rightarrow> string \<Rightarrow> bool" where
  "may_reset pw u email new \<longleftrightarrow> ac_email u = lower email \<and> ac_is_active u \<and> \<not> ac_is_withdrawn u
     \<and> length new \<in> {8..128} \<and> pw_acceptable pw new (Some u)"

lemma find_distinct: "distinct (map f xs) \<Longrightarrow> x \<in> set xs \<Longrightarrow> find (\<lambda>y. f y = f x) xs = Some x"
  by (induction xs) force+

lemma reset_password_works:
  assumes "accounts_ok (accounts b) n" "u \<in> set (accounts b)" "may_reset pw u email new" "uuid < 2 ^ 128"
    "verify_token sha (ac_id u) (uuid_str uuid) later b = Some t"
  shows "reset_password lib pw sha email (uuid_str uuid) new new later b = Inr (ac_id u, confirm_password_reset lib pw u t new later b)"
proof -
  have "find (\<lambda>v. ac_email v = ac_email u) (accounts b) = Some u"
    using assms(1,2) by (intro find_distinct) (simp_all add: accounts_ok_def)
  then have "find (\<lambda>v. ac_email v = lower email) (accounts b) = Some u"
    using assms(3) by (simp add: may_reset_def)
  then show ?thesis
    using assms(3-5) by (simp add: reset_password_def validate_reset_confirm_def may_reset_def)
qed

lemma reset_password_after:
  assumes inv: "acct_inv b" and r: "reset_password lib pw sha email link pw1 pw2 later b = Inr (i, c)"
  shows "(\<exists>v. get_account c i = Some v \<and> ac_password v = pw_make pw pw1) \<and> (\<forall>j. j \<noteq> i \<longrightarrow> get_account c j = get_account b j)
      \<and> (\<forall>raw2 t2. verify_token sha i raw2 t2 c = None)"
proof -
  obtain v t uu where v: "v \<in> set (accounts b)" "verify_token sha (ac_id v) (uuid_str uu) later b = Some t"
    "c = confirm_password_reset lib pw v t pw1 later b" "i = ac_id v"
    using reset_password_result [OF r] by metis
  have acc: "get_account c j = get_account (upd_account later i (\<lambda>v. v\<lparr>ac_password := pw_make pw pw1\<rparr>) b) j" for j
    using v(3,4) confirm_password_reset_tables(2) by (simp add: get_account_def)
  have "get_account b i = Some v"
    using v(1,4) inv rget_in_distinct [of ac_id "accounts b" v] by (simp add: get_account_def acct_inv_def accounts_ok_def key_col_def)
  then have pw: "\<exists>v. get_account c i = Some v \<and> ac_password v = pw_make pw pw1"
    by (simp add: acc get_upd_account)
  have others: "get_account c j = get_account b j" if "j \<noteq> i" for j
    using that by (simp add: acc get_upd_account)
  have t: "t \<in> set (reset_tokens b)" "rs_user t = i" "\<not> rs_is_used t"
    using verify_token_Some [OF v(2)] v(4) by simp_all
  have "verify_token sha i raw2 t2 c = None" for raw2 t2
    using used_up [of "reset_tokens b" "next_key b" t _ later] t inv v(3) confirm_password_reset_tables(1)
    by (intro verify_token_unused) (simp add: acct_inv_def)
  then show ?thesis
    using pw others by simp
qed

text \<open>C32: after a request for a password reset exactly the link of this request works, for a day; earlier links of the user are
  void.  An active user who follows the link in that day with an acceptable password does get it.  A reset sets the password of this
  account only, and no link of the user works after it.\<close>

theorem reset_link_once:
  assumes start: "no_accounts s" and steps: "(account_step lib pw sha)\<^sup>*\<^sup>* s (now, a)" and u: "u \<in> set (accounts a)"
    and req: "request_password_reset sha u uuid now a = (Inr (), b)"
  shows "(verify_token sha (ac_id u) raw later b \<noteq> None \<longleftrightarrow> sha raw = hash_token sha uuid \<and> later \<le> now + PASSWORD_RESET_TIMEOUT)
     \<and> (later \<le> now + PASSWORD_RESET_TIMEOUT \<and> may_reset pw u email new \<and> uuid < 2 ^ 128 \<longrightarrow>
          (\<exists>c. reset_password lib pw sha email (uuid_str uuid) new new later b = Inr (ac_id u, c)))
     \<and> (\<forall>i c. reset_password lib pw sha email link pw1 pw2 later b = Inr (i, c) \<longrightarrow>
          (\<exists>v. get_account c i = Some v \<and> ac_password v = pw_make pw pw1) \<and> (\<forall>j. j \<noteq> i \<longrightarrow> get_account c j = get_account b j)
          \<and> (\<forall>raw2 t2. verify_token sha i raw2 t2 c = None))"
proof -
  have inv: "acct_inv b"
    using account_system.start_steps_inv [OF start steps] request_password_reset_inv [OF req] by simp
  obtain t where t: "reset_tokens b = reset_tokens (invalidate_previous_tokens (ac_id u) now a) @ [t]" "rs_user t = ac_id u"
    "rs_hash t = hash_token sha uuid" "rs_created_at t = now" "\<not> rs_is_used t"
    using request_password_reset_tokens [OF req] by blast
  have "find (\<lambda>t. rs_user t = ac_id u \<and> rs_hash t = sha raw \<and> \<not> rs_is_used t) (reset_tokens b)
      = (if rs_user t = ac_id u \<and> rs_hash t = sha raw \<and> \<not> rs_is_used t then Some t else None)" for raw
    unfolding t(1) by (rule find_snoc) (use invalidate_previous_none in blast)
  then have only: "verify_token sha (ac_id u) raw later b \<noteq> None \<longleftrightarrow> sha raw = hash_token sha uuid \<and> later \<le> now + PASSWORD_RESET_TIMEOUT"
    for raw using t by (auto simp: verify_token_def reset_expired_def)
  have works: "\<exists>c. reset_password lib pw sha email (uuid_str uuid) new new later b = Inr (ac_id u, c)"
    if w: "later \<le> now + PASSWORD_RESET_TIMEOUT \<and> may_reset pw u email new \<and> uuid < 2 ^ 128"
  proof -
    obtain t where "verify_token sha (ac_id u) (uuid_str uuid) later b = Some t"
      using only [of "uuid_str uuid"] w by (auto simp: hash_token_def)
    then show ?thesis
      using reset_password_works [of b "next_key b" u] w u inv request_password_reset_accounts [OF req] by (auto simp: acct_inv_def)
  qed
  have after: "(\<exists>v. get_account c i = Some v \<and> ac_password v = pw_make pw pw1) \<and> (\<forall>j. j \<noteq> i \<longrightarrow> get_account c j = get_account b j)
      \<and> (\<forall>raw2 t2. verify_token sha i raw2 t2 c = None)"
    if r: "reset_password lib pw sha email link pw1 pw2 later b = Inr (i, c)" for i c
    by (rule reset_password_after [OF inv r])
  from only works after show ?thesis
    by blast
qed

definition empty_adb :: adb where
  "empty_adb = \<lparr>accounts = [], ev_tokens = [], email_logs = [], reset_tokens = [], token_rows = ([], []), mail_queue = [], mails = [],
     queue_up = True, next_key = 1\<rparr>"

definition registered :: adb where
  "registered = (case register demo_jwt demo_pw ''kim'' ''kim@shop.kr'' ''secret12'' ''secret12'' ''t1'' 7 [''ABC123''] 0 empty_adb of
     Inl _ \<Rightarrow> empty_adb | Inr (_, b) \<Rightarrow> b)"

lemma registered_reachable: "no_accounts (0, empty_adb) \<and> (account_step demo_jwt demo_pw id)\<^sup>*\<^sup>* (0, empty_adb) (0, registered)"
proof
  have "\<not> isl (register demo_jwt demo_pw ''kim'' ''kim@shop.kr'' ''secret12'' ''secret12'' ''t1'' 7 [''ABC123''] 0 empty_adb)"
    by code_simp
  then obtain i where "register demo_jwt demo_pw ''kim'' ''kim@shop.kr'' ''secret12'' ''secret12'' ''t1'' 7 [''ABC123''] 0 empty_adb = Inr (i, registered)"
    by (cases "register demo_jwt demo_pw ''kim'' ''kim@shop.kr'' ''secret12'' ''secret12'' ''t1'' 7 [''ABC123''] 0 empty_adb")
      (auto simp: registered_def)
  then have "account_step demo_jwt demo_pw id (0, empty_adb) (0, registered)"
    by (rule account_step.register) (simp add: never_mailed_def mail_count_def empty_adb_def)
  then show "(account_step demo_jwt demo_pw id)\<^sup>*\<^sup>* (0, empty_adb) (0, registered)"
    by simp
qed (simp add: no_accounts_def empty_adb_def)

definition reset_requested :: adb where
  "reset_requested = snd (request_password_reset id (hd (accounts registered)) 9 0 registered)"

theorem reset_link_once_witness:
  "verify_token id 1 (uuid_str 9) 50 reset_requested \<noteq> None \<and> verify_token id 1 (uuid_str 8) 50 reset_requested = None
   \<and> (\<exists>c v. reset_password demo_jwt demo_pw id ''Kim@shop.kr'' (uuid_str 9) ''secret34'' ''secret34'' 50 reset_requested = Inr (1, c)
        \<and> get_account c 1 = Some v \<and> ac_password v = ''secret34'' \<and> verify_token id 1 (uuid_str 9) 60 c = None)"
proof -
  have u: "hd (accounts registered) \<in> set (accounts registered)" "ac_id (hd (accounts registered)) = 1"
    by code_simp+
  have "fst (request_password_reset id (hd (accounts registered)) 9 0 registered) = Inr ()"
    by code_simp
  then have r: "request_password_reset id (hd (accounts registered)) 9 0 registered = (Inr (), reset_requested)"
    by (simp add: reset_requested_def prod_eq_iff)
  note here = reset_link_once [OF registered_reachable [THEN conjunct1] registered_reachable [THEN conjunct2] u(1) r, where later = 50
      and email = "''Kim@shop.kr''" and new = "''secret34''" and link = "uuid_str 9" and ?pw1.0 = "''secret34''" and ?pw2.0 = "''secret34''", unfolded u(2)]
  have "uuid_str 8 \<noteq> uuid_str 9"
    by code_simp
  then have links: "verify_token id 1 (uuid_str 9) 50 reset_requested \<noteq> None" "verify_token id 1 (uuid_str 8) 50 reset_requested = None"
    using here [of "uuid_str 9", THEN conjunct1] here [of "uuid_str 8", THEN conjunct1] by (simp_all add: hash_token_def PASSWORD_RESET_TIMEOUT_def)
  have "may_reset demo_pw (hd (accounts registered)) ''Kim@shop.kr'' ''secret34''"
    by code_simp
  then obtain c where c: "reset_password demo_jwt demo_pw id ''Kim@shop.kr'' (uuid_str 9) ''secret34'' ''secret34'' 50 reset_requested = Inr (1, c)"
    using here [of "uuid_str 9", THEN conjunct2, THEN conjunct1] by (auto simp: PASSWORD_RESET_TIMEOUT_def)
  moreover obtain v where "get_account c 1 = Some v" "ac_password v = ''secret34''" "verify_token id 1 (uuid_str 9) 60 c = None"
    using here [of "uuid_str 9", THEN conjunct2, THEN conjunct2, rule_format, OF c] by (auto simp: demo_pw_def)
  ultimately show ?thesis
    using links by blast
qed

section \<open>Verification mails\<close>




section \<open>Verified addresses\<close>

definition no_new_verified :: "adb \<Rightarrow> adb \<Rightarrow> bool" where
  "no_new_verified a b \<longleftrightarrow> (\<forall>k u v. get_account a k = Some u \<longrightarrow> get_account b k = Some v \<longrightarrow> ac_is_email_verified v \<longrightarrow> ac_is_email_verified u)"

lemma verified_same: "accounts b = accounts a \<Longrightarrow> no_new_verified a b"
  by (simp add: no_new_verified_def get_account_def)

lemma verified_append: "accounts b = accounts a @ [u] \<Longrightarrow> no_new_verified a b"
  by (auto simp: no_new_verified_def get_account_def)

lemma verified_trans: "no_new_verified a b \<Longrightarrow> accounts c = accounts b \<Longrightarrow> no_new_verified a c"
  by (simp add: no_new_verified_def get_account_def)

lemma verified_upd:
  assumes "\<And>u. ac_id (f u) = ac_id u" "\<And>u. ac_is_email_verified (f u) \<Longrightarrow> ac_is_email_verified u"
  shows "no_new_verified a (upd_account now k f a)"
  using assms by (auto simp: no_new_verified_def get_upd_account split: if_splits)

lemma accounts_revoke: "accounts (snd (revoke_all_for_user lib uid keep now a)) = accounts a"
  by (simp add: revoke_all_for_user_def Let_def)

lemma accounts_refresh: "validate_and_refresh_token lib text jti now a = (i, b) \<Longrightarrow> accounts b = accounts a"
  by (auto simp: validate_and_refresh_token_def issue_rotated_def Let_def split: sum.splits option.splits prod.splits if_splits)

lemma accounts_logout: "blacklist_token lib text now a = (i, b) \<Longrightarrow> accounts b = accounts a"
  by (auto simp: blacklist_token_def split: option.splits if_splits)

lemma verified_change_email: "change_email uid email now a = Inr (i, b) \<Longrightarrow> no_new_verified a b"
  by (auto simp: change_email_def rbind_def of_get_def split: option.splits if_splits intro!: verified_upd)

text \<open>Updates of other columns, whatever else happens to other tables.\<close>

lemma verified_columns:
  "accounts b = accounts (upd_account now k (\<lambda>u. u\<lparr>ac_password := w\<rparr>) a) \<Longrightarrow> no_new_verified a b"
  "accounts b = accounts (upd_account now k (\<lambda>u. u\<lparr>ac_is_withdrawn := True, ac_withdrawn_at := Some now, ac_is_active := False\<rparr>) a) \<Longrightarrow> no_new_verified a b"
  by (rule verified_trans [OF verified_upd]; simp)+

lemma verified_reset:
  assumes "reset_password lib pw sha email text pw1 pw2 now a = Inr (i, b)"
  shows "no_new_verified a b"
proof -
  obtain u t where "b = confirm_password_reset lib pw u t pw1 now a"
    using assms by (rule reset_password_result)
  then show ?thesis
    using confirm_password_reset_tables(2) by (intro verified_columns(1)) simp
qed

lemma verified_change_password:
  assumes "change_password lib pw uid old pw1 pw2 keep now a = Inr (i, b)"
  shows "no_new_verified a b"
proof -
  have "b = snd (revoke_all_for_user lib uid keep now (upd_account now uid (\<lambda>v. v\<lparr>ac_password := pw_make pw pw1\<rparr>) a))"
    using assms by (auto simp: change_password_def rbind_def of_get_def split: option.splits if_splits)
  then show ?thesis
    by (intro verified_columns(1)) (simp add: accounts_revoke)
qed

lemma verified_withdraw:
  assumes "withdraw_user lib uid now a = (i, b)"
  shows "no_new_verified a b"
proof -
  have "b = snd (withdraw_user lib uid now a)"
    using assms by simp
  then show ?thesis
    by (intro verified_columns(2)) (simp add: withdraw_user_def accounts_revoke)
qed

lemma verified_login:
  assumes "login_user lib uid key meta jti now (a, d) = (i, b, e)"
  shows "no_new_verified a b"
proof -
  obtain f ts where "create_tokens_for_user lib uid jti now (upd_account now uid f a) = (ts, b)" "no_new_verified a (upd_account now uid f a)"
    using login_user_result [OF assms] verified_upd by metis
  then show ?thesis
    using create_tokens_inv by (metis verified_trans)
qed

lemma verified_social:
  assumes "process_social_login lib pw provider info jti now a = Inr (i, b)" "acct_inv a"
  shows "no_new_verified a b"
proof -
  obtain email x a1 ts where s: "social_user pw provider email (si_name info) now a = Inr (x, a1)" "create_tokens_for_user lib (fst x) jti now a1 = (ts, b)"
    using assms(1) by (auto simp: process_social_login_def rbind_def split: option.splits sum.splits prod.splits)
  have "no_new_verified a a1"
  proof (cases "find (\<lambda>u. ac_email u = email) (accounts a)")
    case None
    then obtain u a2 where c: "create_user pw (generate_unique_username email provider a) email (pw_unusable pw) True a = Inr (u, a2)"
      and a1: "a1 = a2 \<or> (\<exists>n. a1 = upd_account now (ac_id u) (\<lambda>v. v\<lparr>ac_first_name := n\<rparr>) a2)"
      using s(1) by (auto simp: social_user_def rbind_def split: sum.splits prod.splits option.splits if_splits)
    have "no_new_verified a a2"
      using create_user_inv [OF c assms(2)] verified_append by blast
    then show ?thesis
      using a1 by (auto simp: no_new_verified_def get_upd_account split: if_splits)
  next
    case (Some u)
    then show ?thesis
      using s(1) by (auto simp: social_user_def split: if_splits intro!: verified_upd)
  qed
  then show ?thesis
    using create_tokens_inv [OF s(2)] by (metis verified_trans)
qed

text \<open>A live token of a user that a step uses up.\<close>

definition token_spent :: "pk \<Rightarrow> timestamp \<Rightarrow> adb \<Rightarrow> adb \<Rightarrow> bool" where
  "token_spent uid now a b \<longleftrightarrow> (\<exists>t \<in> set (ev_tokens a). et_user t = uid \<and> \<not> et_is_used t \<and> now \<le> et_created_at t + 24 * 3600
     \<and> (\<exists>t' \<in> set (ev_tokens b). et_id t' = et_id t \<and> et_is_used t'))"

lemma complete_verification_effect:
  assumes "t \<in> set (ev_tokens a)" "\<not> et_is_used t" "\<not> token_expired t now" "b = complete_verification t now a"
    "get_account a uid = Some u" "get_account b uid = Some v" "\<not> ac_is_email_verified u" "ac_is_email_verified v"
  shows "token_spent uid now a b"
proof -
  have "get_account b uid = get_account (upd_account now (et_user t) (\<lambda>u. u\<lparr>ac_is_email_verified := True\<rparr>) a) uid"
    unfolding assms(4) complete_verification_def upd_ev_token_def get_account_def by simp
  then have "et_user t = uid"
    using assms(5-8) by (auto simp: get_upd_account split: if_splits)
  moreover have "mark_as_used now t \<in> set (ev_tokens b)"
    using assms(1) unfolding assms(4) complete_verification_def by (auto simp: upd_ev_token_def upd_account_def rupd_def intro!: image_eqI [of _ _ t])
  ultimately show ?thesis
    using assms(1-3) unfolding token_spent_def token_expired_def
    by (intro bexI [of _ t] conjI bexI [of _ "mark_as_used now t"]) (simp_all add: mark_as_used_def)
qed

text \<open>C34: an existing account becomes verified only by a token of its own that was not used and is not older than a day, and the
  token is used up by it.  No other request, mail task or cleanup verifies an address.\<close>

theorem verification_needs_token:
  assumes start: "no_accounts s" and steps: "(account_step lib pw sha)\<^sup>*\<^sup>* s (now, a)"
    and step: "account_step lib pw sha (now, a) (later, b)"
    and turned: "get_account a uid = Some u" "\<not> ac_is_email_verified u" "get_account b uid = Some v" "ac_is_email_verified v"
  shows "token_spent uid now a b"
proof -
  have inv: "acct_inv a"
    using account_system.start_steps_inv [OF start steps] by simp
  have no: "\<not> no_new_verified a b"
    using turned unfolding no_new_verified_def by blast
  then have no2: "accounts b \<noteq> accounts a"
    using verified_same by blast
  show ?thesis
    using step
  proof (cases rule: account_step.cases)
    case (by_token link i)
    then obtain t w where t: "t \<in> set (ev_tokens a)" "validate_token t w now = None" "b = complete_verification t now a"
      by (elim verify_by_token_result)
    then show ?thesis
      using complete_verification_effect [OF t(1) _ _ t(3) turned(1,3,2,4)] by (auto simp: validate_token_def split: if_splits)
  next
    case (by_code k code i)
    then obtain t where t: "t \<in> set (ev_tokens a)" "\<not> et_is_used t" "\<not> token_expired t now" "b = complete_verification t now a"
      by (elim verify_by_code_result)
    then show ?thesis
      by (intro complete_verification_effect [OF t turned(1,3,2,4)])
  next
    case (register name email pw1 pw2 jti uuid draws i)
    then show ?thesis
      using register_inv [of lib pw name email pw1 pw2 jti uuid draws now a i b] inv no verified_append by blast
  next
    case (social provider info jti i)
    then show ?thesis
      using verified_social inv no by blast
  qed (use inv no no2 in \<open>auto simp: cleanup_used_tokens_task_def cleanup_expired_tokens_task_def invalidate_tokens_def
      dest: verified_same verified_change_email verified_reset verified_change_password verified_withdraw verified_login
        accounts_refresh accounts_logout send_verification_email_inv request_password_reset_inv send_verification_email_task_inv
        send_email_task_inv sweep_inv delete_tokens_inv\<close>)
qed

definition verified_adb :: adb where
  "verified_adb = (case verify_by_token (uuid_str 7) 100 registered of Inl _ \<Rightarrow> registered | Inr (_, b) \<Rightarrow> b)"

lemma verified_step: "account_step demo_jwt demo_pw id (100, registered) (100, verified_adb)"
proof -
  have "\<not> isl (verify_by_token (uuid_str 7) 100 registered)"
    by code_simp
  then obtain i where "verify_by_token (uuid_str 7) 100 registered = Inr (i, verified_adb)"
    by (cases "verify_by_token (uuid_str 7) 100 registered") (auto simp: verified_adb_def)
  then show ?thesis
    by (rule account_step.by_token)
qed

theorem verification_needs_token_witness: "token_spent 1 100 registered verified_adb"
proof -
  have steps: "(account_step demo_jwt demo_pw id)\<^sup>*\<^sup>* (0, empty_adb) (100, registered)"
    using registered_reachable account_step.wait [of 0 100 demo_jwt demo_pw id registered] by (meson rtranclp.rtrancl_into_rtrancl zero_le_numeral)
  have "map_option ac_is_email_verified (get_account registered 1) = Some False" "map_option ac_is_email_verified (get_account verified_adb 1) = Some True"
    by code_simp+
  then obtain u v where "get_account registered 1 = Some u" "\<not> ac_is_email_verified u" "get_account verified_adb 1 = Some v" "ac_is_email_verified v"
    by (auto simp: map_option_eq_Some)
  then show ?thesis
    using verification_needs_token [OF registered_reachable [THEN conjunct1] steps verified_step] by blast
qed

section \<open>Names\<close>

text \<open>The search for a name ends at the first free number; it tries at most one name more than there are accounts.\<close>

lemma unique_username_found:
  "\<exists>k \<le> length (accounts a). generate_unique_username email provider a = candidate (before CHR ''@'' email @ ''_'' @ provider) ''_'' k
     \<and> generate_unique_username email provider a \<notin> ac_username ` set (accounts a)"
  using free_name_candidate [of "''_''" "map ac_username (accounts a)"] free_name_free [of "map ac_username (accounts a)"]
  unfolding generate_unique_username_def Let_def by (metis length_map list.set_map list.simps(3))

section \<open>What the accounts do not guarantee\<close>

text \<open>A token belongs to a user and not to an address: changing the address keeps the tokens sent to the old one, and such a
  token verifies the new address.\<close>

lemma old_token_verifies_new_address:
  "(case change_email 1 ''victim@shop.kr'' 50 registered of
      Inr (_, a) \<Rightarrow> (case verify_by_token (uuid_str 7) 60 a of
        Inr (_, b) \<Rightarrow> map (\<lambda>u. (ac_email u, ac_is_email_verified u)) (accounts b) | Inl _ \<Rightarrow> [])
    | Inl _ \<Rightarrow> []) = [(''victim@shop.kr'', True)]"
  by code_simp

text \<open>The reset request turns the address into small letters, the registration does not.\<close>

lemma capital_address_not_reset:
  "ac_email u = ''Kim@shop.kr'' \<Longrightarrow> accounts a = [u] \<Longrightarrow> validate_reset_request (ac_email u) a = Inr None"
  by (simp add: validate_reset_request_def) code_simp

text \<open>A reset that was validated before another one is confirmed is confirmed as well: the token is not checked again.\<close>

lemma validated_reset_confirmed_twice:
  assumes "get_account a (ac_id u) = Some u"
  shows "map_option ac_password (get_account (confirm_password_reset lib pw u t second now (confirm_password_reset lib pw u t first now a)) (ac_id u))
     = Some (pw_make pw second)"
proof -
  have "get_account (confirm_password_reset lib pw u t new now b) (ac_id u)
      = get_account (upd_account now (ac_id u) (\<lambda>v. v\<lparr>ac_password := pw_make pw new\<rparr>) b) (ac_id u)" for new b
    by (simp add: get_account_def confirm_password_reset_tables(2))
  then show ?thesis
    using assms by (simp add: get_upd_account)
qed

text \<open>Without an id and an address every Kakao user gets the same account.\<close>

lemma kakao_without_id: "social_email ''kakao'' (normalize_user_info ''kakao'' []) = Some ''kakao_None@social.local''"
  by code_simp

text \<open>Invalidated tokens have no time of use and are never cleaned up.\<close>

lemma invalidated_token_stays:
  "t \<in> set (ev_tokens a) \<Longrightarrow> et_is_used t \<Longrightarrow> et_used_at t = None \<Longrightarrow>
     t \<in> set (ev_tokens (snd (cleanup_used_tokens_task days now a))) \<and> t \<in> set (ev_tokens (snd (cleanup_expired_tokens_task now a)))"
  by (simp add: cleanup_used_tokens_task_def cleanup_expired_tokens_task_def delete_tokens_def Let_def)

text \<open>A log the sweep claimed while the queue is down stays pending, and no later sweep takes it up.\<close>

lemma claimed_log_lost:
  assumes "\<not> queue_up a" "el_token l = Some tid" "rget et_id (ev_tokens a) tid = Some t" "\<not> token_expired t now" "el_user l = Some k"
    "get_account a k = Some u" "\<not> ac_is_email_verified u" "rget el_id (email_logs a) (el_id l) = Some l" "el_status l = MailFailed"
  shows "map_option el_status (rget el_id (email_logs (snd (resend_one now l (res, a)))) (el_id l)) = Some MailPending"
  using assms by (simp add: resend_one_def Let_def enqueue_def upd_log_def rget_rupd claim_log_def)

text \<open>The generator avoids the codes of live tokens, the table also those of used ones.\<close>

lemma used_code_collides:
  "(case invalidate_tokens 1 registered of (_, a) \<Rightarrow> create_ev_token 1 8 [''ABC123''] 50 a) = Inl (Lib IntegrityError)"
  by code_simp

end
