(* ===== verification/Catalogue.thy ===== *)
theory Catalogue
  imports Complex_Main "HOL-Library.AList" Account_Texts Free_Names Carts
begin

text \<open>
  The catalogue: categories, products with their images and reviews, and the lists of products, from
  \<^verbatim>\<open>src/shopping/models/product.py\<close>, \<^verbatim>\<open>views/product_views.py\<close>, \<^verbatim>\<open>serializers/product_serializers.py\<close>,
  \<^verbatim>\<open>serializers/category_serializers.py\<close>, \<^verbatim>\<open>services/product_service.py\<close>, \<^verbatim>\<open>services/product_query_service.py\<close>,
  \<^verbatim>\<open>dtos/product_filter.py\<close> and \<^verbatim>\<open>permissions.py\<close>.

  The columns of a product that orders and carts use are in the table \<open>products\<close> of the shop; the others are
  here, in an \<open>entry\<close> with the same key.  Short description, brand and view count are stored and returned
  only, and are left out.  Django's \<^verbatim>\<open>slugify\<close> and the trees of the package mptt are parameters.
\<close>

section \<open>State\<close>

record category =
  ct_id :: pk
  ct_name :: string
  ct_slug :: string
  ct_parent :: "pk option"
  ct_is_active :: bool
  ct_tree :: pk

record entry =
  en_id :: pk
  en_slug :: string
  en_sku :: string
  en_category :: pk
  en_description :: string
  en_compare_price :: "money option"
  en_tags :: string
  en_seller :: "pk option"
  en_created_at :: timestamp

record image =
  im_id :: pk
  im_product :: pk
  im_url :: string
  im_is_primary :: bool
  im_order :: nat
  im_created_at :: timestamp

record review =
  rv_id :: pk
  rv_product :: pk
  rv_user :: pk
  rv_rating :: int
  rv_comment :: string
  rv_created_at :: timestamp

record question =
  qu_id :: pk
  qu_product :: pk
  qu_user :: "pk option"
  qu_title :: string
  qu_content :: string
  qu_is_secret :: bool
  qu_is_answered :: bool
  qu_created_at :: timestamp

record answer =
  an_id :: pk
  an_question :: pk
  an_seller :: "pk option"
  an_content :: string

record notification =
  no_id :: pk
  no_user :: pk
  no_type :: string
  no_title :: string
  no_message :: string
  no_link :: string
  no_metadata :: dict
  no_is_read :: bool
  no_read_at :: "timestamp option"
  no_created_at :: timestamp

text \<open>\<open>wishes\<close> is the table between users and products.\<close>

record cdb =
  categories :: "category list"
  entries :: "entry list"
  images :: "image list"
  reviews :: "review list"
  wishes :: "(pk \<times> pk) list"
  questions :: "question list"
  answers :: "answer list"
  inbox :: "notification list"
  cat_next :: pk

text \<open>The user of a request; \<open>None\<close> is nobody.\<close>

record member =
  mb_id :: pk
  mb_is_staff :: bool
  mb_is_superuser :: bool
  mb_is_seller :: bool

type_synonym requester = "member option"

datatype cat_error = Unauthenticated | Forbidden | NotFound | Invalid string | Raised exn | TypeError

type_synonym 'a cop = "cdb \<times> db \<Rightarrow> cat_error + 'a \<times> cdb \<times> db"

abbreviation get_category :: "cdb \<Rightarrow> pk \<Rightarrow> category option" where
  "get_category c k \<equiv> rget ct_id (categories c) k"

abbreviation get_entry :: "cdb \<Rightarrow> pk \<Rightarrow> entry option" where
  "get_entry c k \<equiv> rget en_id (entries c) k"

text \<open>A product of the catalogue is its row in the shop with its entry.\<close>

type_synonym listing = "product \<times> entry"

definition listing_of :: "db \<Rightarrow> entry \<Rightarrow> listing option" where
  "listing_of d e = map_option (\<lambda>p. (p, e)) (get_product d (en_id e))"

definition shelf :: "cdb \<times> db \<Rightarrow> listing list" where
  "shelf s = List.map_filter (listing_of (snd s)) (entries (fst s))"

section \<open>Numbers in texts\<close>

definition dec_val :: "char \<Rightarrow> nat option" where
  "dec_val c = (let n = of_char c :: nat in if n \<in> {48..57} then Some (n - 48) else None)"

text \<open>\<^verbatim>\<open>int(s)\<close>: blanks around, a sign and single underscores between digits are allowed.\<close>

fun dec_digits :: "nat \<Rightarrow> bool \<Rightarrow> string \<Rightarrow> nat option" where
  "dec_digits acc digit_before [] = (if digit_before then Some acc else None)"
| "dec_digits acc digit_before (c # cs) = (
     if c = CHR ''_'' then (if digit_before then dec_digits acc False cs else None)
     else case dec_val c of None \<Rightarrow> None | Some v \<Rightarrow> dec_digits (10 * acc + v) True cs)"

definition int_text :: "string \<Rightarrow> int option" where
  "int_text s = (let t = strip_by is_space s in
     if take 1 t = ''-'' then map_option (\<lambda>n. - int n) (dec_digits 0 False (drop 1 t))
     else map_option int (dec_digits 0 False (if take 1 t = ''+'' then drop 1 t else t)))"

section \<open>Categories\<close>

text \<open>The loop of \<^verbatim>\<open>build_full_paths\<close> up the tree; it does not end when the parents form a cycle.\<close>

partial_function (option) path_loop :: "(pk \<Rightarrow> (string \<times> pk option) option) \<Rightarrow> pk option \<Rightarrow> string list \<Rightarrow> string list option" where
  "path_loop nodes current parts = (case current of
     None \<Rightarrow> Some parts
   | Some k \<Rightarrow> (case nodes k of
       None \<Rightarrow> Some parts
     | Some (name, parent) \<Rightarrow> path_loop nodes parent (parts @ [name])))"

declare path_loop.simps [code]

definition join :: "string \<Rightarrow> string list \<Rightarrow> string" where
  "join sep xs = (case xs of [] \<Rightarrow> [] | y # ys \<Rightarrow> y @ concat (map (\<lambda>z. sep @ z) ys))"

definition tree_nodes :: "pk set \<Rightarrow> category list \<Rightarrow> pk \<Rightarrow> (string \<times> pk option) option" where
  "tree_nodes trees cs k = (case rget ct_id (filter (\<lambda>c. ct_tree c \<in> trees) cs) k of
     None \<Rightarrow> None | Some c \<Rightarrow> Some (ct_name c, ct_parent c))"

fun paths_of :: "(pk \<Rightarrow> (string \<times> pk option) option) \<Rightarrow> category list \<Rightarrow> (pk \<times> string) list \<Rightarrow> (pk \<times> string) list option" where
  "paths_of nodes [] paths = Some paths"
| "paths_of nodes (c # cs) paths = (case path_loop nodes (Some (ct_id c)) [] of
     None \<Rightarrow> None
   | Some parts \<Rightarrow> paths_of nodes cs (AList.update (ct_id c) (join '' > '' (rev parts)) paths))"

definition build_full_paths :: "category list \<Rightarrow> cdb \<Rightarrow> (pk \<times> string) list option" where
  "build_full_paths cs c = (
     if cs = [] then Some []
     else paths_of (tree_nodes (ct_tree ` set cs) (categories c)) cs [])"

text \<open>The path of a single category, which follows the rows of the parents.\<close>

partial_function (option) ancestor_loop :: "cdb \<Rightarrow> category option \<Rightarrow> string list \<Rightarrow> string list option" where
  "ancestor_loop c current parts = (case current of
     None \<Rightarrow> Some parts
   | Some k \<Rightarrow> ancestor_loop c (Option.bind (ct_parent k) (get_category c)) (parts @ [ct_name k]))"

declare ancestor_loop.simps [code]

definition get_full_path :: "(pk \<times> string) list option \<Rightarrow> category \<Rightarrow> cdb \<Rightarrow> string option" where
  "get_full_path category_paths obj c = (
     case (case category_paths of None \<Rightarrow> None | Some paths \<Rightarrow> map_of paths (ct_id obj)) of
       Some path \<Rightarrow> Some path
     | None \<Rightarrow> map_option (\<lambda>parts. join '' > '' (rev parts)) (ancestor_loop c (Some obj) []))"

definition active_products :: "pk \<Rightarrow> cdb \<times> db \<Rightarrow> listing list" where
  "active_products k s = filter (\<lambda>(p, e). en_category e = k \<and> p_is_active p) (shelf s)"

definition product_count :: "pk \<Rightarrow> cdb \<times> db \<Rightarrow> nat" where
  "product_count k s = length (active_products k s)"

definition children_count :: "pk \<Rightarrow> cdb \<Rightarrow> nat" where
  "children_count k c = length (filter (\<lambda>x. ct_parent x = Some k \<and> ct_is_active x) (categories c))"

text \<open>\<open>desc\<close> is \<^verbatim>\<open>get_descendants(include_self=True)\<close> of mptt.\<close>

definition get_all_products :: "(category list \<Rightarrow> pk \<Rightarrow> pk list) \<Rightarrow> pk \<Rightarrow> cdb \<times> db \<Rightarrow> listing list" where
  "get_all_products desc k s = filter (\<lambda>(p, e). en_category e \<in> set (desc (categories (fst s)) k) \<and> p_is_active p) (shelf s)"

definition total_product_count :: "(category list \<Rightarrow> pk \<Rightarrow> pk list) \<Rightarrow> pk \<Rightarrow> cdb \<times> db \<Rightarrow> nat" where
  "total_product_count desc k s = length (get_all_products desc k s)"

text \<open>
  The serializer for changing a category.  Its check of a new parent is named \<^verbatim>\<open>validate_name\<close>, so that the
  framework calls it with the name, a text, which has no attribute \<^verbatim>\<open>pk\<close>.
\<close>

definition validate_category_name :: "category option \<Rightarrow> string \<Rightarrow> cat_error + string" where
  "validate_category_name instance value = (if instance \<noteq> None \<and> value \<noteq> [] then Inl (Raised AttributeError) else Inr value)"

definition validate_category :: "category option \<Rightarrow> bool option \<Rightarrow> cdb \<times> db \<Rightarrow> cat_error + unit" where
  "validate_category instance is_active s = (case instance of
     None \<Rightarrow> Inr ()
   | Some k \<Rightarrow>
       if is_active \<noteq> Some False then Inr ()
       else if children_count (ct_id k) (fst s) > 0 then Inl (Invalid ''ACTIVE_CHILDREN'')
       else if active_products (ct_id k) s \<noteq> [] then Inl (Invalid ''ACTIVE_PRODUCTS'')
       else Inr ())"

section \<open>Permissions\<close>

definition IsSeller :: "requester \<Rightarrow> bool" where
  "IsSeller who = (case who of None \<Rightarrow> False | Some m \<Rightarrow> mb_is_seller m)"

text \<open>\<open>safe\<close> says whether the method only reads; \<open>owner\<close> is the seller of the product.\<close>

definition IsSellerAndOwner :: "bool \<Rightarrow> requester \<Rightarrow> bool" where
  "IsSellerAndOwner safe who = (safe \<or> (case who of None \<Rightarrow> False | Some m \<Rightarrow> mb_is_seller m))"

definition IsSellerAndOwner_object :: "bool \<Rightarrow> requester \<Rightarrow> pk option \<Rightarrow> bool" where
  "IsSellerAndOwner_object safe who owner = (safe \<or> owner = map_option mb_id who)"

definition IsSellerAndProductOwner :: "requester \<Rightarrow> pk option \<Rightarrow> bool" where
  "IsSellerAndProductOwner who owner = (case who of None \<Rightarrow> False | Some m \<Rightarrow> mb_is_seller m \<and> owner = Some (mb_id m))"

definition IsOrderOwnerOrAdmin :: "member \<Rightarrow> order \<Rightarrow> bool" where
  "IsOrderOwnerOrAdmin m ord \<longleftrightarrow> mb_is_staff m \<or> mb_is_superuser m \<or> o_user ord = Some (mb_id m)"

section \<open>Products\<close>

text \<open>The properties of a product; the quotient of \<^verbatim>\<open>discount_percentage\<close> is rounded to 28 digits before the fraction is
  dropped, which makes no difference for prices of ten digits.\<close>

definition is_on_sale :: "listing \<Rightarrow> bool" where
  "is_on_sale = (\<lambda>(p, e). case en_compare_price e of None \<Rightarrow> False | Some v \<Rightarrow> v \<noteq> 0 \<and> v > p_price p)"

definition discount_percentage :: "listing \<Rightarrow> int" where
  "discount_percentage = (\<lambda>(p, e). if is_on_sale (p, e)
     then (case en_compare_price e of None \<Rightarrow> 0 | Some v \<Rightarrow> (v - p_price p) * 100 div v) else 0)"

datatype stock_level = StockOut | StockLow | StockEnough

definition stock_status :: "product \<Rightarrow> stock_level" where
  "stock_status p = (if p_stock p = 0 then StockOut else if p_stock p < 10 then StockLow else StockEnough)"

text \<open>What a request may set.  Texts arrive trimmed by the framework; a field that is absent is \<open>None\<close>.\<close>

record product_input =
  pi_name :: "string option"
  pi_slug :: "string option"
  pi_category :: "pk option"
  pi_description :: "string option"
  pi_price :: "money option"
  pi_compare_price :: "money option option"
  pi_stock :: "int option"
  pi_is_available :: "bool option"
  pi_sku :: "string option"
  pi_tags :: "string option"
  pi_is_active :: "bool option"

text \<open>\<^verbatim>\<open>Product.objects.filter(column=value).exclude(pk=self.instance.pk).exists()\<close>.\<close>

definition column_taken :: "(entry \<Rightarrow> string) \<Rightarrow> pk option \<Rightarrow> string \<Rightarrow> cdb \<Rightarrow> bool" where
  "column_taken col instance value c \<longleftrightarrow> (\<exists>e \<in> set (entries c). col e = value \<and> instance \<noteq> Some (en_id e))"

definition validate_sku :: "pk option \<Rightarrow> string \<Rightarrow> cdb \<Rightarrow> bool" where
  "validate_sku instance value c \<longleftrightarrow> \<not> column_taken en_sku instance value c"

definition validate_slug :: "pk option \<Rightarrow> string \<Rightarrow> cdb \<Rightarrow> bool" where
  "validate_slug instance value c \<longleftrightarrow> value = [] \<or> \<not> column_taken en_slug instance value c"

text \<open>The price of the request is compared, or that of the row when the request has none.\<close>

definition validate_compare_price :: "product option \<Rightarrow> product_input \<Rightarrow> money option \<Rightarrow> bool" where
  "validate_compare_price instance inp value = (case value of
     None \<Rightarrow> True
   | Some v \<Rightarrow> (case instance of
       None \<Rightarrow> (case pi_price inp of None \<Rightarrow> True | Some price \<Rightarrow> \<not> (price \<noteq> 0 \<and> v \<le> price))
     | Some p \<Rightarrow> \<not> v \<le> (case pi_price inp of None \<Rightarrow> p_price p | Some price \<Rightarrow> price)))"

fun split_at :: "char \<Rightarrow> string \<Rightarrow> string list" where
  "split_at c [] = [[]]"
| "split_at c (x # xs) = (if x = c then [] # split_at c xs else (case split_at c xs of [] \<Rightarrow> [[x]] | y # ys \<Rightarrow> (x # y) # ys))"

text \<open>The loop that keeps the first of equal tags.\<close>

fun unique_tags :: "string set \<Rightarrow> string list \<Rightarrow> string list" where
  "unique_tags seen [] = []"
| "unique_tags seen (t # ts) = (if t \<in> seen then unique_tags seen ts else t # unique_tags (insert t seen) ts)"

definition validate_tags :: "string \<Rightarrow> string" where
  "validate_tags value = (if value = [] then value
     else join '','' (unique_tags {} (filter (\<lambda>t. t \<noteq> []) (map (strip_by is_space) (split_at CHR '','' value)))))"

definition decimal10 :: "money \<Rightarrow> bool" where
  "decimal10 v \<longleftrightarrow> 0 \<le> v \<and> v < 10 ^ 10"

text \<open>The letters of Django's \<^verbatim>\<open>SlugField\<close>.\<close>

definition slug_char :: "char \<Rightarrow> bool" where
  "slug_char c = (let n = of_char c :: nat in n \<in> {48..57} \<or> n \<in> {65..90} \<or> n \<in> {97..122} \<or> c = CHR ''-'' \<or> c = CHR ''_'')"

definition field_ok :: "bool \<Rightarrow> ('a \<Rightarrow> bool) \<Rightarrow> 'a option \<Rightarrow> bool" where
  "field_ok required ok v = (case v of None \<Rightarrow> \<not> required | Some x \<Rightarrow> ok x)"

text \<open>The serializer; \<open>partial\<close> is a PATCH request.  The fields are checked one by one, and one bad field refuses the request.\<close>

definition validate_product :: "bool \<Rightarrow> listing option \<Rightarrow> product_input \<Rightarrow> cdb \<Rightarrow> bool" where
  "validate_product partial instance inp c \<longleftrightarrow>
     (let k = map_option (\<lambda>(p, e). p_id p) instance in
       field_ok (\<not> partial) (\<lambda>n. n \<noteq> [] \<and> length n \<le> 200) (pi_name inp)
     \<and> field_ok False (\<lambda>v. list_all slug_char v \<and> length v \<le> 200 \<and> validate_slug k v c) (pi_slug inp)
     \<and> field_ok (\<not> partial) (\<lambda>g. \<exists>x \<in> set (categories c). ct_id x = g \<and> ct_is_active x) (pi_category inp)
     \<and> field_ok (\<not> partial) (\<lambda>n. n \<noteq> []) (pi_description inp)
     \<and> field_ok (\<not> partial) decimal10 (pi_price inp)
     \<and> field_ok False (\<lambda>v. (case v of None \<Rightarrow> True | Some x \<Rightarrow> decimal10 x) \<and> validate_compare_price (map_option fst instance) inp v)
         (pi_compare_price inp)
     \<and> field_ok False (\<lambda>n. 0 \<le> n \<and> n < 2 ^ 31) (pi_stock inp)
     \<and> field_ok (\<not> partial) (\<lambda>v. v \<noteq> [] \<and> length v \<le> 50 \<and> validate_sku k v c) (pi_sku inp)
     \<and> field_ok False (\<lambda>v. length v \<le> 200) (pi_tags inp))"

text \<open>\<^verbatim>\<open>slugify\<close> of Django is the argument \<open>slugify\<close>; the names of the other products are taken.\<close>

definition other_slugs :: "pk option \<Rightarrow> cdb \<Rightarrow> string list" where
  "other_slugs instance c = map en_slug (filter (\<lambda>e. instance \<noteq> Some (en_id e)) (entries c))"

definition unique_slug :: "(string \<Rightarrow> string) \<Rightarrow> pk option \<Rightarrow> string \<Rightarrow> cdb \<Rightarrow> string" where
  "unique_slug slugify instance name c = (let slug = slugify name in free_name (other_slugs instance c) slug ''-'' slug 1)"

text \<open>\<^verbatim>\<open>Product.save\<close> fills an empty slug; the tables refuse a slug or a sku that another product has.\<close>

definition entry_save :: "(string \<Rightarrow> string) \<Rightarrow> string \<Rightarrow> entry \<Rightarrow> entry" where
  "entry_save slugify name e = (if en_slug e = [] then e\<lparr>en_slug := slugify name\<rparr> else e)"

definition entry_clash :: "entry \<Rightarrow> cdb \<Rightarrow> bool" where
  "entry_clash e c \<longleftrightarrow> column_taken en_slug (Some (en_id e)) (en_slug e) c \<or> column_taken en_sku (Some (en_id e)) (en_sku e) c"

definition create_product :: "(string \<Rightarrow> string) \<Rightarrow> requester \<Rightarrow> product_input \<Rightarrow> timestamp \<Rightarrow> pk cop" where
  "create_product slugify who inp now = (\<lambda>(c, d).
     case who of None \<Rightarrow> Inl Unauthenticated
     | Some m \<Rightarrow>
       if \<not> IsSellerAndOwner False who then Inl Forbidden
       else if \<not> validate_product False None inp c then Inl (Invalid ''PRODUCT'')
       else let name = the (pi_name inp); k = next_id d;
              slug = (case pi_slug inp of None \<Rightarrow> unique_slug slugify None name c
                | Some v \<Rightarrow> if v = [] then unique_slug slugify None name c else v);
              p = \<lparr>p_id = k, p_name = name, p_price = the (pi_price inp), p_stock = (case pi_stock inp of None \<Rightarrow> 0 | Some n \<Rightarrow> n),
                p_sold_count = 0, p_is_active = (case pi_is_active inp of None \<Rightarrow> True | Some b \<Rightarrow> b),
                p_is_available = (case pi_is_available inp of None \<Rightarrow> True | Some b \<Rightarrow> b)\<rparr>;
              e = entry_save slugify name \<lparr>en_id = k, en_slug = slug, en_sku = the (pi_sku inp), en_category = the (pi_category inp),
                en_description = the (pi_description inp), en_compare_price = (case pi_compare_price inp of None \<Rightarrow> None | Some v \<Rightarrow> v),
                en_tags = (case pi_tags inp of None \<Rightarrow> [] | Some t \<Rightarrow> validate_tags t), en_seller = Some (mb_id m), en_created_at = now\<rparr>
            in if entry_clash e c then Inl (Raised IntegrityError)
               else Inr (k, c\<lparr>entries := entries c @ [e]\<rparr>, d\<lparr>products := products d @ [p], next_id := Suc k\<rparr>))"

text \<open>
  A change reads the row, sets the fields of the request and writes all columns back; the row is not locked, so that
  \<open>save_product\<close> may run later than the row \<open>(p, e)\<close> was read.
\<close>

definition set_fields :: "product_input \<Rightarrow> string option \<Rightarrow> listing \<Rightarrow> listing" where
  "set_fields inp slug = (\<lambda>(p, e).
     (p\<lparr>p_name := (case pi_name inp of None \<Rightarrow> p_name p | Some v \<Rightarrow> v), p_price := (case pi_price inp of None \<Rightarrow> p_price p | Some v \<Rightarrow> v),
        p_stock := (case pi_stock inp of None \<Rightarrow> p_stock p | Some v \<Rightarrow> v),
        p_is_active := (case pi_is_active inp of None \<Rightarrow> p_is_active p | Some v \<Rightarrow> v),
        p_is_available := (case pi_is_available inp of None \<Rightarrow> p_is_available p | Some v \<Rightarrow> v)\<rparr>,
      e\<lparr>en_slug := (case slug of None \<Rightarrow> en_slug e | Some v \<Rightarrow> v), en_sku := (case pi_sku inp of None \<Rightarrow> en_sku e | Some v \<Rightarrow> v),
        en_category := (case pi_category inp of None \<Rightarrow> en_category e | Some v \<Rightarrow> v),
        en_description := (case pi_description inp of None \<Rightarrow> en_description e | Some v \<Rightarrow> v),
        en_compare_price := (case pi_compare_price inp of None \<Rightarrow> en_compare_price e | Some v \<Rightarrow> v),
        en_tags := (case pi_tags inp of None \<Rightarrow> en_tags e | Some v \<Rightarrow> validate_tags v)\<rparr>))"

definition new_slug :: "(string \<Rightarrow> string) \<Rightarrow> pk \<Rightarrow> product_input \<Rightarrow> cdb \<Rightarrow> string option" where
  "new_slug slugify k inp c = (case pi_name inp of
     Some name \<Rightarrow> (if pi_slug inp = None \<or> pi_slug inp = Some [] then Some (unique_slug slugify (Some k) name c) else pi_slug inp)
   | None \<Rightarrow> pi_slug inp)"

definition save_product :: "(string \<Rightarrow> string) \<Rightarrow> product_input \<Rightarrow> listing \<Rightarrow> unit cop" where
  "save_product slugify inp row = (\<lambda>(c, d).
     case set_fields inp (new_slug slugify (p_id (fst row)) inp c) row of (p, e0) \<Rightarrow>
       let e = entry_save slugify (p_name p) e0
       in if entry_clash e c then Inl (Raised IntegrityError)
          else Inr ((), c\<lparr>entries := rupd en_id (entries c) (en_id e) (\<lambda>_. e)\<rparr>, upd_product (p_id p) (\<lambda>_. p) d))"

definition find_listing :: "pk \<Rightarrow> cdb \<times> db \<Rightarrow> listing option" where
  "find_listing k s = find (\<lambda>(p, e). p_id p = k \<and> p_is_active p) (shelf s)"

definition update_product :: "(string \<Rightarrow> string) \<Rightarrow> requester \<Rightarrow> bool \<Rightarrow> pk \<Rightarrow> product_input \<Rightarrow> unit cop" where
  "update_product slugify who partial k inp s = (
     if who = None then Inl Unauthenticated
     else if \<not> IsSellerAndOwner False who then Inl Forbidden
     else case find_listing k s of
       None \<Rightarrow> Inl NotFound
     | Some row \<Rightarrow>
         if \<not> IsSellerAndOwner_object False who (en_seller (snd row)) then Inl Forbidden
         else if \<not> validate_product partial (Some row) inp (fst s) then Inl (Invalid ''PRODUCT'')
         else save_product slugify inp row s)"

text \<open>Deleting a product deletes its images, reviews, wishes and lines in carts; its questions protect it, and the items of
  orders and the exchanges of returns lose the reference.\<close>

definition destroy_product :: "requester \<Rightarrow> pk \<Rightarrow> unit cop" where
  "destroy_product who k = (\<lambda>(c, d).
     if who = None then Inl Unauthenticated
     else if \<not> IsSellerAndOwner False who then Inl Forbidden
     else case find_listing k (c, d) of
       None \<Rightarrow> Inl NotFound
     | Some (p, e) \<Rightarrow>
         if \<not> IsSellerAndOwner_object False who (en_seller e) then Inl Forbidden
         else if \<exists>q \<in> set (questions c). qu_product q = k then Inl (Raised IntegrityError)
         else Inr ((),
           c\<lparr>entries := filter (\<lambda>e. en_id e \<noteq> k) (entries c), images := filter (\<lambda>i. im_product i \<noteq> k) (images c),
             reviews := filter (\<lambda>r. rv_product r \<noteq> k) (reviews c), wishes := filter (\<lambda>(u, x). x \<noteq> k) (wishes c)\<rparr>,
           d\<lparr>products := filter (\<lambda>p. p_id p \<noteq> k) (products d), cart_items := filter (\<lambda>i. ci_product i \<noteq> k) (cart_items d),
             order_items := map (\<lambda>i. if oi_product i = Some k then i\<lparr>oi_product := None\<rparr> else i) (order_items d),
             returns := map (\<lambda>r. if ret_exchange_product r = Some k then r\<lparr>ret_exchange_product := None\<rparr> else r) (returns d)\<rparr>))"

section \<open>Images and reviews\<close>

text \<open>\<open>intended\<close> is the value of \<^verbatim>\<open>is_primary\<close> in the caller's object.\<close>

definition set_primary_image :: "image \<Rightarrow> bool \<Rightarrow> cdb \<Rightarrow> cdb" where
  "set_primary_image img intended c = (
     if \<not> intended then c
     else let locked = map im_id (filter (\<lambda>i. im_product i = im_product img) (images c));
            cleared = map (\<lambda>i. if im_id i \<in> set locked then i\<lparr>im_is_primary := False\<rparr> else i) (images c)
          in c\<lparr>images := rupd im_id cleared (im_id img) (\<lambda>i. i\<lparr>im_is_primary := True\<rparr>)\<rparr>)"

definition create_review :: "requester \<Rightarrow> pk \<Rightarrow> int \<Rightarrow> string \<Rightarrow> timestamp \<Rightarrow> pk cop" where
  "create_review who k rating comment now = (\<lambda>(c, d).
     case who of None \<Rightarrow> Inl Unauthenticated
     | Some m \<Rightarrow> (case find_listing k (c, d) of
         None \<Rightarrow> Inl NotFound
       | Some _ \<Rightarrow>
           if \<exists>r \<in> set (reviews c). rv_product r = k \<and> rv_user r = mb_id m then Inl (Invalid ''ALREADY_REVIEWED'')
           else if rating \<notin> {1..5} \<or> comment = [] then Inl (Invalid ''REVIEW'')
           else let r = \<lparr>rv_id = cat_next c, rv_product = k, rv_user = mb_id m, rv_rating = rating, rv_comment = comment, rv_created_at = now\<rparr>
             in Inr (rv_id r, c\<lparr>reviews := reviews c @ [r], cat_next := Suc (cat_next c)\<rparr>, d)))"

text \<open>The image shown for a product: the first by order and time; a wish list prefers the primary one.\<close>

definition images_of :: "pk \<Rightarrow> cdb \<Rightarrow> image list" where
  "images_of k c = sort_key (\<lambda>i. (im_order i, im_created_at i)) (filter (\<lambda>i. im_product i = k) (images c))"

definition get_thumbnail_image :: "pk \<Rightarrow> cdb \<Rightarrow> string option" where
  "get_thumbnail_image k c = (case images_of k c of [] \<Rightarrow> None | i # _ \<Rightarrow> if im_url i = [] then None else Some (im_url i))"

definition get_primary_image :: "pk \<Rightarrow> cdb \<Rightarrow> string option" where
  "get_primary_image k c = (case find im_is_primary (images_of k c) of
     Some i \<Rightarrow> Some (im_url i)
   | None \<Rightarrow> (case images_of k c of [] \<Rightarrow> None | i # _ \<Rightarrow> Some (im_url i)))"

text \<open>The name shown next to a review.\<close>

definition user_display_name :: "string \<Rightarrow> string" where
  "user_display_name username = (if length username \<le> 2 then take 1 username @ ''*''
     else take 1 username @ replicate (length username - 2) CHR ''*'' @ [last username])"

end
