(* ===== verification/Listings.thy ===== *)
theory Listings
  imports Catalogue
begin

text \<open>
  The lists of products that visitors see: \<^verbatim>\<open>services/product_query_service.py\<close>, \<^verbatim>\<open>dtos/product_filter.py\<close> and the
  queries of \<^verbatim>\<open>views/product_views.py\<close>.  A query is a list of cards, the rows with the four values that the
  subqueries add.  Where the database may return equal rows in any order, here they keep the order of the table.
  The average is the exact quotient.
\<close>

section \<open>Filters of a request\<close>

record filter_params =
  fp_category_id :: "int option"
  fp_min_price :: "int option"
  fp_max_price :: "int option"
  fp_in_stock :: "bool option"
  fp_seller_id :: "int option"

definition parse_int :: "string option \<Rightarrow> int option" where
  "parse_int value = Option.bind value int_text"

definition parse_bool :: "string option \<Rightarrow> bool option" where
  "parse_bool value = (case value of
     None \<Rightarrow> None
   | Some v \<Rightarrow> if lower v = ''true'' then Some True else if lower v = ''false'' then Some False else None)"

definition from_request :: "(string \<Rightarrow> string option) \<Rightarrow> filter_params" where
  "from_request get = \<lparr>fp_category_id = parse_int (get ''category''), fp_min_price = parse_int (get ''min_price''),
     fp_max_price = parse_int (get ''max_price''), fp_in_stock = parse_bool (get ''in_stock''), fp_seller_id = parse_int (get ''seller'')\<rparr>"

section \<open>Cards\<close>

record card =
  cd_product :: product
  cd_entry :: entry
  cd_avg_rating :: "rat option"
  cd_review_cnt :: nat
  cd_wishlist_cnt :: nat
  cd_is_wished :: bool

definition reviews_of :: "pk \<Rightarrow> cdb \<Rightarrow> review list" where
  "reviews_of k c = filter (\<lambda>r. rv_product r = k) (reviews c)"

definition wishlist_count :: "pk \<Rightarrow> cdb \<Rightarrow> nat" where
  "wishlist_count k c = length (filter (\<lambda>(u, x). x = k) (wishes c))"

definition average :: "int list \<Rightarrow> rat option" where
  "average xs = (if xs = [] then None else Some (of_int (sum_list xs) / of_nat (length xs)))"

definition annotate_list_stats :: "pk option \<Rightarrow> cdb \<Rightarrow> listing \<Rightarrow> card" where
  "annotate_list_stats user_id c = (\<lambda>(p, e). \<lparr>cd_product = p, cd_entry = e,
     cd_avg_rating = average (map rv_rating (reviews_of (p_id p) c)), cd_review_cnt = length (reviews_of (p_id p) c),
     cd_wishlist_cnt = wishlist_count (p_id p) c,
     cd_is_wished = (case user_id of None \<Rightarrow> False | Some u \<Rightarrow> (u, p_id p) \<in> set (wishes c))\<rparr>)"

definition product_card_queryset :: "pk option \<Rightarrow> cdb \<times> db \<Rightarrow> card list" where
  "product_card_queryset user_id s = map (annotate_list_stats user_id (fst s)) (shelf s)"

text \<open>Half to even to one place, as the \<^verbatim>\<open>round\<close> of Python; the rating is rounded exactly.\<close>

definition rounded_rating :: "rat option \<Rightarrow> rat" where
  "rounded_rating v = (case v of None \<Rightarrow> 0 | Some x \<Rightarrow>
     let t = x * 10; f = \<lfloor>t\<rfloor>; r = t - of_int f
     in of_int (if r > 1 / 2 \<or> (r = 1 / 2 \<and> odd f) then f + 1 else f) / 10)"

section \<open>Lists\<close>

text \<open>\<open>desc\<close> is \<^verbatim>\<open>get_descendants(include_self=True)\<close>; a category that does not exist does not filter.\<close>

definition in_category :: "(category list \<Rightarrow> pk \<Rightarrow> pk list) \<Rightarrow> cdb \<Rightarrow> int option \<Rightarrow> entry \<Rightarrow> bool" where
  "in_category desc c category_id e = (case category_id of
     None \<Rightarrow> True
   | Some k \<Rightarrow> if k < 0 \<or> get_category c (nat k) = None then True else en_category e \<in> set (desc (categories c) (nat k)))"

definition matches :: "(category list \<Rightarrow> pk \<Rightarrow> pk list) \<Rightarrow> filter_params \<Rightarrow> cdb \<Rightarrow> card \<Rightarrow> bool" where
  "matches desc f c x \<longleftrightarrow> p_is_active (cd_product x) \<and> in_category desc c (fp_category_id f) (cd_entry x)
     \<and> (case fp_min_price f of None \<Rightarrow> True | Some v \<Rightarrow> p_price (cd_product x) \<ge> v)
     \<and> (case fp_max_price f of None \<Rightarrow> True | Some v \<Rightarrow> p_price (cd_product x) \<le> v)
     \<and> (case fp_in_stock f of None \<Rightarrow> True | Some b \<Rightarrow> if b then p_stock (cd_product x) > 0 else p_stock (cd_product x) = 0)
     \<and> (case fp_seller_id f of None \<Rightarrow> True | Some k \<Rightarrow> map_option int (en_seller (cd_entry x)) = Some k)"

definition get_queryset :: "(category list \<Rightarrow> pk \<Rightarrow> pk list) \<Rightarrow> pk option \<Rightarrow> (string \<Rightarrow> string option) \<Rightarrow> cdb \<times> db \<Rightarrow> card list" where
  "get_queryset desc user_id get s = filter (matches desc (from_request get) (fst s)) (product_card_queryset user_id s)"

definition by_newest :: "card list \<Rightarrow> card list" where
  "by_newest = sort_key (\<lambda>x. - en_created_at (cd_entry x))"

text \<open>Sorting by a text needs the order of the database and is left out; other values of the parameter keep the default order.\<close>

definition order_cards :: "string \<Rightarrow> card list \<Rightarrow> card list" where
  "order_cards sorting xs = (
     if sorting = ''created_at'' then sort_key (\<lambda>x. en_created_at (cd_entry x)) xs
     else if sorting = ''price'' then sort_key (\<lambda>x. p_price (cd_product x)) xs
     else if sorting = ''-price'' then sort_key (\<lambda>x. - p_price (cd_product x)) xs
     else by_newest xs)"

definition popular :: "(category list \<Rightarrow> pk \<Rightarrow> pk list) \<Rightarrow> pk option \<Rightarrow> (string \<Rightarrow> string option) \<Rightarrow> cdb \<times> db \<Rightarrow> card list" where
  "popular desc user_id get s = take 12 (sort_key (\<lambda>x. - int (cd_review_cnt x))
     (filter (\<lambda>x. cd_review_cnt x > 0) (get_queryset desc user_id get s)))"

definition rating_key :: "card \<Rightarrow> rat" where
  "rating_key x = (case cd_avg_rating x of None \<Rightarrow> 0 | Some v \<Rightarrow> - v)"

definition best_rating :: "(category list \<Rightarrow> pk \<Rightarrow> pk list) \<Rightarrow> pk option \<Rightarrow> (string \<Rightarrow> string option) \<Rightarrow> cdb \<times> db \<Rightarrow> card list" where
  "best_rating desc user_id get s = take 12 (sort_key rating_key
     (filter (\<lambda>x. cd_review_cnt x \<ge> 3) (get_queryset desc user_id get s)))"

definition low_stock :: "requester \<Rightarrow> cdb \<times> db \<Rightarrow> cat_error + card list" where
  "low_stock who s = (case who of
     None \<Rightarrow> Inl Unauthenticated
   | Some m \<Rightarrow>
       if \<not> mb_is_seller m then Inl Forbidden
       else Inr (sort_key (\<lambda>x. (p_stock (cd_product x), - en_created_at (cd_entry x)))
         (filter (\<lambda>x. en_seller (cd_entry x) = Some (mb_id m) \<and> p_is_active (cd_product x) \<and> p_stock (cd_product x) \<le> 10)
           (product_card_queryset (Some (mb_id m)) s))))"

text \<open>\<^verbatim>\<open>icontains\<close>.\<close>

fun contains_text :: "string \<Rightarrow> string \<Rightarrow> bool" where
  "contains_text q [] \<longleftrightarrow> q = []"
| "contains_text q (x # xs) \<longleftrightarrow> take (length q) (x # xs) = q \<or> contains_text q xs"

definition icontains :: "string \<Rightarrow> string \<Rightarrow> bool" where
  "icontains q text \<longleftrightarrow> contains_text (lower q) (lower text)"

text \<open>The search repeats the filters of the list on the parameters; here a category that is no number is an error.\<close>

definition search :: "(category list \<Rightarrow> pk \<Rightarrow> pk list) \<Rightarrow> pk option \<Rightarrow> (string \<Rightarrow> string option) \<Rightarrow> cdb \<times> db \<Rightarrow> cat_error + card list" where
  "search desc user_id get s = (
     let param = (\<lambda>k. case get k of None \<Rightarrow> [] | Some v \<Rightarrow> v);
         q = strip_by is_space (param ''q'');
         found = filter (\<lambda>x. q = [] \<or> icontains q (p_name (cd_product x)) \<or> icontains q (en_description (cd_entry x)))
           (get_queryset desc user_id get s)
     in if param ''category'' \<noteq> [] \<and> int_text (param ''category'') = None then Inl (Raised ValueError)
        else let category = (if param ''category'' = [] then None else int_text (param ''category''));
                 low = (if param ''min_price'' = [] then None else int_text (param ''min_price''));
                 high = (if param ''max_price'' = [] then None else int_text (param ''max_price''))
          in Inr (order_cards (case get ''ordering'' of None \<Rightarrow> ''-created_at'' | Some v \<Rightarrow> v)
               (filter (\<lambda>x. in_category desc (fst s) category (cd_entry x)
                  \<and> (case low of None \<Rightarrow> True | Some v \<Rightarrow> p_price (cd_product x) \<ge> v)
                  \<and> (case high of None \<Rightarrow> True | Some v \<Rightarrow> p_price (cd_product x) \<le> v)) found)))"

definition category_products :: "(category list \<Rightarrow> pk \<Rightarrow> pk list) \<Rightarrow> pk option \<Rightarrow> pk \<Rightarrow> cdb \<times> db \<Rightarrow> cat_error + card list" where
  "category_products desc user_id k s = (
     if \<not> (\<exists>g \<in> set (categories (fst s)). ct_id g = k \<and> ct_is_active g) then Inl NotFound
     else Inr (by_newest (filter (\<lambda>x. en_category (cd_entry x) \<in> set (desc (categories (fst s)) k) \<and> p_is_active (cd_product x))
       (product_card_queryset user_id s))))"

text \<open>A page of a list: \<^verbatim>\<open>ProductPagination\<close> takes at most 100 rows; a page that is empty does not exist, but for the first.\<close>

definition PAGE_SIZE :: nat where
  "PAGE_SIZE = 12"

definition MAX_PAGE_SIZE :: nat where
  "MAX_PAGE_SIZE = 100"

definition page_size :: "int option \<Rightarrow> nat" where
  "page_size requested = (case requested of None \<Rightarrow> PAGE_SIZE | Some n \<Rightarrow> if n \<le> 0 then PAGE_SIZE else min (nat n) MAX_PAGE_SIZE)"

definition paginate :: "nat \<Rightarrow> nat \<Rightarrow> 'x list \<Rightarrow> cat_error + 'x list" where
  "paginate per_page page xs = (
     if page = 0 \<or> (page > 1 \<and> (page - 1) * per_page \<ge> length xs) then Inl NotFound
     else Inr (take per_page (drop ((page - 1) * per_page) xs)))"

end
