(* ===== verification/Wishlist.thy ===== *)
theory Wishlist
  imports Listings
begin

text \<open>
  Wish lists: \<^verbatim>\<open>src/shopping/services/wishlist_service.py\<close> with the methods of \<^verbatim>\<open>models/user.py\<close> it calls.  Sorting by
  name needs the order of the database and is left out.
\<close>

section \<open>The table\<close>

text \<open>\<^verbatim>\<open>wishlist_products.add\<close> skips what is there already.\<close>

definition is_in_wishlist :: "pk \<Rightarrow> pk \<Rightarrow> cdb \<Rightarrow> bool" where
  "is_in_wishlist u k c \<longleftrightarrow> (u, k) \<in> set (wishes c)"

definition add_to_wishlist :: "pk \<Rightarrow> pk \<Rightarrow> cdb \<Rightarrow> cdb" where
  "add_to_wishlist u k c = (if is_in_wishlist u k c then c else c\<lparr>wishes := wishes c @ [(u, k)]\<rparr>)"

definition remove_from_wishlist :: "pk \<Rightarrow> pk \<Rightarrow> cdb \<Rightarrow> cdb" where
  "remove_from_wishlist u k c = c\<lparr>wishes := filter (\<lambda>w. w \<noteq> (u, k)) (wishes c)\<rparr>"

definition clear_wishlist :: "pk \<Rightarrow> cdb \<Rightarrow> cdb" where
  "clear_wishlist u c = c\<lparr>wishes := filter (\<lambda>(v, k). v \<noteq> u) (wishes c)\<rparr>"

definition get_wishlist_count :: "pk \<Rightarrow> cdb \<Rightarrow> nat" where
  "get_wishlist_count u c = length (filter (\<lambda>(v, k). v = u) (wishes c))"

text \<open>\<^verbatim>\<open>user.wishlist_products.all()\<close>, newest product first.\<close>

definition wishlist_products :: "pk \<Rightarrow> cdb \<times> db \<Rightarrow> listing list" where
  "wishlist_products u s = sort_key (\<lambda>(p, e). - en_created_at e) (filter (\<lambda>(p, e). is_in_wishlist u (p_id p) (fst s)) (shelf s))"

section \<open>Changing a wish list\<close>

definition get_wished_product :: "pk \<Rightarrow> cdb \<times> db \<Rightarrow> cat_error + product" where
  "get_wished_product k s = (case get_product (snd s) k of None \<Rightarrow> Inl (Invalid ''PRODUCT_NOT_FOUND'') | Some p \<Rightarrow> Inr p)"

record toggle_result =
  tr_is_wished :: bool
  tr_wishlist_count :: nat

definition toggle :: "pk \<Rightarrow> pk \<Rightarrow> toggle_result cop" where
  "toggle u k s = (case get_wished_product k s of
     Inl e \<Rightarrow> Inl e
   | Inr p \<Rightarrow>
       let c = fst s; wished = is_in_wishlist u k c;
           c1 = (if wished then remove_from_wishlist u k c else add_to_wishlist u k c)
       in Inr (\<lparr>tr_is_wished = \<not> wished, tr_wishlist_count = wishlist_count k c1\<rparr>, c1, snd s))"

definition wish_add :: "pk \<Rightarrow> pk \<Rightarrow> (bool \<times> nat) cop" where
  "wish_add u k s = (case get_wished_product k s of
     Inl e \<Rightarrow> Inl e
   | Inr p \<Rightarrow>
       if is_in_wishlist u k (fst s) then Inr ((False, wishlist_count k (fst s)), s)
       else let c1 = add_to_wishlist u k (fst s) in Inr ((True, wishlist_count k c1), c1, snd s))"

definition wish_remove :: "pk \<Rightarrow> pk \<Rightarrow> string cop" where
  "wish_remove u k s = (case get_wished_product k s of
     Inl e \<Rightarrow> Inl e
   | Inr p \<Rightarrow>
       if \<not> is_in_wishlist u k (fst s) then Inl (Invalid ''NOT_IN_WISHLIST'')
       else Inr (p_name p, remove_from_wishlist u k (fst s), snd s))"

record bulk_wish_result =
  bw_added :: nat
  bw_skipped :: nat
  bw_total :: nat

text \<open>The serializer refuses products that do not exist and drops duplicates; the service adds the active ones.\<close>

definition validate_product_ids :: "pk list \<Rightarrow> cdb \<times> db \<Rightarrow> cat_error + pk list" where
  "validate_product_ids ks s = (
     if ks = [] then Inl (Invalid ''EMPTY_PRODUCT_IDS'')
     else if \<exists>k \<in> set ks. get_product (snd s) k = None then Inl (Invalid ''PRODUCT_NOT_FOUND'')
     else Inr (remdups ks))"

definition bulk_add :: "pk \<Rightarrow> pk list \<Rightarrow> bulk_wish_result cop" where
  "bulk_add u ks s = (
     if ks = [] then Inl (Invalid ''EMPTY_PRODUCT_IDS'')
     else let c = fst s;
              to_add = filter (\<lambda>k. \<not> is_in_wishlist u k c) ks;
              found = filter (\<lambda>p. p_id p \<in> set to_add \<and> p_is_active p) (products (snd s));
              c1 = fold (\<lambda>p. add_to_wishlist u (p_id p)) found c
          in Inr (\<lparr>bw_added = length found, bw_skipped = length ks - length to_add, bw_total = get_wishlist_count u c1\<rparr>, c1, snd s))"

definition wish_clear :: "pk \<Rightarrow> nat cop" where
  "wish_clear u s = (let n = get_wishlist_count u (fst s) in
     if n = 0 then Inl (Invalid ''WISHLIST_EMPTY'') else Inr (n, clear_wishlist u (fst s), snd s))"

definition wish_check :: "pk \<Rightarrow> pk \<Rightarrow> cdb \<times> db \<Rightarrow> cat_error + bool \<times> nat" where
  "wish_check u k s = (case get_wished_product k s of
     Inl e \<Rightarrow> Inl e
   | Inr p \<Rightarrow> Inr (is_in_wishlist u k (fst s), wishlist_count k (fst s)))"

section \<open>Reading a wish list\<close>

record wishlist_filter =
  wf_is_available :: "bool option"
  wf_on_sale :: bool
  wf_ordering :: string

definition parse_filters :: "string option \<Rightarrow> string option \<Rightarrow> string option \<Rightarrow> wishlist_filter" where
  "parse_filters avail on_sale sorting = \<lparr>
     wf_is_available = (if avail = Some ''true'' then Some True else if avail = Some ''false'' then Some False else None),
     wf_on_sale = (on_sale = Some ''true''), wf_ordering = (case sorting of None \<Rightarrow> ''-created_at'' | Some v \<Rightarrow> v)\<rparr>"

definition wish_available :: "listing \<Rightarrow> bool" where
  "wish_available = (\<lambda>(p, e). p_stock p > 0 \<and> p_is_active p)"

definition wish_unavailable :: "listing \<Rightarrow> bool" where
  "wish_unavailable = (\<lambda>(p, e). p_stock p = 0 \<or> \<not> p_is_active p)"

definition wish_on_sale :: "listing \<Rightarrow> bool" where
  "wish_on_sale = (\<lambda>(p, e). case en_compare_price e of None \<Rightarrow> False | Some v \<Rightarrow> v > p_price p)"

definition get_list :: "pk \<Rightarrow> wishlist_filter \<Rightarrow> cdb \<times> db \<Rightarrow> listing list" where
  "get_list u f s = (
     let xs = wishlist_products u s;
         ys = (case wf_is_available f of None \<Rightarrow> xs | Some True \<Rightarrow> filter wish_available xs | Some False \<Rightarrow> filter wish_unavailable xs);
         zs = (if wf_on_sale f then filter (\<lambda>x. wish_on_sale x \<and> the (en_compare_price (snd x)) > 0) ys else ys)
     in if wf_ordering f = ''created_at'' then sort_key (\<lambda>(p, e). en_created_at e) zs
        else if wf_ordering f = ''price'' then sort_key (\<lambda>(p, e). p_price p) zs
        else if wf_ordering f = ''-price'' then sort_key (\<lambda>(p, e). - p_price p) zs
        else zs)"

record wishlist_stats =
  ws_total :: nat
  ws_available :: nat
  ws_out_of_stock :: nat
  ws_on_sale :: nat
  ws_total_price :: money
  ws_total_sale_price :: money
  ws_total_discount :: money

definition list_price :: "listing \<Rightarrow> money" where
  "list_price x = (if wish_on_sale x then the (en_compare_price (snd x)) else p_price (fst x))"

definition discount :: "listing \<Rightarrow> money" where
  "discount x = (if wish_on_sale x then the (en_compare_price (snd x)) - p_price (fst x) else 0)"

definition get_stats :: "pk \<Rightarrow> cdb \<times> db \<Rightarrow> wishlist_stats" where
  "get_stats u s = (let xs = wishlist_products u s in
     \<lparr>ws_total = length xs, ws_available = length (filter wish_available xs), ws_out_of_stock = length (filter wish_unavailable xs),
      ws_on_sale = length (filter wish_on_sale xs), ws_total_price = sum_list (map list_price xs),
      ws_total_sale_price = sum_list (map (\<lambda>(p, e). p_price p) xs), ws_total_discount = sum_list (map discount xs)\<rparr>)"

section \<open>Moving wishes to the cart\<close>

record move_result =
  mv_added :: "string list"
  mv_already_in_cart :: "string list"
  mv_out_of_stock :: "string list"

fun move_loop :: "pk \<Rightarrow> listing list \<Rightarrow> move_result \<Rightarrow> db \<Rightarrow> exn + move_result \<times> db" where
  "move_loop cid [] res d = Inr (res, d)"
| "move_loop cid ((p, e) # xs) res d = (
     if p_stock p \<le> 0 then move_loop cid xs (res\<lparr>mv_out_of_stock := mv_out_of_stock res @ [p_name p]\<rparr>) d
     else case item_of_product d cid (p_id p) of
       Some i \<Rightarrow> move_loop cid xs (res\<lparr>mv_already_in_cart := mv_already_in_cart res @ [p_name p]\<rparr>) d
     | None \<Rightarrow> (case create_cart_item cid (p_id p) 1 None d of
         Inl err \<Rightarrow> Inl err
       | Inr (i, d1) \<Rightarrow> move_loop cid xs (res\<lparr>mv_added := mv_added res @ [p_name p]\<rparr>) d1))"

text \<open>What was added is removed from the wish list by its name.\<close>

definition remove_by_name :: "pk \<Rightarrow> string list \<Rightarrow> cdb \<times> db \<Rightarrow> cdb" where
  "remove_by_name u names s = fold (\<lambda>p. remove_from_wishlist u (p_id p))
     (filter (\<lambda>p. p_name p \<in> set names) (products (snd s))) (fst s)"

definition move_to_cart :: "pk \<Rightarrow> pk list \<Rightarrow> bool \<Rightarrow> move_result cop" where
  "move_to_cart u ks remove s = (
     if ks = [] then Inl (Invalid ''EMPTY_PRODUCT_IDS'')
     else case filter (\<lambda>(p, e). p_id p \<in> set ks) (wishlist_products u s) of
       [] \<Rightarrow> Inl (Invalid ''PRODUCTS_NOT_IN_WISHLIST'')
     | x # xs \<Rightarrow> (case get_or_create_active_cart (\<lambda>d. d) (Member u) (snd s) of
         Inl e \<Rightarrow> Inl (Raised e)
       | Inr ((cart, _), d1) \<Rightarrow> (case move_loop (c_id cart) (x # xs) \<lparr>mv_added = [], mv_already_in_cart = [], mv_out_of_stock = []\<rparr> d1 of
           Inl e \<Rightarrow> Inl (Raised e)
         | Inr (res, d2) \<Rightarrow> Inr (res, (if remove \<and> mv_added res \<noteq> [] then remove_by_name u (mv_added res) (fst s, d2) else fst s), d2))))"

end
