(* ===== verification/Wishlist_Ops.thy ===== *)
theory Wishlist_Ops
  imports Wishlist Cart_Merge
begin

text \<open>
  What the operations on wish lists do: to the set of wishes, and to the cart of the user when wishes are moved there.
\<close>

section \<open>Wishes as a set\<close>

definition wished :: "pk \<Rightarrow> cdb \<Rightarrow> pk set" where
  "wished u c = {k. (u, k) \<in> set (wishes c)}"

definition wish_frame :: "cdb \<Rightarrow> cdb \<Rightarrow> bool" where
  "wish_frame c c' \<longleftrightarrow> c' = c\<lparr>wishes := wishes c'\<rparr>"

lemma wish_frame_refl [simp]: "wish_frame c c"
  by (simp add: wish_frame_def)

lemma wish_frame_trans: "wish_frame c d \<Longrightarrow> wish_frame d e \<Longrightarrow> wish_frame c e"
  unfolding wish_frame_def by (metis cdb.surjective cdb.update_convs(5))

lemma wish_frame_update [simp]: "wish_frame c (c\<lparr>wishes := ws\<rparr>)"
  by (simp add: wish_frame_def)

text \<open>A change of the wishes of one user.\<close>

locale wish_change =
  fixes f :: "'x \<Rightarrow> pk \<Rightarrow> cdb \<Rightarrow> cdb" and g :: "'x \<Rightarrow> pk set \<Rightarrow> pk set"
  assumes frame: "wish_frame c (f x u c)"
    and distinct: "distinct (wishes c) \<Longrightarrow> distinct (wishes (f x u c))"
    and own: "wished u (f x u c) = g x (wished u c)"
    and others: "v \<noteq> u \<Longrightarrow> wished v (f x u c) = wished v c"
begin

lemma all_frame: "wish_frame c (fold (\<lambda>x. f x u) xs c)"
  by (induction xs arbitrary: c) (auto intro: wish_frame_trans frame)

lemma all_distinct: "distinct (wishes c) \<Longrightarrow> distinct (wishes (fold (\<lambda>x. f x u) xs c))"
  by (induction xs arbitrary: c) (auto intro: distinct)

lemma fold_own: "wished u (fold (\<lambda>x. f x u) xs c) = fold g xs (wished u c)"
  by (induction xs arbitrary: c) (simp_all add: own)

lemma fold_others: "v \<noteq> u \<Longrightarrow> wished v (fold (\<lambda>x. f x u) xs c) = wished v c"
  by (induction xs arbitrary: c) (simp_all add: others)

end

interpretation add_wish: wish_change "\<lambda>k u. add_to_wishlist u k" insert
  by unfold_locales (auto simp: add_to_wishlist_def is_in_wishlist_def wished_def)

interpretation remove_wish: wish_change "\<lambda>k u. remove_from_wishlist u k" "\<lambda>k ks. ks - {k}"
  by unfold_locales (auto simp: remove_from_wishlist_def wished_def)

interpretation clear_wishes: wish_change "\<lambda>_. clear_wishlist" "\<lambda>_ _. {}"
  by unfold_locales (auto simp: clear_wishlist_def wished_def)

lemma fold_insert_set: "fold insert xs A = A \<union> set xs"
  by (induction xs arbitrary: A) auto

lemma fold_remove_set: "fold (\<lambda>k ks. ks - {k}) xs A = A - set xs"
  by (induction xs arbitrary: A) auto

lemma is_in_wished: "is_in_wishlist u k c \<longleftrightarrow> k \<in> wished u c"
  by (simp add: is_in_wishlist_def wished_def)

lemma finite_wished [simp]: "finite (wished u c)"
  by (rule finite_subset [of _ "snd ` set (wishes c)"]) (force simp: wished_def)+

text \<open>The counts of the code are the sizes of the sets.\<close>

lemma wish_count_card:
  assumes "distinct (wishes c)"
  shows "get_wishlist_count u c = card (wished u c)"
proof -
  have "wished u c = snd ` set (filter (\<lambda>(v, k). v = u) (wishes c))"
    by (force simp: wished_def)
  moreover have "inj_on snd (set (filter (\<lambda>(v, k). v = u) (wishes c)))"
    by (auto simp: inj_on_def)
  ultimately show ?thesis
    using distinct_card [OF distinct_filter [OF assms]] by (simp add: get_wishlist_count_def card_image del: set_filter)
qed

lemma popularity_card:
  assumes "distinct (wishes c)"
  shows "wishlist_count k c = card {u. k \<in> wished u c}"
proof -
  have "{u. k \<in> wished u c} = fst ` set (filter (\<lambda>(v, x). x = k) (wishes c))"
    by (force simp: wished_def)
  moreover have "inj_on fst (set (filter (\<lambda>(v, x). x = k) (wishes c)))"
    by (auto simp: inj_on_def)
  ultimately show ?thesis
    using distinct_card [OF distinct_filter [OF assms]] by (simp add: wishlist_count_def card_image del: set_filter)
qed

section \<open>The products of the catalogue\<close>

lemma in_shelf: "(p, e) \<in> set (shelf (c, d)) \<longleftrightarrow> e \<in> set (entries c) \<and> get_product d (en_id e) = Some p"
  by (auto simp: shelf_def List.map_filter_def listing_of_def image_iff)

lemma in_wishlist_products:
  "(p, e) \<in> set (wishlist_products u (c, d)) \<longleftrightarrow> (p, e) \<in> set (shelf (c, d)) \<and> p_id p \<in> wished u c"
  by (auto simp: wishlist_products_def is_in_wished)

lemma get_wished_product_Inr: "get_wished_product k (c, d) = Inr p \<longleftrightarrow> get_product d k = Some p"
  by (auto simp: get_wished_product_def split: option.splits)

section \<open>Moving wishes to the cart\<close>

lemma item_of_product_slot: "item_of_product d cid k \<noteq> None \<longleftrightarrow> (cid, k) \<in> slot ` set (cart_items d)"
  by (simp add: item_of_product_None)

definition moved_line :: "pk \<Rightarrow> listing list \<Rightarrow> string set \<Rightarrow> cart_item \<Rightarrow> bool" where
  "moved_line cid xs names i \<longleftrightarrow> ci_cart i = cid \<and> ci_quantity i = 1 \<and> ci_price_at_add i = None
     \<and> (\<exists>(p, e) \<in> set xs. ci_product i = p_id p \<and> 0 < p_stock p \<and> p_name p \<in> names)"

lemma moved_line_Cons: "moved_line cid xs names i \<Longrightarrow> names \<subseteq> names' \<Longrightarrow> moved_line cid (x # xs) names' i"
  by (auto simp: moved_line_def)

text \<open>The loop always ends well: a line is created only when the cart has none for the product.\<close>

lemma create_cart_item_fresh:
  assumes "item_of_product d cid k = None"
  obtains i where "create_cart_item cid k n price d = Inr (i, d\<lparr>cart_items := cart_items d @ [i], next_id := Suc (next_id d)\<rparr>)"
    "ci_cart i = cid" "ci_product i = k" "ci_quantity i = n" "ci_price_at_add i = price"
  using assms by (auto simp: create_cart_item_def item_of_product_def cart_lines_def find_None_iff list_ex_iff Let_def)

lemma move_loop_effect:
  assumes "cart_inv d" "cid \<in> cart_ids d" "\<forall>(p, e) \<in> set xs. p_id p \<in> product_ids d"
  shows "\<exists>new add old out d'. move_loop cid xs res d
         = Inr (res\<lparr>mv_added := mv_added res @ add, mv_already_in_cart := mv_already_in_cart res @ old, mv_out_of_stock := mv_out_of_stock res @ out\<rparr>, d')
       \<and> cart_change d d' \<and> carts d' = carts d \<and> cart_items d' = cart_items d @ new \<and> (\<forall>i \<in> set new. moved_line cid xs (set add) i)
       \<and> (\<forall>(p, e) \<in> set xs. 0 < p_stock p \<longrightarrow> item_of_product d' cid (p_id p) \<noteq> None)
       \<and> length add = length new \<and> set add \<subseteq> (\<lambda>(p, e). p_name p) ` set xs
       \<and> length add + length old + length out = length xs"
  using assms
proof (induction xs arbitrary: res d)
  case Nil
  then show ?case
    by (intro exI [of _ "[]"] exI [of _ d]) (simp add: cart_change_refl)
next
  case (Cons x xs)
  obtain p e where x: "x = (p, e)"
    by (cases x)
  consider (out) "p_stock p \<le> 0" | (old) i where "0 < p_stock p" "item_of_product d cid (p_id p) = Some i"
    | (new) "0 < p_stock p" "item_of_product d cid (p_id p) = None"
    using not_le by (cases "item_of_product d cid (p_id p)") blast+
  then show ?case
  proof cases
    case out
    show ?thesis
      using Cons.IH [of d "res\<lparr>mv_out_of_stock := mv_out_of_stock res @ [p_name p]\<rparr>"] Cons.prems out
      apply (simp add: x)
      apply (elim exE conjE)
      subgoal for new add old rest d'
        by (rule exI [of _ new], rule exI [of _ add], rule exI [of _ old], rule exI [of _ "p_name p # rest"], rule exI [of _ d'])
          (auto intro: moved_line_Cons)
      done
  next
    case (old i)
    have stays: "item_of_product d' cid (p_id p) \<noteq> None" if "cart_items d' = cart_items d @ new" for d' new
      using old(2) item_of_product_slot [of d cid "p_id p"] item_of_product_slot [of d' cid "p_id p"] that by auto
    show ?thesis
      using Cons.IH [of d "res\<lparr>mv_already_in_cart := mv_already_in_cart res @ [p_name p]\<rparr>"] Cons.prems old
      apply (simp add: x)
      apply (elim exE conjE)
      subgoal for new add have_it out d'
        by (rule exI [of _ new], rule exI [of _ add], rule exI [of _ "p_name p # have_it"], rule exI [of _ out], rule exI [of _ d'])
          (use stays [of d' new] in \<open>auto intro: moved_line_Cons\<close>)
      done
  next
    case new
    obtain i where i: "create_cart_item cid (p_id p) 1 None d = Inr (i, d\<lparr>cart_items := cart_items d @ [i], next_id := Suc (next_id d)\<rparr>)"
      (is "_ = Inr (i, ?d)") "ci_cart i = cid" "ci_product i = p_id p" "ci_quantity i = 1" "ci_price_at_add i = None"
      by (rule create_cart_item_fresh [OF new(2)])
    have one: "cart_change d ?d"
      by (rule create_cart_item_change [OF Cons.prems(1) i(1)]) (use Cons.prems x in auto)
    have stays: "item_of_product d' cid (p_id p) \<noteq> None" if "cart_items d' = cart_items d @ i # lines" for d' lines
      using item_of_product_slot [of d' cid "p_id p"] that i(2,3) by (auto simp: slot_def)
    have line: "moved_line cid ((p, e) # xs) (insert (p_name p) names) i" for names
      using i new by (auto simp: moved_line_def)
    show ?thesis
      using Cons.IH [of ?d "res\<lparr>mv_added := mv_added res @ [p_name p]\<rparr>"] Cons.prems new i cart_change_inv [OF one]
      apply (simp add: x)
      apply (elim exE conjE)
      subgoal for lines add have_it out d'
        by (rule exI [of _ "i # lines"], rule exI [of _ "p_name p # add"], rule exI [of _ have_it], rule exI [of _ out], rule exI [of _ d'])
          (use stays [of d' lines] line cart_change_trans [OF one] in \<open>auto intro: moved_line_Cons\<close>)
      done
  qed
qed


text \<open>The removal after the move goes by the names of the products.\<close>

lemma remove_by_name_wished:
  "wished u (remove_by_name u names (c, d)) = wished u c - p_id ` {p \<in> set (products d). p_name p \<in> set names}"
  "v \<noteq> u \<Longrightarrow> wished v (remove_by_name u names (c, d)) = wished v c"
proof -
  have fold_eq: "fold (\<lambda>p. remove_from_wishlist u (p_id p)) ps c = fold (\<lambda>k. remove_from_wishlist u k) (map p_id ps) c" for ps
    by (simp add: fold_map comp_def)
  show "wished u (remove_by_name u names (c, d)) = wished u c - p_id ` {p \<in> set (products d). p_name p \<in> set names}"
    by (simp add: remove_by_name_def fold_eq remove_wish.fold_own fold_remove_set)
  show "v \<noteq> u \<Longrightarrow> wished v (remove_by_name u names (c, d)) = wished v c"
    by (simp add: remove_by_name_def fold_eq remove_wish.fold_others)
qed

section \<open>The abstract wish lists\<close>

text \<open>A wish list is a set of products for each user; the requests and what they answer.\<close>

datatype wish_request = Toggle pk | AddWish pk | RemoveWish pk | BulkAdd "pk list" | ClearWishes

datatype wish_answer = Toggled bool nat | Added bool nat | Removed string | BulkAdded nat nat nat | Cleared nat

definition fans :: "pk \<Rightarrow> (pk \<Rightarrow> pk set) \<Rightarrow> nat" where
  "fans k W = card {u. k \<in> W u}"

fun wish_spec :: "(pk \<Rightarrow> product option) \<Rightarrow> pk \<Rightarrow> wish_request \<Rightarrow> (pk \<Rightarrow> pk set) \<Rightarrow> (wish_answer \<times> (pk \<Rightarrow> pk set)) option" where
  "wish_spec get u (Toggle k) W = (case get k of None \<Rightarrow> None | Some p \<Rightarrow>
     let W1 = W(u := if k \<in> W u then W u - {k} else insert k (W u)) in Some (Toggled (k \<notin> W u) (fans k W1), W1))"
| "wish_spec get u (AddWish k) W = (case get k of None \<Rightarrow> None | Some p \<Rightarrow>
     let W1 = W(u := insert k (W u)) in Some (Added (k \<notin> W u) (fans k W1), W1))"
| "wish_spec get u (RemoveWish k) W = (case get k of None \<Rightarrow> None | Some p \<Rightarrow>
     if k \<in> W u then Some (Removed (p_name p), W(u := W u - {k})) else None)"
| "wish_spec get u (BulkAdd ks) W = (if ks = [] then None else
     let fresh = {k \<in> set ks. k \<notin> W u \<and> (\<exists>p. get k = Some p \<and> p_is_active p)}; W1 = W(u := W u \<union> fresh)
     in Some (BulkAdded (card fresh) (length (filter (\<lambda>k. k \<in> W u) ks)) (card (W1 u)), W1))"
| "wish_spec get u ClearWishes W = (if W u = {} then None else Some (Cleared (card (W u)), W(u := {})))"

definition answer_with :: "('a \<Rightarrow> wish_answer) \<Rightarrow> cat_error + 'a \<times> cdb \<times> db \<Rightarrow> cat_error + wish_answer \<times> cdb \<times> db" where
  "answer_with f r = (case r of Inl e \<Rightarrow> Inl e | Inr (x, s) \<Rightarrow> Inr (f x, s))"

fun wish_run :: "pk \<Rightarrow> wish_request \<Rightarrow> wish_answer cop" where
  "wish_run u (Toggle k) s = answer_with (\<lambda>r. Toggled (tr_is_wished r) (tr_wishlist_count r)) (toggle u k s)"
| "wish_run u (AddWish k) s = answer_with (\<lambda>(new, n). Added new n) (wish_add u k s)"
| "wish_run u (RemoveWish k) s = answer_with Removed (wish_remove u k s)"
| "wish_run u (BulkAdd ks) s = answer_with (\<lambda>r. BulkAdded (bw_added r) (bw_skipped r) (bw_total r)) (bulk_add u ks s)"
| "wish_run u ClearWishes s = answer_with Cleared (wish_clear u s)"

definition wish_sets :: "cdb \<Rightarrow> pk \<Rightarrow> pk set" where
  "wish_sets c v = wished v c"

declare wish_sets_def [simp]

lemma add_sets: "wish_sets (add_to_wishlist u k c) = (wish_sets c)(u := insert k (wished u c))"
  by (rule ext) (simp add: add_wish.own add_wish.others)

lemma remove_sets: "wish_sets (remove_from_wishlist u k c) = (wish_sets c)(u := wished u c - {k})"
  by (rule ext) (simp add: remove_wish.own remove_wish.others)

lemma clear_sets: "wish_sets (clear_wishlist u c) = (wish_sets c)(u := {})"
  by (rule ext) (simp add: clear_wishes.own clear_wishes.others)

lemma same_sets: "(wish_sets c)(u := wished u c) = wish_sets c"
  by (rule ext) simp

lemma fans_count: "distinct (wishes c) \<Longrightarrow> wishlist_count k c = fans k (wish_sets c)"
  by (simp add: popularity_card fans_def)

lemmas wish_distinct = add_wish.distinct remove_wish.distinct clear_wishes.distinct

lemma toggle_refines:
  assumes "distinct (wishes c)"
  shows "wish_spec (get_product d) u (Toggle k) (wish_sets c)
    = (case wish_run u (Toggle k) (c, d) of Inl e \<Rightarrow> None | Inr (a, c', d') \<Rightarrow> Some (a, wish_sets c'))"
  using assms by (cases "get_product d k")
    (simp_all add: get_wished_product_def answer_with_def toggle_def is_in_wished fans_count wish_distinct add_sets remove_sets Let_def)

lemma add_refines:
  assumes "distinct (wishes c)"
  shows "wish_spec (get_product d) u (AddWish k) (wish_sets c)
    = (case wish_run u (AddWish k) (c, d) of Inl e \<Rightarrow> None | Inr (a, c', d') \<Rightarrow> Some (a, wish_sets c'))"
  using assms by (cases "get_product d k")
    (auto simp: get_wished_product_def answer_with_def wish_add_def is_in_wished fans_count wish_distinct add_sets Let_def insert_absorb same_sets)

lemma remove_refines:
  "wish_spec (get_product d) u (RemoveWish k) (wish_sets c)
    = (case wish_run u (RemoveWish k) (c, d) of Inl e \<Rightarrow> None | Inr (a, c', d') \<Rightarrow> Some (a, wish_sets c'))"
  by (cases "get_product d k")
    (simp_all add: get_wished_product_def answer_with_def wish_remove_def is_in_wished remove_sets)

lemma clear_refines:
  assumes "distinct (wishes c)"
  shows "wish_spec (get_product d) u ClearWishes (wish_sets c)
    = (case wish_run u ClearWishes (c, d) of Inl e \<Rightarrow> None | Inr (a, c', d') \<Rightarrow> Some (a, wish_sets c'))"
  using assms by (simp add: answer_with_def wish_clear_def Let_def wish_count_card clear_sets card_eq_0_iff)

lemma bulk_found:
  assumes "keys_distinct p_id (products d)"
  shows "p_id ` set (filter (\<lambda>p. p_id p \<in> ks \<and> p_is_active p) (products d)) = {k \<in> ks. \<exists>p. get_product d k = Some p \<and> p_is_active p}"
    (is "?L = ?R")
    and "length (filter (\<lambda>p. p_id p \<in> ks \<and> p_is_active p) (products d)) = card {k \<in> ks. \<exists>p. get_product d k = Some p \<and> p_is_active p}"
proof -
  show eq: "?L = ?R"
  proof (intro set_eqI iffI)
    fix k
    assume "k \<in> ?L"
    then show "k \<in> ?R"
      using rget_in_distinct [OF assms] by auto
  next
    fix k
    assume "k \<in> ?R"
    then obtain p where "k \<in> ks" "get_product d k = Some p" "p_is_active p"
      by blast
    then show "k \<in> ?L"
      using rget_Some_in [of p_id "products d" k p] rget_Some_key [of p_id "products d" k p] by force
  qed
  have "length (filter (\<lambda>p. p_id p \<in> ks \<and> p_is_active p) (products d)) = card ?L"
    using distinct_card [of "map p_id (filter (\<lambda>p. p_id p \<in> ks \<and> p_is_active p) (products d))"] distinct_map_filter [OF assms]
    by simp
  then show "length (filter (\<lambda>p. p_id p \<in> ks \<and> p_is_active p) (products d)) = card {k \<in> ks. \<exists>p. get_product d k = Some p \<and> p_is_active p}"
    by (simp add: eq del: set_filter)
qed

lemma fold_add_sets: "wish_sets (fold (\<lambda>p. add_to_wishlist u (p_id p)) ps c) = (wish_sets c)(u := wished u c \<union> p_id ` set ps)"
proof -
  have "fold (\<lambda>p. add_to_wishlist u (p_id p)) ps c = fold (\<lambda>k. add_to_wishlist u k) (map p_id ps) c"
    by (simp add: fold_map comp_def)
  then show ?thesis
    by (auto simp: fun_eq_iff add_wish.fold_own add_wish.fold_others fold_insert_set)
qed

lemma fold_add_distinct: "distinct (wishes c) \<Longrightarrow> distinct (wishes (fold (\<lambda>p. add_to_wishlist u (p_id p)) ps c))"
  by (induction ps arbitrary: c) (auto intro: add_wish.distinct)

lemma bulk_refines:
  assumes "distinct (wishes c)" "keys_distinct p_id (products d)"
  shows "wish_spec (get_product d) u (BulkAdd ks) (wish_sets c)
    = (case wish_run u (BulkAdd ks) (c, d) of Inl e \<Rightarrow> None | Inr (a, c', d') \<Rightarrow> Some (a, wish_sets c'))"
proof -
  have fresh: "{k \<in> set ks. k \<notin> wished u c \<and> (\<exists>p. get_product d k = Some p \<and> p_is_active p)}
      = {k \<in> {k \<in> set ks. k \<notin> wished u c}. \<exists>p. get_product d k = Some p \<and> p_is_active p}"
    by blast
  have skip: "length ks - length (filter (\<lambda>k. k \<notin> wished u c) ks) = length (filter (\<lambda>k. k \<in> wished u c) ks)"
    using sum_length_filter_compl [of "\<lambda>k. k \<in> wished u c" ks] by simp
  have total: "get_wishlist_count u (fold (\<lambda>p. add_to_wishlist u (p_id p)) ps c) = card (wished u c \<union> p_id ` set ps)" for ps
    using fold_add_sets [of u ps c, THEN fun_cong, of u] by (simp add: wish_count_card fold_add_distinct assms(1))
  let ?found = "filter (\<lambda>p. p_id p \<in> set (filter (\<lambda>k. k \<notin> wished u c) ks) \<and> p_is_active p) (products d)"
  let ?fresh = "{k \<in> set ks. k \<notin> wished u c \<and> (\<exists>p. get_product d k = Some p \<and> p_is_active p)}"
  have found: "p_id ` set ?found = ?fresh" "length ?found = card ?fresh"
    using bulk_found [OF assms(2), of "set (filter (\<lambda>k. k \<notin> wished u c) ks)"] by (simp_all only: fresh set_filter)
  show ?thesis
  proof (cases "ks = []")
    case False
    have "wish_run u (BulkAdd ks) (c, d) = Inr (BulkAdded (length ?found) (length ks - length (filter (\<lambda>k. k \<notin> wished u c) ks))
        (card (wished u c \<union> p_id ` set ?found)), fold (\<lambda>p. add_to_wishlist u (p_id p)) ?found c, d)"
      using False by (simp add: answer_with_def bulk_add_def Let_def is_in_wished total)
    moreover have "wish_sets (fold (\<lambda>p. add_to_wishlist u (p_id p)) ?found c) = (wish_sets c)(u := wished u c \<union> ?fresh)"
      by (simp only: fold_add_sets found)
    ultimately show ?thesis
      using False by (simp only: found skip sum.case prod.case wish_spec.simps Let_def if_False fun_upd_same wish_sets_def refl)
  qed (simp add: answer_with_def bulk_add_def)
qed

theorem wish_run_refines:
  assumes "distinct (wishes c)" "keys_distinct p_id (products d)"
  shows "wish_spec (get_product d) u r (wish_sets c)
    = (case wish_run u r (c, d) of Inl e \<Rightarrow> None | Inr (a, c', d') \<Rightarrow> Some (a, wish_sets c'))"
  using assms by (cases r) (simp_all only: toggle_refines add_refines remove_refines bulk_refines clear_refines)

text \<open>A request changes nothing but the wishes, and only products get into them.\<close>

definition wishes_ok :: "cdb \<Rightarrow> db \<Rightarrow> bool" where
  "wishes_ok c d \<longleftrightarrow> distinct (wishes c) \<and> snd ` set (wishes c) \<subseteq> product_ids d"

lemma wishes_ok_add: "wishes_ok c d \<Longrightarrow> k \<in> product_ids d \<Longrightarrow> wishes_ok (add_to_wishlist u k c) d"
  by (auto simp: wishes_ok_def add_to_wishlist_def is_in_wishlist_def)

lemma wishes_ok_remove: "wishes_ok c d \<Longrightarrow> wishes_ok (remove_from_wishlist u k c) d"
  by (auto simp: wishes_ok_def remove_from_wishlist_def)

lemma wishes_ok_clear: "wishes_ok c d \<Longrightarrow> wishes_ok (clear_wishlist u c) d"
  by (auto simp: wishes_ok_def clear_wishlist_def)

lemma wishes_ok_fold_add:
  "wishes_ok c d \<Longrightarrow> set ps \<subseteq> set (products d) \<Longrightarrow> wishes_ok (fold (\<lambda>p. add_to_wishlist u (p_id p)) ps c) d"
  by (induction ps arbitrary: c) (auto intro: wishes_ok_add)

lemma fold_remove_ok: "wishes_ok c d \<Longrightarrow> wishes_ok (fold (\<lambda>p. remove_from_wishlist u (p_id p)) ps c) d"
  by (induction ps arbitrary: c) (auto intro: wishes_ok_remove)

lemma fold_add_frame: "wish_frame c (fold (\<lambda>p. add_to_wishlist u (p_id p)) ps c)"
  by (induction ps arbitrary: c) (auto intro: wish_frame_trans add_wish.frame)

lemma fold_remove_frame: "wish_frame c (fold (\<lambda>p. remove_from_wishlist u (p_id p)) ps c)"
  by (induction ps arbitrary: c) (auto intro: wish_frame_trans remove_wish.frame)

lemma bulk_add_result:
  assumes "bulk_add u ks (c, d) = Inr (b, c', d')"
  shows "d' = d \<and> c' = fold (\<lambda>p. add_to_wishlist u (p_id p))
    (filter (\<lambda>p. p_id p \<in> set (filter (\<lambda>k. \<not> is_in_wishlist u k c) ks) \<and> p_is_active p) (products d)) c"
  using assms by (cases "ks = []") (simp_all add: bulk_add_def Let_def, blast?)

lemma wish_run_effect:
  assumes "wish_run u r (c, d) = Inr (a, c', d')"
  shows "d' = d \<and> wish_frame c c' \<and> (wishes_ok c d \<longrightarrow> wishes_ok c' d)"
proof (cases r)
  case (BulkAdd ks)
  then obtain b where "bulk_add u ks (c, d) = Inr (b, c', d')"
    using assms by (auto simp: answer_with_def split: sum.splits)
  note result = bulk_add_result [OF this]
  show ?thesis
    using result [THEN conjunct1] unfolding result [THEN conjunct2]
    by (intro conjI impI) (simp, rule fold_add_frame, rule wishes_ok_fold_add, assumption, rule filter_is_subset)
qed (use assms in \<open>auto simp: answer_with_def toggle_def wish_add_def wish_remove_def wish_clear_def get_wished_product_def Let_def
       intro: wishes_ok_add wishes_ok_remove wishes_ok_clear add_wish.frame remove_wish.frame clear_wishes.frame get_product_in
       split: option.splits if_splits\<close>)

section \<open>The whole move\<close>

definition moved_products :: "pk \<Rightarrow> pk list \<Rightarrow> cdb \<times> db \<Rightarrow> listing list" where
  "moved_products u ks s = filter (\<lambda>(p, e). p_id p \<in> set ks) (wishlist_products u s)"

lemma in_moved_products:
  "(p, e) \<in> set (moved_products u ks (c, d)) \<longleftrightarrow> e \<in> set (entries c) \<and> get_product d (en_id e) = Some p \<and> p_id p \<in> wished u c \<and> p_id p \<in> set ks"
  by (auto simp: moved_products_def in_wishlist_products in_shelf)

lemma move_to_cart_effect:
  assumes inv: "cart_inv d" and some: "moved_products u ks (c, d) \<noteq> []"
  shows "\<exists>res cart new c' d'. move_to_cart u ks rm (c, d) = Inr (res, c', d')
    \<and> cart_change d d' \<and> active_cart (Member u) d' = Some cart \<and> cart_items d' = cart_items d @ new
    \<and> (\<forall>i \<in> set new. moved_line (c_id cart) (moved_products u ks (c, d)) (set (mv_added res)) i)
    \<and> (\<forall>(p, e) \<in> set (moved_products u ks (c, d)). 0 < p_stock p \<longrightarrow> item_of_product d' (c_id cart) (p_id p) \<noteq> None)
    \<and> length (mv_added res) = length new
    \<and> length (mv_added res) + length (mv_already_in_cart res) + length (mv_out_of_stock res) = length (moved_products u ks (c, d))
    \<and> set (mv_added res) \<subseteq> (\<lambda>(p, e). p_name p) ` set (moved_products u ks (c, d))
    \<and> c' = (if rm \<and> mv_added res \<noteq> [] then remove_by_name u (mv_added res) (c, d') else c)"
proof -
  let ?xs = "moved_products u ks (c, d)"
  have ks: "ks \<noteq> []"
    using some by (auto simp: moved_products_def)
  obtain cart new_cart d1 where cart: "get_or_create_active_cart (\<lambda>d. d) (Member u) d = Inr ((cart, new_cart), d1)" "cart_change d d1"
    "active_cart (Member u) d1 = Some cart" "cart_items d1 = cart_items d"
    by (rule get_or_create_member [OF inv, of u])
  note inv1 = cart_change_inv [OF cart(2)]
  have products: "products d1 = products d"
    using cart(2) by (simp add: cart_change_def cart_frame_def)
  have known: "\<forall>(p, e) \<in> set ?xs. p_id p \<in> product_ids d1"
    by (auto simp: in_moved_products products intro: imageI dest!: rget_Some_in)
  have "c_id cart \<in> cart_ids d1"
    using active_cart_Some [OF cart(3)] by simp
  from move_loop_effect [OF inv1 this known, of "\<lparr>mv_added = [], mv_already_in_cart = [], mv_out_of_stock = []\<rparr>"]
  obtain new add old out d' where loop: "move_loop (c_id cart) ?xs \<lparr>mv_added = [], mv_already_in_cart = [], mv_out_of_stock = []\<rparr> d1
      = Inr (\<lparr>mv_added = add, mv_already_in_cart = old, mv_out_of_stock = out\<rparr>, d')"
    and eff: "cart_change d1 d'" "carts d' = carts d1" "cart_items d' = cart_items d1 @ new" "\<forall>i \<in> set new. moved_line (c_id cart) ?xs (set add) i"
      "\<forall>(p, e) \<in> set ?xs. 0 < p_stock p \<longrightarrow> item_of_product d' (c_id cart) (p_id p) \<noteq> None"
      "length add = length new" "set add \<subseteq> (\<lambda>(p, e). p_name p) ` set ?xs" "length add + length old + length out = length ?xs"
    by auto
  have run: "move_to_cart u ks rm (c, d) = Inr (\<lparr>mv_added = add, mv_already_in_cart = old, mv_out_of_stock = out\<rparr>,
      if rm \<and> add \<noteq> [] then remove_by_name u add (c, d') else c, d')"
    using loop some by (cases ?xs) (simp_all add: move_to_cart_def ks cart(1) moved_products_def)
  have "active_cart (Member u) d' = Some cart"
    using cart(3) by (simp add: active_cart_def eff(2))
  with run eff show ?thesis
    by (intro exI [of _ "\<lparr>mv_added = add, mv_already_in_cart = old, mv_out_of_stock = out\<rparr>"] exI [of _ cart] exI [of _ new] exI [of _ d']
        exI [of _ "if rm \<and> add \<noteq> [] then remove_by_name u add (c, d') else c"])
      (simp add: cart(4) cart_change_trans [OF cart(2)])
qed

end
