(* ===== verification/Questions.thy ===== *)
theory Questions
  imports Catalogue
begin

text \<open>
  Questions about products with their answers, and the notifications of a user:
  \<^verbatim>\<open>src/shopping/models/product_qa.py\<close>, \<^verbatim>\<open>views/product_qa_views.py\<close>, \<^verbatim>\<open>serializers/product_qa_serializers.py\<close>,
  \<^verbatim>\<open>services/product_qa_service.py\<close>, \<^verbatim>\<open>models/notification.py\<close>, \<^verbatim>\<open>services/notification_service.py\<close> and
  \<^verbatim>\<open>serializers/notification_serializers.py\<close>.  The notifications that the tasks of the shop write are rows of the
  same table with fewer columns in its model.  Of the texts for users a notification keeps what varies, the title of the question.
\<close>

section \<open>Questions\<close>

definition seller_of :: "pk \<Rightarrow> cdb \<Rightarrow> pk option" where
  "seller_of k c = Option.bind (get_entry c k) en_seller"

definition can_view :: "question \<Rightarrow> requester \<Rightarrow> cdb \<Rightarrow> bool" where
  "can_view q who c = (
     if \<not> qu_is_secret q then True
     else case who of
       None \<Rightarrow> False
     | Some m \<Rightarrow>
         if qu_user q = Some (mb_id m) then True
         else if seller_of (qu_product q) c = Some (mb_id m) then True
         else mb_is_staff m)"

text \<open>The questions of a product that a visitor finds, newest first.\<close>

definition visible_questions :: "pk \<Rightarrow> requester \<Rightarrow> cdb \<Rightarrow> question list" where
  "visible_questions k who c = (
     let qs = sort_key (\<lambda>q. - qu_created_at q) (filter (\<lambda>q. qu_product q = k) (questions c))
     in case who of
          None \<Rightarrow> filter (\<lambda>q. \<not> qu_is_secret q) qs
        | Some m \<Rightarrow>
            if mb_is_staff m then qs
            else filter (\<lambda>q. \<not> qu_is_secret q \<or> qu_user q = Some (mb_id m) \<or> seller_of (qu_product q) c = Some (mb_id m)) qs)"

definition my_questions :: "member \<Rightarrow> cdb \<Rightarrow> question list" where
  "my_questions m c = sort_key (\<lambda>q. - qu_created_at q) (filter (\<lambda>q. qu_user q = Some (mb_id m)) (questions c))"

definition find_question :: "pk \<Rightarrow> pk \<Rightarrow> requester \<Rightarrow> cdb \<Rightarrow> cat_error + question" where
  "find_question product_pk k who c = (case rget qu_id (visible_questions product_pk who c) k of None \<Rightarrow> Inl NotFound | Some q \<Rightarrow> Inr q)"

definition answer_of :: "pk \<Rightarrow> cdb \<Rightarrow> answer option" where
  "answer_of k c = find (\<lambda>a. an_question a = k) (answers c)"

definition retrieve_question :: "pk \<Rightarrow> pk \<Rightarrow> requester \<Rightarrow> cdb \<Rightarrow> cat_error + question \<times> answer option" where
  "retrieve_question product_pk k who c = (case find_question product_pk k who c of
     Inl e \<Rightarrow> Inl e
   | Inr q \<Rightarrow> if \<not> can_view q who c then Inl Forbidden else Inr (q, answer_of k c))"

definition validate_title :: "string \<Rightarrow> string option" where
  "validate_title value = (let t = strip_by is_space value in if length t < 2 \<or> length t > 200 then None else Some t)"

definition validate_content :: "string \<Rightarrow> string option" where
  "validate_content value = (let t = strip_by is_space value in if length t < 5 then None else Some t)"

definition create_question :: "pk \<Rightarrow> requester \<Rightarrow> string \<Rightarrow> string \<Rightarrow> bool \<Rightarrow> timestamp \<Rightarrow> pk cop" where
  "create_question product_pk who title content secret now = (\<lambda>(c, d).
     case who of None \<Rightarrow> Inl Unauthenticated
     | Some m \<Rightarrow>
         if get_product d product_pk = None then Inl NotFound
         else (case (validate_title title, validate_content content) of
           (Some t, Some x) \<Rightarrow>
             let q = \<lparr>qu_id = cat_next c, qu_product = product_pk, qu_user = Some (mb_id m), qu_title = t, qu_content = x,
                      qu_is_secret = secret, qu_is_answered = False, qu_created_at = now\<rparr>
             in Inr (qu_id q, c\<lparr>questions := questions c @ [q], cat_next := Suc (cat_next c)\<rparr>, d)
         | _ \<Rightarrow> Inl (Invalid ''QUESTION'')))"

definition upd_question :: "pk \<Rightarrow> (question \<Rightarrow> question) \<Rightarrow> cdb \<Rightarrow> cdb" where
  "upd_question k f c = c\<lparr>questions := rupd qu_id (questions c) k f\<rparr>"

text \<open>A field that is absent in the request stays.\<close>

definition update_question :: "pk \<Rightarrow> pk \<Rightarrow> requester \<Rightarrow> string option \<Rightarrow> string option \<Rightarrow> bool option \<Rightarrow> cdb \<Rightarrow> cat_error + unit \<times> cdb" where
  "update_question product_pk k who title content secret c = (
     if who = None then Inl Unauthenticated
     else case find_question product_pk k who c of
       Inl e \<Rightarrow> Inl e
     | Inr q \<Rightarrow>
         if qu_user q \<noteq> map_option mb_id who then Inl Forbidden
         else if qu_is_answered q then Inl (Invalid ''ANSWERED'')
         else case (case title of None \<Rightarrow> Some (qu_title q) | Some t \<Rightarrow> validate_title t,
                    case content of None \<Rightarrow> Some (qu_content q) | Some x \<Rightarrow> validate_content x) of
           (Some t, Some x) \<Rightarrow> Inr ((), upd_question k (\<lambda>q. q\<lparr>qu_title := t, qu_content := x,
             qu_is_secret := (case secret of None \<Rightarrow> qu_is_secret q | Some b \<Rightarrow> b)\<rparr>) c)
         | _ \<Rightarrow> Inl (Invalid ''QUESTION''))"

definition destroy_question :: "pk \<Rightarrow> pk \<Rightarrow> requester \<Rightarrow> cdb \<Rightarrow> cat_error + unit \<times> cdb" where
  "destroy_question product_pk k who c = (case who of
     None \<Rightarrow> Inl Unauthenticated
   | Some m \<Rightarrow> (case find_question product_pk k who c of
       Inl e \<Rightarrow> Inl e
     | Inr q \<Rightarrow>
         if qu_user q \<noteq> Some (mb_id m) \<and> \<not> mb_is_staff m then Inl Forbidden
         else if qu_is_answered q then Inl (Invalid ''ANSWERED'')
         else Inr ((), c\<lparr>questions := filter (\<lambda>q. qu_id q \<noteq> k) (questions c), answers := filter (\<lambda>a. an_question a \<noteq> k) (answers c)\<rparr>)))"

section \<open>Answers\<close>

text \<open>One transaction: the answer, the flag of the question and the notification of its author.  A question has one
  answer, and a notification needs a user.\<close>

definition create_answer :: "question \<Rightarrow> pk \<Rightarrow> string \<Rightarrow> timestamp \<Rightarrow> cdb \<Rightarrow> cat_error + pk \<times> cdb" where
  "create_answer q seller content now c = (
     if answer_of (qu_id q) c \<noteq> None then Inl (Raised IntegrityError)
     else let a = \<lparr>an_id = cat_next c, an_question = qu_id q, an_seller = Some seller, an_content = content\<rparr>;
              c1 = upd_question (qu_id q) (\<lambda>q. q\<lparr>qu_is_answered := True\<rparr>) (c\<lparr>answers := answers c @ [a], cat_next := Suc (cat_next c)\<rparr>)
          in case qu_user q of
               None \<Rightarrow> Inl (Raised IntegrityError)
             | Some u \<Rightarrow>
                 let n = \<lparr>no_id = cat_next c1, no_user = u, no_type = ''qa_answer'', no_title = ''answered'', no_message = qu_title q,
                       no_link = ''/products/'' @ str_nat (qu_product q) @ ''/questions/'' @ str_nat (qu_id q),
                       no_metadata = [(''product_id'', JNum (int (qu_product q))), (''question_id'', JNum (int (qu_id q))),
                                      (''answer_id'', JNum (int (an_id a)))],
                       no_is_read = False, no_read_at = None, no_created_at = now\<rparr>
                 in Inr (an_id a, c1\<lparr>inbox := inbox c1 @ [n], cat_next := Suc (cat_next c1)\<rparr>))"

definition answer_question :: "pk \<Rightarrow> pk \<Rightarrow> requester \<Rightarrow> string \<Rightarrow> timestamp \<Rightarrow> cdb \<Rightarrow> cat_error + pk \<times> cdb" where
  "answer_question product_pk k who content now c = (case who of
     None \<Rightarrow> Inl Unauthenticated
   | Some m \<Rightarrow> (case find_question product_pk k who c of
       Inl e \<Rightarrow> Inl e
     | Inr q \<Rightarrow>
         if seller_of (qu_product q) c \<noteq> Some (mb_id m) then Inl (Invalid ''NOT_YOUR_PRODUCT'')
         else if answer_of k c \<noteq> None then Inl (Invalid ''ANSWER_EXISTS'')
         else if content = [] then Inl (Invalid ''ANSWER'')
         else create_answer q (mb_id m) content now c))"

definition find_answer :: "pk \<Rightarrow> pk \<Rightarrow> requester \<Rightarrow> cdb \<Rightarrow> cat_error + answer" where
  "find_answer product_pk k who c = (case who of
     None \<Rightarrow> Inl Unauthenticated
   | Some m \<Rightarrow> (case find_question product_pk k who c of
       Inl e \<Rightarrow> Inl e
     | Inr q \<Rightarrow> (case answer_of k c of
         None \<Rightarrow> Inl NotFound
       | Some a \<Rightarrow> if an_seller a \<noteq> Some (mb_id m) \<and> \<not> mb_is_staff m then Inl Forbidden else Inr a)))"

definition update_answer :: "pk \<Rightarrow> pk \<Rightarrow> requester \<Rightarrow> string option \<Rightarrow> cdb \<Rightarrow> cat_error + unit \<times> cdb" where
  "update_answer product_pk k who content c = (case find_answer product_pk k who c of
     Inl e \<Rightarrow> Inl e
   | Inr a \<Rightarrow> (case content of
       None \<Rightarrow> Inr ((), c)
     | Some x \<Rightarrow>
         if x = [] then Inl (Invalid ''ANSWER'')
         else Inr ((), c\<lparr>answers := rupd an_id (answers c) (an_id a) (\<lambda>a. a\<lparr>an_content := x\<rparr>)\<rparr>)))"

text \<open>Deleting an answer takes two statements without a transaction around them.\<close>

definition drop_answer :: "answer \<Rightarrow> cdb \<Rightarrow> cdb" where
  "drop_answer a c = c\<lparr>answers := filter (\<lambda>x. an_id x \<noteq> an_id a) (answers c)\<rparr>"

definition mark_unanswered :: "pk \<Rightarrow> cdb \<Rightarrow> cdb" where
  "mark_unanswered k c = upd_question k (\<lambda>q. q\<lparr>qu_is_answered := False\<rparr>) c"

definition delete_answer :: "pk \<Rightarrow> pk \<Rightarrow> requester \<Rightarrow> cdb \<Rightarrow> cat_error + unit \<times> cdb" where
  "delete_answer product_pk k who c = (case find_answer product_pk k who c of
     Inl e \<Rightarrow> Inl e
   | Inr a \<Rightarrow> Inr ((), mark_unanswered k (drop_answer a c)))"

text \<open>\<^verbatim>\<open>ProductAnswer.clean\<close>.\<close>

definition answer_clean :: "answer \<Rightarrow> (pk \<Rightarrow> member option) \<Rightarrow> cdb \<Rightarrow> bool" where
  "answer_clean a get_member c = (case an_seller a of
     None \<Rightarrow> True
   | Some u \<Rightarrow> (case get_member u of
       None \<Rightarrow> True
     | Some m \<Rightarrow>
         if mb_is_staff m \<or> mb_is_superuser m then True
         else case rget qu_id (questions c) (an_question a) of
           None \<Rightarrow> True
         | Some q \<Rightarrow> seller_of (qu_product q) c = Some u))"

text \<open>The list shows the first hundred characters.\<close>

definition display_content :: "question \<Rightarrow> string" where
  "display_content q = (if length (qu_content q) > 100 then take 100 (qu_content q) @ ''...'' else qu_content q)"

definition can_edit :: "question \<Rightarrow> requester \<Rightarrow> bool" where
  "can_edit q who = (case who of None \<Rightarrow> False | Some m \<Rightarrow> qu_user q = Some (mb_id m))"

definition can_answer :: "question \<Rightarrow> requester \<Rightarrow> cdb \<Rightarrow> bool" where
  "can_answer q who c = (case who of None \<Rightarrow> False | Some m \<Rightarrow> seller_of (qu_product q) c = Some (mb_id m) \<or> mb_is_staff m)"

section \<open>Notifications\<close>

definition PREVIEW_LIMIT :: nat where
  "PREVIEW_LIMIT = 5"

definition inbox_of :: "pk \<Rightarrow> cdb \<Rightarrow> notification list" where
  "inbox_of u c = sort_key (\<lambda>n. - no_created_at n) (filter (\<lambda>n. no_user n = u) (inbox c))"

definition get_unread :: "pk \<Rightarrow> nat option \<Rightarrow> cdb \<Rightarrow> nat \<times> notification list" where
  "get_unread u limit c = (
     let unread = filter (\<lambda>n. \<not> no_is_read n) (inbox_of u c);
         k = (case limit of None \<Rightarrow> PREVIEW_LIMIT | Some n \<Rightarrow> if n = 0 then PREVIEW_LIMIT else n)
     in (length unread, take k unread))"

definition get_unread_count :: "pk \<Rightarrow> cdb \<Rightarrow> nat" where
  "get_unread_count u c = length (filter (\<lambda>n. no_user n = u \<and> \<not> no_is_read n) (inbox c))"

definition get_by_id :: "pk \<Rightarrow> pk \<Rightarrow> cdb \<Rightarrow> cat_error + notification" where
  "get_by_id u k c = (case find (\<lambda>n. no_id n = k \<and> no_user n = u) (inbox c) of None \<Rightarrow> Inl NotFound | Some n \<Rightarrow> Inr n)"

text \<open>The serializer refuses ids that are not the user's; an empty list means all.\<close>

definition validate_notification_ids :: "pk \<Rightarrow> pk list \<Rightarrow> cdb \<Rightarrow> cat_error + pk list" where
  "validate_notification_ids u ks c = (
     if ks = [] then Inr ks
     else if length (filter (\<lambda>n. no_id n \<in> set ks \<and> no_user n = u) (inbox c)) \<noteq> card (set ks) then Inl (Invalid ''NOTIFICATION_IDS'')
     else Inr ks)"

definition to_read :: "pk \<Rightarrow> pk list option \<Rightarrow> notification \<Rightarrow> bool" where
  "to_read u ids n \<longleftrightarrow> no_user n = u \<and> \<not> no_is_read n \<and> (case ids of None \<Rightarrow> True | Some ks \<Rightarrow> ks = [] \<or> no_id n \<in> set ks)"

definition mark_as_read :: "pk \<Rightarrow> pk list option \<Rightarrow> cdb \<Rightarrow> nat \<times> cdb" where
  "mark_as_read u ids c = (length (filter (to_read u ids) (inbox c)),
     c\<lparr>inbox := map (\<lambda>n. if to_read u ids n then n\<lparr>no_is_read := True\<rparr> else n) (inbox c)\<rparr>)"

definition mark_read_request :: "pk \<Rightarrow> pk list option \<Rightarrow> cdb \<Rightarrow> cat_error + nat \<times> cdb" where
  "mark_read_request u ids c = (case validate_notification_ids u (case ids of None \<Rightarrow> [] | Some ks \<Rightarrow> ks) c of
     Inl e \<Rightarrow> Inl e
   | Inr ks \<Rightarrow> Inr (mark_as_read u (if ks = [] then None else Some ks) c))"

definition mark_single_as_read :: "notification \<Rightarrow> timestamp \<Rightarrow> cdb \<Rightarrow> bool \<times> cdb" where
  "mark_single_as_read n now c = (
     if no_is_read n then (False, c)
     else (True, c\<lparr>inbox := rupd no_id (inbox c) (no_id n) (\<lambda>n. n\<lparr>no_is_read := True, no_read_at := Some now\<rparr>)\<rparr>))"

definition retrieve_notification :: "pk \<Rightarrow> pk \<Rightarrow> timestamp \<Rightarrow> cdb \<Rightarrow> cat_error + notification \<times> cdb" where
  "retrieve_notification u k now c = (case get_by_id u k c of
     Inl e \<Rightarrow> Inl e
   | Inr n \<Rightarrow> Inr (n, snd (mark_single_as_read n now c)))"

definition clear_read :: "pk \<Rightarrow> cdb \<Rightarrow> nat \<times> cdb" where
  "clear_read u c = (length (filter (\<lambda>n. no_user n = u \<and> no_is_read n) (inbox c)),
     c\<lparr>inbox := filter (\<lambda>n. \<not> (no_user n = u \<and> no_is_read n)) (inbox c)\<rparr>)"

definition delete_by_id :: "pk \<Rightarrow> pk \<Rightarrow> cdb \<Rightarrow> cat_error + string \<times> cdb" where
  "delete_by_id u k c = (case get_by_id u k c of
     Inl e \<Rightarrow> Inl e
   | Inr n \<Rightarrow> Inr (no_title n, c\<lparr>inbox := filter (\<lambda>x. no_id x \<noteq> k) (inbox c)\<rparr>))"

text \<open>The model class is called with keywords; one that is no field is refused with \<^verbatim>\<open>TypeError\<close>.\<close>

definition NOTIFICATION_FIELDS :: "string list" where
  "NOTIFICATION_FIELDS = [''id'', ''user'', ''notification_type'', ''title'', ''message'', ''link'', ''metadata'', ''is_read'', ''read_at'', ''created_at'']"

definition notification_create :: "pk \<Rightarrow> string \<Rightarrow> string \<Rightarrow> string \<Rightarrow> int option \<Rightarrow> string \<Rightarrow> timestamp \<Rightarrow> cdb \<Rightarrow> cat_error + notification \<times> cdb" where
  "notification_create u ntype title message related_object_id url now c = (
     if \<not> set [''user'', ''notification_type'', ''title'', ''message'', ''related_object_id'', ''url''] \<subseteq> set NOTIFICATION_FIELDS
     then Inl TypeError
     else let n = \<lparr>no_id = cat_next c, no_user = u, no_type = ntype, no_title = title, no_message = message, no_link = [], no_metadata = [],
                   no_is_read = False, no_read_at = None, no_created_at = now\<rparr>
       in Inr (n, c\<lparr>inbox := inbox c @ [n], cat_next := Suc (cat_next c)\<rparr>))"

fun notification_bulk_create :: "pk list \<Rightarrow> string \<Rightarrow> string \<Rightarrow> string \<Rightarrow> timestamp \<Rightarrow> cdb \<Rightarrow> nat \<times> cdb" where
  "notification_bulk_create [] ntype title message now c = (0, c)"
| "notification_bulk_create (u # us) ntype title message now c = (
     let n = \<lparr>no_id = cat_next c, no_user = u, no_type = ntype, no_title = title, no_message = message, no_link = [], no_metadata = [],
              no_is_read = False, no_read_at = None, no_created_at = now\<rparr>;
         (k, c1) = notification_bulk_create us ntype title message now (c\<lparr>inbox := inbox c @ [n], cat_next := Suc (cat_next c)\<rparr>)
     in (Suc k, c1))"

datatype age = JustNow | MinutesAgo int | HoursAgo int | DaysAgo int | OnDate timestamp

definition created_at_display :: "notification \<Rightarrow> timestamp \<Rightarrow> age" where
  "created_at_display n now = (let seconds = now - no_created_at n in
     if seconds < 60 then JustNow
     else if seconds < 3600 then MinutesAgo (seconds div 60)
     else if seconds < 86400 then HoursAgo (seconds div 3600)
     else if seconds < 604800 then DaysAgo (seconds div 86400)
     else OnDate (no_created_at n))"

end
