(* ===== verification/Question_Ops.thy ===== *)
theory Question_Ops
  imports Questions
begin

text \<open>
  Every operation on questions, answers and notifications keeps the tables consistent: a question is marked as answered
  exactly when it has its one answer.
\<close>

section \<open>Consistent tables\<close>

definition questions_ok :: "cdb \<Rightarrow> bool" where
  "questions_ok c \<longleftrightarrow> keys_distinct qu_id (questions c) \<and> keys_distinct an_id (answers c) \<and> keys_distinct an_question (answers c)
     \<and> an_question ` set (answers c) \<subseteq> qu_id ` set (questions c)
     \<and> (\<forall>q \<in> set (questions c). qu_id q < cat_next c \<and> (qu_is_answered q \<longleftrightarrow> qu_id q \<in> an_question ` set (answers c)))
     \<and> (\<forall>a \<in> set (answers c). an_id a < cat_next c)"

lemma questions_okI:
  assumes "keys_distinct qu_id (questions c)" "keys_distinct an_id (answers c)" "keys_distinct an_question (answers c)"
    "an_question ` set (answers c) \<subseteq> qu_id ` set (questions c)"
    "\<And>q. q \<in> set (questions c) \<Longrightarrow> qu_id q < cat_next c \<and> (qu_is_answered q \<longleftrightarrow> qu_id q \<in> an_question ` set (answers c))"
    "\<And>a. a \<in> set (answers c) \<Longrightarrow> an_id a < cat_next c"
  shows "questions_ok c"
  using assms by (simp add: questions_ok_def)

lemma questions_okD:
  assumes "questions_ok c"
  shows "keys_distinct qu_id (questions c)" "keys_distinct an_id (answers c)" "keys_distinct an_question (answers c)"
    "an_question ` set (answers c) \<subseteq> qu_id ` set (questions c)"
    "\<And>q. q \<in> set (questions c) \<Longrightarrow> qu_id q < cat_next c" "\<And>a. a \<in> set (answers c) \<Longrightarrow> an_id a < cat_next c"
    "\<And>q. q \<in> set (questions c) \<Longrightarrow> qu_is_answered q \<longleftrightarrow> qu_id q \<in> an_question ` set (answers c)"
  using assms by (simp_all add: questions_ok_def)

definition inbox_ok :: "cdb \<Rightarrow> bool" where
  "inbox_ok c \<longleftrightarrow> keys_distinct no_id (inbox c) \<and> (\<forall>n \<in> set (inbox c). no_id n < cat_next c \<and> (no_read_at n \<noteq> None \<longrightarrow> no_is_read n))"

definition asked_products :: "cdb \<Rightarrow> pk set" where
  "asked_products c = qu_product ` set (questions c)"

text \<open>The tables of questions, answers and notifications only; a sequence number is never given back.\<close>

definition qna_frame :: "cdb \<Rightarrow> cdb \<Rightarrow> bool" where
  "qna_frame c c' \<longleftrightarrow> categories c' = categories c \<and> entries c' = entries c \<and> images c' = images c \<and> reviews c' = reviews c
     \<and> wishes c' = wishes c \<and> cat_next c \<le> cat_next c'"

definition qna_change :: "cdb \<Rightarrow> cdb \<Rightarrow> bool" where
  "qna_change c c' \<longleftrightarrow> qna_frame c c' \<and> asked_products c' \<subseteq> asked_products c \<and> (questions_ok c \<longrightarrow> questions_ok c') \<and> (inbox_ok c \<longrightarrow> inbox_ok c')"

text \<open>The contract of an operation on one catalogue that may be refused.\<close>

locale qna_op =
  fixes f :: "'x \<Rightarrow> cdb \<Rightarrow> cat_error + 'a \<times> cdb"
  assumes change: "f x c = Inr (r, c') \<Longrightarrow> qna_change c c'"
begin

lemma keeps: "f x c = Inr (r, c') \<Longrightarrow> questions_ok c \<Longrightarrow> inbox_ok c \<Longrightarrow> questions_ok c' \<and> inbox_ok c'"
  using change by (simp add: qna_change_def)

end

section \<open>Lookups\<close>

lemma set_visible: "q \<in> set (visible_questions k who c) \<longleftrightarrow> q \<in> set (questions c) \<and> qu_product q = k \<and> can_view q who c"
  by (auto simp: visible_questions_def can_view_def Let_def split: option.splits)

lemma find_question_Inr:
  assumes "find_question p k who c = Inr q"
  shows "q \<in> set (questions c)" "qu_id q = k" "qu_product q = p" "can_view q who c"
proof -
  have "rget qu_id (visible_questions p who c) k = Some q"
    using assms by (auto simp: find_question_def split: option.splits)
  from rget_Some_in [OF this] rget_Some_key [OF this]
  show "q \<in> set (questions c)" "qu_id q = k" "qu_product q = p" "can_view q who c"
    by (simp_all add: set_visible)
qed

lemma answer_of_Some: "answer_of k c = Some a \<Longrightarrow> a \<in> set (answers c) \<and> an_question a = k"
  by (auto simp: answer_of_def find_Some_iff)

lemma answer_of_None: "answer_of k c = None \<longleftrightarrow> k \<notin> an_question ` set (answers c)"
  by (auto simp: answer_of_def find_None_iff)

section \<open>Changes of rows\<close>

lemma asked_upd: "(\<And>q. qu_product (f q) = qu_product q) \<Longrightarrow> asked_products (upd_question k f c) = asked_products c"
  by (simp add: asked_products_def upd_question_def map_rupd_other flip: set_map)

lemma key_set_rupd: "(\<And>r. key (f r) = key r) \<Longrightarrow> key ` set (rupd key rs k f) = key ` set rs"
  using arg_cong [OF map_key_rupd [of key f rs k], of set] by simp

lemma questions_ok_upd:
  assumes "questions_ok c" "\<And>q. qu_id (f q) = qu_id q" "\<And>q. qu_is_answered (f q) = qu_is_answered q"
  shows "questions_ok (upd_question k f c)"
proof -
  have "qu_id ` set (rupd qu_id (questions c) k f) = qu_id ` set (questions c)"
    by (rule key_set_rupd) (rule assms(2))
  then show ?thesis
    using assms by (auto simp: questions_ok_def upd_question_def map_key_rupd dest!: set_rupdD)
qed

lemma update_question_change:
  assumes "update_question p k who t x secret c = Inr (r, c')"
  shows "qna_change c c'"
proof -
  obtain f where c': "c' = upd_question k f c" and f: "\<And>q. qu_id (f q) = qu_id q" "\<And>q. qu_is_answered (f q) = qu_is_answered q"
      "\<And>q. qu_product (f q) = qu_product q"
  proof -
    obtain t' x' where "c' = upd_question k (\<lambda>q. q\<lparr>qu_title := t', qu_content := x',
        qu_is_secret := (case secret of None \<Rightarrow> qu_is_secret q | Some b \<Rightarrow> b)\<rparr>) c"
      using assms by (auto simp: update_question_def split: if_splits sum.splits option.splits)
    then show thesis
      by (rule that) simp_all
  qed
  then show ?thesis
    by (simp add: qna_change_def questions_ok_upd asked_upd) (simp add: qna_frame_def upd_question_def inbox_ok_def)
qed

interpretation edit_op: qna_op "\<lambda>(p, k, who, t, x, secret). update_question p k who t x secret"
  by unfold_locales (auto intro: update_question_change)

lemma destroy_question_change:
  assumes "destroy_question p k who c = Inr (r, c')"
  shows "qna_change c c'"
proof -
  have "c' = c\<lparr>questions := filter (\<lambda>q. qu_id q \<noteq> k) (questions c), answers := filter (\<lambda>a. an_question a \<noteq> k) (answers c)\<rparr>"
    using assms by (auto simp: destroy_question_def split: if_splits sum.splits option.splits)
  then show ?thesis
    by (auto simp: qna_change_def qna_frame_def questions_ok_def inbox_ok_def asked_products_def distinct_map_filter)
qed

interpretation withdraw_op: qna_op "\<lambda>(p, k, who). destroy_question p k who"
  by unfold_locales (auto intro: destroy_question_change)

lemma create_answer_Inr:
  assumes "create_answer q seller content now c = Inr (k, c')"
  obtains u n where "qu_user q = Some u" "answer_of (qu_id q) c = None" "k = cat_next c"
    "no_user n = u" "no_id n = Suc (cat_next c)" "\<not> no_is_read n" "no_read_at n = None"
    "c' = c\<lparr>questions := rupd qu_id (questions c) (qu_id q) (\<lambda>q. q\<lparr>qu_is_answered := True\<rparr>),
       answers := answers c @ [\<lparr>an_id = k, an_question = qu_id q, an_seller = Some seller, an_content = content\<rparr>],
       inbox := inbox c @ [n], cat_next := Suc (Suc (cat_next c))\<rparr>"
proof (rule that [of "the (qu_user q)" "last (inbox c')"])
qed (use assms in \<open>auto simp: create_answer_def upd_question_def Let_def split: if_splits option.splits\<close>)

lemma create_answer_change:
  assumes q: "qu_id q \<in> qu_id ` set (questions c)" and run: "create_answer q seller content now c = Inr (k, c')"
  shows "qna_change c c'"
proof -
  obtain u n where free: "answer_of (qu_id q) c = None" and k: "k = cat_next c"
    and n: "no_id n = Suc (cat_next c)" "no_read_at n = None"
    and c': "c' = c\<lparr>questions := rupd qu_id (questions c) (qu_id q) (\<lambda>q. q\<lparr>qu_is_answered := True\<rparr>),
       answers := answers c @ [\<lparr>an_id = k, an_question = qu_id q, an_seller = Some seller, an_content = content\<rparr>],
       inbox := inbox c @ [n], cat_next := Suc (Suc (cat_next c))\<rparr>"
    by (rule create_answer_Inr [OF run]) blast
  have ids: "qu_id ` set (rupd qu_id (questions c) (qu_id q) (\<lambda>q. q\<lparr>qu_is_answered := True\<rparr>)) = qu_id ` set (questions c)"
    by (rule key_set_rupd) simp
  have "questions_ok c'" if ok: "questions_ok c"
  proof -
    have old: "qu_id r < Suc (Suc (cat_next c)) \<and> (qu_is_answered r \<longleftrightarrow> qu_id r = qu_id q \<or> qu_id r \<in> an_question ` set (answers c))"
      if "r \<in> set (questions c')" for r
      using that ok free unfolding c' answer_of_None
      by (auto simp: questions_ok_def rupd_def intro: less_SucI split: if_splits)
    note d = questions_okD [OF ok]
    show ?thesis
    proof (rule questions_okI)
      show "keys_distinct qu_id (questions c')"
        using d(1) by (simp add: c' map_key_rupd)
      show "keys_distinct an_id (answers c')"
        using d(2) less_irrefl d(6) by (auto simp: c' k) (metis less_irrefl)
      show "keys_distinct an_question (answers c')"
        using d(3) free by (simp add: c' answer_of_None)
      show "an_question ` set (answers c') \<subseteq> qu_id ` set (questions c')"
        using d(4) q by (simp add: c' ids)
    next
      fix r
      assume "r \<in> set (questions c')"
      from old [OF this] show "qu_id r < cat_next c' \<and> (qu_is_answered r \<longleftrightarrow> qu_id r \<in> an_question ` set (answers c'))"
        by (simp add: c')
    next
      fix a
      assume "a \<in> set (answers c')"
      then show "an_id a < cat_next c'"
        using d(6) [of a] by (auto simp: c' k)
    qed
  qed
  moreover have "inbox_ok c'" if "inbox_ok c"
    using that n by (auto simp: inbox_ok_def c' intro: less_SucI)
  moreover have "asked_products c' = asked_products c"
    using asked_upd [of "\<lambda>q. q\<lparr>qu_is_answered := True\<rparr>" "qu_id q" c] by (simp add: c' asked_products_def upd_question_def)
  ultimately show ?thesis
    by (simp add: qna_change_def qna_frame_def c')
qed

lemma answer_question_Inr:
  assumes "answer_question p k who content now c = Inr (r, c')"
  obtains m q where "who = Some m" "find_question p k who c = Inr q" "seller_of p c = Some (mb_id m)" "content \<noteq> []"
    "answer_of k c = None" "create_answer q (mb_id m) content now c = Inr (r, c')"
  using assms find_question_Inr(3) [of p k who c]
  by (auto simp: answer_question_def split: if_splits sum.splits option.splits)

lemma answer_question_change:
  assumes "answer_question p k who content now c = Inr (r, c')"
  shows "qna_change c c'"
proof (rule answer_question_Inr [OF assms])
  fix m q
  assume "find_question p k who c = Inr q" and run: "create_answer q (mb_id m) content now c = Inr (r, c')"
  then show ?thesis
    by (intro create_answer_change [OF _ run] imageI find_question_Inr(1))
qed

interpretation answer_op: qna_op "\<lambda>(p, k, who, content, now). answer_question p k who content now"
  by unfold_locales (auto intro: answer_question_change)

lemma find_answer_Inr:
  assumes "find_answer p k who c = Inr a"
  shows "a \<in> set (answers c)" "an_question a = k"
  using assms by (auto simp: find_answer_def dest: answer_of_Some split: if_splits sum.splits option.splits)

lemma update_answer_change:
  assumes "update_answer p k who content c = Inr (r, c')"
  shows "qna_change c c'"
proof -
  obtain as where c': "c' = c\<lparr>answers := as\<rparr>" and as: "map an_question as = map an_question (answers c)" "map an_id as = map an_id (answers c)"
  proof (cases "c' = c")
    case False
    then have "\<exists>(a :: answer) x. c' = c\<lparr>answers := rupd an_id (answers c) (an_id a) (\<lambda>a. a\<lparr>an_content := x\<rparr>)\<rparr>"
      using assms unfolding update_answer_def by (auto split: if_splits sum.splits option.splits)
    then obtain a :: answer and x where "c' = c\<lparr>answers := rupd an_id (answers c) (an_id a) (\<lambda>a. a\<lparr>an_content := x\<rparr>)\<rparr>"
      by blast
    then show thesis
      by (rule that) (simp_all add: map_rupd_other map_key_rupd)
  qed (rule that [of "answers c"], simp_all)
  have sets: "an_question ` set as = an_question ` set (answers c)" "an_id ` set as = an_id ` set (answers c)"
    using as [THEN arg_cong, of set] by simp_all
  have "questions_ok c'" if ok: "questions_ok c"
  proof (rule questions_okI)
    note d = questions_okD [OF ok]
    show "keys_distinct qu_id (questions c')" "keys_distinct an_id (answers c')" "keys_distinct an_question (answers c')"
      using d(1-3) by (simp_all add: c' as)
    show "an_question ` set (answers c') \<subseteq> qu_id ` set (questions c')"
      using d(4) by (simp add: c' sets)
    show "qu_id q < cat_next c' \<and> (qu_is_answered q \<longleftrightarrow> qu_id q \<in> an_question ` set (answers c'))" if "q \<in> set (questions c')" for q
      using d(5) [of q] d(7) [of q] that by (simp add: c' sets)
    show "an_id a < cat_next c'" if "a \<in> set (answers c')" for a
    proof -
      have "an_id a \<in> an_id ` set (answers c)"
        using imageI [OF that, of an_id] by (simp add: c' sets)
      then show ?thesis
        using d(6) by (auto simp: c')
    qed
  qed
  then show ?thesis
    by (simp add: qna_change_def qna_frame_def inbox_ok_def asked_products_def c')
qed

interpretation reword_op: qna_op "\<lambda>(p, k, who, content). update_answer p k who content"
  by unfold_locales (auto intro: update_answer_change)

lemma delete_answer_change:
  assumes "delete_answer p k who c = Inr (r, c')"
  shows "qna_change c c'"
proof -
  obtain a where "find_answer p k who c = Inr a" and c': "c' = mark_unanswered k (drop_answer a c)"
    using assms by (auto simp: delete_answer_def split: sum.splits)
  then have a: "a \<in> set (answers c)" "an_question a = k"
    by (auto dest: find_answer_Inr)
  let ?as = "filter (\<lambda>x. an_id x \<noteq> an_id a) (answers c)"
  have ids: "qu_id ` set (rupd qu_id (questions c) k (\<lambda>q. q\<lparr>qu_is_answered := False\<rparr>)) = qu_id ` set (questions c)"
    by (rule key_set_rupd) simp
  have "questions_ok c'" if ok: "questions_ok c"
  proof -
    have "inj_on an_id (set (answers c))" "inj_on an_question (set (answers c))"
      using ok by (simp_all add: questions_ok_def distinct_map)
    then have rest: "an_question ` set ?as = an_question ` set (answers c) - {k}"
      using a by (auto dest: inj_onD)
    have "qu_id r < cat_next c \<and> (qu_is_answered r \<longleftrightarrow> qu_id r \<in> an_question ` set (answers c) - {k})" if "r \<in> set (questions c')" for r
      using that ok by (auto simp: c' questions_ok_def mark_unanswered_def upd_question_def drop_answer_def rupd_def split: if_splits)
    note old = this
    have c'_sel: "questions c' = rupd qu_id (questions c) k (\<lambda>q. q\<lparr>qu_is_answered := False\<rparr>)" "answers c' = ?as" "cat_next c' = cat_next c"
      by (simp_all add: c' mark_unanswered_def upd_question_def drop_answer_def)
    note d = questions_okD [OF ok]
    show ?thesis
    proof (rule questions_okI)
      show "keys_distinct qu_id (questions c')"
        using d(1) by (simp add: c'_sel map_key_rupd)
      show "keys_distinct an_id (answers c')" "keys_distinct an_question (answers c')"
        using d(2,3) by (simp_all only: c'_sel distinct_map_filter)
      show "an_question ` set (answers c') \<subseteq> qu_id ` set (questions c')"
        using d(4) by (auto simp only: c'_sel ids rest)
    next
      fix r
      assume "r \<in> set (questions c')"
      from old [OF this] show "qu_id r < cat_next c' \<and> (qu_is_answered r \<longleftrightarrow> qu_id r \<in> an_question ` set (answers c'))"
        by (simp only: c'_sel rest)
    next
      fix a
      assume "a \<in> set (answers c')"
      then show "an_id a < cat_next c'"
        using d(6) [of a] by (simp add: c'_sel)
    qed
  qed
  moreover have "asked_products c' = asked_products c"
    by (simp add: c' mark_unanswered_def asked_upd) (simp add: drop_answer_def asked_products_def)
  ultimately show ?thesis
    by (simp add: qna_change_def qna_frame_def c' mark_unanswered_def upd_question_def drop_answer_def inbox_ok_def)
qed

interpretation retract_op: qna_op "\<lambda>(p, k, who). delete_answer p k who"
  by unfold_locales (auto intro: delete_answer_change)

section \<open>Asking\<close>

lemma create_question_Inr:
  assumes "create_question p who title content secret now (c, d) = Inr (k, c', d')"
  obtains q m where "who = Some m" "d' = d" "k = cat_next c" "c' = c\<lparr>questions := questions c @ [q], cat_next := Suc (cat_next c)\<rparr>"
    "qu_id q = k" "qu_product q = p" "qu_user q = Some (mb_id m)" "\<not> qu_is_answered q" "get_product d p \<noteq> None"
  using assms by (force simp: create_question_def Let_def split: option.splits if_splits)

lemma create_question_change:
  assumes "create_question p who title content secret now (c, d) = Inr (k, c', d')"
  shows "d' = d" "qna_frame c c'" "asked_products c' = insert p (asked_products c)" "get_product d p \<noteq> None"
    "questions_ok c \<Longrightarrow> questions_ok c'" "inbox_ok c \<Longrightarrow> inbox_ok c'"
proof -
  obtain q where d': "d' = d" and c': "c' = c\<lparr>questions := questions c @ [q], cat_next := Suc (cat_next c)\<rparr>"
    and q: "qu_id q = cat_next c" "qu_product q = p" "\<not> qu_is_answered q" "get_product d p \<noteq> None"
    using create_question_Inr [OF assms] by metis
  show "d' = d" "get_product d p \<noteq> None"
    by (rule d', rule q)
  show "qna_frame c c'" "asked_products c' = insert p (asked_products c)"
    using q by (simp_all add: c' qna_frame_def asked_products_def)
  show "inbox_ok c'" if "inbox_ok c"
    using that by (auto simp: inbox_ok_def c' intro: less_SucI)
  show "questions_ok c'" if ok: "questions_ok c"
  proof (rule questions_okI)
    note d = questions_okD [OF ok]
    have fresh: "cat_next c \<notin> qu_id ` set (questions c)"
      using d(5) less_irrefl by (auto; metis less_irrefl)
    show "keys_distinct qu_id (questions c')"
      using d(1) fresh by (simp add: c' q)
    show "keys_distinct an_id (answers c')" "keys_distinct an_question (answers c')"
      using d by (simp_all add: c')
    show "an_question ` set (answers c') \<subseteq> qu_id ` set (questions c')"
      using d(4) by (auto simp: c')
    show "qu_id r < cat_next c' \<and> (qu_is_answered r \<longleftrightarrow> qu_id r \<in> an_question ` set (answers c'))" if "r \<in> set (questions c')" for r
    proof (cases "r = q")
      case True
      then show ?thesis
        using q fresh d(4) by (auto simp: c')
    next
      case False
      then have "r \<in> set (questions c)"
        using that by (simp add: c')
      from d(5) [OF this] d(7) [OF this] show ?thesis
        by (simp add: c')
    qed
    show "an_id a < cat_next c'" if "a \<in> set (answers c')" for a
      using d(6) [of a] that by (simp add: c')
  qed
qed

section \<open>Notifications\<close>

text \<open>The operations on the inbox touch nothing else.\<close>

lemma inbox_change:
  assumes "c' = c\<lparr>inbox := ns, cat_next := n\<rparr>" "cat_next c \<le> n" "inbox_ok c \<Longrightarrow> inbox_ok c'"
  shows "qna_change c c'"
  using assms by (auto simp: qna_change_def qna_frame_def questions_ok_def asked_products_def intro: less_le_trans)

lemma inbox_ok_map:
  assumes "inbox_ok c" "\<And>n. no_id (f n) = no_id n" "\<And>n. no_read_at n \<noteq> None \<longrightarrow> no_is_read n \<Longrightarrow> no_read_at (f n) \<noteq> None \<longrightarrow> no_is_read (f n)"
  shows "inbox_ok (c\<lparr>inbox := map f (inbox c)\<rparr>)"
  using assms by (simp add: inbox_ok_def comp_def)

lemma inbox_ok_filter: "inbox_ok c \<Longrightarrow> inbox_ok (c\<lparr>inbox := filter P (inbox c)\<rparr>)"
  by (auto simp: inbox_ok_def distinct_map_filter)

lemma mark_as_read_change: "qna_change c (snd (mark_as_read u ids c))"
  by (rule inbox_change [where n = "cat_next c"]) (auto simp: mark_as_read_def intro!: inbox_ok_map split: if_splits)

lemma mark_single_as_read_change: "qna_change c (snd (mark_single_as_read n now c))"
proof (rule inbox_change [where n = "cat_next c"])
  show "snd (mark_single_as_read n now c) = c\<lparr>inbox := (if no_is_read n then inbox c
      else rupd no_id (inbox c) (no_id n) (\<lambda>n. n\<lparr>no_is_read := True, no_read_at := Some now\<rparr>)), cat_next := cat_next c\<rparr>"
    by (simp add: mark_single_as_read_def)
  show "inbox_ok (snd (mark_single_as_read n now c))" if "inbox_ok c"
    using that by (auto simp: mark_single_as_read_def rupd_def intro!: inbox_ok_map split: if_splits)
qed simp

lemma clear_read_change: "qna_change c (snd (clear_read u c))"
  by (rule inbox_change [where n = "cat_next c"]) (auto simp: clear_read_def intro!: inbox_ok_filter)

lemma delete_by_id_change:
  assumes "delete_by_id u k c = Inr (r, c')"
  shows "qna_change c c'"
  by (rule inbox_change [where n = "cat_next c"])
    (use assms in \<open>auto simp: delete_by_id_def intro!: inbox_ok_filter split: sum.splits\<close>)

interpretation delete_op: qna_op "\<lambda>(u, k). delete_by_id u k"
  by unfold_locales (auto intro: delete_by_id_change)

interpretation read_op: qna_op "\<lambda>(u, k, now). retrieve_notification u k now"
  by unfold_locales (auto simp: retrieve_notification_def intro: mark_single_as_read_change split: sum.splits)

interpretation mark_op: qna_op "\<lambda>(u, ids). mark_read_request u ids"
proof unfold_locales
  fix x r and c c' :: cdb
  assume run: "(case x of (u, ids) \<Rightarrow> mark_read_request u ids) c = Inr (r, c')"
  obtain u ids where "x = (u, ids)"
    by (cases x)
  with run obtain ks where "mark_as_read u (if ks = [] then None else Some ks) c = (r, c')"
    by (auto simp: mark_read_request_def split: sum.splits)
  then show "qna_change c c'"
    using mark_as_read_change [of c u "if ks = [] then None else Some ks"] by simp
qed

lemma qna_change_trans: "qna_change c d \<Longrightarrow> qna_change d e \<Longrightarrow> qna_change c e"
  by (auto simp: qna_change_def qna_frame_def)

lemma add_notification_change:
  assumes "no_id n = cat_next c" "no_read_at n = None"
  shows "qna_change c (c\<lparr>inbox := inbox c @ [n], cat_next := Suc (cat_next c)\<rparr>)"
  by (rule inbox_change [where n = "Suc (cat_next c)"]) (use assms in \<open>auto simp: inbox_ok_def intro: less_SucI\<close>)

lemma bulk_create_change: "qna_change c (snd (notification_bulk_create us ntype title message now c))"
proof (induction us arbitrary: c)
  case Nil
  then show ?case
    by (simp add: qna_change_def qna_frame_def)
next
  case (Cons u us)
  let ?n = "\<lparr>no_id = cat_next c, no_user = u, no_type = ntype, no_title = title, no_message = message, no_link = [], no_metadata = [],
    no_is_read = False, no_read_at = None, no_created_at = now\<rparr>"
  have "qna_change c (c\<lparr>inbox := inbox c @ [?n], cat_next := Suc (cat_next c)\<rparr>)"
    by (rule add_notification_change) simp_all
  from qna_change_trans [OF this Cons.IH] show ?case
    by (simp add: Let_def case_prod_beta)
qed

end
