(* ===== verification/Catalogue_System.thy ===== *)
theory Catalogue_System
  imports Wishlist_Ops Question_Ops Listings Cart_Properties
begin

text \<open>
  The life of the catalogue: a step is an operation on products, images, reviews, wish lists, questions or notifications, a step
  of the carts, or another change of the shop that leaves the keys of the products alone.  Every step keeps the tables well-formed.
\<close>

section \<open>Well-formed tables\<close>

definition shelf_ok :: "cdb \<Rightarrow> db \<Rightarrow> bool" where
  "shelf_ok c d \<longleftrightarrow> map en_id (entries c) = map p_id (products d) \<and> distinct (map en_slug (entries c)) \<and> distinct (map en_sku (entries c))
     \<and> (\<forall>p \<in> set (products d). p_id p < next_id d)"

definition images_ok :: "cdb \<Rightarrow> db \<Rightarrow> bool" where
  "images_ok c d \<longleftrightarrow> keys_distinct im_id (images c) \<and> im_product ` set (images c) \<subseteq> product_ids d
     \<and> distinct (map im_product (filter im_is_primary (images c)))"

definition review_slot :: "review \<Rightarrow> pk \<times> pk" where
  "review_slot r = (rv_product r, rv_user r)"

definition reviews_ok :: "cdb \<Rightarrow> db \<Rightarrow> bool" where
  "reviews_ok c d \<longleftrightarrow> distinct (map review_slot (reviews c)) \<and> (\<forall>r \<in> set (reviews c). rv_rating r \<in> {1..5} \<and> rv_product r \<in> product_ids d)"

definition catalogue_inv :: "cdb \<times> db \<Rightarrow> bool" where
  "catalogue_inv = (\<lambda>(c, d). cart_inv d \<and> shelf_ok c d \<and> wishes_ok c d \<and> images_ok c d \<and> reviews_ok c d
     \<and> questions_ok c \<and> inbox_ok c \<and> asked_products c \<subseteq> product_ids d)"

lemma catalogue_invI:
  assumes "cart_inv d" "shelf_ok c d" "wishes_ok c d" "images_ok c d" "reviews_ok c d" "questions_ok c" "inbox_ok c"
    "asked_products c \<subseteq> product_ids d"
  shows "catalogue_inv (c, d)"
  using assms by (simp add: catalogue_inv_def)

lemma catalogue_invD:
  assumes "catalogue_inv (c, d)"
  shows "cart_inv d" "shelf_ok c d" "wishes_ok c d" "images_ok c d" "reviews_ok c d" "questions_ok c" "inbox_ok c"
    "asked_products c \<subseteq> product_ids d"
  using assms by (simp_all add: catalogue_inv_def)

text \<open>What another table of the shop does is no matter.\<close>

lemma catalogue_inv_shop:
  assumes inv: "catalogue_inv (c, d)" and "cart_inv d'" "map p_id (products d') = map p_id (products d)" "next_id d \<le> next_id d'"
  shows "catalogue_inv (c, d')"
proof -
  have ids: "product_ids d' = product_ids d"
    using arg_cong [OF assms(3), of set] by simp
  have "p_id p < next_id d'" if "p \<in> set (products d')" for p
  proof -
    have "p_id p \<in> product_ids d"
      using that ids by blast
    then show ?thesis
      using catalogue_invD(2) [OF inv] assms(4) by (auto simp: shelf_ok_def)
  qed
  then show ?thesis
    using catalogue_invD [OF inv] assms(2,3)
    by (intro catalogue_invI) (simp_all add: shelf_ok_def wishes_ok_def images_ok_def reviews_ok_def ids)
qed

lemma catalogue_inv_qna:
  assumes inv: "catalogue_inv (c, d)" and change: "qna_change c c'"
  shows "catalogue_inv (c', d)"
  using catalogue_invD [OF inv] change
  by (intro catalogue_invI) (auto simp: qna_change_def qna_frame_def shelf_ok_def wishes_ok_def images_ok_def reviews_ok_def)

lemma catalogue_inv_wishes:
  assumes inv: "catalogue_inv (c, d)" and change: "wish_frame c c'" "wishes_ok c' d"
  shows "catalogue_inv (c', d)"
proof -
  obtain ws where "c' = c\<lparr>wishes := ws\<rparr>"
    using change(1) unfolding wish_frame_def by blast
  then show ?thesis
    using catalogue_invD [OF inv] change(2)
    by (intro catalogue_invI) (simp_all add: shelf_ok_def images_ok_def reviews_ok_def questions_ok_def inbox_ok_def asked_products_def)
qed

section \<open>Products\<close>

lemma column_free:
  assumes "\<not> column_taken col (Some (en_id e)) (col e) c" "x \<in> set (entries c)" "col x = col e"
  shows "en_id x = en_id e"
  using assms by (auto simp: column_taken_def)

lemma entry_save_id [simp]: "en_id (entry_save slugify name e) = en_id e" "en_seller (entry_save slugify name e) = en_seller e"
  by (simp_all add: entry_save_def)

lemma shelf_ids: "shelf_ok c d \<Longrightarrow> en_id ` set (entries c) = product_ids d"
  unfolding shelf_ok_def by (metis list.set_map)

lemma shelf_keys: "cart_inv d \<Longrightarrow> shelf_ok c d \<Longrightarrow> keys_distinct en_id (entries c)"
  using cart_invD(3) by (simp add: shelf_ok_def)

lemma valid_stock: "validate_product partial row inp c \<Longrightarrow> pi_stock inp = Some n \<Longrightarrow> 0 \<le> n"
  by (simp add: validate_product_def field_ok_def Let_def)

lemma create_product_Inr:
  assumes "create_product slugify who inp now (c, d) = Inr (k, c', d')"
  obtains m p e where "who = Some m" "mb_is_seller m" "k = next_id d" "c' = c\<lparr>entries := entries c @ [e]\<rparr>"
    "d' = d\<lparr>products := products d @ [p], next_id := Suc k\<rparr>" "p_id p = k" "en_id e = k" "en_seller e = Some (mb_id m)"
    "0 \<le> p_stock p" "\<not> entry_clash e c"
proof -
  obtain m where m: "who = Some m" "mb_is_seller m" "validate_product False None inp c"
    using assms by (auto simp: create_product_def IsSellerAndOwner_def split: option.splits if_splits)
  have stock: "0 \<le> (case pi_stock inp of None \<Rightarrow> 0 | Some n \<Rightarrow> n)"
    using valid_stock [OF m(3)] by (cases "pi_stock inp") simp_all
  show thesis
    using assms m stock
    by (intro that [of m "last (entries c')" "last (products d')"]) (auto simp: create_product_def IsSellerAndOwner_def Let_def split: if_splits)
qed

lemma lines_ok_products: "lines_ok cs ps n xs \<Longrightarrow> n \<le> m \<Longrightarrow> ps \<subseteq> qs \<Longrightarrow> lines_ok cs qs m xs"
  by (auto simp: lines_ok_def intro: less_le_trans)

lemma new_column:
  assumes "\<not> column_taken col (Some (en_id e)) (col e) c" "en_id e \<notin> en_id ` set (entries c)"
  shows "col e \<notin> col ` set (entries c)"
proof
  assume "col e \<in> col ` set (entries c)"
  then obtain x where x: "x \<in> set (entries c)" "col x = col e"
    by (metis image_iff)
  from imageI [OF x(1), of en_id] show False
    using column_free [OF assms(1) x] assms(2) by simp
qed

lemma new_entry_columns:
  assumes "\<not> entry_clash e c" "en_id e \<notin> en_id ` set (entries c)"
  shows "en_slug e \<notin> en_slug ` set (entries c)" "en_sku e \<notin> en_sku ` set (entries c)"
  using new_column [of en_slug, OF _ assms(2)] new_column [of en_sku, OF _ assms(2)] assms(1) unfolding entry_clash_def by blast+

lemma create_product_inv:
  assumes inv: "catalogue_inv (c, d)" and run: "create_product slugify who inp now (c, d) = Inr (k, c', d')"
  shows "catalogue_inv (c', d')"
proof -
  obtain p e where k: "k = next_id d" and c': "c' = c\<lparr>entries := entries c @ [e]\<rparr>" and d': "d' = d\<lparr>products := products d @ [p], next_id := Suc k\<rparr>"
    and ids: "p_id p = k" "en_id e = k" and ok: "0 \<le> p_stock p" "\<not> entry_clash e c"
    by (rule create_product_Inr [OF run]) blast
  note i = catalogue_invD [OF inv]
  have fresh: "k \<notin> product_ids d"
    using i(2) by (auto simp: shelf_ok_def k)
  have more: "product_ids d \<subseteq> product_ids d'"
    by (auto simp: d')
  have "cart_inv d'"
    using i(1) fresh ok(1) ids lines_ok_products [OF cart_invD(1) [OF i(1)], of "Suc k" "insert k (product_ids d)"]
    by (auto simp: cart_inv_def carts_ok_def d' k intro: less_SucI)
  moreover have "shelf_ok c' d'"
    using i(2) new_entry_columns [OF ok(2)] ids fresh shelf_ids [OF i(2)] by (auto simp: shelf_ok_def c' d' k)
  moreover have "wishes_ok c' d'" "images_ok c' d'" "reviews_ok c' d'" "asked_products c' \<subseteq> product_ids d'"
    using i(3-5,8) more by (force simp: wishes_ok_def images_ok_def reviews_ok_def asked_products_def c')+
  moreover have "questions_ok c'" "inbox_ok c'"
    using i(6,7) by (simp_all add: questions_ok_def inbox_ok_def c')
  ultimately show ?thesis
    by (intro catalogue_invI)
qed

lemma find_listing_Some:
  assumes "find_listing k (c, d) = Some (p, e)"
  shows "e \<in> set (entries c)" "get_product d (en_id e) = Some p" "p_id p = k" "en_id e = k" "p_is_active p" "p \<in> set (products d)"
proof -
  have "(p, e) \<in> set (shelf (c, d))" and key: "p_id p = k" "p_is_active p"
    using assms by (auto simp: find_listing_def find_Some_iff) (metis nth_mem)
  then have e: "e \<in> set (entries c)" "get_product d (en_id e) = Some p"
    by (simp_all add: in_shelf)
  then show "e \<in> set (entries c)" "get_product d (en_id e) = Some p" "p_id p = k" "en_id e = k" "p_is_active p" "p \<in> set (products d)"
    using key rget_Some_key [OF e(2)] rget_Some_in [OF e(2)] by simp_all
qed

lemma update_product_Inr:
  assumes "update_product slugify who partial k inp (c, d) = Inr (u, c', d')"
  obtains m p e p' e' where "who = Some m" "mb_is_seller m" "find_listing k (c, d) = Some (p, e)" "en_seller e = Some (mb_id m)"
    "c' = c\<lparr>entries := rupd en_id (entries c) k (\<lambda>_. e')\<rparr>" "d' = upd_product k (\<lambda>_. p') d" "p_id p' = k" "en_id e' = k" "en_seller e' = en_seller e"
    "p_sold_count p' = p_sold_count p" "0 \<le> p_stock p \<Longrightarrow> 0 \<le> p_stock p'" "\<not> entry_clash e' c"
proof -
  obtain m p e where m: "who = Some m" "mb_is_seller m" "find_listing k (c, d) = Some (p, e)" "en_seller e = Some (mb_id m)"
      "validate_product partial (Some (p, e)) inp c" "save_product slugify inp (p, e) (c, d) = Inr (u, c', d')"
    using assms by (auto simp: update_product_def IsSellerAndOwner_def IsSellerAndOwner_object_def split: option.splits if_splits)
  note f = find_listing_Some [OF m(3)]
  obtain p' e0 where set: "set_fields inp (new_slug slugify k inp c) (p, e) = (p', e0)"
    by (rule prod.exhaust)
  have p': "p_id p' = k" "p_sold_count p' = p_sold_count p" "en_id e0 = k" "en_seller e0 = en_seller e"
    and stock': "p_stock p' = (case pi_stock inp of None \<Rightarrow> p_stock p | Some v \<Rightarrow> v)"
    using set f(3,4) by (auto simp: set_fields_def)
  have stock: "0 \<le> p_stock p'" if "0 \<le> p_stock p"
    using valid_stock [OF m(5)] that by (cases "pi_stock inp") (simp_all add: stock')
  show thesis
    by (rule that [of m p e "entry_save slugify (p_name p') e0" p'])
      (use m set p' f stock in \<open>auto simp: save_product_def Let_def split: if_splits\<close>)
qed

lemma set_rupd_const: "set (rupd key rs k (\<lambda>_. q)) \<subseteq> insert q {r \<in> set rs. key r \<noteq> k}"
  by (auto simp: rupd_def)

lemma distinct_rupd_const:
  assumes "distinct (map col rs)" "keys_distinct key rs" "\<And>r. r \<in> set rs \<Longrightarrow> col r = col q \<Longrightarrow> key r = k"
  shows "distinct (map col (rupd key rs k (\<lambda>_. q)))"
  using assms
proof (induction rs)
  case (Cons r rs)
  have rest: "distinct (map col (rupd key rs k (\<lambda>_. q)))"
    by (rule Cons.IH) (use Cons.prems in auto)
  show ?case
  proof (cases "key r = k")
    case True
    then have "rupd key rs k (\<lambda>_. q) = rs"
      using Cons.prems(2) by (intro rupd_absent) auto
    moreover have "col q \<notin> col ` set rs"
    proof
      assume "col q \<in> col ` set rs"
      then obtain x where "x \<in> set rs" "col x = col q"
        by fastforce
      then show False
        using Cons.prems(2) Cons.prems(3) [of x] True by (auto simp: image_iff)
    qed
    ultimately show ?thesis
      using True Cons.prems(1) by simp
  next
    case False
    then have "col r \<noteq> col q"
      using Cons.prems(3) by auto
    then have "col r \<notin> col ` set (rupd key rs k (\<lambda>_. q))"
      using Cons.prems(1) set_rupd_const [of key rs k q] by auto
    then show ?thesis
      using False rest by simp
  qed
qed simp

lemma map_key_rupd_const: "key q = k \<Longrightarrow> map key (rupd key rs k (\<lambda>_. q)) = map key rs"
  by (induction rs) auto

lemma update_product_inv:
  assumes inv: "catalogue_inv (c, d)" and run: "update_product slugify who partial k inp (c, d) = Inr (u, c', d')"
  shows "catalogue_inv (c', d')"
proof -
  obtain p e p' e' where find: "find_listing k (c, d) = Some (p, e)"
    and c': "c' = c\<lparr>entries := rupd en_id (entries c) k (\<lambda>_. e')\<rparr>" and d': "d' = upd_product k (\<lambda>_. p') d"
    and ids: "p_id p' = k" "en_id e' = k" and stock: "0 \<le> p_stock p \<Longrightarrow> 0 \<le> p_stock p'" and free: "\<not> entry_clash e' c"
    by (rule update_product_Inr [OF run]) blast
  note i = catalogue_invD [OF inv]
  have keys: "map p_id (products d') = map p_id (products d)" and other: "carts d' = carts d" "cart_items d' = cart_items d" "next_id d' = next_id d"
    using ids by (simp_all add: d' upd_product_def map_key_rupd_const)
  have "0 \<le> p_stock p'"
    using stock cart_invD(4) [OF i(1) find_listing_Some(6) [OF find]] by simp
  then have "\<forall>x \<in> set (products d'). 0 \<le> p_stock x"
    using cart_invD(4) [OF i(1)] set_rupd_const [of p_id "products d" k p'] by (auto simp: d' upd_product_def)
  then have "cart_inv d'"
    using elsewhere_cart_inv [OF i(1) other(1,2) keys] other(3) by simp
  then have shop: "catalogue_inv (c, d')"
    by (rule catalogue_inv_shop [OF inv _ keys]) (simp add: other)
  note j = catalogue_invD [OF shop]
  have "shelf_ok c' d'"
  proof -
    have "en_id x = k" if "x \<in> set (entries c)" "en_slug x = en_slug e' \<or> en_sku x = en_sku e'" for x
      using free that ids column_free [of en_slug e' c x] column_free [of en_sku e' c x] unfolding entry_clash_def by auto
    then show ?thesis
      using j(2) ids distinct_rupd_const [of en_slug "entries c" en_id e' k] distinct_rupd_const [of en_sku "entries c" en_id e' k]
        shelf_keys [OF j(1,2)]
      by (simp add: shelf_ok_def c' map_key_rupd_const)
  qed
  then show ?thesis
    using j by (intro catalogue_invI) (simp_all add: c' wishes_ok_def images_ok_def reviews_ok_def asked_products_def questions_ok_def inbox_ok_def)
qed

text \<open>Deleting a product takes its lines in carts along.\<close>

lemma destroy_product_Inr:
  assumes "destroy_product who k (c, d) = Inr (u, c', d')"
  obtains m p e where "who = Some m" "mb_is_seller m" "find_listing k (c, d) = Some (p, e)" "en_seller e = Some (mb_id m)"
    "k \<notin> asked_products c"
    "c' = c\<lparr>entries := filter (\<lambda>e. en_id e \<noteq> k) (entries c), images := filter (\<lambda>i. im_product i \<noteq> k) (images c),
       reviews := filter (\<lambda>r. rv_product r \<noteq> k) (reviews c), wishes := filter (\<lambda>(u, x). x \<noteq> k) (wishes c)\<rparr>"
    "products d' = filter (\<lambda>p. p_id p \<noteq> k) (products d)" "cart_items d' = filter (\<lambda>i. ci_product i \<noteq> k) (cart_items d)"
    "carts d' = carts d" "next_id d' = next_id d"
proof -
  obtain m p e where m: "who = Some m" "mb_is_seller m" "find_listing k (c, d) = Some (p, e)" "en_seller e = Some (mb_id m)"
      and free: "\<not> (\<exists>q \<in> set (questions c). qu_product q = k)"
    using assms by (auto simp: destroy_product_def IsSellerAndOwner_def IsSellerAndOwner_object_def split: option.splits if_splits)
  have asked: "k \<notin> asked_products c"
    using free by (auto simp: asked_products_def)
  show thesis
    using assms m free by (intro that [OF m asked]) (auto simp: destroy_product_def IsSellerAndOwner_def IsSellerAndOwner_object_def)
qed

lemma distinct_filter_filter: "distinct (map f (filter P xs)) \<Longrightarrow> distinct (map f (filter P (filter Q xs)))"
  using distinct_map_filter [of f "filter P xs" Q] by (simp add: filter_filter conj_commute)

lemma filter_keys: "map f xs = map g ys \<Longrightarrow> map f (filter (\<lambda>x. f x \<noteq> k) xs) = map g (filter (\<lambda>y. g y \<noteq> k) ys)"
  using filter_map [of "\<lambda>x. x \<noteq> k" f xs] filter_map [of "\<lambda>x. x \<noteq> k" g ys] by (simp add: comp_def)

lemma destroy_product_inv:
  assumes inv: "catalogue_inv (c, d)" and run: "destroy_product who k (c, d) = Inr (u, c', d')"
  shows "catalogue_inv (c', d')"
proof -
  obtain asked: "k \<notin> asked_products c"
    and c': "c' = c\<lparr>entries := filter (\<lambda>e. en_id e \<noteq> k) (entries c), images := filter (\<lambda>i. im_product i \<noteq> k) (images c),
       reviews := filter (\<lambda>r. rv_product r \<noteq> k) (reviews c), wishes := filter (\<lambda>(u, x). x \<noteq> k) (wishes c)\<rparr>"
    and d': "products d' = filter (\<lambda>p. p_id p \<noteq> k) (products d)" "cart_items d' = filter (\<lambda>i. ci_product i \<noteq> k) (cart_items d)"
      "carts d' = carts d" "next_id d' = next_id d"
    by (rule destroy_product_Inr [OF run]) blast
  note i = catalogue_invD [OF inv]
  have ids: "product_ids d' = product_ids d - {k}"
    by (auto simp: d')
  have "lines_ok (cart_ids d) (product_ids d - {k}) (next_id d) (filter (\<lambda>i. ci_product i \<noteq> k) (cart_items d))"
    using lines_ok_filter [OF cart_invD(1) [OF i(1)], of "\<lambda>i. ci_product i \<noteq> k"] by (auto simp: lines_ok_def)
  then have "cart_inv d'"
    using cart_invD [OF i(1)] unfolding cart_inv_def ids unfolding d' by (auto simp: distinct_map_filter)
  moreover have "shelf_ok c' d'"
    using i(2) filter_keys [of en_id "entries c" p_id "products d" k] by (auto simp: shelf_ok_def c' d' distinct_map_filter)
  moreover have "wishes_ok c' d'" "reviews_ok c' d'"
    using i(3,5) by (auto simp: wishes_ok_def reviews_ok_def c' ids distinct_map_filter)
  moreover have "images_ok c' d'"
    using i(4) by (auto simp: images_ok_def c' ids simp del: filter_filter intro: distinct_map_filter distinct_filter_filter)
  moreover have "questions_ok c'" "inbox_ok c'" "asked_products c' \<subseteq> product_ids d'"
    using i(6-8) asked by (auto simp: questions_ok_def inbox_ok_def asked_products_def c' ids)
  ultimately show ?thesis
    by (intro catalogue_invI)
qed

section \<open>Images and reviews\<close>

definition clear_flag :: "pk set \<Rightarrow> image \<Rightarrow> image" where
  "clear_flag ks = (\<lambda>i. if im_id i \<in> ks then i\<lparr>im_is_primary := False\<rparr> else i)"

lemma clear_flag_sel [simp]:
  "im_id (clear_flag ks i) = im_id i" "im_product (clear_flag ks i) = im_product i"
  "im_is_primary (clear_flag ks i) \<longleftrightarrow> im_is_primary i \<and> im_id i \<notin> ks"
  by (simp_all add: clear_flag_def)

definition siblings :: "image \<Rightarrow> image list \<Rightarrow> pk set" where
  "siblings img is = set (map im_id (filter (\<lambda>i. im_product i = im_product img) is))"

definition with_primary :: "image \<Rightarrow> image list \<Rightarrow> image list" where
  "with_primary img is = rupd im_id (map (clear_flag (siblings img is)) is) (im_id img) (\<lambda>i. i\<lparr>im_is_primary := True\<rparr>)"

lemma set_primary_image_eq: "set_primary_image img b c = (if b then c\<lparr>images := with_primary img (images c)\<rparr> else c)"
  by (simp add: set_primary_image_def with_primary_def clear_flag_def siblings_def Let_def del: set_map set_filter)

lemma with_primary_cols: "map im_id (with_primary img is) = map im_id is" "map im_product (with_primary img is) = map im_product is"
  by (simp_all add: with_primary_def map_key_rupd map_rupd_other comp_def)

lemma in_siblings:
  assumes "keys_distinct im_id is" "j \<in> set is"
  shows "im_id j \<in> siblings img is \<longleftrightarrow> im_product j = im_product img"
proof -
  have "inj_on im_id (set is)"
    using assms(1) by (simp add: distinct_map)
  then show ?thesis
    using assms(2) by (auto simp: siblings_def dest: inj_onD)
qed

lemma with_primary_row:
  assumes "i \<in> set (with_primary img is)" "keys_distinct im_id is"
  shows "\<exists>j \<in> set is. im_id i = im_id j \<and> im_product i = im_product j
     \<and> (im_is_primary i \<longleftrightarrow> im_id j = im_id img \<or> im_product j \<noteq> im_product img \<and> im_is_primary j)"
proof -
  obtain j where j: "j \<in> set is" and i: "i = (if im_id j = im_id img then (clear_flag (siblings img is) j)\<lparr>im_is_primary := True\<rparr>
      else clear_flag (siblings img is) j)"
    using assms(1) by (auto simp: with_primary_def rupd_def)
  have "im_id i = im_id j \<and> im_product i = im_product j
     \<and> (im_is_primary i \<longleftrightarrow> im_id j = im_id img \<or> im_product j \<noteq> im_product img \<and> im_is_primary j)"
    using in_siblings [OF assms(2) j, of img] by (auto simp: i)
  with j show ?thesis
    by blast
qed

text \<open>One primary image for each product, as a fact on rows.\<close>

lemma distinct_on_filter:
  assumes "keys_distinct key xs"
  shows "distinct (map f (filter P xs)) \<longleftrightarrow> (\<forall>x \<in> set xs. \<forall>y \<in> set xs. P x \<and> P y \<and> f x = f y \<longrightarrow> key x = key y)"
proof -
  have "distinct xs" and inj: "inj_on key (set xs)"
    using assms by (simp_all add: distinct_map)
  then have "distinct (map f (filter P xs)) \<longleftrightarrow> inj_on f {x \<in> set xs. P x}"
    by (simp add: distinct_map)
  also have "\<dots> \<longleftrightarrow> (\<forall>x \<in> set xs. \<forall>y \<in> set xs. P x \<and> P y \<and> f x = f y \<longrightarrow> key x = key y)"
    using inj by (auto simp: inj_on_def)
  finally show ?thesis .
qed

lemma set_primary_image_inv:
  assumes inv: "catalogue_inv (c, d)" and img: "img \<in> set (images c)"
  shows "catalogue_inv (set_primary_image img b c, d)"
proof (cases b)
  case True
  note i = catalogue_invD [OF inv]
  let ?is = "with_primary img (images c)"
  have keys: "keys_distinct im_id (images c)" and keys': "keys_distinct im_id ?is"
    using i(4) by (simp_all add: images_ok_def with_primary_cols)
  note row = with_primary_row [OF _ keys]
  have inj: "x = y" if "x \<in> set (images c)" "y \<in> set (images c)" "im_id x = im_id y" for x y
    using keys that unfolding distinct_map by (meson inj_onD)
  have "distinct (map im_product (filter im_is_primary (images c)))"
    using i(4) by (simp add: images_ok_def)
  note all = this [unfolded distinct_on_filter [OF keys]]
  have one: "im_id x = im_id y" if x: "x \<in> set (images c)" "im_is_primary x" and y: "y \<in> set (images c)" "im_is_primary y" and "im_product x = im_product y" for x y
    using all that by blast
  have "im_id x = im_id y" if x: "x \<in> set ?is" "im_is_primary x" and y: "y \<in> set ?is" "im_is_primary y" and eq: "im_product x = im_product y" for x y
  proof -
    from row [OF x(1)] x(2) obtain i where i: "i \<in> set (images c)" "im_id x = im_id i" "im_product x = im_product i"
      "im_id i = im_id img \<or> im_product i \<noteq> im_product img \<and> im_is_primary i"
      by auto
    from row [OF y(1)] y(2) obtain j where j: "j \<in> set (images c)" "im_id y = im_id j" "im_product y = im_product j"
      "im_id j = im_id img \<or> im_product j \<noteq> im_product img \<and> im_is_primary j"
      by auto
    have same: "im_product i = im_product j"
      using i(3) j(3) eq by simp
    have "im_product i = im_product img" if "im_id i = im_id img"
      using inj [OF i(1) img that] by simp
    moreover have "im_product j = im_product img" if "im_id j = im_id img"
      using inj [OF j(1) img that] by simp
    ultimately have "im_id i = im_id j"
      using i(4) j(4) same one [OF i(1) _ j(1) _ same] by argo
    then show ?thesis
      by (simp only: i(2) j(2))
  qed
  then have "distinct (map im_product (filter im_is_primary ?is))"
    unfolding distinct_on_filter [OF keys'] by blast
  moreover have "im_product ` set ?is = im_product ` set (images c)"
    using arg_cong [OF with_primary_cols(2), of set] by simp
  ultimately show ?thesis
    using i keys' True
    by (intro catalogue_invI)
      (simp_all add: set_primary_image_eq images_ok_def shelf_ok_def wishes_ok_def reviews_ok_def questions_ok_def inbox_ok_def asked_products_def)
qed (use inv in \<open>simp add: set_primary_image_eq\<close>)

lemma upload_inv:
  assumes inv: "catalogue_inv (c, d)" and i: "\<not> im_is_primary i" "im_id i \<notin> im_id ` set (images c)" "im_product i \<in> product_ids d"
  shows "catalogue_inv (c\<lparr>images := images c @ [i]\<rparr>, d)"
  using catalogue_invD [OF inv] i
  by (intro catalogue_invI)
    (auto simp: images_ok_def shelf_ok_def wishes_ok_def reviews_ok_def questions_ok_def inbox_ok_def asked_products_def)

lemma create_review_Inr:
  assumes "create_review who k rating comment now (c, d) = Inr (n, c', d')"
  obtains m r where "who = Some m" "find_listing k (c, d) \<noteq> None" "d' = d" "n = cat_next c" "c' = c\<lparr>reviews := reviews c @ [r], cat_next := Suc (cat_next c)\<rparr>"
    "review_slot r = (k, mb_id m)" "rv_rating r = rating" "rating \<in> {1..5}" "(k, mb_id m) \<notin> review_slot ` set (reviews c)"
proof -
  obtain m where m: "who = Some m" "find_listing k (c, d) \<noteq> None" "\<not> (\<exists>r \<in> set (reviews c). rv_product r = k \<and> rv_user r = mb_id m)"
      "rating \<in> {1..5}"
    and run: "Inr (n, c', d') = (let r = \<lparr>rv_id = cat_next c, rv_product = k, rv_user = mb_id m, rv_rating = rating, rv_comment = comment, rv_created_at = now\<rparr>
             in Inr (rv_id r, c\<lparr>reviews := reviews c @ [r], cat_next := Suc (cat_next c)\<rparr>, d))"
    using assms by (auto simp: create_review_def split: option.splits if_splits)
  have "(k, mb_id m) \<notin> review_slot ` set (reviews c)"
    using m(3) by (auto simp: review_slot_def)
  then show thesis
    using m run by (intro that) (auto simp: Let_def review_slot_def)
qed

lemma create_review_inv:
  assumes inv: "catalogue_inv (c, d)" and run: "create_review who k rating comment now (c, d) = Inr (n, c', d')"
  shows "catalogue_inv (c', d')"
proof (rule create_review_Inr [OF run])
  fix m r
  assume find: "find_listing k (c, d) \<noteq> None" and d': "d' = d"
    and c': "c' = c\<lparr>reviews := reviews c @ [r], cat_next := Suc (cat_next c)\<rparr>"
    and r: "review_slot r = (k, mb_id m)" "rv_rating r = rating" "rating \<in> {1..5}" "(k, mb_id m) \<notin> review_slot ` set (reviews c)"
  note i = catalogue_invD [OF inv]
  obtain p e where "find_listing k (c, d) = Some (p, e)"
    using find by auto
  from find_listing_Some [OF this] have "k \<in> product_ids d"
    by auto
  then have "reviews_ok c' d"
    using i(5) r by (auto simp: reviews_ok_def c' review_slot_def)
  moreover have "questions_ok c'" "inbox_ok c'"
    using i(6,7) by (auto simp: questions_ok_def inbox_ok_def c' intro: less_SucI)
  ultimately show ?thesis
    using i unfolding d' by (intro catalogue_invI) (simp_all add: c' shelf_ok_def wishes_ok_def images_ok_def asked_products_def)
qed

end
