(* ===== verification/Category_Paths.thy ===== *)
theory Category_Paths
  imports Catalogue
begin

text \<open>
  The two ways to compute the path of a category: along the rows of the parents, and for a whole page at once from
  the nodes of the trees.  Both loops end when the parents form a forest, which the package mptt ensures, and agree.
\<close>

section \<open>Forests\<close>

definition parent_rel :: "category list \<Rightarrow> (pk \<times> pk) set" where
  "parent_rel cs = {(k, ct_id x) | x k. x \<in> set cs \<and> ct_parent x = Some k}"

text \<open>What mptt promises: a parent is a row of the same tree, and nothing is below itself.\<close>

definition category_forest :: "category list \<Rightarrow> bool" where
  "category_forest cs \<longleftrightarrow> keys_distinct ct_id cs \<and> acyclic (parent_rel cs)
     \<and> (\<forall>x \<in> set cs. \<forall>k. ct_parent x = Some k \<longrightarrow> (\<exists>y \<in> set cs. ct_id y = k \<and> ct_tree y = ct_tree x))"

lemma finite_parent_rel: "finite (parent_rel cs)"
proof (rule finite_subset)
  show "parent_rel cs \<subseteq> (\<lambda>x. (the (ct_parent x), ct_id x)) ` set cs"
    by (force simp: parent_rel_def)
qed simp

lemma forest_id: "category_forest cs \<Longrightarrow> x \<in> set cs \<Longrightarrow> y \<in> set cs \<Longrightarrow> ct_id x = ct_id y \<Longrightarrow> x = y"
  unfolding category_forest_def distinct_map by (meson inj_onD)

lemma forest_wf: "category_forest cs \<Longrightarrow> wf (parent_rel cs)"
  by (simp add: category_forest_def finite_acyclic_wf finite_parent_rel)

text \<open>The names from the root down to a category.\<close>

inductive root_path :: "cdb \<Rightarrow> category \<Rightarrow> string list \<Rightarrow> bool" for c where
  root: "ct_parent x = None \<Longrightarrow> root_path c x [ct_name x]"
| below: "ct_parent x = Some k \<Longrightarrow> get_category c k = Some y \<Longrightarrow> root_path c y names \<Longrightarrow> root_path c x (names @ [ct_name x])"

lemma root_path_ex:
  assumes forest: "category_forest (categories c)" and "x \<in> set (categories c)"
  shows "\<exists>names. root_path c x names"
  using assms(2)
proof (induction "ct_id x" arbitrary: x rule: wf_induct_rule [OF forest_wf [OF forest]])
  case 1
  show ?case
  proof (cases "ct_parent x")
    case None
    then show ?thesis
      by (blast intro: root_path.root)
  next
    case (Some k)
    then obtain y where y: "y \<in> set (categories c)" "ct_id y = k"
      using forest 1(2) by (auto simp: category_forest_def)
    then have "get_category c k = Some y"
      using forest rget_in_distinct [of ct_id "categories c" y] by (simp add: category_forest_def)
    moreover obtain names where "root_path c y names"
      using 1(1) [of y] y Some 1(2) by (auto simp: parent_rel_def)
    ultimately show ?thesis
      using Some by (blast intro: root_path.below)
  qed
qed

section \<open>The loops\<close>

lemma ancestor_loop_simps [simp]:
  "ancestor_loop c None parts = Some parts"
  "ancestor_loop c (Some k) parts = ancestor_loop c (Option.bind (ct_parent k) (get_category c)) (parts @ [ct_name k])"
  by (subst ancestor_loop.simps, simp)+

lemma path_loop_simps [simp]:
  "path_loop nodes None parts = Some parts"
  "path_loop nodes (Some k) parts = (case nodes k of None \<Rightarrow> Some parts | Some (name, parent) \<Rightarrow> path_loop nodes parent (parts @ [name]))"
  by (subst path_loop.simps, simp)+

lemma ancestor_loop_path: "root_path c x names \<Longrightarrow> ancestor_loop c (Some x) parts = Some (parts @ rev names)"
proof (induction arbitrary: parts rule: root_path.induct)
  case (below x k y names)
  then show ?case
    using below.IH [of "parts @ [ct_name x]"] by simp
qed simp

lemma get_category_tree:
  assumes "category_forest cs" "y \<in> set cs" "ct_tree y \<in> trees"
  shows "tree_nodes trees cs (ct_id y) = Some (ct_name y, ct_parent y)"
proof -
  have "rget ct_id (filter (\<lambda>c. ct_tree c \<in> trees) cs) (ct_id y) = Some y"
    using assms by (intro rget_in_distinct) (auto simp: category_forest_def distinct_map_filter)
  then show ?thesis
    by (simp add: tree_nodes_def)
qed

lemma path_loop_path:
  assumes "root_path c x names" "category_forest (categories c)" "x \<in> set (categories c)" "ct_tree x \<in> trees"
  shows "path_loop (tree_nodes trees (categories c)) (Some (ct_id x)) parts = Some (parts @ rev names)"
  using assms
proof (induction arbitrary: parts rule: root_path.induct)
  case (root x)
  then show ?case
    by (simp add: get_category_tree)
next
  case (below x k y names)
  have y: "y \<in> set (categories c)" "ct_id y = k"
    using below.hyps(2) by (auto dest: rget_Some_in rget_Some_key)
  moreover obtain z where "z \<in> set (categories c)" "ct_id z = k" "ct_tree z = ct_tree x"
    using below.prems(1,2) below.hyps(1) by (auto simp: category_forest_def)
  ultimately have "ct_tree y = ct_tree x"
    using forest_id [OF below.prems(1), of y z] by simp
  then have "path_loop (tree_nodes trees (categories c)) (Some k) (parts @ [ct_name x]) = Some ((parts @ [ct_name x]) @ rev names)"
    using below.IH [OF below.prems(1) y(1), of "parts @ [ct_name x]"] below.prems(3) y(2) by simp
  then show ?case
    using below by (simp add: get_category_tree)
qed

declare path_loop_simps [simp del] ancestor_loop_simps [simp del]

lemma paths_of_result:
  assumes "category_forest (categories c)" "set cs \<subseteq> set (categories c)" "ct_tree ` set cs \<subseteq> trees"
    and "\<And>x. x \<in> set cs \<Longrightarrow> root_path c x (names x)"
  shows "\<exists>ps. paths_of (tree_nodes trees (categories c)) cs paths = Some ps
     \<and> (\<forall>k. map_of ps k = (case rget ct_id cs k of Some x \<Rightarrow> Some (join '' > '' (names x)) | None \<Rightarrow> map_of paths k))"
  using assms(2-4)
proof (induction cs arbitrary: paths)
  case (Cons x cs)
  have loop: "path_loop (tree_nodes trees (categories c)) (Some (ct_id x)) [] = Some (rev (names x))"
    using path_loop_path [OF Cons.prems(3) assms(1), of x trees "[]"] Cons.prems by simp
  obtain ps where ps: "paths_of (tree_nodes trees (categories c)) cs (AList.update (ct_id x) (join '' > '' (names x)) paths) = Some ps"
    "\<And>k. map_of ps k = (case rget ct_id cs k of Some y \<Rightarrow> Some (join '' > '' (names y))
       | None \<Rightarrow> map_of (AList.update (ct_id x) (join '' > '' (names x)) paths) k)"
    using Cons.IH [of "AList.update (ct_id x) (join '' > '' (names x)) paths"] Cons.prems by auto
  have same: "y = x" if "rget ct_id cs (ct_id x) = Some y" for y
    using rget_Some_in [OF that] rget_Some_key [OF that] Cons.prems(1) forest_id [OF assms(1), of y x] by auto
  have "paths_of (tree_nodes trees (categories c)) (x # cs) paths = Some ps"
    using loop ps(1) by simp
  moreover have "map_of ps k = (case rget ct_id (x # cs) k of Some x \<Rightarrow> Some (join '' > '' (names x)) | None \<Rightarrow> map_of paths k)" for k
    using same by (cases "k = ct_id x"; cases "rget ct_id cs k") (auto simp: ps(2) update_conv)
  ultimately show ?case
    by blast
qed simp

lemma build_full_paths_result:
  assumes "category_forest (categories c)" "set cs \<subseteq> set (categories c)" "\<And>x. x \<in> set cs \<Longrightarrow> root_path c x (names x)"
  shows "\<exists>ps. build_full_paths cs c = Some ps \<and> (\<forall>x \<in> set cs. map_of ps (ct_id x) = Some (join '' > '' (names x)))"
proof -
  have "rget ct_id cs (ct_id x) = Some x" if x: "x \<in> set cs" for x
  proof -
    obtain y where y: "rget ct_id cs (ct_id x) = Some y"
      using x by (cases "rget ct_id cs (ct_id x)") (auto simp: rget_None_iff)
    have "y = x"
      using rget_Some_in [OF y] rget_Some_key [OF y] x assms(2) forest_id [OF assms(1), of y x] by blast
    with y show ?thesis
      by simp
  qed
  moreover obtain ps where "paths_of (tree_nodes (ct_tree ` set cs) (categories c)) cs [] = Some ps"
    "\<forall>k. map_of ps k = (case rget ct_id cs k of Some x \<Rightarrow> Some (join '' > '' (names x)) | None \<Rightarrow> map_of [] k)"
    using paths_of_result [OF assms(1,2) subset_refl assms(3), of "[]"] by blast
  ultimately show ?thesis
    by (cases "cs = []") (auto simp: build_full_paths_def)
qed

lemma get_full_path_single: "root_path c x names \<Longrightarrow> get_full_path None x c = Some (join '' > '' names)"
  using ancestor_loop_path [of c x names "[]"] by (simp add: get_full_path_def)

end
