(* ===== verification/Catalogue_Properties.thy ===== *)
theory Catalogue_Properties
  imports Catalogue_System Category_Paths
begin

text \<open>
  The properties of the catalogue: every table well-formed in every reachable state, questions marked as answered exactly when they
  are, secret questions shown to nobody else, wish lists as sets, wishes moved to the cart, and the paths of categories.
\<close>

section \<open>The life of the catalogue\<close>

text \<open>
  The steps: the operations of the views and services, the carts, an upload of an image and a change of categories in the admin
  site, and whatever else the shop does that leaves the keys of the products alone.
\<close>

inductive cat_step :: "(string \<Rightarrow> string) \<Rightarrow> cdb \<times> db \<Rightarrow> cdb \<times> db \<Rightarrow> bool" for slugify where
  create: "create_product slugify who inp now (c, d) = Inr (k, s') \<Longrightarrow> cat_step slugify (c, d) s'"
| update: "update_product slugify who partial k inp (c, d) = Inr (u, s') \<Longrightarrow> cat_step slugify (c, d) s'"
| destroy: "destroy_product who k (c, d) = Inr (u, s') \<Longrightarrow> cat_step slugify (c, d) s'"
| primary: "img \<in> set (images c) \<Longrightarrow> cat_step slugify (c, d) (set_primary_image img b c, d)"
| upload: "\<not> im_is_primary i \<Longrightarrow> im_id i \<notin> im_id ` set (images c) \<Longrightarrow> im_product i \<in> product_ids d \<Longrightarrow>
    cat_step slugify (c, d) (c\<lparr>images := images c @ [i]\<rparr>, d)"
| categories: "cat_step slugify (c, d) (c\<lparr>categories := cs\<rparr>, d)"
| review: "create_review who k rating comment now (c, d) = Inr (n, s') \<Longrightarrow> cat_step slugify (c, d) s'"
| wish: "wish_run u r (c, d) = Inr (a, s') \<Longrightarrow> cat_step slugify (c, d) s'"
| move: "move_to_cart u ks rm (c, d) = Inr (res, s') \<Longrightarrow> cat_step slugify (c, d) s'"
| ask: "create_question p who title content secret now (c, d) = Inr (k, s') \<Longrightarrow> cat_step slugify (c, d) s'"
| edit: "update_question p k who t x secret c = Inr (r, c') \<Longrightarrow> cat_step slugify (c, d) (c', d)"
| withdraw: "destroy_question p k who c = Inr (r, c') \<Longrightarrow> cat_step slugify (c, d) (c', d)"
| answer: "answer_question p k who content now c = Inr (r, c') \<Longrightarrow> cat_step slugify (c, d) (c', d)"
| reword: "update_answer p k who content c = Inr (r, c') \<Longrightarrow> cat_step slugify (c, d) (c', d)"
| retract: "delete_answer p k who c = Inr (r, c') \<Longrightarrow> cat_step slugify (c, d) (c', d)"
| mark: "mark_read_request u ids c = Inr (n, c') \<Longrightarrow> cat_step slugify (c, d) (c', d)"
| open_one: "retrieve_notification u k now c = Inr (n, c') \<Longrightarrow> cat_step slugify (c, d) (c', d)"
| announce: "cat_step slugify (c, d) (snd (notification_bulk_create us ntype title message now c), d)"
| clear: "cat_step slugify (c, d) (snd (clear_read u c), d)"
| delete: "delete_by_id u k c = Inr (title, c') \<Longrightarrow> cat_step slugify (c, d) (c', d)"
| cart: "cart_step d d' \<Longrightarrow> cat_step slugify (c, d) (c, d')"

lemmas cart_frames =
  add_op.keeps_frame [where x = "(_, _, _)", simplified] remove_op.keeps_frame [where x = "(_, _)", simplified]
  update_op.keeps_frame [where x = "(_, _, _)", simplified] bulk_op.keeps_frame [where x = "(_, _)", simplified]
  get_cart_op.keeps_frame [where x = "(_, _, _, _)", simplified] merge_op.keeps_frame [where x = "(_, _)", simplified]
  login_op.keeps_frame [where x = "(_, _)", simplified] deactivate_op.keeps_frame restore_op.keeps_frame

lemma cart_change_frame: "cart_change d d' \<Longrightarrow> cart_frame d d'"
  by (simp add: cart_change_def)

lemma cart_step_frame:
  assumes "cart_inv d" "cart_step d d'"
  shows "map p_id (products d') = map p_id (products d) \<and> next_id d \<le> next_id d'"
proof -
  have "cart_frame d d' \<or> map p_id (products d') = map p_id (products d) \<and> next_id d \<le> next_id d'"
    using assms(2) by cases (use assms(1) in \<open>blast intro: cart_frames cart_change_frame clear_cart_change update_item_prices_change cleanup_change\<close>)+
  then show ?thesis
    by (auto simp: cart_frame_def)
qed

lemma remove_by_name_ok: "wishes_ok c d \<Longrightarrow> wishes_ok (remove_by_name u names (c, d')) d" "wish_frame c (remove_by_name u names (c, d'))"
  by (simp_all add: remove_by_name_def fold_remove_ok fold_remove_frame)

lemma move_to_cart_inv:
  assumes inv: "catalogue_inv (c, d)" and run: "move_to_cart u ks rm (c, d) = Inr (res, s')"
  shows "catalogue_inv s'"
proof -
  have some: "moved_products u ks (c, d) \<noteq> []"
    using run by (auto simp: move_to_cart_def moved_products_def split: if_splits list.splits)
  obtain res' c' d' where run': "move_to_cart u ks rm (c, d) = Inr (res', c', d')" and change: "cart_change d d'"
    and c': "c' = (if rm \<and> mv_added res' \<noteq> [] then remove_by_name u (mv_added res') (c, d') else c)"
    using move_to_cart_effect [OF catalogue_invD(1) [OF inv] some, of rm] by (elim exE conjE) (rule that)
  have s': "s' = (c', d')"
    using run run' by simp
  have inv': "catalogue_inv (c, d')"
    using change by (intro catalogue_inv_shop [OF inv]) (auto simp: cart_change_def cart_frame_def)
  have "catalogue_inv (remove_by_name u names (c, d'), d')" for names
    by (rule catalogue_inv_wishes [OF inv' remove_by_name_ok(2) remove_by_name_ok(1) [OF catalogue_invD(3) [OF inv']]])
  with inv' show ?thesis
    by (simp add: s' c')
qed

lemma wish_run_inv:
  assumes inv: "catalogue_inv (c, d)" and run: "wish_run u r (c, d) = Inr (a, s')"
  shows "catalogue_inv s'"
proof -
  obtain c' d' where s': "s' = (c', d')"
    by (cases s')
  from wish_run_effect [OF run [unfolded s']] catalogue_invD(3) [OF inv] show ?thesis
    by (auto simp: s' intro: catalogue_inv_wishes [OF inv])
qed

lemma create_question_inv:
  assumes inv: "catalogue_inv (c, d)" and run: "create_question p who title content secret now (c, d) = Inr (k, s')"
  shows "catalogue_inv s'"
proof -
  obtain c' d' where s': "s' = (c', d')"
    by (cases s')
  note q = create_question_change [OF run [unfolded s']]
  note i = catalogue_invD [OF inv]
  have "p \<in> product_ids d"
    using q(4) by (auto dest: get_product_in)
  then show ?thesis
    using i q(2,3,5,6) unfolding s' q(1)
    by (intro catalogue_invI) (simp_all add: qna_frame_def shelf_ok_def wishes_ok_def images_ok_def reviews_ok_def)
qed

lemma change_categories_inv: "catalogue_inv (c, d) \<Longrightarrow> catalogue_inv (c\<lparr>categories := cs\<rparr>, d)"
  by (simp add: catalogue_inv_def shelf_ok_def wishes_ok_def images_ok_def reviews_ok_def questions_ok_def inbox_ok_def asked_products_def)

lemmas qna_requests =
  update_question_change destroy_question_change answer_question_change update_answer_change delete_answer_change
  delete_by_id_change mark_op.change [where x = "(_, _)", simplified] read_op.change [where x = "(_, _, _)", simplified]

lemmas qna_changes = qna_requests clear_read_change bulk_create_change

lemma cat_step_inv:
  assumes "catalogue_inv s" "cat_step slugify s s'"
  shows "catalogue_inv s'"
  using assms(2,1)
proof cases
  case (create who inp now c d k)
  then show ?thesis
    using assms(1) create_product_inv [of c d slugify who inp now k "fst s'" "snd s'"] by simp
next
  case (update who partial k inp c d u)
  then show ?thesis
    using assms(1) update_product_inv [of c d slugify who partial k inp u "fst s'" "snd s'"] by simp
next
  case (destroy who k c d u)
  then show ?thesis
    using assms(1) destroy_product_inv [of c d who k u "fst s'" "snd s'"] by simp
next
  case (review who k rating comment now c d n)
  then show ?thesis
    using assms(1) create_review_inv [of c d who k rating comment now n "fst s'" "snd s'"] by simp
next
  case (cart d d' c)
  then show ?thesis
    using assms(1) cart_step_inv cart_step_frame catalogue_invD(1) catalogue_inv_shop by metis
qed (use assms(1) in \<open>blast intro: set_primary_image_inv upload_inv change_categories_inv wish_run_inv move_to_cart_inv create_question_inv
    catalogue_inv_qna qna_changes\<close>)+

definition empty_cdb :: cdb where
  "empty_cdb = \<lparr>categories = [], entries = [], images = [], reviews = [], wishes = [], questions = [], answers = [], inbox = [], cat_next = 1\<rparr>"

definition no_products :: "cdb \<times> db \<Rightarrow> bool" where
  "no_products = (\<lambda>(c, d). no_carts d \<and> products d = [] \<and> entries c = [] \<and> images c = [] \<and> reviews c = [] \<and> wishes c = [] \<and> questions c = []
     \<and> answers c = [] \<and> inbox c = [])"

lemma no_products_inv: "no_products s \<Longrightarrow> catalogue_inv s"
  by (auto simp: no_products_def catalogue_inv_def shelf_ok_def wishes_ok_def images_ok_def reviews_ok_def questions_ok_def inbox_ok_def
      asked_products_def intro: no_carts_inv)

interpretation catalogue: transition_system no_products "cat_step slugify" catalogue_inv
  by unfold_locales (blast intro: no_products_inv cat_step_inv)+

section \<open>The catalogue is well-formed\<close>

text \<open>C35: in every reachable state every product has exactly one entry and every entry its product, no two products share a slug or a
  sku, a product has at most one primary image, a user has at most one review of a product, with a rating from one to five, no wish is
  stored twice, and images, reviews, wishes and questions belong to existing products.\<close>

theorem catalogue_well_formed:
  assumes reach: "catalogue.reachable slugify (c, d)"
  shows "map en_id (entries c) = map p_id (products d) \<and> keys_distinct p_id (products d)
    \<and> (\<forall>e \<in> set (entries c). \<forall>e' \<in> set (entries c). en_slug e = en_slug e' \<or> en_sku e = en_sku e' \<longrightarrow> e = e')
    \<and> (\<forall>i \<in> set (images c). \<forall>j \<in> set (images c). im_product i = im_product j \<and> im_is_primary i \<and> im_is_primary j \<longrightarrow> i = j)
    \<and> (\<forall>r \<in> set (reviews c). \<forall>r' \<in> set (reviews c). rv_product r = rv_product r' \<and> rv_user r = rv_user r' \<longrightarrow> r = r')
    \<and> (\<forall>r \<in> set (reviews c). 1 \<le> rv_rating r \<and> rv_rating r \<le> 5) \<and> distinct (wishes c)
    \<and> im_product ` set (images c) \<union> rv_product ` set (reviews c) \<union> snd ` set (wishes c) \<union> qu_product ` set (questions c) \<subseteq> product_ids d"
proof -
  note i = catalogue_invD [OF catalogue.reachable_inv [OF reach]]
  have A: "map en_id (entries c) = map p_id (products d)" "keys_distinct p_id (products d)"
    using i(1,2) by (simp_all add: shelf_ok_def cart_invD)
  have "inj_on en_slug (set (entries c))" "inj_on en_sku (set (entries c))"
    using i(2) by (simp_all add: shelf_ok_def distinct_map)
  then have B: "\<forall>e \<in> set (entries c). \<forall>e' \<in> set (entries c). en_slug e = en_slug e' \<or> en_sku e = en_sku e' \<longrightarrow> e = e'"
    by (blast dest: inj_onD)
  have keys: "keys_distinct im_id (images c)" and "distinct (map im_product (filter im_is_primary (images c)))"
    using i(4) by (simp_all add: images_ok_def)
  note primary = this(2) [unfolded distinct_on_filter [OF keys]]
  have "inj_on im_id (set (images c))"
    using keys by (simp add: distinct_map)
  then have C: "\<forall>i \<in> set (images c). \<forall>j \<in> set (images c). im_product i = im_product j \<and> im_is_primary i \<and> im_is_primary j \<longrightarrow> i = j"
    using primary by (blast dest: inj_onD)
  have "inj_on review_slot (set (reviews c))"
    using i(5) by (simp add: reviews_ok_def distinct_map)
  then have D: "\<forall>r \<in> set (reviews c). \<forall>r' \<in> set (reviews c). rv_product r = rv_product r' \<and> rv_user r = rv_user r' \<longrightarrow> r = r'"
    unfolding inj_on_def review_slot_def by simp
  have E: "\<forall>r \<in> set (reviews c). 1 \<le> rv_rating r \<and> rv_rating r \<le> 5" "distinct (wishes c)"
    using i(3,5) by (simp_all add: reviews_ok_def wishes_ok_def)
  have "im_product ` set (images c) \<union> rv_product ` set (reviews c) \<union> snd ` set (wishes c) \<union> qu_product ` set (questions c) \<subseteq> product_ids d"
    using i(3,4,5,8) unfolding images_ok_def reviews_ok_def wishes_ok_def asked_products_def by blast
  with A B C D E show ?thesis
    by (simp only: simp_thms)
qed

text \<open>A small catalogue: two products of one seller, two pictures of the first, a review, a wish, and a question with its answer.\<close>

definition afterwards :: "cat_error + 'a \<times> cdb \<times> db \<Rightarrow> cdb \<times> db \<Rightarrow> cdb \<times> db" where
  "afterwards r s = (case r of Inl e \<Rightarrow> s | Inr (x, s') \<Rightarrow> s')"

lemma after_reachable:
  assumes "catalogue.reachable slugify s" "\<And>x s'. r = Inr (x, s') \<Longrightarrow> cat_step slugify s s'"
  shows "catalogue.reachable slugify (afterwards r s)"
proof (cases r)
  case (Inr y)
  then obtain x s' where y: "y = (x, s')" "cat_step slugify s s'"
    using assms(2) by (cases y) blast
  then show ?thesis
    using Inr catalogue.reachable.step [OF assms(1)] by (simp add: afterwards_def)
qed (use assms(1) in \<open>simp add: afterwards_def\<close>)

definition demo_seller :: requester where
  "demo_seller = Some \<lparr>mb_id = 5, mb_is_staff = False, mb_is_superuser = False, mb_is_seller = True\<rparr>"

definition demo_buyer :: requester where
  "demo_buyer = Some \<lparr>mb_id = 7, mb_is_staff = False, mb_is_superuser = False, mb_is_seller = False\<rparr>"

definition demo_input :: "string \<Rightarrow> int \<Rightarrow> product_input" where
  "demo_input sku stock = \<lparr>pi_name = Some ''pen'', pi_slug = None, pi_category = Some 2, pi_description = Some ''blue'', pi_price = Some 1000,
     pi_compare_price = None, pi_stock = Some stock, pi_is_available = None, pi_sku = Some sku, pi_tags = Some ''a, b,a'', pi_is_active = None\<rparr>"

definition demo_category :: category where
  "demo_category = \<lparr>ct_id = 2, ct_name = ''office'', ct_slug = ''office'', ct_parent = None, ct_is_active = True, ct_tree = 1\<rparr>"

definition demo_image :: "pk \<Rightarrow> image" where
  "demo_image k = \<lparr>im_id = k, im_product = 60, im_url = ''u'', im_is_primary = False, im_order = 0, im_created_at = 0\<rparr>"

definition demo_shop :: "cdb \<times> db" where
  "demo_shop = (let s = (empty_cdb\<lparr>categories := [demo_category]\<rparr>, empty_db\<lparr>next_id := 60\<rparr>);
     s = afterwards (create_product id demo_seller (demo_input ''P1'' 3) 10 s) s
   in afterwards (create_product id demo_seller (demo_input ''P2'' 0) 11 s) s)"

definition demo_pictures :: "cdb \<times> db" where
  "demo_pictures = (case demo_shop of (c, d) \<Rightarrow> (c\<lparr>images := [demo_image 1, demo_image 2]\<rparr>, d))"

definition demo_catalogue :: "cdb \<times> db" where
  "demo_catalogue = (let s = (set_primary_image (demo_image 1) True (fst demo_pictures), snd demo_pictures);
     s = afterwards (create_review demo_buyer 60 4 ''good'' 20 s) s;
     s = afterwards (wish_run 7 (AddWish 60) s) s;
     s = afterwards (wish_run 7 (AddWish 61) s) s
   in afterwards (create_question 60 demo_buyer ''ink?'' ''Is it blue?'' True 21 s) s)"

definition demo_answered :: "cdb \<times> db" where
  "demo_answered = (case demo_catalogue of (c, d) \<Rightarrow>
     (case answer_question 60 2 demo_seller ''Yes'' 22 c of Inl e \<Rightarrow> (c, d) | Inr (k, c') \<Rightarrow> (c', d)))"

lemma demo_shop_reachable: "catalogue.reachable id demo_shop"
proof -
  have "catalogue.reachable id (empty_cdb\<lparr>categories := [demo_category]\<rparr>, empty_db\<lparr>next_id := 60\<rparr>)"
    by (rule catalogue.reachable.start) (simp add: no_products_def no_carts_def empty_cdb_def empty_db_def)
  then show ?thesis
    unfolding demo_shop_def Let_def
    by (intro after_reachable) (metis cat_step.create surj_pair)+
qed

lemma demo_pictures_reachable: "catalogue.reachable id demo_pictures"
proof -
  obtain c d where s: "demo_shop = (c, d)"
    by (cases demo_shop)
  have "images (fst demo_shop) = []" "60 \<in> product_ids (snd demo_shop)"
    by code_simp+
  then have c: "images c = []" "60 \<in> product_ids d"
    by (simp_all add: s)
  have "cat_step id (c, d) (c\<lparr>images := images c @ [demo_image 1]\<rparr>, d)" (is "cat_step id _ (?c, d)")
    using c by (intro cat_step.upload) (simp_all add: demo_image_def)
  moreover have "cat_step id (?c, d) (?c\<lparr>images := images ?c @ [demo_image 2]\<rparr>, d)"
    using c by (intro cat_step.upload) (simp_all add: demo_image_def)
  ultimately have "catalogue.reachable id (?c\<lparr>images := images ?c @ [demo_image 2]\<rparr>, d)"
    using demo_shop_reachable catalogue.reachable.step unfolding s by metis
  then show ?thesis
    by (simp add: demo_pictures_def s c)
qed

lemma demo_catalogue_reachable: "catalogue.reachable id demo_catalogue"
proof -
  have "demo_image 1 \<in> set (images (fst demo_pictures))"
    by (simp add: demo_pictures_def split: prod.split)
  then have "catalogue.reachable id (set_primary_image (demo_image 1) True (fst demo_pictures), snd demo_pictures)"
    using catalogue.reachable.step [OF _ cat_step.primary [of "demo_image 1" "fst demo_pictures" id "snd demo_pictures" True]] demo_pictures_reachable
    by simp
  then show ?thesis
    unfolding demo_catalogue_def Let_def
    by (intro after_reachable) (metis cat_step.review cat_step.wish cat_step.ask surj_pair)+
qed

lemma demo_answered_reachable: "catalogue.reachable id demo_answered"
proof (cases demo_catalogue)
  case (Pair c d)
  show ?thesis
  proof (cases "answer_question 60 2 demo_seller ''Yes'' 22 c")
    case (Inr x)
    obtain k c' where x: "x = (k, c')"
      by fastforce
    have "catalogue.reachable id (c', d)"
      by (rule catalogue.reachable.step [OF demo_catalogue_reachable [unfolded Pair] cat_step.answer [OF Inr [unfolded x]]])
    then show ?thesis
      by (simp add: demo_answered_def Pair Inr x)
  qed (use demo_catalogue_reachable [unfolded Pair] in \<open>simp add: demo_answered_def Pair\<close>)
qed

theorem catalogue_well_formed_witness:
  "map (\<lambda>e. (en_id e, en_slug e, en_sku e, en_tags e)) (entries (fst demo_answered)) = [(60, ''pen'', ''P1'', ''a,b''), (61, ''pen-1'', ''P2'', ''a,b'')]
    \<and> map (\<lambda>i. (im_id i, im_is_primary i)) (images (fst demo_answered)) = [(1, True), (2, False)]
    \<and> wishes (fst demo_answered) = [(7, 60), (7, 61)] \<and> keys_distinct p_id (products (snd demo_answered))"
proof -
  have "map (\<lambda>e. (en_id e, en_slug e, en_sku e, en_tags e)) (entries (fst demo_answered)) = [(60, ''pen'', ''P1'', ''a,b''), (61, ''pen-1'', ''P2'', ''a,b'')]"
    "map (\<lambda>i. (im_id i, im_is_primary i)) (images (fst demo_answered)) = [(1, True), (2, False)]" "wishes (fst demo_answered) = [(7, 60), (7, 61)]"
    by code_simp+
  then show ?thesis
    using catalogue_well_formed [of id "fst demo_answered" "snd demo_answered"] demo_answered_reachable by simp
qed

section \<open>Only the seller changes a product\<close>

lemma qna_change_entries: "qna_change c c' \<Longrightarrow> entries c' = entries c"
  by (simp add: qna_change_def qna_frame_def)

lemma wish_frame_entries: "wish_frame c c' \<Longrightarrow> entries c' = entries c"
  unfolding wish_frame_def by (metis cdb.select_convs(2) cdb.surjective cdb.update_convs(5))

lemma move_to_cart_entries:
  assumes "move_to_cart u ks rm (c, d) = Inr (res, c', d')"
  shows "entries c' = entries c"
proof -
  have "entries (remove_by_name u names (c, d')) = entries c" for names
    by (rule wish_frame_entries) (simp add: remove_by_name_def fold_remove_frame)
  then show ?thesis
    using assms by (auto simp: move_to_cart_def split: if_splits list.splits sum.splits)
qed

lemma set_primary_image_entries: "entries (set_primary_image img b c) = entries c"
  by (simp add: set_primary_image_eq)

lemma create_review_entries: "create_review who k rating comment now (c, d) = Inr (n, c', d') \<Longrightarrow> entries c' = entries c"
  by (erule create_review_Inr) simp

lemmas entries_kept = qna_requests [THEN qna_change_entries] move_to_cart_entries create_review_entries

lemma rget_filter_other: "j \<noteq> k \<Longrightarrow> rget key (filter (\<lambda>x. key x \<noteq> k) xs) j = rget key xs j"
  by (induction xs) auto

lemma entry_changes:
  assumes "cat_step slugify (c, d) (c', d')" "entries c' \<noteq> entries c"
  shows "(\<exists>who inp now k. create_product slugify who inp now (c, d) = Inr (k, c', d'))
    \<or> (\<exists>who partial k inp. update_product slugify who partial k inp (c, d) = Inr ((), c', d'))
    \<or> (\<exists>who k. destroy_product who k (c, d) = Inr ((), c', d'))"
  using assms(1)
proof cases
  case (wish u r a)
  then show ?thesis
    using assms(2) wish_frame_entries wish_run_effect [OF wish(1)] by blast
next
  case (ask p who title content secret now k)
  then show ?thesis
    using assms(2) create_question_change(2) by (auto simp: qna_frame_def)
qed (use assms(2) in \<open>auto simp: set_primary_image_entries qna_change_entries [OF clear_read_change] qna_change_entries [OF bulk_create_change] dest: entries_kept\<close>)

text \<open>C36: the entry of a product in the catalogue changes or disappears only by a request of the seller who owns it, for exactly
  this product, which is active, and the entries of all other products stay.\<close>

theorem only_seller_changes_product:
  assumes reach: "catalogue.reachable slugify (c, d)" and step: "cat_step slugify (c, d) (c', d')"
    and e: "get_entry c k = Some e" and changed: "get_entry c' k \<noteq> Some e"
  shows "(\<exists>m p. mb_is_seller m \<and> en_seller e = Some (mb_id m) \<and> get_product d k = Some p \<and> p_is_active p
      \<and> ((\<exists>partial inp. update_product slugify (Some m) partial k inp (c, d) = Inr ((), c', d')) \<or> destroy_product (Some m) k (c, d) = Inr ((), c', d')))
    \<and> (\<forall>j. j \<noteq> k \<longrightarrow> get_entry c' j = get_entry c j \<and> get_product d' j = get_product d j)"
proof -
  note i = catalogue_invD [OF catalogue.reachable_inv [OF reach]]
  have same: "e' = e" if "e' \<in> set (entries c)" "en_id e' = k" for e'
    using rget_in_distinct [OF shelf_keys [OF i(1,2)] that(1)] e that(2) by simp
  have "entries c' \<noteq> entries c"
    using e changed by auto
  from entry_changes [OF step this] show ?thesis
  proof (elim disjE exE)
    fix who inp now n
    assume "create_product slugify who inp now (c, d) = Inr (n, c', d')"
    then have False
      by (rule create_product_Inr) (use e changed in simp)
    then show ?thesis ..
  next
    fix who partial n inp
    assume run: "update_product slugify who partial n inp (c, d) = Inr ((), c', d')"
    show ?thesis
    proof (rule update_product_Inr [OF run])
      fix m p e1 p' e'
      assume u: "who = Some m" "mb_is_seller m" "find_listing n (c, d) = Some (p, e1)" "en_seller e1 = Some (mb_id m)"
        "c' = c\<lparr>entries := rupd en_id (entries c) n (\<lambda>_. e')\<rparr>" "d' = upd_product n (\<lambda>_. p') d" "p_id p' = n" "en_id e' = n"
      have n: "n = k"
        using e changed rget_rupd_const [of en_id e' n "entries c" k] u(8) by (auto simp: u(5) split: if_splits)
      note f = find_listing_Some [OF u(3)]
      have "get_product d k = Some p" "e1 = e"
        using f same n by auto
      moreover have "get_entry c' j = get_entry c j \<and> get_product d' j = get_product d j" if "j \<noteq> k" for j
        using that n by (simp add: u(5,6) upd_product_def rget_rupd_const u(7,8))
      ultimately show ?thesis
        using u(1,2,4) f(5) run n by blast
    qed
  next
    fix who n
    assume run: "destroy_product who n (c, d) = Inr ((), c', d')"
    show ?thesis
    proof (rule destroy_product_Inr [OF run])
      fix m p e1
      assume u: "who = Some m" "mb_is_seller m" "find_listing n (c, d) = Some (p, e1)" "en_seller e1 = Some (mb_id m)"
        and d': "products d' = filter (\<lambda>p. p_id p \<noteq> n) (products d)"
        and c': "c' = c\<lparr>entries := filter (\<lambda>e. en_id e \<noteq> n) (entries c), images := filter (\<lambda>i. im_product i \<noteq> n) (images c),
          reviews := filter (\<lambda>r. rv_product r \<noteq> n) (reviews c), wishes := filter (\<lambda>(u, x). x \<noteq> n) (wishes c)\<rparr>"
      have n: "n = k"
        using e changed rget_filter_other [of k n en_id "entries c"] by (auto simp: c')
      note f = find_listing_Some [OF u(3)]
      have "get_product d k = Some p" "e1 = e"
        using f same n by auto
      moreover have "get_entry c' j = get_entry c j \<and> get_product d' j = get_product d j" if "j \<noteq> k" for j
        using that n by (simp add: c' d' rget_filter_other)
      ultimately show ?thesis
        using u(1,2,4) f(5) run n by blast
    qed
  qed
qed

definition dearer :: product_input where
  "dearer = (demo_input ''P1'' 3)\<lparr>pi_name := None, pi_price := Some 1500, pi_stock := None, pi_compare_price := Some (Some 2000)\<rparr>"

definition demo_raised :: "cdb \<times> db" where
  "demo_raised = afterwards (update_product id demo_seller True 60 dearer demo_shop) demo_shop"

theorem only_seller_changes_product_witness:
  "map_option en_seller (get_entry (fst demo_shop) 60) = Some (Some 5) \<and> map_option en_compare_price (get_entry (fst demo_raised) 60) = Some (Some 2000)
    \<and> get_entry (fst demo_raised) 61 = get_entry (fst demo_shop) 61 \<and> get_product (snd demo_raised) 61 = get_product (snd demo_shop) 61"
proof -
  have old: "map_option (\<lambda>e. (en_seller e, en_compare_price e)) (get_entry (fst demo_shop) 60) = Some (Some 5, None)"
    and new: "map_option en_compare_price (get_entry (fst demo_raised) 60) = Some (Some 2000)"
    and ok: "map_option fst (case update_product id demo_seller True 60 dearer demo_shop of Inl e \<Rightarrow> None | Inr x \<Rightarrow> Some x) = Some ()"
    by code_simp+
  obtain e where e: "get_entry (fst demo_shop) 60 = Some e" "en_seller e = Some 5" "en_compare_price e = None"
    using old by auto
  have step: "cat_step id (fst demo_shop, snd demo_shop) (fst demo_raised, snd demo_raised)"
    using ok cat_step.update [of id demo_seller True 60 dearer "fst demo_shop" "snd demo_shop"]
    by (auto simp: demo_raised_def afterwards_def split: sum.splits)
  have "get_entry (fst demo_raised) 60 \<noteq> Some e"
    using new e(3) by auto
  from only_seller_changes_product [OF _ step e(1) this] have "get_entry (fst demo_raised) 61 = get_entry (fst demo_shop) 61"
    "get_product (snd demo_raised) 61 = get_product (snd demo_shop) 61"
    using demo_shop_reachable by simp_all
  then show ?thesis
    using new e by simp
qed

section \<open>Questions\<close>

lemma one_row: "keys_distinct key rs \<Longrightarrow> length (filter (\<lambda>r. key r = k) rs) = (if k \<in> key ` set rs then 1 else 0)"
  by (induction rs) (auto simp: filter_empty_conv)

text \<open>C37: in every reachable state a question is marked as answered exactly when it has an answer, which is its only one, and then it can
  be neither changed nor withdrawn nor answered again, by anybody.\<close>

theorem answered_questions_consistent:
  assumes reach: "catalogue.reachable slugify (c, d)" and q: "q \<in> set (questions c)"
  shows "(qu_is_answered q \<longleftrightarrow> answer_of (qu_id q) c \<noteq> None)
    \<and> length (filter (\<lambda>a. an_question a = qu_id q) (answers c)) = (if qu_is_answered q then 1 else 0)
    \<and> (qu_is_answered q \<longrightarrow> (\<forall>p who t x secret y. update_question p (qu_id q) who t x secret c \<noteq> Inr y)
        \<and> (\<forall>p who y. destroy_question p (qu_id q) who c \<noteq> Inr y)
        \<and> (\<forall>p who content now y. answer_question p (qu_id q) who content now c \<noteq> Inr y))"
proof -
  note ok = questions_okD [OF catalogue_invD(6) [OF catalogue.reachable_inv [OF reach]]]
  have flag: "qu_is_answered q \<longleftrightarrow> answer_of (qu_id q) c \<noteq> None"
    using ok(7) [OF q] by (simp add: answer_of_None)
  have one: "length (filter (\<lambda>a. an_question a = qu_id q) (answers c)) = (if qu_is_answered q then 1 else 0)"
    using ok(7) [OF q] by (simp add: one_row [OF ok(3)])
  have found: "find_question p (qu_id q) who c = Inr r \<Longrightarrow> r = q" for p who r
    using find_question_Inr(1,2) [of p "qu_id q" who c r] ok(1) q unfolding distinct_map by (blast dest: inj_onD)
  have frozen: "update_question p (qu_id q) who t x secret c \<noteq> Inr y" "destroy_question p (qu_id q) who c \<noteq> Inr z"
      "answer_question p (qu_id q) who content now c \<noteq> Inr w"
    if "qu_is_answered q" for p who t x secret y z content now w
    using that flag found
    by (auto simp: update_question_def destroy_question_def answer_question_def split: sum.splits option.splits if_splits)
  show ?thesis
    using flag one frozen by simp
qed

theorem answered_questions_consistent_witness:
  "map (\<lambda>q. (qu_id q, qu_is_answered q)) (questions (fst demo_catalogue)) = [(2, False)]
    \<and> map (\<lambda>q. (qu_id q, qu_is_answered q)) (questions (fst demo_answered)) = [(2, True)]
    \<and> length (filter (\<lambda>a. an_question a = 2) (answers (fst demo_answered))) = 1
    \<and> answer_question 60 2 demo_seller ''No'' 30 (fst demo_answered) = Inl (Invalid ''ANSWER_EXISTS'')"
proof -
  have before: "map (\<lambda>q. (qu_id q, qu_is_answered q)) (questions (fst demo_catalogue)) = [(2, False)]"
    and again: "answer_question 60 2 demo_seller ''No'' 30 (fst demo_answered) = Inl (Invalid ''ANSWER_EXISTS'')"
    and "map (\<lambda>q. (qu_id q, qu_is_answered q)) (questions (fst demo_answered)) = [(2, True)]"
    by code_simp+
  then obtain q where q: "questions (fst demo_answered) = [q]" "qu_id q = 2" "qu_is_answered q"
    by auto
  have "catalogue.reachable id (fst demo_answered, snd demo_answered)" "q \<in> set (questions (fst demo_answered))"
    using demo_answered_reachable q(1) by simp_all
  from answered_questions_consistent [OF this] show ?thesis
    using before again q by simp
qed

section \<open>Wish lists\<close>

text \<open>C38: a wish list behaves as a set of products for each user: toggling, adding, removing, adding many and clearing refuse, answer and
  change exactly as on sets, with the sizes of the sets as counts, and touch nothing else.\<close>

theorem wishlist_refines_sets:
  assumes reach: "catalogue.reachable slugify (c, d)"
  shows "wish_spec (get_product d) u r (wish_sets c)
    = (case wish_run u r (c, d) of Inl e \<Rightarrow> None | Inr (a, c', d') \<Rightarrow> if d' = d \<and> c' = c\<lparr>wishes := wishes c'\<rparr> then Some (a, wish_sets c') else None)"
proof -
  note i = catalogue_invD [OF catalogue.reachable_inv [OF reach]]
  have refines: "wish_spec (get_product d) u r (wish_sets c)
      = (case wish_run u r (c, d) of Inl e \<Rightarrow> None | Inr (a, c', d') \<Rightarrow> Some (a, wish_sets c'))"
    by (rule wish_run_refines) (use i(1,3) in \<open>simp_all add: wishes_ok_def cart_invD\<close>)
  show ?thesis
  proof (cases "wish_run u r (c, d)")
    case (Inr x)
    obtain a c' d' where x: "x = (a, c', d')"
      by (cases x) auto
    from wish_run_effect [OF Inr [unfolded x]] have only: "d' = d \<and> c' = c\<lparr>wishes := wishes c'\<rparr>"
      unfolding wish_frame_def by blast
    show ?thesis
      by (simp only: refines Inr x sum.case prod.case if_P [OF only])
  qed (simp add: refines)
qed

theorem wishlist_refines_sets_witness:
  "map_option fst (wish_spec (get_product (snd demo_catalogue)) 7 (Toggle 60) (wish_sets (fst demo_catalogue))) = Some (Toggled False 0)
    \<and> map_option fst (wish_spec (get_product (snd demo_catalogue)) 8 (BulkAdd [61, 60, 61]) (wish_sets (fst demo_catalogue))) = Some (BulkAdded 2 0 2)"
proof -
  have run: "(case wish_run 7 (Toggle 60) demo_catalogue of Inl e \<Rightarrow> None | Inr (a, s) \<Rightarrow> Some a) = Some (Toggled False 0)"
    "(case wish_run 8 (BulkAdd [61, 60, 61]) demo_catalogue of Inl e \<Rightarrow> None | Inr (a, s) \<Rightarrow> Some a) = Some (BulkAdded 2 0 2)"
    by code_simp+
  have reach: "catalogue.reachable id (fst demo_catalogue, snd demo_catalogue)"
    by (simp add: demo_catalogue_reachable)
  have spec: "map_option fst (wish_spec (get_product (snd demo_catalogue)) u r (wish_sets (fst demo_catalogue))) = Some a"
    if "(case wish_run u r demo_catalogue of Inl e \<Rightarrow> None | Inr (a, s) \<Rightarrow> Some a) = Some a" for u r a
    using that wish_run_effect [of u r "fst demo_catalogue" "snd demo_catalogue"] unfolding wishlist_refines_sets [OF reach]
    by (auto simp: wish_frame_def split: sum.splits)
  show ?thesis
    by (intro conjI spec run)
qed

text \<open>C39: moving wishes to the cart always succeeds when one of the products is on the wish list: every wished product with stock ends up
  in the active cart, the lines that were there stay, each new line has one piece of a wished product with stock, the carts stay
  well-formed and nothing else of the shop changes; the wishes of other users stay, and with \<^verbatim>\<open>remove\<close> what was added leaves the list.\<close>

theorem wishes_moved_to_cart:
  assumes reach: "catalogue.reachable slugify (c, d)" and some: "moved_products u ks (c, d) \<noteq> []"
  shows "\<exists>res cart new c' d'. move_to_cart u ks rm (c, d) = Inr (res, c', d') \<and> cart_inv d' \<and> cart_frame d d'
    \<and> active_cart (Member u) d' = Some cart \<and> cart_items d' = cart_items d @ new
    \<and> (\<forall>(p, e) \<in> set (moved_products u ks (c, d)). 0 < p_stock p \<longrightarrow> item_of_product d' (c_id cart) (p_id p) \<noteq> None)
    \<and> (\<forall>i \<in> set new. ci_cart i = c_id cart \<and> ci_quantity i = 1
        \<and> (\<exists>(p, e) \<in> set (moved_products u ks (c, d)). ci_product i = p_id p \<and> 0 < p_stock p))
    \<and> (rm \<longrightarrow> ci_product ` set new \<inter> wished u c' = {}) \<and> (\<not> rm \<longrightarrow> c' = c)
    \<and> wished u c' \<subseteq> wished u c \<and> (\<forall>v. v \<noteq> u \<longrightarrow> wished v c' = wished v c)"
proof -
  note i = catalogue_invD [OF catalogue.reachable_inv [OF reach]]
  obtain res cart new c' d' where run: "move_to_cart u ks rm (c, d) = Inr (res, c', d')" and change: "cart_change d d'"
    and cart: "active_cart (Member u) d' = Some cart" "cart_items d' = cart_items d @ new"
    and lines: "\<forall>i \<in> set new. moved_line (c_id cart) (moved_products u ks (c, d)) (set (mv_added res)) i"
    and all: "\<forall>(p, e) \<in> set (moved_products u ks (c, d)). 0 < p_stock p \<longrightarrow> item_of_product d' (c_id cart) (p_id p) \<noteq> None"
    and len: "length (mv_added res) = length new"
    and c': "c' = (if rm \<and> mv_added res \<noteq> [] then remove_by_name u (mv_added res) (c, d') else c)"
    using move_to_cart_effect [OF i(1) some, of rm] by (elim exE conjE) (rule that)
  have products: "products d' = products d"
    using change by (simp add: cart_change_def cart_frame_def)
  have gone: "ci_product j \<notin> wished u c'" if rm "j \<in> set new" for j
  proof -
    note rm = that
    obtain p e where p: "(p, e) \<in> set (moved_products u ks (c, d))" "ci_product j = p_id p" "p_name p \<in> set (mv_added res)"
      using lines rm(2) by (auto simp: moved_line_def)
    then have "p \<in> set (products d')"
      using rget_Some_in by (auto simp: in_moved_products products)
    moreover have "mv_added res \<noteq> []"
      using p(3) by auto
    ultimately show ?thesis
      using rm(1) p(2,3) by (simp add: c' remove_by_name_wished)
  qed
  have new_lines: "\<forall>i \<in> set new. ci_cart i = c_id cart \<and> ci_quantity i = 1
      \<and> (\<exists>(p, e) \<in> set (moved_products u ks (c, d)). ci_product i = p_id p \<and> 0 < p_stock p)"
    using lines unfolding moved_line_def by fast
  have wishes: "wished u c' \<subseteq> wished u c" "\<forall>v. v \<noteq> u \<longrightarrow> wished v c' = wished v c" "\<not> rm \<longrightarrow> c' = c"
    by (simp_all add: c' remove_by_name_wished Diff_subset)
  show ?thesis
    using run change cart all new_lines gone wishes
    by (intro exI [of _ res] exI [of _ cart] exI [of _ new] exI [of _ c'] exI [of _ d']) (auto simp: cart_change_def)
qed

theorem wishes_moved_to_cart_witness:
  "map (\<lambda>(p, e). p_id p) (moved_products 7 [60, 61] demo_catalogue) = [61, 60]
    \<and> (\<exists>res cart c' d'. move_to_cart 7 [60, 61] True demo_catalogue = Inr (res, c', d') \<and> active_cart (Member 7) d' = Some cart \<and> cart_inv d')"
proof -
  have some: "map (\<lambda>(p, e). p_id p) (moved_products 7 [60, 61] demo_catalogue) = [61, 60]"
    by code_simp
  have "moved_products 7 [60, 61] (fst demo_catalogue, snd demo_catalogue) \<noteq> []"
    using some by auto
  from wishes_moved_to_cart [OF _ this, of id True] some show ?thesis
    using demo_catalogue_reachable by auto
qed

section \<open>Categories\<close>

text \<open>C40: when the parents of the categories form a forest, both computations of the paths of categories end and agree: the loop over the
  nodes of the trees, for a list of categories at once, and the walk along the rows of the parents give the names from the root down.\<close>

theorem category_paths_agree:
  assumes forest: "category_forest (categories c)" and cs: "set cs \<subseteq> set (categories c)"
  shows "\<exists>paths. build_full_paths cs c = Some paths
    \<and> (\<forall>x \<in> set cs. \<exists>names. root_path c x names \<and> map_of paths (ct_id x) = Some (join '' > '' names)
        \<and> get_full_path None x c = Some (join '' > '' names) \<and> get_full_path (Some paths) x c = Some (join '' > '' names))"
proof -
  have "\<forall>x \<in> set cs. \<exists>names. root_path c x names"
    using root_path_ex [OF forest] cs by blast
  then obtain names where names: "\<And>x. x \<in> set cs \<Longrightarrow> root_path c x (names x)"
    by (metis (full_types))
  obtain paths where paths: "build_full_paths cs c = Some paths" "\<forall>x \<in> set cs. map_of paths (ct_id x) = Some (join '' > '' (names x))"
    using build_full_paths_result [OF forest cs names] by blast
  have "root_path c x (names x) \<and> map_of paths (ct_id x) = Some (join '' > '' (names x))
      \<and> get_full_path None x c = Some (join '' > '' (names x)) \<and> get_full_path (Some paths) x c = Some (join '' > '' (names x))" if "x \<in> set cs" for x
    using names [OF that] paths(2) that get_full_path_single by (simp add: get_full_path_def)
  with paths(1) show ?thesis
    by blast
qed

definition demo_tree :: "category list" where
  "demo_tree = [\<lparr>ct_id = 2, ct_name = ''office'', ct_slug = ''office'', ct_parent = None, ct_is_active = True, ct_tree = 1\<rparr>,
     \<lparr>ct_id = 3, ct_name = ''pens'', ct_slug = ''pens'', ct_parent = Some 2, ct_is_active = True, ct_tree = 1\<rparr>,
     \<lparr>ct_id = 4, ct_name = ''blue'', ct_slug = ''blue'', ct_parent = Some 3, ct_is_active = True, ct_tree = 1\<rparr>]"

lemma demo_tree_forest: "category_forest demo_tree"
proof -
  have "parent_rel demo_tree \<subseteq> less_than"
    by (auto simp: parent_rel_def demo_tree_def)
  then have "acyclic (parent_rel demo_tree)"
    by (intro wf_acyclic wf_subset [OF wf_less_than])
  then show ?thesis
    by (auto simp: category_forest_def demo_tree_def)
qed

theorem category_paths_agree_witness:
  "build_full_paths (rev demo_tree) (empty_cdb\<lparr>categories := demo_tree\<rparr>)
     = Some [(4, ''office > pens > blue''), (3, ''office > pens''), (2, ''office'')]
   \<and> get_full_path None (demo_tree ! 2) (empty_cdb\<lparr>categories := demo_tree\<rparr>) = Some ''office > pens > blue''"
proof -
  have paths: "build_full_paths (rev demo_tree) (empty_cdb\<lparr>categories := demo_tree\<rparr>)
      = Some [(4, ''office > pens > blue''), (3, ''office > pens''), (2, ''office'')]"
    by code_simp
  have x: "demo_tree ! 2 \<in> set (rev demo_tree)" "ct_id (demo_tree ! 2) = 4"
    by (simp_all add: demo_tree_def)
  have "get_full_path None (demo_tree ! 2) (empty_cdb\<lparr>categories := demo_tree\<rparr>) = Some ''office > pens > blue''"
    using category_paths_agree [of "empty_cdb\<lparr>categories := demo_tree\<rparr>" "rev demo_tree"] x(1) by (auto simp: demo_tree_forest paths x(2) dest: bspec)
  with paths show ?thesis ..
qed

section \<open>What the code does besides\<close>

text \<open>The service passes names that are no columns, so that it never creates a notification.\<close>

lemma notification_create_fails: "notification_create u ntype title message related url now c = Inl TypeError"
  by (simp add: notification_create_def NOTIFICATION_FIELDS_def)

text \<open>A question whose author was deleted cannot be answered.\<close>

lemma orphan_question_unanswerable: "qu_user q = None \<Longrightarrow> create_answer q seller content now c = Inl (Raised IntegrityError)"
  by (simp add: create_answer_def Let_def)

text \<open>An answer given between the two statements of a deletion is left with a question that is marked as unanswered.\<close>

lemma deletion_not_atomic:
  "(let c = fst demo_answered; a = the (answer_of 2 c)
    in case answer_question 60 2 demo_seller ''No'' 30 (drop_answer a c) of
         Inl e \<Rightarrow> None
       | Inr (k, c') \<Rightarrow> let c2 = mark_unanswered 2 c' in Some (map qu_is_answered (questions c2), map an_content (answers c2)))
   = Some ([False], [''No''])"
  by code_simp

text \<open>A change of the price that was read before a reservation puts the reserved pieces back on the shelf.\<close>

lemma stale_save_undoes_reservation:
  "(case find_listing 60 demo_shop of None \<Rightarrow> None | Some row \<Rightarrow>
     (case save_product id dearer row (fst demo_shop, upd_product 60 (\<lambda>p. p\<lparr>p_stock := 1\<rparr>) (snd demo_shop)) of
       Inl e \<Rightarrow> None
     | Inr (u, c, d) \<Rightarrow> map_option p_stock (get_product d 60))) = Some 3"
  by code_simp

text \<open>A product that was set inactive is found by no request any more, not even one of its seller.\<close>

lemma inactive_never_found:
  assumes "keys_distinct p_id (products d)" "get_product d k = Some p" "\<not> p_is_active p"
  shows "find_listing k (c, d) = None"
proof (cases "find_listing k (c, d)")
  case (Some x)
  then show ?thesis
    using find_listing_Some [of k c d "fst x" "snd x"] assms by simp
qed

text \<open>Another product of the same name leaves the wish list with the one that was moved, although it is out of stock.\<close>

lemma move_forgets_namesake:
  "(case move_to_cart 7 [60] True demo_catalogue of Inl e \<Rightarrow> None | Inr (res, c, d) \<Rightarrow> Some (mv_added res, wishes c)) = Some ([''pen''], [])"
  by code_simp

text \<open>Raising the price of a product alone may leave a list price below it.\<close>

lemma raised_above_list_price:
  "(let s = afterwards (update_product id demo_seller True 60 (dearer\<lparr>pi_price := Some 3000, pi_compare_price := None\<rparr>) demo_raised) demo_raised
    in (map_option p_price (get_product (snd s) 60), map_option en_compare_price (get_entry (fst s) 60))) = (Some 3000, Some (Some 2000))"
  by code_simp

end
