(* ===== verification/Point_Queries.thy ===== *)
theory Point_Queries
  imports Points_Ledger Catalogue
begin

text \<open>
  What a user reads of the point history: \<^verbatim>\<open>src/shopping/services/point_query_service.py\<close>, with the dates of its parameters and the
  months of its summary.  Rows with the same time come in any order from the database; here they keep the order of the table.
\<close>

section \<open>Dates\<close>

text \<open>A date is the number of days since 1970-01-01; \<open>days_of\<close> and \<open>civil_of\<close> are the calendar of \<^verbatim>\<open>datetime\<close>, counted from March.\<close>

definition days_of :: "int \<Rightarrow> int \<Rightarrow> int \<Rightarrow> int" where
  "days_of y m d = (let y1 = (if m \<le> 2 then y - 1 else y); era = y1 div 400; yoe = y1 - era * 400;
     doy = (153 * (if m > 2 then m - 3 else m + 9) + 2) div 5 + d - 1
   in era * 146097 + yoe * 365 + yoe div 4 - yoe div 100 + doy - 719468)"

definition civil_of :: "int \<Rightarrow> int \<times> int \<times> int" where
  "civil_of n = (let z = n + 719468; era = z div 146097; doe = z - era * 146097;
     yoe = (doe - doe div 1460 + doe div 36524 - doe div 146096) div 365;
     doy = doe - (365 * yoe + yoe div 4 - yoe div 100); mp = (5 * doy + 2) div 153;
     m = (if mp < 10 then mp + 3 else mp - 9)
   in (yoe + era * 400 + (if m \<le> 2 then 1 else 0), m, doy - (153 * mp + 2) div 5 + 1))"

definition month_days :: "int \<Rightarrow> int \<Rightarrow> int" where
  "month_days y m = (if m = 2 then (if y mod 4 = 0 \<and> (y mod 100 \<noteq> 0 \<or> y mod 400 = 0) then 29 else 28)
     else if m \<in> {4, 6, 9, 11} then 30 else 31)"

definition digits_of :: "string \<Rightarrow> int option" where
  "digits_of s = (if s \<noteq> [] \<and> list_all (\<lambda>c. dec_val c \<noteq> None) s then map_option int (dec_digits 0 False s) else None)"

text \<open>\<^verbatim>\<open>DateParseError\<close> is a \<^verbatim>\<open>ValueError\<close> of its own, with the field in its message; the view catches it and no other \<^verbatim>\<open>ValueError\<close>.\<close>

datatype query_error =
    DateParseError string
  | PlainValueError

text \<open>\<^verbatim>\<open>strptime\<close> with \<^verbatim>\<open>%Y-%m-%d\<close>: four digits of the year, one or two of month and day, where a day may have a blank before its digit.\<close>

definition parse_date :: "string option \<Rightarrow> string \<Rightarrow> query_error + int option" where
  "parse_date given field_name = (case given of
     None \<Rightarrow> Inr None
   | Some s \<Rightarrow>
       if s = [] then Inr None
       else case split_at CHR ''-'' s of
         [ys, ms, ds] \<Rightarrow>
           let blank = (length ds = 2 \<and> take 1 ds = '' '')
           in (case (digits_of ys, digits_of ms, digits_of (if blank then drop 1 ds else ds)) of
             (Some y, Some m, Some d) \<Rightarrow>
               if length ys = 4 \<and> length ms \<le> 2 \<and> length ds \<le> 2 \<and> 1 \<le> y \<and> 1 \<le> m \<and> m \<le> 12 \<and> 1 \<le> d \<and> d \<le> month_days y m
               then Inr (Some (days_of y m d)) else Inl (DateParseError field_name)
           | _ \<Rightarrow> Inl (DateParseError field_name))
       | _ \<Rightarrow> Inl (DateParseError field_name))"

text \<open>The time zone of the shop is nine hours ahead.\<close>

definition start_of_day :: "int \<Rightarrow> timestamp" where
  "start_of_day date = date * 86400 - 9 * 3600"

definition end_of_day :: "int \<Rightarrow> timestamp" where
  "end_of_day date = start_of_day date + 86399"

text \<open>\<^verbatim>\<open>strftime("%Y-%m")\<close> of a time, which is in UTC, and the first moment of its month.\<close>

definition month_key :: "timestamp \<Rightarrow> string" where
  "month_key t = (case civil_of (t div 86400) of (y, m, d) \<Rightarrow> pad0 4 y @ ''-'' @ pad0 2 m)"

definition this_month_start :: "timestamp \<Rightarrow> timestamp" where
  "this_month_start now = (case civil_of (now div 86400) of (y, m, d) \<Rightarrow> days_of y m 1 * 86400)"

section \<open>Queries\<close>

fun type_value :: "point_type \<Rightarrow> string" where
  "type_value Earn = ''earn''"
| "type_value Use = ''use''"
| "type_value CancelRefund = ''cancel_refund''"
| "type_value CancelDeduct = ''cancel_deduct''"
| "type_value PaymentFailRefund = ''payment_fail_refund''"
| "type_value Expire = ''expire''"
| "type_value AdminAdd = ''admin_add''"
| "type_value AdminDeduct = ''admin_deduct''"
| "type_value Event = ''event''"

record history_filter =
  hf_type :: "string option"
  hf_start_date :: "int option"
  hf_end_date :: "int option"
  hf_page :: int
  hf_page_size :: int

text \<open>A page that is no number is a plain \<^verbatim>\<open>ValueError\<close> of \<^verbatim>\<open>int\<close>.\<close>

definition build_filter_from_request :: "(string \<Rightarrow> string option) \<Rightarrow> query_error + history_filter" where
  "build_filter_from_request get = (case parse_date (get ''start_date'') ''start_date'' of
     Inl e \<Rightarrow> Inl e
   | Inr from_day \<Rightarrow> (case parse_date (get ''end_date'') ''end_date'' of
       Inl e \<Rightarrow> Inl e
     | Inr to_day \<Rightarrow> (case (case get ''page'' of None \<Rightarrow> Some 1 | Some s \<Rightarrow> int_text s,
                        case get ''page_size'' of None \<Rightarrow> Some 20 | Some s \<Rightarrow> int_text s) of
         (Some page, Some per_page) \<Rightarrow> Inr \<lparr>hf_type = get ''type'', hf_start_date = from_day, hf_end_date = to_day, hf_page = page, hf_page_size = per_page\<rparr>
       | _ \<Rightarrow> Inl PlainValueError)))"

definition of_type :: "string option \<Rightarrow> history \<Rightarrow> bool" where
  "of_type t h = (case t of
     None \<Rightarrow> True
   | Some s \<Rightarrow> if s = [] then True else if s = ''earned'' then ph_points h > 0 else if s = ''used'' then ph_points h < 0
       else type_value (ph_type h) = s)"

definition newest_first :: "history list \<Rightarrow> history list" where
  "newest_first = sort_key (\<lambda>h. - ph_created_at h)"

record history_page =
  hp_items :: "history list"
  hp_total_count :: nat
  hp_page :: int
  hp_page_size :: int

text \<open>A slice of a query must not begin or end below zero.\<close>

definition get_filtered_history :: "pk \<Rightarrow> history_filter \<Rightarrow> db \<Rightarrow> query_error + history_page" where
  "get_filtered_history uid f d = (
     let rows = newest_first (filter (\<lambda>h. of_type (hf_type f) h
           \<and> (case hf_start_date f of None \<Rightarrow> True | Some day \<Rightarrow> start_of_day day \<le> ph_created_at h)
           \<and> (case hf_end_date f of None \<Rightarrow> True | Some day \<Rightarrow> ph_created_at h \<le> end_of_day day)) (user_histories uid d));
         from_row = (hf_page f - 1) * hf_page_size f; to_row = from_row + hf_page_size f
     in if from_row < 0 \<or> to_row < 0 then Inl PlainValueError
        else Inr \<lparr>hp_items = drop (nat from_row) (take (nat to_row) rows), hp_total_count = length rows, hp_page = hf_page f, hp_page_size = hf_page_size f\<rparr>)"

record history_summary =
  hs_current_points :: int
  hs_total_earned :: int
  hs_total_used :: int

definition get_history_summary :: "user \<Rightarrow> db \<Rightarrow> history_summary" where
  "get_history_summary u d = \<lparr>hs_current_points = u_points u, hs_total_earned = get_total_earned (u_id u) d, hs_total_used = get_total_used (u_id u) d\<rparr>"

record monthly_expiring =
  me_month :: string
  me_points :: int
  me_count :: nat

fun add_to_month :: "string \<Rightarrow> int \<Rightarrow> monthly_expiring list \<Rightarrow> monthly_expiring list" where
  "add_to_month m n [] = [\<lparr>me_month = m, me_points = n, me_count = 1\<rparr>]"
| "add_to_month m n (x # xs) = (if me_month x = m then x\<lparr>me_points := me_points x + n, me_count := Suc (me_count x)\<rparr> # xs
     else x # add_to_month m n xs)"

definition expiry :: "history \<Rightarrow> timestamp" where
  "expiry h = (case ph_expires_at h of None \<Rightarrow> 0 | Some e \<Rightarrow> e)"

definition expiring_rows :: "pk \<Rightarrow> int \<Rightarrow> timestamp \<Rightarrow> db \<Rightarrow> history list" where
  "expiring_rows uid days now d = sort_key expiry (filter (\<lambda>h. ph_type h = Earn \<and> ph_points h > 0
     \<and> expires_within (\<lambda>e. e \<le> now + days * 86400 \<and> now < e) h) (user_histories uid d))"

definition get_monthly_expiring_summary :: "pk \<Rightarrow> int \<Rightarrow> timestamp \<Rightarrow> db \<Rightarrow> monthly_expiring list \<times> history list \<times> int" where
  "get_monthly_expiring_summary uid days now d = (
     let rows = filter (\<lambda>h. remaining_points h > 0) (expiring_rows uid days now d)
     in (fold (\<lambda>h. add_to_month (month_key (expiry h)) (remaining_points h)) rows [], rows, get_expiring_soon uid days now d))"

record point_statistics =
  ps_current_points :: int
  ps_this_month :: "int \<times> int"
  ps_all_time :: "int \<times> int"
  ps_by_type :: "(point_type \<times> nat \<times> int) list"

definition by_type :: "history list \<Rightarrow> (point_type \<times> nat \<times> int) list" where
  "by_type hs = map (\<lambda>t. let xs = filter (\<lambda>h. ph_type h = t) hs in (t, length xs, sum_list (map ph_points xs))) (remdups (map ph_type hs))"

definition get_point_statistics :: "user \<Rightarrow> timestamp \<Rightarrow> db \<Rightarrow> point_statistics" where
  "get_point_statistics u now d = \<lparr>ps_current_points = u_points u, ps_this_month = get_month_statistics (u_id u) (this_month_start now) d,
     ps_all_time = (get_total_earned (u_id u) d, get_total_used (u_id u) d), ps_by_type = by_type (user_histories (u_id u) d)\<rparr>"

definition get_recent_histories :: "pk \<Rightarrow> nat \<Rightarrow> db \<Rightarrow> history list" where
  "get_recent_histories uid limit d = take limit (newest_first (user_histories uid d))"

section \<open>The months add up\<close>

lemma add_to_month_sums:
  "sum_list (map me_points (add_to_month m n xs)) = sum_list (map me_points xs) + n"
  "sum_list (map me_count (add_to_month m n xs)) = Suc (sum_list (map me_count xs))"
  by (induction xs) simp_all

lemma add_to_month_keys: "distinct (map me_month xs) \<Longrightarrow> distinct (map me_month (add_to_month m n xs))
    \<and> set (map me_month (add_to_month m n xs)) = insert m (set (map me_month xs))"
  by (induction xs) auto

lemma fold_months:
  "sum_list (map me_points (fold (\<lambda>h. add_to_month (key h) (f h)) rows xs)) = sum_list (map me_points xs) + sum_list (map f rows)"
  "sum_list (map me_count (fold (\<lambda>h. add_to_month (key h) (f h)) rows xs)) = sum_list (map me_count xs) + length rows"
  by (induction rows arbitrary: xs) (simp_all add: add_to_month_sums)

lemma fold_months_keys: "distinct (map me_month xs) \<Longrightarrow> distinct (map me_month (fold (\<lambda>h. add_to_month (key h) (f h)) rows xs))"
  by (induction rows arbitrary: xs) (simp_all add: add_to_month_keys)

lemma sum_positive: "(\<And>x. 0 \<le> f x) \<Longrightarrow> sum_list (map f (filter (\<lambda>x. f x > 0) xs)) = (sum_list (map f xs) :: int)"
  by (induction xs) (auto simp: not_less intro: antisym)

text \<open>No month is listed twice, the months add up to the total that the manager computes from the rows by itself, and their counts to
  the rows that are shown.\<close>

theorem months_add_up:
  assumes "get_monthly_expiring_summary uid days now d = (months, rows, all_points)"
  shows "sum_list (map me_points months) = all_points \<and> sum_list (map me_count months) = length rows \<and> distinct (map me_month months)"
proof -
  have "sum_list (map remaining_points (filter (\<lambda>h. remaining_points h > 0) (expiring_rows uid days now d))) = get_expiring_soon uid days now d"
    by (simp add: sum_positive remaining_nonneg expiring_rows_def sum_list_sort_key get_expiring_soon_def)
  then show ?thesis
    using assms by (auto simp: get_monthly_expiring_summary_def Let_def fold_months fold_months_keys)
qed

text \<open>A page has at most its size of rows.\<close>

lemma pages_bounded:
  assumes "get_filtered_history uid f d = Inr p"
  shows "length (hp_items p) \<le> nat (hf_page_size f) \<and> hp_total_count p \<le> length (user_histories uid d)"
  using assms by (auto simp: get_filtered_history_def newest_first_def Let_def split: if_splits)

section \<open>Examples\<close>

lemma calendar_examples:
  "civil_of 0 = (1970, 1, 1)" "days_of 2024 2 29 = 19782" "civil_of 19782 = (2024, 2, 29)" "month_key (19782 * 86400) = ''2024-02''"
  "parse_date (Some ''2024-2-29'') f = Inr (Some 19782)" "parse_date (Some ''2023-02-29'') f = Inl (DateParseError f)" "parse_date (Some ''24-1-1'') f = Inl (DateParseError f)"
  by code_simp+

text \<open>Page zero is an error that the view does not catch.\<close>

lemma page_zero_fails: "hf_page f = 0 \<Longrightarrow> 0 < hf_page_size f \<Longrightarrow> get_filtered_history uid f d = Inl PlainValueError"
  by (simp add: get_filtered_history_def Let_def)

end
