(* ===== verification/Fault_Injection.thy ===== *)
theory Fault_Injection
  imports Complex_Main Account_Texts Shop_State
begin

text \<open>
  The fault injection of \<^verbatim>\<open>src/shopping/chaos\<close>: its configuration from the environment, the breakpoints and the hooks in
  the payment code.  Everywhere else in this library the hooks are left out; here they are the identity whenever the master switch is off.

  A sleep, a raised exception and a skipped invalidation of the cache are results.  Probabilities are exact fractions in place of the
  machine's doubles, \<open>to_float\<close> is \<^verbatim>\<open>float\<close> of Python, and \<open>draw\<close> the random number of a call.  The list of affected endpoints, which
  nothing reads, and the log are left out.
\<close>

section \<open>Configuration\<close>

record chaos_config =
  cc_enabled :: bool
  cc_payment_confirm_delay :: bool
  cc_partial_failure :: bool
  cc_race_amplification :: bool
  cc_async_task_failure :: bool
  cc_phase2 :: bool
  cc_phase2_orphan_pg :: bool
  cc_phase2_rollback_failure :: bool
  cc_phase2_silent_task :: bool
  cc_phase2_point_orphan :: bool
  cc_phase2_race_amplify :: bool
  cc_phase2_cache_divergence :: bool
  cc_payment_confirm_delay_ms :: int
  cc_race_delay_ms :: int
  cc_partial_failure_probability :: rat
  cc_async_task_failure_probability :: rat
  cc_race_trigger_probability :: rat
  cc_counter :: nat

type_synonym environment = "string \<Rightarrow> string option"

definition getenv :: "environment \<Rightarrow> string \<Rightarrow> string \<Rightarrow> string" where
  "getenv env name fallback = (case env name of None \<Rightarrow> fallback | Some v \<Rightarrow> v)"

definition switch :: "environment \<Rightarrow> string \<Rightarrow> bool" where
  "switch env name \<longleftrightarrow> lower (getenv env name []) \<in> {''true'', ''1'', ''yes''}"

text \<open>Reading the configuration fails with \<^verbatim>\<open>ValueError\<close> when a number is not one.  \<open>to_int\<close> is \<^verbatim>\<open>int\<close> of Python.\<close>

definition load_config :: "(string \<Rightarrow> int option) \<Rightarrow> (string \<Rightarrow> rat option) \<Rightarrow> environment \<Rightarrow> exn + chaos_config" where
  "load_config to_int to_float env = (
     case (to_int (getenv env ''CHAOS_PAYMENT_CONFIRM_DELAY_MS'' ''2000''), to_int (getenv env ''CHAOS_RACE_DELAY_MS'' ''500''),
           to_float (getenv env ''CHAOS_PARTIAL_FAILURE_PROB'' ''0.3''), to_float (getenv env ''CHAOS_ASYNC_TASK_FAILURE_PROB'' ''0.2''),
           to_float (getenv env ''CHAOS_RACE_TRIGGER_PROB'' ''0.4'')) of
       (Some confirm_ms, Some race_ms, Some partial_prob, Some task_prob, Some race_prob) \<Rightarrow> Inr \<lparr>
         cc_enabled = switch env ''CHAOS_MODE'',
         cc_payment_confirm_delay = switch env ''CHAOS_PAYMENT_CONFIRM_DELAY'',
         cc_partial_failure = switch env ''CHAOS_PARTIAL_FAILURE'',
         cc_race_amplification = switch env ''CHAOS_RACE_AMPLIFICATION'',
         cc_async_task_failure = switch env ''CHAOS_ASYNC_TASK_FAILURE'',
         cc_phase2 = switch env ''PHASE2_CHAOS_MODE'',
         cc_phase2_orphan_pg = switch env ''PHASE2_ORPHAN_PG'',
         cc_phase2_rollback_failure = switch env ''PHASE2_ROLLBACK_FAILURE'',
         cc_phase2_silent_task = switch env ''PHASE2_SILENT_TASK'',
         cc_phase2_point_orphan = switch env ''PHASE2_POINT_ORPHAN'',
         cc_phase2_race_amplify = switch env ''PHASE2_RACE_AMPLIFY'',
         cc_phase2_cache_divergence = switch env ''PHASE2_CACHE_DIVERGENCE'',
         cc_payment_confirm_delay_ms = confirm_ms, cc_race_delay_ms = race_ms,
         cc_partial_failure_probability = partial_prob, cc_async_task_failure_probability = task_prob,
         cc_race_trigger_probability = race_prob, cc_counter = 0\<rparr>
     | _ \<Rightarrow> Inl ValueError)"

definition scenario_map :: "chaos_config \<Rightarrow> (string \<times> bool) list" where
  "scenario_map cfg = [
     (''payment_confirm_delay'', cc_payment_confirm_delay cfg), (''partial_failure'', cc_partial_failure cfg),
     (''race_amplification'', cc_race_amplification cfg), (''async_task_failure'', cc_async_task_failure cfg),
     (''phase2_orphan_pg'', cc_phase2_orphan_pg cfg), (''phase2_rollback_failure'', cc_phase2_rollback_failure cfg),
     (''phase2_silent_task'', cc_phase2_silent_task cfg), (''phase2_point_orphan'', cc_phase2_point_orphan cfg),
     (''phase2_race_amplify'', cc_phase2_race_amplify cfg), (''phase2_cache_divergence'', cc_phase2_cache_divergence cfg)]"

definition is_chaos_active :: "chaos_config \<Rightarrow> string option \<Rightarrow> bool" where
  "is_chaos_active cfg scenario = (
     if \<not> cc_enabled cfg then False
     else case scenario of
       None \<Rightarrow> True
     | Some s \<Rightarrow>
         if \<not> (cc_payment_confirm_delay cfg \<or> cc_partial_failure cfg \<or> cc_race_amplification cfg \<or> cc_async_task_failure cfg) then True
         else if cc_phase2 cfg \<and> take 7 s = ''phase2_'' then True
         else (case map_of (scenario_map cfg) s of None \<Rightarrow> False | Some b \<Rightarrow> b))"

text \<open>\<open>fixed\<close> is the switch \<^verbatim>\<open>CHAOS_DETERMINISTIC\<close>, which is read at each call.\<close>

definition should_trigger :: "bool \<Rightarrow> rat \<Rightarrow> rat option \<Rightarrow> chaos_config \<Rightarrow> bool \<times> chaos_config" where
  "should_trigger fixed draw probability cfg = (
     let p = (case probability of None \<Rightarrow> 1 | Some p \<Rightarrow> p)
     in if fixed then
          let cfg1 = cfg\<lparr>cc_counter := Suc (cc_counter cfg)\<rparr>;
              every = (if p > 0 then nat \<lfloor>1 / p\<rfloor> else 0)
          in (every > 0 \<and> cc_counter cfg1 mod every = 0, cfg1)
        else (draw < p, cfg))"

text \<open>In seconds.\<close>

definition get_delay_seconds :: "chaos_config \<Rightarrow> string \<Rightarrow> rat" where
  "get_delay_seconds cfg scenario = (
     if scenario = ''payment_confirm_delay'' then of_int (cc_payment_confirm_delay_ms cfg)
     else if scenario = ''race_amplification'' then of_int (cc_race_delay_ms cfg)
     else 1000) / 1000"

definition reset_counter :: "chaos_config \<Rightarrow> chaos_config" where
  "reset_counter cfg = cfg\<lparr>cc_counter := 0\<rparr>"

section \<open>Breakpoints\<close>

datatype bp_action = Delay | Exception | Skip | SkipFields | SkipInvalidation

record breakpoint =
  bp_name :: string
  bp_scenario :: string
  bp_action :: bp_action
  bp_stages :: "string list"
  bp_delay_ms :: "int option"
  bp_probability :: "rat option"

definition BREAKPOINT_DEFINITIONS :: "breakpoint list" where
  "BREAKPOINT_DEFINITIONS = [
     \<lparr>bp_name = ''payment_confirm_pre_db'', bp_scenario = ''payment_confirm_delay'', bp_action = Delay, bp_stages = [''stage4'', ''stage7''], bp_delay_ms = Some 2000, bp_probability = None\<rparr>,
     \<lparr>bp_name = ''payment_confirm_post_pg'', bp_scenario = ''partial_failure'', bp_action = Exception, bp_stages = [''stage5''], bp_delay_ms = None, bp_probability = Some (3 / 10)\<rparr>,
     \<lparr>bp_name = ''cancel_race_window'', bp_scenario = ''race_amplification'', bp_action = Delay, bp_stages = [''stage4'', ''stage7''], bp_delay_ms = Some 500, bp_probability = None\<rparr>,
     \<lparr>bp_name = ''confirm_race_window'', bp_scenario = ''race_amplification'', bp_action = Delay, bp_stages = [''stage4'', ''stage7''], bp_delay_ms = Some 500, bp_probability = None\<rparr>,
     \<lparr>bp_name = ''async_task_execute'', bp_scenario = ''async_task_failure'', bp_action = Exception, bp_stages = [''stage5'', ''stage10''], bp_delay_ms = None, bp_probability = Some (1 / 5)\<rparr>,
     \<lparr>bp_name = ''rollback_pre_restore'', bp_scenario = ''partial_failure'', bp_action = Exception, bp_stages = [''stage5''], bp_delay_ms = None, bp_probability = Some (1 / 10)\<rparr>,
     \<lparr>bp_name = ''bp21_orphan_pg_transaction'', bp_scenario = ''phase2_orphan_pg'', bp_action = Exception, bp_stages = [''stage6'', ''stage9'', ''stage12''], bp_delay_ms = None, bp_probability = Some (3 / 20)\<rparr>,
     \<lparr>bp_name = ''bp22_rollback_secondary_failure'', bp_scenario = ''phase2_rollback_failure'', bp_action = Exception, bp_stages = [''stage6'', ''stage11''], bp_delay_ms = None, bp_probability = Some (1 / 5)\<rparr>,
     \<lparr>bp_name = ''bp23_silent_task_failure'', bp_scenario = ''phase2_silent_task'', bp_action = Exception, bp_stages = [''stage9'', ''stage11''], bp_delay_ms = None, bp_probability = Some (1 / 4)\<rparr>,
     \<lparr>bp_name = ''bp24_webhook_order_inversion'', bp_scenario = ''phase2_webhook_inversion'', bp_action = Delay, bp_stages = [''stage12'', ''stage13''], bp_delay_ms = Some 2000, bp_probability = None\<rparr>,
     \<lparr>bp_name = ''bp25_idempotency_ttl_attack'', bp_scenario = ''phase2_idempotency_ttl'', bp_action = Delay, bp_stages = [''stage11'', ''stage13''], bp_delay_ms = Some 61000, bp_probability = None\<rparr>,
     \<lparr>bp_name = ''bp26_cb_dlq_disconnect'', bp_scenario = ''phase2_cb_dlq_disconnect'', bp_action = Skip, bp_stages = [''stage6'', ''stage12''], bp_delay_ms = None, bp_probability = Some 1\<rparr>,
     \<lparr>bp_name = ''bp27_race_window_amplify'', bp_scenario = ''phase2_race_amplify'', bp_action = Delay, bp_stages = [''stage11'', ''stage12'', ''stage13''], bp_delay_ms = Some 3000, bp_probability = None\<rparr>,
     \<lparr>bp_name = ''bp28_forensic_context_incomplete'', bp_scenario = ''phase2_forensic_incomplete'', bp_action = SkipFields, bp_stages = [''stage6'', ''stage9''], bp_delay_ms = None, bp_probability = Some (3 / 10)\<rparr>,
     \<lparr>bp_name = ''bp29_point_accumulation_orphan'', bp_scenario = ''phase2_point_orphan'', bp_action = Exception, bp_stages = [''stage9'', ''stage11''], bp_delay_ms = None, bp_probability = Some (1 / 5)\<rparr>,
     \<lparr>bp_name = ''bp30_cache_db_divergence'', bp_scenario = ''phase2_cache_divergence'', bp_action = SkipInvalidation, bp_stages = [''stage12'', ''stage13''], bp_delay_ms = None, bp_probability = Some (1 / 4)\<rparr>]"

definition get_breakpoint_info :: "string \<Rightarrow> breakpoint option" where
  "get_breakpoint_info name = find (\<lambda>b. bp_name b = name) BREAKPOINT_DEFINITIONS"

definition list_breakpoints :: "string list" where
  "list_breakpoints = map bp_name BREAKPOINT_DEFINITIONS"

definition get_breakpoints_for_stage :: "string \<Rightarrow> string list" where
  "get_breakpoints_for_stage stage = map bp_name (filter (\<lambda>b. stage \<in> set (bp_stages b)) BREAKPOINT_DEFINITIONS)"

datatype chaos_error = ChaosError | PartialFailureError | AsyncTaskChaosError
  | Phase2OrphanPGError | Phase2RollbackFailureError | Phase2SilentTaskError | Phase2PointOrphanError

datatype chaos_result = NotTriggered | Slept rat | Failed chaos_error string | SkippedInvalidation

type_synonym hook = "bool \<Rightarrow> rat \<Rightarrow> chaos_config \<Rightarrow> chaos_result \<times> chaos_config"

definition chaos_breakpoint :: "string \<Rightarrow> bool \<Rightarrow> hook" where
  "chaos_breakpoint name force fixed draw cfg = (case get_breakpoint_info name of
     None \<Rightarrow> (NotTriggered, cfg)
   | Some b \<Rightarrow>
       if \<not> is_chaos_active cfg (Some (bp_scenario b)) then (NotTriggered, cfg)
       else
         let probability = (case bp_action b of
               Delay \<Rightarrow> cc_race_trigger_probability cfg
             | Exception \<Rightarrow>
                 if bp_scenario b = ''partial_failure'' then cc_partial_failure_probability cfg
                 else if bp_scenario b = ''async_task_failure'' then cc_async_task_failure_probability cfg
                 else (case bp_probability b of None \<Rightarrow> 1 | Some p \<Rightarrow> p)
             | _ \<Rightarrow> (case bp_probability b of None \<Rightarrow> 1 | Some p \<Rightarrow> p));
             (go, cfg1) = (if force then (True, cfg) else should_trigger fixed draw (Some probability) cfg)
         in if \<not> go then (NotTriggered, cfg1)
            else case bp_action b of
              Delay \<Rightarrow> (Slept (get_delay_seconds cfg1 (bp_scenario b)), cfg1)
            | Exception \<Rightarrow> (Failed (if name = ''payment_confirm_post_pg'' then PartialFailureError
                else if name = ''async_task_execute'' then AsyncTaskChaosError else ChaosError) name, cfg1)
            | _ \<Rightarrow> (NotTriggered, cfg1))"

text \<open>The decorator around a function \<open>f\<close>: a failure before leaves the function out, one after comes when its work is done.\<close>

datatype 'x wrapped = Injected chaos_error | RaisedBy exn | Returned 'x

definition with_chaos :: "string \<Rightarrow> string \<Rightarrow> bool \<Rightarrow> rat \<Rightarrow> ('s \<Rightarrow> (exn + 'x) \<times> 's) \<Rightarrow> 's \<times> chaos_config \<Rightarrow> 'x wrapped \<times> 's \<times> chaos_config" where
  "with_chaos name position fixed draw f = (\<lambda>(s, cfg).
     case (if position = ''before'' then chaos_breakpoint name False fixed draw cfg else (NotTriggered, cfg)) of
       (Failed e bp, cfg1) \<Rightarrow> (Injected e, s, cfg1)
     | (_, cfg1) \<Rightarrow> (case f s of
         (Inl e, s1) \<Rightarrow> (RaisedBy e, s1, cfg1)
       | (Inr x, s1) \<Rightarrow> (case (if position = ''after'' then chaos_breakpoint name False fixed draw cfg1 else (NotTriggered, cfg1)) of
           (Failed e bp, cfg2) \<Rightarrow> (Injected e, s1, cfg2)
         | (_, cfg2) \<Rightarrow> (Returned x, s1, cfg2))))"

definition maybe_inject_delay :: "string \<Rightarrow> hook" where
  "maybe_inject_delay name fixed draw cfg = (case get_breakpoint_info name of
     None \<Rightarrow> (NotTriggered, cfg)
   | Some b \<Rightarrow> if bp_action b \<noteq> Delay then (NotTriggered, cfg) else chaos_breakpoint name False fixed draw cfg)"

definition maybe_inject_failure :: "string \<Rightarrow> hook" where
  "maybe_inject_failure name fixed draw cfg = (case get_breakpoint_info name of
     None \<Rightarrow> (NotTriggered, cfg)
   | Some b \<Rightarrow> if bp_action b \<noteq> Exception then (NotTriggered, cfg) else chaos_breakpoint name False fixed draw cfg)"

section \<open>The hooks\<close>

definition inject_payment_confirm_delay :: hook where
  "inject_payment_confirm_delay = maybe_inject_delay ''payment_confirm_pre_db''"

definition inject_partial_failure_after_pg :: hook where
  "inject_partial_failure_after_pg = maybe_inject_failure ''payment_confirm_post_pg''"

definition inject_cancel_race_delay :: hook where
  "inject_cancel_race_delay = maybe_inject_delay ''cancel_race_window''"

definition inject_confirm_race_delay :: hook where
  "inject_confirm_race_delay = maybe_inject_delay ''confirm_race_window''"

definition inject_async_task_failure :: hook where
  "inject_async_task_failure = maybe_inject_failure ''async_task_execute''"

definition inject_rollback_failure :: hook where
  "inject_rollback_failure = maybe_inject_failure ''rollback_pre_restore''"

text \<open>The hooks of the second phase have the same shape.\<close>

definition phase2_hook :: "string \<Rightarrow> (chaos_config \<Rightarrow> rat) \<Rightarrow> chaos_result \<Rightarrow> hook" where
  "phase2_hook scenario probability result fixed draw cfg = (
     if \<not> is_chaos_active cfg (Some scenario) then (NotTriggered, cfg)
     else case should_trigger fixed draw (Some (probability cfg)) cfg of
       (go, cfg1) \<Rightarrow> if \<not> go then (NotTriggered, cfg1) else (result, cfg1))"

definition inject_phase2_orphan_pg :: hook where
  "inject_phase2_orphan_pg = phase2_hook ''phase2_orphan_pg'' cc_partial_failure_probability (Failed Phase2OrphanPGError ''bp21_orphan_pg_transaction'')"

definition inject_phase2_rollback_failure :: hook where
  "inject_phase2_rollback_failure = phase2_hook ''phase2_rollback_failure'' (\<lambda>_. 1 / 5) (Failed Phase2RollbackFailureError ''bp22_rollback_secondary_failure'')"

definition inject_phase2_silent_task_failure :: hook where
  "inject_phase2_silent_task_failure = phase2_hook ''phase2_silent_task'' (\<lambda>_. 1 / 4) (Failed Phase2SilentTaskError ''bp23_silent_task_failure'')"

definition inject_phase2_point_orphan :: hook where
  "inject_phase2_point_orphan = phase2_hook ''phase2_point_orphan'' (\<lambda>_. 1 / 5) (Failed Phase2PointOrphanError ''bp29_point_accumulation_orphan'')"

definition inject_phase2_race_delay :: hook where
  "inject_phase2_race_delay = phase2_hook ''phase2_race_amplify'' (\<lambda>_. 2 / 5) (Slept 3)"

definition inject_phase2_cache_skip_invalidation :: hook where
  "inject_phase2_cache_skip_invalidation = phase2_hook ''phase2_cache_divergence'' (\<lambda>_. 1 / 4) SkippedInvalidation"

section \<open>Switched off\<close>

definition identity_hook :: "chaos_config \<Rightarrow> hook \<Rightarrow> bool" where
  "identity_hook cfg h \<longleftrightarrow> (\<forall>fixed draw. h fixed draw cfg = (NotTriggered, cfg))"

lemma inactive_when_off: "\<not> cc_enabled cfg \<Longrightarrow> \<not> is_chaos_active cfg s"
  by (simp add: is_chaos_active_def)

lemma breakpoint_off: "\<not> cc_enabled cfg \<Longrightarrow> identity_hook cfg (chaos_breakpoint name force)"
  by (simp add: identity_hook_def chaos_breakpoint_def inactive_when_off split: option.split)

lemma delay_off: "\<not> cc_enabled cfg \<Longrightarrow> identity_hook cfg (maybe_inject_delay name)"
  using breakpoint_off [of cfg name False] by (simp add: identity_hook_def maybe_inject_delay_def split: option.split)

lemma failure_off: "\<not> cc_enabled cfg \<Longrightarrow> identity_hook cfg (maybe_inject_failure name)"
  using breakpoint_off [of cfg name False] by (simp add: identity_hook_def maybe_inject_failure_def split: option.split)

lemma phase2_off: "\<not> cc_enabled cfg \<Longrightarrow> identity_hook cfg (phase2_hook scenario probability result)"
  by (simp add: identity_hook_def phase2_hook_def inactive_when_off)

lemma decorator_off:
  assumes "\<not> cc_enabled cfg"
  shows "with_chaos name position fixed draw f (s, cfg) = (case f s of (Inl e, s1) \<Rightarrow> (RaisedBy e, s1, cfg) | (Inr x, s1) \<Rightarrow> (Returned x, s1, cfg))"
  using breakpoint_off [OF assms, of name False] by (auto simp: with_chaos_def identity_hook_def split: prod.split sum.split)

text \<open>What the rest of the library relies on: with \<^verbatim>\<open>CHAOS_MODE\<close> not switched on, whatever the other variables say, every hook in the payment
  code does nothing.\<close>

theorem hooks_are_identity:
  assumes load: "load_config to_int to_float env = Inr cfg" and off: "lower (getenv env ''CHAOS_MODE'' []) \<notin> {''true'', ''1'', ''yes''}"
  shows "list_all (identity_hook cfg)
    [inject_payment_confirm_delay, inject_partial_failure_after_pg, inject_cancel_race_delay, inject_confirm_race_delay,
     inject_async_task_failure, inject_rollback_failure, inject_phase2_orphan_pg, inject_phase2_rollback_failure,
     inject_phase2_silent_task_failure, inject_phase2_point_orphan, inject_phase2_race_delay, inject_phase2_cache_skip_invalidation]"
proof -
  have "cc_enabled cfg = switch env ''CHAOS_MODE''"
    using load by (auto simp: load_config_def split: option.splits)
  then have "\<not> cc_enabled cfg"
    using off by (simp add: switch_def)
  then show ?thesis
    unfolding inject_payment_confirm_delay_def inject_partial_failure_after_pg_def inject_cancel_race_delay_def inject_confirm_race_delay_def
      inject_async_task_failure_def inject_rollback_failure_def inject_phase2_orphan_pg_def inject_phase2_rollback_failure_def
      inject_phase2_silent_task_failure_def inject_phase2_point_orphan_def inject_phase2_race_delay_def inject_phase2_cache_skip_invalidation_def
    by (simp add: delay_off failure_off phase2_off)
qed

section \<open>The deterministic mode\<close>

fun trigger_run :: "nat \<Rightarrow> rat \<Rightarrow> chaos_config \<Rightarrow> nat" where
  "trigger_run 0 p cfg = 0"
| "trigger_run (Suc n) p cfg = (case should_trigger True 0 (Some p) cfg of (go, cfg1) \<Rightarrow> (if go then 1 else 0) + trigger_run n p cfg1)"

lemma trigger_counts: "(if Suc c mod k = 0 then 1 else 0) + c div k = Suc c div k"
  by (simp add: div_Suc)

lemma trigger_run_count:
  assumes p: "0 < p" "p \<le> 1"
  shows "trigger_run n p cfg = (cc_counter cfg + n) div nat \<lfloor>1 / p\<rfloor> - cc_counter cfg div nat \<lfloor>1 / p\<rfloor>"
proof -
  have k: "0 < nat \<lfloor>1 / p\<rfloor>" (is "0 < ?k")
    using p by (simp add: le_floor_iff)
  have "trigger_run n p cfg + cc_counter cfg div ?k = (cc_counter cfg + n) div ?k"
  proof (induction n arbitrary: cfg)
    case (Suc n)
    let ?cfg = "cfg\<lparr>cc_counter := Suc (cc_counter cfg)\<rparr>"
    show ?case
      using Suc.IH [of ?cfg] trigger_counts [of "cc_counter cfg" "nat \<lfloor>1 / p\<rfloor>"] k p
      by (simp add: should_trigger_def Let_def split: if_splits)
  qed simp
  then show ?thesis
    by simp
qed

text \<open>Starting afresh, every k-th call triggers.\<close>

lemma trigger_rate:
  assumes "0 < p" "p \<le> 1"
  shows "trigger_run n p (reset_counter cfg) = n div nat \<lfloor>1 / p\<rfloor>"
  using trigger_run_count [OF assms, of n "reset_counter cfg"] by (simp add: reset_counter_def)

section \<open>What the code does besides\<close>

definition some_config :: chaos_config where
  "some_config = \<lparr>cc_enabled = True, cc_payment_confirm_delay = False, cc_partial_failure = False, cc_race_amplification = False,
     cc_async_task_failure = False, cc_phase2 = False, cc_phase2_orphan_pg = True, cc_phase2_rollback_failure = False, cc_phase2_silent_task = False,
     cc_phase2_point_orphan = False, cc_phase2_race_amplify = False, cc_phase2_cache_divergence = False, cc_payment_confirm_delay_ms = 2000,
     cc_race_delay_ms = 500, cc_partial_failure_probability = 3 / 10, cc_async_task_failure_probability = 1 / 5,
     cc_race_trigger_probability = 2 / 5, cc_counter = 0\<rparr>"

text \<open>Choosing one scenario of the second phase switches on all of both phases.\<close>

lemma one_phase2_switch_means_all: "is_chaos_active some_config (Some s)"
  by (simp add: is_chaos_active_def some_config_def)

text \<open>The delay given for a breakpoint is not used: the one that should outlast the idempotency key takes a second.\<close>

lemma breakpoint_delay_ignored:
  "map_option bp_delay_ms (get_breakpoint_info ''bp25_idempotency_ttl_attack'') = Some (Some 61000)
    \<and> fst (chaos_breakpoint ''bp25_idempotency_ttl_attack'' True False 0 some_config) = Slept 1"
  by (simp add: get_breakpoint_info_def BREAKPOINT_DEFINITIONS_def chaos_breakpoint_def one_phase2_switch_means_all get_delay_seconds_def)

text \<open>In the deterministic mode a probability above one half triggers always.\<close>

lemma high_probability_triggers_always: "trigger_run n (7 / 10) (reset_counter cfg) = n"
proof -
  have "\<lfloor>10 / 7 :: rat\<rfloor> = 1"
    by (simp add: floor_eq_iff)
  then show ?thesis
    by (simp add: trigger_rate)
qed

end
