(* ===== verification/Spec2Isabelle.thy ===== *)
theory Spec2Isabelle
  imports Point_Properties Order_Properties Webhook_Properties Return_Properties Cart_Properties Recovery_Properties
    Account_Properties Catalogue_Properties Point_Queries Fault_Injection
begin

text \<open>
  A verification development of the web shop in \<^verbatim>\<open>src/shopping\<close>, a Django application with Celery
  workers: customers fill carts, place orders that reserve stock, pay through the payment provider Toss and
  with points, earn points, cancel, and return goods, and manage their accounts.

  \<^bold>\<open>The parts of the program.\<close>  A request changes rows inside a database transaction and may leave messages
  for the workers (\<^verbatim>\<open>transaction.on_commit\<close>, \<^verbatim>\<open>task.delay\<close>).  The cart service prepares an order; the
  order service reserves stock and takes points; the payment service or the payment tasks ask the provider and
  mark the order as paid; the webhook service receives what the provider reports by itself; the return
  service takes goods back and refunds; the point service keeps the ledger that all of them write; periodic
  tasks expire orders and points and repair what got lost; the payment recovery retries failed payments.
  The account services register users, issue and revoke logins, verify addresses and reset passwords by mail.

  \<^bold>\<open>How the model works\<close> (theories \<open>Shop_Prelude\<close>, \<open>Shop_State\<close>).  A table is a list of rows in insertion order,
  a row a record with the columns of the model class, a status column a datatype.  \<open>db\<close> holds the tables, the
  sequence of primary keys, the outbox of messages, the Redis cache entries that the code uses, and whether the
  message broker can be reached.  An operation has type \<open>db \<Rightarrow> exn + 'a \<times> db\<close>: \<open>Inl\<close> is an exception, after which
  \<^verbatim>\<open>@transaction.atomic\<close> leaves the state unchanged; \<open>rbind\<close> sequences.  Tasks that write outside of a
  transaction have type \<open>db \<Rightarrow> outcome \<times> db\<close>, so that what they wrote before an exception stays.
  \<^verbatim>\<open>select_for_update\<close> serialises: interleavings are sequences of whole operations, and transition systems
  allow any order of them, with steps of the rest of the shop in between.  A time is a number of seconds and an
  argument of the operation.  Amounts are whole numbers (won); Python's integers and Django's decimals
  without places are \<open>int\<close>.  JSON values are the datatype \<open>json\<close>.  The locale \<open>int_column\<close> gives sums over an integer
  column, the locale \<open>transition_system\<close> the invariants of reachable states.

  \<^bold>\<open>Parameters.\<close>  What the repository does not contain is an argument: the provider and the network (\<open>http\<close>, a
  function from requests to responses or a network exception), the cipher of the package \<^verbatim>\<open>cryptography\<close>
  (\<open>fernet\<close>), the circuit breaker and the table of failed requests of the package \<^verbatim>\<open>selfhealing\<close> (\<open>breaker\<close>,
  \<open>create\<close>), the package for JSON web tokens (\<open>jwt_lib\<close>, with its documented behaviour as \<open>jwt_ok\<close>), Django's handling of
  passwords (\<open>pw_lib\<close>), SHA-256 (\<open>sha\<close>), the mail server (\<open>smtp\<close>), random numbers (\<open>draw\<close>), uuids, codes and token ids.  The hooks of the fault injection are left out of the payment
  code: \<open>Fault_Injection\<close> shows that they are the identity while their master switch is off.

  \<^bold>\<open>Points\<close> (\<open>models/point.py\<close>, \<open>services/point_service.py\<close>, \<open>tasks/point_tasks.py\<close>).  \<open>Points\<close> is the
  model.  \<open>Points_Ledger\<close> defines the invariant of the ledger and shows that all operations keep it,
  \<open>Points_Contract\<close> is the interface \<open>ledger_op\<close> and its interpretations, \<open>Points_Exact\<close> the exact effects.
  \<open>Point_Properties\<close>: the balance is the sum of the history in all reachable states, rows are used in the order of
  their expiry, using and refunding is a round trip, an expiry takes exactly what is left, the ledger is append only.
  \<open>Point_Queries\<close> has the pages and statistics of the history (\<open>services/point_query_service.py\<close>), with the dates of requests; the
  points that expire by month add up to their total.

  \<^bold>\<open>Orders\<close> (\<open>services/order_service.py\<close>, \<open>shipping_service.py\<close>, \<open>tasks/order_tasks.py\<close>, \<open>models/order.py\<close>).
  \<open>Pricing\<close> and \<open>Orders\<close> are the model.  \<open>Order_Stock\<close> defines what the orders hold and the invariant of the shop,
  \<open>Order_Contract\<close> and \<open>Order_Ops\<close> the contract \<open>shop_op\<close> of every operation: the invariant is kept and the pieces of a
  product on the shelf and in orders stay the same in total.  \<open>Order_Properties\<close>: cancelling succeeds exactly when it
  may and undoes the order, processing is all or nothing, the expiry of orders leaves none behind, amounts are right.

  \<^bold>\<open>Payments\<close> (\<open>models/payment.py\<close>, \<open>utils/toss_payment.py\<close>, \<open>services/payment_service.py\<close>, \<open>tasks/payment_tasks.py\<close>).
  \<open>Payments\<close>, \<open>Payment_Service\<close> and \<open>Payment_Tasks\<close> are the model, \<open>Payment_Ops\<close> and \<open>Payment_Task_Ops\<close> the contracts.
  \<open>Payment_Properties\<close>, \<open>Payment_Task_Properties\<close>, \<open>Payment_Chain\<close>: a refund made by the provider is never lost, a
  cancelled order cannot be paid, confirming and finalizing happen once, the asynchronous chain does what the
  synchronous confirmation does, nothing is rolled back while the outcome is in doubt.

  \<^bold>\<open>Webhooks\<close> (\<open>services/toss_webhook_service.py\<close>, \<open>webhooks/toss_webhook_view.py\<close>).  \<open>Webhooks\<close> is the model,
  \<open>Webhook_Ops\<close> the contracts, \<open>Webhook_Properties\<close> shows that only what a lookup at the provider confirms is applied,
  that a redelivery changes nothing, and that the books stay balanced.

  \<^bold>\<open>Returns\<close> (\<open>services/return_service.py\<close>, \<open>models/return_request.py\<close>, \<open>utils/encryption.py\<close>).  \<open>Account_Numbers\<close> and
  \<open>Returns\<close> are the model, \<open>Return_Ops\<close> the contracts, \<open>Return_System\<close> the transition system, \<open>Return_Shares\<close>,
  \<open>Return_Pieces\<close>, \<open>Return_Numbers\<close> the arithmetic of refunds, pieces and numbers.  \<open>Return_Properties\<close>: nothing is returned
  twice, partial refunds add up, a refund is never lost, account numbers are stored encrypted.

  \<^bold>\<open>Carts\<close> (\<open>services/cart_service.py\<close>, \<open>models/cart.py\<close>, the cart checks of \<open>serializers/order_serializers.py\<close>).  \<open>Carts\<close>
  is the model, \<open>Cart_Rows\<close> the constraints of the tables, \<open>Cart_Ops\<close> the contract \<open>cart_op\<close>, \<open>Cart_Merge\<close> and
  \<open>Cart_Checkout\<close> the merges and the way to an order.  \<open>Cart_Properties\<close>: the tables stay well-formed, a cleaned-up cart
  can be ordered, both merges agree.

  \<^bold>\<open>Recovery\<close> (\<open>services/payment_recovery_service.py\<close>, \<open>tasks/payment_recovery_tasks.py\<close>, \<open>handlers/replay_handlers.py\<close>).
  \<open>Payment_Recovery\<close> is the model; \<open>Recovery_Properties\<close> shows that retries end, that delays are bounded, and what the
  recovery does not guarantee.

  \<^bold>\<open>Accounts\<close> (\<open>models/email_verification.py\<close>, \<open>models/password_reset.py\<close>, \<open>services/user_service.py\<close>, \<open>token_service.py\<close>,
  \<open>email_verification_service.py\<close>, \<open>password_reset_service.py\<close>, \<open>social_auth_service.py\<close>, \<open>tasks/email_tasks.py\<close>,
  \<open>tasks/cleanup_tasks.py\<close> and the serializers in front of them).  Their tables share no column with the shop but the user's
  key, so they form a state of their own, \<open>adb\<close>; the login touches both.  \<open>Account_Texts\<close> has the texts the code
  reads, with the round trip of uuids, \<open>Free_Names\<close> the search for a name that is not taken (user names and slugs), \<open>Accounts\<close> and \<open>Account_Mail\<close> are the model, \<open>Account_System\<close> has the invariant and the
  transition system in which requests, mail tasks, sweeps and cleanups come in any order.  \<open>Account_Properties\<close>: a
  password change, a reset or a withdrawal ends the other logins for good; exactly the newest reset link works and works
  once; at most one mail goes out for each verification token; nobody is verified without a token.  The cleanup of
  old mail logs is modelled but no step of that system, since a deleted log no longer shows that its mail was sent.

  \<^bold>\<open>Catalogue\<close> (\<open>models/product.py\<close>, \<open>product_qa.py\<close>, \<open>notification.py\<close>, \<open>services/product_service.py\<close>,
  \<open>product_query_service.py\<close>, \<open>wishlist_service.py\<close>, \<open>product_qa_service.py\<close>, \<open>notification_service.py\<close>, \<open>dtos/product_filter.py\<close>,
  \<open>permissions.py\<close> and the views and serializers of products, categories, wish lists, questions and notifications).  Their tables are the
  record \<open>cdb\<close> beside the shop; the stock, price and name of a product stay in the shop, so that an operation has the type
  \<open>cdb \<times> db \<Rightarrow> cat_error + 'a \<times> cdb \<times> db\<close>.  \<open>Catalogue\<close> has categories, products, images, reviews and permissions, \<open>Listings\<close> the lists of
  products, \<open>Wishlist\<close> the wish lists, \<open>Questions\<close> questions, answers and notifications.  \<open>Category_Paths\<close> treats the two loops over
  categories, \<open>Wishlist_Ops\<close> the wish lists as sets (interface \<open>wish_change\<close>) and the move to the cart, \<open>Question_Ops\<close> the contract \<open>qna_op\<close>,
  \<open>Catalogue_System\<close> the invariant.  \<open>Catalogue_Properties\<close> has the transition system, in which requests come in any order with steps of
  carts and of the rest of the shop between: the tables stay well-formed, only its seller changes a product, a question is marked as answered
  exactly when it is, wish lists refine sets, and moving wishes puts them into the cart.  Parameters are Django's \<open>slugify\<close> and \<open>desc\<close>, the
  descendants of a category that the package mptt computes from its trees.

  \<^bold>\<open>Fault injection\<close> (\<open>chaos/config.py\<close>, \<open>breakpoints.py\<close>, \<open>decorators.py\<close>).  \<open>Fault_Injection\<close> has the configuration from the environment,
  the breakpoints and the hooks, and counts how often the deterministic mode triggers.

  \<^bold>\<open>Bounds and termination.\<close>  No definition uses fuel: loops over rows are folds or structural recursion, and the retries of
  a payment are a recursive function whose termination is proved from the number of attempts.  The search for a free user
  name or slug ends because only finitely many names are taken.  The two loops up the parents of a category are partial functions,
  as in the code they need not end; they are proved to end when the parents form a forest.

  \<^bold>\<open>Not modelled.\<close>  Views and serializers other than the parts named above, urls and throttles translate between
  HTTP and the services.  Of the catalogue, the tree of all categories with its cache and sorting by a text (whose order the
  database decides) are left out.  Of the accounts, the HTTP exchange with social providers, the profile fields other than the
  address, sellers and the deletion of unverified users are left out.  The admin site, settings, migrations,
  the middleware that breaks connections on request, load tests, scripts and tools are not part of the program's logic.  Texts for users and logs are
  not modelled, except where the program compares or stores them.
\<close>

end
